(* ===== verification/Prelude3270.thy ===== *)
theory Prelude3270
  imports "HOL-Library.Word" "HOL-Library.AList"
begin

text \<open>
  Shared vocabulary of the development: bytes and byte strings, Python slices and indexing,
  big-endian and six-bit address decoding, dictionaries as association lists, histories of
  bounded length, and the two interfaces several components share: a log that forgets its
  oldest entry (\<open>bounded_log\<close>) and a consumer that may be fed its input in chunks
  (\<open>chunked_feed\<close>).

  Python integers are \<open>int\<close>. A member of a \<open>bytes\<close> or \<open>bytearray\<close> object is an
  \<open>8 word\<close>, so a byte string is a \<open>byte list\<close>. Read positions, which the source only ever
  sets to non-negative values, are \<open>nat\<close>.
\<close>

unbundle bit_operations_syntax

type_synonym byte = "8 word"

type_synonym bytes = "byte list"

named_theorems adv_rules \<open>parser operations never move the read position backwards\<close>

named_theorems keep_rules \<open>operations that keep an arbitrary invariant of the screen\<close>

named_theorems wf_rules \<open>operations that keep the screen well formed\<close>

text \<open>The built-in exceptions the modelled code raises.\<close>

datatype py_error = ValueError | IndexError | TypeError | KeyError | ZeroDivisionError | AttributeError

section \<open>Python sequences\<close>

text \<open>A slice bound: negative values count from the end, and every value is clamped.\<close>

definition py_bound :: "int \<Rightarrow> int \<Rightarrow> int" where
  "py_bound n i = (if i < 0 then max 0 (n + i) else min i n)"

definition py_slice :: "'a list \<Rightarrow> int \<Rightarrow> int \<Rightarrow> 'a list" where
  "py_slice xs a b =
     (let n = int (length xs); i = py_bound n a; j = py_bound n b
      in take (nat (j - i)) (drop (nat i) xs))"

text \<open>Indexing: \<open>None\<close> is the \<open>IndexError\<close>.\<close>

definition py_get :: "'a list \<Rightarrow> int \<Rightarrow> 'a option" where
  "py_get xs i =
     (let n = int (length xs); j = (if i < 0 then n + i else i)
      in if 0 \<le> j \<and> j < n then Some (xs ! nat j) else None)"

text \<open>\<open>xs.index(x)\<close>: the first position; \<open>None\<close> is the \<open>ValueError\<close>.\<close>

fun index_of :: "'a \<Rightarrow> 'a list \<Rightarrow> nat option" where
  "index_of x [] = None"
| "index_of x (y # ys) = (if x = y then Some 0 else map_option Suc (index_of x ys))"

lemma index_ofD: "index_of x xs = Some i \<Longrightarrow> i < length xs \<and> xs ! i = x"
  by (induction xs arbitrary: i) (auto split: if_splits)

lemma index_of_Some: "x \<in> set xs \<Longrightarrow> \<exists>i. index_of x xs = Some i"
  by (induction xs) auto

lemma index_of_None: "index_of x xs = None \<longleftrightarrow> x \<notin> set xs"
  by (induction xs) auto

lemma index_of_nth: "distinct xs \<Longrightarrow> i < length xs \<Longrightarrow> index_of (xs ! i) xs = Some i"
  by (metis nth_eq_iff_index_eq nth_mem index_ofD index_of_Some)

lemma py_slice_nonneg:
  assumes "0 \<le> a" and "0 \<le> b"
  shows "py_slice xs a b = take (nat b - nat a) (drop (nat a) xs)"
proof (cases "a \<le> int (length xs)")
  case True
  show ?thesis
  proof (cases "b \<le> int (length xs)")
    case True
    with \<open>a \<le> int (length xs)\<close> assms show ?thesis
      by (simp add: py_slice_def py_bound_def Let_def nat_diff_distrib')
  next
    case False
    with True assms have "length (drop (nat a) xs) \<le> nat b - nat a" by simp
    moreover have "length (drop (nat a) xs) \<le> nat (int (length xs) - a)"
      using True assms by simp
    ultimately show ?thesis using False True assms
      by (simp add: py_slice_def py_bound_def Let_def)
  qed
next
  case False
  with assms show ?thesis
    by (simp add: py_slice_def py_bound_def Let_def)
qed

lemma length_py_slice:
  assumes "0 \<le> a" and "a \<le> b" and "b \<le> int (length xs)"
  shows "length (py_slice xs a b) = nat (b - a)"
  using assms by (simp add: py_slice_nonneg nat_diff_distrib)

lemma py_get_nonneg:
  "0 \<le> i \<Longrightarrow> i < int (length xs) \<Longrightarrow> py_get xs i = Some (xs ! nat i)"
  by (simp add: py_get_def)

section \<open>Bytes and addresses\<close>

text \<open>\<open>(hi << 8) | lo\<close>\<close>

definition be16 :: "byte \<Rightarrow> byte \<Rightarrow> int" where
  "be16 hi lo = (push_bit 8 (uint hi) OR uint lo)"

text \<open>\<open>((hi & 0x3F) << 6) | (lo & 0x3F)\<close>\<close>

definition addr12 :: "byte \<Rightarrow> byte \<Rightarrow> int" where
  "addr12 hi lo = (push_bit 6 (uint (hi AND 0x3F)) OR uint (lo AND 0x3F))"

lemma uint_byte_lt [simp]: "uint (b :: byte) < 256"
  using uint_lt2p [of b] by simp

lemma int_shift_or:
  fixes a b :: int
  assumes "0 \<le> b" and "b < 2 ^ n"
  shows "(push_bit n a OR b) = a * 2 ^ n + b"
proof -
  have "b = take_bit n b"
    using assms by (simp add: take_bit_int_eq_self)
  then have "(push_bit n a AND b) = 0"
    by (metis and.commute bit_eq_iff bit_and_iff bit_push_bit_iff bit_take_bit_iff bit_0_eq
        bot_apply bot_bool_def linorder_not_le)
  then have "(push_bit n a OR b) = push_bit n a + b"
    by (simp add: disjunctive_add_eq_or)
  then show ?thesis by (simp add: push_bit_eq_mult)
qed

lemma be16_eq: "be16 hi lo = uint hi * 256 + uint lo"
  using int_shift_or [of "uint lo" 8 "uint hi"] by (simp add: be16_def)

lemma uint_and_3f: "uint ((b :: byte) AND 0x3F) = uint b mod 64"
proof -
  have "uint (b AND 0x3F) = (uint b AND 63)" by (simp add: uint_and)
  also have "\<dots> = take_bit 6 (uint b)"
    by (simp add: take_bit_eq_mask mask_eq_exp_minus_1)
  also have "\<dots> = uint b mod 64" by (simp add: take_bit_eq_mod)
  finally show ?thesis .
qed

lemma addr12_eq: "addr12 hi lo = (uint hi mod 64) * 64 + uint lo mod 64"
  using int_shift_or [of "uint lo mod 64" 6 "uint hi mod 64"]
  by (simp add: addr12_def uint_and_3f)

lemma be16_range: "0 \<le> be16 hi lo \<and> be16 hi lo < 65536"
proof -
  have "uint hi < 256" "uint lo < 256" "0 \<le> uint hi" "0 \<le> uint lo" by simp_all
  then show ?thesis unfolding be16_eq by linarith
qed

lemma addr12_range: "0 \<le> addr12 hi lo \<and> addr12 hi lo < 4096"
proof -
  have "uint hi mod 64 < 64" "uint lo mod 64 < 64" by simp_all
  moreover have "0 \<le> uint hi mod 64" "0 \<le> uint lo mod 64" by simp_all
  ultimately show ?thesis unfolding addr12_eq by linarith
qed

section \<open>Positions of a rectangular buffer\<close>

lemma linear_bounds:
  fixes r c :: int
  assumes "0 \<le> r" and "r < R" and "0 \<le> c" and "c < C"
  shows "0 \<le> r * C + c \<and> r * C + c < R * C"
proof -
  have "0 \<le> C" using assms by linarith
  have "r * C + c < r * C + C" using assms by linarith
  also have "\<dots> = (r + 1) * C" by (simp add: algebra_simps)
  also have "\<dots> \<le> R * C" using assms \<open>0 \<le> C\<close> by (intro mult_right_mono) linarith+
  finally have "r * C + c < R * C" .
  moreover have "0 \<le> r * C" using assms \<open>0 \<le> C\<close> by simp
  ultimately show ?thesis using assms by linarith
qed

lemma linear_div_mod:
  fixes r c :: int
  assumes "0 \<le> c" and "c < C"
  shows "(r * C + c) div C = r" and "(r * C + c) mod C = c"
  using assms by simp_all

lemma coords_bounds:
  fixes i :: int
  assumes "0 \<le> i" and "i < R * C" and "0 < C"
  shows "0 \<le> i div C" and "i div C < R" and "0 \<le> i mod C" and "i mod C < C"
proof -
  show "0 \<le> i div C" using assms by (simp add: pos_imp_zdiv_nonneg_iff)
  show "i div C < R"
  proof (rule ccontr)
    assume "\<not> i div C < R"
    then have "R * C \<le> i div C * C" using assms by (intro mult_right_mono) linarith+
    also have "\<dots> \<le> i" using assms
      by (metis div_mult_mod_eq le_add_same_cancel1 pos_mod_sign)
    finally show False using assms by linarith
  qed
  show "0 \<le> i mod C" and "i mod C < C" using assms by simp_all
qed

section \<open>Logs that forget their oldest entry\<close>

text \<open>
  Three components append an entry to a list and drop its head when the list has grown past a
  limit: the sequence-number history and the state history of the connection handler, and the
  log of malformed headers.
\<close>

definition push_limited :: "int \<Rightarrow> 'a list \<Rightarrow> 'a \<Rightarrow> 'a list" where
  "push_limited m xs x = (let ys = xs @ [x] in if int (length ys) > m then tl ys else ys)"

locale bounded_log =
  fixes push :: "'s \<Rightarrow> 'a \<Rightarrow> 's"
    and entries :: "'s \<Rightarrow> 'e list"
    and limit :: "'s \<Rightarrow> int"
    and entry :: "'a \<Rightarrow> 'e"
  assumes entries_push: "entries (push s x) = push_limited (limit s) (entries s) (entry x)"
    and limit_push: "limit (push s x) = limit s"
begin

lemma push_bounded:
  assumes "0 < limit s" and "int (length (entries s)) \<le> limit s"
  shows "int (length (entries (push s x))) \<le> limit (push s x)"
  using assms by (simp add: entries_push limit_push push_limited_def Let_def)

lemma fold_push_bounded:
  assumes "0 < limit s" and "int (length (entries s)) \<le> limit s"
  shows "int (length (entries (foldl push s xs))) \<le> limit s"
  using assms
proof (induction xs arbitrary: s)
  case Nil
  then show ?case by simp
next
  case (Cons x xs)
  have "int (length (entries (foldl push (push s x) xs))) \<le> limit (push s x)"
    using Cons.prems push_bounded [of s x] by (intro Cons.IH) (simp_all add: limit_push)
  then show ?case by (simp add: limit_push)
qed

lemma last_push:
  assumes "0 < limit s"
  shows "entries (push s x) \<noteq> [] \<and> last (entries (push s x)) = entry x"
proof (cases "entries s")
  case Nil
  then show ?thesis using assms by (simp add: entries_push push_limited_def Let_def)
next
  case (Cons y ys)
  then show ?thesis by (simp add: entries_push push_limited_def Let_def)
qed

end

section \<open>Input that arrives in chunks\<close>

text \<open>
  A consumer that is fed a byte stream piece by piece. The law says that feeding two pieces is
  feeding their concatenation; the client's fact is that the way a stream is cut does not matter.
\<close>

locale chunked_feed =
  fixes feed :: "'s \<Rightarrow> 'a list \<Rightarrow> 's"
    and ok :: "'s \<Rightarrow> bool"
  assumes feed_append: "ok s \<Longrightarrow> feed s (xs @ ys) = feed (feed s xs) ys"
    and feed_ok: "ok s \<Longrightarrow> ok (feed s xs)"
    and feed_Nil: "ok s \<Longrightarrow> feed s [] = s"
begin

lemma feed_concat: "ok s \<Longrightarrow> foldl feed s chunks = feed s (concat chunks)"
proof (induction chunks arbitrary: s)
  case Nil
  then show ?case by (simp add: feed_Nil)
next
  case (Cons c cs)
  then show ?case by (simp add: feed_append feed_ok)
qed

lemma chunking_irrelevant:
  assumes "ok s" and "concat cs = concat ds"
  shows "foldl feed s cs = foldl feed s ds"
  using assms by (simp add: feed_concat)

end

end
