(* ===== verification/FieldAttributes.thy ===== *)
theory FieldAttributes
  imports Prelude3270
begin

text \<open>
  \<open>pure3270/emulation/field_attributes.py\<close>: the extended attributes of a screen position. The
  seven subclasses of \<open>ExtendedAttribute\<close> become the constructors of one datatype; a value that
  could not be wrapped is kept raw, as the source does. An attribute set is a dictionary from
  attribute names to attributes, in insertion order.

  A value given to a constructor is an integer or a string (\<open>pyval\<close>). \<open>str.lower\<close> and
  \<open>int(str)\<close> are modelled for ASCII text: white space around an optional sign and decimal
  digits; the digit separator \<open>_\<close> and non-ASCII digits are left out.
\<close>

datatype pyval = PInt int | PStr string

section \<open>Strings\<close>

definition lower_char :: "char \<Rightarrow> char" where
  "lower_char c = (if 65 \<le> (of_char c :: nat) \<and> (of_char c :: nat) \<le> 90
                   then char_of ((of_char c :: nat) + 32) else c)"

definition lower :: "string \<Rightarrow> string" where
  "lower s = map lower_char s"

definition is_space_char :: "char \<Rightarrow> bool" where
  "is_space_char c \<longleftrightarrow> (let n = (of_char c :: nat) in n = 32 \<or> (9 \<le> n \<and> n \<le> 13) \<or> (28 \<le> n \<and> n \<le> 31))"

definition strip :: "string \<Rightarrow> string" where
  "strip s = rev (dropWhile is_space_char (rev (dropWhile is_space_char s)))"

definition is_digit_char :: "char \<Rightarrow> bool" where
  "is_digit_char c \<longleftrightarrow> 48 \<le> (of_char c :: nat) \<and> (of_char c :: nat) \<le> 57"

definition is_alpha_char :: "char \<Rightarrow> bool" where
  "is_alpha_char c \<longleftrightarrow> (let n = (of_char c :: nat) in (65 \<le> n \<and> n \<le> 90) \<or> (97 \<le> n \<and> n \<le> 122))"

definition digits_value :: "string \<Rightarrow> int" where
  "digits_value = foldl (\<lambda>v c. v * 10 + (int (of_char c) - 48)) 0"

definition unsign :: "string \<Rightarrow> int \<times> string" where
  "unsign s = (case s of [] \<Rightarrow> (1, [])
     | c # cs \<Rightarrow> (if c = CHR ''-'' then (-1, cs) else if c = CHR ''+'' then (1, cs) else (1, s)))"

text \<open>\<open>int(s)\<close>; \<open>None\<close> is the \<open>ValueError\<close>.\<close>

definition py_int :: "string \<Rightarrow> int option" where
  "py_int s = (let (sg, ds) = unsign (strip s)
     in if ds \<noteq> [] \<and> list_all is_digit_char ds then Some (sg * digits_value ds) else None)"

section \<open>Attributes\<close>

datatype attr_class = ColorA | HighlightA | ValidationA | OutliningA | LightPenA | BackgroundA | CharacterSetA

text \<open>
  An attribute: its class, its value, and for a validation attribute its limits. The custom rule
  of a validation attribute is never evaluated by the source and is kept as a flag.
\<close>

datatype attr =
    Attr attr_class int
  | ValAttr int "int option" "int option" bool
  | Raw int

fun attr_class_of :: "attr \<Rightarrow> attr_class option" where
  "attr_class_of (Attr c _) = Some c"
| "attr_class_of (ValAttr _ _ _ _) = Some ValidationA"
| "attr_class_of (Raw _) = None"

fun attr_value :: "attr \<Rightarrow> int" where
  "attr_value (Attr _ v) = v"
| "attr_value (ValAttr v _ _ _) = v"
| "attr_value (Raw v) = v"

definition BASE_COLORS :: "(int \<times> string) list" where
  "BASE_COLORS =
     [(0, ''neutral_black''), (1, ''blue''), (2, ''red''), (3, ''pink''), (4, ''green''),
      (5, ''turquoise''), (6, ''yellow''), (7, ''neutral_white''), (8, ''black''),
      (9, ''deep_blue''), (10, ''orange''), (11, ''purple''), (12, ''pale_green''),
      (13, ''pale_turquoise''), (14, ''grey''), (15, ''white'')]"

definition EFFECT_NAMES :: "(int \<times> string) list" where
  "EFFECT_NAMES =
     [(0x00, ''normal''), (0x01, ''blink''), (0x02, ''reverse''), (0x04, ''underscore''),
      (0x08, ''high_intensity''), (0x10, ''low_intensity'')]"

definition VALIDATION_NAMES :: "(int \<times> string) list" where
  "VALIDATION_NAMES =
     [(0x00, ''none''), (0x01, ''mandatory''), (0x02, ''numeric''), (0x04, ''alphabetic''),
      (0x08, ''alphanumeric''), (0x10, ''min_length''), (0x20, ''max_length''), (0x40, ''custom'')]"

definition STYLE_NAMES :: "(int \<times> string) list" where
  "STYLE_NAMES =
     [(0x00, ''none''), (0x01, ''underline''), (0x02, ''overline''), (0x04, ''left_line''),
      (0x08, ''right_line''), (0x0F, ''box''), (0x10, ''double_line''), (0x20, ''dashed''),
      (0x40, ''dotted'')]"

definition CHARACTER_SETS :: "(int \<times> string) list" where
  "CHARACTER_SETS =
     [(0x00, ''default''), (0x01, ''apl''), (0x02, ''katakana''), (0x03, ''user1''),
      (0x04, ''user2''), (0x05, ''user3''), (0x06, ''user4''), (0x41, ''dbcs_katakana''),
      (0x42, ''dbcs_hiragana''), (0x43, ''dbcs_kanji''), (0x44, ''dbcs_mixed''),
      (0x45, ''dbcs_chinese''), (0x46, ''dbcs_korean''), (0xF1, ''dbcs_chinese_host''),
      (0xF2, ''dbcs_japanese_host''), (0xF3, ''dbcs_korean_host''), (0xF4, ''dbcs_thai_host''),
      (0xF5, ''dbcs_arabic_host''), (0xF6, ''dbcs_hebrew_host''), (0xF7, ''dbcs_latin2_host''),
      (0xF8, ''dbcs_latin3_host''), (0xF9, ''dbcs_latin4_host''), (0xFA, ''dbcs_greek_host''),
      (0xFB, ''dbcs_cyrillic_host''), (0xFC, ''dbcs_turkish_host''), (0xFD, ''dbcs_latin5_host''),
      (0xFE, ''dbcs_japanese_extended'')]"

definition find_name :: "(int \<times> string) list \<Rightarrow> string \<Rightarrow> int option" where
  "find_name names s = map_option fst (find (\<lambda>(v, name). name = lower s) names)"

text \<open>The branch all classes but light pen and character set share: name, then number, then range.\<close>

definition normalize_named :: "(int \<times> string) list \<Rightarrow> pyval \<Rightarrow> py_error + int" where
  "normalize_named names value =
     (case (case value of
              PInt i \<Rightarrow> Inr i
            | PStr s \<Rightarrow>
                (case find_name names s of
                   Some v \<Rightarrow> Inr v
                 | None \<Rightarrow> (case py_int s of Some i \<Rightarrow> Inr i | None \<Rightarrow> Inl ValueError))) of
        Inl e \<Rightarrow> Inl e
      | Inr v \<Rightarrow> if 0 \<le> v \<and> v \<le> 255 then Inr v else Inl ValueError)"

definition normalize_color :: "pyval \<Rightarrow> py_error + int" where
  "normalize_color = normalize_named BASE_COLORS"

definition normalize_highlight :: "pyval \<Rightarrow> py_error + int" where
  "normalize_highlight = normalize_named EFFECT_NAMES"

definition normalize_validation :: "pyval \<Rightarrow> py_error + int" where
  "normalize_validation = normalize_named VALIDATION_NAMES"

definition normalize_outlining :: "pyval \<Rightarrow> py_error + int" where
  "normalize_outlining = normalize_named STYLE_NAMES"

definition normalize_background :: "pyval \<Rightarrow> py_error + int" where
  "normalize_background = normalize_named BASE_COLORS"

definition normalize_light_pen :: "pyval \<Rightarrow> py_error + int" where
  "normalize_light_pen value =
     (case (case value of
              PInt i \<Rightarrow> Inr i
            | PStr s \<Rightarrow> (case py_int s of Some i \<Rightarrow> Inr i | None \<Rightarrow> Inl ValueError)) of
        Inl e \<Rightarrow> Inl e
      | Inr v \<Rightarrow> if v = 0 \<or> v = 1 then Inr v else Inl ValueError)"

definition normalize_charset :: "pyval \<Rightarrow> py_error + int" where
  "normalize_charset value =
     (case value of
        PStr s \<Rightarrow> (case find_name CHARACTER_SETS s of Some v \<Rightarrow> Inr v | None \<Rightarrow> Inl ValueError)
      | PInt v \<Rightarrow> if 0 \<le> v \<and> v \<le> 0xFF then Inr v else Inl ValueError)"

definition validate_and_normalize :: "attr_class \<Rightarrow> pyval \<Rightarrow> py_error + int" where
  "validate_and_normalize c =
     (case c of
        ColorA \<Rightarrow> normalize_color
      | HighlightA \<Rightarrow> normalize_highlight
      | ValidationA \<Rightarrow> normalize_validation
      | OutliningA \<Rightarrow> normalize_outlining
      | LightPenA \<Rightarrow> normalize_light_pen
      | BackgroundA \<Rightarrow> normalize_background
      | CharacterSetA \<Rightarrow> normalize_charset)"

text \<open>Construction, with the default limits of a validation attribute.\<close>

definition make_attr :: "attr_class \<Rightarrow> pyval \<Rightarrow> py_error + attr" where
  "make_attr c value =
     (case validate_and_normalize c value of
        Inl e \<Rightarrow> Inl e
      | Inr v \<Rightarrow> Inr (if c = ValidationA then ValAttr v None None False else Attr c v))"

definition attr_ok :: "attr \<Rightarrow> bool" where
  "attr_ok a \<longleftrightarrow>
     (case a of
        Attr c v \<Rightarrow> c \<noteq> ValidationA \<and> 0 \<le> v \<and> v \<le> 255 \<and> (c = LightPenA \<longrightarrow> v \<le> 1)
      | ValAttr v _ _ _ \<Rightarrow> 0 \<le> v \<and> v \<le> 255
      | Raw _ \<Rightarrow> True)"

lemma find_name_set: "find_name names s = Some v \<Longrightarrow> v \<in> fst ` set names"
  by (auto simp: find_name_def find_Some_iff image_iff) (metis fst_conv nth_mem)

lemma normalize_named_range: "normalize_named names x = Inr v \<Longrightarrow> 0 \<le> v \<and> v \<le> 255"
  by (auto simp: normalize_named_def split: sum.splits if_splits)

lemma charset_range: "v \<in> fst ` set CHARACTER_SETS \<Longrightarrow> 0 \<le> v \<and> v \<le> 255"
  by (auto simp: CHARACTER_SETS_def)

lemma validate_and_normalize_range:
  assumes "validate_and_normalize c x = Inr v"
  shows "0 \<le> v \<and> v \<le> 255 \<and> (c = LightPenA \<longrightarrow> v \<le> 1)"
proof (cases c)
  case CharacterSetA
  with assms show ?thesis
    using charset_range find_name_set
    by (fastforce simp: validate_and_normalize_def normalize_charset_def
        split: pyval.splits option.splits if_splits)
qed (use assms normalize_named_range in
      \<open>auto simp: validate_and_normalize_def normalize_color_def normalize_highlight_def
        normalize_validation_def normalize_outlining_def normalize_background_def
        normalize_light_pen_def split: sum.splits if_splits\<close>)

text \<open>
  Construction validates: whatever value is given, a constructed attribute holds a value in
  its class's range, 0 or 1 for a light pen and 0 to 255 otherwise; an integer in range is kept
  as it is, and an integer out of range is refused with \<open>ValueError\<close>.
\<close>

lemma make_attr_validates:
  "(\<forall>a. make_attr c x = Inr a \<longrightarrow> attr_ok a \<and> attr_class_of a = Some c)
   \<and> (\<forall>i. 0 \<le> i \<and> i \<le> (if c = LightPenA then 1 else 255) \<longrightarrow>
         (\<exists>a. make_attr c (PInt i) = Inr a \<and> attr_value a = i))
   \<and> (\<forall>i. i < 0 \<or> i > (if c = LightPenA then 1 else 255) \<longrightarrow>
         make_attr c (PInt i) = Inl ValueError)"
proof (intro conjI allI impI)
  fix a assume "make_attr c x = Inr a"
  then obtain v where v: "validate_and_normalize c x = Inr v"
    and a: "a = (if c = ValidationA then ValAttr v None None False else Attr c v)"
    by (auto simp: make_attr_def split: sum.splits)
  from validate_and_normalize_range [OF v] a show "attr_ok a"
    by (auto simp: attr_ok_def)
  from a show "attr_class_of a = Some c" by auto
qed (cases c; auto simp: make_attr_def validate_and_normalize_def normalize_color_def
    normalize_highlight_def normalize_validation_def normalize_outlining_def
    normalize_background_def normalize_light_pen_def normalize_named_def normalize_charset_def)+

section \<open>Bit sets\<close>

text \<open>\<open>has_effect\<close>, \<open>has_validation\<close> and \<open>has_style\<close> test a mask; the setters add or remove it.\<close>

definition has_effect :: "int \<Rightarrow> int \<Rightarrow> bool" where
  "has_effect v effect \<longleftrightarrow> (v AND effect) \<noteq> 0"

definition set_effect :: "int \<Rightarrow> int \<Rightarrow> bool \<Rightarrow> int" where
  "set_effect v effect enabled = (if enabled then v OR effect else v AND (NOT effect))"

definition has_validation :: "int \<Rightarrow> int \<Rightarrow> bool" where
  "has_validation v t \<longleftrightarrow> (v AND t) \<noteq> 0"

definition set_validation :: "int \<Rightarrow> int \<Rightarrow> bool \<Rightarrow> int" where
  "set_validation v t enabled = (if enabled then v OR t else v AND (NOT t))"

definition has_style :: "int \<Rightarrow> int \<Rightarrow> bool" where
  "has_style v style \<longleftrightarrow> (v AND style) \<noteq> 0"

definition set_style :: "int \<Rightarrow> int \<Rightarrow> bool \<Rightarrow> int" where
  "set_style v style enabled = (if enabled then v OR style else v AND (NOT style))"

definition is_box :: "int \<Rightarrow> bool" where
  "is_box v \<longleftrightarrow> (v AND 0x0F) = 0x0F"

definition is_base_color :: "int \<Rightarrow> bool" where
  "is_base_color v \<longleftrightarrow> 0 \<le> v \<and> v \<le> 15"

definition is_extended_color :: "int \<Rightarrow> bool" where
  "is_extended_color v \<longleftrightarrow> 16 \<le> v \<and> v \<le> 255"

definition get_color_name :: "int \<Rightarrow> string option" where
  "get_color_name v = (if v \<le> 15 then map_of BASE_COLORS v else None)"

definition dbcs_values :: "int list" where
  "dbcs_values = [0x02, 0x41, 0x42, 0x43, 0x44, 0x45, 0x46, 0xF1, 0xF2, 0xF3, 0xF4, 0xF5, 0xF6,
     0xF7, 0xF8, 0xF9, 0xFA, 0xFB, 0xFC, 0xFD, 0xFE]"

definition is_dbcs :: "int \<Rightarrow> bool" where
  "is_dbcs v \<longleftrightarrow> v \<in> set dbcs_values"

text \<open>The three setters share one contract, so the laws are proved once.\<close>

locale flag_set =
  fixes has :: "int \<Rightarrow> int \<Rightarrow> bool"
    and put :: "int \<Rightarrow> int \<Rightarrow> bool \<Rightarrow> int"
  assumes has_iff: "has v m \<longleftrightarrow> (v AND m) \<noteq> 0"
    and put_bit: "bit (put v m on) n \<longleftrightarrow> (if bit m n then on else bit v n)"
begin

lemma put_clears: "\<not> has (put v m False) m"
proof -
  have "(put v m False AND m) = 0"
    by (rule bit_eqI) (simp add: bit_and_iff put_bit)
  then show ?thesis by (simp add: has_iff)
qed

lemma put_sets: "m \<noteq> 0 \<Longrightarrow> has (put v m True) m"
proof -
  assume "m \<noteq> 0"
  have "(put v m True AND m) = m" by (rule bit_eqI) (auto simp: bit_and_iff put_bit)
  with \<open>m \<noteq> 0\<close> show ?thesis by (simp add: has_iff)
qed

lemma put_other: "(m AND k) = 0 \<Longrightarrow> has (put v m on) k \<longleftrightarrow> has v k"
proof -
  assume d: "(m AND k) = 0"
  have "\<not> (bit m n \<and> bit k n)" for n
  proof -
    have "bit (m AND k) n = False" by (simp add: d)
    then show ?thesis by (simp add: bit_and_iff)
  qed
  then have "(put v m on AND k) = (v AND k)"
    by (intro bit_eqI) (auto simp: bit_and_iff put_bit)
  then show ?thesis by (simp add: has_iff)
qed

lemma put_idem: "put (put v m on) m on = put v m on"
  by (rule bit_eqI) (simp add: put_bit)

end

interpretation effects: flag_set has_effect set_effect
  by unfold_locales
    (auto simp: has_effect_def set_effect_def bit_or_iff bit_and_iff bit_not_iff)

interpretation validations: flag_set has_validation set_validation
  by unfold_locales
    (auto simp: has_validation_def set_validation_def bit_or_iff bit_and_iff bit_not_iff)

interpretation styles: flag_set has_style set_style
  by unfold_locales
    (auto simp: has_style_def set_style_def bit_or_iff bit_and_iff bit_not_iff)

text \<open>
  The flag setters of highlight, validation and outlining attributes are exact: enabling a
  non-empty mask makes its test true, disabling it makes the test false, and masks that share no
  bit with it test as before.
\<close>

lemma flag_setters_exact:
  assumes "m \<noteq> 0" and "(m AND k) = 0"
  shows "has_effect (set_effect v m True) m \<and> \<not> has_effect (set_effect v m False) m
       \<and> has_effect (set_effect v m on) k = has_effect v k
       \<and> has_validation (set_validation v m True) m \<and> \<not> has_validation (set_validation v m False) m
       \<and> has_validation (set_validation v m on) k = has_validation v k
       \<and> has_style (set_style v m True) m \<and> \<not> has_style (set_style v m False) m
       \<and> has_style (set_style v m on) k = has_style v k"
  using assms by (simp add: effects.put_sets effects.put_clears effects.put_other
      validations.put_sets validations.put_clears validations.put_other
      styles.put_sets styles.put_clears styles.put_other)

section \<open>Input validation\<close>

text \<open>
  \<open>re.match(r"^[+-]?\d+(\.\d+)?$", s)\<close> on ASCII text. The \<open>$\<close> also matches before a final
  newline, but the argument has been stripped.
\<close>

definition is_numeric_text :: "string \<Rightarrow> bool" where
  "is_numeric_text s =
     (let ds = snd (unsign s); ip = takeWhile is_digit_char ds; r = dropWhile is_digit_char ds
      in ip \<noteq> [] \<and>
         (r = [] \<or> (hd r = CHR ''.'' \<and> tl r \<noteq> [] \<and> list_all is_digit_char (tl r))))"

fun validate_input :: "attr \<Rightarrow> string \<Rightarrow> bool \<times> string option" where
  "validate_input (ValAttr v min_length max_length custom) text =
     (if has_validation v 0x01 \<and> strip text = [] then (False, Some ''Field is mandatory'')
      else if has_validation v 0x02 \<and> \<not> is_numeric_text (strip text)
        then (False, Some ''Field must contain only numeric characters'')
      else if has_validation v 0x04 \<and> \<not> (text \<noteq> [] \<and> list_all is_alpha_char text)
        then (False, Some ''Field must contain only alphabetic characters'')
      else if has_validation v 0x08
           \<and> \<not> (text \<noteq> [] \<and> list_all (\<lambda>c. is_alpha_char c \<or> is_digit_char c) text)
        then (False, Some ''Field must contain only alphanumeric characters'')
      else if has_validation v 0x10 \<and> (case min_length of Some n \<Rightarrow> int (length text) < n | None \<Rightarrow> False)
        then (False, Some ''Field must be at least min_length characters'')
      else if has_validation v 0x20 \<and> (case max_length of Some n \<Rightarrow> int (length text) > n | None \<Rightarrow> False)
        then (False, Some ''Field must be at most max_length characters'')
      else (True, None))"
| "validate_input _ text = (True, None)"

text \<open>
  Input validation is the conjunction of its rules: a text is accepted exactly when it
  satisfies every rule whose bit is set, a refusal always carries a message and an acceptance
  never does.
\<close>

lemma validate_input_conjunction:
  "(fst (validate_input (ValAttr v mn mx cu) text) \<longleftrightarrow>
      (has_validation v 0x01 \<longrightarrow> strip text \<noteq> [])
    \<and> (has_validation v 0x02 \<longrightarrow> is_numeric_text (strip text))
    \<and> (has_validation v 0x04 \<longrightarrow> text \<noteq> [] \<and> list_all is_alpha_char text)
    \<and> (has_validation v 0x08 \<longrightarrow>
         text \<noteq> [] \<and> list_all (\<lambda>c. is_alpha_char c \<or> is_digit_char c) text)
    \<and> (has_validation v 0x10 \<longrightarrow> (\<forall>n. mn = Some n \<longrightarrow> n \<le> int (length text)))
    \<and> (has_validation v 0x20 \<longrightarrow> (\<forall>n. mx = Some n \<longrightarrow> int (length text) \<le> n)))
   \<and> (fst (validate_input (ValAttr v mn mx cu) text) \<longleftrightarrow>
        snd (validate_input (ValAttr v mn mx cu) text) = None)"
  by (cases mn; cases mx; auto)

section \<open>Attribute sets\<close>

type_synonym attr_set = "(string \<times> attr) list"

definition attr_mapper :: "string \<Rightarrow> attr_class option" where
  "attr_mapper t = map_of
     [(''color'', ColorA), (''highlight'', HighlightA), (''validation'', ValidationA),
      (''outlining'', OutliningA), (''light_pen'', LightPenA), (''background'', BackgroundA),
      (''character_set'', CharacterSetA)] t"

text \<open>
  \<open>set_attribute\<close> of the set with a raw integer: it is wrapped in the class of its name, and
  stored raw when there is no such class or the class refuses the value.
\<close>

definition wrap_raw :: "string \<Rightarrow> int \<Rightarrow> attr" where
  "wrap_raw t v =
     (case attr_mapper t of
        None \<Rightarrow> Raw v
      | Some c \<Rightarrow> (case make_attr c (PInt v) of Inl _ \<Rightarrow> Raw v | Inr a \<Rightarrow> a))"

definition aset_set :: "string \<Rightarrow> attr \<Rightarrow> attr_set \<Rightarrow> attr_set" where
  "aset_set t a s = AList.update t (case a of Raw v \<Rightarrow> wrap_raw t v | _ \<Rightarrow> a) s"

definition aset_get_attribute :: "attr_set \<Rightarrow> string \<Rightarrow> attr option" where
  "aset_get_attribute s t = map_of s t"

text \<open>\<open>get\<close> returns the raw value of a wrapped attribute, so a caller sees an integer either way.\<close>

definition aset_get :: "attr_set \<Rightarrow> string \<Rightarrow> int option" where
  "aset_get s t = map_option attr_value (map_of s t)"

definition aset_remove :: "string \<Rightarrow> attr_set \<Rightarrow> bool \<times> attr_set" where
  "aset_remove t s = (map_of s t \<noteq> None, AList.delete t s)"

definition aset_has :: "attr_set \<Rightarrow> string \<Rightarrow> bool" where
  "aset_has s t \<longleftrightarrow> map_of s t \<noteq> None"

lemma aset_get_set: "aset_get (aset_set t (Raw v) s) t' = (if t' = t then Some v else aset_get s t')"
proof -
  have "attr_value (wrap_raw t v) = v"
    by (auto simp: wrap_raw_def make_attr_def validate_and_normalize_def normalize_color_def
        normalize_highlight_def normalize_validation_def normalize_outlining_def
        normalize_background_def normalize_light_pen_def normalize_named_def normalize_charset_def
        split: option.splits sum.splits attr_class.splits if_splits)
  then show ?thesis by (simp add: aset_get_def aset_set_def update_conv')
qed

text \<open>
  The dictionary form of a set, as \<open>to_dict\<close> gives it to a screen snapshot: per attribute its
  value and, for validation attributes, the limits. A raw value has no \<open>to_dict\<close>, so the
  conversion of a set that holds one raises \<open>AttributeError\<close>.
\<close>

type_synonym attr_dict = "(string \<times> attr) list"

definition aset_to_dict :: "attr_set \<Rightarrow> py_error + attr_dict" where
  "aset_to_dict s =
     (if list_ex (\<lambda>(t, a). case a of Raw _ \<Rightarrow> True | _ \<Rightarrow> False) s then Inl AttributeError
      else Inr s)"

text \<open>\<open>from_dict\<close> skips names it does not know, and re-validates every value.\<close>

definition attr_from_dict :: "attr_class \<Rightarrow> attr \<Rightarrow> py_error + attr" where
  "attr_from_dict c d =
     (case validate_and_normalize c (PInt (attr_value d)) of
        Inl e \<Rightarrow> Inl e
      | Inr v \<Rightarrow> Inr (if c = ValidationA
                      then (case d of ValAttr _ mn mx cu \<Rightarrow> ValAttr v mn mx cu
                            | _ \<Rightarrow> ValAttr v None None False)
                      else Attr c v))"

fun aset_from_dict :: "attr_set \<Rightarrow> attr_dict \<Rightarrow> py_error + attr_set" where
  "aset_from_dict acc [] = Inr acc"
| "aset_from_dict acc ((t, d) # ds) =
     (case attr_mapper t of
        None \<Rightarrow> aset_from_dict acc ds
      | Some c \<Rightarrow>
          (case attr_from_dict c d of
             Inl _ \<Rightarrow> Inl ValueError
           | Inr a \<Rightarrow> aset_from_dict (AList.update t a acc) ds))"

text \<open>Sets in which every name holds a valid attribute of its own class.\<close>

definition aset_typed :: "attr_set \<Rightarrow> bool" where
  "aset_typed s \<longleftrightarrow> distinct (map fst s)
     \<and> list_all (\<lambda>(t, a). attr_ok a \<and> attr_class_of a \<noteq> None \<and> attr_class_of a = attr_mapper t) s"

lemma attr_from_dict_ok:
  "attr_ok a \<Longrightarrow> attr_class_of a = Some c \<Longrightarrow> attr_from_dict c a = Inr a"
  by (cases a; cases c; auto simp: attr_ok_def attr_from_dict_def validate_and_normalize_def
      normalize_color_def normalize_highlight_def normalize_validation_def normalize_outlining_def
      normalize_background_def normalize_light_pen_def normalize_named_def normalize_charset_def)

lemma update_append_new: "k \<notin> fst ` set xs \<Longrightarrow> AList.update k v xs = xs @ [(k, v)]"
  by (induction xs) auto

lemma aset_from_dict_typed:
  "aset_typed (acc @ s) \<Longrightarrow> aset_from_dict acc s = Inr (acc @ s)"
proof (induction s arbitrary: acc)
  case Nil
  then show ?case by simp
next
  case (Cons p s)
  obtain t a where p: "p = (t, a)" by (cases p)
  from Cons.prems p have ok: "attr_ok a" "attr_class_of a = attr_mapper t" "attr_class_of a \<noteq> None"
    and new: "t \<notin> fst ` set acc"
    by (auto simp: aset_typed_def)
  then obtain c where c: "attr_mapper t = Some c" "attr_class_of a = Some c" by auto
  have "aset_from_dict (AList.update t a acc) s = Inr (acc @ (t, a) # s)"
    using Cons.IH [of "acc @ [(t, a)]"] Cons.prems p new by (simp add: update_append_new)
  with c ok attr_from_dict_ok p show ?case by simp
qed

lemma aset_to_dict_typed: "aset_typed s \<Longrightarrow> aset_to_dict s = Inr s"
  by (auto simp: aset_to_dict_def aset_typed_def list_ex_iff list_all_iff split: attr.splits)

text \<open>
  Serialising a typed attribute set and loading it back gives the set again; a set that
  holds a raw value (a name without a class, such as \<open>extended_color\<close>) cannot be serialised.
\<close>

lemma attribute_set_roundtrip:
  assumes "aset_typed s"
  shows "\<exists>d. aset_to_dict s = Inr d \<and> aset_from_dict [] d = Inr s
          \<and> (\<forall>v. aset_to_dict (aset_set ''extended_color'' (Raw v) s) = Inl AttributeError)"
proof -
  have "aset_to_dict (aset_set ''extended_color'' (Raw v) s) = Inl AttributeError" for v
  proof -
    have "wrap_raw ''extended_color'' v = Raw v"
      by (simp add: wrap_raw_def attr_mapper_def)
    moreover have "(k, x) \<in> set (AList.update k x s)" for k :: string and x
      by (meson map_of_SomeD update_Some_unfold)
    ultimately have "(''extended_color'', Raw v) \<in> set (aset_set ''extended_color'' (Raw v) s)"
      by (simp add: aset_set_def)
    then show ?thesis by (force simp: aset_to_dict_def list_ex_iff)
  qed
  with assms show ?thesis
    using aset_to_dict_typed aset_from_dict_typed [of "[]" s] by auto
qed

end
