(* ===== verification/Addressing.thy ===== *)
theory Addressing
  imports Prelude3270
begin

text \<open>
  \<open>pure3270/emulation/addressing.py\<close> and \<open>pure3270/emulation/extended_position.py\<close>: the two
  addressing modes of a 3270 presentation space, the conversion between linear addresses and
  coordinates, and the mutable \<open>ExtendedPosition\<close>. A number of columns is positive in every
  caller (\<open>ScreenBuffer\<close> and \<open>ExtendedPosition\<close> reject others), so the division by zero of
  \<open>address_to_coords\<close> is out of reach and not modelled.
\<close>

section \<open>Addressing modes\<close>

datatype AddressingMode = MODE_12_BIT | MODE_14_BIT

definition validate_address :: "int \<Rightarrow> AddressingMode \<Rightarrow> bool" where
  "validate_address address mode =
     (if mode = MODE_12_BIT then 0 \<le> address \<and> address \<le> 0xFFF
      else 0 \<le> address \<and> address \<le> 0x3FFF)"

definition address_to_coords :: "int \<Rightarrow> int \<Rightarrow> AddressingMode \<Rightarrow> (int \<times> int) option" where
  "address_to_coords address cols mode =
     (if \<not> validate_address address mode then None
      else Some (address div cols, address mod cols))"

definition coords_to_address :: "int \<Rightarrow> int \<Rightarrow> int \<Rightarrow> AddressingMode \<Rightarrow> int option" where
  "coords_to_address row col cols mode =
     (let address = row * cols + col
      in if \<not> validate_address address mode then None else Some address)"

definition get_max_positions :: "AddressingMode \<Rightarrow> int" where
  "get_max_positions mode = (if mode = MODE_12_BIT then 4096 else 16384)"

definition convert_address_mode ::
    "int \<Rightarrow> AddressingMode \<Rightarrow> AddressingMode \<Rightarrow> int \<Rightarrow> int option" where
  "convert_address_mode address from_mode to_mode cols =
     (case address_to_coords address cols from_mode of
        None \<Rightarrow> None
      | Some coords \<Rightarrow> coords_to_address (fst coords) (snd coords) cols to_mode)"

lemma validate_address_iff:
  "validate_address a m \<longleftrightarrow> 0 \<le> a \<and> a < get_max_positions m"
  by (auto simp: validate_address_def get_max_positions_def)

lemma validate_12_14: "validate_address a MODE_12_BIT \<Longrightarrow> validate_address a m"
  by (cases m) (auto simp: validate_address_def)

lemma address_to_coords_Some:
  "address_to_coords a cols m = Some rc \<longleftrightarrow>
     validate_address a m \<and> rc = (a div cols, a mod cols)"
  by (auto simp: address_to_coords_def)

section \<open>The address interface\<close>

text \<open>
  What the users of the calculator rely on: decoding an address gives coordinates whose encoding
  is that address again, and an encoding never leaves the mode's range.
\<close>

locale address_codec =
  fixes decode :: "int \<Rightarrow> (int \<times> int) option"
    and encode :: "int \<Rightarrow> int \<Rightarrow> int option"
    and width :: int
    and valid :: "int \<Rightarrow> bool"
  assumes width_pos: "0 < width"
    and decode_valid: "decode a = Some (r, c) \<Longrightarrow> valid a \<and> 0 \<le> c \<and> c < width \<and> a = r * width + c"
    and decode_total: "valid a \<Longrightarrow> \<exists>rc. decode a = Some rc"
    and encode_valid: "encode r c = Some a \<longleftrightarrow> valid a \<and> a = r * width + c"
begin

lemma decode_encode: "decode a = Some (r, c) \<Longrightarrow> encode r c = Some a"
  using decode_valid encode_valid by blast

lemma encode_decode:
  assumes "encode r c = Some a" and "0 \<le> c" and "c < width"
  shows "decode a = Some (r, c)"
proof -
  from assms(1) have "valid a" and a: "a = r * width + c" using encode_valid by blast+
  then obtain r' c' where d: "decode a = Some (r', c')" using decode_total by fastforce
  then have c': "0 \<le> c'" "c' < width" "a = r' * width + c'" using decode_valid by blast+
  have "r' = r" "c' = c"
    using a c' assms linear_div_mod [of c width r] linear_div_mod [of c' width r'] by auto
  with d show ?thesis by simp
qed

lemma decode_inj: "decode a = Some rc \<Longrightarrow> decode b = Some rc \<Longrightarrow> a = b"
  using decode_valid by (cases rc) blast

end

lemma address_codec_calculator:
  assumes "0 < w"
  shows "address_codec (\<lambda>a. address_to_coords a w m) (\<lambda>r c. coords_to_address r c w m) w
           (\<lambda>a. validate_address a m)"
proof
  fix a r c assume "address_to_coords a w m = Some (r, c)"
  with assms show "validate_address a m \<and> 0 \<le> c \<and> c < w \<and> a = r * w + c"
    by (auto simp: address_to_coords_Some)
qed (use assms in \<open>auto simp: address_to_coords_def coords_to_address_def Let_def\<close>)

interpretation addr80_12: address_codec
  "\<lambda>a. address_to_coords a 80 MODE_12_BIT" "\<lambda>r c. coords_to_address r c 80 MODE_12_BIT" 80
  "\<lambda>a. validate_address a MODE_12_BIT"
  by (rule address_codec_calculator) simp

interpretation addr80_14: address_codec
  "\<lambda>a. address_to_coords a 80 MODE_14_BIT" "\<lambda>r c. coords_to_address r c 80 MODE_14_BIT" 80
  "\<lambda>a. validate_address a MODE_14_BIT"
  by (rule address_codec_calculator) simp

lemma coords_roundtrip:
  assumes "0 < cols" and "address_to_coords a cols m = Some (r, c)"
  shows "coords_to_address r c cols m = Some a"
  using address_codec.decode_encode [OF address_codec_calculator [OF assms(1), of m]] assms(2)
  by blast

lemma address_roundtrip:
  assumes "0 \<le> c" and "c < cols" and "coords_to_address r c cols m = Some a"
  shows "address_to_coords a cols m = Some (r, c)"
proof -
  have "0 < cols" using assms by simp
  from address_codec.encode_decode [OF address_codec_calculator [OF this, of m]] assms
  show ?thesis by blast
qed

text \<open>
  Converting an address between modes never changes it: the result is the address itself
  when both modes can express it, and there is no result otherwise.
\<close>

lemma convert_address_mode_identity:
  assumes "0 < cols"
  shows "convert_address_mode a m m' cols =
           (if validate_address a m \<and> validate_address a m' then Some a else None)"
proof (cases "validate_address a m")
  case True
  then have "address_to_coords a cols m = Some (a div cols, a mod cols)"
    by (simp add: address_to_coords_def)
  then show ?thesis using True
    by (simp add: convert_address_mode_def coords_to_address_def Let_def)
next
  case False
  then show ?thesis by (simp add: convert_address_mode_def address_to_coords_def)
qed

section \<open>ExtendedPosition\<close>

record ExtendedPosition =
  ep_row :: int
  ep_col :: int
  ep_cols :: int
  ep_mode :: AddressingMode

text \<open>
  Methods that raise after they have assigned their fields return the exception together with
  the object as they leave it.
\<close>

definition validate_coordinates :: "ExtendedPosition \<Rightarrow> py_error option" where
  "validate_coordinates p =
     (if ep_row p < 0 \<or> ep_col p < 0 then Some ValueError
      else if ep_cols p \<le> 0 then Some ValueError
      else if \<not> validate_address (ep_row p * ep_cols p + ep_col p) (ep_mode p) then Some ValueError
      else None)"

definition ExtendedPosition_init ::
    "int \<Rightarrow> int \<Rightarrow> int \<Rightarrow> AddressingMode \<Rightarrow> py_error + ExtendedPosition" where
  "ExtendedPosition_init row col cols mode =
     (let p = \<lparr>ep_row = row, ep_col = col, ep_cols = cols, ep_mode = mode\<rparr>
      in case validate_coordinates p of Some e \<Rightarrow> Inl e | None \<Rightarrow> Inr p)"

definition linear_address :: "ExtendedPosition \<Rightarrow> int" where
  "linear_address p =
     (case coords_to_address (ep_row p) (ep_col p) (ep_cols p) (ep_mode p) of
        Some a \<Rightarrow> a | None \<Rightarrow> 0)"

definition set_coordinates ::
    "ExtendedPosition \<Rightarrow> int \<Rightarrow> int \<Rightarrow> py_error option \<times> ExtendedPosition" where
  "set_coordinates p row col =
     (let p' = p\<lparr>ep_row := row, ep_col := col\<rparr> in (validate_coordinates p', p'))"

definition set_from_address ::
    "ExtendedPosition \<Rightarrow> int \<Rightarrow> py_error option \<times> ExtendedPosition" where
  "set_from_address p address =
     (case address_to_coords address (ep_cols p) (ep_mode p) of
        None \<Rightarrow> (Some ValueError, p)
      | Some (r, c) \<Rightarrow> (None, p\<lparr>ep_row := r, ep_col := c\<rparr>))"

definition ep_convert_addressing_mode ::
    "ExtendedPosition \<Rightarrow> AddressingMode \<Rightarrow> py_error + ExtendedPosition" where
  "ep_convert_addressing_mode p new_mode =
     ExtendedPosition_init (ep_row p) (ep_col p) (ep_cols p) new_mode"

definition is_valid_for_mode :: "ExtendedPosition \<Rightarrow> AddressingMode \<Rightarrow> bool" where
  "is_valid_for_mode p mode = validate_address (ep_row p * ep_cols p + ep_col p) mode"

definition move_relative ::
    "ExtendedPosition \<Rightarrow> int \<Rightarrow> int \<Rightarrow> py_error option \<times> ExtendedPosition" where
  "move_relative p row_delta col_delta =
     set_coordinates p (ep_row p + row_delta) (ep_col p + col_delta)"

definition move_to_next_line :: "ExtendedPosition \<Rightarrow> py_error option \<times> ExtendedPosition" where
  "move_to_next_line p = set_coordinates p (ep_row p + 1) 0"

definition move_to_previous_line :: "ExtendedPosition \<Rightarrow> py_error option \<times> ExtendedPosition" where
  "move_to_previous_line p =
     (if ep_row p > 0 then set_coordinates p (ep_row p - 1) 0 else (None, p))"

definition clamp_to_bounds :: "ExtendedPosition \<Rightarrow> int \<Rightarrow> int \<Rightarrow> ExtendedPosition" where
  "clamp_to_bounds p max_row max_col =
     p\<lparr>ep_row := max 0 (min (ep_row p) (max_row - 1)),
       ep_col := max 0 (min (ep_col p) (max_col - 1))\<rparr>"

text \<open>The class invariant the constructor checks.\<close>

definition ep_valid :: "ExtendedPosition \<Rightarrow> bool" where
  "ep_valid p \<longleftrightarrow> validate_coordinates p = None"

lemma ep_valid_iff:
  "ep_valid p \<longleftrightarrow> 0 \<le> ep_row p \<and> 0 \<le> ep_col p \<and> 0 < ep_cols p
     \<and> validate_address (ep_row p * ep_cols p + ep_col p) (ep_mode p)"
  by (auto simp: ep_valid_def validate_coordinates_def)

lemma ExtendedPosition_init_Inr:
  "ExtendedPosition_init r c w m = Inr p \<longleftrightarrow>
     p = \<lparr>ep_row = r, ep_col = c, ep_cols = w, ep_mode = m\<rparr> \<and> ep_valid p"
  by (auto simp: ExtendedPosition_init_def ep_valid_def Let_def split: option.splits)

lemma set_coordinates_ok:
  "set_coordinates p r c = (None, p') \<longleftrightarrow> p' = p\<lparr>ep_row := r, ep_col := c\<rparr> \<and> ep_valid p'"
  by (auto simp: set_coordinates_def ep_valid_def Let_def)

lemma set_from_address_ok:
  assumes "ep_valid p" and "set_from_address p a = (None, p')"
  shows "ep_valid p' \<and> linear_address p' = a"
proof -
  from assms have cols: "0 < ep_cols p" by (simp add: ep_valid_iff)
  from assms(2) have v: "validate_address a (ep_mode p)"
    and p': "p' = p\<lparr>ep_row := a div ep_cols p, ep_col := a mod ep_cols p\<rparr>"
    by (auto simp: set_from_address_def address_to_coords_def split: if_splits)
  from v have "0 \<le> a" by (auto simp: validate_address_def split: if_splits)
  with cols have "0 \<le> a div ep_cols p" "0 \<le> a mod ep_cols p"
    by (simp_all add: pos_imp_zdiv_nonneg_iff)
  with v cols p' show ?thesis
    by (simp add: ep_valid_iff linear_address_def coords_to_address_def Let_def)
qed

text \<open>
  A position that moves without raising stays valid: every mover that returns normally keeps
  the class invariant, clamping keeps it for any bounds, and an address that is accepted is read
  back by \<open>linear_address\<close>.
\<close>

lemma ExtendedPosition_moves_valid:
  assumes "ep_valid p"
  shows "(\<forall>p' dr dc. move_relative p dr dc = (None, p') \<longrightarrow> ep_valid p')
       \<and> (\<forall>p'. move_to_next_line p = (None, p') \<longrightarrow> ep_valid p')
       \<and> (\<forall>p'. move_to_previous_line p = (None, p') \<longrightarrow> ep_valid p')
       \<and> (\<forall>p' a. set_from_address p a = (None, p') \<longrightarrow> ep_valid p' \<and> linear_address p' = a)
       \<and> (\<forall>mr mc. ep_valid (clamp_to_bounds p mr mc))"
proof (intro conjI allI impI)
  fix mr mc
  let ?q = "clamp_to_bounds p mr mc"
  have le: "0 \<le> ep_row ?q" "ep_row ?q \<le> ep_row p" "0 \<le> ep_col ?q" "ep_col ?q \<le> ep_col p"
    using assms by (auto simp: clamp_to_bounds_def ep_valid_iff)
  have cm: "ep_cols ?q = ep_cols p" "ep_mode ?q = ep_mode p"
    by (simp_all add: clamp_to_bounds_def)
  have "0 < ep_cols p" using assms by (simp add: ep_valid_iff)
  then have "0 \<le> ep_row ?q * ep_cols p" "ep_row ?q * ep_cols p \<le> ep_row p * ep_cols p"
    using le by (simp_all add: mult_right_mono)
  then have "0 \<le> ep_row ?q * ep_cols p + ep_col ?q"
    "ep_row ?q * ep_cols p + ep_col ?q \<le> ep_row p * ep_cols p + ep_col p"
    using le by linarith+
  then show "ep_valid ?q"
    using assms le by (auto simp: ep_valid_iff validate_address_iff cm)
next
  fix p' assume "move_to_previous_line p = (None, p')"
  with assms show "ep_valid p'"
    by (auto simp: move_to_previous_line_def set_coordinates_ok split: if_splits)
qed (use assms set_from_address_ok in
      \<open>auto simp: move_relative_def move_to_next_line_def set_coordinates_ok\<close>)

text \<open>
  A rejected move is not undone: \<open>set_coordinates\<close> assigns before it validates, so when it
  raises, the object holds the rejected coordinates, no longer satisfies its invariant, and its
  linear address reads 0 whenever the address does not fit the mode.
\<close>

lemma set_coordinates_raises_corrupts:
  assumes "set_coordinates p r c = (Some e, p')"
  shows "e = ValueError \<and> p' = p\<lparr>ep_row := r, ep_col := c\<rparr> \<and> \<not> ep_valid p'
       \<and> (\<not> validate_address (r * ep_cols p + c) (ep_mode p) \<longrightarrow> linear_address p' = 0)"
  using assms
  by (auto simp: set_coordinates_def Let_def ep_valid_def validate_coordinates_def
      linear_address_def coords_to_address_def split: if_splits)

end
