(* ===== verification/Screen.thy ===== *)
theory Screen
  imports FieldAttributes Addressing
begin

text \<open>
  \<open>pure3270/emulation/screen_buffer.py\<close>: the record of a field, the state of the screen buffer
  and every operation that changes it. The theory \<open>ScreenFields\<close> holds the lemmas about them.

  \<open>buffer\<close> has one byte per position and \<open>attributes\<close> three; extended attributes are a
  dictionary from coordinates to attribute sets. \<open>sfields\<close> (the attribute \<open>fields\<close>), \<open>pos_cache\<close> and
  \<open>input_cache\<close> are derived from \<open>field_starts\<close> by \<open>detect_fields\<close>. Debug
  logging is left out, and so is the decoding of bytes to text, which the codec package does.
\<close>

section \<open>Fields\<close>

record field =
  f_start :: "int \<times> int"
  f_end :: "int \<times> int"
  f_protected :: bool
  f_numeric :: bool
  f_bypass :: bool
  f_hidden :: bool
  f_modified :: bool
  f_selected :: bool
  f_intensity :: int
  f_color :: int
  f_background :: int
  f_validation :: int
  f_outlining :: int
  f_character_set :: int
  f_sfe_highlight :: int
  f_light_pen :: int
  f_content :: bytes
  f_codepage :: string

definition lex_le :: "int \<times> int \<Rightarrow> int \<times> int \<Rightarrow> bool" where
  "lex_le p q \<longleftrightarrow> fst p < fst q \<or> (fst p = fst q \<and> snd p \<le> snd q)"

text \<open>The constructor swaps the two ends when they are in the wrong order.\<close>

definition Field_init :: "field \<Rightarrow> field" where
  "Field_init f =
     (if lex_le (f_start f) (f_end f) then f
      else f\<lparr>f_start := f_end f, f_end := f_start f\<rparr>)"

text \<open>
  \<open>_replace\<close> hands the constructor every parameter but \<open>bypass\<close>, \<open>hidden\<close> and
  \<open>codepage\<close>, which get their defaults. The update is a function on the parameters.
\<close>

definition Field_replace :: "(field \<Rightarrow> field) \<Rightarrow> field \<Rightarrow> field" where
  "Field_replace upd f =
     Field_init (upd (f\<lparr>f_bypass := False, f_hidden := False, f_codepage := ''cp037''\<rparr>))"

section \<open>The state\<close>

type_synonym ext_attrs = "((int \<times> int) \<times> attr_set) list"

record screen =
  rows :: int
  cols :: int
  ssize :: int
  codepage :: string
  ascii_mode :: bool
  buffer :: bytes
  attributes :: bytes
  extended_attributes :: ext_attrs
  sfields :: "field list"
  cursor_row :: int
  cursor_col :: int
  light_pen_pos :: "(int \<times> int) option"
  suspend_detection :: int
  field_starts :: "int set"
  ascii_fields :: "(int \<times> int) list"
  pos_cache :: "int \<Rightarrow> field option"
  input_cache :: "field list"
  nav_valid :: bool
  kbd_locked :: bool

definition ScreenBuffer_init :: "int \<Rightarrow> int \<Rightarrow> byte \<Rightarrow> string \<Rightarrow> py_error + screen" where
  "ScreenBuffer_init r c init_value cp =
     (if r \<le> 0 \<or> c \<le> 0 then Inl ValueError
      else Inr \<lparr>rows = r, cols = c, ssize = r * c, codepage = cp, ascii_mode = False,
            buffer = replicate (nat (r * c)) init_value,
            attributes = replicate (nat (r * c * 3)) 0,
            extended_attributes = [], sfields = [], cursor_row = 0, cursor_col = 0,
            light_pen_pos = None, suspend_detection = 0, field_starts = {}, ascii_fields = [],
            pos_cache = Map.empty, input_cache = [], nav_valid = False, kbd_locked = False\<rparr>)"

definition set_ascii_mode :: "bool \<Rightarrow> screen \<Rightarrow> screen" where
  "set_ascii_mode m s = s\<lparr>ascii_mode := m\<rparr>"

definition get_position :: "screen \<Rightarrow> int \<times> int" where
  "get_position s = (cursor_row s, cursor_col s)"

definition set_keyboard_lock :: "bool \<Rightarrow> screen \<Rightarrow> screen" where
  "set_keyboard_lock locked s = s\<lparr>kbd_locked := locked\<rparr>"

text \<open>\<open>reset_mdt_flags\<close> tests for an attribute \<open>_fields\<close> the class never has.\<close>

definition reset_mdt_flags :: "screen \<Rightarrow> screen" where
  "reset_mdt_flags s = s"

definition linear :: "screen \<Rightarrow> int \<times> int \<Rightarrow> int" where
  "linear s rc = fst rc * cols s + snd rc"

definition calculate_coords :: "screen \<Rightarrow> int \<Rightarrow> int \<times> int" where
  "calculate_coords s i = (i div cols s, i mod cols s)"

section \<open>Field detection\<close>

text \<open>
  The value the detection reads from an attribute set: \<open>get\<close> already returns the integer inside
  an attribute, and \<open>getattr(v, "value", 0)\<close> on an integer gives the default.
\<close>

definition getattr_value :: "int option \<Rightarrow> int" where
  "getattr_value v = (case v of None \<Rightarrow> 0 | Some _ \<Rightarrow> 0)"

text \<open>
  A position beyond the attribute array reads as a zero byte: the source's \<open>else\<close> branch sets
  what the first branch computes from zero.
\<close>

definition basic_attr :: "screen \<Rightarrow> int \<Rightarrow> byte" where
  "basic_attr s start_idx =
     (if start_idx * 3 < int (length (attributes s)) then attributes s ! nat (start_idx * 3) else 0)"

definition intensity_bits :: "byte \<Rightarrow> byte" where
  "intensity_bits b = drop_bit 2 (b AND 0x0C)"

definition make_field :: "screen \<Rightarrow> int \<Rightarrow> int \<Rightarrow> field" where
  "make_field s start_idx end_idx =
     (let start = calculate_coords s start_idx;
          b = basic_attr s start_idx;
          bits = intensity_bits b;
          ext = map_of (extended_attributes s) start;
          attrs = (case ext of None \<Rightarrow> [] | Some a \<Rightarrow> a);
          highlight = getattr_value (aset_get attrs ''highlight'')
      in Field_init
        \<lparr>f_start = start, f_end = calculate_coords s end_idx,
         f_protected = (b AND 0x40 \<noteq> 0), f_numeric = (b AND 0x20 \<noteq> 0),
         f_bypass = (b AND 0x01 \<noteq> 0), f_hidden = (bits = 3),
         f_modified = (b AND 0x20 \<noteq> 0), f_selected = False,
         f_intensity = (if attrs \<noteq> [] \<and> highlight \<noteq> 0 then 1 else uint bits),
         f_color = getattr_value (aset_get attrs ''color''),
         f_background = getattr_value (aset_get attrs ''background''),
         f_validation = getattr_value (aset_get attrs ''validation''),
         f_outlining = getattr_value (aset_get attrs ''outlining''),
         f_character_set = getattr_value (aset_get attrs ''character_set''),
         f_sfe_highlight = highlight,
         f_light_pen = (if attrs \<noteq> [] then getattr_value (aset_get attrs ''light_pen'')
                        else if bits = 1 \<or> bits = 2 then 1 else 0),
         f_content = py_slice (buffer s) start_idx (end_idx + 1),
         f_codepage = ''cp037''\<rparr>)"

definition create_field_from_range :: "int \<times> int \<Rightarrow> screen \<Rightarrow> screen" where
  "create_field_from_range span s =
     (if fst span > snd span then s
      else s\<lparr>sfields := sfields s @ [make_field s (fst span) (snd span)]\<rparr>)"

fun field_ranges :: "int \<Rightarrow> int list \<Rightarrow> (int \<times> int) list" where
  "field_ranges sz [] = []"
| "field_ranges sz [a] = [(a, sz - 1)]"
| "field_ranges sz (a # b # starts) = (a, b - 1) # field_ranges sz (b # starts)"

definition cache_field :: "field \<Rightarrow> screen \<Rightarrow> screen" where
  "cache_field f s =
     (let s1 = s\<lparr>pos_cache := fold (\<lambda>p m. m(p \<mapsto> f))
                  [linear s (f_start f) .. linear s (f_end f)] (pos_cache s)\<rparr>
      in if \<not> f_protected f then s1\<lparr>input_cache := input_cache s1 @ [f]\<rparr> else s1)"

definition build_field_caches :: "screen \<Rightarrow> screen" where
  "build_field_caches s =
     (let s1 = fold cache_field (sfields s) s
      in s1\<lparr>input_cache := sort_key (\<lambda>f. linear s1 (f_start f)) (input_cache s1)\<rparr>)"

definition detect_fields :: "screen \<Rightarrow> screen" where
  "detect_fields s =
     (let s1 = s\<lparr>pos_cache := Map.empty, input_cache := [], sfields := []\<rparr>;
          starts = sorted_list_of_set (field_starts s1)
      in if starts = [] then s1
         else (build_field_caches (fold create_field_from_range (field_ranges (ssize s1) starts) s1))
                \<lparr>nav_valid := True\<rparr>)"

definition begin_bulk_update :: "screen \<Rightarrow> screen" where
  "begin_bulk_update s = s\<lparr>suspend_detection := suspend_detection s + 1\<rparr>"

definition end_bulk_update :: "screen \<Rightarrow> screen" where
  "end_bulk_update s =
     (let s1 = (if suspend_detection s > 0
                then s\<lparr>suspend_detection := suspend_detection s - 1\<rparr> else s)
      in if suspend_detection s1 = 0 then detect_fields s1 else s1)"

section \<open>Cursor and characters\<close>

text \<open>Clamping to \<open>0 .. n - 1\<close>: \<open>max(0, min(n - 1, x))\<close>.\<close>

definition clamp_index :: "int \<Rightarrow> int \<Rightarrow> int" where
  "clamp_index n x = max 0 (min (n - 1) x)"

definition set_position_mode :: "bool \<Rightarrow> bool \<Rightarrow> int \<Rightarrow> int \<Rightarrow> screen \<Rightarrow> py_error + screen" where
  "set_position_mode wrap strict row col s =
     (if wrap then
        (let (row1, col1) = (if col \<ge> cols s then (row + 1, 0) else (row, col))
         in Inr (s\<lparr>cursor_row := clamp_index (rows s) row1, cursor_col := col1\<rparr>))
      else if strict then
        (if row \<ge> rows s \<or> col \<ge> cols s \<or> row < 0 \<or> col < 0 then Inl IndexError
         else Inr (s\<lparr>cursor_row := row, cursor_col := col\<rparr>))
      else
        (if row \<ge> rows s \<or> col \<ge> cols s \<or> row < 0 \<or> col < 0
         then Inr (s\<lparr>cursor_row := clamp_index (rows s) row, cursor_col := clamp_index (cols s) col\<rparr>)
         else Inr (s\<lparr>cursor_row := row, cursor_col := col\<rparr>)))"

text \<open>The default mode, which every caller in the parser uses, cannot fail.\<close>

definition set_position :: "int \<Rightarrow> int \<Rightarrow> screen \<Rightarrow> screen" where
  "set_position row col s =
     (if row \<ge> rows s \<or> col \<ge> cols s \<or> row < 0 \<or> col < 0
      then s\<lparr>cursor_row := clamp_index (rows s) row, cursor_col := clamp_index (cols s) col\<rparr>
      else s\<lparr>cursor_row := row, cursor_col := col\<rparr>)"

lemma set_position_mode_default: "set_position_mode False False row col s = Inr (set_position row col s)"
  by (simp add: set_position_mode_def set_position_def)

definition clear :: "screen \<Rightarrow> screen" where
  "clear s =
     (let init_value = (if ascii_mode s then 0x20 else 0x40);
          s1 = s\<lparr>buffer := replicate (nat (ssize s)) init_value,
                  attributes := replicate (length (attributes s)) 0,
                  extended_attributes := [], field_starts := {}, light_pen_pos := None,
                  sfields := []\<rparr>
      in set_position 0 0 (detect_fields s1))"

text \<open>Move the cursor on by \<open>n\<close> columns; past the last column it starts the next row, past
  the last row it starts again at the top.\<close>

definition advance_cursor :: "int \<Rightarrow> screen \<Rightarrow> screen" where
  "advance_cursor n s =
     (let c = cursor_col s + n
      in if c \<ge> cols s
         then s\<lparr>cursor_row := (if cursor_row s + 1 \<ge> rows s then 0 else cursor_row s + 1), cursor_col := 0\<rparr>
         else s\<lparr>cursor_col := c\<rparr>)"

text \<open>
  The first field that claims the position: a field of several rows claims its rows entirely.
  Its content is read again from the buffer and it is marked modified.
\<close>

definition field_claims :: "field \<Rightarrow> int \<Rightarrow> int \<Rightarrow> bool" where
  "field_claims f row col \<longleftrightarrow>
     (let (sr, sc) = f_start f; (er, ec) = f_end f
      in sr \<le> row \<and> row \<le> er \<and> (sr \<noteq> er \<or> (sc \<le> col \<and> col \<le> ec)))"

definition field_bounds :: "screen \<Rightarrow> field \<Rightarrow> int \<times> int" where
  "field_bounds s f =
     (let a = linear s (f_start f); b = linear s (f_end f)
      in (if a < 0 then 0 else a, if b \<ge> ssize s then ssize s - 1 else b))"

fun refresh_fields :: "screen \<Rightarrow> int \<Rightarrow> int \<Rightarrow> field list \<Rightarrow> field list option" where
  "refresh_fields s row col [] = None"
| "refresh_fields s row col (f # fs) =
     (let (a, b) = field_bounds s f
      in if field_claims f row col \<and> a \<le> b
         then Some (Field_replace (\<lambda>g. g\<lparr>f_content := py_slice (buffer s) a (b + 1),
                      f_modified := True\<rparr>) f # fs)
         else map_option (\<lambda>gs. f # gs) (refresh_fields s row col fs))"

definition update_field_content :: "int \<Rightarrow> int \<Rightarrow> screen \<Rightarrow> bool \<times> screen" where
  "update_field_content row col s =
     (case refresh_fields s row col (sfields s) of
        None \<Rightarrow> (False, s)
      | Some fs \<Rightarrow> (True, s\<lparr>sfields := fs\<rparr>))"

text \<open>How far a written character moves the cursor: two columns in a DBCS character set.\<close>

definition dbcs_advance :: "screen \<Rightarrow> int \<Rightarrow> int \<Rightarrow> int" where
  "dbcs_advance s row col =
     (case map_of (extended_attributes s) (row, col) of
        None \<Rightarrow> 1
      | Some a \<Rightarrow> (case aset_get_attribute a ''character_set'' of
            Some (Attr CharacterSetA v) \<Rightarrow> (if is_dbcs v then 2 else 1)
          | _ \<Rightarrow> 1))"

text \<open>The buffer and attribute update of \<open>write_char\<close>, for a position in range.\<close>

definition store_char :: "byte \<Rightarrow> int \<Rightarrow> bool \<Rightarrow> bool \<Rightarrow> screen \<Rightarrow> screen" where
  "store_char b pos protected mark_start s =
     (let off = nat (pos * 3);
          fa = (attributes s ! off) OR (if protected then 0x40 else 0)
      in s\<lparr>buffer := (buffer s)[nat pos := b],
           attributes := (attributes s)[off := fa, off + 1 := 0xF0, off + 2 := 0xF0],
           field_starts := (if mark_start then insert pos (field_starts s) else field_starts s)\<rparr>)"

text \<open>
  What a write does to the fields: the field that claims the position is refreshed and the caches
  are invalid; otherwise detection runs for a write at the start of a row, or without any field.
\<close>

definition note_write :: "int \<Rightarrow> int \<Rightarrow> screen \<Rightarrow> screen" where
  "note_write row col s =
     (let (found, s1) = update_field_content row col s
      in if found then s1\<lparr>nav_valid := False\<rparr>
         else if suspend_detection s1 = 0 \<and> (col = 0 \<or> sfields s1 = [])
         then detect_fields s1 else s1)"

text \<open>Whether \<open>write_char\<close> stores its byte: the position exists and is not protected.\<close>

definition writable :: "int \<Rightarrow> int \<Rightarrow> bool \<Rightarrow> screen \<Rightarrow> bool" where
  "writable row col circumvent s \<longleftrightarrow>
     (let pos = row * cols s + col
      in 0 \<le> row \<and> row < rows s \<and> 0 \<le> col \<and> col < cols s
         \<and> pos < int (length (buffer s)) \<and> pos * 3 + 2 < int (length (attributes s))
         \<and> (attributes s ! nat (pos * 3) AND 0x40 = 0 \<or> circumvent))"

text \<open>\<open>write_char\<close>; the position is \<open>None\<close> when the caller gives no row and column.\<close>

definition write_char ::
    "byte \<Rightarrow> (int \<times> int) option \<Rightarrow> bool \<Rightarrow> bool \<Rightarrow> bool \<Rightarrow> screen \<Rightarrow> screen" where
  "write_char b at protected circumvent mark_start s =
     (let (row, col) = (case at of Some rc \<Rightarrow> rc | None \<Rightarrow> get_position s)
      in if \<not> writable row col circumvent s then s
         else
           (let s1 = store_char b (row * cols s + col) protected mark_start s;
                s2 = (if at \<noteq> None then advance_cursor (dbcs_advance s1 row col) s1 else s1)
            in note_write row col s2))"

section \<open>Looking up and moving between fields\<close>

definition field_at_search :: "screen \<Rightarrow> int \<Rightarrow> field option" where
  "field_at_search s pos =
     find (\<lambda>f. linear s (f_start f) \<le> pos \<and> pos \<le> linear s (f_end f)) (sfields s)"

definition get_field_at_position :: "int \<Rightarrow> int \<Rightarrow> screen \<Rightarrow> field option" where
  "get_field_at_position row col s =
     (if \<not> (0 \<le> row \<and> row < rows s \<and> 0 \<le> col \<and> col < cols s) then None
      else (let pos = row * cols s + col
            in case (if nav_valid s then pos_cache s pos else None) of
                 Some f \<Rightarrow> Some f
               | None \<Rightarrow> field_at_search s pos))"

definition cursor_to :: "int \<times> int \<Rightarrow> screen \<Rightarrow> screen" where
  "cursor_to rc s = s\<lparr>cursor_row := fst rc, cursor_col := snd rc\<rparr>"

definition first_input_field :: "screen \<Rightarrow> field option" where
  "first_input_field s =
     (if nav_valid s \<and> input_cache s \<noteq> [] then Some (hd (input_cache s))
      else find (\<lambda>f. \<not> f_protected f) (sfields s))"

definition move_cursor_to_first_input_field :: "screen \<Rightarrow> screen" where
  "move_cursor_to_first_input_field s =
     (case first_input_field s of None \<Rightarrow> s | Some f \<Rightarrow> cursor_to (f_start f) s)"

text \<open>
  The next unprotected field behind the cursor, else the next ASCII field behind it, else the
  first unprotected field, else the first ASCII field.
\<close>

definition next_input_target :: "screen \<Rightarrow> (int \<times> int) option" where
  "next_input_target s =
     (let cur = linear s (get_position s);
          by_start = sort_key (\<lambda>f. linear s (f_start f)) (sfields s);
          ascii = sort_key (linear s) (ascii_fields s)
      in case find (\<lambda>f. \<not> f_protected f \<and> linear s (f_start f) > cur) by_start of
           Some f \<Rightarrow> Some (f_start f)
         | None \<Rightarrow>
             (case find (\<lambda>rc. linear s rc > cur) ascii of
                Some rc \<Rightarrow> Some rc
              | None \<Rightarrow>
                  (case find (\<lambda>f. \<not> f_protected f) by_start of
                     Some f \<Rightarrow> Some (f_start f)
                   | None \<Rightarrow> (case ascii of [] \<Rightarrow> None | rc # _ \<Rightarrow> Some rc))))"

definition move_cursor_to_next_input_field :: "screen \<Rightarrow> screen" where
  "move_cursor_to_next_input_field s =
     (case next_input_target s of None \<Rightarrow> s | Some rc \<Rightarrow> cursor_to rc s)"

definition program_tab :: "screen \<Rightarrow> screen" where
  "program_tab = move_cursor_to_next_input_field"

section \<open>Attributes\<close>

definition set_attribute :: "byte \<Rightarrow> (int \<times> int) option \<Rightarrow> screen \<Rightarrow> screen" where
  "set_attribute b at s =
     (let pos = linear s (case at of Some rc \<Rightarrow> rc | None \<Rightarrow> get_position s)
      in if 0 \<le> pos \<and> pos < ssize s
         then (let s1 = s\<lparr>buffer := (buffer s)[nat pos := b],
                          attributes := (attributes s)[nat (pos * 3) := b],
                          field_starts := insert pos (field_starts s), nav_valid := False\<rparr>
               in if suspend_detection s1 = 0 then detect_fields s1 else s1)
         else s)"

fun repeat_attribute_loop :: "nat \<Rightarrow> byte \<Rightarrow> screen \<Rightarrow> screen" where
  "repeat_attribute_loop 0 b s = s"
| "repeat_attribute_loop (Suc n) b s =
     repeat_attribute_loop n b (advance_cursor 1 (set_attribute b None s))"

definition repeat_attribute :: "byte \<Rightarrow> int \<Rightarrow> screen \<Rightarrow> screen" where
  "repeat_attribute b n s =
     (let s1 = repeat_attribute_loop (nat n) b (s\<lparr>suspend_detection := suspend_detection s + 1\<rparr>);
          s2 = s1\<lparr>suspend_detection := suspend_detection s1 - 1\<rparr>
      in if suspend_detection s2 = 0 then detect_fields s2 else s2)"

fun graphic_ellipsis_loop :: "nat \<Rightarrow> screen \<Rightarrow> screen" where
  "graphic_ellipsis_loop 0 s = s"
| "graphic_ellipsis_loop (Suc n) s =
     graphic_ellipsis_loop n
       (advance_cursor 1 (write_char 0x2E (Some (get_position s)) False False False s))"

definition graphic_ellipsis :: "int \<Rightarrow> screen \<Rightarrow> screen" where
  "graphic_ellipsis n s = graphic_ellipsis_loop (nat n) s"

definition sfe_attr_map :: "(int \<times> string) list" where
  "sfe_attr_map =
     [(0x00, ''default''), (0x02, ''background''), (0x03, ''transparency''),
      (0x08, ''light_pen''), (0x41, ''highlight''), (0x42, ''color''), (0x43, ''character_set''),
      (0x44, ''validation''), (0x45, ''outlining''), (0x54, ''extended_color''),
      (0x6D, ''extended_highlight''), (0xC1, ''validation''), (0xC2, ''outlining''),
      (0xF1, ''dbcs_charset''), (0xFF, ''all_attributes'')]"

text \<open>Enter a raw value in the attribute set of a position, creating the set if there is none.\<close>

definition put_ext_attr :: "int \<times> int \<Rightarrow> string \<Rightarrow> int \<Rightarrow> ext_attrs \<Rightarrow> ext_attrs" where
  "put_ext_attr rc key v ext =
     AList.update rc
       (aset_set key (Raw v) (case map_of ext rc of None \<Rightarrow> [] | Some a \<Rightarrow> a)) ext"

definition set_extended_attribute_sfe ::
    "int \<Rightarrow> int \<Rightarrow> (int \<times> int) option \<Rightarrow> screen \<Rightarrow> screen" where
  "set_extended_attribute_sfe attr_type v at s =
     (let rc = (case at of Some rc \<Rightarrow> rc | None \<Rightarrow> get_position s)
      in case map_of sfe_attr_map attr_type of
           None \<Rightarrow> s
         | Some key \<Rightarrow> s\<lparr>extended_attributes := put_ext_attr rc key v (extended_attributes s)\<rparr>)"

text \<open>
  \<open>set_extended_attribute\<close> wraps the value itself and stores it raw when the class refuses it,
  which is what the set's own wrapping does with a raw value.
\<close>

definition set_extended_attribute :: "int \<Rightarrow> int \<Rightarrow> string \<Rightarrow> int \<Rightarrow> screen \<Rightarrow> screen" where
  "set_extended_attribute row col attr_type v s =
     (if \<not> (0 \<le> row \<and> row < rows s \<and> 0 \<le> col \<and> col < cols s) then s
      else
        (let s1 = s\<lparr>extended_attributes :=
                       put_ext_attr (row, col) attr_type v (extended_attributes s),
                    field_starts := insert (row * cols s + col) (field_starts s)\<rparr>
         in if suspend_detection s1 = 0 then detect_fields s1 else s1))"

definition get_extended_attributes_at :: "int \<Rightarrow> int \<Rightarrow> screen \<Rightarrow> attr_set option" where
  "get_extended_attributes_at row col s =
     (if 0 \<le> row \<and> row < rows s \<and> 0 \<le> col \<and> col < cols s
      then map_of (extended_attributes s) (row, col) else None)"

definition set_field_validation :: "field \<Rightarrow> attr \<Rightarrow> screen \<Rightarrow> screen" where
  "set_field_validation f rules s =
     set_extended_attribute (fst (f_start f)) (snd (f_start f)) ''validation'' (attr_value rules) s"

definition get_field_validation :: "field \<Rightarrow> screen \<Rightarrow> attr option" where
  "get_field_validation f s =
     (case get_extended_attributes_at (fst (f_start f)) (snd (f_start f)) s of
        None \<Rightarrow> None
      | Some a \<Rightarrow> (case aset_get_attribute a ''validation'' of
            Some (ValAttr v mn mx cu) \<Rightarrow> Some (ValAttr v mn mx cu)
          | _ \<Rightarrow> None))"

definition validate_field_input :: "field \<Rightarrow> string \<Rightarrow> screen \<Rightarrow> bool \<times> string option" where
  "validate_field_input f text s =
     (case get_field_validation f s of
        Some a \<Rightarrow> validate_input a text
      | None \<Rightarrow> (True, None))"

text \<open>
  \<open>f is field\<close> is equality here: fields of one detection have different starts. The designator
  is compared with the ASCII codes of the question mark and the greater-than sign.
\<close>

fun select_first :: "field \<Rightarrow> field list \<Rightarrow> field list" where
  "select_first f [] = []"
| "select_first f (g # gs) =
     (if g = f then Field_replace (\<lambda>h. h\<lparr>f_selected := True\<rparr>) f # gs else g # select_first f gs)"

definition select_light_pen :: "int \<Rightarrow> int \<Rightarrow> screen \<Rightarrow> int option \<times> screen" where
  "select_light_pen row col s =
     (let s1 = detect_fields s
      in case get_field_at_position row col s1 of
           None \<Rightarrow> (None, s1)
         | Some f \<Rightarrow>
             if f_light_pen f = 0 then (None, s1)
             else (let pos = nat (row * cols s1 + col);
                       s2 = s1\<lparr>sfields := select_first f (sfields s1),
                               light_pen_pos := Some (row, col)\<rparr>
                   in (Some 0x7D,
                       if buffer s2 ! pos = 0x3F then s2\<lparr>buffer := (buffer s2)[pos := 0x3E]\<rparr>
                       else s2)))"

text \<open>Modified fields with their content, decoded by the code page (a parameter).\<close>

definition read_modified_fields ::
    "(string \<Rightarrow> bytes \<Rightarrow> string) \<Rightarrow> screen \<Rightarrow> ((int \<times> int) \<times> string) list" where
  "read_modified_fields decode s =
     map (\<lambda>f. (f_start f, decode (f_codepage f) (f_content f))) (filter f_modified (sfields s))"

section \<open>Byte streams without the protocol parser\<close>

text \<open>
  \<open>_parse_with_fallback\<close>, which \<open>update_from_stream\<close> falls back to. Unlike every other
  writer it moves past the last row without going back to the top.
\<close>

definition fallback_data :: "byte \<Rightarrow> screen \<Rightarrow> screen" where
  "fallback_data b s =
     (let (row, col) = get_position s
      in if 0 \<le> row \<and> row < rows s \<and> 0 \<le> col \<and> col < cols s
         then (let s1 = s\<lparr>buffer := (buffer s)[nat (row * cols s + col) := b]\<rparr>
               in if cursor_col s1 + 1 \<ge> cols s1
                  then s1\<lparr>cursor_row := cursor_row s1 + 1, cursor_col := 0\<rparr>
                  else s1\<lparr>cursor_col := cursor_col s1 + 1\<rparr>)
         else s)"

definition fallback_sf :: "byte \<Rightarrow> screen \<Rightarrow> screen" where
  "fallback_sf b s =
     (let pos = linear s (get_position s); s1 = set_attribute b None s
      in s1\<lparr>field_starts := insert pos (field_starts s1)\<rparr>)"

fun parse_with_fallback :: "bytes \<Rightarrow> screen \<Rightarrow> screen" where
  "parse_with_fallback [] s = s"
| "parse_with_fallback (x # xs) s =
     (if x = 0x05 then (case xs of [] \<Rightarrow> s | _ # ys \<Rightarrow> parse_with_fallback ys s)
      else if x = 0x11 then
        (case xs of
           hi # lo # ys \<Rightarrow>
             parse_with_fallback ys
               (set_position (addr12 hi lo div cols s) (addr12 hi lo mod cols s) s)
         | _ \<Rightarrow> parse_with_fallback xs s)
      else if x = 0x1D then
        (case xs of [] \<Rightarrow> s | a # ys \<Rightarrow> parse_with_fallback ys (fallback_sf a s))
      else if x = 0x0D then parse_with_fallback xs s
      else parse_with_fallback xs (fallback_data x s))"

text \<open>The test by which \<open>update_from_stream\<close> takes its data for plain text.\<close>

definition is_simple_data :: "bytes \<Rightarrow> bool" where
  "is_simple_data data =
     list_all (\<lambda>b. b = 0 \<or> (32 \<le> uint b \<and> uint b \<le> 126)
                  \<or> b \<in> set [0x40, 0xC1, 0xC2, 0xC3, 0xC4, 0xC5]) data"

text \<open>
  \<open>update_from_stream\<close>, with the protocol parser as an argument that returns the screen it
  leaves and whether it raised; after an exception the fallback parser runs on that screen.
\<close>

definition update_from_stream ::
    "(bytes \<Rightarrow> screen \<Rightarrow> bool \<times> screen) \<Rightarrow> bytes \<Rightarrow> screen \<Rightarrow> screen" where
  "update_from_stream parser data s =
     (if data = [] then s
      else
        (let s1 = s\<lparr>field_starts := {}\<rparr>;
             s2 = (if is_simple_data data \<and> int (length data) \<le> ssize s1
                   then s1\<lparr>buffer := data @ drop (length data) (buffer s1), field_starts := {0}\<rparr>
                   else (case parser data s1 of
                           (raised, s') \<Rightarrow> if raised then parse_with_fallback data s' else s'))
         in detect_fields s2))"

definition find_last :: "bytes \<Rightarrow> bytes \<Rightarrow> int" where
  "find_last marker data =
     (case find (\<lambda>i. take (length marker) (drop i data) = marker)
             (rev [0 ..< length data + 1 - length marker]) of
        None \<Rightarrow> -1
      | Some i \<Rightarrow> int i)"

definition critical_markers :: "bytes list" where
  "critical_markers =
     [[0xFF, 0xFA, 0x24], [0xFF, 0xFD, 0x24], [0xFF, 0xFB, 0x24], [0x03, 0x00, 0x00, 0x00]]"

definition best_cut :: "bytes \<Rightarrow> int \<Rightarrow> int" where
  "best_cut truncated max_len =
     foldl (\<lambda>best marker.
              (let p = find_last marker truncated
               in if p > best div 2 then p + int (length marker) else best))
       max_len critical_markers"

definition apply_progressive_limits :: "bytes \<Rightarrow> int \<Rightarrow> bytes" where
  "apply_progressive_limits data max_len =
     (if int (length data) \<le> max_len then data
      else
        (let best = best_cut (py_slice data 0 max_len) max_len
         in py_slice data 0 (if best < max_len then min (best + 32) max_len else best)))"

section \<open>Masking for display\<close>

text \<open>
  The bytes of one row as \<open>to_text\<close> hands them to the code page in EBCDIC mode: field attributes and the
  cursor position show as spaces. \<open>ascii_buffer\<close> masks an attribute only when it is zero or
  has both high bits set.
\<close>

definition masked_row :: "screen \<Rightarrow> int \<Rightarrow> bytes" where
  "masked_row s row =
     map (\<lambda>(col, b). if row * cols s + int col \<in> field_starts s
                       \<or> (row = cursor_row s \<and> int col = cursor_col s) then 0x40 else b)
       (enumerate 0 (py_slice (buffer s) (row * cols s) (row * cols s + cols s)))"

definition masked_row_ascii_buffer :: "screen \<Rightarrow> int \<Rightarrow> bytes" where
  "masked_row_ascii_buffer s row =
     map (\<lambda>(col, b).
            if row * cols s + int col \<in> field_starts s
            then (if b = 0 \<or> (b AND 0x80 \<noteq> 0 \<and> b AND 0x40 \<noteq> 0) then 0x40 else b)
            else if row = cursor_row s \<and> int col = cursor_col s then 0x40 else b)
       (enumerate 0 (py_slice (buffer s) (row * cols s) (row * cols s + cols s)))"

definition to_text_rows :: "(bytes \<Rightarrow> string) \<Rightarrow> screen \<Rightarrow> string list" where
  "to_text_rows decode s = map (\<lambda>row. decode (masked_row s row)) [0 .. rows s - 1]"

end
