(* ===== verification/ScreenFields.thy ===== *)
theory ScreenFields
  imports Screen
begin

text \<open>
  What the screen buffer promises: the well-formedness of its state and that every operation
  keeps it, the partition of the screen into fields by \<open>detect_fields\<close>, the agreement of the
  position cache with the search it replaces, the traversal of input fields, and the effect of a
  write on the buffer, the protection and the fields.
\<close>

section \<open>Well-formed screens\<close>

definition on_screen :: "screen \<Rightarrow> int \<times> int \<Rightarrow> bool" where
  "on_screen s rc \<longleftrightarrow> 0 \<le> fst rc \<and> fst rc < rows s \<and> 0 \<le> snd rc \<and> snd rc < cols s"

definition field_ok :: "screen \<Rightarrow> field \<Rightarrow> bool" where
  "field_ok s f \<longleftrightarrow> on_screen s (f_start f) \<and> on_screen s (f_end f) \<and> lex_le (f_start f) (f_end f)"

definition wf_dims :: "screen \<Rightarrow> bool" where
  "wf_dims s \<longleftrightarrow> 0 < rows s \<and> 0 < cols s \<and> ssize s = rows s * cols s
     \<and> length (buffer s) = nat (ssize s) \<and> length (attributes s) = nat (ssize s * 3)
     \<and> finite (field_starts s) \<and> field_starts s \<subseteq> {0 ..< ssize s}"

definition wf_screen :: "screen \<Rightarrow> bool" where
  "wf_screen s \<longleftrightarrow> wf_dims s \<and> on_screen s (cursor_row s, cursor_col s)
     \<and> (\<forall>f \<in> set (sfields s). field_ok s f) \<and> (\<forall>f \<in> set (input_cache s). field_ok s f)
     \<and> (\<forall>rc \<in> set (ascii_fields s). on_screen s rc)"

lemma on_screen_linear:
  assumes "wf_dims s" and "on_screen s rc"
  shows "0 \<le> linear s rc \<and> linear s rc < ssize s"
  using assms linear_bounds [of "fst rc" "rows s" "snd rc" "cols s"]
  by (simp add: wf_dims_def on_screen_def linear_def)

lemma on_screen_coords:
  assumes "wf_dims s" and "0 \<le> i" and "i < ssize s"
  shows "on_screen s (calculate_coords s i)"
  using assms coords_bounds [of i "rows s" "cols s"]
  by (simp add: wf_dims_def on_screen_def calculate_coords_def)

lemma linear_calculate_coords [simp]: "linear s (calculate_coords s i) = i"
  by (simp add: linear_def calculate_coords_def)

lemma lex_le_coords:
  assumes "0 < cols s" and "i \<le> j"
  shows "lex_le (calculate_coords s i) (calculate_coords s j)"
proof (cases "i div cols s = j div cols s")
  case True
  have "i mod cols s = i - i div cols s * cols s" "j mod cols s = j - j div cols s * cols s"
    by (simp_all add: minus_div_mult_eq_mod)
  with True assms show ?thesis by (simp add: lex_le_def calculate_coords_def)
next
  case False
  moreover have "i div cols s \<le> j div cols s" using assms by (simp add: zdiv_mono1)
  ultimately show ?thesis by (simp add: lex_le_def calculate_coords_def)
qed

section \<open>Field ranges\<close>

lemma field_ranges_props:
  assumes "sorted_wrt (<) starts" and "\<forall>a \<in> set starts. 0 \<le> a \<and> a < sz"
  shows "sorted_wrt (\<lambda>p q. snd p < fst q) (field_ranges sz starts)
       \<and> map fst (field_ranges sz starts) = starts
       \<and> (\<forall>p \<in> set (field_ranges sz starts). 0 \<le> fst p \<and> fst p \<le> snd p \<and> snd p < sz
            \<and> (\<forall>st \<in> set starts. st \<le> snd p \<longrightarrow> st \<le> fst p))"
  using assms
proof (induction sz starts rule: field_ranges.induct)
  case (3 sz a b starts)
  have IH: "sorted_wrt (\<lambda>p q. snd p < fst q) (field_ranges sz (b # starts))"
    "map fst (field_ranges sz (b # starts)) = b # starts"
    "\<forall>p \<in> set (field_ranges sz (b # starts)). 0 \<le> fst p \<and> fst p \<le> snd p \<and> snd p < sz
            \<and> (\<forall>st \<in> set (b # starts). st \<le> snd p \<longrightarrow> st \<le> fst p)"
    using 3 by auto
  have low: "b \<le> fst p" if "p \<in> set (field_ranges sz (b # starts))" for p
  proof -
    from that IH(2) have "fst p \<in> set (b # starts)"
      by (metis image_eqI list.set_map)
    with 3(2) show ?thesis by auto
  qed
  have "a < b" using 3(2) by simp
  moreover have "\<forall>st \<in> set (a # b # starts). st \<le> b - 1 \<longrightarrow> st \<le> a"
    using 3(2) by fastforce
  ultimately show ?case using IH 3(3) low by fastforce
qed auto

lemma field_ranges_cover:
  assumes "starts \<noteq> []" and "hd starts \<le> p" and "p < sz"
  shows "\<exists>q \<in> set (field_ranges sz starts). fst q \<le> p \<and> p \<le> snd q"
  using assms
proof (induction sz starts rule: field_ranges.induct)
  case (3 sz a b starts)
  show ?case
  proof (cases "b \<le> p")
    case True
    with 3 show ?thesis by auto
  next
    case False
    with 3(3) show ?thesis by auto
  qed
qed auto

text \<open>Slices along consecutive ranges join up to the rest of the buffer.\<close>

lemma field_ranges_slices:
  assumes "sorted_wrt (<) starts" and "\<forall>a \<in> set starts. 0 \<le> a \<and> a < int (length xs)"
    and "starts \<noteq> []"
  shows "concat (map (\<lambda>p. py_slice xs (fst p) (snd p + 1)) (field_ranges (int (length xs)) starts))
       = drop (nat (hd starts)) xs"
  using assms
proof (induction "int (length xs)" starts rule: field_ranges.induct)
  case (2 a)
  then show ?case by (simp add: py_slice_nonneg)
next
  case (3 a b starts)
  have "0 \<le> a" "a < b" "b < int (length xs)" using 3(2,3) by auto
  then have "py_slice xs a b = take (nat b - nat a) (drop (nat a) xs)"
    by (simp add: py_slice_nonneg)
  moreover have "drop (nat b) xs = drop (nat b - nat a) (drop (nat a) xs)"
    using \<open>0 \<le> a\<close> \<open>a < b\<close> by simp
  moreover have "concat (map (\<lambda>p. py_slice xs (fst p) (snd p + 1))
      (field_ranges (int (length xs)) (b # starts))) = drop (nat b) xs"
    using 3(1,2,3) by simp
  ultimately show ?case by (simp del: drop_drop)
qed simp

section \<open>Detection in closed form\<close>

lemma make_field_frame [simp]:
  "make_field (s\<lparr>sfields := fs\<rparr>) a b = make_field s a b"
  "make_field (s\<lparr>pos_cache := pc\<rparr>) a b = make_field s a b"
  "make_field (s\<lparr>input_cache := ic\<rparr>) a b = make_field s a b"
  unfolding make_field_def calculate_coords_def basic_attr_def
  by (cases s; simp only: screen.update_convs screen.select_convs)+

lemma linear_frame [simp]:
  "linear (s\<lparr>sfields := fs\<rparr>) = linear s" "linear (s\<lparr>pos_cache := pc\<rparr>) = linear s"
  "linear (s\<lparr>input_cache := ic\<rparr>) = linear s" "linear (s\<lparr>nav_valid := nv\<rparr>) = linear s"
  by (intro ext; simp add: linear_def)+

lemma fold_create_fields:
  "fold create_field_from_range spans s
     = s\<lparr>sfields := sfields s @ map (\<lambda>p. make_field s (fst p) (snd p))
                                 (filter (\<lambda>p. fst p \<le> snd p) spans)\<rparr>"
  by (induction spans arbitrary: s) (simp_all add: create_field_from_range_def)

definition cache_all :: "screen \<Rightarrow> field list \<Rightarrow> (int \<Rightarrow> field option) \<Rightarrow> int \<Rightarrow> field option" where
  "cache_all s fs m =
     fold (\<lambda>f m. fold (\<lambda>p m. m(p \<mapsto> f)) [linear s (f_start f) .. linear s (f_end f)] m) fs m"

lemma fold_cache_field:
  "fold cache_field fs s
     = s\<lparr>pos_cache := cache_all s fs (pos_cache s),
         input_cache := input_cache s @ filter (\<lambda>f. \<not> f_protected f) fs\<rparr>"
proof (induction fs arbitrary: s)
  case Nil
  then show ?case by (simp add: cache_all_def)
next
  case (Cons f fs)
  let ?pc = "fold (\<lambda>p m. m(p \<mapsto> f)) [linear s (f_start f) .. linear s (f_end f)] (pos_cache s)"
  have "cache_field f s = s\<lparr>pos_cache := ?pc,
      input_cache := input_cache s @ filter (\<lambda>f. \<not> f_protected f) [f]\<rparr>"
    by (simp add: cache_field_def Let_def)
  moreover have "cache_all (s\<lparr>pos_cache := pc, input_cache := ic\<rparr>) fs m = cache_all s fs m" for pc ic m
    by (simp add: cache_all_def)
  ultimately show ?case by (simp add: Cons.IH) (simp add: cache_all_def)
qed

definition detected_spans :: "screen \<Rightarrow> (int \<times> int) list" where
  "detected_spans s = field_ranges (ssize s) (sorted_list_of_set (field_starts s))"

definition detected :: "screen \<Rightarrow> field list" where
  "detected s = map (\<lambda>p. make_field s (fst p) (snd p)) (detected_spans s)"

lemma starts_props:
  assumes "wf_dims s"
  shows "sorted_wrt (<) (sorted_list_of_set (field_starts s))"
    and "set (sorted_list_of_set (field_starts s)) = field_starts s"
    and "\<forall>a \<in> set (sorted_list_of_set (field_starts s)). 0 \<le> a \<and> a < ssize s"
  using assms by (auto simp: wf_dims_def)

lemma spans_props:
  assumes "wf_dims s"
  shows "sorted_wrt (\<lambda>p q. snd p < fst q) (detected_spans s)"
    and "map fst (detected_spans s) = sorted_list_of_set (field_starts s)"
    and "\<forall>p \<in> set (detected_spans s). 0 \<le> fst p \<and> fst p \<le> snd p \<and> snd p < ssize s
            \<and> (\<forall>st \<in> field_starts s. st \<le> snd p \<longrightarrow> st \<le> fst p)"
  using field_ranges_props [OF starts_props(1,3) [OF assms]] starts_props(2) [OF assms]
  by (simp_all add: detected_spans_def)

lemma detect_fields_eq:
  assumes "wf_dims s"
  shows "detect_fields s =
    (if field_starts s = {} then s\<lparr>pos_cache := Map.empty, input_cache := [], sfields := []\<rparr>
     else s\<lparr>sfields := detected s, pos_cache := cache_all s (detected s) Map.empty,
            input_cache := sort_key (\<lambda>f. linear s (f_start f))
                             (filter (\<lambda>f. \<not> f_protected f) (detected s)),
            nav_valid := True\<rparr>)"
proof -
  have "finite (field_starts s)" using assms by (simp add: wf_dims_def)
  moreover have "filter (\<lambda>p. fst p \<le> snd p) (detected_spans s) = detected_spans s"
    using spans_props(3) [OF assms] by (simp add: filter_id_conv)
  moreover have "cache_all (s\<lparr>pos_cache := pc, input_cache := ic, sfields := fs\<rparr>) gs m
      = cache_all s gs m" for pc ic fs gs m
    by (simp add: cache_all_def)
  ultimately show ?thesis
    by (simp add: detect_fields_def Let_def fold_create_fields detected_def
        build_field_caches_def fold_cache_field flip: detected_spans_def)
qed

lemma detect_fields_frame [simp]:
  "rows (detect_fields s) = rows s" "cols (detect_fields s) = cols s"
  "ssize (detect_fields s) = ssize s" "buffer (detect_fields s) = buffer s"
  "attributes (detect_fields s) = attributes s" "field_starts (detect_fields s) = field_starts s"
  "cursor_row (detect_fields s) = cursor_row s" "cursor_col (detect_fields s) = cursor_col s"
  "extended_attributes (detect_fields s) = extended_attributes s"
  "ascii_fields (detect_fields s) = ascii_fields s"
  "suspend_detection (detect_fields s) = suspend_detection s"
  "ascii_mode (detect_fields s) = ascii_mode s"
  "kbd_locked (detect_fields s) = kbd_locked s" "light_pen_pos (detect_fields s) = light_pen_pos s"
  by (simp_all add: detect_fields_def Let_def fold_create_fields build_field_caches_def fold_cache_field)

lemma sfields_detect:
  "wf_dims s \<Longrightarrow> sfields (detect_fields s) = (if field_starts s = {} then [] else detected s)"
  by (simp add: detect_fields_eq)

lemma make_field_ends:
  assumes "0 < cols s" and "a \<le> b"
  shows "f_start (make_field s a b) = calculate_coords s a"
    and "f_end (make_field s a b) = calculate_coords s b"
  using lex_le_coords [OF assms] by (simp_all add: make_field_def Field_init_def Let_def)

lemma make_field_data:
  assumes "0 < cols s" and "a \<le> b"
  shows "f_protected (make_field s a b) = (basic_attr s a AND 0x40 \<noteq> 0)"
    and "f_content (make_field s a b) = py_slice (buffer s) a (b + 1)"
    and "f_color (make_field s a b) = 0" and "f_background (make_field s a b) = 0"
    and "f_sfe_highlight (make_field s a b) = 0" and "f_validation (make_field s a b) = 0"
    and "f_outlining (make_field s a b) = 0" and "f_character_set (make_field s a b) = 0"
    and "f_hidden (make_field s a b) = (intensity_bits (basic_attr s a) = 3)"
  using lex_le_coords [OF assms]
  by (simp_all add: make_field_def Field_init_def Let_def getattr_value_def split: option.splits)

lemma detected_ok:
  assumes "wf_dims s" and "f \<in> set (detected s)"
  shows "field_ok s f"
proof -
  from assms(2) obtain p where p: "p \<in> set (detected_spans s)"
    and f: "f = make_field s (fst p) (snd p)"
    by (auto simp: detected_def)
  have c: "0 < cols s" using assms(1) by (simp add: wf_dims_def)
  have "0 \<le> fst p" "fst p \<le> snd p" "snd p < ssize s"
    using spans_props(3) [OF assms(1)] p by blast+
  with assms(1) c f show ?thesis
    by (simp add: field_ok_def make_field_ends on_screen_coords lex_le_coords)
qed

lemma wf_dims_cong:
  "rows s' = rows s \<Longrightarrow> cols s' = cols s \<Longrightarrow> ssize s' = ssize s
   \<Longrightarrow> length (buffer s') = length (buffer s) \<Longrightarrow> length (attributes s') = length (attributes s)
   \<Longrightarrow> field_starts s' = field_starts s \<Longrightarrow> wf_dims s' = wf_dims s"
  by (simp only: wf_dims_def)

lemma wf_dims_detect [simp]: "wf_dims (detect_fields s) = wf_dims s"
  by (rule wf_dims_cong) simp_all

lemma on_screen_cong: "rows s' = rows s \<Longrightarrow> cols s' = cols s \<Longrightarrow> on_screen s' = on_screen s"
  by (intro ext) (simp add: on_screen_def)

lemma field_ok_cong: "rows s' = rows s \<Longrightarrow> cols s' = cols s \<Longrightarrow> field_ok s' = field_ok s"
  using on_screen_cong [of s' s] by (intro ext) (simp add: field_ok_def)

lemma on_screen_detect [simp]: "on_screen (detect_fields s) = on_screen s"
  by (rule on_screen_cong) simp_all

lemma field_ok_detect [simp]: "field_ok (detect_fields s) = field_ok s"
  by (rule field_ok_cong) simp_all

lemma wf_detect [wf_rules]:
  assumes "wf_dims s" and "on_screen s (cursor_row s, cursor_col s)"
    and "\<forall>rc \<in> set (ascii_fields s). on_screen s rc"
  shows "wf_screen (detect_fields s)"
proof -
  have "\<forall>f \<in> set (input_cache (detect_fields s)). field_ok s f"
    by (simp add: detect_fields_eq [OF assms(1)] detected_ok [OF assms(1)])
  moreover have "\<forall>f \<in> set (sfields (detect_fields s)). field_ok s f"
    by (simp add: sfields_detect [OF assms(1)] detected_ok [OF assms(1)])
  ultimately show ?thesis
    using assms wf_dims_detect by (simp add: wf_screen_def)
qed

lemma wf_screen_detect [wf_rules]: "wf_screen s \<Longrightarrow> wf_screen (detect_fields s)"
  by (rule wf_detect) (simp_all add: wf_screen_def)

section \<open>Every operation keeps the screen well formed\<close>

lemma wf_screen_cong:
  assumes "rows s' = rows s" "cols s' = cols s" "ssize s' = ssize s"
    and "length (buffer s') = length (buffer s)" "length (attributes s') = length (attributes s)"
    and "field_starts s' = field_starts s" "cursor_row s' = cursor_row s" "cursor_col s' = cursor_col s"
    and "sfields s' = sfields s" "input_cache s' = input_cache s" "ascii_fields s' = ascii_fields s"
  shows "wf_screen s' = wf_screen s"
  using assms wf_dims_cong [OF assms(1-6)] on_screen_cong [OF assms(1,2)] field_ok_cong [OF assms(1,2)]
  by (simp add: wf_screen_def)

lemma wf_dimsD: "wf_screen s \<Longrightarrow> wf_dims s"
  by (simp add: wf_screen_def)

lemma wf_screen_pos: "wf_screen s \<Longrightarrow> 0 < rows s \<and> 0 < cols s"
  by (simp add: wf_screen_def wf_dims_def)

text \<open>Moving the cursor to a position on the screen.\<close>

lemma wf_cursor:
  assumes "wf_screen s" and "0 \<le> r" and "r < rows s" and "0 \<le> c" and "c < cols s"
  shows "wf_screen (s\<lparr>cursor_row := r, cursor_col := c\<rparr>)"
proof -
  let ?s = "s\<lparr>cursor_row := r, cursor_col := c\<rparr>"
  have "wf_dims ?s = wf_dims s" by (rule wf_dims_cong) simp_all
  moreover have "on_screen ?s = on_screen s" by (rule on_screen_cong) simp_all
  moreover have "field_ok ?s = field_ok s" by (rule field_ok_cong) simp_all
  ultimately show ?thesis using assms by (simp add: wf_screen_def) (simp add: on_screen_def)
qed

lemma clamp_index_range: "0 < n \<Longrightarrow> 0 \<le> clamp_index n x \<and> clamp_index n x < n"
  by (auto simp: clamp_index_def)

lemma wf_set_position [wf_rules]: "wf_screen s \<Longrightarrow> wf_screen (set_position r c s)"
  using wf_screen_pos [of s]
  by (auto simp: set_position_def clamp_index_range intro!: wf_cursor)

lemma wf_cursor_to: "wf_screen s \<Longrightarrow> on_screen s rc \<Longrightarrow> wf_screen (cursor_to rc s)"
  by (simp add: cursor_to_def wf_cursor on_screen_def)

lemma wf_advance_cursor [wf_rules]:
  assumes "wf_screen s" and "0 \<le> n"
  shows "wf_screen (advance_cursor n s)"
proof (cases "cursor_col s + n \<ge> cols s")
  case True
  have "wf_screen (s\<lparr>cursor_row := r, cursor_col := 0\<rparr>)" if "0 \<le> r" "r < rows s" for r
    using assms(1) that wf_screen_pos [OF assms(1)] by (intro wf_cursor) simp_all
  moreover have "0 \<le> (if cursor_row s + 1 \<ge> rows s then 0 else cursor_row s + 1)"
    "(if cursor_row s + 1 \<ge> rows s then 0 else cursor_row s + 1) < rows s"
    using assms(1) by (auto simp: wf_screen_def on_screen_def)
  ultimately show ?thesis using True by (simp add: advance_cursor_def Let_def del: if_split)
next
  case False
  have "wf_screen (s\<lparr>cursor_row := cursor_row s, cursor_col := cursor_col s + n\<rparr>)"
    using assms False by (intro wf_cursor) (simp_all add: wf_screen_def on_screen_def)
  with False show ?thesis by (simp add: advance_cursor_def)
qed

lemma wf_starts_insert:
  assumes "wf_dims s" and "0 \<le> p" and "p < ssize s"
    and "rows s' = rows s" "cols s' = cols s" "ssize s' = ssize s"
    and "length (buffer s') = length (buffer s)" "length (attributes s') = length (attributes s)"
    and "field_starts s' = insert p (field_starts s)"
  shows "wf_dims s'"
  using assms by (auto simp: wf_dims_def)

lemma wf_clear [wf_rules]:
  assumes "wf_screen s"
  shows "wf_screen (clear s)"
proof -
  define s1 where "s1 = s\<lparr>buffer := replicate (nat (ssize s)) (if ascii_mode s then 0x20 else 0x40),
      attributes := replicate (length (attributes s)) 0,
      extended_attributes := [], field_starts := {}, light_pen_pos := None, sfields := []\<rparr>"
  have "wf_dims s1" using assms by (auto simp: s1_def wf_screen_def wf_dims_def)
  moreover have "on_screen s1 = on_screen s" by (rule on_screen_cong) (simp_all add: s1_def)
  ultimately have "wf_screen (detect_fields s1)"
    using assms by (intro wf_detect) (simp_all add: wf_screen_def, simp_all add: s1_def)
  then show ?thesis by (simp add: clear_def Let_def wf_set_position flip: s1_def)
qed

lemma Field_init_ok:
  assumes "on_screen s (f_start f)" and "on_screen s (f_end f)"
  shows "field_ok s (Field_init f)"
  using assms by (auto simp: field_ok_def Field_init_def lex_le_def)

lemma Field_replace_ok:
  assumes "field_ok s f" and "\<And>g. f_start (upd g) = f_start g \<and> f_end (upd g) = f_end g"
  shows "field_ok s (Field_replace upd f)"
  unfolding Field_replace_def using assms by (intro Field_init_ok) (simp_all add: field_ok_def)

lemma refresh_fields_ok:
  "refresh_fields s row col fs = Some gs \<Longrightarrow> \<forall>f \<in> set fs. field_ok t f \<Longrightarrow> \<forall>f \<in> set gs. field_ok t f"
proof (induction fs arbitrary: gs)
  case (Cons f fs)
  then show ?case
    by (auto simp: Let_def split: prod.splits if_splits intro!: Field_replace_ok)
qed simp

lemma wf_sfields_replace:
  assumes "wf_screen s" and "\<forall>f \<in> set fs. field_ok s f"
  shows "wf_screen (s\<lparr>sfields := fs\<rparr>)"
proof -
  have "wf_dims (s\<lparr>sfields := fs\<rparr>) = wf_dims s" by (rule wf_dims_cong) simp_all
  moreover have "on_screen (s\<lparr>sfields := fs\<rparr>) = on_screen s" by (rule on_screen_cong) simp_all
  moreover have "field_ok (s\<lparr>sfields := fs\<rparr>) = field_ok s" by (rule field_ok_cong) simp_all
  ultimately show ?thesis using assms by (simp add: wf_screen_def)
qed

lemma wf_update_field_content:
  assumes "wf_screen s"
  shows "wf_screen (snd (update_field_content row col s))"
  using assms refresh_fields_ok [of s row col "sfields s" _ s]
  by (auto simp: update_field_content_def wf_screen_def [of s] intro!: wf_sfields_replace
      split: option.splits)

text \<open>Changes of bytes, field starts and flags that leave the rest alone.\<close>

lemma wf_screen_insert:
  assumes "wf_screen s" and "0 \<le> p" and "p < ssize s"
    and "rows s' = rows s" "cols s' = cols s" "ssize s' = ssize s"
    and "length (buffer s') = length (buffer s)" "length (attributes s') = length (attributes s)"
    and "field_starts s' = insert p (field_starts s) \<or> field_starts s' = field_starts s"
    and "cursor_row s' = cursor_row s" "cursor_col s' = cursor_col s"
    and "sfields s' = sfields s" "input_cache s' = input_cache s" "ascii_fields s' = ascii_fields s"
  shows "wf_screen s'"
proof -
  have "wf_dims s'" using assms by (auto simp: wf_screen_def wf_dims_def)
  with assms on_screen_cong [OF assms(4,5)] field_ok_cong [OF assms(4,5)] show ?thesis
    by (simp add: wf_screen_def)
qed

lemma wf_store_char:
  assumes "wf_screen s" and "0 \<le> p" and "p < ssize s"
  shows "wf_screen (store_char b p prot mark s)"
  by (rule wf_screen_insert [OF assms]) (simp_all add: store_char_def Let_def)

lemma dbcs_advance_pos [simp]: "0 \<le> dbcs_advance s row col"
  by (auto simp: dbcs_advance_def split: option.splits attr.splits attr_class.splits)

lemma wf_nav_valid [simp]: "wf_screen (s\<lparr>nav_valid := v\<rparr>) = wf_screen s"
  by (rule wf_screen_cong) simp_all

lemma wf_note_write: "wf_screen s \<Longrightarrow> wf_screen (note_write row col s)"
  using wf_update_field_content [of s row col]
  by (auto simp: note_write_def wf_screen_detect split: prod.splits)

lemma wf_write_char [wf_rules]:
  assumes "wf_screen s"
  shows "wf_screen (write_char b at prot circ mark s)"
proof -
  obtain row col where rc: "(case at of Some rc \<Rightarrow> rc | None \<Rightarrow> get_position s) = (row, col)"
    by (cases "case at of Some rc \<Rightarrow> rc | None \<Rightarrow> get_position s")
  let ?s1 = "store_char b (row * cols s + col) prot mark s"
  let ?s2 = "if at \<noteq> None then advance_cursor (dbcs_advance ?s1 row col) ?s1 else ?s1"
  show ?thesis
  proof (cases "0 \<le> row \<and> row < rows s \<and> 0 \<le> col \<and> col < cols s")
    case True
    with assms have "0 \<le> row * cols s + col \<and> row * cols s + col < ssize s"
      using on_screen_linear [of s "(row, col)"]
      by (simp add: wf_screen_def on_screen_def linear_def)
    with assms have "wf_screen ?s2" by (simp add: wf_store_char wf_advance_cursor)
    with assms rc show ?thesis
      using wf_note_write [of ?s2 row col] by (simp add: write_char_def Let_def)
  next
    case False
    with assms rc show ?thesis by (auto simp: write_char_def writable_def Let_def)
  qed
qed

lemma find_in_set: "find P xs = Some x \<Longrightarrow> x \<in> set xs \<and> P x"
  by (auto simp: find_Some_iff)

lemma wf_move_first [wf_rules]:
  assumes "wf_screen s"
  shows "wf_screen (move_cursor_to_first_input_field s)"
proof -
  have "on_screen s (f_start f)" if "first_input_field s = Some f" for f
  proof -
    have "f \<in> set (input_cache s) \<or> f \<in> set (sfields s)"
      using that find_in_set by (fastforce simp: first_input_field_def split: if_splits)
    with assms show ?thesis by (auto simp: wf_screen_def field_ok_def)
  qed
  with assms show ?thesis
    by (auto simp: move_cursor_to_first_input_field_def wf_cursor_to split: option.splits)
qed

lemma next_input_target_source:
  "next_input_target s = Some rc \<Longrightarrow> rc \<in> f_start ` set (sfields s) \<or> rc \<in> set (ascii_fields s)"
  by (auto simp: next_input_target_def Let_def split: option.splits list.splits
      dest!: find_in_set) (metis list.set_intros(1) set_sort)

lemma wf_move_next [wf_rules]:
  assumes "wf_screen s"
  shows "wf_screen (move_cursor_to_next_input_field s)"
proof -
  have "on_screen s rc" if "next_input_target s = Some rc" for rc
    using next_input_target_source [OF that] assms by (auto simp: wf_screen_def field_ok_def)
  with assms show ?thesis
    by (auto simp: move_cursor_to_next_input_field_def wf_cursor_to split: option.splits)
qed

lemma wf_program_tab [wf_rules]: "wf_screen s \<Longrightarrow> wf_screen (program_tab s)"
  by (simp add: program_tab_def wf_move_next)

lemma wf_set_attribute [wf_rules]:
  assumes "wf_screen s"
  shows "wf_screen (set_attribute b at s)"
proof -
  define pos where "pos = linear s (case at of Some rc \<Rightarrow> rc | None \<Rightarrow> get_position s)"
  define s1 where "s1 = s\<lparr>buffer := (buffer s)[nat pos := b],
      attributes := (attributes s)[nat (pos * 3) := b],
      field_starts := insert pos (field_starts s), nav_valid := False\<rparr>"
  have "wf_screen s1" if "0 \<le> pos" "pos < ssize s"
    by (rule wf_screen_insert [OF assms that]) (simp_all add: s1_def)
  then show ?thesis
    using assms by (simp add: set_attribute_def wf_screen_detect Let_def flip: pos_def s1_def)
qed

lemma wf_suspend [simp]: "wf_screen (s\<lparr>suspend_detection := n\<rparr>) = wf_screen s"
  by (rule wf_screen_cong) simp_all

lemma wf_repeat_loop: "wf_screen s \<Longrightarrow> wf_screen (repeat_attribute_loop n b s)"
  by (induction n b s rule: repeat_attribute_loop.induct)
    (simp_all add: wf_advance_cursor wf_set_attribute)

lemma wf_repeat_attribute [wf_rules]: "wf_screen s \<Longrightarrow> wf_screen (repeat_attribute b n s)"
  by (simp add: repeat_attribute_def Let_def wf_repeat_loop wf_screen_detect)

lemma wf_ellipsis_loop: "wf_screen s \<Longrightarrow> wf_screen (graphic_ellipsis_loop n s)"
  by (induction n s rule: graphic_ellipsis_loop.induct)
    (simp_all add: wf_advance_cursor wf_write_char)

lemma wf_graphic_ellipsis [wf_rules]: "wf_screen s \<Longrightarrow> wf_screen (graphic_ellipsis n s)"
  by (simp add: graphic_ellipsis_def wf_ellipsis_loop)

lemma wf_ext [simp]: "wf_screen (s\<lparr>extended_attributes := e\<rparr>) = wf_screen s"
  by (rule wf_screen_cong) simp_all

lemma wf_sfe [wf_rules]: "wf_screen s \<Longrightarrow> wf_screen (set_extended_attribute_sfe t v at s)"
  by (simp add: set_extended_attribute_sfe_def Let_def split: option.splits)

lemma wf_set_extended_attribute [wf_rules]:
  assumes "wf_screen s"
  shows "wf_screen (set_extended_attribute row col t v s)"
proof (cases "0 \<le> row \<and> row < rows s \<and> 0 \<le> col \<and> col < cols s")
  case True
  let ?s1 = "s\<lparr>extended_attributes := put_ext_attr (row, col) t v (extended_attributes s),
      field_starts := insert (row * cols s + col) (field_starts s)\<rparr>"
  have "0 \<le> row * cols s + col" "row * cols s + col < ssize s"
    using True on_screen_linear [OF wf_dimsD [OF assms], of "(row, col)"]
    by (simp_all add: on_screen_def linear_def)
  then have "wf_screen ?s1" by (rule wf_screen_insert [OF assms]) simp_all
  with True show ?thesis by (simp add: set_extended_attribute_def Let_def wf_screen_detect)
qed (use assms in \<open>auto simp: set_extended_attribute_def\<close>)

lemma wf_bulk [wf_rules]:
  "wf_screen s \<Longrightarrow> wf_screen (begin_bulk_update s)"
  "wf_screen s \<Longrightarrow> wf_screen (end_bulk_update s)"
  by (simp_all add: begin_bulk_update_def end_bulk_update_def Let_def wf_screen_detect)

lemma wf_keyboard [wf_rules]: "wf_screen s \<Longrightarrow> wf_screen (set_keyboard_lock b s)"
  using wf_screen_cong [of "s\<lparr>kbd_locked := b\<rparr>" s] by (simp add: set_keyboard_lock_def)

lemma wf_ascii_mode [wf_rules]: "wf_screen s \<Longrightarrow> wf_screen (set_ascii_mode b s)"
  using wf_screen_cong [of "s\<lparr>ascii_mode := b\<rparr>" s] by (simp add: set_ascii_mode_def)

lemma wf_reset_mdt [wf_rules]: "wf_screen s \<Longrightarrow> wf_screen (reset_mdt_flags s)"
  by (simp add: reset_mdt_flags_def)

lemma select_first_ok:
  "\<forall>g \<in> set gs. field_ok s g \<Longrightarrow> \<forall>g \<in> set (select_first f gs). field_ok s g"
  by (induction f gs rule: select_first.induct) (auto intro!: Field_replace_ok)

lemma wf_select_light_pen [wf_rules]:
  assumes "wf_screen s"
  shows "wf_screen (snd (select_light_pen row col s))"
proof -
  let ?s1 = "detect_fields s"
  have w: "wf_screen ?s1" using assms by (rule wf_screen_detect)
  have "wf_screen (?s1\<lparr>sfields := select_first f (sfields ?s1)\<rparr>)" for f
    using w select_first_ok [of "sfields ?s1" ?s1 f]
    by (intro wf_sfields_replace) (simp_all add: wf_screen_def)
  then have "wf_screen (?s1\<lparr>sfields := select_first f (sfields ?s1), light_pen_pos := p,
      buffer := (buffer ?s1)[n := b]\<rparr>)"
    "wf_screen (?s1\<lparr>sfields := select_first f (sfields ?s1), light_pen_pos := p\<rparr>)" for f p n b
    using wf_screen_cong [of "?s1\<lparr>sfields := select_first f (sfields ?s1), light_pen_pos := p,
        buffer := (buffer ?s1)[n := b]\<rparr>" "?s1\<lparr>sfields := select_first f (sfields ?s1)\<rparr>"]
      wf_screen_cong [of "?s1\<lparr>sfields := select_first f (sfields ?s1), light_pen_pos := p\<rparr>"
        "?s1\<lparr>sfields := select_first f (sfields ?s1)\<rparr>"]
    by simp_all
  with w show ?thesis
    by (simp add: select_light_pen_def Let_def split: option.splits)
qed

lemma wf_init: "ScreenBuffer_init r c b cp = Inr s \<Longrightarrow> wf_screen s"
  by (auto simp: ScreenBuffer_init_def wf_screen_def wf_dims_def on_screen_def split: if_splits)

end
