(* ===== verification/ScreenProps.thy ===== *)
theory ScreenProps
  imports ScreenFields
begin

text \<open>
  The properties of the screen buffer: the partition into fields, lookup and navigation, the
  effect of writes, reachability of well-formed states only, and the behaviours in which the
  implementation departs from its documentation.
\<close>

section \<open>Partition and lookup\<close>

lemma detected_starts:
  assumes "wf_dims s"
  shows "map (\<lambda>f. linear s (f_start f)) (detected s) = sorted_list_of_set (field_starts s)"
    and "map (\<lambda>f. linear s (f_end f)) (detected s) = map snd (detected_spans s)"
proof -
  have c: "0 < cols s" using assms by (simp add: wf_dims_def)
  have *: "linear s (f_start (make_field s (fst p) (snd p))) = fst p
      \<and> linear s (f_end (make_field s (fst p) (snd p))) = snd p"
    if "p \<in> set (detected_spans s)" for p
    using spans_props(3) [OF assms] that make_field_ends [OF c] by fastforce
  then have "map (\<lambda>f. linear s (f_start f)) (detected s) = map fst (detected_spans s)"
    by (simp add: detected_def)
  then show "map (\<lambda>f. linear s (f_start f)) (detected s) = sorted_list_of_set (field_starts s)"
    by (simp add: spans_props(2) [OF assms])
  show "map (\<lambda>f. linear s (f_end f)) (detected s) = map snd (detected_spans s)"
    using * by (simp add: detected_def)
qed

lemma detected_member:
  assumes "wf_dims s" and "f \<in> set (detected s)"
  obtains a b where "f = make_field s a b" "(a, b) \<in> set (detected_spans s)"
    "linear s (f_start f) = a" "linear s (f_end f) = b" "a \<le> b"
proof -
  from assms(2) obtain p where p: "p \<in> set (detected_spans s)"
    and f: "f = make_field s (fst p) (snd p)" by (auto simp: detected_def)
  moreover have "0 < cols s" using assms by (simp add: wf_dims_def)
  moreover have "fst p \<le> snd p" using spans_props(3) [OF assms(1)] p by blast
  ultimately show ?thesis using that [of "fst p" "snd p"] by (simp add: make_field_ends)
qed

text \<open>
  C35. Field detection partitions the screen: the fields start exactly at the marked positions, in
  ascending order, their contents joined are the buffer from the first mark to its end, and a
  field is protected exactly when bit 6 of the attribute at its start is set.
\<close>

theorem detect_fields_partition:
  assumes "wf_screen s" and "field_starts s \<noteq> {}"
  shows "map (\<lambda>f. linear s (f_start f)) (sfields (detect_fields s)) = sorted_list_of_set (field_starts s)
       \<and> concat (map f_content (sfields (detect_fields s))) = drop (nat (Min (field_starts s))) (buffer s)
       \<and> (\<forall>f \<in> set (sfields (detect_fields s)).
            f_protected f = (attributes s ! nat (linear s (f_start f) * 3) AND 0x40 \<noteq> 0))"
proof -
  have w: "wf_dims s" using assms(1) by (rule wf_dimsD)
  have fin: "finite (field_starts s)" using w by (simp add: wf_dims_def)
  have c: "0 < cols s" using w by (simp add: wf_dims_def)
  have d: "sfields (detect_fields s) = detected s" using assms w by (simp add: sfields_detect)
  have "map f_content (detected s)
      = map (\<lambda>p. py_slice (buffer s) (fst p) (snd p + 1)) (detected_spans s)"
    using spans_props(3) [OF w] make_field_data(2) [OF c] by (simp add: detected_def)
  moreover have "ssize s = int (length (buffer s))"
    using w by (simp add: wf_dims_def)
  moreover have "hd (sorted_list_of_set (field_starts s)) = Min (field_starts s)"
    using fin assms(2) by (simp add: sorted_list_of_set_nonempty)
  ultimately have "concat (map f_content (detected s))
      = drop (nat (Min (field_starts s))) (buffer s)"
    using field_ranges_slices [of "sorted_list_of_set (field_starts s)" "buffer s"]
      starts_props [OF w] fin assms(2)
    by (simp add: detected_spans_def)
  moreover have "f_protected f = (attributes s ! nat (linear s (f_start f) * 3) AND 0x40 \<noteq> 0)"
    if "f \<in> set (detected s)" for f
  proof -
    from detected_member [OF w that] obtain a b where f: "f = make_field s a b"
      and ab: "(a, b) \<in> set (detected_spans s)" "linear s (f_start f) = a" "a \<le> b" .
    then have "0 \<le> a" "a < ssize s" using spans_props(3) [OF w] by fastforce+
    then have "a * 3 < int (length (attributes s))" using w by (simp add: wf_dims_def)
    with f ab c show ?thesis by (simp add: make_field_data basic_attr_def)
  qed
  ultimately show ?thesis using d detected_starts(1) [OF w] by simp
qed

text \<open>A screen of two rows and four columns with fields at 1 and 5, used by the witnesses.\<close>

definition demo_screen :: screen where
  "demo_screen = \<lparr>rows = 2, cols = 4, ssize = 8, codepage = ''cp037'', ascii_mode = False,
     buffer = [0x40, 0x60, 0xC1, 0xC2, 0xC3, 0x40, 0xD1, 0xD2],
     attributes = [0,0,0, 0,0,0, 0,0,0, 0,0,0, 0,0,0, 0x4C,0,0, 0,0,0, 0,0,0],
     extended_attributes = [], sfields = [], cursor_row = 0, cursor_col = 0,
     light_pen_pos = None, suspend_detection = 0, field_starts = {1, 5}, ascii_fields = [],
     pos_cache = Map.empty, input_cache = [], nav_valid = False, kbd_locked = False\<rparr>"

lemma demo_facts:
  "rows demo_screen = 2" "cols demo_screen = 4" "ssize demo_screen = 8"
  "field_starts demo_screen = {1, 5}" "extended_attributes demo_screen = []"
  "cursor_row demo_screen = 0" "cursor_col demo_screen = 0" "suspend_detection demo_screen = 0"
  "buffer demo_screen = [0x40, 0x60, 0xC1, 0xC2, 0xC3, 0x40, 0xD1, 0xD2]"
  "attributes demo_screen = [0,0,0, 0,0,0, 0,0,0, 0,0,0, 0,0,0, 0x4C,0,0, 0,0,0, 0,0,0]"
  "sfields demo_screen = []" "ascii_fields demo_screen = []"
  by (simp_all add: demo_screen_def)

lemma wf_demo: "wf_screen demo_screen"
  by (simp add: demo_screen_def wf_screen_def wf_dims_def on_screen_def)

theorem detect_fields_partition_witness:
  "map (\<lambda>f. linear demo_screen (f_start f)) (sfields (detect_fields demo_screen)) = [1, 5]
   \<and> concat (map f_content (sfields (detect_fields demo_screen)))
       = [0x60, 0xC1, 0xC2, 0xC3, 0x40, 0xD1, 0xD2]"
proof -
  have "field_starts demo_screen \<noteq> {}" by (simp add: demo_screen_def)
  moreover have "sorted_list_of_set (field_starts demo_screen) = [1, 5]"
    "Min (field_starts demo_screen) = 1"
    by (simp_all add: demo_screen_def)
  ultimately show ?thesis using detect_fields_partition [OF wf_demo]
    by (simp add: demo_screen_def)
qed

text \<open>The cache, filled field by field, agrees with a search through the fields.\<close>

lemma fold_update_same:
  "(fold (\<lambda>p m. m(p \<mapsto> f)) ps m) q = (if q \<in> set ps then Some f else m q)"
  by (induction ps arbitrary: m) auto

lemma cache_all_find:
  assumes "sorted_wrt (\<lambda>f g. linear s (f_end f) < linear s (f_start g)) fs"
  shows "cache_all s fs m q
       = (case find (\<lambda>f. linear s (f_start f) \<le> q \<and> q \<le> linear s (f_end f)) fs of
            Some f \<Rightarrow> Some f | None \<Rightarrow> m q)"
  using assms
proof (induction fs arbitrary: m)
  case Nil
  then show ?case by (simp add: cache_all_def)
next
  case (Cons f fs)
  let ?m = "fold (\<lambda>p m. m(p \<mapsto> f)) [linear s (f_start f) .. linear s (f_end f)] m"
  have "cache_all s (f # fs) m q = cache_all s fs ?m q" by (simp add: cache_all_def)
  also have "\<dots> = (case find (\<lambda>f. linear s (f_start f) \<le> q \<and> q \<le> linear s (f_end f)) fs of
      Some f \<Rightarrow> Some f | None \<Rightarrow> ?m q)"
    using Cons by simp
  also have "\<dots> = (case find (\<lambda>f. linear s (f_start f) \<le> q \<and> q \<le> linear s (f_end f)) (f # fs) of
      Some f \<Rightarrow> Some f | None \<Rightarrow> m q)"
  proof (cases "linear s (f_start f) \<le> q \<and> q \<le> linear s (f_end f)")
    case True
    with Cons.prems have "find (\<lambda>f. linear s (f_start f) \<le> q \<and> q \<le> linear s (f_end f)) fs = None"
      by (force simp: find_None_iff)
    with True show ?thesis by (simp add: fold_update_same)
  next
    case False
    then have "?m q = m q" by (auto simp: fold_update_same)
    with False show ?thesis by (auto split: option.split)
  qed
  finally show ?case .
qed

lemma detected_ordered:
  assumes "wf_dims s"
  shows "sorted_wrt (\<lambda>f g. linear s (f_end f) < linear s (f_start g)) (detected s)"
proof -
  have "sorted_wrt (\<lambda>p q. linear s (f_end (make_field s (fst p) (snd p)))
      < linear s (f_start (make_field s (fst q) (snd q)))) (detected_spans s)"
    using spans_props(1) [OF assms]
  proof (rule sorted_wrt_mono_rel [rotated])
    fix p q
    assume "p \<in> set (detected_spans s)" "q \<in> set (detected_spans s)" "snd p < fst q"
    with spans_props(3) [OF assms] assms
    show "linear s (f_end (make_field s (fst p) (snd p)))
      < linear s (f_start (make_field s (fst q) (snd q)))"
      by (simp add: make_field_ends wf_dims_def)
  qed
  then show ?thesis by (simp add: detected_def sorted_wrt_map)
qed

lemma lookup_detect:
  assumes "wf_screen s" and "on_screen s (row, col)"
  shows "get_field_at_position row col (detect_fields s)
       = field_at_search (detect_fields s) (row * cols s + col)"
proof -
  have w: "wf_dims s" using assms(1) by (rule wf_dimsD)
  have l: "linear (detect_fields s) = linear s" by (intro ext) (simp add: linear_def)
  show ?thesis
  proof (cases "field_starts s = {}")
    case True
    with assms show ?thesis
      by (simp add: get_field_at_position_def on_screen_def Let_def)
        (simp add: detect_fields_eq [OF w])
  next
    case False
    have "pos_cache (detect_fields s) q = field_at_search (detect_fields s) q" for q
      using False cache_all_find [OF detected_ordered [OF w], of Map.empty q]
      by (simp add: field_at_search_def l sfields_detect [OF w])
        (simp add: detect_fields_eq [OF w] split: option.split)
    with assms(2) show ?thesis
      by (simp add: get_field_at_position_def on_screen_def Let_def split: option.split)
  qed
qed

text \<open>
  Looking a field up after detection: the position cache gives what the linear search gives;
  a field is found exactly when some mark is at or before the position, and it is the field that
  starts at the last such mark.
\<close>

lemma get_field_at_position_exact:
  assumes "wf_screen s" and "on_screen s (row, col)"
  shows "get_field_at_position row col (detect_fields s)
           = field_at_search (detect_fields s) (row * cols s + col)
       \<and> (get_field_at_position row col (detect_fields s) = None
            \<longleftrightarrow> (\<forall>st \<in> field_starts s. row * cols s + col < st))
       \<and> (\<forall>f. get_field_at_position row col (detect_fields s) = Some f
            \<longrightarrow> linear s (f_start f) \<in> field_starts s \<and> linear s (f_start f) \<le> row * cols s + col
              \<and> (\<forall>st \<in> field_starts s. st \<le> row * cols s + col \<longrightarrow> st \<le> linear s (f_start f)))"
proof -
  have w: "wf_dims s" using assms(1) by (rule wf_dimsD)
  have l: "linear (detect_fields s) = linear s" by (intro ext) (simp add: linear_def)
  let ?p = "row * cols s + col"
  have p: "?p < ssize s" using on_screen_linear [OF w assms(2)] by (simp add: linear_def)
  let ?in = "\<lambda>f. linear s (f_start f) \<le> ?p \<and> ?p \<le> linear s (f_end f)"
  have look: "get_field_at_position row col (detect_fields s) = find ?in (detected s)"
    if "field_starts s \<noteq> {}"
    using lookup_detect [OF assms] that by (simp add: field_at_search_def l sfields_detect [OF w])
  have some: "linear s (f_start f) \<in> field_starts s \<and> linear s (f_start f) \<le> ?p
      \<and> (\<forall>st \<in> field_starts s. st \<le> ?p \<longrightarrow> st \<le> linear s (f_start f))"
    if "f \<in> set (detected s)" "?in f" for f
  proof -
    from detected_member [OF w that(1)] obtain a b where "(a, b) \<in> set (detected_spans s)"
      "linear s (f_start f) = a" "linear s (f_end f) = b" by metis
    moreover from this have "a \<in> field_starts s"
      using spans_props(2) [OF w] starts_props(2) [OF w] by (metis fst_conv image_eqI list.set_map)
    ultimately show ?thesis using spans_props(3) [OF w] that(2) by fastforce
  qed
  have none: "find ?in (detected s) \<noteq> None" if "st \<in> field_starts s" "st \<le> ?p" for st
  proof -
    note st = that
    have ne: "sorted_list_of_set (field_starts s) \<noteq> []"
      using that w by (auto simp: wf_dims_def)
    have "hd (sorted_list_of_set (field_starts s)) \<le> st"
      using that w by (metis Min_le emptyE sorted_list_of_set_nonempty list.sel(1) wf_dims_def)
    then obtain q where q: "q \<in> set (detected_spans s)" "fst q \<le> ?p" "?p \<le> snd q"
      using field_ranges_cover [of "sorted_list_of_set (field_starts s)" ?p "ssize s"] st w p ne
      unfolding detected_spans_def by fastforce
    moreover have "fst q \<le> snd q" using q by simp
    ultimately have "?in (make_field s (fst q) (snd q))"
      using make_field_ends [of s "fst q" "snd q"] w by (simp add: wf_dims_def)
    with q(1) show ?thesis by (auto simp: find_None_iff detected_def)
  qed
  show ?thesis
  proof (cases "field_starts s = {}")
    case True
    with lookup_detect [OF assms] show ?thesis
      by (simp add: field_at_search_def sfields_detect [OF w])
  next
    case False
    with look lookup_detect [OF assms] some none show ?thesis
      by (auto dest!: find_in_set simp: find_None_iff) (meson linorder_not_le)+
  qed
qed

section \<open>Moving between input fields\<close>

lemma find_sort_key:
  assumes "find P (sort_key k xs) = Some x"
  shows "x \<in> set xs \<and> P x \<and> (\<forall>y \<in> set xs. P y \<longrightarrow> (k x :: int) \<le> k y)"
proof -
  from assms obtain i where i: "i < length xs" "P (sort_key k xs ! i)" "x = sort_key k xs ! i"
    and before: "\<forall>j < i. \<not> P (sort_key k xs ! j)"
    by (auto simp: find_Some_iff)
  have "k x \<le> k y" if "y \<in> set xs" "P y" for y
  proof -
    from that(1) obtain j where j: "j < length xs" "y = sort_key k xs ! j"
      by (metis in_set_conv_nth length_sort set_sort)
    with before that(2) have "i \<le> j" by (meson not_le_imp_less)
    moreover have "sorted (map k (sort_key k xs))" by simp
    ultimately show ?thesis using i j by (metis length_map length_sort nth_map sorted_nth_mono)
  qed
  moreover have "x \<in> set xs" using i by (metis length_sort nth_mem set_sort)
  ultimately show ?thesis using i by simp
qed

lemma find_sort_key_None: "find P (sort_key k xs) = None \<longleftrightarrow> (\<forall>x \<in> set xs. \<not> P x)"
  by (auto simp: find_None_iff)

text \<open>
  The tab order (PT, program tab) without ASCII fields: the cursor goes to the unprotected
  field whose start is the least one behind the cursor; when there is none it wraps to the first
  unprotected field of the screen; and it stays only when every field is protected.
\<close>

lemma next_input_field_least:
  assumes "ascii_fields s = []"
  shows "(case next_input_target s of
      None \<Rightarrow> \<forall>g \<in> set (sfields s). f_protected g
    | Some rc \<Rightarrow> \<exists>f \<in> set (sfields s). \<not> f_protected f \<and> rc = f_start f
        \<and> (if \<exists>g \<in> set (sfields s). \<not> f_protected g \<and> linear s (f_start g) > linear s (get_position s)
           then linear s (f_start f) > linear s (get_position s)
             \<and> (\<forall>g \<in> set (sfields s). \<not> f_protected g \<and> linear s (f_start g) > linear s (get_position s)
                  \<longrightarrow> linear s (f_start f) \<le> linear s (f_start g))
           else (\<forall>g \<in> set (sfields s). \<not> f_protected g
                  \<longrightarrow> linear s (f_start f) \<le> linear s (f_start g))))
    \<and> get_position (move_cursor_to_next_input_field s)
        = (case next_input_target s of None \<Rightarrow> get_position s | Some rc \<Rightarrow> rc)"
proof -
  let ?k = "\<lambda>f. linear s (f_start f)"
  let ?P = "\<lambda>f. \<not> f_protected f \<and> ?k f > linear s (get_position s)"
  have move: "get_position (move_cursor_to_next_input_field s)
      = (case next_input_target s of None \<Rightarrow> get_position s | Some rc \<Rightarrow> rc)"
    by (simp add: move_cursor_to_next_input_field_def cursor_to_def get_position_def
        split: option.split)
  show ?thesis
  proof (cases "find ?P (sort_key ?k (sfields s))")
    case (Some f)
    with find_sort_key [OF Some] assms move show ?thesis
      by (auto simp: next_input_target_def Let_def)
  next
    case None
    then have none: "\<not> (\<exists>g \<in> set (sfields s). ?P g)" by (simp add: find_sort_key_None)
    show ?thesis
    proof (cases "find (\<lambda>f. \<not> f_protected f) (sort_key ?k (sfields s))")
      case (Some f)
      with find_sort_key [OF Some] None none assms move show ?thesis
        by (auto simp: next_input_target_def Let_def)
    next
      case None2: None
      then have "\<forall>g \<in> set (sfields s). f_protected g" by (simp add: find_sort_key_None)
      moreover have "next_input_target s = None"
        using None None2 assms by (simp add: next_input_target_def)
      ultimately show ?thesis using move by simp
    qed
  qed
qed

lemma demo_detected:
  "map (\<lambda>f. (f_start f, f_end f, f_protected f)) (sfields (detect_fields demo_screen))
     = [((0, 1), (1, 0), False), ((1, 1), (1, 3), True)]"
  by code_simp

section \<open>Writing\<close>

lemma note_write_frame [simp]:
  "buffer (note_write row col s) = buffer s" "attributes (note_write row col s) = attributes s"
  "field_starts (note_write row col s) = field_starts s"
  "extended_attributes (note_write row col s) = extended_attributes s"
  "cursor_row (note_write row col s) = cursor_row s"
  "cursor_col (note_write row col s) = cursor_col s"
  "rows (note_write row col s) = rows s" "cols (note_write row col s) = cols s"
  by (simp_all add: note_write_def update_field_content_def split: option.splits)

lemma advance_cursor_frame [simp]:
  "buffer (advance_cursor n s) = buffer s" "attributes (advance_cursor n s) = attributes s"
  "field_starts (advance_cursor n s) = field_starts s" "sfields (advance_cursor n s) = sfields s"
  "extended_attributes (advance_cursor n s) = extended_attributes s"
  "rows (advance_cursor n s) = rows s" "cols (advance_cursor n s) = cols s"
  "ssize (advance_cursor n s) = ssize s"
  "suspend_detection (advance_cursor n s) = suspend_detection s"
  by (simp_all add: advance_cursor_def Let_def)

lemma store_char_frame [simp]:
  "sfields (store_char b p prot mark s) = sfields s" "rows (store_char b p prot mark s) = rows s"
  "cols (store_char b p prot mark s) = cols s" "ssize (store_char b p prot mark s) = ssize s"
  "suspend_detection (store_char b p prot mark s) = suspend_detection s"
  "buffer (store_char b p prot mark s) = (buffer s)[nat p := b]"
  by (simp_all add: store_char_def Let_def)

text \<open>
  Writing a character at a position of the screen. On a protected position nothing at all
  changes unless protection is circumvented; otherwise exactly that byte of the buffer is
  replaced, its field attribute keeps every bit it had, and the position is protected from then
  on exactly when it was before or the caller asked for it.
\<close>

lemma write_char_effect:
  assumes "wf_screen s" and "on_screen s (row, col)" and "p = nat (row * cols s + col)"
    and "s' = write_char b (Some (row, col)) prot circ mark s"
  shows "if attributes s ! (p * 3) AND 0x40 \<noteq> 0 \<and> \<not> circ then s' = s
         else buffer s' = (buffer s)[p := b]
            \<and> attributes s' = (attributes s)[p * 3 := (attributes s ! (p * 3)) OR (if prot then 0x40 else 0),
                                p * 3 + 1 := 0xF0, p * 3 + 2 := 0xF0]
            \<and> field_starts s' = (if mark then insert (int p) (field_starts s) else field_starts s)"
proof -
  have b: "0 \<le> row * cols s + col" "row * cols s + col < ssize s"
    using on_screen_linear [OF wf_dimsD [OF assms(1)] assms(2)] by (simp_all add: linear_def)
  then have p: "nat ((row * cols s + col) * 3) = p * 3" "int p = row * cols s + col"
    using assms(3) by (simp_all add: nat_mult_distrib)
  have "writable row col circ s \<longleftrightarrow> \<not> (attributes s ! (p * 3) AND 0x40 \<noteq> 0 \<and> \<not> circ)"
    using assms(1,2) b p by (auto simp: writable_def Let_def on_screen_def wf_screen_def wf_dims_def)
  with assms(3,4) p show ?thesis
    by (simp add: write_char_def store_char_def Let_def)
qed

text \<open>The first field that claims a position is replaced; the others stay.\<close>

lemma refresh_fields_first:
  assumes "fs = gs @ f # hs" and "\<forall>g \<in> set gs. \<not> field_claims g row col"
    and "field_claims f row col" and "fst (field_bounds s f) \<le> snd (field_bounds s f)"
  shows "refresh_fields s row col fs
       = Some (gs @ Field_replace (\<lambda>g. g\<lparr>f_content := py_slice (buffer s) (fst (field_bounds s f))
               (snd (field_bounds s f) + 1), f_modified := True\<rparr>) f # hs)"
  using assms(2) unfolding assms(1)
proof (induction gs)
  case Nil
  with assms(3,4) show ?case by (simp add: split_beta)
next
  case (Cons g gs)
  then show ?case by (simp add: split_beta)
qed

lemma field_bounds_ok:
  assumes "wf_dims s" and "field_ok s f"
  shows "field_bounds s f = (linear s (f_start f), linear s (f_end f))"
    and "linear s (f_start f) \<le> linear s (f_end f)"
proof -
  have a: "0 \<le> linear s (f_start f)" "linear s (f_end f) < ssize s"
    using assms on_screen_linear by (auto simp: field_ok_def)
  then show "field_bounds s f = (linear s (f_start f), linear s (f_end f))"
    by (simp add: field_bounds_def)
  show "linear s (f_start f) \<le> linear s (f_end f)"
  proof (cases "fst (f_start f) = fst (f_end f)")
    case True
    with assms show ?thesis by (simp add: field_ok_def lex_le_def linear_def)
  next
    case False
    with assms have "fst (f_start f) + 1 \<le> fst (f_end f)" "0 < cols s"
      "snd (f_start f) < cols s" "0 \<le> snd (f_end f)"
      by (auto simp: field_ok_def lex_le_def on_screen_def wf_dims_def)
    moreover from this have "(fst (f_start f) + 1) * cols s \<le> fst (f_end f) * cols s"
      by (intro mult_right_mono) simp_all
    ultimately show ?thesis by (simp add: linear_def algebra_simps)
  qed
qed

lemma Field_replace_content:
  assumes "lex_le (f_start f) (f_end f)"
  shows "Field_replace (\<lambda>g. g\<lparr>f_content := ct, f_modified := True\<rparr>) f
       = f\<lparr>f_bypass := False, f_hidden := False, f_codepage := ''cp037'', f_content := ct,
           f_modified := True\<rparr>"
  using assms by (simp add: Field_replace_def Field_init_def)

text \<open>
  What a write does to the fields: the first field that claims the position is marked
  modified, reads its content again from the updated buffer, and loses its bypass and hidden
  flags and its code page; every other field stays as it is, and the caches become invalid.
\<close>

lemma write_char_refreshes_field:
  assumes "wf_screen s" and "writable row col circ s" and "sfields s = gs @ f # hs"
    and "\<forall>g \<in> set gs. \<not> field_claims g row col" and "field_claims f row col"
    and "s' = write_char b (Some (row, col)) prot circ mark s"
  shows "sfields s' = gs @ f\<lparr>f_bypass := False, f_hidden := False, f_codepage := ''cp037'',
              f_content := py_slice ((buffer s)[nat (row * cols s + col) := b])
                (linear s (f_start f)) (linear s (f_end f) + 1),
              f_modified := True\<rparr> # hs
       \<and> \<not> nav_valid s'"
proof -
  let ?s1 = "store_char b (row * cols s + col) prot mark s"
  let ?s2 = "advance_cursor (dbcs_advance ?s1 row col) ?s1"
  have f: "field_ok s f" using assms(1,3) by (simp add: wf_screen_def)
  have bounds: "field_bounds ?s2 f = field_bounds s f"
    by (simp add: field_bounds_def linear_def Let_def cong: if_cong)
  have "refresh_fields ?s2 row col (sfields s)
      = Some (gs @ Field_replace (\<lambda>g. g\<lparr>f_content := py_slice (buffer ?s2) (fst (field_bounds ?s2 f))
               (snd (field_bounds ?s2 f) + 1), f_modified := True\<rparr>) f # hs)"
    using field_bounds_ok [OF wf_dimsD [OF assms(1)] f] bounds
    by (intro refresh_fields_first [OF assms(3-5)]) simp
  with assms(2,6) f bounds field_bounds_ok(1) [OF wf_dimsD [OF assms(1)] f] show ?thesis
    by (simp add: write_char_def note_write_def update_field_content_def Let_def
        Field_replace_content field_ok_def)
qed

text \<open>
  A field of several rows claims the columns before its start and behind its end too: a
  character written behind the end of the first field, in the row where that field ends, marks
  the first field modified and leaves the field that really holds the position as it was, although
  the lookup finds that other field.
\<close>

lemma write_char_marks_wrong_field:
  assumes "wf_screen s" and "sfields s = f # fs" and "fst (f_start f) < fst (f_end f)"
    and "row = fst (f_end f)" and "snd (f_end f) < col" and "writable row col circ s"
  shows "f_modified (hd (sfields (write_char b (Some (row, col)) prot circ mark s)))
       \<and> tl (sfields (write_char b (Some (row, col)) prot circ mark s)) = fs
       \<and> \<not> (linear s (f_start f) \<le> linear s (row, col) \<and> linear s (row, col) \<le> linear s (f_end f))"
proof -
  let ?s1 = "store_char b (row * cols s + col) prot mark s"
  let ?s2 = "advance_cursor (dbcs_advance ?s1 row col) ?s1"
  have f: "field_ok s f" using assms(1,2) by (simp add: wf_screen_def)
  have bounds: "field_bounds ?s2 f = field_bounds s f"
    by (simp add: field_bounds_def linear_def Let_def cong: if_cong)
  have claims: "field_claims f row col"
    using assms(3,4) by (cases "f_start f"; cases "f_end f") (simp add: field_claims_def)
  have "refresh_fields ?s2 row col (f # fs)
      = Some ([] @ Field_replace (\<lambda>g. g\<lparr>f_content := py_slice (buffer ?s2) (fst (field_bounds ?s2 f))
               (snd (field_bounds ?s2 f) + 1), f_modified := True\<rparr>) f # fs)"
    using field_bounds_ok [OF wf_dimsD [OF assms(1)] f] bounds claims
    by (intro refresh_fields_first) simp_all
  with assms(2,6) f have "sfields (write_char b (Some (row, col)) prot circ mark s)
      = Field_replace (\<lambda>g. g\<lparr>f_content := py_slice (buffer ?s2) (fst (field_bounds ?s2 f))
               (snd (field_bounds ?s2 f) + 1), f_modified := True\<rparr>) f # fs"
    by (simp add: write_char_def note_write_def update_field_content_def Let_def)
  with f assms(4,5) show ?thesis
    by (simp add: Field_replace_content field_ok_def linear_def)
qed

section \<open>Reachable screens\<close>

text \<open>
  One step of a client: any mutating operation of the class, with any arguments. The cursor may
  also be set in wrap mode, which keeps a column below zero, so that mode is left out here.
\<close>

inductive screen_step :: "screen \<Rightarrow> screen \<Rightarrow> bool" where
  step_position: "screen_step s (set_position r c s)"
| step_clear: "screen_step s (clear s)"
| step_write: "screen_step s (write_char b at prot circ mark s)"
| step_attribute: "screen_step s (set_attribute b at s)"
| step_repeat: "screen_step s (repeat_attribute b n s)"
| step_ellipsis: "screen_step s (graphic_ellipsis n s)"
| step_first: "screen_step s (move_cursor_to_first_input_field s)"
| step_next: "screen_step s (move_cursor_to_next_input_field s)"
| step_sfe: "screen_step s (set_extended_attribute_sfe t v at s)"
| step_extended: "screen_step s (set_extended_attribute r c key v s)"
| step_light_pen: "screen_step s (snd (select_light_pen r c s))"
| step_begin_bulk: "screen_step s (begin_bulk_update s)"
| step_end_bulk: "screen_step s (end_bulk_update s)"
| step_keyboard: "screen_step s (set_keyboard_lock lk s)"
| step_ascii: "screen_step s (set_ascii_mode m s)"
| step_reset_mdt: "screen_step s (reset_mdt_flags s)"

inductive_cases screen_stepE: "screen_step s s'"

lemma wf_step: "screen_step s s' \<Longrightarrow> wf_screen s \<Longrightarrow> wf_screen s'"
  by (induction rule: screen_step.induct) (simp_all add: wf_rules)

lemma dims_write [simp]:
  "rows (write_char b at prot circ mark s) = rows s" "cols (write_char b at prot circ mark s) = cols s"
  by (simp_all add: write_char_def Let_def split: option.split prod.splits)

lemma dims_set_attribute [simp]:
  "rows (set_attribute b at s) = rows s" "cols (set_attribute b at s) = cols s"
  by (simp_all add: set_attribute_def Let_def)

lemma dims_repeat_loop [simp]:
  "rows (repeat_attribute_loop n b s) = rows s" "cols (repeat_attribute_loop n b s) = cols s"
  by (induction n b s rule: repeat_attribute_loop.induct) simp_all

lemma dims_ellipsis_loop [simp]:
  "rows (graphic_ellipsis_loop n s) = rows s" "cols (graphic_ellipsis_loop n s) = cols s"
  by (induction n s rule: graphic_ellipsis_loop.induct) simp_all

lemma dims_position [simp]:
  "rows (set_position r c s) = rows s" "cols (set_position r c s) = cols s"
  "rows (cursor_to rc s) = rows s" "cols (cursor_to rc s) = cols s"
  by (simp_all add: set_position_def cursor_to_def)

lemma dims_step: "screen_step s s' \<Longrightarrow> rows s' = rows s \<and> cols s' = cols s"
  by (induction rule: screen_step.induct)
    (simp_all add: clear_def repeat_attribute_def graphic_ellipsis_def set_extended_attribute_def
      move_cursor_to_first_input_field_def move_cursor_to_next_input_field_def
      set_extended_attribute_sfe_def select_light_pen_def begin_bulk_update_def
      end_bulk_update_def set_keyboard_lock_def set_ascii_mode_def reset_mdt_flags_def Let_def
      split: option.split)

lemma reachable_wf:
  "screen_step\<^sup>*\<^sup>* s s' \<Longrightarrow> wf_screen s \<Longrightarrow> wf_screen s' \<and> rows s' = rows s \<and> cols s' = cols s"
  by (induction rule: rtranclp_induct) (auto simp: wf_step dims_step)

text \<open>
  Whatever operations a client performs on a new screen, in whatever order and with whatever
  arguments, the state stays well formed: the cursor is on the screen, buffer and attribute
  arrays have one and three bytes per position, field marks and fields lie on the screen, and the
  dimensions are those it was created with.
\<close>

lemma screen_always_well_formed:
  assumes "ScreenBuffer_init r c init_value cp = Inr s0" and "screen_step\<^sup>*\<^sup>* s0 s"
  shows "wf_screen s \<and> rows s = r \<and> cols s = c"
  using reachable_wf [OF assms(2) wf_init [OF assms(1)]] assms(1)
  by (auto simp: ScreenBuffer_init_def split: if_splits)

text \<open>
  Positioning: strict mode refuses exactly the positions outside the screen and changes
  nothing else than the cursor; the default mode always succeeds, leaves a position on the screen
  as it is, clamps any other one onto the screen, and doing it twice is doing it once.
\<close>

lemma set_position_modes:
  assumes "0 < rows s" and "0 < cols s"
  shows "(set_position_mode False True r c s = Inl IndexError \<longleftrightarrow> \<not> on_screen s (r, c))
       \<and> (on_screen s (r, c) \<longrightarrow>
            set_position_mode False True r c s = Inr (set_position r c s)
          \<and> get_position (set_position r c s) = (r, c))
       \<and> on_screen s (get_position (set_position r c s))
       \<and> (let (r', c') = get_position (set_position r c s)
          in set_position r' c' (set_position r c s) = set_position r c s)"
  using assms
  by (auto simp: set_position_mode_def set_position_def on_screen_def get_position_def
      clamp_index_def split: if_splits)

section \<open>Departures from the documentation\<close>

text \<open>
  Extended attributes do not reach the fields: whatever colour, background, highlighting,
  validation, outlining or character set was stored for a position, every detected field has the
  value 0 for all of them, and a field at a position with any extended attribute is not light-pen
  selectable.
\<close>

lemma extended_attributes_never_reach_fields:
  assumes "wf_screen s" and "f \<in> set (sfields (detect_fields s))"
  shows "f_color f = 0 \<and> f_background f = 0 \<and> f_sfe_highlight f = 0 \<and> f_validation f = 0
       \<and> f_outlining f = 0 \<and> f_character_set f = 0
       \<and> (\<forall>a. map_of (extended_attributes s) (f_start f) = Some a \<and> a \<noteq> [] \<longrightarrow> f_light_pen f = 0)"
proof -
  have w: "wf_dims s" using assms(1) by (rule wf_dimsD)
  have c: "0 < cols s" using wf_screen_pos [OF assms(1)] by simp
  have "f \<in> set (detected s)" using assms(2) w by (simp add: sfields_detect split: if_splits)
  then obtain a b where f: "f = make_field s a b" "a \<le> b" by (rule detected_member [OF w])
  have "f_light_pen f = 0" if "map_of (extended_attributes s) (f_start f) = Some at" "at \<noteq> []" for at
    using that f c lex_le_coords [OF c f(2)]
    by (simp add: make_field_ends) (simp add: make_field_def Field_init_def Let_def getattr_value_def split: option.split)
  with f c show ?thesis by (simp add: make_field_data)
qed

lemma set_field_validation_lookup:
  assumes "on_screen s (f_start f)"
  shows "map_of (extended_attributes (set_field_validation f rules s)) (f_start f)
       = Some (aset_set ''validation'' (Raw (attr_value rules))
           (case map_of (extended_attributes s) (f_start f) of None \<Rightarrow> [] | Some a \<Rightarrow> a))"
  using assms by (simp add: set_field_validation_def set_extended_attribute_def Let_def on_screen_def
      put_ext_attr_def update_conv')

text \<open>
  \<open>set_field_validation\<close> keeps the rule bits of an attribute and loses its limits: reading
  the rules back gives the same bits with no minimal and no maximal length, so a text is never
  refused for its length.
\<close>

lemma set_field_validation_drops_limits:
  assumes "on_screen s (f_start f)" and "0 \<le> v" and "v \<le> 255"
  shows "get_field_validation f (set_field_validation f (ValAttr v mn mx cu) s)
           = Some (ValAttr v None None False)
       \<and> validate_field_input f text (set_field_validation f (ValAttr v mn mx cu) s)
           = validate_input (ValAttr v None None False) text"
proof -
  have dims: "rows (set_field_validation f r s) = rows s" "cols (set_field_validation f r s) = cols s"
    for r by (simp_all add: set_field_validation_def set_extended_attribute_def Let_def)
  have "wrap_raw ''validation'' v = ValAttr v None None False"
    using assms(2,3) by (simp add: wrap_raw_def attr_mapper_def make_attr_def
        validate_and_normalize_def normalize_validation_def normalize_named_def)
  then have "get_field_validation f (set_field_validation f (ValAttr v mn mx cu) s)
      = Some (ValAttr v None None False)"
    using assms(1) set_field_validation_lookup [OF assms(1), of "ValAttr v mn mx cu"]
    by (simp add: get_field_validation_def get_extended_attributes_at_def dims on_screen_def
        aset_get_attribute_def aset_set_def update_conv')
  then show ?thesis by (simp add: validate_field_input_def)
qed

section \<open>Truncation of large streams\<close>

lemma find_last_bound:
  "find_last m d = -1 \<or> (0 \<le> find_last m d \<and> find_last m d + int (length m) \<le> int (length d))"
proof (cases "find (\<lambda>i. take (length m) (drop i d) = m) (rev [0 ..< length d + 1 - length m])")
  case None
  then show ?thesis by (simp add: find_last_def)
next
  case (Some i)
  then have "i \<in> set (rev [0 ..< length d + 1 - length m])" using find_in_set by fast
  with Some show ?thesis by (simp add: find_last_def)
qed

lemma best_cut_step:
  assumes "0 \<le> best" and "best \<le> n"
    and "p = -1 \<or> (0 \<le> p \<and> p + int (length m) \<le> n)"
  shows "0 \<le> (if p > best div 2 then p + int (length m) else best)
       \<and> (if p > best div 2 then p + int (length m) else best) \<le> n"
  using assms by (auto dest: order_trans simp: pos_imp_zdiv_nonneg_iff)

text \<open>
  Progressive limiting keeps a prefix: a stream within the limit is untouched, and a longer
  one is cut to a prefix that is never longer than the limit.
\<close>

lemma progressive_limits_prefix:
  assumes "0 \<le> n"
  shows "\<exists>k. apply_progressive_limits data n = take k data
       \<and> int (length (apply_progressive_limits data n)) \<le> max n 0
       \<and> (int (length data) \<le> n \<longrightarrow> apply_progressive_limits data n = data)"
proof (cases "int (length data) \<le> n")
  case True
  then show ?thesis by (auto simp: apply_progressive_limits_def intro!: exI [of _ "length data"])
next
  case False
  let ?t = "py_slice data 0 n"
  have len: "int (length ?t) = n" using False assms by (simp add: py_slice_nonneg)
  have step: "0 \<le> foldl (\<lambda>best m. (let p = find_last m ?t
       in if p > best div 2 then p + int (length m) else best)) b ms
     \<and> foldl (\<lambda>best m. (let p = find_last m ?t
       in if p > best div 2 then p + int (length m) else best)) b ms \<le> n"
    if "0 \<le> b" "b \<le> n" for b ms
    using that
  proof (induction ms arbitrary: b)
    case (Cons m ms)
    let ?b = "let p = find_last m ?t in if p > b div 2 then p + int (length m) else b"
    have "0 \<le> ?b" "?b \<le> n"
      using best_cut_step [OF Cons.prems, of "find_last m ?t" m] find_last_bound [of m ?t] len
      by (simp_all add: Let_def)
    from Cons.IH [OF this] show ?case by simp
  qed simp
  have b: "0 \<le> best_cut ?t n" "best_cut ?t n \<le> n"
    using step [OF assms order_refl] by (simp_all add: best_cut_def)
  then have "\<exists>k. apply_progressive_limits data n = take (nat k) data \<and> 0 \<le> k \<and> k \<le> n"
    using False assms
    by (auto simp: apply_progressive_limits_def Let_def py_slice_nonneg
        intro: exI [of _ "best_cut ?t n"] exI [of _ "min (best_cut ?t n + 32) n"])
  with False assms show ?thesis by auto
qed

text \<open>
  The fallback parser does not wrap at the bottom: a character at the last position leaves
  the cursor in the row after the last one, where the next character is lost, while the same
  character written by \<open>write_char\<close> at that position takes the cursor to the top.
\<close>

lemma fallback_runs_off_screen:
  assumes "wf_screen s" and "cursor_row s = rows s - 1" and "cursor_col s = cols s - 1"
    and "x \<notin> {0x05, 0x11, 0x1D, 0x0D}" and "y \<notin> {0x05, 0x11, 0x1D, 0x0D}"
  shows "get_position (parse_with_fallback [x, y] s) = (rows s, 0)
       \<and> buffer (parse_with_fallback [x, y] s) = (buffer s)[nat (ssize s - 1) := x]
       \<and> get_position (write_char x (Some (rows s - 1, cols s - 1)) False True False s) = (0, 0)"
proof -
  have e: "(rows s - 1) * cols s + (cols s - 1) = ssize s - 1" and pos: "0 < rows s" "0 < cols s"
    and sz: "0 < ssize s" "length (buffer s) = nat (ssize s)" "length (attributes s) = nat (ssize s * 3)"
    using assms(1) by (simp_all add: wf_screen_def wf_dims_def algebra_simps)
  have "get_position (parse_with_fallback [x, y] s) = (rows s, 0)
       \<and> buffer (parse_with_fallback [x, y] s) = (buffer s)[nat (ssize s - 1) := x]"
    using assms(2-5) pos e unfolding e [symmetric]
    by (simp add: fallback_data_def get_position_def Let_def)
  moreover have "writable (rows s - 1) (cols s - 1) True s"
    unfolding writable_def Let_def e using pos sz by simp
  moreover have "0 < dbcs_advance t r c" for t r c
    by (auto simp: dbcs_advance_def split: option.splits attr.splits attr_class.splits)
  then have "get_position (advance_cursor (dbcs_advance t r c) (store_char x p False False s)) = (0, 0)"
    for t r c p
    using assms(2,3) pos by (simp add: advance_cursor_def store_char_def get_position_def Let_def)
  ultimately show ?thesis by (simp add: write_char_def Let_def) (simp add: get_position_def)
qed

end
