(* ===== verification/ByteParser.thy ===== *)
theory ByteParser
  imports Prelude3270
begin

text \<open>
  \<open>pure3270/protocol/parser.py\<close>: the cursor over a byte string that every decoder of the
  protocol layer reads through. \<open>ParseError\<close> carries a message; the parser and its clients
  distinguish errors by searching in it, so the model's error is one constructor per message,
  with the name of the order where the message contains one. Numbers formatted into a message
  are left out.
\<close>

datatype parse_error =
    Peek_at_EOF
  | Unexpected_end
  | Insufficient_data
  | Seek_out_of_range
  | Incomplete_order string    \<comment> \<open>the message contains \<open>Incomplete X order\<close>\<close>
  | Overflow
  | Buffer_overflow
  | Position_out_of_bounds
  | Parsing_failed

record BaseParser =
  bp_data :: bytes
  bp_pos :: nat

definition BaseParser_init :: "bytes \<Rightarrow> BaseParser" where
  "BaseParser_init data = \<lparr>bp_data = data, bp_pos = 0\<rparr>"

definition has_more :: "BaseParser \<Rightarrow> bool" where
  "has_more p \<longleftrightarrow> bp_pos p < length (bp_data p)"

definition remaining :: "BaseParser \<Rightarrow> int" where
  "remaining p = int (length (bp_data p)) - int (bp_pos p)"

definition peek_byte :: "BaseParser \<Rightarrow> parse_error + byte" where
  "peek_byte p = (if \<not> has_more p then Inl Peek_at_EOF else Inr (bp_data p ! bp_pos p))"

definition read_byte :: "BaseParser \<Rightarrow> parse_error + byte \<times> BaseParser" where
  "read_byte p =
     (if \<not> has_more p then Inl Unexpected_end
      else Inr (bp_data p ! bp_pos p, p\<lparr>bp_pos := bp_pos p + 1\<rparr>))"

text \<open>A failing second read has consumed the first byte; no caller reads on after it.\<close>

definition read_u16 :: "BaseParser \<Rightarrow> parse_error + int \<times> BaseParser" where
  "read_u16 p =
     (case read_byte p of Inl e \<Rightarrow> Inl e
      | Inr (high, p1) \<Rightarrow>
          (case read_byte p1 of Inl e \<Rightarrow> Inl e
           | Inr (low, p2) \<Rightarrow> Inr (be16 high low, p2)))"

definition read_fixed :: "int \<Rightarrow> BaseParser \<Rightarrow> parse_error + bytes \<times> BaseParser" where
  "read_fixed n p =
     (if remaining p < n then Inl Insufficient_data
      else Inr (py_slice (bp_data p) (int (bp_pos p)) (int (bp_pos p) + n),
                p\<lparr>bp_pos := nat (int (bp_pos p) + n)\<rparr>))"

definition seek :: "int \<Rightarrow> BaseParser \<Rightarrow> parse_error + BaseParser" where
  "seek pos p =
     (if pos < 0 \<or> pos > int (length (bp_data p)) then Inl Seek_out_of_range
      else Inr (p\<lparr>bp_pos := nat pos\<rparr>))"

text \<open>What is still to be read; the reads are described by what they do to it.\<close>

definition rest :: "BaseParser \<Rightarrow> bytes" where
  "rest p = drop (bp_pos p) (bp_data p)"

definition bp_ok :: "BaseParser \<Rightarrow> bool" where
  "bp_ok p \<longleftrightarrow> bp_pos p \<le> length (bp_data p)"

lemma rest_init [simp]: "rest (BaseParser_init d) = d"
  by (simp add: rest_def BaseParser_init_def)

lemma bp_ok_init [simp]: "bp_ok (BaseParser_init d)"
  by (simp add: bp_ok_def BaseParser_init_def)

lemma has_more_rest: "has_more p \<longleftrightarrow> rest p \<noteq> []"
  by (auto simp: has_more_def rest_def)

lemma remaining_rest: "bp_ok p \<Longrightarrow> remaining p = int (length (rest p))"
  by (simp add: remaining_def rest_def bp_ok_def)

section \<open>The reading interface\<close>

text \<open>
  A byte source hands out its remaining input one byte at a time and fails exactly when nothing
  is left. Clients that read whole groups of bytes rely on nothing else.
\<close>

locale byte_source =
  fixes next_byte :: "'s \<Rightarrow> 'e + byte \<times> 's"
    and left :: "'s \<Rightarrow> bytes"
    and sane :: "'s \<Rightarrow> bool"
  assumes next_Cons: "sane s \<Longrightarrow> left s = b # bs \<Longrightarrow>
      \<exists>s'. next_byte s = Inr (b, s') \<and> left s' = bs \<and> sane s'"
    and next_Nil: "sane s \<Longrightarrow> left s = [] \<Longrightarrow> \<exists>e. next_byte s = Inl e"
begin

lemma next_Inr:
  assumes "sane s" and "next_byte s = Inr (b, s')"
  shows "left s = b # left s' \<and> sane s'"
proof (cases "left s")
  case Nil
  with assms next_Nil [of s] show ?thesis by auto
next
  case (Cons c cs)
  with assms next_Cons [of s c cs] show ?thesis by auto
qed

lemma next_fails_iff: "sane s \<Longrightarrow> (\<exists>e. next_byte s = Inl e) \<longleftrightarrow> left s = []"
  using next_Nil next_Cons by (cases "left s") fastforce+

lemma next_two:
  assumes "sane s" and "left s = a # b # bs"
  shows "\<exists>s1 s2. next_byte s = Inr (a, s1) \<and> next_byte s1 = Inr (b, s2)
           \<and> left s2 = bs \<and> sane s2"
proof -
  obtain s1 where "next_byte s = Inr (a, s1)" "left s1 = b # bs" "sane s1"
    using assms next_Cons [of s a "b # bs"] by blast
  moreover then obtain s2 where "next_byte s1 = Inr (b, s2)" "left s2 = bs" "sane s2"
    using next_Cons [of s1 b bs] by blast
  ultimately show ?thesis by blast
qed

end

interpretation bp: byte_source read_byte rest bp_ok
proof
  fix p b bs assume "bp_ok p" and r: "rest p = b # bs"
  then have "bp_pos p < length (bp_data p)"
    by (metis has_more_def has_more_rest list.distinct(1))
  then have "rest p = bp_data p ! bp_pos p # rest (p\<lparr>bp_pos := bp_pos p + 1\<rparr>)"
    by (simp add: rest_def Cons_nth_drop_Suc)
  with r \<open>bp_pos p < _\<close> show "\<exists>p'. read_byte p = Inr (b, p') \<and> rest p' = bs \<and> bp_ok p'"
    by (auto simp: read_byte_def has_more_def bp_ok_def)
qed (auto simp: read_byte_def has_more_rest)

lemma read_u16_rest:
  assumes "bp_ok p" and "rest p = a # b # bs"
  shows "\<exists>p'. read_u16 p = Inr (be16 a b, p') \<and> rest p' = bs \<and> bp_ok p'"
  using bp.next_two [OF assms] by (auto simp: read_u16_def)

lemma read_fixed_rest:
  assumes "bp_ok p" and "0 \<le> n" and "n \<le> int (length (rest p))"
  shows "\<exists>p'. read_fixed n p = Inr (take (nat n) (rest p), p') \<and> rest p' = drop (nat n) (rest p)
           \<and> bp_ok p'"
proof -
  have "\<not> remaining p < n" using assms by (simp add: remaining_rest)
  moreover have "py_slice (bp_data p) (int (bp_pos p)) (int (bp_pos p) + n)
      = take (nat n) (rest p)"
    using assms(2) by (simp add: py_slice_nonneg rest_def nat_add_distrib)
  moreover have "rest (p\<lparr>bp_pos := nat (int (bp_pos p) + n)\<rparr>) = drop (nat n) (rest p)"
    using assms(2) by (simp add: rest_def nat_add_distrib add.commute)
  moreover have "bp_ok (p\<lparr>bp_pos := nat (int (bp_pos p) + n)\<rparr>)"
    using assms by (auto simp: bp_ok_def rest_def nat_add_distrib)
  ultimately show ?thesis by (simp add: read_fixed_def)
qed

text \<open>
  Reading is exact: a two-byte read returns the big-endian value of the next two bytes and
  fails when fewer are left; a fixed-length read returns exactly the next \<open>n\<close> bytes; in both
  cases the parser is left in front of the byte after them.
\<close>

lemma BaseParser_reads_exact:
  assumes "bp_ok p" and "rest p = a # b # bs" and "0 \<le> n" and "n \<le> int (length (rest p))"
  shows "(\<exists>p'. read_u16 p = Inr (be16 a b, p') \<and> rest p' = bs \<and> bp_ok p')
       \<and> (\<exists>p'. read_fixed n p = Inr (take (nat n) (rest p), p')
              \<and> rest p' = drop (nat n) (rest p) \<and> bp_ok p')
       \<and> (\<forall>m. m > int (length (rest p)) \<longrightarrow> read_fixed m p = Inl Insufficient_data)"
  using read_u16_rest [OF assms(1,2)] read_fixed_rest [OF assms(1,3,4)] assms(1)
  by (simp add: read_fixed_def remaining_rest)

end
