(* ===== verification/DataStream.thy ===== *)
theory DataStream
  imports ScreenProps ByteParser
begin

text \<open>
  \<open>pure3270/protocol/data_stream.py\<close>, first part: the state of \<open>DataStreamParser\<close> and the
  handlers of the 3270 orders. A handler is a function on the parser state that returns an error
  or a value together with the state as it leaves it, because the source keeps what a handler
  has done before it raises \<open>ParseError\<close>.

  The printer buffer, the negotiator and the file-transfer handler are objects the parser only
  sends to: whether each is attached is a flag of the state, and what is sent to it is recorded
  in \<open>events\<close> in order. The message texts of exceptions are reduced to the part the parser
  looks for. \<open>parser._data\<close> and \<open>self._data\<close> are one component \<open>pdata\<close>; the position of the
  inner \<open>BaseParser\<close> is \<open>ppos\<close> and \<open>self._pos\<close>, which lags behind it, is \<open>dpos\<close>.
\<close>

section \<open>State\<close>

text \<open>The values of the session parameters of a bind image.\<close>

datatype param = ParInt int | ParStr string

record BindImage =
  bi_rows :: "int option"
  bi_cols :: "int option"
  bi_query_reply_ids :: "int list"
  bi_model :: "int option"
  bi_flags :: "int option"
  bi_parameters :: "(string \<times> param) list"

definition BindImage_default :: BindImage where
  "BindImage_default = \<lparr>bi_rows = None, bi_cols = None, bi_query_reply_ids = [], bi_model = None,
     bi_flags = None, bi_parameters = []\<rparr>"

record SnaResponse =
  sna_type :: int
  sna_flags :: "byte option"
  sna_sense :: "int option"
  sna_data :: "bytes option"

datatype event =
    Ev_scs_data bytes
  | Ev_printer_status byte
  | Ev_end_job
  | Ev_bind_image BindImage
  | Ev_sna_response SnaResponse
  | Ev_ind_file bytes

record dsp =
  d_screen :: screen
  has_printer :: bool
  has_negotiator :: bool
  has_ind_file :: bool
  addressing_mode :: AddressingMode
  pdata :: bytes
  ppos :: nat
  dpos :: nat
  wcc :: "byte option"
  aid :: "byte option"
  last_field_start :: "int option"
  pending_request :: bool
  bid_pending :: bool
  cancel_pending :: bool
  signal_data :: "bytes option"
  events :: "event list"

definition DataStreamParser_init ::
    "screen \<Rightarrow> bool \<Rightarrow> bool \<Rightarrow> AddressingMode \<Rightarrow> dsp" where
  "DataStreamParser_init s printer negotiator mode =
     \<lparr>d_screen = s, has_printer = printer, has_negotiator = negotiator, has_ind_file = False,
      addressing_mode = mode, pdata = [], ppos = 0, dpos = 0, wcc = None, aid = None,
      last_field_start = None, pending_request = False, bid_pending = False,
      cancel_pending = False, signal_data = None, events = []\<rparr>"

section \<open>Handlers as computations\<close>

type_synonym 'a handler = "dsp \<Rightarrow> (parse_error + 'a) \<times> dsp"

definition dret :: "'a \<Rightarrow> 'a handler" where
  "dret a p = (Inr a, p)"

definition dfail :: "parse_error \<Rightarrow> 'a handler" where
  "dfail e p = (Inl e, p)"

definition dbind :: "'a handler \<Rightarrow> ('a \<Rightarrow> 'b handler) \<Rightarrow> 'b handler" where
  "dbind m f p = (case m p of (Inl e, p1) \<Rightarrow> (Inl e, p1) | (Inr a, p1) \<Rightarrow> f a p1)"

text \<open>Look at the state; change the screen; change another component.\<close>

definition dget :: "(dsp \<Rightarrow> 'a handler) \<Rightarrow> 'a handler" where
  "dget f p = f p p"

definition on_scr :: "(screen \<Rightarrow> screen) \<Rightarrow> unit handler" where
  "on_scr g p = (Inr (), p\<lparr>d_screen := g (d_screen p)\<rparr>)"

definition emit :: "event \<Rightarrow> unit handler" where
  "emit ev p = (Inr (), p\<lparr>events := events p @ [ev]\<rparr>)"

definition sync_pos :: "unit handler" where
  "sync_pos p = (Inr (), p\<lparr>dpos := ppos p\<rparr>)"

definition d_remaining :: "dsp \<Rightarrow> int" where
  "d_remaining p = int (length (pdata p)) - int (ppos p)"

definition d_has_more :: "dsp \<Rightarrow> bool" where
  "d_has_more p \<longleftrightarrow> ppos p < length (pdata p)"

text \<open>\<open>parser.read_byte\<close> and \<open>self._read_byte\<close>; only the second one moves \<open>self._pos\<close>.\<close>

definition raw_read :: "byte handler" where
  "raw_read p =
     (if \<not> d_has_more p then (Inl Unexpected_end, p)
      else (Inr (pdata p ! ppos p), p\<lparr>ppos := ppos p + 1\<rparr>))"

definition ds_read :: "byte handler" where
  "ds_read p =
     (if dpos p \<ge> length (pdata p) then (Inl Overflow, p)
      else if ppos p \<ge> length (pdata p) then (Inl Overflow, p)
      else (Inr (pdata p ! ppos p), p\<lparr>ppos := ppos p + 1, dpos := ppos p + 1\<rparr>))"

definition validate_min_data :: "string \<Rightarrow> int \<Rightarrow> unit handler" where
  "validate_min_data operation n p =
     (if d_remaining p < n then (Inl (Incomplete_order operation), p) else (Inr (), p))"

definition read_byte_safe :: "string \<Rightarrow> byte handler" where
  "read_byte_safe operation p =
     (case ds_read p of
        (Inl _, p1) \<Rightarrow> (Inl (Incomplete_order operation), p1)
      | r \<Rightarrow> r)"

section \<open>Addresses\<close>

text \<open>
  Two address bytes: big-endian in 14-bit mode, two six-bit halves in 12-bit mode. An address
  outside the mode is clamped to its last position.
\<close>

definition decode_address :: "AddressingMode \<Rightarrow> byte \<Rightarrow> byte \<Rightarrow> int" where
  "decode_address mode hi lo = (if mode = MODE_14_BIT then be16 hi lo else addr12 hi lo)"

definition clamp_address :: "AddressingMode \<Rightarrow> int \<Rightarrow> int" where
  "clamp_address mode a =
     (if \<not> validate_address a mode then min a (get_max_positions mode - 1) else a)"

definition read_address :: "int handler" where
  "read_address =
     dbind ds_read (\<lambda>hi. dbind ds_read (\<lambda>lo.
       dget (\<lambda>p. dret (clamp_address (addressing_mode p) (decode_address (addressing_mode p) hi lo)))))"

text \<open>The coordinates of an address, clamped to the screen.\<close>

definition target_coords :: "AddressingMode \<Rightarrow> screen \<Rightarrow> int \<Rightarrow> (int \<times> int) option" where
  "target_coords mode s a =
     (case address_to_coords a (cols s) mode of
        None \<Rightarrow> None
      | Some (r, c) \<Rightarrow> Some (min r (rows s - 1), min c (cols s - 1)))"

section \<open>Data bytes\<close>

text \<open>A byte at the cursor: only the buffer changes, and the cursor stops in the last row.\<close>

definition put_data :: "byte \<Rightarrow> screen \<Rightarrow> screen" where
  "put_data b s =
     (let (row, col) = get_position s;
          s1 = s\<lparr>buffer := (buffer s)[nat (row * cols s + col) := b]\<rparr>
      in if col + 1 \<ge> cols s
         then set_position (if row + 1 \<ge> rows s then rows s - 1 else row + 1) 0 s1
         else set_position row (col + 1) s1)"

definition insert_data :: "byte \<Rightarrow> unit handler" where
  "insert_data b p =
     (if b = 0 then (Inr (), p)
      else
        (let s = d_screen p; (row, col) = get_position s
         in if 0 \<le> row \<and> row < rows s \<and> 0 \<le> col \<and> col < cols s then
              (if row * cols s + col < rows s * cols s
               then (Inr (), p\<lparr>d_screen := put_data b s\<rparr>)
               else (Inl Buffer_overflow, p))
            else (Inl Position_out_of_bounds, p)))"

fun repeat_insert :: "nat \<Rightarrow> byte \<Rightarrow> unit handler" where
  "repeat_insert 0 b = dret ()"
| "repeat_insert (Suc n) b = dbind (insert_data b) (\<lambda>_. repeat_insert n b)"

section \<open>Orders\<close>

definition handle_wcc_with_byte :: "byte \<Rightarrow> unit handler" where
  "handle_wcc_with_byte w p =
     (let s = d_screen p;
          s1 = (if w AND 0x80 \<noteq> 0 then reset_mdt_flags s else s);
          s2 = (if w AND 0x40 \<noteq> 0 then set_keyboard_lock False s1 else s1)
      in (Inr (), p\<lparr>wcc := Some w, d_screen := set_position 0 0 s2\<rparr>))"

definition handle_sba :: "unit handler" where
  "handle_sba =
     dbind (validate_min_data ''SBA'' 2) (\<lambda>_.
     dbind read_address (\<lambda>a.
     dget (\<lambda>p. case target_coords (addressing_mode p) (d_screen p) a of
          None \<Rightarrow> dret ()
        | Some (r, c) \<Rightarrow> dbind (on_scr (set_position r c)) (\<lambda>_. sync_pos))))"

text \<open>The screen part of SF: the attribute, the field mark, and the cursor behind it.\<close>

definition start_field :: "byte \<Rightarrow> screen \<Rightarrow> screen" where
  "start_field b s =
     (let (row, col) = get_position s;
          s1 = set_attribute b None s;
          s2 = s1\<lparr>field_starts := insert (row * cols s1 + col) (field_starts s1)\<rparr>
      in set_position row (col + 1) s2)"

definition handle_sf :: "unit handler" where
  "handle_sf =
     dbind (validate_min_data ''SF'' 1) (\<lambda>_.
     dbind (read_byte_safe ''SF'') (\<lambda>b p.
       (Inr (), p\<lparr>d_screen := start_field b (d_screen p),
                  last_field_start := Some (linear (d_screen p) (get_position (d_screen p))),
                  dpos := ppos p\<rparr>)))"

text \<open>SA and MF apply to the last field start, which a new write does not forget.\<close>

definition resolve_field_start_position :: "dsp \<Rightarrow> int \<times> int" where
  "resolve_field_start_position p =
     (case last_field_start p of
        None \<Rightarrow> get_position (d_screen p)
      | Some pos \<Rightarrow>
          if cols (d_screen p) \<le> 0 \<or> pos < 0 then get_position (d_screen p)
          else (pos div cols (d_screen p), pos mod cols (d_screen p)))"

definition handle_sa :: "unit handler" where
  "handle_sa =
     dbind (validate_min_data ''SA'' 2) (\<lambda>_.
     dbind ds_read (\<lambda>t. dbind ds_read (\<lambda>v.
       dget (\<lambda>p. on_scr (set_extended_attribute_sfe (uint t) (uint v)
                           (Some (resolve_field_start_position p)))))))"

text \<open>
  MF reads pairs to the end of the data. Every round but the last consumes two bytes, so a fuel
  of the length of the data is enough for the loop.
\<close>

fun mf_loop :: "nat \<Rightarrow> int \<times> int \<Rightarrow> unit handler" where
  "mf_loop 0 target = dret ()"
| "mf_loop (Suc n) target =
     dget (\<lambda>p. if dpos p < length (pdata p) \<and> \<not> dpos p + 1 \<ge> length (pdata p)
        then dbind ds_read (\<lambda>t. dbind ds_read (\<lambda>v.
               dbind (on_scr (set_extended_attribute_sfe (uint t) (uint v) (Some target)))
                 (\<lambda>_. mf_loop n target)))
        else dret ())"

definition handle_mf :: "unit handler" where
  "handle_mf =
     dbind (validate_min_data ''MF'' 2) (\<lambda>_.
       dget (\<lambda>p. mf_loop (length (pdata p)) (resolve_field_start_position p)))"

text \<open>How many positions lie between the cursor and a target, going round the end of the screen.\<close>

definition span_count :: "screen \<Rightarrow> int \<Rightarrow> int \<Rightarrow> int" where
  "span_count s current target =
     (if target \<ge> current then target - current else (rows s * cols s - current) + target)"

definition handle_ra :: "unit handler" where
  "handle_ra =
     dbind (validate_min_data ''RA'' 3) (\<lambda>_.
     dget (\<lambda>p0.
     dbind read_address (\<lambda>a.
     dbind (read_byte_safe ''RA'') (\<lambda>b.
     dget (\<lambda>p. case target_coords (addressing_mode p) (d_screen p) a of
          None \<Rightarrow> dret ()
        | Some (r, c) \<Rightarrow>
            dbind (repeat_insert (nat (span_count (d_screen p)
                      (linear (d_screen p0) (get_position (d_screen p0)))
                      (linear (d_screen p) (r, c)))) b)
              (\<lambda>_. on_scr (set_position r c)))))))"

fun erase_loop :: "nat \<Rightarrow> int \<Rightarrow> int \<Rightarrow> screen \<Rightarrow> screen" where
  "erase_loop 0 row col s = s"
| "erase_loop (Suc n) row col s =
     (let s1 = (case get_field_at_position row col s of
                  None \<Rightarrow> write_char 0x40 (Some (row, col)) False True False s
                | Some f \<Rightarrow> if f_protected f then s
                            else write_char 0x40 (Some (row, col)) False True False s)
      in if col + 1 \<ge> cols s1
         then erase_loop n (if row + 1 \<ge> rows s1 then 0 else row + 1) 0 s1
         else erase_loop n row (col + 1) s1)"

definition erase_unprotected :: "int \<times> int \<Rightarrow> screen \<Rightarrow> screen" where
  "erase_unprotected target s =
     (let (row, col) = get_position s;
          n = nat (span_count s (linear s (row, col)) (linear s target))
      in set_position (fst target) (snd target) (erase_loop n row col s))"

definition handle_eua :: "unit handler" where
  "handle_eua =
     dbind (validate_min_data ''EUA'' 2) (\<lambda>_.
     dbind read_address (\<lambda>a.
     dget (\<lambda>p. case target_coords (addressing_mode p) (d_screen p) a of
          None \<Rightarrow> dret ()
        | Some rc \<Rightarrow> on_scr (erase_unprotected rc))))"

text \<open>
  GE stores the first byte of the UTF-8 form of a Unicode character: 0xE2 for every character of
  the table but the multiplication and division signs (0xC3), the section and micro signs (0xC2).
\<close>

definition ge_char_byte :: "byte \<Rightarrow> byte" where
  "ge_char_byte b =
     (if b = 0x47 \<or> b = 0x48 then 0xC3
      else if 0x40 \<le> b \<and> b \<le> 0x7F then 0xE2
      else if b = 0x0B then 0xE2
      else if b = 0x35 \<or> b = 0xB5 then 0xC2
      else b)"

definition handle_ge :: "unit handler" where
  "handle_ge =
     dbind (validate_min_data ''GE'' 1) (\<lambda>_.
     dbind ds_read (\<lambda>b. insert_data (ge_char_byte b)))"

definition handle_ic :: "unit handler" where
  "handle_ic = on_scr move_cursor_to_first_input_field"

definition handle_pt :: "unit handler" where
  "handle_pt = on_scr program_tab"

text \<open>The class has no method \<open>_handle_soh\<close>, so the code 0x01 is skipped.\<close>

definition scs_printer_codes :: "byte list" where
  "scs_printer_codes = [0x09, 0x0A, 0x0C, 0x0D, 0x0B, 0x84, 0x08, 0x0E, 0x0F]"

definition handle_scs :: "unit handler" where
  "handle_scs =
     dget (\<lambda>p. if \<not> d_has_more p then dfail (Incomplete_order ''SCS'')
        else dbind ds_read (\<lambda>c.
               if c \<in> set scs_printer_codes \<and> has_printer p then emit (Ev_scs_data [c])
               else dret ()))"

section \<open>Start Field Extended\<close>

text \<open>
  One attribute pair: 0xC0 sets the base attribute, seven types set an extended attribute at the
  cursor, anything else is ignored. The result says whether the base attribute was set.
\<close>

definition sfe_types :: "byte list" where
  "sfe_types = [0x41, 0x42, 0x43, 0x44, 0x45, 0xC1, 0xC2]"

definition sfe_pair :: "byte \<Rightarrow> byte \<Rightarrow> screen \<Rightarrow> screen" where
  "sfe_pair t v s =
     (if t = 0xC0 then set_attribute v None s
      else if t \<in> set sfe_types then set_extended_attribute_sfe (uint t) (uint v) None s
      else s)"

text \<open>As the payload of a structured field: pairs to the end, a trailing odd byte is left.\<close>

fun sfe_payload :: "bytes \<Rightarrow> screen \<Rightarrow> screen" where
  "sfe_payload (t # v # tvs) s = sfe_payload tvs (sfe_pair t v s)"
| "sfe_payload _ s = s"

text \<open>As an order: a count byte, then that many pairs or as many as there are.\<close>

fun sfe_pairs :: "nat \<Rightarrow> bool \<Rightarrow> bool handler" where
  "sfe_pairs 0 base = dret base"
| "sfe_pairs (Suc n) base =
     dget (\<lambda>p. if d_remaining p < 2 then dret base
        else dbind (read_byte_safe ''SFE'') (\<lambda>t. dbind (read_byte_safe ''SFE'') (\<lambda>v.
               dbind (on_scr (sfe_pair t v)) (\<lambda>_. sfe_pairs n (base \<or> t = 0xC0)))))"

definition handle_sfe :: "unit handler" where
  "handle_sfe =
     dget (\<lambda>p0. if \<not> d_has_more p0 then dret ()
        else dbind (read_byte_safe ''SFE'') (\<lambda>n.
             dbind (sfe_pairs (unat n) False) (\<lambda>base.
               if base then on_scr (set_position (cursor_row (d_screen p0)) (cursor_col (d_screen p0) + 1))
               else dret ())))"

section \<open>Data stream control\<close>

text \<open>Codes without an effect on the state are only logged; there is no SCS control-code method.\<close>

definition handle_data_stream_ctl :: "byte \<Rightarrow> unit handler" where
  "handle_data_stream_ctl c p =
     (Inr (),
      if c = 0x03 then p\<lparr>d_screen := (d_screen p)\<lparr>ascii_mode := True\<rparr>\<rparr>
      else if c = 0x04 then p\<lparr>pending_request := True\<rparr>
      else if c = 0x05 then p\<lparr>bid_pending := True\<rparr>
      else if c = 0x08 then p\<lparr>cancel_pending := True, bid_pending := False, pending_request := False\<rparr>
      else if c = 0x09 then p\<lparr>signal_data := Some [0x6C]\<rparr>
      else p)"

text \<open>0x40 is a space unless 0x01 follows.\<close>

definition handle_data_stream_ctl_order :: "unit handler" where
  "handle_data_stream_ctl_order =
     dget (\<lambda>p. if \<not> d_has_more p then insert_data 0x40
        else if pdata p ! ppos p = 0x01 then dbind raw_read handle_data_stream_ctl
        else insert_data 0x40)"

section \<open>Handlers no order reaches\<close>

text \<open>
  \<open>_handle_rmf\<close>, \<open>_handle_bind\<close> and \<open>_write_text_byte\<close> are in no dispatch table.
  The count of \<open>_handle_rmf\<close> is bounded by the size of the screen less the cursor column, and
  the position it computes beside the inserts may pass the last row.
\<close>

fun rmf_advance :: "nat \<Rightarrow> int \<Rightarrow> int \<times> int \<Rightarrow> int \<times> int" where
  "rmf_advance 0 w rc = rc"
| "rmf_advance (Suc n) w rc =
     rmf_advance n w (if snd rc + 1 \<ge> w then (fst rc + 1, 0) else (fst rc, snd rc + 1))"

definition mark_field_modified :: "int \<times> int \<Rightarrow> screen \<Rightarrow> screen" where
  "mark_field_modified rc s =
     (case get_field_at_position (fst rc) (snd rc) s of
        None \<Rightarrow> s
      | Some f \<Rightarrow>
          (if f \<in> set (sfields s)
           then s\<lparr>sfields := takeWhile (\<lambda>g. g \<noteq> f) (sfields s)
                     @ Field_replace (\<lambda>g. g\<lparr>f_modified := True\<rparr>) f
                     # tl (dropWhile (\<lambda>g. g \<noteq> f) (sfields s))\<rparr>
           else s))"

definition handle_rmf :: "unit handler" where
  "handle_rmf =
     dbind (validate_min_data ''RMF'' 2) (\<lambda>_.
     dbind ds_read (\<lambda>count. dbind ds_read (\<lambda>b.
     dget (\<lambda>p.
       (let s = d_screen p;
            n = nat (min (uint count) (cols s * rows s - cursor_col s));
            rc = rmf_advance n (cols s) (get_position s)
        in dbind (repeat_insert n b) (\<lambda>_.
           dbind (on_scr (set_position (fst rc) (snd rc))) (\<lambda>_.
             on_scr (mark_field_modified rc))))))))"

definition handle_bind :: "unit handler" where
  "handle_bind p =
     (let two = (\<lambda>d q. if \<not> d_has_more q then (d, q)
                       else (case raw_read q of
                               (Inl _, q1) \<Rightarrow> (d, q1)
                             | (Inr hi, q1) \<Rightarrow>
                                 (case raw_read q1 of
                                    (Inl _, q2) \<Rightarrow> (d, q2)
                                  | (Inr lo, q2) \<Rightarrow> (be16 hi lo, q2))));
          (r, p1) = two 24 p; (c, p2) = two 80 p1
      in if has_negotiator p2
         then emit (Ev_bind_image (BindImage_default\<lparr>bi_rows := Some r, bi_cols := Some c\<rparr>)) p2
         else (Inr (), p2))"

definition write_text_byte :: "byte \<Rightarrow> screen \<Rightarrow> screen" where
  "write_text_byte b s =
     (let (row, col) = get_position s;
          s1 = write_char b (Some (row, col)) False False False s
      in if col + 1 \<ge> cols s1
         then (if row + 1 < rows s1 then set_position (row + 1) 0 s1 else set_position 0 0 s1)
         else set_position row (col + 1) s1)"

text \<open>\<open>_handle_aid_with_byte\<close>: a light-pen AID is followed by an address.\<close>

definition handle_aid_with_byte :: "byte \<Rightarrow> unit handler" where
  "handle_aid_with_byte a p =
     (let p1 = p\<lparr>aid := Some a\<rparr>
      in if a = 0x7D
         then dbind ds_read (\<lambda>hi. dbind ds_read (\<lambda>lo q.
                (Inr (), q\<lparr>d_screen := (d_screen q)\<lparr>light_pen_pos :=
                   Some (addr12 hi lo div cols (d_screen q), addr12 hi lo mod cols (d_screen q))\<rparr>\<rparr>))) p1
         else (Inr (), p1))"

text \<open>\<open>parse_light_pen_aid\<close> looks for light-pen AIDs anywhere in its data.\<close>

fun parse_light_pen_aid :: "bytes \<Rightarrow> screen \<Rightarrow> screen" where
  "parse_light_pen_aid [] s = s"
| "parse_light_pen_aid (b # bs) s =
     (if b = 0x7D then
        (case bs of
           hi # lo # bs1 \<Rightarrow>
             parse_light_pen_aid bs1
               (snd (select_light_pen (addr12 hi lo div cols s) (addr12 hi lo mod cols s) s))
         | _ \<Rightarrow> parse_light_pen_aid bs s)
      else parse_light_pen_aid bs s)"

end
