(* ===== verification/StructuredFields.thy ===== *)
theory StructuredFields
  imports DataStream
begin

text \<open>
  \<open>pure3270/protocol/data_stream.py\<close>, second part: structured fields. The validator, the
  parsers of bind images and SNA responses, the dispatch of structured fields in a stream with its
  tolerant header handling, the routine that skips a field, and the builders of replies and of
  the sender's structured fields.
\<close>

section \<open>Validation\<close>

datatype sf_error =
    Too_short | Bad_length | Length_exceeds_data | Bind_too_short | Bad_subfield_length
  | Psc_too_short | Sfe_too_short | Incomplete_pair | Response_too_short | Query_too_short
  | Status_too_short | Validation_exception

datatype sf_warning =
    Unknown_sf_type | Empty_query_ids | Unknown_attribute | Unknown_response | Unknown_query
  | Unknown_status

text \<open>A check returns an error or the warnings it gives, in order.\<close>

definition validate_length_field :: "bytes \<Rightarrow> sf_error option" where
  "validate_length_field data =
     (if length data < 3 then Some Too_short
      else (let len = be16 (data ! 1) (data ! 2)
            in if len < 3 then Some Bad_length
               else if len > int (length data) then Some Length_exceeds_data
               else None))"

text \<open>
  The subfields of a bind image. A length byte of 0 or 1 is refused; a subfield longer than the
  data makes \<open>read_fixed\<close> raise, which counts as a validation error.
\<close>

function validate_subfields :: "bytes \<Rightarrow> sf_error + sf_warning list" where
  "validate_subfields xs =
     (case xs of
        n # i # ys \<Rightarrow>
          if unat n < 2 then Inl Bad_subfield_length
          else if length ys < unat n - 2 then Inl Validation_exception
          else if i = 0x01 \<and> unat n - 2 < 4 then Inl Psc_too_short
          else (case validate_subfields (drop (unat n - 2) ys) of
                  Inl e \<Rightarrow> Inl e
                | Inr ws \<Rightarrow> Inr (if i = 0x02 \<and> unat n = 2 then Empty_query_ids # ws else ws))
      | _ \<Rightarrow> Inr [])"
  by pat_completeness auto
termination by (relation "measure length") auto

definition validate_bind_image :: "bytes \<Rightarrow> sf_error + sf_warning list" where
  "validate_bind_image data =
     (if length data < 8 then Inl Bind_too_short else validate_subfields (drop 3 data))"

fun validate_pairs :: "bytes \<Rightarrow> sf_error + sf_warning list" where
  "validate_pairs [] = Inr []"
| "validate_pairs [_] = Inl Incomplete_pair"
| "validate_pairs (t # _ # tvs) =
     (case validate_pairs tvs of
        Inl e \<Rightarrow> Inl e
      | Inr ws \<Rightarrow> Inr (if t \<notin> {0x41, 0x42, 0x43, 0x44, 0x45} then Unknown_attribute # ws else ws))"

definition validate_sfe :: "bytes \<Rightarrow> sf_error + sf_warning list" where
  "validate_sfe data = (if length data < 6 then Inl Sfe_too_short else validate_pairs (drop 4 data))"

text \<open>Four bytes are read behind the header, so data of length 6 raises inside.\<close>

definition validate_sna_response :: "bytes \<Rightarrow> sf_error + sf_warning list" where
  "validate_sna_response data =
     (if length data < 6 then Inl Response_too_short
      else if length data < 7 then Inl Validation_exception
      else Inr (if data ! 3 \<notin> {0x01, 0x02} then [Unknown_response] else []))"

definition valid_query_types :: "byte list" where
  "valid_query_types = [0x81, 0x85, 0x8E, 0x8F, 0x90, 0x92, 0x84, 0x86, 0x95, 0x89, 0x8A, 0x87,
     0x91, 0x93, 0x94]"

definition validate_query_reply :: "bytes \<Rightarrow> sf_error + sf_warning list" where
  "validate_query_reply data =
     (if length data < 4 then Inl Query_too_short
      else Inr (if data ! 3 \<notin> set valid_query_types then [Unknown_query] else []))"

definition validate_printer_status :: "bytes \<Rightarrow> sf_error + sf_warning list" where
  "validate_printer_status data =
     (if length data < 4 then Inl Status_too_short
      else Inr (if data ! 3 \<notin> {0x00, 0x40, 0x80, 0x81, 0x82, 0x83} then [Unknown_status] else []))"

definition validate_by_type :: "byte \<Rightarrow> bytes \<Rightarrow> sf_error + sf_warning list" where
  "validate_by_type t data =
     (if t = 0x03 then validate_bind_image data
      else if t = 0x28 then validate_sfe data
      else if t = 0x01 then validate_sna_response data
      else if t = 0x81 then validate_query_reply data
      else if t = 0x02 then validate_printer_status data
      else Inr [Unknown_sf_type])"

definition validate_structured_field :: "byte \<Rightarrow> bytes \<Rightarrow> sf_error + sf_warning list" where
  "validate_structured_field t data =
     (if length data < 3 then Inl Too_short
      else case validate_length_field data of
             Some e \<Rightarrow> Inl e
           | None \<Rightarrow> validate_by_type t data)"

section \<open>Bind images and SNA responses\<close>

definition hex_digit :: "nat \<Rightarrow> char" where
  "hex_digit n = (if n < 10 then char_of (48 + n) else char_of (87 + n))"

definition hexlify :: "bytes \<Rightarrow> string" where
  "hexlify bs = concat (map (\<lambda>b. [hex_digit (unat b div 16), hex_digit (unat b mod 16)]) bs)"

definition byte_at :: "bytes \<Rightarrow> nat \<Rightarrow> int" where
  "byte_at data i = uint (data ! i)"

definition bind_max_rus :: "bytes \<Rightarrow> (string \<times> param) list" where
  "bind_max_rus data =
     (if length data > 10 then [(''maxru_sec'', ParInt (byte_at data 10))] else [])
     @ (if length data > 11 then [(''maxru_pri'', ParInt (byte_at data 11))] else [])"

text \<open>Rows, columns, flags and the alternate dimensions from the screen-size byte.\<close>

definition bind_screen_size ::
    "bytes \<Rightarrow> int option \<times> int option \<times> int option \<times> (string \<times> param) list" where
  "bind_screen_size data =
     (if length data > 24 then
        (let ss = data ! 24
         in if ss = 0x00 \<or> ss = 0x02 \<or> ss = 0x03 then (Some 24, Some 80, Some (uint ss), [])
            else if ss = 0x7E \<and> length data > 21
              then (Some (byte_at data 20), Some (byte_at data 21), Some (uint ss), [])
            else if ss = 0x7F \<and> length data > 23
              then (Some (byte_at data 20), Some (byte_at data 21), Some (uint ss),
                    [(''alt_rows'', ParInt (byte_at data 22)), (''alt_cols'', ParInt (byte_at data 23))])
            else (None, None, None, []))
      else (None, None, None, []))"

text \<open>The PLU name, decoded by the EBCDIC codec (a parameter; \<open>None\<close> when it raises).\<close>

definition bind_plu_name :: "(bytes \<Rightarrow> string option) \<Rightarrow> bytes \<Rightarrow> (string \<times> param) list" where
  "bind_plu_name decode data =
     (if length data > 27 then
        (let n = unat (data ! 27)
         in if 0 < n \<and> n \<le> 8 \<and> length data > 28 + n
            then (case decode (take n (drop 28 data)) of
                    Some s \<Rightarrow> [(''plu_name'', ParStr s)]
                  | None \<Rightarrow> [(''plu_name_raw'', ParStr (hexlify (take n (drop 28 data))))])
            else [])
      else [])"

text \<open>
  \<open>_parse_bind_image\<close>. The messages it formats on the way can raise: \<open>data[0]\<close> for empty
  data, and the hexadecimal form of \<open>flags\<close> when no screen size was recognised.
\<close>

definition parse_bind_image :: "(bytes \<Rightarrow> string option) \<Rightarrow> bytes \<Rightarrow> py_error + BindImage" where
  "parse_bind_image decode data =
     (if data = [] then Inl IndexError
      else if data ! 0 \<noteq> 0x31 then Inr BindImage_default
      else
        (let (r, c, fl, alt) = bind_screen_size data
         in if fl = None then Inl TypeError
            else Inr \<lparr>bi_rows = r, bi_cols = c, bi_query_reply_ids = [], bi_model = None,
                      bi_flags = fl,
                      bi_parameters = bind_max_rus data @ alt @ bind_plu_name decode data\<rparr>))"

definition parse_sna_response :: "bytes \<Rightarrow> SnaResponse" where
  "parse_sna_response data =
     (case data of
        [] \<Rightarrow> \<lparr>sna_type = 0, sna_flags = None, sna_sense = None, sna_data = None\<rparr>
      | t # xs \<Rightarrow>
          (let (fl, ys) = (case xs of [] \<Rightarrow> (None, []) | f # zs \<Rightarrow> (Some f, zs));
               (sense, zs) = (case ys of h # l # ws \<Rightarrow> (Some (be16 h l), ws) | _ \<Rightarrow> (None, ys))
           in \<lparr>sna_type = uint t, sna_flags = fl, sna_sense = sense,
               sna_data = (if zs = [] then None else Some zs)\<rparr>))"

definition sna_is_positive :: "SnaResponse \<Rightarrow> bool" where
  "sna_is_positive r \<longleftrightarrow>
     (case sna_flags r of None \<Rightarrow> True | Some f \<Rightarrow> f AND 0x04 = 0)
   \<and> (case sna_sense r of None \<Rightarrow> True | Some c \<Rightarrow> c = 0)"

definition sna_is_negative :: "SnaResponse \<Rightarrow> bool" where
  "sna_is_negative r \<longleftrightarrow>
     (if (case sna_flags r of None \<Rightarrow> False | Some f \<Rightarrow> f AND 0x04 \<noteq> 0) then True
      else (case sna_sense r of None \<Rightarrow> False | Some c \<Rightarrow> c \<noteq> 0))"

definition sense_names :: "(int \<times> string) list" where
  "sense_names = [(0x0000, ''SUCCESS''), (0x1001, ''INVALID_FORMAT''), (0x1002, ''NOT_SUPPORTED''),
     (0x2001, ''SESSION_FAILURE''), (0x0801, ''INVALID_REQUEST''), (0x080A, ''LU_BUSY''),
     (0x1008, ''INVALID_SEQUENCE''), (0x080F, ''NO_RESOURCES''), (0x1003, ''STATE_ERROR'')]"

text \<open>The names of the flags that are set, joined by the source with a bar; \<open>None\<close> for no flags.\<close>

definition sna_flag_names :: "SnaResponse \<Rightarrow> string list option" where
  "sna_flag_names r =
     map_option (\<lambda>f. map snd (filter (\<lambda>(m, _). f AND m \<noteq> 0)
       [(0x01, ''DR1''), (0x02, ''DR2''), (0x04, ''ER''), (0x08, ''RSP''), (0x40, ''FC''),
        (0x10, ''MC''), (0x20, ''LC'')])) (sna_flags r)"

section \<open>Dispatch\<close>

text \<open>
  \<open>_handle_bind_sf\<close>: the parser has no method \<open>_parse_bind_image_sf\<close>, so the negotiator
  always receives an empty bind image.
\<close>

definition handle_bind_sf :: "bytes \<Rightarrow> unit handler" where
  "handle_bind_sf data p =
     (if has_negotiator p then emit (Ev_bind_image BindImage_default) p else (Inr (), p))"

definition handle_sna_response_sf :: "bytes \<Rightarrow> unit handler" where
  "handle_sna_response_sf data p =
     (if has_negotiator p then emit (Ev_sna_response (parse_sna_response data)) p else (Inr (), p))"

definition handle_printer_status_sf :: "bytes \<Rightarrow> unit handler" where
  "handle_printer_status_sf data p =
     (case data of
        [] \<Rightarrow> (Inr (), p)
      | b # _ \<Rightarrow> (if has_printer p then emit (Ev_printer_status b) p else (Inr (), p)))"

definition handle_indfile_sf :: "bytes \<Rightarrow> unit handler" where
  "handle_indfile_sf data p =
     (if data \<noteq> [] \<and> has_ind_file p then emit (Ev_ind_file data) p else (Inr (), p))"

text \<open>All the other types of the table, and unknown ones, are only logged.\<close>

definition dispatch_sf :: "byte \<Rightarrow> bytes \<Rightarrow> unit handler" where
  "dispatch_sf t data =
     (if t = 0x03 then handle_bind_sf data
      else if t = 0x28 then on_scr (sfe_payload data)
      else if t = 0x01 then handle_sna_response_sf data
      else if t = 0x02 then handle_printer_status_sf data
      else if t = 0xD0 then handle_indfile_sf data
      else dret ())"

text \<open>
  \<open>_skip_structured_field\<close>: a zero byte first means a two-byte length that counts the type,
  any other byte is a one-byte length that does not. It never reads past the end.
\<close>

definition skip_target :: "bytes \<Rightarrow> nat \<Rightarrow> nat" where
  "skip_target d q =
     (let n = length d
      in if n \<le> q then q
         else if q + 2 \<le> n \<and> d ! q = 0x00
         then (let len = nat (be16 (d ! q) (d ! (q + 1)));
                   q1 = (if q + 2 < n then q + 3 else q + 2)
               in q1 + min (n - q1) (len - 1))
         else (let q1 = (if q + 1 < n then q + 2 else q + 1)
               in q1 + min (n - q1) (unat (d ! q))))"

definition after_sf_id :: "dsp \<Rightarrow> nat" where
  "after_sf_id p =
     (if d_has_more p \<and> pdata p ! ppos p = 0x88 then ppos p + 1 else ppos p)"

definition skip_structured_field :: "unit handler" where
  "skip_structured_field p =
     (let q = skip_target (pdata p) (after_sf_id p) in (Inr (), p\<lparr>ppos := q, dpos := q\<rparr>))"

text \<open>Run a handler that may fail, with another one for its failure.\<close>

definition dtry :: "'a handler \<Rightarrow> 'b handler \<Rightarrow> ('a \<Rightarrow> 'b handler) \<Rightarrow> 'b handler" where
  "dtry m h f p = (case m p of (Inl _, p1) \<Rightarrow> h p1 | (Inr a, p1) \<Rightarrow> f a p1)"

text \<open>The payload: at most what the length says, at most what there is.\<close>

definition read_payload :: "int \<Rightarrow> bytes handler" where
  "read_payload len p =
     (let n = nat (min (max 0 (len - 1)) (d_remaining p))
      in (Inr (take n (drop (ppos p) (pdata p))), p\<lparr>ppos := ppos p + n\<rparr>))"

definition handle_sf_body :: "byte \<Rightarrow> byte \<Rightarrow> unit handler" where
  "handle_sf_body hi lo =
     dget (\<lambda>p. if be16 hi lo > d_remaining p + 1000 then skip_structured_field
        else if d_remaining p < 1 then skip_structured_field
        else dtry ds_read (dret ()) (\<lambda>t.
               dbind (read_payload (be16 hi lo)) (\<lambda>data. dtry (dispatch_sf t data) (dret ()) dret)))"

definition handle_structured_field :: "unit handler" where
  "handle_structured_field =
     (let header = dget (\<lambda>p. if d_remaining p < 3 then skip_structured_field
                    else dtry ds_read skip_structured_field (\<lambda>hi.
                         dtry ds_read skip_structured_field (\<lambda>lo. handle_sf_body hi lo)))
      in dget (\<lambda>p. if d_has_more p \<and> pdata p ! ppos p = 0x88
           then dtry ds_read (dret ()) (\<lambda>_. header) else header))"

section \<open>Builders\<close>

text \<open>\<open>to_bytes(2, "big")\<close>; the \<open>OverflowError\<close> of a longer field is \<open>None\<close>.\<close>

definition to_be16 :: "int \<Rightarrow> bytes option" where
  "to_be16 n = (if 0 \<le> n \<and> n < 65536 then Some [word_of_int (n div 256), word_of_int (n mod 256)]
                else None)"

definition build_query_reply_sf :: "byte \<Rightarrow> bytes \<Rightarrow> bytes option" where
  "build_query_reply_sf query_type data =
     (let payload = query_type # data
      in map_option (\<lambda>len. [0x88] @ len @ [0x93] @ payload) (to_be16 (1 + int (length payload))))"

definition device_type_reply_data :: bytes where
  "device_type_reply_data = [0x84, 0x01, 0x0A, 0x49, 0x42, 0x4D, 0x2D, 0x33, 0x32, 0x37, 0x38, 0x2D,
     0x32, 0x00, 0x00, 0x00, 0x02]"

definition build_device_type_query_reply :: bytes where
  "build_device_type_query_reply =
     (let n = 3 + int (length device_type_reply_data)
      in [0x88, word_of_int (n div 256), word_of_int (n mod 256), 0x93] @ device_type_reply_data)"

definition build_characteristics_query_reply :: bytes where
  "build_characteristics_query_reply = [0x88, 0x00, 0x05, 0x93, 0x81, 0x00, 0x00]"

section \<open>The sender\<close>

definition build_read_modified_all :: bytes where
  "build_read_modified_all = [0x7D, 0xF1]"

definition build_read_modified_fields :: bytes where
  "build_read_modified_fields = [0x7D, 0xF6, 0xF0]"

definition build_key_press :: "byte \<Rightarrow> bytes" where
  "build_key_press a = [a]"

definition build_write :: "bytes \<Rightarrow> bytes" where
  "build_write data = [0xF5, 0xC1, 0x05] @ data @ [0x0D]"

text \<open>The address bytes of the sender: the high byte is cut to six bits, the low byte is whole.\<close>

definition sender_address :: "int \<Rightarrow> bytes" where
  "sender_address a = [word_of_int (drop_bit 8 a) AND 0x3F, word_of_int (a AND 0xFF)]"

fun input_fields :: "int \<Rightarrow> (int \<times> bytes) list \<Rightarrow> bytes" where
  "input_fields w [] = []"
| "input_fields w ((pos, data) # fs) =
     [0x11] @ sender_address (pos div w * w + pos mod w) @ data @ input_fields w fs"

definition build_input_stream :: "(int \<times> bytes) list \<Rightarrow> byte \<Rightarrow> int \<Rightarrow> bytes" where
  "build_input_stream modified_fields a w = [a] @ input_fields w modified_fields @ [0x0D]"

definition build_sba :: "int \<Rightarrow> int \<Rightarrow> AddressingMode \<Rightarrow> bytes" where
  "build_sba row col mode =
     (if mode = MODE_14_BIT
      then (let a = (row * 80 + col) AND 0x3FFF
            in [0x11, word_of_int (drop_bit 8 a) AND 0xFF, word_of_int (a AND 0xFF)])
      else 0x11 # sender_address (row * 80 + col))"

definition build_scs_ctl_codes :: "byte \<Rightarrow> bytes" where
  "build_scs_ctl_codes c = [0x04, c]"

definition build_data_stream_ctl :: "byte \<Rightarrow> bytes" where
  "build_data_stream_ctl c = [0x40, c]"

definition build_query_sf :: "byte \<Rightarrow> bytes" where
  "build_query_sf t = [0x88, 0x00, 0x01, t]"

definition build_printer_status_sf :: "byte \<Rightarrow> bytes" where
  "build_printer_status_sf status = [0x88, 0x00, 0x04, 0x02, status]"

definition build_soh_message :: "byte \<Rightarrow> bytes" where
  "build_soh_message status = [0x01, status]"

end
