(* ===== verification/DataStreamParse.thy ===== *)
theory DataStreamParse
  imports StructuredFields
begin

text \<open>
  \<open>pure3270/protocol/data_stream.py\<close>, third part: the snapshot and the rollback of a write, the
  loop over orders and data bytes with its three classes of errors, the data types of a TN3270E
  message, and the entry point \<open>parse\<close>.

  The loop is a partial function: \<open>None\<close> is a parse that does not return. That it always returns
  is a theorem of \<open>ParseProps\<close>. The catch-all that turns other exceptions into
  \<open>ParseError("Parsing failed")\<close> has no counterpart: on a well-formed screen the handlers raise
  nothing but \<open>ParseError\<close>.
\<close>

section \<open>Snapshot and rollback\<close>

record snapshot =
  sn_buffer :: bytes
  sn_attributes :: bytes
  sn_extended :: "((int \<times> int) \<times> attr_dict) list"
  sn_field_starts :: "int set"
  sn_cursor :: "int \<times> int"
  sn_ascii_mode :: bool
  sn_light_pen :: "(int \<times> int) option"

text \<open>An attribute set that cannot be converted is stored as the empty dictionary.\<close>

definition snapshot_attrs :: "attr_set \<Rightarrow> attr_dict" where
  "snapshot_attrs a = (case aset_to_dict a of Inl _ \<Rightarrow> [] | Inr d \<Rightarrow> d)"

definition snapshot_screen :: "screen \<Rightarrow> snapshot" where
  "snapshot_screen s =
     \<lparr>sn_buffer = buffer s, sn_attributes = attributes s,
      sn_extended = map (\<lambda>(k, a). (k, snapshot_attrs a)) (extended_attributes s),
      sn_field_starts = field_starts s, sn_cursor = get_position s, sn_ascii_mode = ascii_mode s,
      sn_light_pen = light_pen_pos s\<rparr>"

text \<open>A dictionary that cannot be loaded is kept as it is.\<close>

definition restore_attrs :: "attr_dict \<Rightarrow> attr_set" where
  "restore_attrs d = (case aset_from_dict [] d of Inl _ \<Rightarrow> d | Inr a \<Rightarrow> a)"

definition restore_screen :: "snapshot \<Rightarrow> screen \<Rightarrow> screen" where
  "restore_screen sn s =
     detect_fields
       (s\<lparr>buffer := (if sn_buffer sn \<noteq> [] then sn_buffer sn else buffer s),
          attributes := (if sn_attributes sn \<noteq> [] then sn_attributes sn else attributes s),
          extended_attributes := map (\<lambda>(k, d). (k, restore_attrs d)) (sn_extended sn),
          field_starts := sn_field_starts sn,
          cursor_row := fst (sn_cursor sn), cursor_col := snd (sn_cursor sn),
          ascii_mode := sn_ascii_mode sn, light_pen_pos := sn_light_pen sn\<rparr>)"

text \<open>\<open>_handle_write\<close>; the last step fills the buffer when the whole payload is spaces.\<close>

definition handle_write :: "bool \<Rightarrow> bytes \<Rightarrow> screen \<Rightarrow> screen" where
  "handle_write do_clear data s =
     (let s1 = set_position 0 0 (if do_clear then clear s else s)
      in if do_clear \<and> data \<noteq> [] \<and> list_all (\<lambda>b. b = 0x40) data
         then s1\<lparr>buffer := replicate (length (buffer s1)) 0x40\<rparr> else s1)"

section \<open>The loop\<close>

text \<open>\<open>self._order_handlers\<close>\<close>

definition order_handler :: "byte \<Rightarrow> unit handler option" where
  "order_handler b =
     (if b = 0x11 then Some handle_sba
      else if b = 0x1D then Some handle_sf
      else if b = 0x2C then Some handle_mf
      else if b = 0x3C then Some handle_ra
      else if b = 0x12 then Some handle_eua
      else if b = 0x08 then Some handle_ge
      else if b = 0x13 then Some handle_ic
      else if b = 0x05 then Some handle_pt
      else if b = 0x29 then Some handle_sfe
      else if b = 0x28 then Some handle_sa
      else if b = 0x88 then Some handle_structured_field
      else if b = 0x40 then Some handle_data_stream_ctl_order
      else if b = 0x04 then Some handle_scs
      else None)"

text \<open>One round of the loop. A null byte is skipped without moving \<open>self._pos\<close>.\<close>

definition parse_step :: "unit handler" where
  "parse_step =
     dbind raw_read (\<lambda>b.
       case order_handler b of
         Some h \<Rightarrow> dbind h (\<lambda>_. sync_pos)
       | None \<Rightarrow> if b = 0 then dret () else dbind (insert_data b) (\<lambda>_. sync_pos))"

definition is_fatal_error :: "parse_error \<Rightarrow> bool" where
  "is_fatal_error e \<longleftrightarrow> e \<in> Incomplete_order ` {''WCC'', ''AID'', ''DATA_STREAM_CTL''}"

definition is_rollback_only_error :: "parse_error \<Rightarrow> bool" where
  "is_rollback_only_error e \<longleftrightarrow> e \<in> Incomplete_order ` {''SA'', ''SBA'', ''EUA''}"

definition is_critical_error :: "parse_error \<Rightarrow> bool" where
  "is_critical_error e \<longleftrightarrow>
     e \<in> Incomplete_order ` {''WCC'', ''AID'', ''DATA_STREAM_CTL'', ''SA'', ''SBA''}"

text \<open>\<open>write_snapshot is not None and "Incomplete" in err_msg\<close>\<close>

definition rollback :: "snapshot option \<Rightarrow> parse_error \<Rightarrow> dsp \<Rightarrow> dsp" where
  "rollback snap e p =
     (case snap of
        None \<Rightarrow> p
      | Some sn \<Rightarrow> (case e of Incomplete_order _ \<Rightarrow> p\<lparr>d_screen := restore_screen sn (d_screen p)\<rparr>
                    | _ \<Rightarrow> p))"

definition to_end :: "dsp \<Rightarrow> dsp" where
  "to_end p = p\<lparr>ppos := length (pdata p), dpos := length (pdata p)\<rparr>"

text \<open>
  After another error: one byte further. At the end of the data the position of the inner parser
  is taken from \<open>self._pos\<close>, which may lie before it.
\<close>

definition skip_one :: "dsp \<Rightarrow> dsp" where
  "skip_one p =
     (if ppos p < length (pdata p)
      then p\<lparr>ppos := min (ppos p + 1) (length (pdata p)), dpos := min (ppos p + 1) (length (pdata p))\<rparr>
      else (let d = min (dpos p + 1) (length (pdata p)) in p\<lparr>ppos := d, dpos := d\<rparr>))"

datatype outcome = Completed | Aborted | Raised parse_error

partial_function (option) parse_loop :: "snapshot option \<Rightarrow> dsp \<Rightarrow> (outcome \<times> dsp) option" where
  "parse_loop snap p =
     (if \<not> d_has_more p then Some (Completed, p)
      else
        (case parse_step p of
           (Inr _, p1) \<Rightarrow> parse_loop snap p1
         | (Inl e, p1) \<Rightarrow>
             (if is_fatal_error e then Some (Raised e, to_end (rollback snap e p1))
              else if is_rollback_only_error e then Some (Aborted, to_end (rollback snap e p1))
              else parse_loop snap (skip_one p1))))"

declare parse_loop.simps [code]

section \<open>A 3270 record\<close>

definition write_commands :: "byte list" where
  "write_commands = [0x01, 0xF1, 0x05]"

definition erase_write_commands :: "byte list" where
  "erase_write_commands = [0xF5, 0x0D, 0x6E, 0x7E]"

text \<open>The code around the loop: what the outer \<open>except\<close> does with an error that got out of it.\<close>

definition outer_except :: "snapshot option \<Rightarrow> parse_error \<Rightarrow> dsp \<Rightarrow> (parse_error + unit) \<times> dsp" where
  "outer_except snap e p =
     (let p1 = rollback snap e p
      in if is_critical_error e then (Inl e, to_end p1)
         else (Inr (), if ppos p1 < length (pdata p1)
                       then p1\<lparr>ppos := min (ppos p1 + 1) (length (pdata p1)),
                               dpos := min (ppos p1 + 1) (length (pdata p1))\<rparr>
                       else p1\<lparr>dpos := min (dpos p1 + 1) (length (pdata p1))\<rparr>))"

definition after_loop ::
    "snapshot option \<Rightarrow> outcome \<times> dsp \<Rightarrow> (parse_error + unit) \<times> dsp" where
  "after_loop snap r =
     (case r of
        (Completed, p) \<Rightarrow> (Inr (), if dpos p < length (pdata p) then p\<lparr>dpos := length (pdata p)\<rparr> else p)
      | (Aborted, p) \<Rightarrow> (Inr (), p)
      | (Raised e, p) \<Rightarrow> outer_except snap e p)"

definition run_orders :: "snapshot option \<Rightarrow> dsp \<Rightarrow> ((parse_error + unit) \<times> dsp) option" where
  "run_orders snap p = map_option (after_loop snap) (parse_loop snap p)"

text \<open>A control character has been read: handle it and go on.\<close>

definition run_after_wcc ::
    "snapshot option \<Rightarrow> byte \<Rightarrow> dsp \<Rightarrow> ((parse_error + unit) \<times> dsp) option" where
  "run_after_wcc snap w p =
     run_orders snap (snd (dbind (handle_wcc_with_byte w) (\<lambda>_. sync_pos) p))"

text \<open>
  The first byte: a write command takes a snapshot, clears the screen and expects a control
  character; any other byte is the control character itself.
\<close>

definition parse_body :: "dsp \<Rightarrow> ((parse_error + unit) \<times> dsp) option" where
  "parse_body p =
     (case raw_read p of
        (Inl _, p1) \<Rightarrow> Some (Inr (), p1)
      | (Inr b, p1) \<Rightarrow>
          (if b \<in> set write_commands \<or> b \<in> set erase_write_commands then
             (let snap = Some (snapshot_screen (d_screen p1));
                  p2 = p1\<lparr>d_screen := handle_write True (pdata p1) (d_screen p1)\<rparr>
              in case raw_read p2 of
                   (Inl _, p3) \<Rightarrow>
                     (if b \<in> set write_commands then Some (Inr (), p3)
                      else Some (outer_except snap (Incomplete_order ''WCC'') p3))
                 | (Inr w, p3) \<Rightarrow> run_after_wcc snap w p3)
           else run_after_wcc None b p1))"

definition end_bulk :: "bool \<Rightarrow> (parse_error + unit) \<times> dsp \<Rightarrow> (parse_error + unit) \<times> dsp" where
  "end_bulk bulk r =
     (if bulk then (fst r, (snd r)\<lparr>d_screen := end_bulk_update (d_screen (snd r))\<rparr>) else r)"

definition parse_tn3270 :: "dsp \<Rightarrow> ((parse_error + unit) \<times> dsp) option" where
  "parse_tn3270 p =
     (let bulk = length (pdata p) > 4096;
          s = set_position 0 0 (set_ascii_mode False (d_screen p));
          p1 = p\<lparr>wcc := None, aid := None, d_screen := (if bulk then begin_bulk_update s else s)\<rparr>
      in map_option (end_bulk bulk) (parse_body p1))"

section \<open>Other data types\<close>

text \<open>ASCII text for NVT mode: line feed, carriage return, and everything else is written.\<close>

fun nvt_loop :: "bytes \<Rightarrow> int \<times> int \<Rightarrow> screen \<Rightarrow> (int \<times> int) \<times> screen" where
  "nvt_loop [] rc s = (rc, s)"
| "nvt_loop (b # bs) rc s =
     (let (row, col) = rc
      in if b = 0x0A then nvt_loop bs (min (row + 1) (rows s - 1), col) s
         else if b = 0x0D then nvt_loop bs (row, 0) s
         else (let s1 = write_char b (Some (row, col)) False True False s
               in if col + 1 \<ge> cols s1
                  then nvt_loop bs (min (row + 1) (rows s1 - 1), 0) s1
                  else nvt_loop bs (row, col + 1) s1))"

definition handle_nvt_data :: "bytes \<Rightarrow> screen \<Rightarrow> screen" where
  "handle_nvt_data data s =
     (if data = [] then s
      else (let s1 = set_ascii_mode True s;
                ((row, col), s2) = nvt_loop data (get_position s1) (begin_bulk_update s1)
            in end_bulk_update (set_position row col s2)))"

text \<open>\<open>_handle_request\<close>: clearing an error condition sets the printer status to device end.\<close>

definition handle_request :: "bytes \<Rightarrow> dsp \<Rightarrow> dsp" where
  "handle_request data p =
     (case data of
        [] \<Rightarrow> p
      | f # _ \<Rightarrow> if f AND 0x01 \<noteq> 0 \<and> has_printer p
                 then p\<lparr>events := events p @ [Ev_printer_status 0x00]\<rparr> else p)"

text \<open>The payload handed to the bind handler when the data is a whole structured field.\<close>

definition bind_payload :: "bytes \<Rightarrow> bytes" where
  "bind_payload data =
     (if data \<noteq> [] \<and> data ! 0 = 0x88 \<and> length data \<ge> 4
      then take (nat (max 0 (be16 (data ! 1) (data ! 2) - 1))) (drop 4 data)
      else data)"

text \<open>
  \<open>parse\<close>. SCS data without a printer, and any type the source does not know, is parsed as a
  3270 stream; type 4 calls a method the class does not have.
\<close>

definition parse :: "bytes \<Rightarrow> int \<Rightarrow> dsp \<Rightarrow> ((parse_error + unit) \<times> dsp) option" where
  "parse data data_type p =
     (let p0 = p\<lparr>pdata := data, ppos := 0, dpos := 0\<rparr>
      in if data_type = 1 \<and> has_printer p0
           then Some (Inr (), (snd (emit (Ev_scs_data data) p0))\<lparr>dpos := length data\<rparr>)
         else if data_type = 7 then Some (Inr (), p0)
         else if data_type = 8
           then Some (Inr (), if has_printer p0 then snd (emit Ev_end_job p0) else p0)
         else if data_type = 3 then Some (handle_bind_sf (bind_payload data) p0)
         else if data_type = 9 then Some (handle_sna_response_sf data p0)
         else if data_type = 4 then Some (Inr (), p0)
         else if data_type = 5
           then Some (Inr (), p0\<lparr>d_screen := handle_nvt_data data (d_screen p0)\<rparr>)
         else if data_type = 2 then Some (Inr (), p0)
         else if data_type = 6 then Some (Inr (), handle_request data p0)
         else parse_tn3270 p0)"

end
