(* ===== verification/HandlerLaws.thy ===== *)
theory HandlerLaws
  imports DataStreamParse
begin

text \<open>
  Laws that hold of every handler of the data-stream parser, proved once for the combinators and
  then for each handler by the collections \<open>adv_rules\<close> and \<open>keep_rules\<close>: a handler never
  moves the read position backwards or changes the data, and it keeps any invariant of the screen
  that the operations of the screen keep. The second law is stated in the locale
  \<open>screen_safe\<close>, whose assumptions are what the parser needs of a screen; it is interpreted for
  the well-formedness of a screen of given dimensions.
\<close>

section \<open>Progress\<close>

definition pos_ok :: "dsp \<Rightarrow> bool" where
  "pos_ok p \<longleftrightarrow> dpos p \<le> ppos p \<and> ppos p \<le> length (pdata p)"

definition moves_on :: "dsp \<Rightarrow> dsp \<Rightarrow> bool" where
  "moves_on p q \<longleftrightarrow>
     pdata q = pdata p
   \<and> (pos_ok p \<longrightarrow> pos_ok q \<and> ppos p \<le> ppos q \<and> dpos p \<le> dpos q)"

definition adv :: "'a handler \<Rightarrow> bool" where
  "adv m \<longleftrightarrow> (\<forall>p. moves_on p (snd (m p)))"

lemma moves_on_refl [simp]: "moves_on p p"
  by (simp add: moves_on_def)

lemma moves_on_trans: "moves_on p q \<Longrightarrow> moves_on q r \<Longrightarrow> moves_on p r"
  by (auto simp: moves_on_def)

lemma adv_result: "adv m \<Longrightarrow> m p = (r, q) \<Longrightarrow> moves_on p q"
  by (metis adv_def snd_conv)

lemma adv_dret [adv_rules]: "adv (dret a)"
  by (simp add: adv_def dret_def)

lemma adv_dfail [adv_rules]: "adv (dfail e)"
  by (simp add: adv_def dfail_def)

lemma adv_dbind [adv_rules]:
  assumes "adv m" and "\<And>a. adv (f a)"
  shows "adv (dbind m f)"
  unfolding adv_def
proof
  fix p
  obtain r q where m: "m p = (r, q)" by (cases "m p")
  then have "moves_on p q" using assms(1) by (rule adv_result [rotated])
  moreover have "moves_on q (snd (f a q))" for a using assms(2) by (simp add: adv_def)
  ultimately show "moves_on p (snd (dbind m f p))"
    using m by (auto simp: dbind_def split: sum.split intro: moves_on_trans)
qed

lemma adv_dtry [adv_rules]:
  assumes "adv m" and "adv h" and "\<And>a. adv (f a)"
  shows "adv (dtry m h f)"
  unfolding adv_def
proof
  fix p
  obtain r q where m: "m p = (r, q)" by (cases "m p")
  then have "moves_on p q" using assms(1) by (rule adv_result [rotated])
  moreover have "moves_on q (snd (f a q))" "moves_on q (snd (h q))" for a
    using assms(2,3) by (simp_all add: adv_def)
  ultimately show "moves_on p (snd (dtry m h f p))"
    using m by (auto simp: dtry_def split: sum.split intro: moves_on_trans)
qed

lemma adv_dget [adv_rules]: "(\<And>q. adv (f q)) \<Longrightarrow> adv (dget f)"
  by (simp add: adv_def dget_def)

lemma adv_frame:
  assumes "\<And>p. pdata (snd (m p)) = pdata p \<and> ppos (snd (m p)) = ppos p \<and> dpos (snd (m p)) = dpos p"
  shows "adv m"
  using assms by (simp add: adv_def moves_on_def pos_ok_def)

lemma adv_on_scr [adv_rules]: "adv (on_scr g)"
  by (rule adv_frame) (simp add: on_scr_def)

lemma adv_emit [adv_rules]: "adv (emit ev)"
  by (rule adv_frame) (simp add: emit_def)

lemma adv_sync [adv_rules]: "adv sync_pos"
  by (simp add: adv_def moves_on_def pos_ok_def sync_pos_def)

lemma adv_raw_read [adv_rules]: "adv raw_read"
  by (simp add: adv_def moves_on_def pos_ok_def raw_read_def d_has_more_def)

lemma adv_ds_read [adv_rules]: "adv ds_read"
  by (simp add: adv_def moves_on_def pos_ok_def ds_read_def)

lemma adv_min_data [adv_rules]: "adv (validate_min_data op n)"
  by (simp add: adv_def validate_min_data_def)

lemma adv_read_safe [adv_rules]: "adv (read_byte_safe op)"
  by (simp add: adv_def moves_on_def pos_ok_def read_byte_safe_def ds_read_def)

lemma adv_insert_data [adv_rules]: "adv (insert_data b)"
  by (rule adv_frame) (simp add: insert_data_def Let_def split: prod.split)

lemma adv_repeat_insert [adv_rules]: "adv (repeat_insert n b)"
  by (induction n b rule: repeat_insert.induct) (simp_all add: adv_rules)

lemma adv_wcc [adv_rules]: "adv (handle_wcc_with_byte w)"
  by (rule adv_frame) (simp add: handle_wcc_with_byte_def Let_def)

lemma adv_read_address [adv_rules]: "adv read_address"
  unfolding read_address_def by (intro adv_rules)

lemma adv_sba [adv_rules]: "adv handle_sba"
  unfolding handle_sba_def by (intro adv_rules) (auto intro!: adv_rules split: option.split)

lemma adv_sf [adv_rules]: "adv handle_sf"
proof -
  have "adv (\<lambda>p. (Inr (), p\<lparr>d_screen := f p, last_field_start := g p, dpos := ppos p\<rparr>))" for f g
    by (simp add: adv_def moves_on_def pos_ok_def)
  then show ?thesis unfolding handle_sf_def by (intro adv_rules)
qed

lemma adv_sa [adv_rules]: "adv handle_sa"
  unfolding handle_sa_def by (intro adv_rules)

lemma adv_mf_loop [adv_rules]: "adv (mf_loop n t)"
  by (induction n) (auto intro!: adv_rules)

lemma adv_mf [adv_rules]: "adv handle_mf"
  unfolding handle_mf_def by (intro adv_rules)

lemma adv_ra [adv_rules]: "adv handle_ra"
  unfolding handle_ra_def by (intro adv_rules) (auto intro!: adv_rules split: option.split)

lemma adv_eua [adv_rules]: "adv handle_eua"
  unfolding handle_eua_def by (intro adv_rules) (auto intro!: adv_rules split: option.split)

lemma adv_ge [adv_rules]: "adv handle_ge"
  unfolding handle_ge_def by (intro adv_rules)

lemma adv_ic [adv_rules]: "adv handle_ic"
  unfolding handle_ic_def by (intro adv_rules)

lemma adv_pt [adv_rules]: "adv handle_pt"
  unfolding handle_pt_def by (intro adv_rules)

lemma adv_scs [adv_rules]: "adv handle_scs"
  unfolding handle_scs_def by (auto intro!: adv_rules)

lemma adv_sfe_pairs [adv_rules]: "adv (sfe_pairs n b)"
  by (induction n b rule: sfe_pairs.induct) (auto intro!: adv_rules)

lemma adv_sfe [adv_rules]: "adv handle_sfe"
  unfolding handle_sfe_def by (auto intro!: adv_rules)

lemma adv_ctl [adv_rules]: "adv (handle_data_stream_ctl c)"
  by (rule adv_frame) (simp add: handle_data_stream_ctl_def)

lemma adv_ctl_order [adv_rules]: "adv handle_data_stream_ctl_order"
  unfolding handle_data_stream_ctl_order_def by (auto intro!: adv_rules)

lemma adv_dispatch [adv_rules]: "adv (dispatch_sf t data)"
proof -
  have "adv (handle_bind_sf data)" "adv (handle_sna_response_sf data)"
    "adv (handle_printer_status_sf data)" "adv (handle_indfile_sf data)"
    by (rule adv_frame; simp add: handle_bind_sf_def handle_sna_response_sf_def emit_def
        handle_printer_status_sf_def handle_indfile_sf_def split: list.split)+
  then show ?thesis by (auto simp: dispatch_sf_def intro!: adv_rules)
qed

lemma skip_target_bounds:
  assumes "q \<le> length d"
  shows "q \<le> skip_target d q \<and> skip_target d q \<le> length d"
  using assms by (auto simp: skip_target_def Let_def)

lemma adv_skip [adv_rules]: "adv skip_structured_field"
proof -
  have "pos_ok p \<Longrightarrow> ppos p \<le> after_sf_id p \<and> after_sf_id p \<le> length (pdata p)" for p
    by (auto simp: after_sf_id_def pos_ok_def d_has_more_def)
  with skip_target_bounds show ?thesis
    by (fastforce simp: adv_def moves_on_def pos_ok_def skip_structured_field_def Let_def
        intro: order_trans)
qed

lemma adv_payload [adv_rules]: "adv (read_payload len)"
  by (auto simp: adv_def moves_on_def pos_ok_def read_payload_def Let_def d_remaining_def)

lemma adv_sf_body [adv_rules]: "adv (handle_sf_body hi lo)"
  unfolding handle_sf_body_def by (auto intro!: adv_rules)

lemma adv_structured_field [adv_rules]: "adv handle_structured_field"
  unfolding handle_structured_field_def Let_def by (auto intro!: adv_rules)

lemma adv_order_handler: "order_handler b = Some h \<Longrightarrow> adv h"
  by (auto simp: order_handler_def adv_rules split: if_splits)

lemma adv_parse_step: "adv parse_step"
proof -
  have "adv (case order_handler b of
         Some h \<Rightarrow> dbind h (\<lambda>_. sync_pos)
       | None \<Rightarrow> if b = 0 then dret () else dbind (insert_data b) (\<lambda>_. sync_pos))" for b
    using adv_order_handler [of b] by (cases "order_handler b") (simp_all add: adv_rules)
  then show ?thesis unfolding parse_step_def by (intro adv_rules)
qed

section \<open>Errors\<close>

text \<open>No order handler fails with one of the errors that make a write raise.\<close>

named_theorems err_rules \<open>handlers without fatal errors\<close>

definition benign :: "'a handler \<Rightarrow> bool" where
  "benign m \<longleftrightarrow> (\<forall>p e q. m p = (Inl e, q) \<longrightarrow> \<not> is_fatal_error e)"

lemma benign_total:
  assumes "\<And>p. \<exists>a. fst (m p) = Inr a"
  shows "benign m"
  using assms by (metis benign_def fst_conv Inl_Inr_False)

lemma benign_dret [err_rules]: "benign (dret a)"
  by (simp add: benign_def dret_def)

lemma benign_dfail: "\<not> is_fatal_error e \<Longrightarrow> benign (dfail e)"
  by (simp add: benign_def dfail_def)

lemma benign_dbind [err_rules]: "benign m \<Longrightarrow> (\<And>a. benign (f a)) \<Longrightarrow> benign (dbind m f)"
  by (auto simp: benign_def dbind_def split: sum.splits prod.splits)

lemma benign_dtry [err_rules]: "benign h \<Longrightarrow> (\<And>a. benign (f a)) \<Longrightarrow> benign (dtry m h f)"
  by (auto simp: benign_def dtry_def split: sum.splits prod.splits)

lemma benign_dget [err_rules]: "(\<And>q. benign (f q)) \<Longrightarrow> benign (dget f)"
  by (simp add: benign_def dget_def)

lemma benign_reads [err_rules]:
  "benign (on_scr g)" "benign (emit ev)" "benign sync_pos" "benign raw_read" "benign ds_read"
  "benign (read_payload len)" "benign skip_structured_field" "benign (handle_wcc_with_byte w)"
  by (auto simp: benign_def on_scr_def emit_def sync_pos_def raw_read_def ds_read_def
      read_payload_def skip_structured_field_def handle_wcc_with_byte_def Let_def is_fatal_error_def
      split: if_splits)

definition fatal_name :: "string \<Rightarrow> bool" where
  "fatal_name op \<longleftrightarrow> op \<in> {''WCC'', ''AID'', ''DATA_STREAM_CTL''}"

lemma benign_named [err_rules]:
  "\<not> fatal_name op \<Longrightarrow> benign (validate_min_data op n)"
  "\<not> fatal_name op \<Longrightarrow> benign (read_byte_safe op)"
  by (auto simp: benign_def validate_min_data_def read_byte_safe_def is_fatal_error_def fatal_name_def
      split: if_splits sum.splits prod.splits)

lemma fatal_names [simp]:
  "\<not> fatal_name ''SBA''" "\<not> fatal_name ''SF''" "\<not> fatal_name ''SA''" "\<not> fatal_name ''MF''"
  "\<not> fatal_name ''RA''" "\<not> fatal_name ''EUA''" "\<not> fatal_name ''GE''" "\<not> fatal_name ''SFE''"
  by (simp_all add: fatal_name_def)

lemma benign_insert [err_rules]: "benign (insert_data b)"
  by (auto simp: benign_def insert_data_def Let_def is_fatal_error_def split: prod.splits if_splits)

lemma benign_repeat [err_rules]: "benign (repeat_insert n b)"
  by (induction n b rule: repeat_insert.induct) (simp_all add: err_rules)

lemma benign_address [err_rules]: "benign read_address"
  unfolding read_address_def by (intro err_rules)

lemma benign_mf_loop [err_rules]: "benign (mf_loop n t)"
  by (induction n) (auto intro!: err_rules)

lemma benign_sfe_pairs [err_rules]: "benign (sfe_pairs n b)"
  by (induction n b rule: sfe_pairs.induct) (auto intro!: err_rules)

lemma benign_sf [err_rules]: "benign handle_sf"
proof -
  have "benign (\<lambda>p. (Inr (), g p))" for g by (simp add: benign_def)
  then show ?thesis unfolding handle_sf_def by (auto intro!: err_rules)
qed

lemma benign_orders [err_rules]:
  "benign handle_sba" "benign handle_sa" "benign handle_mf" "benign handle_ra" "benign handle_eua"
  "benign handle_ge" "benign handle_ic" "benign handle_pt" "benign handle_sfe"
  unfolding handle_sba_def handle_sa_def handle_mf_def handle_ra_def handle_eua_def handle_ge_def
    handle_ic_def handle_pt_def handle_sfe_def
  by (auto intro!: err_rules split: option.split)

lemma benign_scs [err_rules]: "benign handle_scs"
  unfolding handle_scs_def
  by (auto intro!: err_rules benign_dfail simp: is_fatal_error_def)

lemma benign_ctl [err_rules]: "benign handle_data_stream_ctl_order"
proof -
  have "benign (handle_data_stream_ctl c)" for c
    by (simp add: benign_def handle_data_stream_ctl_def)
  then show ?thesis unfolding handle_data_stream_ctl_order_def by (auto intro!: err_rules)
qed

lemma benign_structured_field [err_rules]: "benign handle_structured_field"
  unfolding handle_structured_field_def handle_sf_body_def Let_def by (auto intro!: err_rules)

lemma benign_order_handler: "order_handler b = Some h \<Longrightarrow> benign h"
  by (auto simp: order_handler_def err_rules split: if_splits)

lemma benign_parse_step: "benign parse_step"
proof -
  have "benign (case order_handler b of
         Some h \<Rightarrow> dbind h (\<lambda>_. sync_pos)
       | None \<Rightarrow> if b = 0 then dret () else dbind (insert_data b) (\<lambda>_. sync_pos))" for b
    using benign_order_handler [of b] by (cases "order_handler b") (simp_all add: err_rules)
  then show ?thesis unfolding parse_step_def by (intro err_rules)
qed

section \<open>Invariants of the screen\<close>

definition keeps :: "(screen \<Rightarrow> bool) \<Rightarrow> 'a handler \<Rightarrow> bool" where
  "keeps I m \<longleftrightarrow> (\<forall>p. I (d_screen p) \<longrightarrow> I (d_screen (snd (m p))))"

lemma keepsD: "keeps I m \<Longrightarrow> I (d_screen p) \<Longrightarrow> m p = (r, q) \<Longrightarrow> I (d_screen q)"
  by (metis keeps_def snd_conv)

lemma keeps_frame:
  assumes "\<And>p. d_screen (snd (m p)) = d_screen p"
  shows "keeps I m"
  using assms by (simp add: keeps_def)

lemma keeps_dret [keep_rules]: "keeps I (dret a)"
  by (rule keeps_frame) (simp add: dret_def)

lemma keeps_dfail [keep_rules]: "keeps I (dfail e)"
  by (rule keeps_frame) (simp add: dfail_def)

lemma keeps_dbind [keep_rules]:
  assumes "keeps I m" and "\<And>a. keeps I (f a)"
  shows "keeps I (dbind m f)"
  unfolding keeps_def
proof (intro allI impI)
  fix p :: dsp assume "I (d_screen p)"
  obtain r q where m: "m p = (r, q)" by (cases "m p")
  with assms(1) \<open>I (d_screen p)\<close> have "I (d_screen q)" by (rule keepsD)
  with assms(2) m show "I (d_screen (snd (dbind m f p)))"
    by (auto simp: dbind_def keeps_def split: sum.split)
qed

lemma keeps_dtry [keep_rules]:
  assumes "keeps I m" and "keeps I h" and "\<And>a. keeps I (f a)"
  shows "keeps I (dtry m h f)"
  unfolding keeps_def
proof (intro allI impI)
  fix p :: dsp assume "I (d_screen p)"
  obtain r q where m: "m p = (r, q)" by (cases "m p")
  with assms(1) \<open>I (d_screen p)\<close> have "I (d_screen q)" by (rule keepsD)
  with assms(2,3) m show "I (d_screen (snd (dtry m h f p)))"
    by (auto simp: dtry_def keeps_def split: sum.split)
qed

lemma keeps_dget [keep_rules]: "(\<And>q. keeps I (f q)) \<Longrightarrow> keeps I (dget f)"
  by (simp add: keeps_def dget_def)

lemma keeps_on_scr: "(\<And>s. I s \<Longrightarrow> I (g s)) \<Longrightarrow> keeps I (on_scr g)"
  by (simp add: keeps_def on_scr_def)

lemma keeps_reads [keep_rules]:
  "keeps I raw_read" "keeps I ds_read" "keeps I (validate_min_data op n)"
  "keeps I (read_byte_safe op)" "keeps I sync_pos" "keeps I (emit ev)" "keeps I (read_payload len)"
  "keeps I skip_structured_field"
  by (rule keeps_frame; simp add: raw_read_def ds_read_def validate_min_data_def read_byte_safe_def
      sync_pos_def emit_def read_payload_def skip_structured_field_def Let_def)+

lemma keeps_read_address [keep_rules]: "keeps I read_address"
  unfolding read_address_def by (intro keep_rules)

text \<open>What the parser asks of an invariant of the screen.\<close>

locale screen_safe =
  fixes I :: "screen \<Rightarrow> bool"
  assumes keep_position: "I s \<Longrightarrow> I (set_position r c s)"
    and keep_clear: "I s \<Longrightarrow> I (clear s)"
    and keep_fill: "I s \<Longrightarrow> I (s\<lparr>buffer := replicate (length (buffer s)) b\<rparr>)"
    and keep_put: "I s \<Longrightarrow> I (put_data b s)"
    and keep_start_field: "I s \<Longrightarrow> I (start_field b s)"
    and keep_attribute: "I s \<Longrightarrow> I (set_attribute b at s)"
    and keep_sfe: "I s \<Longrightarrow> I (set_extended_attribute_sfe t v at s)"
    and keep_write: "I s \<Longrightarrow> I (write_char b at prot circ mark s)"
    and keep_first: "I s \<Longrightarrow> I (move_cursor_to_first_input_field s)"
    and keep_tab: "I s \<Longrightarrow> I (program_tab s)"
    and keep_keyboard: "I s \<Longrightarrow> I (set_keyboard_lock lk s)"
    and keep_ascii: "I s \<Longrightarrow> I (s\<lparr>ascii_mode := m\<rparr>)"
    and keep_bulk: "I s \<Longrightarrow> I (begin_bulk_update s) \<and> I (end_bulk_update s)"
    and keep_restore: "I s0 \<Longrightarrow> I s \<Longrightarrow> I (restore_screen (snapshot_screen s0) s)"
begin

lemma keeps_insert [keep_rules]: "keeps I (insert_data b)"
  by (auto simp: keeps_def insert_data_def Let_def keep_put split: prod.split)

lemma keeps_repeat_insert [keep_rules]: "keeps I (repeat_insert n b)"
  by (induction n b rule: repeat_insert.induct) (simp_all add: keep_rules)

lemma keeps_wcc [keep_rules]: "keeps I (handle_wcc_with_byte w)"
  by (simp add: keeps_def handle_wcc_with_byte_def Let_def keep_position keep_keyboard
      reset_mdt_flags_def)

lemma keeps_position [keep_rules]: "keeps I (on_scr (set_position r c))"
  by (rule keeps_on_scr) (rule keep_position)

lemma keeps_sba [keep_rules]: "keeps I handle_sba"
  unfolding handle_sba_def by (intro keep_rules) (auto intro!: keep_rules split: option.split)

lemma keeps_sf [keep_rules]: "keeps I handle_sf"
proof -
  have "keeps I (\<lambda>p. (Inr (), p\<lparr>d_screen := start_field b (d_screen p),
                  last_field_start := Some (linear (d_screen p) (get_position (d_screen p))),
                  dpos := ppos p\<rparr>))" for b
    by (simp add: keeps_def keep_start_field)
  then show ?thesis unfolding handle_sf_def by (intro keep_rules)
qed

lemma keeps_on_sfe [keep_rules]: "keeps I (on_scr (set_extended_attribute_sfe t v at))"
  by (rule keeps_on_scr) (rule keep_sfe)

lemma keeps_sa [keep_rules]: "keeps I handle_sa"
  unfolding handle_sa_def by (intro keep_rules)

lemma keeps_mf_loop [keep_rules]: "keeps I (mf_loop n t)"
  by (induction n) (auto intro!: keep_rules)

lemma keeps_mf [keep_rules]: "keeps I handle_mf"
  unfolding handle_mf_def by (intro keep_rules)

lemma keeps_ra [keep_rules]: "keeps I handle_ra"
  unfolding handle_ra_def by (intro keep_rules) (auto intro!: keep_rules split: option.split)

lemma keep_erase_loop: "I s \<Longrightarrow> I (erase_loop n row col s)"
  by (induction n row col s rule: erase_loop.induct)
    (simp_all add: Let_def keep_write split: option.split)

lemma keeps_erase [keep_rules]: "keeps I (on_scr (erase_unprotected rc))"
  by (rule keeps_on_scr)
    (simp add: erase_unprotected_def Let_def keep_position keep_erase_loop split: prod.split)

lemma keeps_eua [keep_rules]: "keeps I handle_eua"
  unfolding handle_eua_def by (intro keep_rules) (auto intro!: keep_rules split: option.split)

lemma keeps_ge [keep_rules]: "keeps I handle_ge"
  unfolding handle_ge_def by (intro keep_rules)

lemma keeps_ic_pt [keep_rules]: "keeps I handle_ic" "keeps I handle_pt"
  unfolding handle_ic_def handle_pt_def by (simp_all add: keeps_on_scr keep_first keep_tab)

lemma keeps_scs [keep_rules]: "keeps I handle_scs"
  unfolding handle_scs_def by (auto intro!: keep_rules)

lemma keep_sfe_pair: "I s \<Longrightarrow> I (sfe_pair t v s)"
  by (simp add: sfe_pair_def keep_attribute keep_sfe)

lemma keep_sfe_payload: "I s \<Longrightarrow> I (sfe_payload tvs s)"
  by (induction tvs s rule: sfe_payload.induct) (simp_all add: keep_sfe_pair)

lemma keeps_sfe_pairs [keep_rules]: "keeps I (sfe_pairs n b)"
  by (induction n b rule: sfe_pairs.induct)
    (auto intro!: keep_rules keeps_on_scr keep_sfe_pair)

lemma keeps_sfe [keep_rules]: "keeps I handle_sfe"
  unfolding handle_sfe_def by (auto intro!: keep_rules)

lemma keeps_ctl [keep_rules]: "keeps I (handle_data_stream_ctl c)"
  by (simp add: keeps_def handle_data_stream_ctl_def keep_ascii)

lemma keeps_ctl_order [keep_rules]: "keeps I handle_data_stream_ctl_order"
  unfolding handle_data_stream_ctl_order_def by (auto intro!: keep_rules)

lemma keeps_dispatch [keep_rules]: "keeps I (dispatch_sf t data)"
proof -
  have "keeps I (handle_bind_sf data)" "keeps I (handle_sna_response_sf data)"
    "keeps I (handle_printer_status_sf data)" "keeps I (handle_indfile_sf data)"
    by (rule keeps_frame; simp add: handle_bind_sf_def handle_sna_response_sf_def emit_def
        handle_printer_status_sf_def handle_indfile_sf_def split: list.split)+
  then show ?thesis by (auto simp: dispatch_sf_def intro!: keep_rules keeps_on_scr keep_sfe_payload)
qed

lemma keeps_sf_body [keep_rules]: "keeps I (handle_sf_body hi lo)"
  unfolding handle_sf_body_def by (auto intro!: keep_rules)

lemma keeps_structured_field [keep_rules]: "keeps I handle_structured_field"
  unfolding handle_structured_field_def Let_def by (auto intro!: keep_rules)

lemma keeps_order_handler: "order_handler b = Some h \<Longrightarrow> keeps I h"
  by (auto simp: order_handler_def keep_rules split: if_splits)

lemma keeps_parse_step: "keeps I parse_step"
proof -
  have "keeps I (case order_handler b of
         Some h \<Rightarrow> dbind h (\<lambda>_. sync_pos)
       | None \<Rightarrow> if b = 0 then dret () else dbind (insert_data b) (\<lambda>_. sync_pos))" for b
    using keeps_order_handler [of b] by (cases "order_handler b") (simp_all add: keep_rules)
  then show ?thesis unfolding parse_step_def by (intro keep_rules)
qed

lemma keep_handle_write: "I s \<Longrightarrow> I (handle_write cl data s)"
  by (simp add: handle_write_def Let_def keep_position keep_clear keep_fill)

lemma keep_nvt_loop: "I s \<Longrightarrow> I (snd (nvt_loop bs rc s))"
  by (induction bs arbitrary: rc s) (simp_all add: Let_def keep_write split: prod.split)

lemma keep_nvt: "I s \<Longrightarrow> I (handle_nvt_data data s)"
  using keep_nvt_loop [of "begin_bulk_update (set_ascii_mode True s)"]
  by (simp add: handle_nvt_data_def Let_def set_ascii_mode_def keep_ascii keep_bulk keep_position
      split: prod.split) (metis keep_ascii keep_bulk keep_position snd_conv)

end

end
