(* ===== verification/ParseProps.thy ===== *)
theory ParseProps
  imports HandlerLaws
begin

text \<open>
  What \<open>DataStreamParser.parse\<close> guarantees: it always returns, keeps the screen well formed,
  rolls a write back when an order is incomplete, raises for exactly one kind of record, and puts
  plain text where the stream says. The second half holds the effect of the single orders and the
  places where they depart from the documentation.
\<close>

section \<open>The screen invariant\<close>

lemma wf_buffer_update: "length b = length (buffer s) \<Longrightarrow> wf_screen (s\<lparr>buffer := b\<rparr>) = wf_screen s"
  by (rule wf_screen_cong) simp_all

lemma wf_put_data: "wf_screen s \<Longrightarrow> wf_screen (put_data b s)"
  by (simp add: put_data_def Let_def wf_set_position wf_buffer_update split: prod.split)

lemma dims_put_data [simp]: "rows (put_data b s) = rows s" "cols (put_data b s) = cols s"
  by (simp_all add: put_data_def Let_def split: prod.split)

lemma set_attribute_dims [simp]: "ssize (set_attribute b at s) = ssize s"
  by (simp add: set_attribute_def Let_def)

lemma wf_start_field:
  assumes "wf_screen s"
  shows "wf_screen (start_field b s)"
proof -
  let ?s1 = "set_attribute b None s"
  let ?p = "cursor_row s * cols s + cursor_col s"
  have w: "wf_screen ?s1" using assms by (rule wf_set_attribute)
  have "0 \<le> ?p" "?p < ssize s"
    using on_screen_linear [OF wf_dimsD [OF assms], of "(cursor_row s, cursor_col s)"] assms
    by (simp_all add: wf_screen_def linear_def)
  then have "wf_screen (?s1\<lparr>field_starts := insert ?p (field_starts ?s1)\<rparr>)"
    by (intro wf_screen_insert [OF w, of ?p]) simp_all
  then show ?thesis
    by (simp add: start_field_def Let_def get_position_def wf_set_position)
qed

lemma dims_start_field [simp]: "rows (start_field b s) = rows s" "cols (start_field b s) = cols s"
  by (simp_all add: start_field_def Let_def split: prod.split)

lemma wf_restore:
  assumes "wf_screen s0" and "wf_screen s" and "rows s = rows s0" and "cols s = cols s0"
  shows "wf_screen (restore_screen (snapshot_screen s0) s)"
proof -
  let ?s = "s\<lparr>buffer := buffer s0, attributes := attributes s0,
      extended_attributes := map (\<lambda>(k, d). (k, restore_attrs d))
        (map (\<lambda>(k, a). (k, snapshot_attrs a)) (extended_attributes s0)),
      field_starts := field_starts s0, cursor_row := cursor_row s0, cursor_col := cursor_col s0,
      ascii_mode := ascii_mode s0, light_pen_pos := light_pen_pos s0\<rparr>"
  have ne: "buffer s0 \<noteq> []" "attributes s0 \<noteq> []"
  proof -
    have "0 < ssize s0" using assms(1) by (simp add: wf_screen_def wf_dims_def)
    moreover have "length (buffer s0) = nat (ssize s0)" "length (attributes s0) = nat (ssize s0 * 3)"
      using assms(1) by (simp_all add: wf_screen_def wf_dims_def)
    ultimately show "buffer s0 \<noteq> []" "attributes s0 \<noteq> []" by auto
  qed
  have sz: "ssize s = ssize s0" using assms by (simp add: wf_screen_def wf_dims_def)
  have "wf_dims ?s = wf_dims s0"
    by (rule wf_dims_cong) (simp_all add: assms sz)
  moreover have "on_screen ?s = on_screen s0" by (rule on_screen_cong) (simp_all add: assms)
  moreover have "on_screen s = on_screen s0" by (rule on_screen_cong) (simp_all add: assms)
  ultimately have "wf_screen (detect_fields ?s)"
    using assms by (intro wf_detect) (simp_all add: wf_screen_def)
  then show ?thesis using ne by (simp add: restore_screen_def snapshot_screen_def get_position_def)
qed

lemma dims_restore [simp]:
  "rows (restore_screen sn s) = rows s" "cols (restore_screen sn s) = cols s"
  by (simp_all add: restore_screen_def)

lemma dims_clear [simp]: "rows (clear s) = rows s" "cols (clear s) = cols s"
  by (simp_all add: clear_def Let_def)

lemma dims_misc [simp]:
  "rows (set_extended_attribute_sfe t v at s) = rows s"
  "cols (set_extended_attribute_sfe t v at s) = cols s"
  "rows (move_cursor_to_first_input_field s) = rows s"
  "cols (move_cursor_to_first_input_field s) = cols s"
  "rows (program_tab s) = rows s" "cols (program_tab s) = cols s"
  "rows (set_keyboard_lock lk s) = rows s" "cols (set_keyboard_lock lk s) = cols s"
  "rows (begin_bulk_update s) = rows s" "cols (begin_bulk_update s) = cols s"
  "rows (end_bulk_update s) = rows s" "cols (end_bulk_update s) = cols s"
  using dims_step [OF step_sfe [of s t v at]] dims_step [OF step_first [of s]]
    dims_step [OF step_next [of s]] dims_step [OF step_keyboard [of s lk]]
    dims_step [OF step_begin_bulk [of s]] dims_step [OF step_end_bulk [of s]]
  by (simp_all add: program_tab_def)

lemma wf_ascii: "wf_screen (s\<lparr>ascii_mode := m\<rparr>) = wf_screen s"
  by (rule wf_screen_cong) simp_all

interpretation wf: screen_safe "\<lambda>s. wf_screen s \<and> rows s = r \<and> cols s = c" for r c
  by unfold_locales
    (simp_all add: wf_rules wf_put_data wf_start_field wf_buffer_update wf_ascii wf_restore)

section \<open>The loop returns\<close>

lemma parse_step_advances:
  assumes "pos_ok p" and "d_has_more p" and "parse_step p = (r, q)"
  shows "pos_ok q" and "pdata q = pdata p" and "ppos p < ppos q" and "dpos p \<le> dpos q"
proof -
  let ?p = "p\<lparr>ppos := ppos p + 1\<rparr>"
  let ?b = "pdata p ! ppos p"
  let ?k = "case order_handler ?b of
         Some h \<Rightarrow> dbind h (\<lambda>_. sync_pos)
       | None \<Rightarrow> if ?b = 0 then dret () else dbind (insert_data ?b) (\<lambda>_. sync_pos)"
  have "adv ?k"
    using adv_order_handler [of ?b] by (cases "order_handler ?b") (simp_all add: adv_rules)
  moreover have "?k ?p = (r, q)"
    using assms(2,3) by (simp add: parse_step_def dbind_def raw_read_def)
  ultimately have "moves_on ?p q" by (rule adv_result)
  moreover have "pos_ok ?p" using assms(1,2) by (simp add: pos_ok_def d_has_more_def)
  ultimately show "pos_ok q" "pdata q = pdata p" "ppos p < ppos q" "dpos p \<le> dpos q"
    by (auto simp: moves_on_def)
qed

text \<open>
  The lexicographic measure of the loop: \<open>self._pos\<close> never goes back, although the inner parser
  may be set back to it after an error at the end of the data.
\<close>

definition loop_measure :: "dsp \<Rightarrow> nat \<times> nat" where
  "loop_measure p = (length (pdata p) - dpos p, length (pdata p) - ppos p)"

definition loop_next :: "dsp \<Rightarrow> dsp \<Rightarrow> bool" where
  "loop_next p q \<longleftrightarrow> pos_ok q \<and> pdata q = pdata p
     \<and> (dpos p < dpos q \<or> (dpos p = dpos q \<and> ppos p < ppos q))"

lemma loop_next_less:
  assumes "pos_ok p" and "d_has_more p" and "loop_next p q"
  shows "(loop_measure q, loop_measure p) \<in> less_than <*lex*> less_than"
  using assms by (auto simp: loop_next_def loop_measure_def pos_ok_def d_has_more_def)

lemma parse_step_next:
  assumes "pos_ok p" and "d_has_more p" and "parse_step p = (r, q)"
  shows "loop_next p q" and "loop_next p (skip_one q)"
proof -
  note step = parse_step_advances [OF assms]
  show "loop_next p q" using step by (auto simp: loop_next_def)
  have "dpos p < length (pdata p)" using assms(1,2) by (simp add: pos_ok_def d_has_more_def)
  with step show "loop_next p (skip_one q)"
    by (auto simp: loop_next_def skip_one_def Let_def pos_ok_def)
qed

lemma parse_loop_returns: "pos_ok p \<Longrightarrow> \<exists>r. parse_loop snap p = Some r"
proof (induction "loop_measure p" arbitrary: p rule: wf_induct_rule [OF wf_lex_prod [OF wf_less_than wf_less_than]])
  case less: (1 p)
  show ?case
  proof (cases "d_has_more p")
    case False
    then show ?thesis by (simp add: parse_loop.simps)
  next
    case True
    obtain r q where q: "parse_step p = (r, q)" by (cases "parse_step p")
    have "\<exists>r. parse_loop snap q' = Some r" if "loop_next p q'" for q'
      using less.hyps [OF loop_next_less [OF less.prems True that]] that
      by (simp add: loop_next_def)
    then show ?thesis
      using q True parse_step_next [OF less.prems True q]
      by (subst parse_loop.simps) (auto split: sum.split)
  qed
qed

lemma run_after_wcc_returns:
  assumes "pos_ok q"
  shows "run_after_wcc snap w q \<noteq> None"
proof -
  have "adv (dbind (handle_wcc_with_byte w) (\<lambda>_. sync_pos))" by (intro adv_rules)
  with assms have "pos_ok (snd (dbind (handle_wcc_with_byte w) (\<lambda>_. sync_pos) q))"
    by (auto simp: adv_def moves_on_def)
  then show ?thesis
    using parse_loop_returns by (fastforce simp: run_after_wcc_def run_orders_def)
qed

lemma pos_ok_screen [simp]: "pos_ok (p\<lparr>d_screen := s\<rparr>) = pos_ok p"
  by (simp add: pos_ok_def)

lemma parse_body_returns:
  assumes "pos_ok p"
  shows "parse_body p \<noteq> None"
proof (cases "raw_read p")
  case (Pair r p1)
  have p1: "pos_ok p1" using adv_result [OF adv_raw_read Pair] assms by (simp add: moves_on_def)
  show ?thesis
  proof (cases r)
    case (Inl e)
    with Pair show ?thesis by (simp add: parse_body_def)
  next
    case (Inr b)
    let ?p2 = "p1\<lparr>d_screen := handle_write True (pdata p1) (d_screen p1)\<rparr>"
    obtain r2 p3 where r2: "raw_read ?p2 = (r2, p3)" by (cases "raw_read ?p2")
    have "pos_ok p3" using adv_result [OF adv_raw_read r2] p1 by (simp add: moves_on_def)
    with Pair Inr r2 p1 run_after_wcc_returns show ?thesis
      by (simp add: parse_body_def Let_def split: sum.split)
  qed
qed

lemma parse_total: "\<exists>rq. parse data data_type p = Some rq"
proof -
  have "pos_ok (p\<lparr>pdata := data, ppos := 0, dpos := 0, wcc := None, aid := None, d_screen := s\<rparr>)" for s
    by (simp add: pos_ok_def)
  then have "parse_tn3270 (p\<lparr>pdata := data, ppos := 0, dpos := 0\<rparr>) \<noteq> None"
    using parse_body_returns by (simp add: parse_tn3270_def Let_def)
  then show ?thesis by (auto simp: parse_def Let_def handle_bind_sf_def handle_sna_response_sf_def emit_def)
qed

text \<open>
  C2. Parsing always returns: for every data, every data type and every parser state, \<open>parse\<close>
  delivers a result, although an error at the end of the data can set the inner parser back over
  bytes it has read.
\<close>

theorem parse_returns: "\<exists>r q. parse data data_type p = Some (r, q)"
  using parse_total [of data data_type p] by simp

text \<open>
  How a run of the loop ends, from a state with a property that every round keeps: at the end of
  the data, or in a round that fails with a fatal or a rollback error.
\<close>

definition loop_end :: "snapshot option \<Rightarrow> dsp \<Rightarrow> outcome \<Rightarrow> dsp \<Rightarrow> bool" where
  "loop_end snap p out q \<longleftrightarrow>
     (out = Completed \<and> q = p \<and> \<not> d_has_more p)
   \<or> (\<exists>e p1. d_has_more p \<and> parse_step p = (Inl e, p1) \<and> q = to_end (rollback snap e p1)
        \<and> (out = Raised e \<and> is_fatal_error e \<or> out = Aborted \<and> is_rollback_only_error e))"

lemma parse_loop_ends:
  assumes "parse_loop snap p = Some (out, q)" and "P p"
    and ok: "\<And>p r p1. P p \<Longrightarrow> d_has_more p \<Longrightarrow> parse_step p = (Inr r, p1) \<Longrightarrow> P p1"
    and err: "\<And>p e p1. P p \<Longrightarrow> d_has_more p \<Longrightarrow> parse_step p = (Inl e, p1) \<Longrightarrow> P (skip_one p1)"
  shows "\<exists>p'. P p' \<and> loop_end snap p' out q"
proof -
  have "P p \<longrightarrow> (\<exists>p'. P p' \<and> loop_end snap p' (fst r) (snd r))" if "parse_loop snap p = Some r" for r
    using that
  proof (rule parse_loop.raw_induct
      [where P = "\<lambda>snap p r. P p \<longrightarrow> (\<exists>p'. P p' \<and> loop_end snap p' (fst r) (snd r))", rotated])
    fix loop snap p r
    assume IH: "\<And>snap p r. loop snap p = Some r \<Longrightarrow> P p \<longrightarrow> (\<exists>p'. P p' \<and> loop_end snap p' (fst r) (snd r))"
    assume body: "(if \<not> d_has_more p then Some (Completed, p)
      else (case parse_step p of
           (Inr _, p1) \<Rightarrow> loop snap p1
         | (Inl e, p1) \<Rightarrow>
             (if is_fatal_error e then Some (Raised e, to_end (rollback snap e p1))
              else if is_rollback_only_error e then Some (Aborted, to_end (rollback snap e p1))
              else loop snap (skip_one p1)))) = Some r"
    show "P p \<longrightarrow> (\<exists>p'. P p' \<and> loop_end snap p' (fst r) (snd r))"
    proof
      assume p: "P p"
      show "\<exists>p'. P p' \<and> loop_end snap p' (fst r) (snd r)"
      proof (cases "d_has_more p")
        case False
        with body p show ?thesis by (auto simp: loop_end_def)
      next
        case True
        obtain v p1 where step: "parse_step p = (v, p1)" by (cases "parse_step p")
        show ?thesis
        proof (cases v)
          case (Inr a)
          with body True step have "loop snap p1 = Some r" by simp
          from IH [OF this] ok [OF p True step [unfolded Inr]] show ?thesis by (rule mp)
        next
          case (Inl e)
          show ?thesis
          proof (cases "is_fatal_error e \<or> is_rollback_only_error e")
            case False
            then have "loop snap (skip_one p1) = Some r" using body True step Inl by simp
            from IH [OF this] err [OF p True step [unfolded Inl]] show ?thesis by (rule mp)
          next
            case stop: True
            define o' where "o' = (if is_fatal_error e then Raised e else Aborted)"
            have "r = (o', to_end (rollback snap e p1))"
              using body True step Inl stop by (auto simp: o'_def split: if_splits)
            moreover have "o' = Raised e \<and> is_fatal_error e \<or> o' = Aborted \<and> is_rollback_only_error e"
              using stop by (auto simp: o'_def)
            ultimately have "loop_end snap p (fst r) (snd r)"
              using True step Inl unfolding loop_end_def by auto
            with p show ?thesis by blast
          qed
        qed
      qed
    qed
  qed
  from this [OF assms(1)] assms(2) show ?thesis by simp
qed

section \<open>The screen stays well formed\<close>

context screen_safe
begin

definition snap_ok :: "snapshot option \<Rightarrow> bool" where
  "snap_ok snap \<longleftrightarrow> (\<forall>sn. snap = Some sn \<longrightarrow> (\<exists>s0. I s0 \<and> sn = snapshot_screen s0))"

lemma keep_rollback: "I (d_screen p) \<Longrightarrow> snap_ok snap \<Longrightarrow> I (d_screen (rollback snap e p))"
  using keep_restore by (auto simp: rollback_def snap_ok_def split: option.split parse_error.split)

lemma keep_parse_loop:
  assumes "parse_loop snap p = Some (out, q)" and "I (d_screen p)" and "snap_ok snap"
  shows "I (d_screen q)"
proof -
  have skip: "I (d_screen p) \<Longrightarrow> I (d_screen (skip_one p))" for p
    by (simp add: skip_one_def Let_def)
  from parse_loop_ends [OF assms(1), of "\<lambda>p. I (d_screen p)"] assms(2) keepsD [OF keeps_parse_step] skip
  obtain p' where "I (d_screen p')" and e: "loop_end snap p' out q" by metis
  moreover have "I (d_screen p1)" if "parse_step p' = (r, p1)" for r p1
    using keepsD [OF keeps_parse_step] \<open>I (d_screen p')\<close> that by blast
  ultimately show ?thesis
    using keep_rollback assms(3) by (auto simp: loop_end_def to_end_def)
qed

lemma keep_outer_except:
  "I (d_screen p) \<Longrightarrow> snap_ok snap \<Longrightarrow> I (d_screen (snd (outer_except snap e p)))"
  using keep_rollback [of p snap e] by (simp add: outer_except_def Let_def to_end_def)

lemma keep_run_after_wcc:
  assumes "run_after_wcc snap w p = Some (r, q)" and "I (d_screen p)" and "snap_ok snap"
  shows "I (d_screen q)"
proof -
  let ?p = "snd (dbind (handle_wcc_with_byte w) (\<lambda>_. sync_pos) p)"
  have "keeps I (dbind (handle_wcc_with_byte w) (\<lambda>_. sync_pos))"
    by (intro keep_rules keeps_wcc)
  with assms(2) have p: "I (d_screen ?p)" by (simp add: keeps_def)
  from assms(1) obtain out q1 where l: "parse_loop snap ?p = Some (out, q1)"
    and q: "(r, q) = after_loop snap (out, q1)"
    by (auto simp: run_after_wcc_def run_orders_def)
  have "I (d_screen q1)" using keep_parse_loop [OF l p assms(3)] .
  with q keep_outer_except [OF _ assms(3)] show ?thesis
    by (auto simp: after_loop_def split: outcome.splits if_splits) (metis snd_conv)
qed

lemma keep_parse_body:
  assumes "parse_body p = Some (r, q)" and "I (d_screen p)"
  shows "I (d_screen q)"
proof (cases "raw_read p")
  case (Pair v p1)
  have p1: "I (d_screen p1)" using keepsD [where I = I, OF keeps_reads(1) assms(2) Pair] .
  let ?p2 = "p1\<lparr>d_screen := handle_write True (pdata p1) (d_screen p1)\<rparr>"
  have p2: "I (d_screen ?p2)" using p1 by (simp add: keep_handle_write)
  obtain v3 p3 where p3: "raw_read ?p2 = (v3, p3)" by (cases "raw_read ?p2")
  have "I (d_screen p3)" using keepsD [where I = I, OF keeps_reads(1) p2 p3] .
  moreover have "snap_ok (Some (snapshot_screen (d_screen p1)))" "snap_ok None"
    using p1 by (auto simp: snap_ok_def)
  ultimately show ?thesis
    using assms(1) Pair p1 p3 keep_run_after_wcc keep_outer_except
    by (auto simp: parse_body_def Let_def split: sum.splits if_splits) (metis snd_conv)+
qed

lemma keep_parse:
  assumes "parse data t p = Some (r, q)" and "I (d_screen p)"
  shows "I (d_screen q)"
proof -
  let ?p0 = "p\<lparr>pdata := data, ppos := 0, dpos := 0\<rparr>"
  have tn: "I (d_screen q)" if "parse_tn3270 ?p0 = Some (r, q)" for r q
  proof -
    note tn = that
    let ?s = "set_position 0 0 (set_ascii_mode False (d_screen p))"
    have s: "I ?s" "I (begin_bulk_update ?s)"
      using assms(2) keep_ascii [of "d_screen p" False] keep_position keep_bulk
      by (simp_all add: set_ascii_mode_def)
    let ?p1 = "?p0\<lparr>wcc := None, aid := None,
        d_screen := (if length data > 4096 then begin_bulk_update ?s else ?s)\<rparr>"
    obtain r1 q1 where b: "parse_body ?p1 = Some (r1, q1)"
      and q: "(r, q) = end_bulk (length data > 4096) (r1, q1)"
      using tn by (auto simp: parse_tn3270_def Let_def simp del: if_split)
    have "I (d_screen q1)" using keep_parse_body [OF b] s by simp
    with q keep_bulk show ?thesis by (auto simp: end_bulk_def split: if_splits)
  qed
  show ?thesis
    using assms tn keep_nvt [of "d_screen p" data]
    by (auto simp: parse_def Let_def emit_def handle_bind_sf_def handle_sna_response_sf_def
        handle_request_def split: if_splits list.splits)
qed

end

text \<open>
  C1. Parsing keeps the screen well formed: whatever bytes arrive, with whatever data type and in
  whatever state the parser is, the screen of a parser that had a well-formed one is well formed
  afterwards and has the same dimensions.
\<close>

theorem parse_keeps_well_formed:
  assumes "parse data t p = Some (r, q)" and "wf_screen (d_screen p)"
  shows "wf_screen (d_screen q) \<and> rows (d_screen q) = rows (d_screen p)
       \<and> cols (d_screen q) = cols (d_screen p)"
  using wf.keep_parse [OF assms(1), of "rows (d_screen p)" "cols (d_screen p)"] assms(2) by simp

definition demo_parser :: dsp where
  "demo_parser = DataStreamParser_init demo_screen False True MODE_12_BIT"

lemma demo_parser_screen [simp]: "d_screen demo_parser = demo_screen"
  by (simp add: demo_parser_def DataStreamParser_init_def)

theorem parse_keeps_well_formed_witness:
  "\<exists>r q. parse [0xF5, 0xC3, 0x3C, 0x7F, 0x7F, 0x5C, 0x1D, 0x60] 0 demo_parser = Some (r, q)
     \<and> wf_screen (d_screen q)"
proof -
  obtain r q where "parse [0xF5, 0xC3, 0x3C, 0x7F, 0x7F, 0x5C, 0x1D, 0x60] 0 demo_parser = Some (r, q)"
    using parse_total [of "[0xF5, 0xC3, 0x3C, 0x7F, 0x7F, 0x5C, 0x1D, 0x60]" 0 demo_parser] by auto
  with parse_keeps_well_formed [OF this] wf_demo show ?thesis by auto
qed

section \<open>Rollback and errors\<close>

lemma rollback_error: "is_fatal_error e \<or> is_rollback_only_error e \<Longrightarrow>
    d_screen (rollback (Some sn) e p) = restore_screen sn (d_screen p)"
  by (auto simp: is_fatal_error_def is_rollback_only_error_def rollback_def)

lemma restore_typed:
  assumes "\<forall>(k, a) \<in> set (extended_attributes s). aset_typed a"
  shows "extended_attributes (restore_screen (snapshot_screen s) t) = extended_attributes s"
proof -
  have "(k, restore_attrs (snapshot_attrs a)) = (k, a)" if "(k, a) \<in> set (extended_attributes s)" for k a
  proof -
    have "aset_typed a" using assms that by auto
    then show ?thesis using aset_from_dict_typed [of "[]" a]
      by (simp add: snapshot_attrs_def restore_attrs_def aset_to_dict_typed)
  qed
  then show ?thesis
    by (simp add: restore_screen_def snapshot_screen_def) (rule map_idI, auto)
qed

text \<open>
  C6. Incomplete orders roll the write back: when the loop of a write stops at an incomplete
  SA, SBA or EUA order, whatever the orders before it did, buffer, attributes, field marks,
  cursor, mode and light-pen position are those of the snapshot, all data counts as read, and the
  extended attributes are restored too when every set of them is typed.
\<close>

theorem rollback_restores:
  assumes "wf_screen s" and "parse_loop (Some (snapshot_screen s)) p = Some (out, q)"
    and "out \<noteq> Completed"
  shows "buffer (d_screen q) = buffer s \<and> attributes (d_screen q) = attributes s
       \<and> field_starts (d_screen q) = field_starts s
       \<and> get_position (d_screen q) = get_position s \<and> ascii_mode (d_screen q) = ascii_mode s
       \<and> light_pen_pos (d_screen q) = light_pen_pos s
       \<and> ppos q = length (pdata q) \<and> dpos q = length (pdata q)
       \<and> ((\<forall>(k, a) \<in> set (extended_attributes s). aset_typed a)
            \<longrightarrow> extended_attributes (d_screen q) = extended_attributes s)"
proof -
  from parse_loop_ends [OF assms(2), of "\<lambda>_. True"] assms(3)
  obtain e p1 where q: "q = to_end (rollback (Some (snapshot_screen s)) e p1)"
    and e: "is_fatal_error e \<or> is_rollback_only_error e"
    by (auto simp: loop_end_def)
  then have scr: "d_screen q = restore_screen (snapshot_screen s) (d_screen p1)"
    by (simp add: to_end_def rollback_error)
  have "0 < ssize s" using assms(1) by (simp add: wf_screen_def wf_dims_def)
  moreover have "length (buffer s) = nat (ssize s)" "length (attributes s) = nat (ssize s * 3)"
    using assms(1) by (simp_all add: wf_screen_def wf_dims_def)
  ultimately have "buffer s \<noteq> []" "attributes s \<noteq> []" by auto
  moreover have "pdata (rollback (Some (snapshot_screen s)) e p1) = pdata p1"
    by (simp add: rollback_def split: parse_error.split)
  ultimately show ?thesis
    using q restore_typed [of s "d_screen p1"] unfolding scr
    by (simp add: to_end_def) (simp add: restore_screen_def snapshot_screen_def get_position_def)
qed

theorem rollback_restores_witness:
  "\<exists>q. parse_loop (Some (snapshot_screen demo_screen))
         (demo_parser\<lparr>pdata := [0xC1, 0x1D, 0x60, 0x11, 0x40]\<rparr>) = Some (Aborted, q)
     \<and> buffer (d_screen q) = buffer demo_screen \<and> ppos q = 5"
proof -
  let ?p = "demo_parser\<lparr>pdata := [0xC1, 0x1D, 0x60, 0x11, 0x40]\<rparr>"
  have "map_option fst (parse_loop (Some (snapshot_screen demo_screen)) ?p) = Some Aborted"
    by code_simp
  then obtain q where q: "parse_loop (Some (snapshot_screen demo_screen)) ?p = Some (Aborted, q)"
    by auto
  have "map_option (\<lambda>r. ppos (snd r)) (parse_loop (Some (snapshot_screen demo_screen)) ?p) = Some 5"
    by code_simp
  with q rollback_restores [OF wf_demo q] show ?thesis by simp
qed

lemma run_after_wcc_no_raise:
  assumes "run_after_wcc snap w p = Some (r, q)"
  shows "r = Inr ()"
proof -
  from assms obtain p0 out q1 where l: "parse_loop snap p0 = Some (out, q1)"
    and q: "(r, q) = after_loop snap (out, q1)"
    by (auto simp: run_after_wcc_def run_orders_def)
  from parse_loop_ends [OF l, of "\<lambda>_. True"] benign_parse_step have "\<forall>e. out \<noteq> Raised e"
    by (auto simp: loop_end_def benign_def)
  with q show ?thesis by (cases out) (auto simp: after_loop_def)
qed

lemma parse_raises:
  "(\<exists>q. parse data 0 p = Some (Inl e, q))
     \<longleftrightarrow> e = Incomplete_order ''WCC'' \<and> (\<exists>c \<in> set erase_write_commands. data = [c])"
proof -
  have run: "run_after_wcc snap w p1 \<noteq> Some (Inl e, q)" for snap w p1 q
    using run_after_wcc_no_raise [of snap w p1 "Inl e" q] by auto
  have disj: "c \<notin> set write_commands" if "c \<in> set erase_write_commands" for c
    using that by (auto simp: write_commands_def erase_write_commands_def)
  have body: "(\<exists>q. parse_body p1 = Some (Inl e, q))
      \<longleftrightarrow> e = Incomplete_order ''WCC'' \<and> (\<exists>c \<in> set erase_write_commands. data = [c])"
    if "pdata p1 = data" "ppos p1 = 0" for p1
  proof (cases data)
    case Nil
    with that show ?thesis by (simp add: parse_body_def raw_read_def d_has_more_def)
  next
    case (Cons c cs)
    let ?p2 = "p1\<lparr>ppos := 1\<rparr>"
    have r: "raw_read p1 = (Inr c, ?p2)" using that Cons by (simp add: raw_read_def d_has_more_def)
    show ?thesis
    proof (cases cs)
      case Nil
      have f: "raw_read (?p2\<lparr>d_screen := s\<rparr>) = (Inl Unexpected_end, ?p2\<lparr>d_screen := s\<rparr>)" for s
        using that Cons Nil by (simp add: raw_read_def d_has_more_def)
      show ?thesis
        using r f run disj Cons Nil
        by (auto simp: parse_body_def Let_def outer_except_def is_critical_error_def)
    next
      case (Cons d ds)
      have "raw_read (?p2\<lparr>d_screen := s\<rparr>) = (Inr d, ?p2\<lparr>ppos := 2, d_screen := s\<rparr>)" for s
        using that \<open>data = c # cs\<close> Cons by (simp add: raw_read_def d_has_more_def)
      with r run \<open>data = c # cs\<close> Cons show ?thesis
        by (simp add: parse_body_def Let_def)
    qed
  qed
  have "(\<exists>q. parse data 0 p = Some (Inl e, q)) \<longleftrightarrow> (\<exists>q. parse_body (p\<lparr>pdata := data, ppos := 0, dpos := 0,
      wcc := None, aid := None, d_screen := (let s = set_position 0 0 (set_ascii_mode False (d_screen p))
        in if length data > 4096 then begin_bulk_update s else s)\<rparr>) = Some (Inl e, q))"
    by (force simp: parse_def parse_tn3270_def Let_def end_bulk_def map_option_case split: option.splits)
  also have "\<dots> \<longleftrightarrow> e = Incomplete_order ''WCC'' \<and> (\<exists>c \<in> set erase_write_commands. data = [c])"
    by (rule body) simp_all
  finally show ?thesis .
qed

text \<open>
  C7. When parsing raises: a 3270 record makes \<open>parse\<close> raise exactly when it is a lone
  erase-write command without its control character, and the error is the incomplete WCC. No
  order, however malformed, lets an exception out.
\<close>

theorem parse_raises_iff:
  "(\<exists>q. parse data 0 p = Some (Inl e, q))
     \<longleftrightarrow> e = Incomplete_order ''WCC'' \<and> (\<exists>c \<in> set erase_write_commands. data = [c])"
  by (rule parse_raises)

theorem parse_raises_iff_witness:
  "\<exists>q. parse [0xF5] 0 demo_parser = Some (Inl (Incomplete_order ''WCC''), q)"
  using parse_raises_iff [of "[0xF5]" demo_parser "Incomplete_order ''WCC''"]
  by (simp add: erase_write_commands_def)

end
