(* ===== verification/OrderProps.thy ===== *)
theory OrderProps
  imports ParseProps
begin

text \<open>
  The effect of text and of the single orders on the screen: plain text from end to end, the
  address orders, fields, repeats and erasures, and the places where the handlers depart from
  their documentation or from what the stream means.
\<close>

section \<open>Text\<close>

lemma put_data_frame [simp]:
  "field_starts (put_data b s) = field_starts s" "attributes (put_data b s) = attributes s"
  "extended_attributes (put_data b s) = extended_attributes s" "sfields (put_data b s) = sfields s"
  "ssize (put_data b s) = ssize s" "kbd_locked (put_data b s) = kbd_locked s"
  "ascii_mode (put_data b s) = ascii_mode s" "suspend_detection (put_data b s) = suspend_detection s"
  by (simp_all add: put_data_def Let_def set_position_def split: prod.split)

lemma buffer_put_data:
  "buffer (put_data b s) = (buffer s)[nat (linear s (get_position s)) := b]"
  by (simp add: put_data_def Let_def linear_def get_position_def set_position_def)

lemma cursor_linear:
  assumes "wf_screen s"
  shows "0 \<le> linear s (get_position s)" and "linear s (get_position s) < ssize s"
    and "get_position s = calculate_coords s (linear s (get_position s))"
proof -
  have o: "on_screen s (get_position s)" using assms by (simp add: wf_screen_def get_position_def)
  then show "0 \<le> linear s (get_position s)" "linear s (get_position s) < ssize s"
    using on_screen_linear [OF wf_dimsD [OF assms]] by blast+
  show "get_position s = calculate_coords s (linear s (get_position s))"
    using o by (simp add: calculate_coords_def linear_def on_screen_def linear_div_mod prod_eq_iff)
qed

text \<open>Before the last position a byte moves the cursor to the next position.\<close>

lemma cursor_put_data:
  assumes "wf_screen s" and "linear s (get_position s) + 1 < ssize s"
  shows "linear s (get_position (put_data b s)) = linear s (get_position s) + 1"
proof -
  let ?r = "cursor_row s" and ?c = "cursor_col s"
  have d: "0 < rows s" "0 < cols s" "ssize s = rows s * cols s"
    using assms(1) by (simp_all add: wf_screen_def wf_dims_def)
  have rc: "0 \<le> ?r" "?r < rows s" "0 \<le> ?c" "?c < cols s"
    using assms(1) by (simp_all add: wf_screen_def on_screen_def)
  show ?thesis
  proof (cases "?c + 1 \<ge> cols s")
    case True
    then have c: "?c + 1 = cols s" using rc by simp
    have "?r + 1 < rows s"
    proof (rule ccontr)
      assume "\<not> ?r + 1 < rows s"
      then have "?r + 1 = rows s" using rc by simp
      then have "(?r + 1) * cols s = ssize s" using d by simp
      with assms(2) c show False by (simp add: linear_def get_position_def algebra_simps)
    qed
    with True c rc d show ?thesis
      by (simp add: put_data_def Let_def get_position_def set_position_def linear_def algebra_simps)
  next
    case False
    with rc d show ?thesis
      by (simp add: put_data_def Let_def get_position_def set_position_def linear_def)
  qed
qed

definition put_text :: "bytes \<Rightarrow> screen \<Rightarrow> screen" where
  "put_text bs s = foldl (\<lambda>s b. put_data b s) s bs"

lemma put_text_frame [simp]:
  "field_starts (put_text bs s) = field_starts s" "attributes (put_text bs s) = attributes s"
  "sfields (put_text bs s) = sfields s" "rows (put_text bs s) = rows s" "cols (put_text bs s) = cols s"
  "ssize (put_text bs s) = ssize s" "kbd_locked (put_text bs s) = kbd_locked s"
  "extended_attributes (put_text bs s) = extended_attributes s"
  by (induction bs arbitrary: s) (simp_all add: put_text_def)

lemma linear_put [simp]: "linear (put_data b s) = linear s" "linear (put_text bs s) = linear s"
  by (intro ext; simp add: linear_def)+

lemma wf_put_text: "wf_screen s \<Longrightarrow> wf_screen (put_text bs s)"
  by (induction bs arbitrary: s) (simp_all add: put_text_def wf_put_data)

lemma put_text_effect:
  assumes "wf_screen s" and "linear s (get_position s) + int (length bs) < ssize s"
  shows "buffer (put_text bs s) = take (nat (linear s (get_position s))) (buffer s) @ bs
           @ drop (nat (linear s (get_position s)) + length bs) (buffer s)
       \<and> linear s (get_position (put_text bs s)) = linear s (get_position s) + int (length bs)"
  using assms
proof (induction bs arbitrary: s)
  case Nil
  then show ?case by (simp add: put_text_def)
next
  case (Cons b bs)
  let ?k = "linear s (get_position s)"
  have k: "0 \<le> ?k" "?k < ssize s" using cursor_linear Cons.prems(1) by blast+
  have len: "length (buffer s) = nat (ssize s)" using Cons.prems(1) by (simp add: wf_screen_def wf_dims_def)
  have k1: "linear s (get_position (put_data b s)) = ?k + 1"
    using Cons.prems by (intro cursor_put_data) simp_all
  have IH: "buffer (put_text bs (put_data b s)) = take (nat (?k + 1)) (buffer (put_data b s)) @ bs
           @ drop (nat (?k + 1) + length bs) (buffer (put_data b s))
       \<and> linear s (get_position (put_text bs (put_data b s))) = ?k + 1 + int (length bs)"
    using Cons.IH [of "put_data b s"] Cons.prems k1 by (simp add: wf_put_data)
  have "take (nat (?k + 1)) ((buffer s)[nat ?k := b]) = take (nat ?k) (buffer s) @ [b]"
    using k len by (simp add: nat_add_distrib take_Suc_conv_app_nth)
  moreover have "drop (nat (?k + 1) + length bs) ((buffer s)[nat ?k := b])
      = drop (nat ?k + Suc (length bs)) (buffer s)"
    using k by (simp add: nat_add_distrib)
  ultimately show ?case using IH by (simp add: put_text_def buffer_put_data)
qed

text \<open>
  Bytes that are text to the parser: a space, or a byte that is neither null nor 0x01 nor an order.
\<close>

definition text_byte :: "byte \<Rightarrow> bool" where
  "text_byte b \<longleftrightarrow> b = 0x40 \<or> (b \<noteq> 0 \<and> b \<noteq> 1 \<and> order_handler b = None)"

lemma insert_data_ok:
  assumes "wf_screen (d_screen p)" and "b \<noteq> 0"
  shows "insert_data b p = (Inr (), p\<lparr>d_screen := put_data b (d_screen p)\<rparr>)"
proof -
  let ?s = "d_screen p"
  have "on_screen ?s (get_position ?s)" using assms(1) by (simp add: wf_screen_def get_position_def)
  moreover have "linear ?s (get_position ?s) < ssize ?s" using cursor_linear assms(1) by blast
  moreover have "ssize ?s = rows ?s * cols ?s" using assms(1) by (simp add: wf_screen_def wf_dims_def)
  ultimately show ?thesis using assms(2)
    by (simp add: insert_data_def Let_def get_position_def on_screen_def linear_def)
qed

lemma parse_step_text:
  assumes "wf_screen (d_screen p)" and "drop (ppos p) (pdata p) = b # bs" and "text_byte b"
    and "bs = [] \<or> hd bs \<noteq> 0x01"
  shows "parse_step p = (Inr (), p\<lparr>ppos := ppos p + 1, dpos := ppos p + 1,
           d_screen := put_data b (d_screen p)\<rparr>)"
proof -
  let ?p = "p\<lparr>ppos := ppos p + 1\<rparr>"
  have lt: "ppos p < length (pdata p)" using assms(2) by (metis drop_all list.distinct(1) not_le)
  then have b: "pdata p ! ppos p = b" and bs: "drop (ppos p + 1) (pdata p) = bs"
    using assms(2) by (metis Cons_nth_drop_Suc list.inject, metis Cons_nth_drop_Suc Suc_eq_plus1 list.inject)
  have read: "raw_read p = (Inr b, ?p)" using lt b by (simp add: raw_read_def d_has_more_def)
  have ins: "insert_data x ?p = (Inr (), ?p\<lparr>d_screen := put_data x (d_screen p)\<rparr>)" if "x \<noteq> 0" for x
    using insert_data_ok [of ?p x] assms(1) that by simp
  show ?thesis
  proof (cases "b = 0x40")
    case True
    have "handle_data_stream_ctl_order ?p = insert_data 0x40 ?p"
    proof (cases bs)
      case Nil
      with bs have "\<not> d_has_more ?p" by (simp add: d_has_more_def)
      then show ?thesis by (simp add: handle_data_stream_ctl_order_def dget_def)
    next
      case (Cons x xs)
      with bs have "pdata p ! (ppos p + 1) = x" "ppos p + 1 < length (pdata p)"
        by (metis Cons_nth_drop_Suc drop_all list.distinct(1) list.inject not_le,
            metis drop_all list.distinct(1) not_le)
      moreover have "x \<noteq> 1" using assms(4) Cons by simp
      ultimately show ?thesis by (simp add: handle_data_stream_ctl_order_def dget_def d_has_more_def)
    qed
    moreover have "order_handler 0x40 = Some handle_data_stream_ctl_order"
      by (simp add: order_handler_def)
    ultimately show ?thesis
      using read True ins [of "0x40"] by (simp add: parse_step_def dbind_def sync_pos_def)
  next
    case False
    then have "order_handler b = None" "b \<noteq> 0" using assms(3) by (simp_all add: text_byte_def)
    with read ins [of b] show ?thesis by (simp add: parse_step_def dbind_def sync_pos_def)
  qed
qed

lemma parse_loop_step: "d_has_more p \<Longrightarrow> parse_step p = (Inr x, q) \<Longrightarrow> parse_loop snap p = parse_loop snap q"
  by (subst parse_loop.simps) simp

lemma parse_loop_end: "ppos p = length (pdata p) \<Longrightarrow> parse_loop snap p = Some (Completed, p)"
  by (subst parse_loop.simps) (simp add: d_has_more_def)

text \<open>Text in front of anything that does not begin with the code that a blank looks for.\<close>

lemma parse_loop_text_prefix:
  assumes "wf_screen (d_screen p)" and "drop (ppos p) (pdata p) = bs @ behind" and "\<forall>x \<in> set bs. text_byte x"
    and "behind = [] \<or> hd behind \<noteq> 0x01"
  shows "\<exists>d. (bs = [] \<longrightarrow> d = dpos p) \<and> (bs \<noteq> [] \<longrightarrow> d = ppos p + length bs)
    \<and> parse_loop snap p = parse_loop snap (p\<lparr>ppos := ppos p + length bs, dpos := d, d_screen := put_text bs (d_screen p)\<rparr>)"
  using assms(1-3)
proof (induction bs arbitrary: p)
  case Nil
  show ?case by (intro exI [of _ "dpos p"]) (simp add: put_text_def)
next
  case (Cons b bs)
  let ?p = "p\<lparr>ppos := ppos p + 1, dpos := ppos p + 1, d_screen := put_data b (d_screen p)\<rparr>"
  have more: "d_has_more p" using Cons.prems(2) by (auto simp: d_has_more_def intro: ccontr)
  have n: "bs @ behind = [] \<or> hd (bs @ behind) \<noteq> 0x01"
    using Cons.prems(3) assms(4) by (cases bs) (auto simp: text_byte_def)
  have step: "parse_step p = (Inr (), ?p)"
    using Cons.prems n by (intro parse_step_text [of p b "bs @ behind"]) simp_all
  have "drop (ppos ?p) (pdata ?p) = bs @ behind" using Cons.prems(2) by (simp add: drop_Suc flip: tl_drop)
  then obtain d where "bs \<noteq> [] \<longrightarrow> d = ppos ?p + length bs" "bs = [] \<longrightarrow> d = dpos ?p" "parse_loop snap ?p
      = parse_loop snap (?p\<lparr>ppos := ppos ?p + length bs, dpos := d, d_screen := put_text bs (d_screen ?p)\<rparr>)"
    using Cons.IH [of ?p] Cons.prems by (auto simp: wf_put_data)
  then show ?case
    using parse_loop_step [OF more step, of snap] by (intro exI [of _ d]) (cases bs, auto simp: put_text_def)
qed

lemma parse_loop_text:
  assumes "wf_screen (d_screen p)" and "drop (ppos p) (pdata p) = bs" and "\<forall>x \<in> set bs. text_byte x"
    and "ppos p \<le> length (pdata p)"
  shows "\<exists>d. parse_loop snap p = Some (Completed, p\<lparr>ppos := length (pdata p), dpos := d,
           d_screen := put_text bs (d_screen p)\<rparr>)"
proof -
  have "ppos p + length bs = length (pdata p)" using assms(2,4) by auto
  then show ?thesis using parse_loop_text_prefix [of p bs "[]" snap] assms(1-3) by (auto simp: parse_loop_end)
qed

text \<open>The screen of a write before its orders: cleared, the control character applied.\<close>

definition fresh_write :: "byte \<Rightarrow> bool \<Rightarrow> screen \<Rightarrow> screen" where
  "fresh_write w bulk s =
     (let s1 = set_position 0 0 (set_ascii_mode False s);
          s2 = set_position 0 0 (clear (if bulk then begin_bulk_update s1 else s1));
          s3 = (if w AND 0x40 \<noteq> 0 then set_keyboard_lock False s2 else s2)
      in set_position 0 0 s3)"

lemma fresh_write_facts:
  "buffer (fresh_write w bulk s) = replicate (nat (ssize s)) 0x40"
  "field_starts (fresh_write w bulk s) = {}" "ssize (fresh_write w bulk s) = ssize s"
  "rows (fresh_write w bulk s) = rows s" "cols (fresh_write w bulk s) = cols s"
  "kbd_locked (fresh_write w bulk s) = (if w AND 0x40 \<noteq> 0 then False else kbd_locked s)"
  by (simp_all add: fresh_write_def Let_def set_position_def clear_def set_ascii_mode_def
      begin_bulk_update_def set_keyboard_lock_def detect_fields_def)

lemma wf_fresh_write: "wf_screen s \<Longrightarrow> wf_screen (fresh_write w bulk s)"
  by (simp add: fresh_write_def Let_def wf_rules)

lemma fresh_write_cursor: "wf_screen s \<Longrightarrow> get_position (fresh_write w bulk s) = (0, 0)"
  by (simp add: fresh_write_def Let_def set_position_def get_position_def wf_screen_def wf_dims_def
      clear_def set_ascii_mode_def begin_bulk_update_def set_keyboard_lock_def detect_fields_def)

lemma parse_write:
  assumes "c \<in> set write_commands \<or> c \<in> set erase_write_commands"
    and "bulk = (length (c # w # orders) > 4096)"
    and "p0 = p\<lparr>pdata := c # w # orders, aid := None, ppos := 2, wcc := Some w,
                d_screen := fresh_write w bulk (d_screen p), dpos := 2\<rparr>"
  shows "\<exists>sn. parse (c # w # orders) 0 p = map_option (end_bulk bulk) (run_orders (Some sn) p0)"
proof -
  have c: "c \<noteq> 0x40" using assms(1) by (auto simp: write_commands_def erase_write_commands_def)
  have r1: "raw_read q = (Inr c, q\<lparr>ppos := 1\<rparr>)" if "pdata q = c # w # orders" "ppos q = 0" for q :: dsp
    using that by (simp add: raw_read_def d_has_more_def)
  have r2: "raw_read q = (Inr w, q\<lparr>ppos := 2\<rparr>)" if "pdata q = c # w # orders" "ppos q = 1" for q :: dsp
    using that by (simp add: raw_read_def d_has_more_def)
  show ?thesis
    using assms(1)
    by (simp add: parse_def parse_tn3270_def Let_def parse_body_def r1 r2 c handle_write_def
        run_after_wcc_def dbind_def handle_wcc_with_byte_def sync_pos_def reset_mdt_flags_def
        assms(2,3) fresh_write_def)
      blast
qed

lemma detect_no_fields: "field_starts s = {} \<Longrightarrow>
    detect_fields s = s\<lparr>pos_cache := Map.empty, input_cache := [], sfields := []\<rparr>"
  by (simp add: detect_fields_def Let_def)

lemma end_bulk_no_fields:
  assumes "field_starts (d_screen (snd r)) = {}"
  shows "fst (end_bulk b r) = fst r \<and> buffer (d_screen (snd (end_bulk b r))) = buffer (d_screen (snd r))
    \<and> get_position (d_screen (snd (end_bulk b r))) = get_position (d_screen (snd r))
    \<and> field_starts (d_screen (snd (end_bulk b r))) = {} \<and> wcc (snd (end_bulk b r)) = wcc (snd r)
    \<and> kbd_locked (d_screen (snd (end_bulk b r))) = kbd_locked (d_screen (snd r))
    \<and> cols (d_screen (snd (end_bulk b r))) = cols (d_screen (snd r))"
  using assms by (simp add: end_bulk_def end_bulk_update_def Let_def detect_no_fields get_position_def)

lemma plain_write:
  assumes "wf_screen (d_screen p)"
    and "c \<in> set write_commands \<or> c \<in> set erase_write_commands"
    and "\<forall>b \<in> set str. text_byte b" and "int (length str) < ssize (d_screen p)"
  shows "\<exists>q. parse (c # w # str) 0 p = Some (Inr (), q)
       \<and> buffer (d_screen q) = str @ replicate (nat (ssize (d_screen p)) - length str) 0x40
       \<and> get_position (d_screen q) = calculate_coords (d_screen p) (int (length str))
       \<and> field_starts (d_screen q) = {} \<and> wcc q = Some w
       \<and> kbd_locked (d_screen q) = (if w AND 0x40 \<noteq> 0 then False else kbd_locked (d_screen p))"
proof -
  let ?bulk = "length (c # w # str) > 4096" and ?f = "fresh_write w (length (c # w # str) > 4096) (d_screen p)"
  let ?p0 = "p\<lparr>pdata := c # w # str, aid := None, ppos := 2, wcc := Some w, d_screen := ?f, dpos := 2\<rparr>"
  have wf: "wf_screen ?f" using assms(1) by (rule wf_fresh_write)
  have at: "linear ?f (get_position ?f) = 0" using fresh_write_cursor [OF assms(1)] by (simp add: linear_def)
  obtain sn where parse: "parse (c # w # str) 0 p = map_option (end_bulk ?bulk) (run_orders (Some sn) ?p0)"
    using parse_write [OF assms(2) refl refl] by blast
  obtain d where loop: "parse_loop (Some sn) ?p0 = Some (Completed, ?p0\<lparr>ppos := length (pdata ?p0), dpos := d,
      d_screen := put_text str ?f\<rparr>)"
    using parse_loop_text [of ?p0 str "Some sn"] wf assms(3) by auto
  let ?t = "put_text str ?f"
  have eff: "buffer ?t = str @ drop (length str) (buffer ?f) \<and> linear ?t (get_position ?t) = int (length str)"
    using put_text_effect [OF wf, of str] at assms(4) by (simp add: fresh_write_facts)
  have "get_position ?t = calculate_coords ?t (linear ?t (get_position ?t))"
    by (rule cursor_linear(3)) (rule wf_put_text [OF wf])
  then have pos: "get_position ?t = calculate_coords (d_screen p) (int (length str))"
    using eff by (simp add: calculate_coords_def fresh_write_facts)
  obtain q1 where q1: "run_orders (Some sn) ?p0 = Some (Inr (), q1)" "d_screen q1 = ?t" "wcc q1 = Some w"
    using loop by (simp add: run_orders_def after_loop_def)
  have "field_starts (d_screen (snd (Inr () :: parse_error + unit, q1))) = {}"
    using q1 by (simp add: fresh_write_facts)
  from end_bulk_no_fields [OF this, of ?bulk] show ?thesis
    using parse q1 eff pos by (cases "end_bulk ?bulk (Inr (), q1)") (auto simp: fresh_write_facts)
qed

text \<open>
  A write of plain text, from the bytes of the record to the screen: after a write or
  erase/write command with any control character, a text shorter than the screen stands at its
  top, the rest of the screen is blank, no field is left, the cursor stands behind the text, and
  the keyboard is unlocked exactly when the control character says so.
\<close>

lemma write_plain_text:
  assumes "wf_screen (d_screen p)"
    and "c \<in> set write_commands \<or> c \<in> set erase_write_commands"
    and "\<forall>b \<in> set str. text_byte b" and "int (length str) < ssize (d_screen p)"
  shows "\<exists>q. parse (c # w # str) 0 p = Some (Inr (), q)
       \<and> buffer (d_screen q) = str @ replicate (nat (ssize (d_screen p)) - length str) 0x40
       \<and> get_position (d_screen q) = calculate_coords (d_screen p) (int (length str))
       \<and> field_starts (d_screen q) = {} \<and> wcc q = Some w
       \<and> kbd_locked (d_screen q) = (if w AND 0x40 \<noteq> 0 then False else kbd_locked (d_screen p))"
  using assms by (rule plain_write)

end
