(* ===== verification/OrderEffects.thy ===== *)
theory OrderEffects
  imports OrderProps
begin

text \<open>
  The effect of the single orders on the screen, each on every branch: buffer addresses, field
  starts, repeat to address, erase unprotected to address, modify field, and the two codes whose
  handling loses data of the stream.
\<close>

section \<open>Reading operands\<close>

text \<open>The parser stands before at least \<open>n\<close> bytes.\<close>

definition ready :: "nat \<Rightarrow> dsp \<Rightarrow> bool" where
  "ready n p \<longleftrightarrow> dpos p \<le> ppos p \<and> ppos p + n \<le> length (pdata p)"

lemma ready_less: "ready n p \<Longrightarrow> m \<le> n \<Longrightarrow> ready m p"
  by (simp add: ready_def)

lemma ready_remaining: "pos_ok p \<Longrightarrow> int n \<le> d_remaining p \<longleftrightarrow> ready n p"
  by (auto simp: ready_def pos_ok_def d_remaining_def)

lemma min_data_ready: "ready n p \<Longrightarrow> k \<le> int n \<Longrightarrow> validate_min_data op k p = (Inr (), p)"
  by (auto simp: validate_min_data_def ready_def d_remaining_def)

lemma ds_read_ready:
  "ready (Suc n) p \<Longrightarrow> ds_read p = (Inr (pdata p ! ppos p), p\<lparr>ppos := ppos p + 1, dpos := ppos p + 1\<rparr>)"
  by (simp add: ready_def ds_read_def)

lemma ready_next: "ready (Suc n) p \<Longrightarrow> ready n (p\<lparr>ppos := ppos p + 1, dpos := ppos p + 1\<rparr>)"
  by (simp add: ready_def)

text \<open>The address the next two bytes stand for.\<close>

definition next_address :: "dsp \<Rightarrow> int" where
  "next_address p =
     clamp_address (addressing_mode p)
       (decode_address (addressing_mode p) (pdata p ! ppos p) (pdata p ! (ppos p + 1)))"

lemma read_address_ready:
  assumes "ready 2 p"
  shows "read_address p = (Inr (next_address p), p\<lparr>ppos := ppos p + 2, dpos := ppos p + 2\<rparr>)"
proof -
  have r: "ready (Suc (Suc 0)) p" using assms by (simp add: numeral_2_eq_2)
  from ds_read_ready [OF ready_next [OF r]] ds_read_ready [OF r] show ?thesis
    by (simp add: read_address_def dbind_def dget_def dret_def next_address_def)
qed

lemma next_address_bounds: "0 \<le> next_address p \<and> next_address p < get_max_positions (addressing_mode p)"
proof -
  have "0 \<le> decode_address (addressing_mode p) (pdata p ! ppos p) (pdata p ! (ppos p + 1))"
    using be16_range addr12_range by (simp add: decode_address_def)
  then show ?thesis
    by (auto simp: next_address_def clamp_address_def validate_address_iff get_max_positions_def)
qed

definition target_of :: "screen \<Rightarrow> int \<Rightarrow> int \<times> int" where
  "target_of s a = (min (a div cols s) (rows s - 1), a mod cols s)"

lemma target_coords_next:
  assumes "wf_screen s"
  shows "target_coords (addressing_mode p) s (next_address p) = Some (target_of s (next_address p))"
proof -
  have "0 < cols s" using assms by (simp add: wf_screen_def wf_dims_def)
  then have "next_address p mod cols s \<le> cols s - 1" using pos_mod_bound [of "cols s"] by fastforce
  then show ?thesis using next_address_bounds [of p]
    by (simp add: target_coords_def address_to_coords_def validate_address_iff target_of_def)
qed

lemma target_of_on_screen:
  assumes "wf_screen s" and "0 \<le> a"
  shows "on_screen s (target_of s a)"
  using assms by (simp add: target_of_def on_screen_def wf_screen_def wf_dims_def pos_imp_zdiv_nonneg_iff)

lemma target_of_linear:
  assumes "wf_screen s" and "0 \<le> a" and "a < ssize s"
  shows "linear s (target_of s a) = a"
proof -
  have d: "0 < cols s" "ssize s = rows s * cols s" using assms(1) by (simp_all add: wf_screen_def wf_dims_def)
  then have "a div cols s < rows s" using coords_bounds [of a "rows s" "cols s"] assms by simp
  then show ?thesis by (simp add: target_of_def linear_def)
qed

lemma set_position_on_screen: "on_screen s rc \<Longrightarrow> set_position (fst rc) (snd rc) s = cursor_to rc s"
  by (simp add: set_position_def cursor_to_def on_screen_def)

section \<open>Set Buffer Address\<close>

text \<open>
  Set Buffer Address: without two more bytes the order is incomplete and changes nothing;
  with them it moves the cursor and nothing else of the screen, both read positions stand behind
  the address, and an address on the screen (in its addressing mode) is where the cursor lands. An
  address past the end puts the cursor in the last row.
\<close>

lemma sba_moves_cursor:
  assumes "wf_screen (d_screen p)" and "pos_ok p" and "ssize (d_screen p) \<le> get_max_positions (addressing_mode p)"
  shows "if d_remaining p < 2 then handle_sba p = (Inl (Incomplete_order ''SBA''), p)
     else (let a = decode_address (addressing_mode p) (pdata p ! ppos p) (pdata p ! (ppos p + 1))
           in \<exists>rc. handle_sba p = (Inr (), p\<lparr>ppos := ppos p + 2, d_screen := cursor_to rc (d_screen p),
                                       dpos := ppos p + 2\<rparr>)
            \<and> on_screen (d_screen p) rc
            \<and> (a < ssize (d_screen p) \<longrightarrow> linear (d_screen p) rc = a)
            \<and> (a \<ge> ssize (d_screen p) \<longrightarrow> fst rc = rows (d_screen p) - 1))"
proof (cases "d_remaining p < 2")
  case True
  then show ?thesis by (simp add: handle_sba_def dbind_def validate_min_data_def)
next
  case False
  let ?s = "d_screen p" and ?a = "decode_address (addressing_mode p) (pdata p ! ppos p) (pdata p ! (ppos p + 1))"
  have r: "ready 2 p" using False ready_remaining [OF assms(2), of 2] by simp
  let ?rc = "target_of ?s (next_address p)"
  have on: "on_screen ?s ?rc" using target_of_on_screen [OF assms(1)] next_address_bounds by blast
  have h: "handle_sba p = (Inr (), p\<lparr>ppos := ppos p + 2, d_screen := cursor_to ?rc ?s, dpos := ppos p + 2\<rparr>)"
    using r target_coords_next [OF assms(1), of p] set_position_on_screen [OF on]
    by (simp add: handle_sba_def dbind_def min_data_ready read_address_ready dget_def on_scr_def
        sync_pos_def target_of_def)
  have a0: "0 \<le> ?a" using be16_range addr12_range by (simp add: decode_address_def)
  have d: "0 < cols ?s" "ssize ?s = rows ?s * cols ?s"
    using assms(1) by (simp_all add: wf_screen_def wf_dims_def)
  have inside: "linear ?s ?rc = ?a" if "?a < ssize ?s"
  proof -
    have "next_address p = ?a" using that a0 assms(3)
      by (simp add: next_address_def clamp_address_def validate_address_iff)
    with target_of_linear [OF assms(1) a0 that] show ?thesis by simp
  qed
  have outside: "fst ?rc = rows ?s - 1" if "?a \<ge> ssize ?s"
  proof -
    have "ssize ?s - 1 \<le> next_address p" using that assms(3)
      by (auto simp: next_address_def clamp_address_def)
    then have "(rows ?s - 1) * cols ?s \<le> next_address p" using d by (simp add: algebra_simps)
    then have "rows ?s - 1 \<le> next_address p div cols ?s"
      using d zdiv_mono1 [of "(rows ?s - 1) * cols ?s" "next_address p" "cols ?s"] by simp
    then show ?thesis by (simp add: target_of_def)
  qed
  show ?thesis unfolding if_not_P [OF False] Let_def
    by (intro exI [of _ ?rc] conjI impI h on inside outside)
qed

section \<open>Repeat to Address\<close>

lemma put_data_keeps_low:
  assumes "wf_screen s" and "i < linear s (get_position s)" and "i < (rows s - 1) * cols s" and "0 \<le> i"
  shows "buffer (put_data b s) ! nat i = buffer s ! nat i"
    and "i < linear s (get_position (put_data b s))"
proof -
  show "buffer (put_data b s) ! nat i = buffer s ! nat i"
    using assms(2,4) by (simp add: buffer_put_data)
  show "i < linear s (get_position (put_data b s))"
  proof (cases "linear s (get_position s) + 1 < ssize s")
    case True
    with cursor_put_data [OF assms(1)] assms(2) show ?thesis by simp
  next
    case False
    have d: "0 < rows s" "0 < cols s" "ssize s = rows s * cols s"
      and rc: "0 \<le> cursor_row s" "cursor_row s < rows s" "0 \<le> cursor_col s" "cursor_col s < cols s"
      using assms(1) by (simp_all add: wf_screen_def wf_dims_def on_screen_def)
    have "cursor_row s * cols s + cursor_col s + 1 = rows s * cols s"
      using False linear_bounds [OF rc] d by (simp add: linear_def get_position_def)
    then have e: "cursor_row s * cols s + cursor_col s = (rows s - 1) * cols s + (cols s - 1)"
      by (simp add: algebra_simps)
    have "0 \<le> cols s - 1" "cols s - 1 < cols s" using d by simp_all
    from e linear_div_mod [OF this, of "rows s - 1"] linear_div_mod [OF rc(3,4), of "cursor_row s"]
    have "cursor_row s = rows s - 1 \<and> cursor_col s = cols s - 1" by metis
    then show ?thesis using assms(3) d
      by (simp add: put_data_def Let_def get_position_def set_position_def linear_def)
  qed
qed

lemma put_text_keeps_low:
  assumes "wf_screen s" and "i < linear s (get_position s)" and "i < (rows s - 1) * cols s" and "0 \<le> i"
  shows "buffer (put_text bs s) ! nat i = buffer s ! nat i"
  using assms
proof (induction bs arbitrary: s)
  case Nil
  then show ?case by (simp add: put_text_def)
next
  case (Cons b bs)
  from Cons.IH [of "put_data b s"] Cons.prems put_data_keeps_low [OF Cons.prems, of b] show ?case
    by (simp add: put_text_def wf_put_data)
qed

lemma repeat_insert_text:
  assumes "wf_screen (d_screen p)"
  shows "repeat_insert n b p =
     (Inr (), if b = 0 then p else p\<lparr>d_screen := put_text (replicate n b) (d_screen p)\<rparr>)"
  using assms
proof (induction n arbitrary: p)
  case 0
  then show ?case by (simp add: dret_def put_text_def)
next
  case (Suc n)
  show ?case
  proof (cases "b = 0")
    case True
    with Suc.IH [OF Suc.prems] show ?thesis by (simp add: dbind_def insert_data_def)
  next
    case False
    with Suc.IH [of "p\<lparr>d_screen := put_data b (d_screen p)\<rparr>"] Suc.prems show ?thesis
      by (simp add: dbind_def insert_data_ok wf_put_data put_text_def)
  qed
qed

lemma handle_ra_eq:
  fixes p :: dsp
  defines "t \<equiv> target_of (d_screen p) (next_address p)" and "b \<equiv> pdata p ! (ppos p + 2)"
  assumes "wf_screen (d_screen p)" and "ready 3 p"
  shows "handle_ra p = (Inr (), p\<lparr>ppos := ppos p + 3, dpos := ppos p + 3, d_screen := cursor_to t
     (if b = 0 then d_screen p
      else put_text (replicate (nat (span_count (d_screen p)
             (linear (d_screen p) (get_position (d_screen p))) (linear (d_screen p) t))) b) (d_screen p))\<rparr>)"
proof -
  let ?p2 = "p\<lparr>ppos := ppos p + 2, dpos := ppos p + 2\<rparr>"
  have r2: "ready 2 p" using assms(4) ready_less by fastforce
  have r: "ready (Suc 0) ?p2" using assms(4) by (simp add: ready_def)
  have "read_byte_safe op ?p2 = (Inr b, p\<lparr>ppos := ppos p + 3, dpos := ppos p + 3\<rparr>)" for op
    using ds_read_ready [OF r] by (simp add: read_byte_safe_def b_def)
  moreover have on: "on_screen (d_screen p) t"
    using target_of_on_screen [OF assms(3)] next_address_bounds by (simp add: t_def)
  obtain tr tc where tt: "target_of (d_screen p) (next_address p) = (tr, tc)" by fastforce
  have "set_position tr tc s = cursor_to (tr, tc) s"
    if "rows s = rows (d_screen p)" "cols s = cols (d_screen p)" for s
    using on that set_position_on_screen [of s "(tr, tc)"] tt by (simp add: on_screen_def t_def)
  ultimately show ?thesis
    using read_address_ready [OF r2] target_coords_next [OF assms(3), of p] assms(3,4)
    by (simp add: handle_ra_def dbind_def dget_def min_data_ready repeat_insert_text on_scr_def
        t_def tt)
qed

lemma put_text_append: "put_text (as @ bs) s = put_text bs (put_text as s)"
  by (simp add: put_text_def)

lemma put_text_same:
  "wf_screen s \<Longrightarrow> i < length (buffer s) \<Longrightarrow> buffer s ! i = b
     \<Longrightarrow> buffer (put_text (replicate n b) s) ! i = b"
proof (induction n arbitrary: s)
  case 0
  then show ?case by (simp add: put_text_def)
next
  case (Suc n)
  have "(buffer s)[j := b] ! i = b" for j using Suc.prems by (cases "j = i") simp_all
  with Suc.IH [of "put_data b s"] Suc.prems show ?case
    by (simp add: put_text_def wf_put_data buffer_put_data)
qed

lemma nth_block: "a \<le> i \<Longrightarrow> i < a + m \<Longrightarrow> a \<le> length xs \<Longrightarrow> (take a xs @ replicate m b @ ys) ! i = b"
  by (auto simp: nth_append)

lemma length_put [simp]:
  "length (buffer (put_data b s)) = length (buffer s)" "length (buffer (put_text bs s)) = length (buffer s)"
proof -
  show d: "length (buffer (put_data b s)) = length (buffer s)" for b s by (simp add: buffer_put_data)
  show "length (buffer (put_text bs s)) = length (buffer s)"
    by (induction bs arbitrary: s) (simp_all add: put_text_def d)
qed

text \<open>A fill that goes past the end of the screen reaches every position from its start on.\<close>

lemma put_text_to_end:
  assumes "wf_screen s" and "linear s (get_position s) \<le> i" and "i < ssize s"
    and "ssize s - linear s (get_position s) \<le> int n"
  shows "buffer (put_text (replicate n b) s) ! nat i = b"
proof -
  let ?k = "linear s (get_position s)"
  let ?m = "nat (ssize s - 1 - ?k)"
  let ?s1 = "put_text (replicate ?m b) s" and ?s2 = "put_data b (put_text (replicate ?m b) s)"
  have k: "0 \<le> ?k" "?k < ssize s" using cursor_linear [OF assms(1)] by blast+
  have len: "length (buffer s) = nat (ssize s)" using assms(1) by (simp add: wf_screen_def wf_dims_def)
  have "?m < n" using assms(4) k by simp
  then have "replicate n b = replicate ?m b @ b # replicate (n - ?m - 1) b"
    by (metis Suc_diff_Suc diff_Suc_1 diff_diff_left less_imp_add_positive replicate_Suc
        replicate_add add_diff_cancel_left' plus_1_eq_Suc add.commute)
  then have "put_text (replicate n b) s = put_text (replicate (n - ?m - 1) b) ?s2"
    by (simp add: put_text_append) (simp add: put_text_def)
  moreover have "buffer ?s2 ! nat i = b"
  proof -
    have e: "buffer ?s1 = take (nat ?k) (buffer s) @ replicate ?m b @ drop (nat ?k + ?m) (buffer s)"
      "linear s (get_position ?s1) = ssize s - 1"
      using put_text_effect [OF assms(1), of "replicate ?m b"] k by simp_all
    show ?thesis
    proof (cases "i = ssize s - 1")
      case True
      with e k len show ?thesis by (simp add: buffer_put_data nth_append)
    next
      case False
      then have "nat i < nat ?k + ?m" "nat ?k \<le> nat i" using assms(2,3) k by linarith+
      with k len have "buffer ?s1 ! nat i = b" unfolding e(1) by (intro nth_block) simp_all
      moreover have "nat (ssize s - 1) \<noteq> nat i" using False assms(2,3) k by linarith
      ultimately show ?thesis using e(2) by (simp add: buffer_put_data)
    qed
  qed
  moreover have "wf_screen ?s2" using assms(1) by (simp add: wf_put_data wf_put_text)
  moreover have "length (buffer ?s2) = nat (ssize s)" using len by simp
  ultimately show ?thesis using put_text_same [of ?s2 "nat i" b] assms(2,3) k by simp
qed


text \<open>
  Repeat to Address on all its branches. Too few bytes: incomplete, nothing changes. A null
  character or a target equal to the cursor: only the cursor moves, although null clears and a
  full wrap fills on a terminal. A target behind the cursor: exactly the positions from the
  cursor up to the target get the character. A target before the cursor: everything from the
  cursor to the end gets it, but the positions before the cursor outside the last row, among them
  the ones up to the target, are not reached.
\<close>

lemma ra_fills:
  assumes "wf_screen (d_screen p)" and "pos_ok p"
  shows "if d_remaining p < 3 then handle_ra p = (Inl (Incomplete_order ''RA''), p)
     else (let s = d_screen p; rc = target_of s (next_address p);
               k = linear s (get_position s); t = linear s rc; b = pdata p ! (ppos p + 2)
           in \<exists>q. handle_ra p = (Inr (), q) \<and> ppos q = ppos p + 3 \<and> get_position (d_screen q) = rc
             \<and> field_starts (d_screen q) = field_starts s \<and> attributes (d_screen q) = attributes s
             \<and> (b = 0 \<or> t = k \<longrightarrow> buffer (d_screen q) = buffer s)
             \<and> (b \<noteq> 0 \<and> k \<le> t \<longrightarrow> buffer (d_screen q) = take (nat k) (buffer s)
                  @ replicate (nat (t - k)) b @ drop (nat t) (buffer s))
             \<and> (b \<noteq> 0 \<and> t < k \<longrightarrow>
                  (\<forall>i. k \<le> i \<and> i < ssize s \<longrightarrow> buffer (d_screen q) ! nat i = b)
                \<and> (\<forall>i. 0 \<le> i \<and> i < k \<and> i < (rows s - 1) * cols s
                     \<longrightarrow> buffer (d_screen q) ! nat i = buffer s ! nat i)))"
proof (cases "d_remaining p < 3")
  case True
  then show ?thesis by (simp add: handle_ra_def dbind_def validate_min_data_def)
next
  case False
  let ?s = "d_screen p" and ?rc = "target_of (d_screen p) (next_address p)" and ?b = "pdata p ! (ppos p + 2)"
  let ?k = "linear ?s (get_position ?s)" and ?t = "linear ?s ?rc"
  let ?n = "nat (span_count ?s ?k ?t)"
  let ?s1 = "if ?b = 0 then ?s else put_text (replicate ?n ?b) ?s"
  have ready: "ready 3 p" using False ready_remaining [OF assms(2), of 3] by simp
  have k: "0 \<le> ?k" "?k < ssize ?s" using cursor_linear [OF assms(1)] by blast+
  have t: "0 \<le> ?t" "?t < ssize ?s"
    using on_screen_linear [OF wf_dimsD [OF assms(1)]] target_of_on_screen [OF assms(1)]
      next_address_bounds by blast+
  have sz: "rows ?s * cols ?s = ssize ?s" using assms(1) by (simp add: wf_screen_def wf_dims_def)
  have forward: "buffer (put_text (replicate ?n ?b) ?s) = take (nat ?k) (buffer ?s)
      @ replicate (nat (?t - ?k)) ?b @ drop (nat ?t) (buffer ?s)" if "?k \<le> ?t"
    using put_text_effect [OF assms(1), of "replicate ?n ?b"] that k t
    by (simp add: span_count_def nat_diff_distrib)
  have around: "(\<forall>i. ?k \<le> i \<and> i < ssize ?s \<longrightarrow> buffer (put_text (replicate ?n ?b) ?s) ! nat i = ?b)"
    if "?t < ?k"
    using put_text_to_end [OF assms(1), of _ ?n ?b] that k t by (simp add: span_count_def sz)
  have low: "buffer (put_text (replicate ?n ?b) ?s) ! nat i = buffer ?s ! nat i"
    if "0 \<le> i" "i < ?k" "i < (rows ?s - 1) * cols ?s" for i
    using put_text_keeps_low [OF assms(1)] that by blast
  let ?q = "p\<lparr>ppos := ppos p + 3, dpos := ppos p + 3, d_screen := cursor_to ?rc ?s1\<rparr>"
  have b: "buffer (d_screen ?q) = buffer ?s1" by (simp add: cursor_to_def)
  have same: "?t = ?k \<Longrightarrow> ?n = 0" by (simp add: span_count_def)
  show ?thesis unfolding if_not_P [OF False] Let_def
  proof (intro exI [of _ ?q] conjI impI allI)
    show "handle_ra p = (Inr (), ?q)" by (rule handle_ra_eq [OF assms(1) ready])
    show "get_position (d_screen ?q) = ?rc" by (simp add: cursor_to_def get_position_def)
    show "field_starts (d_screen ?q) = field_starts ?s" "attributes (d_screen ?q) = attributes ?s"
      by (simp_all add: cursor_to_def)
    show "buffer (d_screen ?q) = buffer ?s" if "?b = 0 \<or> ?t = ?k"
      unfolding b using that same by (auto simp: put_text_def)
    show "buffer (d_screen ?q) = take (nat ?k) (buffer ?s) @ replicate (nat (?t - ?k)) ?b
        @ drop (nat ?t) (buffer ?s)" if "?b \<noteq> 0 \<and> ?k \<le> ?t"
      unfolding b using that forward by simp
    show "buffer (d_screen ?q) ! nat i = ?b" if "?b \<noteq> 0 \<and> ?t < ?k" "?k \<le> i \<and> i < ssize ?s" for i
      unfolding b using that around by simp
    show "buffer (d_screen ?q) ! nat i = buffer ?s ! nat i"
      if "?b \<noteq> 0 \<and> ?t < ?k" "0 \<le> i \<and> i < ?k \<and> i < (rows ?s - 1) * cols ?s" for i
      unfolding b using that low by simp
  qed simp
qed

section \<open>Start Field\<close>

lemma start_field_screen:
  assumes "wf_screen s"
  shows "buffer (start_field b s) = (buffer s)[nat (linear s (get_position s)) := b]"
    and "attributes (start_field b s) = (attributes s)[nat (linear s (get_position s) * 3) := b]"
    and "field_starts (start_field b s) = insert (linear s (get_position s)) (field_starts s)"
    and "get_position (start_field b s)
           = (cursor_row s, if cursor_col s + 1 < cols s then cursor_col s + 1 else cols s - 1)"
proof -
  have "0 \<le> linear s (get_position s)" "linear s (get_position s) < ssize s"
    using cursor_linear [OF assms] by blast+
  moreover have "0 \<le> cursor_row s" "cursor_row s < rows s" "0 \<le> cursor_col s" "cursor_col s < cols s"
    using assms by (simp_all add: wf_screen_def on_screen_def)
  ultimately show "buffer (start_field b s) = (buffer s)[nat (linear s (get_position s)) := b]"
    "attributes (start_field b s) = (attributes s)[nat (linear s (get_position s) * 3) := b]"
    "field_starts (start_field b s) = insert (linear s (get_position s)) (field_starts s)"
    "get_position (start_field b s)
       = (cursor_row s, if cursor_col s + 1 < cols s then cursor_col s + 1 else cols s - 1)"
    by (auto simp: start_field_def Let_def set_attribute_def set_position_def linear_def
        get_position_def clamp_index_def)
qed

lemma handle_sf_eq:
  assumes "ready 1 p"
  shows "handle_sf p = (Inr (), p\<lparr>ppos := ppos p + 1, dpos := ppos p + 1,
     d_screen := start_field (pdata p ! ppos p) (d_screen p),
     last_field_start := Some (linear (d_screen p) (get_position (d_screen p)))\<rparr>)"
  using assms ds_read_ready [of 0 p]
  by (simp add: handle_sf_def dbind_def min_data_ready read_byte_safe_def)

text \<open>
  Start Field: a mark and the attribute byte are stored at the cursor, the attribute byte is
  also a character of the buffer, and the cursor moves behind it. In the last column it does not:
  the cursor stays, and the next data byte overwrites the attribute byte on the screen, while the
  mark stays.
\<close>

lemma sf_starts_field:
  assumes "wf_screen (d_screen p)" and "pos_ok p" and "1 \<le> d_remaining p" and "x \<noteq> 0"
  shows "let s = d_screen p; b = pdata p ! ppos p; k = linear s (get_position s)
     in \<exists>q r. handle_sf p = (Inr (), q) \<and> insert_data x q = (Inr (), r) \<and> last_field_start q = Some k
       \<and> field_starts (d_screen q) = insert k (field_starts s)
       \<and> buffer (d_screen q) ! nat k = b \<and> attributes (d_screen q) ! nat (k * 3) = b
       \<and> (cursor_col s + 1 < cols s \<longrightarrow> linear s (get_position (d_screen q)) = k + 1
            \<and> buffer (d_screen r) ! nat k = b)
       \<and> (cursor_col s + 1 = cols s \<longrightarrow> get_position (d_screen q) = get_position s
            \<and> buffer (d_screen r) ! nat k = x \<and> field_starts (d_screen r) = field_starts (d_screen q))"
proof -
  let ?s = "d_screen p" and ?b = "pdata p ! ppos p"
  let ?k = "linear ?s (get_position ?s)" and ?s1 = "start_field (pdata p ! ppos p) (d_screen p)"
  let ?q = "p\<lparr>ppos := ppos p + 1, dpos := ppos p + 1, d_screen := ?s1, last_field_start := Some ?k\<rparr>"
  let ?r = "?q\<lparr>d_screen := put_data x ?s1\<rparr>"
  note e = start_field_screen [OF assms(1), of ?b]
  have k: "0 \<le> ?k" "?k < ssize ?s" using cursor_linear [OF assms(1)] by blast+
  have len: "length (buffer ?s) = nat (ssize ?s)" "length (attributes ?s) = nat (ssize ?s * 3)"
    using assms(1) by (simp_all add: wf_screen_def wf_dims_def)
  have "ready 1 p" using ready_remaining [OF assms(2), of 1] assms(3) by simp
  then have sf: "handle_sf p = (Inr (), ?q)" by (rule handle_sf_eq)
  have wf1: "wf_screen ?s1" using assms(1) wf.keep_start_field by blast
  have ins: "insert_data x ?q = (Inr (), ?r)"
    using insert_data_ok [of ?q x] wf1 assms(4) by simp
  have c1: "cols ?s1 = cols ?s" using wf.keep_start_field assms(1) by blast
  have c: "linear ?s1 = linear ?s" by (intro ext) (simp add: linear_def c1)
  have behind: "linear ?s (get_position ?s1) = ?k + 1" if "cursor_col ?s + 1 < cols ?s"
    using e(4) that by (simp add: linear_def get_position_def)
  have stay: "get_position ?s1 = get_position ?s" if "cursor_col ?s + 1 = cols ?s"
    using e(4) that by (simp add: get_position_def)
  have k3: "nat (?k * 3) < length (attributes ?s)" using k len by simp
  show ?thesis unfolding Let_def
  proof (rule exI [of _ ?q], rule exI [of _ ?r], intro conjI impI)
    show "buffer (d_screen ?r) ! nat ?k = pdata p ! ppos p" if "cursor_col ?s + 1 < cols ?s"
      using behind [OF that] e(1) k len by (simp add: buffer_put_data c nat_add_distrib)
    show "buffer (d_screen ?r) ! nat ?k = x" if "cursor_col ?s + 1 = cols ?s"
      using stay [OF that] e(1) k len by (simp add: buffer_put_data c)
  qed (use sf ins e(1-3) k k3 len behind stay in simp_all)
qed

end
