(* ===== verification/OrderLoss.thy ===== *)
theory OrderLoss
  imports OrderEffects
begin

text \<open>
  More orders: Modify Field, Erase Unprotected to Address, Graphic Escape, and the code 0x88. Each
  takes or loses more of the stream, or less of the screen, than the order of that name does on a
  terminal.
\<close>

section \<open>Modify Field\<close>

text \<open>The text of a screen and everything but its extended attributes and caches.\<close>

definition same_text :: "screen \<Rightarrow> screen \<Rightarrow> bool" where
  "same_text s s' \<longleftrightarrow> buffer s' = buffer s \<and> attributes s' = attributes s
     \<and> field_starts s' = field_starts s \<and> get_position s' = get_position s"

lemma same_text_refl [simp]: "same_text s s"
  by (simp add: same_text_def)

lemma same_text_trans: "same_text s t \<Longrightarrow> same_text t u \<Longrightarrow> same_text s u"
  by (simp add: same_text_def)

lemma same_text_sfe: "same_text s (set_extended_attribute_sfe t v at s)"
  by (simp add: same_text_def set_extended_attribute_sfe_def Let_def get_position_def
      split: option.split)

text \<open>One pair: two bytes are read, an extended attribute is set.\<close>

lemma mf_round:
  assumes "ready 2 p"
  shows "mf_loop (Suc n) at p = mf_loop n at (p\<lparr>ppos := ppos p + 2, dpos := ppos p + 2,
     d_screen := set_extended_attribute_sfe (uint (pdata p ! ppos p)) (uint (pdata p ! (ppos p + 1)))
                   (Some at) (d_screen p)\<rparr>)"
proof -
  have r: "ready (Suc (Suc 0)) p" using assms by (simp add: numeral_2_eq_2)
  from ds_read_ready [OF ready_next [OF r]] ds_read_ready [OF r] r show ?thesis
    by (simp add: dget_def dbind_def on_scr_def ready_def)
qed

lemma mf_loop_effect:
  fixes p :: dsp
  assumes "dpos p = ppos p" and "ppos p \<le> length (pdata p)" and "length (pdata p) - ppos p \<le> n"
  shows "\<exists>q. mf_loop n at p = (Inr (), q) \<and> pdata q = pdata p \<and> same_text (d_screen p) (d_screen q)
     \<and> ppos q = length (pdata p) - (length (pdata p) - ppos p) mod 2"
  using assms
proof (induction n arbitrary: p rule: less_induct)
  case (less n)
  show ?case
  proof (cases "length (pdata p) - ppos p < 2")
    case True
    then have "length (pdata p) \<le> ppos p + 1" by linarith
    with less.prems(1) have "mf_loop n at p = (Inr (), p)"
      by (cases n) (simp_all add: dget_def dret_def)
    moreover from True less.prems(2) have "ppos p = length (pdata p) - (length (pdata p) - ppos p) mod 2"
      by simp
    ultimately show ?thesis by auto
  next
    case False
    then obtain m where n: "n = Suc m" using less.prems(3) by (cases n) auto
    let ?p1 = "p\<lparr>ppos := ppos p + 2, dpos := ppos p + 2,
       d_screen := set_extended_attribute_sfe (uint (pdata p ! ppos p)) (uint (pdata p ! (ppos p + 1)))
                   (Some at) (d_screen p)\<rparr>"
    have "ready 2 p" using False less.prems by (simp add: ready_def)
    from mf_round [OF this] n have round: "mf_loop n at p = mf_loop m at ?p1" by simp
    have "(length (pdata p) - (ppos p + 2)) mod 2 = (length (pdata p) - ppos p) mod 2"
      using False by (metis diff_diff_left le_mod_geq not_less)
    moreover have "ppos p + 2 \<le> length (pdata p)" "length (pdata p) - (ppos p + 2) \<le> m"
      using False less.prems n by linarith+
    ultimately obtain q where "mf_loop m at ?p1 = (Inr (), q)" "pdata q = pdata p"
      "same_text (d_screen ?p1) (d_screen q)"
      "ppos q = length (pdata p) - (length (pdata p) - ppos p) mod 2"
      using less.IH [of m ?p1] n by auto
    then show ?thesis unfolding round by (auto intro: same_text_trans [OF same_text_sfe])
  qed
qed

text \<open>
  Modify Field has no count: it takes all the data that follows as attribute pairs, up to one
  odd byte. Whatever text or orders stood behind it in the record are never shown: buffer,
  attributes, field marks and cursor are unchanged.
\<close>

lemma mf_takes_the_rest:
  assumes "pos_ok p"
  shows "if d_remaining p < 2 then handle_mf p = (Inl (Incomplete_order ''MF''), p)
     else \<exists>q. handle_mf p = (Inr (), q) \<and> d_remaining q = d_remaining p mod 2
            \<and> same_text (d_screen p) (d_screen q)"
proof (cases "d_remaining p < 2")
  case True
  then show ?thesis by (simp add: handle_mf_def dbind_def validate_min_data_def)
next
  case False
  let ?n = "length (pdata p)" and ?at = "resolve_field_start_position p"
  have r: "ready 2 p" using False ready_remaining [OF assms, of 2] by simp
  then obtain m where m: "?n = Suc m" by (cases ?n) (auto simp: ready_def)
  let ?p1 = "p\<lparr>ppos := ppos p + 2, dpos := ppos p + 2,
       d_screen := set_extended_attribute_sfe (uint (pdata p ! ppos p)) (uint (pdata p ! (ppos p + 1)))
                   (Some ?at) (d_screen p)\<rparr>"
  obtain q where q: "mf_loop m ?at ?p1 = (Inr (), q)" "pdata q = pdata p"
    "same_text (d_screen ?p1) (d_screen q)"
    "ppos q = ?n - (?n - (ppos p + 2)) mod 2"
    using mf_loop_effect [of ?p1 m ?at] r m by (auto simp: ready_def)
  have "handle_mf p = (Inr (), q)"
    using r q(1) by (simp add: handle_mf_def dbind_def min_data_ready dget_def m mf_round
        del: mf_loop.simps)
  moreover have "same_text (d_screen p) (d_screen q)"
    using q(3) by (auto intro: same_text_trans [OF same_text_sfe])
  moreover have "d_remaining q = d_remaining p mod 2"
  proof -
    have le: "ppos p + 2 \<le> ?n" using r by (simp add: ready_def)
    then have "int ((?n - (ppos p + 2)) mod 2) = (int ?n - int (ppos p)) mod 2"
      by (simp add: of_nat_mod of_nat_diff) presburger
    moreover have "(?n - (ppos p + 2)) mod 2 \<le> ?n" using le by (metis mod_less_eq_dividend diff_le_self le_trans)
    ultimately show ?thesis using q(2,4) by (simp add: d_remaining_def of_nat_diff)
  qed
  ultimately show ?thesis using False by auto
qed

section \<open>Erase Unprotected to Address\<close>

definition blank_at :: "int \<times> int \<Rightarrow> screen \<Rightarrow> screen" where
  "blank_at rc s = write_char 0x40 (Some rc) False True False s"

lemma blank_at_effect:
  assumes "wf_screen s" and "on_screen s rc"
  shows "buffer (blank_at rc s) = (buffer s)[nat (linear s rc) := 0x40]"
    and "field_starts (blank_at rc s) = field_starts s"
    and "basic_attr (blank_at rc s) i = basic_attr s i"
proof -
  obtain r c where rc: "rc = (r, c)" by fastforce
  have "0 \<le> linear s rc" "linear s rc < ssize s"
    using on_screen_linear [OF wf_dimsD [OF assms(1)] assms(2)] by blast+
  then have w: "writable r c True s"
    using assms rc by (simp add: writable_def Let_def linear_def on_screen_def wf_screen_def wf_dims_def)
  show "buffer (blank_at rc s) = (buffer s)[nat (linear s rc) := 0x40]"
    "field_starts (blank_at rc s) = field_starts s"
    using w rc by (simp_all add: blank_at_def write_char_def Let_def linear_def)
      (simp add: store_char_def Let_def)
  have k: "0 \<le> linear s rc" using on_screen_linear [OF wf_dimsD [OF assms(1)] assms(2)] by blast
  have "basic_attr (blank_at rc s) i = basic_attr (store_char 0x40 (linear s rc) False False s) i"
    using w rc by (simp add: blank_at_def write_char_def Let_def linear_def basic_attr_def)
  also have "\<dots> = basic_attr s i"
  proof -
    have n: "nat (j * 3) = nat j * 3" for j by (cases "0 \<le> j") (simp_all add: nat_mult_distrib)
    have "a * 3 \<noteq> b * 3 + 1" "a * 3 \<noteq> b * 3 + 2" for a b :: nat by presburger+
    then have "nat (i * 3) \<noteq> nat (linear s rc * 3) + 1" "nat (i * 3) \<noteq> nat (linear s rc * 3) + 2"
      unfolding n by blast+
    then show ?thesis
      by (cases "nat (i * 3) = nat (linear s rc * 3)")
        (auto simp: basic_attr_def store_char_def Let_def nth_list_update)
  qed
  finally show "basic_attr (blank_at rc s) i = basic_attr s i" .
qed

text \<open>What an erasure may do: turn some characters at some positions into blanks.\<close>

definition blanked :: "int set \<Rightarrow> screen \<Rightarrow> screen \<Rightarrow> bool" where
  "blanked ps s s' \<longleftrightarrow> length (buffer s') = length (buffer s) \<and> field_starts s' = field_starts s
     \<and> (\<forall>i. basic_attr s' i = basic_attr s i)
     \<and> (\<forall>i. 0 \<le> i \<longrightarrow> buffer s' ! nat i = buffer s ! nat i
               \<or> (i \<in> ps \<and> buffer s' ! nat i = 0x40))"

lemma blanked_cursor: "blanked ps s (cursor_to rc t) \<longleftrightarrow> blanked ps s t"
  by (simp add: blanked_def basic_attr_def cursor_to_def)

lemma blanked_refl: "blanked ps s s"
  by (simp add: blanked_def)

lemma blanked_trans: "blanked ps s t \<Longrightarrow> blanked qs t u \<Longrightarrow> blanked (ps \<union> qs) s u"
  unfolding blanked_def by (metis UnCI)

lemma blanked_mono: "blanked ps s t \<Longrightarrow> ps \<subseteq> qs \<Longrightarrow> blanked qs s t"
  unfolding blanked_def by blast

lemma blanked_blank_at:
  assumes "wf_screen s" and "on_screen s rc"
  shows "blanked {linear s rc} s (blank_at rc s)"
proof -
  have "0 \<le> linear s rc" "linear s rc < int (length (buffer s))"
    using on_screen_linear [OF wf_dimsD [OF assms(1)] assms(2)] assms(1)
    by (auto simp: wf_screen_def wf_dims_def)
  then show ?thesis
    using blank_at_effect [OF assms] by (auto simp: blanked_def nth_list_update)
qed


definition erase_one :: "int \<times> int \<Rightarrow> screen \<Rightarrow> screen" where
  "erase_one rc s =
     (case get_field_at_position (fst rc) (snd rc) s of
        None \<Rightarrow> blank_at rc s
      | Some f \<Rightarrow> if f_protected f then s else blank_at rc s)"

lemma erase_loop_Suc: "erase_loop (Suc n) row col s =
    (let s1 = erase_one (row, col) s
     in if col + 1 \<ge> cols s1 then erase_loop n (if row + 1 \<ge> rows s1 then 0 else row + 1) 0 s1
        else erase_loop n row (col + 1) s1)"
  unfolding erase_one_def blank_at_def by simp

lemma erase_one_dims [simp]: "rows (erase_one rc s) = rows s" "cols (erase_one rc s) = cols s"
  by (simp_all add: erase_one_def blank_at_def split: option.split)

lemma wf_erase_one: "wf_screen s \<Longrightarrow> wf_screen (erase_one rc s)"
  by (simp add: erase_one_def blank_at_def wf_rules split: option.split)

lemma blanked_erase_one:
  "wf_screen s \<Longrightarrow> on_screen s rc \<Longrightarrow> blanked {linear s rc} s (erase_one rc s)"
  by (auto simp: erase_one_def blanked_refl blanked_blank_at split: option.split)

lemma next_position:
  assumes "wf_screen s" and "on_screen s (row, col)"
    and "rc = (if col + 1 \<ge> cols s then (if row + 1 \<ge> rows s then 0 else row + 1, 0) else (row, col + 1))"
  shows "on_screen s rc" and "linear s rc = (linear s (row, col) + 1) mod (rows s * cols s)"
proof -
  have d: "0 < rows s" "0 < cols s" using assms(1) by (simp_all add: wf_screen_def wf_dims_def)
  have rc: "0 \<le> row" "row < rows s" "0 \<le> col" "col < cols s" using assms(2) by (simp_all add: on_screen_def)
  show "on_screen s rc" using assms(3) d rc by (auto simp: on_screen_def)
  have b: "0 \<le> row * cols s + col" "row * cols s + col < rows s * cols s" using linear_bounds [OF rc] by blast+
  show "linear s rc = (linear s (row, col) + 1) mod (rows s * cols s)"
  proof (cases "col + 1 \<ge> cols s \<and> row + 1 \<ge> rows s")
    case True
    then have "col = cols s - 1" "row = rows s - 1" using rc by simp_all
    then have "linear s (row, col) + 1 = rows s * cols s" by (simp only: linear_def fst_conv snd_conv)
      (simp add: algebra_simps)
    then show ?thesis using assms(3) True by (simp add: linear_def)
  next
    case False
    then have "linear s rc = linear s (row, col) + 1 \<and> linear s rc < rows s * cols s"
      using assms(3) rc \<open>on_screen s rc\<close> linear_bounds [of "fst rc" "rows s" "snd rc" "cols s"]
      by (auto simp: linear_def on_screen_def algebra_simps)
    then show ?thesis using b by (simp add: linear_def)
  qed
qed

definition cyclic_span :: "int \<Rightarrow> int \<Rightarrow> nat \<Rightarrow> int set" where
  "cyclic_span sz k n = (\<lambda>j. (k + int j) mod sz) ` {..<n}"

lemma cyclic_span_Suc:
  assumes "0 \<le> k" and "k < sz"
  shows "cyclic_span sz k (Suc n) = {k} \<union> cyclic_span sz ((k + 1) mod sz) n"
proof -
  have "{..<Suc n} = insert 0 (Suc ` {..<n})" by (auto simp: less_Suc_eq_0_disj)
  moreover have "(k + int (Suc j)) mod sz = ((k + 1) mod sz + int j) mod sz" for j
    by (simp add: mod_simps algebra_simps)
  ultimately show ?thesis using assms unfolding cyclic_span_def by (simp add: image_image)
qed

lemma erase_loop_blanks:
  assumes "wf_screen s" and "on_screen s (row, col)"
  shows "blanked (cyclic_span (rows s * cols s) (linear s (row, col)) n) s (erase_loop n row col s)"
  using assms
proof (induction n arbitrary: row col s)
  case 0
  then show ?case by (simp add: blanked_refl)
next
  case (Suc n)
  let ?s1 = "erase_one (row, col) s"
  define rc where "rc = (if col + 1 \<ge> cols s then (if row + 1 \<ge> rows s then 0 else row + 1, 0) else (row, col + 1))"
  note nx = next_position [OF Suc.prems rc_def]
  have e: "erase_loop (Suc n) row col s = erase_loop n (fst rc) (snd rc) ?s1"
    unfolding erase_loop_Suc by (simp add: Let_def rc_def)
  have "on_screen ?s1 (fst rc, snd rc)" using nx(1) by (simp add: on_screen_def)
  from Suc.IH [OF wf_erase_one [OF Suc.prems(1)] this]
  have "blanked (cyclic_span (rows s * cols s) (linear s rc) n) ?s1 (erase_loop (Suc n) row col s)"
    unfolding e by (simp add: linear_def)
  from blanked_trans [OF blanked_erase_one [OF Suc.prems] this] show ?case
    using cyclic_span_Suc [of "linear s (row, col)" "rows s * cols s" n] nx(2) Suc.prems
      on_screen_linear [OF wf_dimsD [OF Suc.prems(1)] Suc.prems(2)]
    by (simp add: wf_screen_def wf_dims_def)
qed


text \<open>The positions from the cursor up to a target, round the end of the screen if need be.\<close>

definition eua_span :: "int \<Rightarrow> int \<Rightarrow> int \<Rightarrow> int set" where
  "eua_span sz k t = (if k \<le> t then {k..<t} else {k..<sz} \<union> {0..<t})"

lemma cyclic_span_eua:
  assumes "0 \<le> k" and "k < rows s * cols s" and "0 \<le> t" and "t < rows s * cols s"
  shows "cyclic_span (rows s * cols s) k (nat (span_count s k t)) \<subseteq> eua_span (rows s * cols s) k t"
proof
  fix i assume "i \<in> cyclic_span (rows s * cols s) k (nat (span_count s k t))"
  then obtain j where "j \<in> {..<nat (span_count s k t)}" and i: "i = (k + int j) mod (rows s * cols s)"
    unfolding cyclic_span_def by blast
  then have j: "int j < span_count s k t" by simp
  show "i \<in> eua_span (rows s * cols s) k t"
  proof (cases "k + int j < rows s * cols s")
    case True
    then have "i = k + int j" using i assms by simp
    with j True assms show ?thesis by (auto simp: eua_span_def span_count_def split: if_splits)
  next
    case False
    have "\<not> k \<le> t" using j False assms by (auto simp: span_count_def split: if_splits)
    moreover from this have lt: "k + int j - rows s * cols s < t" using j by (simp add: span_count_def)
    moreover have "(k + int j - rows s * cols s) mod (rows s * cols s) = k + int j - rows s * cols s"
      using False lt assms by (intro mod_pos_pos_trivial) linarith+
    then have "i = k + int j - rows s * cols s" using i by simp
    ultimately show ?thesis using False by (simp add: eua_span_def)
  qed
qed

lemma erase_loop_dims [simp]:
  "rows (erase_loop n row col s) = rows s" "cols (erase_loop n row col s) = cols s"
proof -
  have "rows (erase_loop n row col s) = rows s \<and> cols (erase_loop n row col s) = cols s"
    by (induction n arbitrary: row col s) (simp_all add: erase_loop_Suc Let_def del: erase_loop.simps(2))
  then show "rows (erase_loop n row col s) = rows s" "cols (erase_loop n row col s) = cols s" by blast+
qed

text \<open>
  Erase Unprotected to Address touches only the characters from the cursor up to the target,
  going round the end of the screen, and turns them into blanks or leaves them; every field
  attribute and every field mark stays, and the cursor ends at the target. Without two address
  bytes it is incomplete and changes nothing.
\<close>

lemma eua_erases_span:
  assumes "wf_screen (d_screen p)" and "pos_ok p"
  shows "if d_remaining p < 2 then handle_eua p = (Inl (Incomplete_order ''EUA''), p)
     else (let s = d_screen p; rc = target_of s (next_address p)
           in \<exists>q. handle_eua p = (Inr (), q) \<and> ppos q = ppos p + 2 \<and> get_position (d_screen q) = rc
             \<and> blanked (eua_span (ssize s) (linear s (get_position s)) (linear s rc)) s (d_screen q))"
proof (cases "d_remaining p < 2")
  case True
  then show ?thesis by (simp add: handle_eua_def dbind_def validate_min_data_def)
next
  case False
  let ?s = "d_screen p" and ?rc = "target_of (d_screen p) (next_address p)"
  let ?k = "linear ?s (get_position ?s)" and ?t = "linear ?s ?rc"
  let ?s1 = "erase_loop (nat (span_count ?s ?k ?t)) (cursor_row ?s) (cursor_col ?s) ?s"
  have r: "ready 2 p" using False ready_remaining [OF assms(2), of 2] by simp
  have on: "on_screen ?s ?rc" using target_of_on_screen [OF assms(1)] next_address_bounds by blast
  have sz: "ssize ?s = rows ?s * cols ?s" using assms(1) by (simp add: wf_screen_def wf_dims_def)
  have b: "0 \<le> ?k" "?k < ssize ?s" "0 \<le> ?t" "?t < ssize ?s"
    using cursor_linear [OF assms(1)] on_screen_linear [OF wf_dimsD [OF assms(1)] on] by blast+
  have "set_position (fst ?rc) (snd ?rc) ?s1 = cursor_to ?rc ?s1"
    using on by (intro set_position_on_screen) (simp add: on_screen_def)
  then have h: "handle_eua p = (Inr (), p\<lparr>ppos := ppos p + 2, dpos := ppos p + 2,
      d_screen := cursor_to ?rc ?s1\<rparr>)"
    using r target_coords_next [OF assms(1), of p]
    by (simp add: handle_eua_def dbind_def min_data_ready read_address_ready dget_def on_scr_def
        erase_unprotected_def Let_def get_position_def)
  have "blanked (cyclic_span (rows ?s * cols ?s) ?k (nat (span_count ?s ?k ?t))) ?s ?s1"
    using erase_loop_blanks [OF assms(1), of "cursor_row ?s" "cursor_col ?s"] assms(1)
    by (simp add: get_position_def wf_screen_def)
  then have "blanked (eua_span (ssize ?s) ?k ?t) ?s ?s1"
    by (rule blanked_mono) (use cyclic_span_eua [of ?k ?s ?t] b in \<open>simp add: sz\<close>)
  then have "blanked (eua_span (ssize ?s) ?k ?t) ?s (cursor_to ?rc ?s1)"
    by (simp add: blanked_cursor)
  with h False show ?thesis by (simp add: Let_def cursor_to_def get_position_def)
qed

section \<open>Graphic Escape\<close>

text \<open>
  Graphic Escape loses the character: every code from 0x40 to 0x7F, except the two for the
  multiplication and the division sign, puts the same byte 0xE2 at the cursor, so 62 graphics
  cannot be told apart on the screen, and the byte reads back as the letter of that EBCDIC code.
\<close>

lemma ge_collapses_graphics:
  assumes "wf_screen (d_screen p)" and "pos_ok p" and "1 \<le> d_remaining p"
    and "0x40 \<le> pdata p ! ppos p" and "pdata p ! ppos p \<le> 0x7F"
    and "pdata p ! ppos p \<noteq> 0x47" and "pdata p ! ppos p \<noteq> 0x48"
  shows "handle_ge p = (Inr (), p\<lparr>ppos := ppos p + 1, dpos := ppos p + 1,
           d_screen := put_data 0xE2 (d_screen p)\<rparr>)"
proof -
  let ?q = "p\<lparr>ppos := ppos p + 1, dpos := ppos p + 1\<rparr>"
  have r: "ready (Suc 0) p" using ready_remaining [OF assms(2), of 1] assms(3) by simp
  have "ge_char_byte (pdata p ! ppos p) = 0xE2" using assms(4-7) by (simp add: ge_char_byte_def)
  with insert_data_ok [of ?q "0xE2"] ds_read_ready [OF r] r assms(1) show ?thesis
    by (simp add: handle_ge_def dbind_def min_data_ready)
qed

section \<open>The code 0x88\<close>

text \<open>
  The code 0x88 in the middle of a record, the EBCDIC letter \<open>h\<close>, is taken for the start of
  a structured field: the two bytes behind it are its length, and when that is out of all
  proportion, as it is for two letters, the third byte is a count of more bytes to drop. None of
  these bytes is shown; a letter as third byte drops more than 130 of them.
\<close>

lemma letter_h_swallows_text:
  assumes "pos_ok p" and "5 \<le> d_remaining p" and "pdata p ! ppos p = 0x88"
    and "pdata p ! (ppos p + 1) \<noteq> 0x88" and "pdata p ! (ppos p + 3) \<noteq> 0x88"
    and "pdata p ! (ppos p + 3) \<noteq> 0"
    and "be16 (pdata p ! (ppos p + 1)) (pdata p ! (ppos p + 2)) > d_remaining p + 997"
  shows "\<exists>q. parse_step p = (Inr (), q) \<and> d_screen q = d_screen p \<and> events q = events p
     \<and> ppos q = min (length (pdata p)) (ppos p + 5 + unat (pdata p ! (ppos p + 3)))"
proof -
  let ?d = "pdata p" and ?i = "ppos p" and ?hi = "pdata p ! (ppos p + 1)" and ?lo = "pdata p ! (ppos p + 2)"
  have r: "ready 5 p" using ready_remaining [OF assms(1), of 5] assms(2) by simp
  then have n: "?i + 5 \<le> length ?d" "dpos p \<le> ?i" by (simp_all add: ready_def)
  let ?p1 = "p\<lparr>ppos := ?i + 1\<rparr>" and ?p2 = "p\<lparr>ppos := ?i + 2, dpos := ?i + 2\<rparr>"
    and ?p3 = "p\<lparr>ppos := ?i + 3, dpos := ?i + 3\<rparr>"
  have read: "raw_read p = (Inr 0x88, ?p1)" using n assms(3) by (simp add: raw_read_def d_has_more_def)
  have r1: "ds_read ?p1 = (Inr ?hi, ?p2)" using n by (simp add: ds_read_def)
  have r2: "ds_read ?p2 = (Inr ?lo, ?p3)" using n by (simp add: ds_read_def numeral_eq_Suc)
  let ?t = "min (length ?d) (?i + 5 + unat (?d ! (?i + 3)))"
  have skip: "skip_structured_field ?p3 = (Inr (), p\<lparr>ppos := ?t, dpos := ?t\<rparr>)"
  proof -
    have "skip_target ?d (?i + 3) = ?t" using n assms(6) by (simp add: skip_target_def Let_def numeral_eq_Suc)
    with assms(5) show ?thesis by (simp add: skip_structured_field_def after_sf_id_def Let_def)
  qed
  have big: "be16 ?hi ?lo > d_remaining ?p3 + 1000" using assms(7) by (simp add: d_remaining_def)
  have rem: "\<not> d_remaining ?p1 < 3" using n by (simp add: d_remaining_def)
  have "handle_structured_field ?p1 = (Inr (), p\<lparr>ppos := ?t, dpos := ?t\<rparr>)"
    using r1 r2 skip big rem assms(4)
    by (simp add: handle_structured_field_def Let_def dget_def dtry_def handle_sf_body_def)
  then have "parse_step p = (Inr (), p\<lparr>ppos := ?t, dpos := ?t\<rparr>)"
    using read by (simp add: parse_step_def dbind_def order_handler_def sync_pos_def)
  then show ?thesis by simp
qed

end
