(* ===== verification/SenderProps.thy ===== *)
theory SenderProps
  imports OrderLoss
begin

text \<open>
  What the two halves of \<open>data_stream.py\<close> agree on: addresses and structured fields built by the
  sender and read by the parser, and the bind image on its way to the negotiator.
\<close>

section \<open>Addresses\<close>

lemma uint_of_int_byte: "0 \<le> n \<Longrightarrow> n < 256 \<Longrightarrow> uint (word_of_int n :: byte) = n"
  by (simp add: uint_word_of_int)

lemma drop_bit_8: "drop_bit 8 (a :: int) = a div 256"
  by (simp add: drop_bit_eq_div)

lemma and_ff: "(a :: int) AND 0xFF = a mod 256"
proof -
  have "(a AND 0xFF) = take_bit 8 a" by (simp add: take_bit_eq_mask mask_eq_exp_minus_1)
  then show ?thesis by (simp add: take_bit_eq_mod)
qed

lemma and_3fff: "(a :: int) AND 0x3FFF = a mod 16384"
proof -
  have "(a AND 0x3FFF) = take_bit 14 a" by (simp add: take_bit_eq_mask mask_eq_exp_minus_1)
  then show ?thesis by (simp add: take_bit_eq_mod)
qed

lemma byte_and_ff: "(b :: byte) AND 0xFF = b"
proof -
  have "(0xFF :: byte) = - 1" by simp
  then show ?thesis by (metis and.right_neutral)
qed

text \<open>
  Set Buffer Address from sender to parser: in 14-bit mode the parser decodes the address the
  sender encoded, for every row and column of an 80-column screen in range. In 12-bit mode the
  sender splits the address at bit 8 and the parser at bit 6, so exactly the first 64 positions
  survive the trip.
\<close>

lemma build_sba_decoded:
  assumes "0 \<le> row" and "0 \<le> col" and "row * 80 + col < 0x4000"
  shows "(\<exists>hi lo. build_sba row col MODE_14_BIT = [0x11, hi, lo]
            \<and> decode_address MODE_14_BIT hi lo = row * 80 + col)
       \<and> (\<exists>hi lo. build_sba row col MODE_12_BIT = [0x11, hi, lo]
            \<and> (decode_address MODE_12_BIT hi lo = row * 80 + col \<longleftrightarrow> row * 80 + col < 64))"
proof
  let ?a = "row * 80 + col"
  have a: "0 \<le> ?a" "?a < 16384" using assms by simp_all
  have hl: "0 \<le> ?a div 256" "?a div 256 < 64" "0 \<le> ?a mod 256" "?a mod 256 < 256"
    using a by auto
  let ?hi = "word_of_int (?a div 256) :: byte" and ?lo = "word_of_int (?a mod 256) :: byte"
  have u: "uint ?hi = ?a div 256" "uint ?lo = ?a mod 256" using hl by (simp_all add: uint_of_int_byte)
  have "build_sba row col MODE_14_BIT = [0x11, ?hi, ?lo]"
    using a by (simp add: build_sba_def Let_def and_3fff and_ff drop_bit_8 byte_and_ff)
  moreover have "decode_address MODE_14_BIT ?hi ?lo = ?a"
    by (simp add: decode_address_def be16_eq u)
  ultimately show "\<exists>hi lo. build_sba row col MODE_14_BIT = [0x11, hi, lo]
            \<and> decode_address MODE_14_BIT hi lo = ?a" by blast
  have "build_sba row col MODE_12_BIT = [0x11, ?hi AND 0x3F, ?lo]"
    by (simp add: build_sba_def sender_address_def and_ff drop_bit_8)
  moreover have "decode_address MODE_12_BIT (?hi AND 0x3F) ?lo = (?a div 256) * 64 + ?a mod 256 mod 64"
    using hl by (simp add: decode_address_def addr12_eq uint_and_3f u)
  moreover have "(?a div 256) * 64 + ?a mod 256 mod 64 = ?a \<longleftrightarrow> ?a < 64"
  proof
    have "?a mod 256 mod 64 \<le> ?a mod 256" using hl(3) by (rule zmod_le_nonneg_dividend)
    moreover have "?a mod 256 mod 64 < 64" "?a = ?a div 256 * 256 + ?a mod 256" by simp_all
    moreover assume "(?a div 256) * 64 + ?a mod 256 mod 64 = ?a"
    ultimately show "?a < 64" using hl(1) by linarith
  qed (use a in simp)
  ultimately show "\<exists>hi lo. build_sba row col MODE_12_BIT = [0x11, hi, lo]
            \<and> (decode_address MODE_12_BIT hi lo = ?a \<longleftrightarrow> ?a < 64)" by auto
qed

section \<open>Structured fields in a stream\<close>

lemma nth_of_drop: "drop i xs = y # ys \<Longrightarrow> i < length xs \<and> xs ! i = y \<and> drop (i + 1) xs = ys"
  by (metis Cons_nth_drop_Suc Suc_eq_plus1 drop_all list.distinct(1) list.inject not_le)

text \<open>A field whose payload is complete: what the step does before and after the dispatch.\<close>

lemma parse_step_sf:
  assumes "pos_ok p" and "drop (ppos p) (pdata p) = 0x88 # hi # lo # t # payload @ more_data"
    and "be16 hi lo - 1 = int (length payload)" and "hi \<noteq> 0x88"
    and "dispatch_sf t payload (p\<lparr>ppos := ppos p + 4 + length payload, dpos := ppos p + 4\<rparr>) = (Inr (), q)"
  shows "parse_step p = (Inr (), q\<lparr>dpos := ppos q\<rparr>)"
proof -
  let ?d = "pdata p" and ?i = "ppos p"
  from nth_of_drop [OF assms(2)] have d0: "?i < length ?d" "?d ! ?i = 0x88"
    "drop (?i + 1) ?d = hi # lo # t # payload @ more_data" by simp_all
  from nth_of_drop [OF d0(3)] have d1: "?i + 1 < length ?d" "?d ! (?i + 1) = hi"
    "drop (?i + 2) ?d = lo # t # payload @ more_data" by simp_all
  from nth_of_drop [OF d1(3)] have d2: "?i + 2 < length ?d" "?d ! (?i + 2) = lo"
    "drop (?i + 3) ?d = t # payload @ more_data" by (simp_all add: numeral_eq_Suc)
  from nth_of_drop [OF d2(3)] have d3: "?i + 3 < length ?d" "?d ! (?i + 3) = t"
    "drop (?i + 4) ?d = payload @ more_data" by (simp_all add: numeral_eq_Suc)
  have ok: "dpos p \<le> ?i" using assms(1) by (simp add: pos_ok_def)
  have len: "length ?d = ?i + 4 + length payload + length more_data"
    using arg_cong [OF d3(3), of length] d3(1) by simp
  let ?p1 = "p\<lparr>ppos := ?i + 1\<rparr>" and ?p2 = "p\<lparr>ppos := ?i + 2, dpos := ?i + 2\<rparr>"
    and ?p3 = "p\<lparr>ppos := ?i + 3, dpos := ?i + 3\<rparr>" and ?p4 = "p\<lparr>ppos := ?i + 4, dpos := ?i + 4\<rparr>"
  have r: "raw_read p = (Inr 0x88, ?p1)" using d0 by (simp add: raw_read_def d_has_more_def)
  have r1: "ds_read ?p1 = (Inr hi, ?p2)" using d1 ok by (simp add: ds_read_def)
  have r2: "ds_read ?p2 = (Inr lo, ?p3)" using d2 by (simp add: ds_read_def numeral_eq_Suc)
  have r3: "ds_read ?p3 = (Inr t, ?p4)" using d3 by (simp add: ds_read_def numeral_eq_Suc)
  have pl: "read_payload (be16 hi lo) ?p4
      = (Inr payload, p\<lparr>ppos := ?i + 4 + length payload, dpos := ?i + 4\<rparr>)"
    using assms(3) d3(3) len by (simp add: read_payload_def Let_def d_remaining_def)
  have "handle_sf_body hi lo ?p3 = (Inr (), q)"
    using r3 pl assms(3,5) len
    by (simp add: handle_sf_body_def dget_def d_remaining_def dtry_def dbind_def dret_def)
  then have "handle_structured_field ?p1 = (Inr (), q)"
    using r1 r2 d1 assms(4) len
    by (simp add: handle_structured_field_def Let_def dget_def dtry_def d_remaining_def)
  then show ?thesis
    using r by (simp add: parse_step_def dbind_def order_handler_def sync_pos_def)
qed


lemma to_be16_decode:
  assumes "to_be16 n = Some len"
  shows "\<exists>hi lo. len = [hi, lo] \<and> be16 hi lo = n \<and> (n < 0x8800 \<longrightarrow> hi \<noteq> 0x88)"
proof -
  have n: "0 \<le> n" "n < 65536" and len: "len = [word_of_int (n div 256), word_of_int (n mod 256)]"
    using assms by (auto simp: to_be16_def split: if_splits)
  then have u: "uint (word_of_int (n div 256) :: byte) = n div 256"
    "uint (word_of_int (n mod 256) :: byte) = n mod 256" by (auto intro!: uint_of_int_byte)
  have "word_of_int (n div 256) \<noteq> (0x88 :: byte)" if "n < 0x8800"
  proof
    assume "word_of_int (n div 256) = (0x88 :: byte)"
    then have "n div 256 = 0x88" using u(1) by simp
    with that show False by simp
  qed
  with len u show ?thesis by (simp add: be16_eq)
qed

text \<open>
  A query reply made by the parser itself and read back by a parser is one structured field:
  for data shorter than 34814 bytes the step consumes exactly the bytes of the reply, touches
  neither screen nor events, and goes on with what stands behind it.
\<close>

lemma query_reply_is_one_field:
  assumes "build_query_reply_sf query_type data = Some reply" and "length data < 34814"
    and "pos_ok p" and "drop (ppos p) (pdata p) = reply @ behind"
  shows "\<exists>q. parse_step p = (Inr (), q) \<and> d_screen q = d_screen p \<and> events q = events p
           \<and> pdata q = pdata p \<and> drop (ppos q) (pdata q) = behind"
proof -
  from assms(1) obtain len where len: "to_be16 (2 + int (length data)) = Some len"
    and reply: "reply = 0x88 # len @ 0x93 # query_type # data"
    by (auto simp: build_query_reply_sf_def Let_def)
  from to_be16_decode [OF len] assms(2) obtain hi lo
    where hl: "len = [hi, lo]" "be16 hi lo = 2 + int (length data)" "hi \<noteq> 0x88" by auto
  have d: "drop (ppos p) (pdata p) = 0x88 # hi # lo # 0x93 # (query_type # data) @ behind"
    using assms(4) reply hl by simp
  let ?q = "p\<lparr>ppos := ppos p + 4 + length (query_type # data), dpos := ppos p + 4\<rparr>"
  have "dispatch_sf 0x93 (query_type # data) ?q = (Inr (), ?q)" by (simp add: dispatch_sf_def dret_def)
  from parse_step_sf [OF assms(3) d _ hl(3) this]
  have "parse_step p = (Inr (), ?q\<lparr>dpos := ppos ?q\<rparr>)" using hl(2) by simp
  moreover have "drop (ppos ?q) (pdata p) = drop (4 + length (query_type # data)) (drop (ppos p) (pdata p))"
    by (simp add: ac_simps)
  then have "drop (ppos ?q) (pdata p) = behind" unfolding d by (simp add: numeral_eq_Suc)
  ultimately show ?thesis by auto
qed

text \<open>
  The printer status field of the sender declares a length that counts three bytes it does
  not have, so the parser delivers the status and takes the next two bytes of the stream, whatever
  they are, as part of the field.
\<close>

lemma printer_status_swallows_two:
  assumes "pos_ok p" and "drop (ppos p) (pdata p) = build_printer_status_sf status @ [x, y] @ behind"
    and "has_printer p"
  shows "\<exists>q. parse_step p = (Inr (), q) \<and> events q = events p @ [Ev_printer_status status]
           \<and> d_screen q = d_screen p \<and> drop (ppos q) (pdata q) = behind"
proof -
  have d: "drop (ppos p) (pdata p) = 0x88 # 0x00 # 0x04 # 0x02 # [status, x, y] @ behind"
    using assms(2) by (simp add: build_printer_status_sf_def)
  let ?p = "p\<lparr>ppos := ppos p + 4 + length [status, x, y], dpos := ppos p + 4\<rparr>"
  let ?q = "?p\<lparr>events := events p @ [Ev_printer_status status]\<rparr>"
  have "dispatch_sf 0x02 [status, x, y] ?p = (Inr (), ?q)"
    using assms(3) by (simp add: dispatch_sf_def handle_printer_status_sf_def emit_def)
  from parse_step_sf [OF assms(1) d _ _ this]
  have "parse_step p = (Inr (), ?q\<lparr>dpos := ppos ?q\<rparr>)" by (simp add: be16_eq)
  moreover have "drop (ppos ?q) (pdata p) = drop 7 (drop (ppos p) (pdata p))" by (simp add: add.commute)
  then have "drop (ppos ?q) (pdata p) = behind" unfolding d by simp
  ultimately show ?thesis by auto
qed

section \<open>Bind images\<close>

text \<open>
  Bind images do not arrive: for data of type BIND-IMAGE \<open>parse\<close> gives the negotiator, if
  there is one, a bind image without rows, columns or any other field, whatever the data was, and
  changes nothing on the screen.
\<close>

lemma bind_image_never_arrives:
  "parse data 3 p = Some (Inr (), q) \<Longrightarrow>
     d_screen q = d_screen p \<and>
     events q = events p @ (if has_negotiator p then [Ev_bind_image BindImage_default] else [])"
  by (auto simp: parse_def Let_def handle_bind_sf_def emit_def)

text \<open>
  The bind image parser itself raises exactly on empty data and on a BIND without a screen
  size it knows: the message it formats for the log needs the flags. Any other data gives an image,
  and the image of a BIND has rows, columns and flags.
\<close>

lemma parse_bind_image_raises_iff:
  "(parse_bind_image decode data = Inl IndexError \<longleftrightarrow> data = [])
   \<and> (parse_bind_image decode data = Inl TypeError \<longleftrightarrow>
        data \<noteq> [] \<and> data ! 0 = 0x31 \<and>
        (length data \<le> 24 \<or> data ! 24 \<notin> {0x00, 0x02, 0x03, 0x7E, 0x7F}))
   \<and> (\<forall>e. parse_bind_image decode data = Inl e \<longrightarrow> e \<in> {IndexError, TypeError})
   \<and> (\<forall>b. parse_bind_image decode data = Inr b \<longrightarrow>
        (if data ! 0 \<noteq> 0x31 then b = BindImage_default
         else bi_rows b \<noteq> None \<and> bi_cols b \<noteq> None \<and> bi_flags b = Some (uint (data ! 24))))"
  by (cases "data = []"; cases "data ! 0 = 0x31")
    (auto simp: parse_bind_image_def bind_screen_size_def Let_def split: if_splits)

end
