(* ===== verification/PyText.thy ===== *)
theory PyText
  imports Prelude3270 "HOL-Library.Char_ord"
begin

text \<open>
  The operations of Python's \<open>str\<close> and \<open>bytes\<close> that the protocol code uses on names: splitting,
  joining, stripping, and the ASCII codec with its two ways to treat other bytes.
\<close>

section \<open>Splitting and joining\<close>

fun py_split :: "'a \<Rightarrow> 'a list \<Rightarrow> 'a list list" where
  "py_split c [] = [[]]"
| "py_split c (x # xs) =
     (if x = c then [] # py_split c xs
      else case py_split c xs of [] \<Rightarrow> [[x]] | w # ws \<Rightarrow> (x # w) # ws)"

fun join_with :: "'a list \<Rightarrow> 'a list list \<Rightarrow> 'a list" where
  "join_with sep [] = []"
| "join_with sep [x] = x"
| "join_with sep (x # y # xs) = x @ sep @ join_with sep (y # xs)"

lemma py_split_word: "c \<notin> set w \<Longrightarrow> py_split c w = [w]"
  by (induction w) auto

lemma py_split_append: "c \<notin> set w \<Longrightarrow> py_split c (w @ c # xs) = w # py_split c xs"
  by (induction w) auto

lemma split_join:
  assumes "ws \<noteq> []" and "\<forall>w \<in> set ws. c \<notin> set w"
  shows "py_split c (join_with [c] ws) = ws"
  using assms by (induction "[c]" ws rule: join_with.induct) (auto simp: py_split_word py_split_append)

section \<open>Stripping\<close>

definition py_space :: "char \<Rightarrow> bool" where
  "py_space c \<longleftrightarrow> (of_char c :: nat) \<in> {9, 10, 11, 12, 13, 28, 29, 30, 31, 32, 133, 160}"

definition strip_right :: "('a \<Rightarrow> bool) \<Rightarrow> 'a list \<Rightarrow> 'a list" where
  "strip_right f xs = rev (dropWhile f (rev xs))"

definition py_strip :: "string \<Rightarrow> string" where
  "py_strip s = strip_right py_space (dropWhile py_space s)"

text \<open>\<open>s.rstrip("\\x00")\<close>\<close>

definition rstrip_nul :: "string \<Rightarrow> string" where
  "rstrip_nul = strip_right (\<lambda>c. c = CHR 0x00)"

lemma strip_right_id: "xs = [] \<or> \<not> f (last xs) \<Longrightarrow> strip_right f xs = xs"
  by (cases xs rule: rev_cases) (auto simp: strip_right_def)

lemma py_strip_id: "s = [] \<or> \<not> py_space (hd s) \<and> \<not> py_space (last s) \<Longrightarrow> py_strip s = s"
  by (cases s) (auto simp: py_strip_def strip_right_id)

lemma strip_right_snoc: "f x \<Longrightarrow> strip_right f (xs @ [x]) = strip_right f xs"
  by (simp add: strip_right_def)

section \<open>The ASCII codec\<close>

definition byte_char :: "byte \<Rightarrow> char" where
  "byte_char b = char_of (unat b)"

definition char_byte :: "char \<Rightarrow> byte" where
  "char_byte c = of_nat (of_char c)"

lemma char_byte_char [simp]: "char_byte (byte_char b) = b"
proof -
  have "unat b < 256" using unsigned_less [of b] by simp
  then show ?thesis by (simp add: char_byte_def byte_char_def of_char_of)
qed

lemma byte_char_byte [simp]: "byte_char (char_byte c) = c"
  by (simp add: char_byte_def byte_char_def unat_of_nat)

definition is_ascii :: "string \<Rightarrow> bool" where
  "is_ascii s \<longleftrightarrow> list_all (\<lambda>c. (of_char c :: nat) < 128) s"

text \<open>\<open>encode("ascii")\<close> raises for other characters, \<open>decode("ascii")\<close> for other bytes.\<close>

definition ascii_encode :: "string \<Rightarrow> bytes option" where
  "ascii_encode s = (if is_ascii s then Some (map char_byte s) else None)"

definition ascii_decode :: "bytes \<Rightarrow> string option" where
  "ascii_decode bs = (if list_all (\<lambda>b. b < 0x80) bs then Some (map byte_char bs) else None)"

text \<open>\<open>decode("ascii", errors="ignore")\<close>\<close>

definition ascii_decode_ignore :: "bytes \<Rightarrow> string" where
  "ascii_decode_ignore bs = map byte_char (filter (\<lambda>b. b < 0x80) bs)"

lemma char_byte_less: "(char_byte c < 0x80) \<longleftrightarrow> ((of_char c :: nat) < 128)"
proof -
  have "(of_char c :: nat) < 256" by (rule nat_of_char_less_256)
  then show ?thesis by (simp add: char_byte_def word_less_nat_alt unat_of_nat)
qed

lemma ascii_bytes: "list_all (\<lambda>b. b < 0x80) (map char_byte s) \<longleftrightarrow> is_ascii s"
  by (simp add: list.pred_map o_def char_byte_less is_ascii_def)

lemma ascii_roundtrip: "ascii_encode s = Some bs \<Longrightarrow> ascii_decode bs = Some s"
  by (auto simp: ascii_encode_def ascii_decode_def ascii_bytes o_def split: if_splits)

lemma decode_ignore_ascii: "ascii_encode s = Some bs \<Longrightarrow> ascii_decode_ignore bs = s"
  by (auto simp: ascii_encode_def ascii_decode_ignore_def o_def char_byte_less is_ascii_def
      list_all_iff filter_id_conv split: if_splits)

text \<open>\<open>data.split(b"\\x00", 1)[0]\<close>\<close>

definition before_nul :: "bytes \<Rightarrow> bytes" where
  "before_nul = takeWhile (\<lambda>b. b \<noteq> 0)"

lemma before_nul_word: "0 \<notin> set w \<Longrightarrow> before_nul (w @ 0 # bs) = w"
  by (induction w) (auto simp: before_nul_def)

lemma before_nul_id: "0 \<notin> set w \<Longrightarrow> before_nul w = w"
  by (induction w) (auto simp: before_nul_def)

text \<open>\<open>decode("ascii", errors="replace")\<close>, as the list of its code points\<close>

definition decode_replace :: "bytes \<Rightarrow> nat list" where
  "decode_replace bs = map (\<lambda>b. if b < 0x80 then unat b else 0xFFFD) bs"

text \<open>\<open>encode("ascii", errors="replace")\<close>\<close>

definition encode_replace :: "string \<Rightarrow> bytes" where
  "encode_replace s = map (\<lambda>c. if (of_char c :: nat) < 128 then char_byte c else 0x3F) s"

text \<open>\<open>needle in haystack\<close>, for strings and for bytes\<close>

fun py_contains :: "'a list \<Rightarrow> 'a list \<Rightarrow> bool" where
  "py_contains needle [] \<longleftrightarrow> needle = []"
| "py_contains needle (x # xs) \<longleftrightarrow>
     take (length needle) (x # xs) = needle \<or> py_contains needle xs"

lemma py_contains_iff: "py_contains needle xs \<longleftrightarrow> (\<exists>pre post. xs = pre @ needle @ post)"
proof (induction xs)
  case (Cons x xs)
  have "(\<exists>pre post. x # xs = pre @ needle @ post)
      \<longleftrightarrow> (\<exists>post. x # xs = needle @ post) \<or> (\<exists>pre post. xs = pre @ needle @ post)"
    by (metis append_Cons append_Nil neq_Nil_conv list.inject)
  moreover have "(\<exists>post. x # xs = needle @ post) \<longleftrightarrow> take (length needle) (x # xs) = needle"
    by (metis append_eq_conv_conj append_take_drop_id)
  ultimately show ?case using Cons by simp
qed simp

definition py_startswith :: "string \<Rightarrow> string \<Rightarrow> bool" where
  "py_startswith pre s \<longleftrightarrow> take (length pre) s = pre"

text \<open>\<open>str(n)\<close> of a number that is not negative\<close>

function decimal_text :: "nat \<Rightarrow> string" where
  "decimal_text n =
     (if n < 10 then [char_of (48 + n)] else decimal_text (n div 10) @ [char_of (48 + n mod 10)])"
  by auto
termination by (relation "measure id") auto

declare decimal_text.simps [simp del]

text \<open>\<open>int.from_bytes(bs, byteorder="big")\<close>\<close>

definition int_from_bytes :: "bytes \<Rightarrow> int" where
  "int_from_bytes bs = foldl (\<lambda>n b. 256 * n + uint b) 0 bs"

end
