(* ===== verification/IndFiles.thy ===== *)
theory IndFiles
  imports SenderProps PyText
begin

text \<open>
  \<open>pure3270/ind_file.py\<close>: file transfer with the IND$FILE protocol. The local files are a map from
  paths to contents. What the operating system and the connection do is the record \<open>ind_world\<close>, an
  argument of the operations: which calls succeed, and the texts of the exceptions they raise. Every
  await of a send lets the host's messages in: the state carries the batches of messages that arrive
  during the next awaits, so each interleaving of the two sides is a run of the model.
\<close>

section \<open>Messages\<close>

record IndFileMessage =
  sub_command :: byte
  msg_payload :: bytes

datatype ind_exception =
    IndFileError string
  | UnicodeEncodeError string
  | OSError string
  | SendFailed string

fun exception_text :: "ind_exception \<Rightarrow> string" where
  "exception_text (IndFileError t) = t"
| "exception_text (UnicodeEncodeError t) = t"
| "exception_text (OSError t) = t"
| "exception_text (SendFailed t) = t"

record ind_world =
  can_read :: "string \<Rightarrow> bool"
  can_write :: "string \<Rightarrow> bool"
  can_remove :: "string \<Rightarrow> bool"
  can_store :: "string \<Rightarrow> bytes \<Rightarrow> bool"
  link_up :: "bytes list \<Rightarrow> bool"
  os_text :: "string \<Rightarrow> string"
  link_text :: string
  codec_text :: "string \<Rightarrow> string"

definition IND_FILE_UPLOAD :: byte where "IND_FILE_UPLOAD = 0x00"
definition IND_FILE_DOWNLOAD :: byte where "IND_FILE_DOWNLOAD = 0x01"
definition IND_FILE_DATA :: byte where "IND_FILE_DATA = 0x02"
definition IND_FILE_EOF :: byte where "IND_FILE_EOF = 0x03"
definition IND_FILE_ERROR :: byte where "IND_FILE_ERROR = 0x04"

lemmas ind_codes = IND_FILE_UPLOAD_def IND_FILE_DOWNLOAD_def IND_FILE_DATA_def IND_FILE_EOF_def
  IND_FILE_ERROR_def

text \<open>The messages that carry text, with the exception of the codec.\<close>

definition text_message :: "ind_world \<Rightarrow> byte \<Rightarrow> bytes \<Rightarrow> string \<Rightarrow> ind_exception + IndFileMessage" where
  "text_message w code terminator s =
     (case ascii_encode s of
        None \<Rightarrow> Inl (UnicodeEncodeError (codec_text w s))
      | Some bs \<Rightarrow> Inr \<lparr>sub_command = code, msg_payload = bs @ terminator\<rparr>)"

definition create_upload_request :: "ind_world \<Rightarrow> string \<Rightarrow> ind_exception + IndFileMessage" where
  "create_upload_request w name = text_message w IND_FILE_UPLOAD [0] name"

definition create_download_request :: "ind_world \<Rightarrow> string \<Rightarrow> ind_exception + IndFileMessage" where
  "create_download_request w name = text_message w IND_FILE_DOWNLOAD [0] name"

definition create_error :: "ind_world \<Rightarrow> string \<Rightarrow> ind_exception + IndFileMessage" where
  "create_error w text = text_message w IND_FILE_ERROR [] text"

definition create_data :: "bytes \<Rightarrow> IndFileMessage" where
  "create_data d = \<lparr>sub_command = IND_FILE_DATA, msg_payload = d\<rparr>"

definition create_eof :: IndFileMessage where
  "create_eof = \<lparr>sub_command = IND_FILE_EOF, msg_payload = []\<rparr>"

definition ind_to_bytes :: "IndFileMessage \<Rightarrow> bytes" where
  "ind_to_bytes m = sub_command m # msg_payload m"

text \<open>\<open>None\<close> is the \<open>ValueError\<close> of an empty message.\<close>

definition ind_from_bytes :: "bytes \<Rightarrow> IndFileMessage option" where
  "ind_from_bytes d = (case d of [] \<Rightarrow> None | c # p \<Rightarrow> Some \<lparr>sub_command = c, msg_payload = p\<rparr>)"

definition get_filename :: "IndFileMessage \<Rightarrow> nat list option" where
  "get_filename m =
     (if 0 \<in> set (msg_payload m) then Some (decode_replace (before_nul (msg_payload m))) else None)"

definition get_error_message :: "IndFileMessage \<Rightarrow> nat list option" where
  "get_error_message m = (if msg_payload m = [] then None else Some (decode_replace (msg_payload m)))"

text \<open>The structured field that carries a message; \<open>word_of_int\<close> of eight bits is \<open>& 0xFF\<close>.\<close>

definition ind_file_sf :: "IndFileMessage \<Rightarrow> bytes" where
  "ind_file_sf m =
     (let d = ind_to_bytes m; n = int (length d) + 3
      in [0x88, word_of_int (drop_bit 8 n), word_of_int n, 0xD0] @ d)"

section \<open>A transfer\<close>

record ind_transfer =
  upload :: bool
  remote_name :: string
  local_path :: string
  handle_open :: bool
  is_active :: bool
  bytes_transferred :: nat

text \<open>\<open>completion\<close> is the event: absent, or present and set or not.\<close>

record ind_state =
  files :: "string \<Rightarrow> bytes option"
  transfer :: "ind_transfer option"
  completion :: "bool option"
  outbox :: "bytes list"
  inbox :: "IndFileMessage list list"

definition IndFileTransfer :: "bool \<Rightarrow> string \<Rightarrow> string \<Rightarrow> ind_transfer" where
  "IndFileTransfer up remote path =
     \<lparr>upload = up, remote_name = remote, local_path = path, handle_open = False, is_active = True,
      bytes_transferred = 0\<rparr>"

definition IndFile_init :: "(string \<Rightarrow> bytes option) \<Rightarrow> ind_state" where
  "IndFile_init fs = \<lparr>files = fs, transfer = None, completion = None, outbox = [], inbox = []\<rparr>"

text \<open>Opening a file for writing empties it.\<close>

definition start_transfer :: "ind_world \<Rightarrow> ind_transfer \<Rightarrow> ind_state \<Rightarrow> ind_exception option \<times> ind_state" where
  "start_transfer w tr s =
     (if upload tr then (None, s)
      else if can_write w (local_path tr)
      then (None, s\<lparr>files := (files s)(local_path tr := Some []), transfer := Some (tr\<lparr>handle_open := True\<rparr>)\<rparr>)
      else (Some (IndFileError (''Failed to open local file for download: '' @ os_text w (local_path tr))),
            s\<lparr>transfer := Some (tr\<lparr>is_active := False\<rparr>)\<rparr>))"

definition write_data :: "ind_world \<Rightarrow> ind_transfer \<Rightarrow> bytes \<Rightarrow> ind_state \<Rightarrow> ind_exception option \<times> ind_state" where
  "write_data w tr d s =
     (if handle_open tr \<and> \<not> upload tr
      then (if can_store w (local_path tr) d
            then (None, s\<lparr>files := (files s)(local_path tr :=
                             Some (case files s (local_path tr) of None \<Rightarrow> d | Some old \<Rightarrow> old @ d)),
                          transfer := Some (tr\<lparr>bytes_transferred := bytes_transferred tr + length d\<rparr>)\<rparr>)
            else (Some (OSError (os_text w (local_path tr))), s))
      else (None, s))"

definition finish :: "ind_transfer \<Rightarrow> ind_transfer" where
  "finish tr = tr\<lparr>handle_open := False, is_active := False\<rparr>"

text \<open>Every caller of \<open>abort\<close> forgets the transfer right after it.\<close>

definition abort_transfer :: "ind_world \<Rightarrow> ind_transfer \<Rightarrow> ind_state \<Rightarrow> ind_state" where
  "abort_transfer w tr s =
     (let s' = s\<lparr>transfer := Some (finish tr)\<rparr>
      in if files s' (local_path tr) \<noteq> None \<and> \<not> upload tr \<and> can_remove w (local_path tr)
         then s'\<lparr>files := (files s')(local_path tr := None)\<rparr> else s')"

definition drop_transfer :: "ind_world \<Rightarrow> ind_state \<Rightarrow> ind_state" where
  "drop_transfer w s =
     (case transfer s of None \<Rightarrow> s | Some tr \<Rightarrow> (abort_transfer w tr s)\<lparr>transfer := None\<rparr>)"

definition finish_transfer :: "ind_state \<Rightarrow> ind_state" where
  "finish_transfer s =
     (case transfer s of None \<Rightarrow> s | Some tr \<Rightarrow> s\<lparr>transfer := Some (finish tr)\<rparr>\<lparr>transfer := None\<rparr>)"

definition signal_completion :: "ind_state \<Rightarrow> ind_state" where
  "signal_completion s = s\<lparr>completion := map_option (\<lambda>_. True) (completion s)\<rparr>"

section \<open>Messages of the host\<close>

text \<open>Requests of the host are only logged.\<close>

definition handle_incoming_message :: "ind_world \<Rightarrow> IndFileMessage \<Rightarrow> ind_state \<Rightarrow> ind_state" where
  "handle_incoming_message w m s =
     (case transfer s of
        None \<Rightarrow> s
      | Some tr \<Rightarrow>
          if sub_command m = IND_FILE_DATA
          then (case write_data w tr (msg_payload m) s of
                  (None, s') \<Rightarrow> s'
                | (Some _, s') \<Rightarrow> signal_completion (drop_transfer w s'))
          else if sub_command m = IND_FILE_EOF then signal_completion (finish_transfer s)
          else if sub_command m = IND_FILE_ERROR then signal_completion (drop_transfer w s)
          else s)"

definition handle_incoming_data :: "ind_world \<Rightarrow> bytes \<Rightarrow> ind_state \<Rightarrow> ind_state" where
  "handle_incoming_data w d s =
     (case ind_from_bytes d of None \<Rightarrow> s | Some m \<Rightarrow> handle_incoming_message w m s)"

section \<open>Operations of the client\<close>

text \<open>An await lets the next batch of the host's messages in.\<close>

definition deliver :: "ind_world \<Rightarrow> ind_state \<Rightarrow> ind_state" where
  "deliver w s =
     (case inbox s of
        [] \<Rightarrow> s
      | batch # later \<Rightarrow> fold (handle_incoming_message w) batch (s\<lparr>inbox := later\<rparr>))"

definition send_ind_file_message ::
    "ind_world \<Rightarrow> IndFileMessage \<Rightarrow> ind_state \<Rightarrow> ind_exception option \<times> ind_state" where
  "send_ind_file_message w m s =
     (if link_up w (outbox s) then (None, deliver w (s\<lparr>outbox := outbox s @ [ind_file_sf m]\<rparr>))
      else (Some (SendFailed (link_text w)), s))"

fun send_all :: "ind_world \<Rightarrow> IndFileMessage list \<Rightarrow> ind_state \<Rightarrow> ind_exception option \<times> ind_state" where
  "send_all w [] s = (None, s)"
| "send_all w (m # ms) s =
     (case send_ind_file_message w m s of
        (None, s') \<Rightarrow> send_all w ms s'
      | (Some e, s') \<Rightarrow> (Some e, s'))"

text \<open>\<open>f.read(n)\<close> until it returns nothing\<close>

function chunks :: "nat \<Rightarrow> bytes \<Rightarrow> bytes list" where
  "chunks n d = (if d = [] \<or> n = 0 then [] else take n d # chunks n (drop n d))"
  by auto
termination by (relation "measure (length \<circ> snd)") auto

declare chunks.simps [simp del]

definition send_body :: "ind_world \<Rightarrow> string \<Rightarrow> string \<Rightarrow> ind_state \<Rightarrow> ind_exception option \<times> ind_state" where
  "send_body w path remote s =
     (case create_upload_request w remote of
        Inl e \<Rightarrow> (Some e, s)
      | Inr m \<Rightarrow>
          (case send_ind_file_message w m s of
             (Some e, s1) \<Rightarrow> (Some e, s1)
           | (None, s1) \<Rightarrow>
               (case files s1 path of
                  Some content \<Rightarrow>
                    if can_read w path
                    then send_all w (map create_data (chunks 4096 content) @ [create_eof]) s1
                    else (Some (OSError (os_text w path)), s1)
                | None \<Rightarrow> (Some (OSError (os_text w path)), s1))))"

definition report_error :: "ind_world \<Rightarrow> ind_exception \<Rightarrow> ind_state \<Rightarrow> ind_exception option \<times> ind_state" where
  "report_error w e s =
     (case create_error w (exception_text e) of
        Inl e' \<Rightarrow> (Some e', s)
      | Inr m \<Rightarrow>
          (case send_ind_file_message w m s of
             (Some e', s') \<Rightarrow> (Some e', s')
           | (None, s') \<Rightarrow> (Some (IndFileError (''File transfer failed: '' @ exception_text e)), s')))"

text \<open>\<open>IndFile.send\<close>; the first component is the exception it ends with.\<close>

definition ind_send :: "ind_world \<Rightarrow> string \<Rightarrow> string \<Rightarrow> ind_state \<Rightarrow> ind_exception option \<times> ind_state" where
  "ind_send w path remote s =
     (if transfer s \<noteq> None then (Some (IndFileError ''Another file transfer is already in progress''), s)
      else if files s path = None then (Some (IndFileError (''Local file does not exist: '' @ path)), s)
      else (let tr = IndFileTransfer True remote path;
                (e, s2) = (case start_transfer w tr (s\<lparr>transfer := Some tr\<rparr>) of
                             (Some e, s1) \<Rightarrow> (Some e, s1)
                           | (None, s1) \<Rightarrow> send_body w path remote s1);
                (e', s3) = (case e of
                              None \<Rightarrow> (None, s2)
                            | Some x \<Rightarrow> report_error w x (drop_transfer w s2))
            in (e', finish_transfer s3)))"

text \<open>The coroutine goes on as soon as the event is set; what comes later finds no transfer.\<close>

fun wait_loop :: "ind_world \<Rightarrow> IndFileMessage list \<Rightarrow> ind_state \<Rightarrow> bool \<times> ind_state" where
  "wait_loop w [] s = (completion s = Some True, s)"
| "wait_loop w (m # ms) s =
     (if completion s = Some True then (True, s) else wait_loop w ms (handle_incoming_message w m s))"

definition wait_for_completion :: "ind_world \<Rightarrow> ind_state \<Rightarrow> bool \<times> ind_state" where
  "wait_for_completion w s =
     (case inbox s of
        [] \<Rightarrow> (False, s)
      | batch # later \<Rightarrow> wait_loop w batch (s\<lparr>inbox := later\<rparr>))"

definition receive_body :: "ind_world \<Rightarrow> string \<Rightarrow> ind_state \<Rightarrow> ind_exception option \<times> ind_state" where
  "receive_body w remote s =
     (case create_download_request w remote of
        Inl e \<Rightarrow> (Some e, s)
      | Inr m \<Rightarrow>
          (case send_ind_file_message w m s of
             (Some e, s1) \<Rightarrow> (Some e, s1)
           | (None, s1) \<Rightarrow>
               (case wait_for_completion w (s1\<lparr>completion := Some False\<rparr>) of
                  (True, s2) \<Rightarrow> (None, s2)
                | (False, s2) \<Rightarrow> (Some (IndFileError (''File receive timeout for '' @ remote)), drop_transfer w s2))))"

definition ind_receive :: "ind_world \<Rightarrow> string \<Rightarrow> string \<Rightarrow> ind_state \<Rightarrow> ind_exception option \<times> ind_state" where
  "ind_receive w remote path s =
     (if transfer s \<noteq> None then (Some (IndFileError ''Another file transfer is already in progress''), s)
      else (let tr = IndFileTransfer False remote path;
                (e, s2) = (case start_transfer w tr (s\<lparr>transfer := Some tr\<rparr>) of
                             (Some e, s1) \<Rightarrow> (Some e, s1)
                           | (None, s1) \<Rightarrow> receive_body w remote s1);
                (e', s3) = (case e of
                              None \<Rightarrow> (None, s2)
                            | Some x \<Rightarrow> (Some (IndFileError (''File receive failed: '' @ exception_text x)),
                                         drop_transfer w s2))
            in (e', s3\<lparr>completion := None\<rparr>)))"

section \<open>Lemmas\<close>

lemma ind_bytes_roundtrip [simp]: "ind_from_bytes (ind_to_bytes m) = Some m"
  by (simp add: ind_from_bytes_def ind_to_bytes_def)

lemma chunks_concat: "0 < n \<Longrightarrow> concat (chunks n d) = d"
proof (induction n d rule: chunks.induct)
  case (1 n d)
  then show ?case by (subst chunks.simps) auto
qed

lemma chunks_size: "0 < n \<Longrightarrow> c \<in> set (chunks n d) \<Longrightarrow> c \<noteq> [] \<and> length c \<le> n"
proof (induction n d rule: chunks.induct)
  case (1 n d)
  then show ?case by (subst (asm) chunks.simps) (auto split: if_splits)
qed

lemma filename_of_request:
  assumes "text_message w code [0] name = Inr m" and "0 \<notin> set (map char_byte name)"
  shows "get_filename m = Some (map of_char name)"
proof -
  have a: "is_ascii name" "m = \<lparr>sub_command = code, msg_payload = map char_byte name @ [0]\<rparr>"
    using assms(1) by (auto simp: text_message_def ascii_encode_def split: if_splits)
  have "unat (char_byte c) = of_char c" for c
    using nat_of_char_less_256 [of c] by (simp add: char_byte_def unat_of_nat)
  then show ?thesis
    using a assms(2) by (auto simp: get_filename_def decode_replace_def before_nul_word is_ascii_def
        list_all_iff char_byte_less)
qed

text \<open>What a batch of messages keeps is what each of them keeps.\<close>

lemma fold_keeps:
  assumes "\<And>m s. P s \<Longrightarrow> P (f m s)" and "P s" shows "P (fold f ms s)"
  using assms(2) by (induction ms arbitrary: s) (simp_all add: assms(1))

lemma deliver_keeps:
  assumes "\<And>m s. P s \<Longrightarrow> P (handle_incoming_message w m s)" and "\<And>s x. P s \<Longrightarrow> P (s\<lparr>inbox := x\<rparr>)"
    and "P s"
  shows "P (deliver w s)"
  using assms by (simp add: deliver_def fold_keeps split: list.split)

lemma send_keeps:
  assumes "\<And>m s. P s \<Longrightarrow> P (handle_incoming_message w m s)" and "\<And>s x. P s \<Longrightarrow> P (s\<lparr>inbox := x\<rparr>)"
    and "\<And>s x. P s \<Longrightarrow> P (s\<lparr>outbox := x\<rparr>)" and "P s"
  shows "P (snd (send_ind_file_message w m s))"
  using assms by (simp add: send_ind_file_message_def deliver_keeps)

subsection \<open>An upload\<close>

text \<open>While there is no download, the host's messages change neither files nor what was sent.\<close>

definition uploading :: "(string \<Rightarrow> bytes option) \<Rightarrow> ind_state \<Rightarrow> bool" where
  "uploading fs s \<longleftrightarrow> files s = fs \<and> completion s = None \<and> (\<forall>tr. transfer s = Some tr \<longrightarrow> upload tr)"

lemma uploading_handle: "uploading fs s \<Longrightarrow> uploading fs (handle_incoming_message w m s)"
  by (auto simp: uploading_def handle_incoming_message_def write_data_def signal_completion_def
      finish_transfer_def drop_transfer_def abort_transfer_def Let_def split: option.split)

lemma uploading_modes [simp]:
  "uploading fs (s\<lparr>inbox := x\<rparr>) = uploading fs s" "uploading fs (s\<lparr>outbox := y\<rparr>) = uploading fs s"
  by (simp_all add: uploading_def)

lemma uploading_send: "uploading fs s \<Longrightarrow> uploading fs (snd (send_ind_file_message w m s))"
  by (rule send_keeps) (simp_all add: uploading_handle)

lemma handle_outbox [simp]: "outbox (handle_incoming_message w m s) = outbox s"
  by (simp add: handle_incoming_message_def write_data_def signal_completion_def
      finish_transfer_def drop_transfer_def abort_transfer_def Let_def split: option.split)

lemma deliver_outbox [simp]: "outbox (deliver w s) = outbox s"
proof -
  have "outbox (fold (handle_incoming_message w) ms s') = outbox s'" for ms s'
    by (induction ms arbitrary: s') simp_all
  then show ?thesis by (simp add: deliver_def split: list.split)
qed

lemma uploading_send_all: "uploading fs s \<Longrightarrow> uploading fs (snd (send_all w ms s))"
proof (induction ms arbitrary: s)
  case (Cons m ms)
  from uploading_send [OF Cons.prems, of w m] Cons.IH show ?case
    by (cases "send_ind_file_message w m s") (auto split: option.split)
qed simp

lemma send_all_sends:
  assumes "\<And>sent. link_up w sent"
  shows "fst (send_all w ms s) = None \<and> outbox (snd (send_all w ms s)) = outbox s @ map ind_file_sf ms"
proof (induction ms arbitrary: s)
  case (Cons m ms)
  have "send_ind_file_message w m s = (None, deliver w (s\<lparr>outbox := outbox s @ [ind_file_sf m]\<rparr>))"
    using assms by (simp add: send_ind_file_message_def)
  with Cons.IH [of "deliver w (s\<lparr>outbox := outbox s @ [ind_file_sf m]\<rparr>)"] show ?case by simp
qed simp

lemma uploading_send_body: "uploading fs s \<Longrightarrow> uploading fs (snd (send_body w path remote s))"
  using uploading_send [of fs s w] uploading_send_all [of fs]
  by (auto simp: send_body_def split: sum.split option.split prod.split)
     (metis snd_conv)+

lemma uploading_report: "uploading fs s \<Longrightarrow> uploading fs (snd (report_error w e s))"
  using uploading_send [of fs s w]
  by (auto simp: report_error_def split: sum.split option.split prod.split) (metis snd_conv)+

lemma uploading_drop: "uploading fs s \<Longrightarrow> uploading fs (drop_transfer w s)"
  by (auto simp: uploading_def drop_transfer_def abort_transfer_def Let_def split: option.split)

lemma finish_transfer_fields [simp]:
  "transfer (finish_transfer s) = None" "files (finish_transfer s) = files s"
  "completion (finish_transfer s) = completion s" "outbox (finish_transfer s) = outbox s"
  by (simp_all add: finish_transfer_def split: option.split)

lemma upload_ends:
  assumes "transfer s = None" and "completion s = None"
  shows "transfer (snd (ind_send w path remote s)) = None
       \<and> completion (snd (ind_send w path remote s)) = None
       \<and> files (snd (ind_send w path remote s)) = files s"
proof (cases "files s path")
  case None
  with assms show ?thesis by (simp add: ind_send_def)
next
  case (Some content)
  let ?s = "s\<lparr>transfer := Some (IndFileTransfer True remote path)\<rparr>"
  have u: "uploading (files s) ?s" using assms by (simp add: uploading_def IndFileTransfer_def)
  have start: "start_transfer w (IndFileTransfer True remote path) ?s = (None, ?s)"
    by (simp add: start_transfer_def IndFileTransfer_def)
  obtain e s2 where b: "send_body w path remote ?s = (e, s2)" by (cases "send_body w path remote ?s") blast
  have u2: "uploading (files s) s2" using uploading_send_body [OF u, of w path remote] b by simp
  obtain e' s3 where r: "(case e of None \<Rightarrow> (None, s2) | Some x \<Rightarrow> report_error w x (drop_transfer w s2)) = (e', s3)"
    by (cases "case e of None \<Rightarrow> (None, s2) | Some x \<Rightarrow> report_error w x (drop_transfer w s2)") blast
  have "uploading (files s) s3"
    using u2 r uploading_report [OF uploading_drop [OF u2], of w _ w]
    by (cases e) (auto, metis snd_conv)
  then have "files s3 = files s" "completion s3 = None" by (simp_all add: uploading_def)
  moreover have "ind_send w path remote s = (e', finish_transfer s3)"
    using assms(1) Some start b r by (simp add: ind_send_def)
  ultimately show ?thesis by simp
qed

subsection \<open>A download\<close>

text \<open>
  While a download runs, only its own file changes, and the event is set only when the transfer has
  been forgotten.
\<close>

definition downloading :: "string \<Rightarrow> (string \<Rightarrow> bytes option) \<Rightarrow> ind_state \<Rightarrow> bool" where
  "downloading path fs s \<longleftrightarrow>
     (\<forall>p. p \<noteq> path \<longrightarrow> files s p = fs p)
     \<and> (\<forall>tr. transfer s = Some tr \<longrightarrow> \<not> upload tr \<and> local_path tr = path)
     \<and> (completion s = Some True \<longrightarrow> transfer s = None)"

lemma downloading_drop: "downloading path fs s \<Longrightarrow> downloading path fs (drop_transfer w s)"
  by (simp add: downloading_def drop_transfer_def abort_transfer_def Let_def split: option.split)

lemma drop_transfer_none [simp]: "transfer (drop_transfer w s) = None"
  by (simp add: drop_transfer_def split: option.split)

lemma downloading_signal:
  "downloading path fs s \<Longrightarrow> transfer s = None \<Longrightarrow> downloading path fs (signal_completion s)"
  by (simp add: downloading_def signal_completion_def)

lemma downloading_finish: "downloading path fs s \<Longrightarrow> downloading path fs (finish_transfer s)"
  by (simp add: downloading_def)

lemma downloading_write:
  assumes "downloading path fs s" and "transfer s = Some tr"
  shows "downloading path fs (snd (write_data w tr d s))"
  using assms by (simp add: downloading_def write_data_def)

lemma downloading_handle:
  assumes "downloading path fs s" shows "downloading path fs (handle_incoming_message w m s)"
proof (cases "transfer s")
  case None
  with assms show ?thesis by (simp add: handle_incoming_message_def)
next
  case (Some tr)
  obtain e s' where w: "write_data w tr (msg_payload m) s = (e, s')"
    by (cases "write_data w tr (msg_payload m) s") blast
  with downloading_write [OF assms Some, of w "msg_payload m"] have "downloading path fs s'" by simp
  with assms Some w show ?thesis
    by (cases e) (simp_all add: handle_incoming_message_def downloading_signal downloading_drop downloading_finish)
qed

lemma downloading_modes [simp]:
  "downloading path fs (s\<lparr>inbox := x\<rparr>) = downloading path fs s"
  "downloading path fs (s\<lparr>outbox := y\<rparr>) = downloading path fs s"
  by (simp_all add: downloading_def)

lemma downloading_send: "downloading path fs s \<Longrightarrow> downloading path fs (snd (send_ind_file_message w m s))"
  by (rule send_keeps) (simp_all add: downloading_handle)

lemma downloading_wait_loop:
  "downloading path fs s \<Longrightarrow>
   downloading path fs (snd (wait_loop w ms s)) \<and> (fst (wait_loop w ms s) \<longrightarrow> transfer (snd (wait_loop w ms s)) = None)"
proof (induction w ms s rule: wait_loop.induct)
  case (1 w s)
  then show ?case by (simp add: downloading_def)
next
  case (2 w m ms s)
  show ?case
  proof (cases "completion s = Some True")
    case True
    with 2(2) show ?thesis by (simp add: downloading_def)
  next
    case False
    from 2(1) [OF False downloading_handle [OF 2(2)]] False show ?thesis by simp
  qed
qed

lemma downloading_wait:
  "downloading path fs s \<Longrightarrow>
   downloading path fs (snd (wait_for_completion w s))
   \<and> (fst (wait_for_completion w s) \<longrightarrow> transfer (snd (wait_for_completion w s)) = None)"
  using downloading_wait_loop [of path fs]
  by (simp add: wait_for_completion_def split: list.split)

lemma downloading_receive_body:
  assumes "downloading path fs s"
  shows "downloading path fs (snd (receive_body w remote s))
       \<and> (fst (receive_body w remote s) = None \<longrightarrow> transfer (snd (receive_body w remote s)) = None)"
proof (cases "create_download_request w remote")
  case (Inl e)
  with assms show ?thesis by (simp add: receive_body_def)
next
  case (Inr m)
  obtain e s1 where m: "send_ind_file_message w m s = (e, s1)" by (cases "send_ind_file_message w m s") blast
  with downloading_send [OF assms, of w m] have d1: "downloading path fs s1" by simp
  let ?s = "s1\<lparr>completion := Some False\<rparr>"
  obtain b s2 where b: "wait_for_completion w ?s = (b, s2)" by (cases "wait_for_completion w ?s") blast
  from d1 have "downloading path fs ?s" by (simp add: downloading_def)
  from downloading_wait [OF this, of w] b have d2: "downloading path fs s2" "b \<longrightarrow> transfer s2 = None" by simp_all
  show ?thesis
    using Inr m b d1 d2 downloading_drop [OF d2(1), of w]
    by (cases e; cases b) (simp_all add: receive_body_def)
qed

lemma download_ends:
  assumes "transfer s = None" and "completion s = None"
  shows "transfer (snd (ind_receive w remote path s)) = None
       \<and> completion (snd (ind_receive w remote path s)) = None
       \<and> (\<forall>p. p \<noteq> path \<longrightarrow> files (snd (ind_receive w remote path s)) p = files s p)"
proof -
  let ?tr = "IndFileTransfer False remote path"
  let ?s = "s\<lparr>transfer := Some ?tr\<rparr>"
  have d: "downloading path (files s) ?s" using assms by (simp add: downloading_def IndFileTransfer_def)
  obtain e s1 where st: "start_transfer w ?tr ?s = (e, s1)" by (cases "start_transfer w ?tr ?s") blast
  then have d1: "downloading path (files s) s1"
    using d by (auto simp: start_transfer_def downloading_def IndFileTransfer_def split: if_splits)
  obtain e' s2 where b: "(case e of Some e \<Rightarrow> (Some e, s1) | None \<Rightarrow> receive_body w remote s1) = (e', s2)"
    by (cases "case e of Some e \<Rightarrow> (Some e, s1) | None \<Rightarrow> receive_body w remote s1") blast
  then have d2: "downloading path (files s) s2" "e' = None \<longrightarrow> transfer s2 = None"
    using d1 downloading_receive_body [OF d1, of w remote] by (cases e; simp; blast?)+
  have r: "ind_receive w remote path s
      = (case e' of None \<Rightarrow> (None, s2\<lparr>completion := None\<rparr>)
         | Some x \<Rightarrow> (Some (IndFileError (''File receive failed: '' @ exception_text x)),
                     (drop_transfer w s2)\<lparr>completion := None\<rparr>))"
    using assms(1) st b by (cases e; cases e') (simp_all add: ind_receive_def)
  show ?thesis
    using d2 downloading_drop [OF d2(1), of w] unfolding r downloading_def by (cases e') simp_all
qed

text \<open>
  However a transfer goes, whatever the host sends meanwhile and whichever call of the system
  fails: at its end no transfer is active and no event is left, so that the next one can start. An
  upload changes no file, a download none but its own.
\<close>

lemma transfers_leave_nothing_behind:
  assumes "transfer s = None" and "completion s = None"
  shows "transfer (snd (ind_send w path remote s)) = None
       \<and> completion (snd (ind_send w path remote s)) = None
       \<and> files (snd (ind_send w path remote s)) = files s
       \<and> transfer (snd (ind_receive w remote path s)) = None
       \<and> completion (snd (ind_receive w remote path s)) = None
       \<and> (\<forall>p. p \<noteq> path \<longrightarrow> files (snd (ind_receive w remote path s)) p = files s p)"
  using upload_ends [OF assms] download_ends [OF assms] by blast

definition demo_world :: ind_world where
  "demo_world = \<lparr>can_read = \<lambda>_. True, can_write = \<lambda>_. True, can_remove = \<lambda>_. True, can_store = \<lambda>_ _. True,
                 link_up = \<lambda>_. True, os_text = \<lambda>_. ''denied'', link_text = ''closed'', codec_text = \<lambda>_. ''codec''\<rparr>"

subsection \<open>What an upload sends\<close>

text \<open>
  An upload with the connection up succeeds whatever the host sends meanwhile, and transmits the
  request with the remote name, the content of the file in data messages of at most 4096 bytes, and
  the end of file. (The host's error message included: it does not stop the upload.)
\<close>

lemma upload_sends_file:
  assumes "transfer s = None" and "completion s = None" and "files s path = Some content"
    and "can_read w path" and "is_ascii remote" and "\<And>sent. link_up w sent"
  shows "fst (ind_send w path remote s) = None
       \<and> (\<exists>ds. outbox (snd (ind_send w path remote s))
               = outbox s @ ind_file_sf \<lparr>sub_command = IND_FILE_UPLOAD, msg_payload = map char_byte remote @ [0]\<rparr>
                          # map (ind_file_sf \<circ> create_data) ds @ [ind_file_sf create_eof]
            \<and> concat ds = content \<and> (\<forall>d\<in>set ds. d \<noteq> [] \<and> length d \<le> 4096))"
proof -
  let ?s = "s\<lparr>transfer := Some (IndFileTransfer True remote path)\<rparr>"
  let ?m = "\<lparr>sub_command = IND_FILE_UPLOAD, msg_payload = map char_byte remote @ [0]\<rparr>"
  let ?s1 = "deliver w (?s\<lparr>outbox := outbox s @ [ind_file_sf ?m]\<rparr>)"
  let ?ms = "map create_data (chunks 4096 content) @ [create_eof]"
  have u: "uploading (files s) ?s" using assms(2) by (simp add: uploading_def IndFileTransfer_def)
  have m: "send_ind_file_message w ?m ?s = (None, ?s1)"
    using assms(6) by (simp add: send_ind_file_message_def)
  with uploading_send [OF u, of w ?m] assms(3) have f1: "files ?s1 path = Some content"
    by (simp add: uploading_def)
  have b: "send_body w path remote ?s = send_all w ?ms ?s1"
    using m f1 assms(4,5) by (simp add: send_body_def create_upload_request_def text_message_def ascii_encode_def)
  obtain s2 where s2: "send_all w ?ms ?s1 = (None, s2)" "outbox s2 = outbox ?s1 @ map ind_file_sf ?ms"
    using send_all_sends [OF assms(6), of ?ms ?s1] by (cases "send_all w ?ms ?s1") auto
  have st: "start_transfer w (IndFileTransfer True remote path) ?s = (None, ?s)"
    by (simp add: start_transfer_def IndFileTransfer_def)
  have "ind_send w path remote s = (None, finish_transfer s2)"
    using assms(1,3) st b s2 by (simp add: ind_send_def)
  with s2(2) chunks_concat [of 4096 content] chunks_size [of 4096 _ content] show ?thesis
    by (intro conjI exI [of _ "chunks 4096 content"]) simp_all
qed

subsection \<open>What a download stores\<close>

text \<open>The content of the messages, and a message that ends a transfer.\<close>

definition data_of :: "IndFileMessage list \<Rightarrow> bytes" where
  "data_of ms = concat (map msg_payload (filter (\<lambda>m. sub_command m = IND_FILE_DATA) ms))"

definition ends_transfer :: "IndFileMessage \<Rightarrow> bool" where
  "ends_transfer m \<longleftrightarrow> sub_command m = IND_FILE_EOF \<or> sub_command m = IND_FILE_ERROR"

definition storing :: "ind_world \<Rightarrow> string \<Rightarrow> bytes \<Rightarrow> ind_state \<Rightarrow> bool" where
  "storing w path d s \<longleftrightarrow>
     files s path = Some d \<and> completion s = Some False
     \<and> (\<exists>tr. transfer s = Some tr \<and> \<not> upload tr \<and> local_path tr = path \<and> handle_open tr)"

lemma storing_step:
  assumes "storing w path d s" and "\<not> ends_transfer m" and "\<And>x. can_store w path x"
  shows "storing w path (d @ data_of [m]) (handle_incoming_message w m s)"
  using assms by (auto simp: storing_def handle_incoming_message_def write_data_def data_of_def ends_transfer_def)

lemma wait_stores:
  assumes "storing w path d s" and "list_all (\<lambda>m. \<not> ends_transfer m) ms" and "\<And>x. can_store w path x"
  shows "\<exists>s'. storing w path (d @ data_of ms) s' \<and> wait_loop w (ms @ stop) s = wait_loop w stop s'"
  using assms(1,2)
proof (induction ms arbitrary: d s)
  case Nil
  then show ?case by (intro exI [of _ s]) (simp add: data_of_def)
next
  case (Cons m ms)
  have st: "storing w path (d @ data_of [m]) (handle_incoming_message w m s)"
    using storing_step [OF Cons.prems(1) _ assms(3), of m] Cons.prems(2) by simp
  have "completion s = Some False" using Cons.prems(1) by (simp add: storing_def)
  moreover have "(d @ data_of [m]) @ data_of ms = d @ data_of (m # ms)" by (simp add: data_of_def)
  ultimately show ?case
    using Cons.IH [OF st] Cons.prems(2) by simp
qed

text \<open>A transfer that is being stored ends with its file, or with no file, and sets the event.\<close>

lemma wait_ends:
  assumes "storing w path d s" and "ends_transfer m" and "can_remove w path"
  shows "\<exists>s'. wait_loop w (m # ms) s = (True, s')
            \<and> files s' path = (if sub_command m = IND_FILE_EOF then Some d else None)"
proof -
  obtain tr where tr: "transfer s = Some tr" "\<not> upload tr" "local_path tr = path"
    using assms(1) by (auto simp: storing_def)
  let ?s = "handle_incoming_message w m s"
  have "completion ?s = Some True" "files ?s path = (if sub_command m = IND_FILE_EOF then Some d else None)"
    using assms tr
    by (auto simp: handle_incoming_message_def ends_transfer_def ind_codes signal_completion_def
        drop_transfer_def abort_transfer_def finish_transfer_def storing_def Let_def)
  moreover have "wait_loop w (m # ms) s = (True, ?s)"
    using assms(1) calculation(1) by (cases ms) (simp_all add: storing_def)
  ultimately show ?thesis by blast
qed

text \<open>
  C38. A download whose messages arrive while it waits: it returns normally as soon as the host ends
  the transfer. After the end-of-file message the file holds the data messages in order, whatever
  requests came between them, and whatever follows. After an error message of the host the download
  returns normally too, without a file. If nothing ends the transfer, the download fails and leaves
  no file.
\<close>

theorem download_outcome:
  assumes "transfer s = None" and "completion s = None" and "inbox s = [] # (ms @ stop) # later"
    and "list_all (\<lambda>m. \<not> ends_transfer m) ms" and "stop = [] \<or> ends_transfer (hd stop)"
    and "can_write w path" and "can_remove w path" and "\<And>d. can_store w path d" and "is_ascii remote"
    and "link_up w (outbox s)"
  shows "let (e, s') = ind_receive w remote path s
         in (e = None \<longleftrightarrow> stop \<noteq> [])
          \<and> files s' path = (if stop \<noteq> [] \<and> sub_command (hd stop) = IND_FILE_EOF then Some (data_of ms) else None)"
proof -
  let ?tr = "IndFileTransfer False remote path"
  let ?m = "\<lparr>sub_command = IND_FILE_DOWNLOAD, msg_payload = map char_byte remote @ [0]\<rparr>"
  let ?s1 = "s\<lparr>files := (files s)(path := Some []), transfer := Some (?tr\<lparr>handle_open := True\<rparr>)\<rparr>"
  let ?s2 = "?s1\<lparr>outbox := outbox s @ [ind_file_sf ?m], inbox := (ms @ stop) # later\<rparr>"
  let ?s3 = "?s2\<lparr>completion := Some False\<rparr>\<lparr>inbox := later\<rparr>"
  have st: "start_transfer w ?tr (s\<lparr>transfer := Some ?tr\<rparr>) = (None, ?s1)"
    using assms(6) by (simp add: start_transfer_def IndFileTransfer_def)
  have snd_m: "send_ind_file_message w ?m ?s1 = (None, ?s2)"
    using assms(3,10) by (simp add: send_ind_file_message_def deliver_def)
  have s3: "storing w path [] ?s3" by (simp add: storing_def IndFileTransfer_def)
  from wait_stores [OF s3 assms(4,8), of stop] obtain s4 where
    s4: "storing w path (data_of ms) s4" "wait_loop w (ms @ stop) ?s3 = wait_loop w stop s4" by auto
  have w: "wait_for_completion w (?s2\<lparr>completion := Some False\<rparr>) = wait_loop w stop s4"
    using s4(2) by (simp add: wait_for_completion_def)
  have body: "receive_body w remote ?s1
      = (case wait_loop w stop s4 of (True, x) \<Rightarrow> (None, x)
         | (False, x) \<Rightarrow> (Some (IndFileError (''File receive timeout for '' @ remote)), drop_transfer w x))"
    using snd_m w assms(9)
    by (simp add: receive_body_def create_download_request_def text_message_def ascii_encode_def)
  show ?thesis
  proof (cases stop)
    case Nil
    obtain tr where tr: "transfer s4 = Some tr" "\<not> upload tr" "local_path tr = path"
      using s4(1) by (auto simp: storing_def)
    have nd: "drop_transfer w (drop_transfer w s4) = drop_transfer w s4"
      unfolding drop_transfer_def [of w "drop_transfer w s4"] by simp
    have nf: "files (drop_transfer w s4) path = None"
      using tr s4(1) assms(7) by (simp add: drop_transfer_def abort_transfer_def storing_def Let_def)
    from Nil s4(1) have "wait_loop w stop s4 = (False, s4)" by (simp add: storing_def)
    with assms(1) st body Nil nd nf show ?thesis by (simp add: ind_receive_def)
  next
    case (Cons m rest_ms)
    with assms(5) have "ends_transfer m" by simp
    from wait_ends [OF s4(1) this assms(7), of rest_ms] obtain s5 where
      "wait_loop w stop s4 = (True, s5)"
      "files s5 path = (if sub_command m = IND_FILE_EOF then Some (data_of ms) else None)"
      using Cons by blast
    with assms(1) st body Cons show ?thesis by (simp add: ind_receive_def)
  qed
qed

theorem download_outcome_witness:
  "let (e, s') = ind_receive demo_world ''R'' ''f''
        ((IndFile_init (\<lambda>_. None))\<lparr>inbox := [[], [create_data [1, 2], create_data [3]] @ [create_eof]]\<rparr>)
   in e = None \<and> files s' ''f'' = Some [1, 2, 3]"
proof -
  let ?s = "(IndFile_init (\<lambda>_. None))\<lparr>inbox := [[], [create_data [1, 2], create_data [3]] @ [create_eof]]\<rparr>"
  have a: "transfer ?s = None" "completion ?s = None"
    "inbox ?s = [] # ([create_data [1, 2], create_data [3]] @ [create_eof]) # []"
    "list_all (\<lambda>m. \<not> ends_transfer m) [create_data [1, 2], create_data [3]]"
    "[create_eof] = [] \<or> ends_transfer (hd [create_eof])" "is_ascii ''R''"
    "can_write demo_world ''f''" "can_remove demo_world ''f''" "can_store demo_world ''f'' d"
    "link_up demo_world (outbox ?s)" for d
    by (simp_all add: IndFile_init_def create_data_def create_eof_def ends_transfer_def ind_codes demo_world_def is_ascii_def)
  have d: "data_of [create_data [1, 2], create_data [3]] = [1, 2, 3]" "sub_command create_eof = IND_FILE_EOF"
    by (simp_all add: data_of_def create_data_def create_eof_def)
  from download_outcome [OF a(1-5) a(7,8) a(9) a(6) a(10)] d show ?thesis
    by (auto split: prod.splits)
qed

subsection \<open>Races and lengths\<close>

text \<open>
  The event is created after the request has been sent: when the whole file arrives during that
  await, nothing sets it, and the download ends with a timeout although the file is complete.
\<close>

lemma early_eof_times_out:
  "let (e, s') = ind_receive demo_world ''R'' ''f''
        ((IndFile_init (\<lambda>_. None))\<lparr>inbox := [[create_data [1, 2], create_eof]]\<rparr>)
   in e = Some (IndFileError ''File receive failed: File receive timeout for R'') \<and> files s' ''f'' = Some [1, 2]"
  by code_simp

text \<open>A download that cannot open its file removes what is there.\<close>

lemma failed_start_removes_file:
  assumes "transfer s = None" and "files s path = Some old" and "\<not> can_write w path" and "can_remove w path"
  shows "files (snd (ind_receive w remote path s)) path = None"
  using assms
  by (simp add: ind_receive_def start_transfer_def IndFileTransfer_def drop_transfer_def abort_transfer_def Let_def)

text \<open>
  The length of a field counts three bytes besides the message, and the parser takes two bytes more
  than the message for it: the two bytes that follow are delivered as part of the file.
\<close>

lemma ind_file_field_swallows_two:
  assumes "pos_ok p" and "drop (ppos p) (pdata p) = ind_file_sf m @ [x, y] @ behind"
    and "has_ind_file p" and "length (msg_payload m) < 34800"
  shows "\<exists>q. parse_step p = (Inr (), q) \<and> events q = events p @ [Ev_ind_file (ind_to_bytes m @ [x, y])]
           \<and> drop (ppos q) (pdata q) = behind"
proof -
  let ?n = "int (length (ind_to_bytes m)) + 3"
  let ?hi = "word_of_int (drop_bit 8 ?n) :: byte" and ?lo = "word_of_int ?n :: byte"
  let ?d = "ind_to_bytes m @ [x, y]"
  have n: "0 \<le> ?n" "?n < 34816" using assms(4) by (simp_all add: ind_to_bytes_def)
  then have "uint ?hi = ?n div 256" by (simp add: drop_bit_eq_div uint_of_int_byte)
  moreover have "uint ?lo = ?n mod 256" by (simp only: uint_word_of_int) simp
  ultimately have u: "uint ?hi = ?n div 256" "uint ?lo = ?n mod 256" by blast+
  have len: "be16 ?hi ?lo - 1 = int (length ?d)" unfolding be16_eq u by simp
  have hi: "?hi \<noteq> 0x88"
  proof
    assume "?hi = 0x88"
    then have "uint ?hi = 0x88" by simp
    with u(1) n show False by simp
  qed
  have d: "drop (ppos p) (pdata p) = 0x88 # ?hi # ?lo # 0xD0 # ?d @ behind"
    using assms(2) by (simp add: ind_file_sf_def Let_def)
  let ?p = "p\<lparr>ppos := ppos p + 4 + length ?d, dpos := ppos p + 4\<rparr>"
  let ?q = "?p\<lparr>events := events p @ [Ev_ind_file ?d]\<rparr>"
  have "dispatch_sf 0xD0 ?d ?p = (Inr (), ?q)"
    using assms(3) by (simp add: dispatch_sf_def handle_indfile_sf_def emit_def)
  from parse_step_sf [OF assms(1) d len hi this]
  have "parse_step p = (Inr (), ?q\<lparr>dpos := ppos ?q\<rparr>)" .
  moreover have "drop (ppos ?q) (pdata p) = drop (4 + length ?d) (drop (ppos p) (pdata p))" by (simp add: ac_simps)
  then have "drop (ppos ?q) (pdata p) = behind" unfolding d by (simp add: numeral_eq_Suc)
  ultimately show ?thesis by auto
qed

end
