(* ===== verification/ExtScreen.thy ===== *)
theory ExtScreen
  imports ScreenProps
begin

text \<open>
  \<open>pure3270/emulation/extended_screen_buffer.py\<close>: a screen buffer addressed linearly in 12-bit
  or 14-bit mode. The subclass keeps a second cursor, an \<open>ExtendedPosition\<close>, beside the cursor of
  its parent; the state is the parent's state with the mode and that cursor.
\<close>

section \<open>State and operations\<close>

record ext_screen =
  xs_base :: screen
  xs_mode :: AddressingMode
  xs_cursor :: ExtendedPosition

definition ExtendedScreenBuffer_init ::
    "int \<Rightarrow> int \<Rightarrow> byte \<Rightarrow> AddressingMode \<Rightarrow> py_error + ext_screen" where
  "ExtendedScreenBuffer_init r c init_value mode =
     (if \<not> validate_address (r * c - 1) mode then Inl ValueError
      else case ScreenBuffer_init r c init_value ''cp037'' of
             Inl e \<Rightarrow> Inl e
           | Inr s \<Rightarrow> (case ExtendedPosition_init 0 0 c mode of
                 Inl e \<Rightarrow> Inl e
               | Inr p \<Rightarrow> Inr \<lparr>xs_base = s, xs_mode = mode, xs_cursor = p\<rparr>))"

text \<open>The second cursor has been replaced when the parent's strict mode raises.\<close>

definition ext_set_position ::
    "int \<Rightarrow> int \<Rightarrow> bool \<Rightarrow> bool \<Rightarrow> ext_screen \<Rightarrow> py_error option \<times> ext_screen" where
  "ext_set_position row col wrap strict x =
     (case ExtendedPosition_init row col (cols (xs_base x)) (xs_mode x) of
        Inl e \<Rightarrow> (Some e, x)
      | Inr p \<Rightarrow>
          (let x1 = x\<lparr>xs_cursor := p\<rparr>
           in case set_position_mode wrap strict row col (xs_base x) of
                Inl e \<Rightarrow> (Some e, x1)
              | Inr s \<Rightarrow> (None, x1\<lparr>xs_base := s\<rparr>)))"

definition set_position_from_address :: "int \<Rightarrow> ext_screen \<Rightarrow> py_error option \<times> ext_screen" where
  "set_position_from_address address x =
     (case set_from_address (xs_cursor x) address of
        (Some e, p) \<Rightarrow> (Some e, x\<lparr>xs_cursor := p\<rparr>)
      | (None, p) \<Rightarrow>
          (None, x\<lparr>xs_cursor := p, xs_base := set_position (ep_row p) (ep_col p) (xs_base x)\<rparr>))"

definition get_position_address :: "ext_screen \<Rightarrow> int" where
  "get_position_address x = linear_address (xs_cursor x)"

definition write_char_at_address ::
    "byte \<Rightarrow> int \<Rightarrow> bool \<Rightarrow> bool \<Rightarrow> ext_screen \<Rightarrow> py_error + ext_screen" where
  "write_char_at_address b address protected circumvent x =
     (case address_to_coords address (cols (xs_base x)) (xs_mode x) of
        None \<Rightarrow> Inl ValueError
      | Some rc \<Rightarrow>
          Inr (x\<lparr>xs_base := write_char b (Some rc) protected circumvent False (xs_base x)\<rparr>))"

definition read_char_at_address :: "int \<Rightarrow> ext_screen \<Rightarrow> byte option" where
  "read_char_at_address address x =
     (case address_to_coords address (cols (xs_base x)) (xs_mode x) of
        None \<Rightarrow> None
      | Some (row, col) \<Rightarrow>
          (if 0 \<le> row \<and> row < rows (xs_base x) \<and> 0 \<le> col \<and> col < cols (xs_base x)
           then Some (buffer (xs_base x) ! nat (row * cols (xs_base x) + col)) else None))"

definition is_address_valid :: "int \<Rightarrow> ext_screen \<Rightarrow> bool" where
  "is_address_valid address x = validate_address address (xs_mode x)"

definition get_address_range :: "ext_screen \<Rightarrow> int \<times> int" where
  "get_address_range x =
     (0, min (rows (xs_base x) * cols (xs_base x) - 1) (get_max_positions (xs_mode x) - 1))"

text \<open>The copy has the content and the fields, but not the marks the fields come from.\<close>

definition convert_addressing_mode :: "AddressingMode \<Rightarrow> ext_screen \<Rightarrow> py_error + ext_screen" where
  "convert_addressing_mode new_mode x =
     (let s = xs_base x
      in if \<not> validate_address (rows s * cols s - 1) new_mode then Inl ValueError
         else case ExtendedScreenBuffer_init (rows s) (cols s) 0x40 new_mode of
                Inl e \<Rightarrow> Inl e
              | Inr y \<Rightarrow>
                  (case ep_convert_addressing_mode (xs_cursor x) new_mode of
                     Inl e \<Rightarrow> Inl e
                   | Inr p \<Rightarrow>
                       Inr (y\<lparr>xs_cursor := p,
                              xs_base := (xs_base y)\<lparr>buffer := buffer s, attributes := attributes s,
                                 extended_attributes := extended_attributes s, sfields := sfields s,
                                 cursor_row := ep_row p, cursor_col := ep_col p\<rparr>\<rparr>)))"

definition get_field_at_address :: "int \<Rightarrow> ext_screen \<Rightarrow> field option" where
  "get_field_at_address address x =
     (case address_to_coords address (cols (xs_base x)) (xs_mode x) of
        None \<Rightarrow> None
      | Some (row, col) \<Rightarrow> get_field_at_position row col (xs_base x))"

definition move_cursor_to_address :: "int \<Rightarrow> ext_screen \<Rightarrow> py_error option \<times> ext_screen" where
  "move_cursor_to_address = set_position_from_address"

section \<open>Invariant\<close>

text \<open>The parent is well formed, its size fits the mode, and the second cursor is a valid position.\<close>

definition wf_ext :: "ext_screen \<Rightarrow> bool" where
  "wf_ext x \<longleftrightarrow> wf_screen (xs_base x) \<and> ssize (xs_base x) \<le> get_max_positions (xs_mode x)
     \<and> ep_valid (xs_cursor x) \<and> ep_cols (xs_cursor x) = cols (xs_base x) \<and> ep_mode (xs_cursor x) = xs_mode x"

lemma wf_ext_init: "ExtendedScreenBuffer_init r c b m = Inr x \<Longrightarrow> wf_ext x"
  using wf_init [of r c b "''cp037''"]
  by (auto simp: ExtendedScreenBuffer_init_def wf_ext_def ExtendedPosition_init_Inr validate_address_iff
      ScreenBuffer_init_def split: sum.splits if_splits)

lemma ep_valid_convert:
  "ep_convert_addressing_mode p m = Inr q \<longleftrightarrow> q = p\<lparr>ep_mode := m\<rparr> \<and> ep_valid q"
  by (auto simp: ep_convert_addressing_mode_def ExtendedPosition_init_Inr)


section \<open>Reading and writing by address\<close>

lemma write_char_buffer:
  assumes "wf_screen s" and "on_screen s rc"
  shows "if attributes s ! nat (linear s rc * 3) AND 0x40 = 0 \<or> circ
         then buffer (write_char b (Some rc) prot circ mark s) = (buffer s)[nat (linear s rc) := b]
         else write_char b (Some rc) prot circ mark s = s"
proof -
  obtain r c where rc: "rc = (r, c)" by fastforce
  have "0 \<le> linear s rc" "linear s rc < ssize s"
    using on_screen_linear [OF wf_dimsD [OF assms(1)] assms(2)] by blast+
  then have "writable r c circ s \<longleftrightarrow> attributes s ! nat (linear s rc * 3) AND 0x40 = 0 \<or> circ"
    using assms rc
    by (simp add: writable_def Let_def linear_def on_screen_def wf_screen_def wf_dims_def)
  with rc show ?thesis
    by (cases "writable r c circ s") (simp_all add: write_char_def Let_def linear_def)
qed

lemma write_char_off_screen: "\<not> on_screen s rc \<Longrightarrow> write_char b (Some rc) prot circ mark s = s"
  by (cases rc) (auto simp: write_char_def writable_def Let_def on_screen_def)

lemma address_coords:
  assumes "wf_ext x" and "validate_address a (xs_mode x)" and "rc = (a div cols (xs_base x), a mod cols (xs_base x))"
  shows "address_to_coords a (cols (xs_base x)) (xs_mode x) = Some rc"
    and "linear (xs_base x) rc = a" and "on_screen (xs_base x) rc \<longleftrightarrow> a < ssize (xs_base x)"
proof -
  let ?s = "xs_base x"
  have d: "0 < rows ?s" "0 < cols ?s" "ssize ?s = rows ?s * cols ?s"
    using assms(1) by (simp_all add: wf_ext_def wf_screen_def wf_dims_def)
  have a: "0 \<le> a" using assms(2) by (simp add: validate_address_iff)
  show "address_to_coords a (cols ?s) (xs_mode x) = Some rc"
    using assms(2,3) by (simp add: address_to_coords_def)
  show l: "linear ?s rc = a" using assms(3) by (simp add: linear_def)
  show "on_screen ?s rc \<longleftrightarrow> a < ssize ?s"
  proof
    assume "on_screen ?s rc"
    with l d show "a < ssize ?s"
      using linear_bounds [of "fst rc" "rows ?s" "snd rc" "cols ?s"] by (auto simp: linear_def on_screen_def)
  next
    assume "a < ssize ?s"
    with a d show "on_screen ?s rc"
      using coords_bounds [of a "rows ?s" "cols ?s"] assms(3) by (simp add: on_screen_def)
  qed
qed

lemma read_char_eq:
  assumes "wf_ext x"
  shows "read_char_at_address a x =
    (if 0 \<le> a \<and> a < ssize (xs_base x) then Some (buffer (xs_base x) ! nat a) else None)"
proof (cases "validate_address a (xs_mode x)")
  case True
  note c = address_coords [OF assms True refl]
  with True show ?thesis
    by (auto simp: read_char_at_address_def on_screen_def linear_def validate_address_iff)
next
  case False
  then have "\<not> (0 \<le> a \<and> a < ssize (xs_base x))"
    using assms by (auto simp: validate_address_iff wf_ext_def)
  with False show ?thesis by (simp add: read_char_at_address_def address_to_coords_def)
qed

text \<open>
  Reading back what was written by address: a write to an address of the mode succeeds; if the
  position exists and is not protected, or protection is circumvented, that address reads as the
  byte and every other address as before; otherwise nothing changes at all, without an error, also
  for an address behind the end of the screen. Addresses outside the mode raise \<open>ValueError\<close>.
\<close>

lemma ext_write_read:
  assumes "wf_ext x"
  shows "if validate_address a (xs_mode x)
     then \<exists>y. write_char_at_address b a prot circ x = Inr y
       \<and> (if a < ssize (xs_base x) \<and> (attributes (xs_base x) ! nat (a * 3) AND 0x40 = 0 \<or> circ)
          then \<forall>a'. read_char_at_address a' y = (if a' = a then Some b else read_char_at_address a' x)
          else y = x)
     else write_char_at_address b a prot circ x = Inl ValueError"
proof (cases "validate_address a (xs_mode x)")
  case True
  let ?s = "xs_base x" and ?rc = "(a div cols (xs_base x), a mod cols (xs_base x))"
  let ?w = "write_char b (Some ?rc) prot circ False ?s"
  note c = address_coords [OF assms True refl]
  have wf: "wf_screen ?s" using assms by (simp add: wf_ext_def)
  have w: "write_char_at_address b a prot circ x = Inr (x\<lparr>xs_base := ?w\<rparr>)"
    using c(1) by (simp add: write_char_at_address_def)
  show ?thesis
  proof (cases "a < ssize ?s \<and> (attributes ?s ! nat (a * 3) AND 0x40 = 0 \<or> circ)")
    case writes: True
    have a: "0 \<le> a" "a < ssize ?s" using True writes by (simp_all add: validate_address_iff)
    have buf: "buffer ?w = (buffer ?s)[nat a := b]"
      using write_char_buffer [OF wf, of ?rc circ b prot False] writes c by simp
    have "wf_screen ?w" using wf by (simp add: wf_rules)
    then have sz: "ssize ?w = ssize ?s" and wfy: "wf_ext (x\<lparr>xs_base := ?w\<rparr>)"
      using assms by (auto simp: wf_ext_def wf_screen_def wf_dims_def)
    have len: "length (buffer ?s) = nat (ssize ?s)" using wf by (simp add: wf_screen_def wf_dims_def)
    have "read_char_at_address a' (x\<lparr>xs_base := ?w\<rparr>)
        = (if a' = a then Some b else read_char_at_address a' x)" for a'
      using a len by (auto simp: read_char_eq [OF wfy] read_char_eq [OF assms] buf sz nth_list_update)
    with True writes w show ?thesis by auto
  next
    case False
    have "?w = ?s"
    proof (cases "a < ssize ?s")
      case True
      with False c write_char_buffer [OF wf, of ?rc circ b prot False] show ?thesis by simp
    next
      case False
      with c show ?thesis by (simp add: write_char_off_screen)
    qed
    with w show ?thesis unfolding if_P [OF True] if_not_P [OF False] by simp
  qed
next
  case False
  then show ?thesis by (simp add: write_char_at_address_def address_to_coords_def)
qed

definition demo_ext :: ext_screen where
  "demo_ext = \<lparr>xs_base = demo_screen, xs_mode = MODE_14_BIT,
     xs_cursor = \<lparr>ep_row = 3, ep_col = 1, ep_cols = 4, ep_mode = MODE_14_BIT\<rparr>\<rparr>"

lemma wf_demo_ext: "wf_ext demo_ext"
  by (simp add: demo_ext_def wf_ext_def wf_demo demo_facts get_max_positions_def ep_valid_iff
      validate_address_def)

section \<open>Changing the mode\<close>

lemma convert_result:
  assumes "convert_addressing_mode m x = Inr y"
  shows "buffer (xs_base y) = buffer (xs_base x)" and "rows (xs_base y) = rows (xs_base x)"
    and "cols (xs_base y) = cols (xs_base x)" and "ssize (xs_base y) = rows (xs_base x) * cols (xs_base x)"
    and "sfields (xs_base y) = sfields (xs_base x)" and "field_starts (xs_base y) = {}"
    and "cursor_row (xs_base y) = ep_row (xs_cursor x)" and "cursor_col (xs_base y) = ep_col (xs_cursor x)"
    and "xs_mode y = m" and "xs_cursor y = (xs_cursor x)\<lparr>ep_mode := m\<rparr>"
  using assms
  by (auto simp: convert_addressing_mode_def Let_def ExtendedScreenBuffer_init_def ScreenBuffer_init_def
      ep_valid_convert split: if_splits sum.splits)

text \<open>
  Conversion keeps the text and the fields, but the copy has none of the marks the fields are
  detected from: the next detection, which most writes cause, removes every field of the copy.
\<close>

lemma convert_forgets_fields:
  assumes "wf_ext x" and "convert_addressing_mode m x = Inr y"
  shows "buffer (xs_base y) = buffer (xs_base x) \<and> sfields (xs_base y) = sfields (xs_base x)
       \<and> sfields (detect_fields (xs_base y)) = []
       \<and> (\<forall>row col. get_field_at_position row col (detect_fields (xs_base y)) = None)"
  using convert_result [OF assms(2)]
  by (simp add: detect_fields_def Let_def get_field_at_position_def field_at_search_def)

text \<open>
  The two cursors part: positioning behind the last row, at an address of the mode, is accepted;
  the parent's cursor is clamped, the second one is not, and a conversion then copies it over the
  parent's cursor, which leaves the screen: the copy is not well formed.
\<close>

lemma convert_moves_cursor_off_screen:
  assumes "wf_ext x" and "rows (xs_base x) \<le> row" and "0 \<le> col"
    and "validate_address (row * cols (xs_base x) + col) (xs_mode x)"
    and "ext_set_position row col False False x = (e, x')"
  shows "e = None \<and> cursor_row (xs_base x') = rows (xs_base x) - 1
       \<and> get_position_address x' = row * cols (xs_base x) + col
       \<and> (\<forall>m y. convert_addressing_mode m x' = Inr y \<longrightarrow>
             cursor_row (xs_base y) = row \<and> \<not> wf_screen (xs_base y))"
proof -
  let ?s = "xs_base x" and ?p = "\<lparr>ep_row = row, ep_col = col, ep_cols = cols (xs_base x), ep_mode = xs_mode x\<rparr>"
  have d: "0 < rows ?s" "0 < cols ?s" using assms(1) by (simp_all add: wf_ext_def wf_screen_def wf_dims_def)
  have "ExtendedPosition_init row col (cols ?s) (xs_mode x) = Inr ?p"
    using d assms(2-4) by (simp add: ExtendedPosition_init_Inr ep_valid_iff)
  then have x': "e = None" "x' = x\<lparr>xs_cursor := ?p, xs_base := set_position row col ?s\<rparr>"
    using assms(5) by (simp_all add: ext_set_position_def set_position_mode_default)
  have "\<not> wf_screen (xs_base y)" if "convert_addressing_mode m x' = Inr y" for m y
    using convert_result [OF that] x' assms(2) by (auto simp: wf_screen_def on_screen_def)
  moreover have "cursor_row (xs_base y) = row" if "convert_addressing_mode m x' = Inr y" for m y
    using convert_result [OF that] x' by simp
  ultimately show ?thesis using x' d assms(2,4)
    by (simp add: set_position_def clamp_index_def get_position_address_def linear_address_def
        coords_to_address_def)
qed

end
