(* ===== verification/BindImages.thy ===== *)
theory BindImages
  imports Addressing
begin

text \<open>
  \<open>pure3270/protocol/bind_image_parser.py\<close>: the parser of BIND-IMAGE fields for the addressing
  mode negotiation and the response it builds. \<open>None\<close> of \<open>create_bind_image_response\<close> is the
  \<open>ValueError\<close> of a dimension that is no byte.
\<close>

section \<open>Operations\<close>

text \<open>The payload without a header: the mode is the lowest bit of its last byte.\<close>

definition permissive_mode :: "bytes \<Rightarrow> AddressingMode option" where
  "permissive_mode data =
     (if length data \<ge> 16
      then Some (if last data AND 0x01 \<noteq> 0 then MODE_14_BIT else MODE_12_BIT) else None)"

definition parse_addressing_mode_from_parameters :: "bytes \<Rightarrow> AddressingMode option" where
  "parse_addressing_mode_from_parameters parameters =
     (if length parameters < 3 then None
      else Some (if parameters ! 2 AND 0x01 \<noteq> 0 then MODE_14_BIT else MODE_12_BIT))"

definition parse_addressing_mode :: "bytes \<Rightarrow> AddressingMode option" where
  "parse_addressing_mode data =
     (if length data < 3 then permissive_mode data
      else if data ! 0 \<noteq> 0x81 then permissive_mode data
      else (let sf_length = be16 (data ! 1) (data ! 2)
            in if sf_length < 3 \<or> sf_length > int (length data) then permissive_mode data
               else (let parameters = py_slice data 3 sf_length
                     in if length parameters < 1 then None
                        else parse_addressing_mode_from_parameters parameters)))"

record bind_parameters =
  bp_flags :: "int option"
  bp_addressing_mode :: "int option"
  bp_screen_rows :: "int option"
  bp_screen_cols :: "int option"
  bp_extended_params :: "bytes option"

datatype bind_error = Bind_data_too_short | Invalid_sf_id | Sf_length_exceeds_data

definition parse_bind_parameters :: "bytes \<Rightarrow> bind_error + bind_parameters" where
  "parse_bind_parameters data =
     (if length data < 3 then Inl Bind_data_too_short
      else if data ! 0 \<noteq> 0x81 then Inl Invalid_sf_id
      else (let sf_length = be16 (data ! 1) (data ! 2)
            in if sf_length > int (length data) then Inl Sf_length_exceeds_data
               else (let ps = py_slice data 3 sf_length
                     in Inr \<lparr>bp_flags = (if length ps \<ge> 1 then Some (uint (ps ! 0)) else None),
                             bp_addressing_mode = (if length ps \<ge> 2 then Some (uint (ps ! 1)) else None),
                             bp_screen_rows = (if length ps \<ge> 4 then Some (uint (ps ! 2)) else None),
                             bp_screen_cols = (if length ps \<ge> 4 then Some (uint (ps ! 3)) else None),
                             bp_extended_params = (if length ps > 4 then Some (drop 4 ps) else None)\<rparr>)))"

definition create_bind_image_response :: "AddressingMode \<Rightarrow> int \<Rightarrow> int \<Rightarrow> bytes option" where
  "create_bind_image_response mode r c =
     (if 0 \<le> r \<and> r < 256 \<and> 0 \<le> c \<and> c < 256
      then Some [0x81, 0x00, 0x07, 0x00, if mode = MODE_14_BIT then 0x01 else 0x00,
                 word_of_int r, word_of_int c]
      else None)"

definition validate_bind_image_format :: "bytes \<Rightarrow> bool" where
  "validate_bind_image_format data \<longleftrightarrow>
     length data \<ge> 3 \<and> data ! 0 = 0x81
   \<and> \<not> (be16 (data ! 1) (data ! 2) < 3 \<or> be16 (data ! 1) (data ! 2) > int (length data))"

section \<open>Properties\<close>

lemma response_facts:
  assumes "create_bind_image_response mode r c = Some data"
  shows "length data = 7 \<and> data ! 0 = 0x81 \<and> be16 (data ! 1) (data ! 2) = 7
       \<and> py_slice data 3 7 = [0x00, if mode = MODE_14_BIT then 0x01 else 0x00, word_of_int r, word_of_int c]
       \<and> 0 \<le> r \<and> r < 256 \<and> 0 \<le> c \<and> c < 256"
  using assms
  by (auto simp: create_bind_image_response_def be16_eq py_slice_def py_bound_def Let_def split: if_splits)

text \<open>
  A response and its two readers. The parameter reader gives back exactly the mode flag, the
  rows and the columns that were put in, and the format check accepts it; the mode reader reads
  the rows byte instead of the mode byte, so it reports 14-bit addressing exactly when the number
  of rows is odd, whatever mode the response advertises.
\<close>

lemma bind_response_roundtrip:
  assumes "create_bind_image_response mode r c = Some data"
  shows "parse_bind_parameters data = Inr \<lparr>bp_flags = Some 0,
           bp_addressing_mode = Some (if mode = MODE_14_BIT then 1 else 0),
           bp_screen_rows = Some r, bp_screen_cols = Some c, bp_extended_params = None\<rparr>
       \<and> validate_bind_image_format data
       \<and> parse_addressing_mode data = Some (if odd r then MODE_14_BIT else MODE_12_BIT)"
proof -
  note f = response_facts [OF assms]
  have u: "uint (word_of_int r :: byte) = r" "uint (word_of_int c :: byte) = c"
    using f by (simp_all add: uint_word_of_int)
  have "(word_of_int r AND 0x01 :: byte) \<noteq> 0 \<longleftrightarrow> odd r"
  proof -
    have "uint (word_of_int r AND 0x01 :: byte) = (r AND 1)" using u by (simp add: uint_and)
    then show ?thesis by (simp add: and_one_eq flip: uint_0_iff) presburger
  qed
  with f u show ?thesis
    by (simp add: parse_bind_parameters_def validate_bind_image_format_def parse_addressing_mode_def
        parse_addressing_mode_from_parameters_def Let_def numeral_eq_Suc)
qed

text \<open>
  When the mode reader has an answer: for well-formed fields exactly when there are three
  parameter bytes; for everything else exactly when there are at least 16 bytes, so 16 bytes of
  anything yield a mode.
\<close>

lemma parse_addressing_mode_answers_iff:
  "(\<exists>m. parse_addressing_mode data = Some m)
     \<longleftrightarrow> (if validate_bind_image_format data then be16 (data ! 1) (data ! 2) \<ge> 6 else length data \<ge> 16)"
proof -
  have "length (py_slice data 3 (be16 (data ! 1) (data ! 2))) = nat (be16 (data ! 1) (data ! 2) - 3)"
    if "validate_bind_image_format data"
    using that by (intro length_py_slice) (simp_all add: validate_bind_image_format_def)
  then show ?thesis
    by (auto simp: parse_addressing_mode_def parse_addressing_mode_from_parameters_def permissive_mode_def
        validate_bind_image_format_def Let_def)
qed

end
