(* ===== verification/AddressNegotiation.thy ===== *)
theory AddressNegotiation
  imports ExtScreen BindImages PyText
begin

text \<open>
  The agreement on an addressing mode: \<open>pure3270/protocol/addressing_negotiation.py\<close> and the
  methods of the negotiator and of the connection handler that drive it
  (\<open>negotiate_addressing_mode\<close>, \<open>handle_bind_image_addressing\<close>, \<open>handle_bind_image\<close> and
  \<open>transition_addressing_mode\<close> of \<open>pure3270/protocol/negotiator.py\<close> and
  \<open>pure3270/protocol/tn3270_handler.py\<close>). Each of the two has a negotiator and a screen buffer of
  its own. Lists are built up in the order of the code; the texts of log messages are left out.
\<close>

section \<open>State\<close>

datatype AddressingCapability = CAP_12_BIT | CAP_14_BIT

datatype AddressingNegotiationState =
  NOT_NEGOTIATED | NEGOTIATING | NEGOTIATED_12_BIT | NEGOTIATED_14_BIT | NEGOTIATION_FAILED

text \<open>The list of the server holds capabilities and, after a bind image, also modes.\<close>

datatype server_capability = Cap AddressingCapability | Mode AddressingMode

record addr_negotiator =
  an_state :: AddressingNegotiationState
  an_client :: "AddressingCapability list"
  an_server :: "server_capability list"
  an_mode :: "AddressingMode option"
  an_bind_received :: bool
  an_bind_mode :: "AddressingMode option"

definition AddressingModeNegotiator_init :: addr_negotiator where
  "AddressingModeNegotiator_init =
     \<lparr>an_state = NOT_NEGOTIATED, an_client = [CAP_12_BIT, CAP_14_BIT], an_server = [],
      an_mode = None, an_bind_received = False, an_bind_mode = None\<rparr>"

definition an_is_negotiated :: "addr_negotiator \<Rightarrow> bool" where
  "an_is_negotiated a \<longleftrightarrow> an_state a = NEGOTIATED_12_BIT \<or> an_state a = NEGOTIATED_14_BIT"

definition mode_state :: "AddressingMode \<Rightarrow> AddressingNegotiationState" where
  "mode_state m = (if m = MODE_14_BIT then NEGOTIATED_14_BIT else NEGOTIATED_12_BIT)"

definition set_negotiated :: "AddressingMode \<Rightarrow> addr_negotiator \<Rightarrow> addr_negotiator" where
  "set_negotiated m a = a\<lparr>an_mode := Some m, an_state := mode_state m\<rparr>"

section \<open>Capabilities\<close>

fun capability_value :: "AddressingCapability \<Rightarrow> string" where
  "capability_value CAP_12_BIT = ''12-bit''"
| "capability_value CAP_14_BIT = ''14-bit''"

definition get_client_capabilities_string :: "addr_negotiator \<Rightarrow> string" where
  "get_client_capabilities_string a = join_with '','' (map capability_value (an_client a))"

definition capability_of :: "string \<Rightarrow> AddressingCapability option" where
  "capability_of s =
     (if s \<in> {''12-bit'', ''12BITADDRESSING''} then Some CAP_12_BIT
      else if s \<in> {''14-bit'', ''14BITADDRESSING'', ''014BITADDRESSING''} then Some CAP_14_BIT
      else None)"

definition parse_server_capabilities :: "string \<Rightarrow> addr_negotiator \<Rightarrow> addr_negotiator" where
  "parse_server_capabilities s a =
     a\<lparr>an_server := map Cap (List.map_filter (\<lambda>w. capability_of (py_strip w))
         (py_split CHR '','' (map (\<lambda>c. if c = CHR '' '' then CHR '','' else c) s)))\<rparr>"

text \<open>
  \<open>negotiate_mode\<close> goes through the client's capabilities in their order and takes the first the
  server has. \<open>None\<close> is the exception for no common mode.
\<close>

definition negotiate_mode :: "addr_negotiator \<Rightarrow> AddressingMode option \<times> addr_negotiator" where
  "negotiate_mode a =
     (if an_server a = [] then (Some MODE_12_BIT, set_negotiated MODE_12_BIT a)
      else case find (\<lambda>c. Cap c \<in> set (an_server a)) (an_client a) of
             Some CAP_14_BIT \<Rightarrow> (Some MODE_14_BIT, set_negotiated MODE_14_BIT a)
           | Some CAP_12_BIT \<Rightarrow> (Some MODE_12_BIT, set_negotiated MODE_12_BIT a)
           | None \<Rightarrow> (None, a\<lparr>an_state := NEGOTIATION_FAILED\<rparr>))"

section \<open>Bind images\<close>

text \<open>\<open>None\<close> is the \<open>ParseError\<close> of data that is too short.\<close>

definition parse_bind_image_addressing_mode ::
    "bytes \<Rightarrow> addr_negotiator \<Rightarrow> AddressingMode option \<times> addr_negotiator" where
  "parse_bind_image_addressing_mode data a =
     (if length data < 2 then (None, a)
      else (let params = tl data
            in if length params \<ge> 4
               then (let m = (if params ! 2 AND 0x01 \<noteq> 0 then MODE_14_BIT else MODE_12_BIT)
                     in (Some m, a\<lparr>an_bind_mode := Some m, an_bind_received := True\<rparr>))
               else (None, a)))"

definition validate_mode_transition :: "AddressingMode \<Rightarrow> AddressingMode \<Rightarrow> bool" where
  "validate_mode_transition current new \<longleftrightarrow>
     new \<in> set (case current of MODE_12_BIT \<Rightarrow> [MODE_12_BIT, MODE_14_BIT]
                             | MODE_14_BIT \<Rightarrow> [MODE_14_BIT, MODE_12_BIT])"

definition validate_addressing_mode_centralized :: "int \<Rightarrow> AddressingMode \<Rightarrow> bool" where
  "validate_addressing_mode_centralized address m =
     (let is_valid = validate_address address m
      in if \<not> is_valid then (if address \<ge> get_max_positions m then False else is_valid) else is_valid)"

definition add_if_missing :: "server_capability \<Rightarrow> addr_negotiator \<Rightarrow> addr_negotiator" where
  "add_if_missing c a = (if c \<in> set (an_server a) then a else a\<lparr>an_server := an_server a @ [c]\<rparr>)"

definition update_from_bind_image :: "bytes \<Rightarrow> addr_negotiator \<Rightarrow> addr_negotiator" where
  "update_from_bind_image data a =
     (case parse_bind_image_addressing_mode data a of
        (None, a1) \<Rightarrow> a1
      | (Some m, a1) \<Rightarrow>
          (let a2 = add_if_missing (Mode MODE_14_BIT) (add_if_missing (Cap CAP_14_BIT) a1)
           in if \<not> an_is_negotiated a2 then set_negotiated m a2 else a2))"

definition an_reset :: "addr_negotiator \<Rightarrow> addr_negotiator" where
  "an_reset a = a\<lparr>an_state := NOT_NEGOTIATED, an_server := [], an_mode := None,
                 an_bind_received := False, an_bind_mode := None\<rparr>"

section \<open>The two drivers\<close>

text \<open>
  \<open>negotiate_addressing_mode\<close>, the same in both classes: the client's own capabilities are parsed
  as the server's.
\<close>

definition negotiate_addressing_mode :: "addr_negotiator \<Rightarrow> addr_negotiator" where
  "negotiate_addressing_mode a =
     (let a1 = parse_server_capabilities (get_client_capabilities_string a) a
      in case negotiate_mode a1 of
           (Some _, a2) \<Rightarrow> a2
         | (None, a2) \<Rightarrow> a2\<lparr>an_mode := Some MODE_12_BIT, an_state := NEGOTIATED_12_BIT\<rparr>)"

text \<open>\<open>handle_bind_image_addressing\<close> of the negotiator and \<open>handle_bind_image\<close> of the handler.\<close>

definition handle_bind_image_addressing :: "bytes \<Rightarrow> addr_negotiator \<Rightarrow> addr_negotiator" where
  "handle_bind_image_addressing data a =
     (case parse_addressing_mode data of
        None \<Rightarrow> a
      | Some m \<Rightarrow>
          (let a1 = update_from_bind_image data a
           in if an_mode a1 \<noteq> Some m then a1\<lparr>an_mode := Some m\<rparr> else a1))"

definition validate_addressing_mode_transition ::
    "AddressingMode option \<Rightarrow> AddressingMode \<Rightarrow> bool" where
  "validate_addressing_mode_transition from_mode to_mode =
     (case from_mode of None \<Rightarrow> True | Some m \<Rightarrow> validate_mode_transition m to_mode)"

text \<open>A screen buffer is plain or has the conversion method of the extended one.\<close>

datatype any_screen = Plain screen | Extended ext_screen

definition convert_screen :: "AddressingMode \<Rightarrow> any_screen option \<Rightarrow> py_error + any_screen option" where
  "convert_screen m b =
     (case b of
        Some (Extended x) \<Rightarrow>
          (case convert_addressing_mode m x of Inl e \<Rightarrow> Inl e | Inr y \<Rightarrow> Inr (Some (Extended y)))
      | _ \<Rightarrow> Inr b)"

text \<open>
  \<open>transition_addressing_mode\<close> of the negotiator: a conversion that fails raises, and the mode is
  set back when there was one.
\<close>

definition negotiator_transition ::
    "AddressingMode \<Rightarrow> addr_negotiator \<times> any_screen option
       \<Rightarrow> py_error option \<times> addr_negotiator \<times> any_screen option" where
  "negotiator_transition m ab =
     (let (a, b) = ab
      in if an_mode a = Some m then (None, a, b)
         else if \<not> validate_addressing_mode_transition (an_mode a) m then (Some ValueError, a, b)
         else case convert_screen m b of
                Inr b1 \<Rightarrow> (None, set_negotiated m a, b1)
              | Inl _ \<Rightarrow>
                  (Some ValueError,
                   (case an_mode a of None \<Rightarrow> set_negotiated m a
                                    | Some old \<Rightarrow> set_negotiated old (set_negotiated m a)), b))"

text \<open>\<open>transition_addressing_mode\<close> of the handler: a conversion that fails is ignored.\<close>

definition handler_transition ::
    "AddressingMode \<Rightarrow> addr_negotiator \<times> any_screen option
       \<Rightarrow> py_error option \<times> addr_negotiator \<times> any_screen option" where
  "handler_transition m ab =
     (let (a, b) = ab
      in if an_mode a = Some m then (None, a\<lparr>an_state := mode_state m\<rparr>, b)
         else if \<not> validate_addressing_mode_transition (an_mode a) m then (Some ValueError, a, b)
         else (None, set_negotiated m a,
               case convert_screen m b of Inr b1 \<Rightarrow> b1 | Inl _ \<Rightarrow> b))"

section \<open>What is agreed\<close>

text \<open>State and mode agree; a failed negotiation may leave a mode from before.\<close>

definition an_ok :: "addr_negotiator \<Rightarrow> bool" where
  "an_ok a \<longleftrightarrow>
     (case an_state a of
        NOT_NEGOTIATED \<Rightarrow> an_mode a = None
      | NEGOTIATED_12_BIT \<Rightarrow> an_mode a = Some MODE_12_BIT
      | NEGOTIATED_14_BIT \<Rightarrow> an_mode a = Some MODE_14_BIT
      | NEGOTIATION_FAILED \<Rightarrow> True
      | NEGOTIATING \<Rightarrow> False)
     \<and> an_client a = [CAP_12_BIT, CAP_14_BIT]"

lemma an_ok_init [simp]: "an_ok AddressingModeNegotiator_init"
  by (simp add: an_ok_def AddressingModeNegotiator_init_def)

lemma set_negotiated_ok [simp]:
  "an_ok (set_negotiated m a) \<longleftrightarrow> an_client a = [CAP_12_BIT, CAP_14_BIT]"
  by (cases m) (simp_all add: an_ok_def set_negotiated_def mode_state_def)

lemma set_negotiated_select [simp]:
  "an_mode (set_negotiated m a) = Some m" "an_state (set_negotiated m a) = mode_state m"
  "an_client (set_negotiated m a) = an_client a" "an_server (set_negotiated m a) = an_server a"
  by (simp_all add: set_negotiated_def)

lemma an_ok_client: "an_ok a \<Longrightarrow> an_client a = [CAP_12_BIT, CAP_14_BIT]"
  by (simp add: an_ok_def)

lemma client_string: "an_ok a \<Longrightarrow> get_client_capabilities_string a = ''12-bit,14-bit''"
  by (simp add: get_client_capabilities_string_def an_ok_client)

lemma parse_server_ok [simp]: "an_ok (parse_server_capabilities s a) = an_ok a"
  by (simp add: an_ok_def parse_server_capabilities_def split: AddressingNegotiationState.split)

lemma parse_server_select [simp]:
  "an_client (parse_server_capabilities s a) = an_client a"
  "an_state (parse_server_capabilities s a) = an_state a"
  "an_mode (parse_server_capabilities s a) = an_mode a"
  by (simp_all add: parse_server_capabilities_def)

text \<open>The client asks for 12 bits first, whatever the server offers besides.\<close>

lemma negotiate_mode_cases:
  assumes "an_ok a"
  shows "negotiate_mode a =
     (if an_server a = [] \<or> Cap CAP_12_BIT \<in> set (an_server a)
      then (Some MODE_12_BIT, set_negotiated MODE_12_BIT a)
      else if Cap CAP_14_BIT \<in> set (an_server a)
      then (Some MODE_14_BIT, set_negotiated MODE_14_BIT a)
      else (None, a\<lparr>an_state := NEGOTIATION_FAILED\<rparr>))"
  by (simp add: negotiate_mode_def an_ok_client [OF assms])

lemma negotiate_mode_ok: "an_ok a \<Longrightarrow> an_ok (snd (negotiate_mode a))"
  by (simp add: negotiate_mode_cases an_ok_client) (simp add: an_ok_def)

lemma own_capabilities:
  assumes "an_ok a"
  shows "an_server (parse_server_capabilities (get_client_capabilities_string a) a)
       = [Cap CAP_12_BIT, Cap CAP_14_BIT]"
  unfolding client_string [OF assms] parse_server_capabilities_def
  by (simp add: py_strip_id py_space_def capability_of_def List.map_filter_def)

lemma negotiate_addressing_mode_12:
  assumes "an_ok a"
  shows "an_mode (negotiate_addressing_mode a) = Some MODE_12_BIT"
    and "an_state (negotiate_addressing_mode a) = NEGOTIATED_12_BIT"
    and "an_ok (negotiate_addressing_mode a)"
  using assms own_capabilities [OF assms]
  by (simp_all add: negotiate_addressing_mode_def negotiate_mode_cases an_ok_client mode_state_def)

lemma update_from_bind_image_ok: "an_ok a \<Longrightarrow> an_ok (update_from_bind_image data a)"
  by (auto simp: update_from_bind_image_def parse_bind_image_addressing_mode_def add_if_missing_def
      Let_def an_is_negotiated_def an_ok_client)
     (auto simp: an_ok_def split: AddressingNegotiationState.splits)

section \<open>Every history\<close>

inductive addr_step :: "addr_negotiator \<Rightarrow> addr_negotiator \<Rightarrow> bool" where
  step_parse: "addr_step a (parse_server_capabilities s a)"
| step_negotiate: "addr_step a (snd (negotiate_mode a))"
| step_own: "addr_step a (negotiate_addressing_mode a)"
| step_update: "addr_step a (update_from_bind_image data a)"
| step_bind: "addr_step a (handle_bind_image_addressing data a)"
| step_reset: "addr_step a (an_reset a)"
| step_transition: "negotiator_transition m (a, b) = (e, a', b') \<Longrightarrow> addr_step a a'"
| step_handler: "handler_transition m (a, b) = (e, a', b') \<Longrightarrow> addr_step a a'"

inductive_cases addr_stepE: "addr_step a a'"

text \<open>
  What every operation keeps, the ones that set the mode without the state included. A list of the
  server that is not empty holds a capability of the client.
\<close>

definition an_inv :: "addr_negotiator \<Rightarrow> bool" where
  "an_inv a \<longleftrightarrow>
     an_client a = [CAP_12_BIT, CAP_14_BIT]
     \<and> an_state a \<in> {NOT_NEGOTIATED, NEGOTIATED_12_BIT, NEGOTIATED_14_BIT}
     \<and> (an_mode a = None \<longleftrightarrow> an_state a = NOT_NEGOTIATED)
     \<and> (an_server a \<noteq> [] \<longrightarrow> Cap CAP_12_BIT \<in> set (an_server a) \<or> Cap CAP_14_BIT \<in> set (an_server a))"

lemma some_capability: "cs \<noteq> [] \<Longrightarrow> Cap CAP_12_BIT \<in> set (map Cap cs) \<or> Cap CAP_14_BIT \<in> set (map Cap cs)"
  by (cases cs; cases "hd cs") auto

lemma set_negotiated_inv:
  assumes "an_inv a" shows "an_inv (set_negotiated m a)"
  using assms by (cases m) (auto simp: an_inv_def mode_state_def)

lemma parse_server_inv: "an_inv a \<Longrightarrow> an_inv (parse_server_capabilities s a)"
  using some_capability by (simp add: an_inv_def parse_server_capabilities_def del: set_map)

lemma negotiate_mode_inv:
  assumes "an_inv a"
  shows "fst (negotiate_mode a) \<noteq> None" and "an_inv (snd (negotiate_mode a))"
proof -
  have c: "an_client a = [CAP_12_BIT, CAP_14_BIT]" using assms by (simp add: an_inv_def)
  have "fst (negotiate_mode a) \<noteq> None \<and> (\<exists>m. snd (negotiate_mode a) = set_negotiated m a)"
    using assms by (auto simp: negotiate_mode_def c an_inv_def)
  with set_negotiated_inv [OF assms] show "fst (negotiate_mode a) \<noteq> None" "an_inv (snd (negotiate_mode a))"
    by auto
qed

lemma negotiate_own_inv: "an_inv a \<Longrightarrow> an_inv (negotiate_addressing_mode a)"
  using negotiate_mode_inv [OF parse_server_inv, of a "get_client_capabilities_string a"]
  by (auto simp: negotiate_addressing_mode_def Let_def split: prod.split option.split)

lemma update_inv: "an_inv a \<Longrightarrow> an_inv (update_from_bind_image data a)"
  by (auto simp: update_from_bind_image_def parse_bind_image_addressing_mode_def Let_def an_inv_def
      add_if_missing_def an_is_negotiated_def mode_state_def split: if_splits)

lemma bind_sets_mode:
  assumes "an_inv a" and "parse_addressing_mode data = Some m"
  shows "an_mode (update_from_bind_image data a) \<noteq> None"
proof -
  have "5 < length data"
    using assms(2) by (auto simp: parse_addressing_mode_def permissive_mode_def Let_def
        parse_addressing_mode_from_parameters_def length_py_slice split: if_splits)
  with assms(1) show ?thesis
    by (auto simp: update_from_bind_image_def parse_bind_image_addressing_mode_def Let_def
        an_is_negotiated_def add_if_missing_def an_inv_def)
qed

lemma set_mode_inv: "an_inv a \<Longrightarrow> an_mode a \<noteq> None \<Longrightarrow> an_inv (a\<lparr>an_mode := Some m\<rparr>)"
  by (auto simp: an_inv_def)

lemma bind_inv:
  assumes "an_inv a" shows "an_inv (handle_bind_image_addressing data a)"
  using update_inv [OF assms, of data] bind_sets_mode [OF assms, of data] assms set_mode_inv
  by (simp add: handle_bind_image_addressing_def Let_def split: option.split)

lemma negotiator_transition_state:
  assumes "negotiator_transition m (a, b) = (e, a', b')"
  shows "a' = a \<or> a' = set_negotiated m a \<or> (\<exists>old. a' = set_negotiated old (set_negotiated m a))"
  using assms by (auto simp: negotiator_transition_def split: if_splits sum.splits option.splits)

lemma negotiator_transition_inv:
  assumes "an_inv a" and "negotiator_transition m (a, b) = (e, a', b')"
  shows "an_inv a'"
  using negotiator_transition_state [OF assms(2)] assms(1) by (auto intro: set_negotiated_inv)

lemma handler_transition_inv:
  assumes "an_inv a" and "handler_transition m (a, b) = (e, a', b')"
  shows "an_inv a'"
  using assms(2) assms(1)
  by (auto simp: handler_transition_def an_inv_def mode_state_def set_negotiated_def split: if_splits)

lemma addr_step_inv: "addr_step a a' \<Longrightarrow> an_inv a \<Longrightarrow> an_inv a'"
proof (induction rule: addr_step.induct)
  case (step_reset a)
  then show ?case by (simp add: an_inv_def an_reset_def)
qed (auto intro: parse_server_inv negotiate_mode_inv negotiate_own_inv update_inv bind_inv
    negotiator_transition_inv handler_transition_inv)

lemma addr_reachable_inv:
  assumes "addr_step\<^sup>*\<^sup>* AddressingModeNegotiator_init a" shows "an_inv a"
  using assms
proof induction
  case base
  show ?case by (simp add: an_inv_def AddressingModeNegotiator_init_def)
qed (rule addr_step_inv)

section \<open>Properties\<close>

text \<open>
  Whatever has happened to a negotiator before, negotiating returns a mode, and it is 14 bits
  exactly when the server's last list has the 14-bit capability without the 12-bit one; the
  negotiation the connection itself starts always ends with 12 bits. The states NEGOTIATING and
  FAILED are never reached, and a mode is set exactly when one was negotiated.
\<close>

lemma addressing_histories:
  assumes "addr_step\<^sup>*\<^sup>* AddressingModeNegotiator_init a"
  shows "fst (negotiate_mode a)
       = Some (if Cap CAP_14_BIT \<in> set (an_server a) \<and> Cap CAP_12_BIT \<notin> set (an_server a)
               then MODE_14_BIT else MODE_12_BIT)
     \<and> an_mode (negotiate_addressing_mode a) = Some MODE_12_BIT
     \<and> an_state a \<noteq> NEGOTIATING \<and> an_state a \<noteq> NEGOTIATION_FAILED
     \<and> (an_mode a \<noteq> None \<longleftrightarrow> an_is_negotiated a)"
proof -
  have i: "an_inv a" by (rule addr_reachable_inv [OF assms])
  then have c: "an_client a = [CAP_12_BIT, CAP_14_BIT]" by (simp add: an_inv_def)
  have "an_server (parse_server_capabilities (get_client_capabilities_string a) a)
          = [Cap CAP_12_BIT, Cap CAP_14_BIT]"
    by (simp add: get_client_capabilities_string_def c parse_server_capabilities_def py_strip_id
        py_space_def capability_of_def List.map_filter_def)
  with i c show ?thesis
    by (auto simp: negotiate_mode_def negotiate_addressing_mode_def an_inv_def an_is_negotiated_def)
qed

text \<open>
  A transition asked of the negotiator fails exactly when there is an extended screen buffer
  that cannot be converted. When it succeeds, the mode is the new one with the state that belongs to
  it, and an extended screen has the mode and keeps its text. When it fails, the screen is as before,
  and so is the negotiator, unless it had no mode yet: then the refused mode stays set.
\<close>

lemma transition_all_or_nothing:
  assumes "an_inv a" and "an_ok a" and "negotiator_transition m (a, b) = (e, a', b')"
  shows "(e \<noteq> None \<longleftrightarrow> an_mode a \<noteq> Some m
             \<and> (\<exists>x err. b = Some (Extended x) \<and> convert_addressing_mode m x = Inl err))
     \<and> (e = None \<longrightarrow> an_mode a' = Some m \<and> an_state a' = mode_state m
          \<and> (\<forall>x. b = Some (Extended x) \<and> an_mode a \<noteq> Some m \<longrightarrow>
                (\<exists>y. b' = Some (Extended y) \<and> xs_mode y = m
                   \<and> buffer (xs_base y) = buffer (xs_base x))))
     \<and> (e \<noteq> None \<longrightarrow> b' = b \<and> a' = (if an_mode a = None then set_negotiated m a else a))"
proof -
  have v: "validate_addressing_mode_transition (an_mode a) m"
    by (cases m) (auto simp: validate_addressing_mode_transition_def validate_mode_transition_def
        split: option.split AddressingMode.split)
  have same: "set_negotiated old (set_negotiated m a) = a" if "an_mode a = Some old" for old
    using assms(1,2) that by (auto simp: an_inv_def an_ok_def set_negotiated_def mode_state_def)
  have same_state: "an_state a = mode_state m" if "an_mode a = Some m"
    using assms(1,2) that by (auto simp: an_inv_def an_ok_def mode_state_def)
  show ?thesis
  proof (cases "an_mode a = Some m")
    case True
    with assms(3) same_state show ?thesis by (auto simp: negotiator_transition_def)
  next
    case False
    show ?thesis
    proof (cases "convert_screen m b")
      case (Inl err)
      then obtain x where x: "b = Some (Extended x)" "convert_addressing_mode m x = Inl err"
        by (auto simp: convert_screen_def split: option.splits any_screen.splits sum.splits)
      with Inl False v assms(3) same show ?thesis
        by (auto simp: negotiator_transition_def split: option.splits)
    next
      case (Inr b1)
      with False v assms(3) have r: "e = None" "a' = set_negotiated m a" "b' = b1"
        by (auto simp: negotiator_transition_def)
      with Inr False show ?thesis
        by (auto simp: convert_screen_def convert_result split: sum.splits)
    qed
  qed
qed

text \<open>
  The two ways the mode and the rest part: a bind image sets the mode of a negotiated connection
  without its state, and a transition of the handler sets the mode when the screen keeps the old one.
\<close>

lemma bind_image_splits_mode:
  assumes "an_mode a = Some MODE_12_BIT" and "an_state a = NEGOTIATED_12_BIT"
    and "parse_addressing_mode data = Some MODE_14_BIT"
  shows "an_mode (handle_bind_image_addressing data a) = Some MODE_14_BIT
       \<and> an_state (handle_bind_image_addressing data a) = NEGOTIATED_12_BIT"
  using assms
  by (auto simp: handle_bind_image_addressing_def update_from_bind_image_def Let_def
      parse_bind_image_addressing_mode_def add_if_missing_def an_is_negotiated_def)

lemma handler_transition_splits_screen:
  assumes "an_mode a = Some (xs_mode x)" and "m \<noteq> xs_mode x"
    and "convert_addressing_mode m x = Inl err"
  shows "handler_transition m (a, Some (Extended x)) = (None, set_negotiated m a, Some (Extended x))"
  using assms
  by (cases m; cases "xs_mode x")
     (auto simp: handler_transition_def convert_screen_def validate_addressing_mode_transition_def
       validate_mode_transition_def)

end
