(* ===== verification/Header3270E.thy ===== *)
theory Header3270E
  imports StructuredFields
begin

text \<open>
  \<open>pure3270/protocol/tn3270e_header.py\<close>: the five-byte header of a TN3270E message and the
  handler that tries to make a header out of malformed bytes. The constructor of a header checks
  nothing, so its fields are integers; \<open>None\<close> as the result of \<open>to_bytes\<close> is the
  \<open>struct.error\<close> of a field out of range. The clock is an argument.
\<close>

section \<open>The header\<close>

record TN3270EHeader =
  h_data_type :: int
  h_request_flag :: int
  h_response_flag :: int
  h_seq_number :: int

text \<open>The defaults of the constructor.\<close>

definition TN3270EHeader_default :: TN3270EHeader where
  "TN3270EHeader_default =
     \<lparr>h_data_type = 0, h_request_flag = 0, h_response_flag = 0, h_seq_number = 0\<rparr>"

definition from_bytes :: "bytes \<Rightarrow> TN3270EHeader option" where
  "from_bytes data =
     (if length data < 5 then None
      else if list_all (\<lambda>b. b = 0) (take 5 data) then None
      else if list_all (\<lambda>b. b = 0xFF) (take 5 data) then None
      else if be16 (data ! 3) (data ! 4) > 0xFFFF then None
      else if data ! 2 \<notin> {0x00, 0x01, 0x02} then None
      else Some \<lparr>h_data_type = uint (data ! 0), h_request_flag = uint (data ! 1),
                 h_response_flag = uint (data ! 2), h_seq_number = be16 (data ! 3) (data ! 4)\<rparr>)"

definition is_byte :: "int \<Rightarrow> bool" where
  "is_byte n \<longleftrightarrow> 0 \<le> n \<and> n < 256"

definition to_bytes :: "TN3270EHeader \<Rightarrow> bytes option" where
  "to_bytes h =
     (if is_byte (h_data_type h) \<and> is_byte (h_request_flag h) \<and> is_byte (h_response_flag h)
         \<and> 0 \<le> h_seq_number h \<and> h_seq_number h < 65536
      then Some [word_of_int (h_data_type h), word_of_int (h_request_flag h),
                 word_of_int (h_response_flag h),
                 word_of_int (h_seq_number h div 256), word_of_int (h_seq_number h mod 256)]
      else None)"

definition is_tn3270_data :: "TN3270EHeader \<Rightarrow> bool" where
  "is_tn3270_data h \<longleftrightarrow> h_data_type h = 0x00"

definition is_scs_data :: "TN3270EHeader \<Rightarrow> bool" where
  "is_scs_data h \<longleftrightarrow> h_data_type h = 0x01"

definition is_response :: "TN3270EHeader \<Rightarrow> bool" where
  "is_response h \<longleftrightarrow> h_data_type h = 0x02"

definition is_no_response :: "TN3270EHeader \<Rightarrow> bool" where
  "is_no_response h \<longleftrightarrow> h_response_flag h = 0x00"

definition is_error_response :: "TN3270EHeader \<Rightarrow> bool" where
  "is_error_response h \<longleftrightarrow> h_response_flag h = 0x01"

definition is_negative_response :: "TN3270EHeader \<Rightarrow> bool" where
  "is_negative_response h \<longleftrightarrow> h_response_flag h = 0x01"

definition is_always_response :: "TN3270EHeader \<Rightarrow> bool" where
  "is_always_response h \<longleftrightarrow> h_response_flag h = 0x02"

definition has_extended_addressing_request :: "TN3270EHeader \<Rightarrow> bool" where
  "has_extended_addressing_request h \<longleftrightarrow> h_request_flag h AND 0x80 \<noteq> 0"

definition has_extended_addressing_response :: "TN3270EHeader \<Rightarrow> bool" where
  "has_extended_addressing_response h \<longleftrightarrow> h_response_flag h AND 0x80 \<noteq> 0"

definition set_extended_addressing_request :: "bool \<Rightarrow> TN3270EHeader \<Rightarrow> TN3270EHeader" where
  "set_extended_addressing_request enabled h =
     h\<lparr>h_request_flag := (if enabled then h_request_flag h OR 0x80 else h_request_flag h AND NOT 0x80)\<rparr>"

definition set_extended_addressing_response :: "bool \<Rightarrow> TN3270EHeader \<Rightarrow> TN3270EHeader" where
  "set_extended_addressing_response enabled h =
     h\<lparr>h_response_flag := (if enabled then h_response_flag h OR 0x80 else h_response_flag h AND NOT 0x80)\<rparr>"

text \<open>The names; \<open>None\<close> is the formatted name of an unknown number.\<close>

definition get_data_type_name :: "TN3270EHeader \<Rightarrow> string option" where
  "get_data_type_name h =
     map_of [(0x00, ''TN3270_DATA''), (0x01, ''SCS_DATA''), (0x02, ''RESPONSE''),
       (0x03, ''BIND_IMAGE''), (0x04, ''UNBIND''), (0x05, ''NVT_DATA''), (0x06, ''REQUEST''),
       (0x07, ''SSCP_LU_DATA''), (0x08, ''PRINT_EOJ''), (0x09, ''SNA_RESPONSE''),
       (0x0A, ''PRINTER_STATUS_DATA_TYPE'')] (h_data_type h)"

definition get_response_flag_name :: "TN3270EHeader \<Rightarrow> string option" where
  "get_response_flag_name h =
     map_of [(0x00, ''NO_RESPONSE''), (0x01, ''ERROR_RESPONSE''), (0x02, ''ALWAYS_RESPONSE'')]
       (h_response_flag h)"

text \<open>\<open>handle_negative_response\<close> always raises; this is what.\<close>

datatype negative_error =
    Not_negative
  | Missing_code
  | Negative_response "string option" "string option option"

definition negative_codes :: "(byte \<times> string) list" where
  "negative_codes =
     [(0x01, ''SEGMENT''), (0x02, ''USABLE-AREA''), (0x03, ''REQUEST''), (0xFF, ''SNA_NEGATIVE'')]"

definition negative_senses :: "(int \<times> string) list" where
  "negative_senses =
     [(0x0000, ''SUCCESS''), (0x0801, ''INVALID_REQUEST''), (0x1001, ''INVALID_FORMAT''),
      (0x1008, ''INVALID_SEQUENCE''), (0x080A, ''LU_BUSY''), (0x080F, ''NO_RESOURCES''),
      (0x1002, ''NOT_SUPPORTED''), (0x082A, ''SESSION_FAILURE''), (0x1003, ''STATE_ERROR'')]"

definition handle_negative_response :: "TN3270EHeader \<Rightarrow> bytes \<Rightarrow> negative_error" where
  "handle_negative_response h data =
     (if \<not> is_negative_response h then Not_negative
      else if data = [] then Missing_code
      else Negative_response (map_of negative_codes (data ! 0))
             (if data ! 0 = 0xFF \<and> length data \<ge> 3
              then Some (map_of negative_senses (be16 (data ! 1) (data ! 2))) else None))"

section \<open>Malformed headers\<close>

record malformed_entry =
  me_data :: string
  me_length :: int
  me_context :: string
  me_timestamp :: int

record MalformedDataHandler =
  recovery_attempts :: int
  max_recovery_attempts :: int
  malformed_data_log :: "malformed_entry list"

definition MalformedDataHandler_init :: MalformedDataHandler where
  "MalformedDataHandler_init =
     \<lparr>recovery_attempts = 0, max_recovery_attempts = 3, malformed_data_log = []\<rparr>"

definition try_truncated_header :: "bytes \<Rightarrow> TN3270EHeader option" where
  "try_truncated_header data =
     (if length data < 3 then None
      else Some \<lparr>h_data_type = (if data ! 0 \<in> {0x00, 0x01, 0x02} then uint (data ! 0) else 0x00),
                 h_request_flag = uint (data ! 1), h_response_flag = uint (data ! 2), h_seq_number = 0\<rparr>)"

definition rstrip_nulls :: "bytes \<Rightarrow> bytes" where
  "rstrip_nulls bs = rev (dropWhile (\<lambda>b. b = 0) (rev bs))"

definition try_padded_header :: "bytes \<Rightarrow> TN3270EHeader option" where
  "try_padded_header data =
     (if length data < 5 then None
      else if length (rstrip_nulls (take 5 data)) < 3 then None
      else from_bytes (take 5 data))"

fun first_some :: "('a \<Rightarrow> 'b option) \<Rightarrow> 'a list \<Rightarrow> 'b option" where
  "first_some f [] = None"
| "first_some f (x # xs) = (case f x of Some y \<Rightarrow> Some y | None \<Rightarrow> first_some f xs)"

definition try_realigned_header :: "bytes \<Rightarrow> TN3270EHeader option" where
  "try_realigned_header data =
     (if length data < 6 then None
      else first_some (\<lambda>off. from_bytes (take 5 (drop off data))) [0 ..< min 3 (length data - 4)])"

definition try_legacy_format :: "bytes \<Rightarrow> TN3270EHeader option" where
  "try_legacy_format data =
     (if length data < 5 then None
      else Some \<lparr>h_data_type = uint (data ! 0), h_request_flag = uint (data ! 1),
                 h_response_flag = uint (data ! 2), h_seq_number = be16 (data ! 4) (data ! 3)\<rparr>)"

definition log_malformed :: "malformed_entry \<Rightarrow> MalformedDataHandler \<Rightarrow> MalformedDataHandler" where
  "log_malformed e m =
     (let m1 = m\<lparr>malformed_data_log := malformed_data_log m @ [e]\<rparr>
      in if length (malformed_data_log m1) > 100
         then m1\<lparr>malformed_data_log := tl (malformed_data_log m1)\<rparr> else m1)"

definition handle_malformed_header ::
    "bytes \<Rightarrow> string \<Rightarrow> int \<Rightarrow> MalformedDataHandler \<Rightarrow> TN3270EHeader option \<times> MalformedDataHandler" where
  "handle_malformed_header data ctxt now m =
     (if data = [] then (None, m)
      else (first_some (\<lambda>strategy. strategy data)
              [try_truncated_header, try_padded_header, try_realigned_header, try_legacy_format],
            log_malformed \<lparr>me_data = hexlify data, me_length = int (length data), me_context = ctxt,
                           me_timestamp = now\<rparr> m))"

definition clear_malformed_data_log :: "MalformedDataHandler \<Rightarrow> MalformedDataHandler" where
  "clear_malformed_data_log m = m\<lparr>malformed_data_log := []\<rparr>"

interpretation malformed_log: bounded_log
  "\<lambda>m e. log_malformed e m" malformed_data_log "\<lambda>_. 100" "\<lambda>e. e"
  by unfold_locales (simp add: log_malformed_def push_limited_def Let_def)+


section \<open>Properties\<close>

lemma uint_of_int_is_byte: "is_byte n \<Longrightarrow> uint (word_of_int n :: byte) = n"
  by (simp add: is_byte_def uint_word_of_int)

lemma word_of_int_is: "is_byte n \<Longrightarrow> word_of_int n = (b :: byte) \<longleftrightarrow> n = uint b"
  using uint_of_int_is_byte by (metis word_of_int_uint)

lemma take_5: "length data \<ge> 5 \<Longrightarrow> take 5 data = [data ! 0, data ! 1, data ! 2, data ! 3, data ! 4]"
proof -
  assume "length data \<ge> 5"
  then obtain a b c d e ds where "data = a # b # c # d # e # ds"
    by (metis Suc_le_length_iff numeral_eq_Suc pred_numeral_simps semiring_norm(26-28) One_nat_def
        numeral_One)
  then show ?thesis by (simp add: numeral_eq_Suc)
qed

text \<open>
  Headers on the wire: a header whose fields fit its five bytes is read back from them
  exactly when its response flag is one of the three of the standard and not all five bytes are
  zero; so the default header, a data message without response number zero, is not read back.
  And whatever is read as a header gives its five bytes back.
\<close>

lemma header_roundtrip:
  "(\<forall>bs. to_bytes h = Some bs \<longrightarrow> length bs = 5
      \<and> from_bytes bs = (if h_response_flag h \<in> {0, 1, 2} \<and> h \<noteq> TN3270EHeader_default
                         then Some h else None))
   \<and> (\<forall>data. from_bytes data = Some h \<longrightarrow> to_bytes h = Some (take 5 data))"
proof (intro conjI allI impI)
  fix bs assume "to_bytes h = Some bs"
  then have r: "is_byte (h_data_type h)" "is_byte (h_request_flag h)" "is_byte (h_response_flag h)"
    "0 \<le> h_seq_number h" "h_seq_number h < 65536"
    and bs: "bs = [word_of_int (h_data_type h), word_of_int (h_request_flag h),
                 word_of_int (h_response_flag h),
                 word_of_int (h_seq_number h div 256), word_of_int (h_seq_number h mod 256)]"
    by (auto simp: to_bytes_def split: if_splits)
  have q: "is_byte (h_seq_number h div 256)" "is_byte (h_seq_number h mod 256)"
    using r(4,5) by (auto simp: is_byte_def)
  have zero: "list_all (\<lambda>b. b = 0) bs \<longleftrightarrow> h = TN3270EHeader_default"
    using r q by (cases h) (auto simp: bs word_of_int_is TN3270EHeader_default_def)
  have flag: "bs ! 2 \<in> {0, 1, 2} \<longleftrightarrow> h_response_flag h \<in> {0, 1, 2}"
    using r by (simp add: bs word_of_int_is)
  have ff: "list_all (\<lambda>b. b = 0xFF) bs \<Longrightarrow> h_response_flag h \<notin> {0, 1, 2}"
    using r by (auto simp: bs word_of_int_is)
  have seq: "be16 (bs ! 3) (bs ! 4) = h_seq_number h"
    using q by (simp add: bs be16_eq uint_of_int_is_byte)
  show "length bs = 5" by (simp add: bs)
  then have t: "take 5 bs = bs" by simp
  have u: "uint (bs ! 0) = h_data_type h" "uint (bs ! 1) = h_request_flag h" "uint (bs ! 2) = h_response_flag h"
    using r by (simp_all add: bs uint_of_int_is_byte)
  show "from_bytes bs = (if h_response_flag h \<in> {0, 1, 2} \<and> h \<noteq> TN3270EHeader_default then Some h else None)"
    unfolding from_bytes_def t zero seq u flag using ff r(5) \<open>length bs = 5\<close> by (cases h) auto
next
  fix data assume a: "from_bytes data = Some h"
  then have l: "length data \<ge> 5"
    and h: "h = \<lparr>h_data_type = uint (data ! 0), h_request_flag = uint (data ! 1),
                 h_response_flag = uint (data ! 2), h_seq_number = be16 (data ! 3) (data ! 4)\<rparr>"
    by (auto simp: from_bytes_def split: if_splits)
  have "be16 (data ! 3) (data ! 4) div 256 = uint (data ! 3)" "be16 (data ! 3) (data ! 4) mod 256 = uint (data ! 4)"
    by (simp_all add: be16_eq)
  with h l be16_range [of "data ! 3" "data ! 4"] show "to_bytes h = Some (take 5 data)"
    by (simp add: to_bytes_def is_byte_def take_5)
qed

text \<open>
  Negotiating extended addressing in the response flag cannot work: a header that carries the
  flag is written, but never read back.
\<close>

lemma extended_response_rejected:
  assumes "is_byte (h_response_flag h)"
    and "to_bytes (set_extended_addressing_response True h) = Some bs"
  shows "has_extended_addressing_response (set_extended_addressing_response True h) \<and> from_bytes bs = None"
proof -
  let ?h = "set_extended_addressing_response True h"
  have b7: "bit (h_response_flag ?h) 7"
    by (simp add: set_extended_addressing_response_def bit_or_iff bit_numeral_simps)
  have "bit (h_response_flag ?h AND 0x80) 7" using b7 by (simp add: bit_and_iff bit_numeral_simps)
  then have "h_response_flag ?h AND 0x80 \<noteq> 0" by (metis bit_0_eq bot_apply bot_bool_def)
  moreover have "h_response_flag ?h \<notin> {0, 1, 2}"
    using b7 by (auto simp: bit_numeral_simps)
  moreover have "length bs = 5 \<and> from_bytes bs = None"
  proof -
    from assms(2) have r: "is_byte (h_response_flag ?h)"
      and bs: "length bs = 5" "bs ! 2 = word_of_int (h_response_flag ?h)"
      by (auto simp: to_bytes_def split: if_splits)
    have "bs ! 2 \<notin> {0, 1, 2}" using r \<open>h_response_flag ?h \<notin> {0, 1, 2}\<close> by (simp add: bs word_of_int_is)
    with bs(1) show ?thesis by (simp add: from_bytes_def)
  qed
  ultimately show ?thesis by (simp add: has_extended_addressing_response_def)
qed

text \<open>
  Recovery of a malformed header: three bytes are enough to get a header and fewer never do,
  so the strategies behind the first one are never used; the sequence number of the data is
  dropped and an unknown data type becomes 3270 data. The log never grows past 100 entries,
  whatever the calls, and its last entry is the data just handled.
\<close>

lemma malformed_recovery:
  assumes "int (length (malformed_data_log m)) \<le> 100"
    and "(result, m') = handle_malformed_header data ctxt now m"
  shows "(result = None \<longleftrightarrow> length data < 3)
       \<and> (\<forall>h. result = Some h \<longrightarrow> h_data_type h \<in> {0, 1, 2} \<and> h_seq_number h = 0
             \<and> h_request_flag h = uint (data ! 1) \<and> h_response_flag h = uint (data ! 2))
       \<and> int (length (malformed_data_log m')) \<le> 100
       \<and> (data \<noteq> [] \<longrightarrow> me_data (last (malformed_data_log m')) = hexlify data)"
proof (cases "data = []")
  case True
  with assms show ?thesis by (simp add: handle_malformed_header_def)
next
  case False
  let ?e = "\<lparr>me_data = hexlify data, me_length = int (length data), me_context = ctxt, me_timestamp = now\<rparr>"
  from assms(2) False have m': "m' = log_malformed ?e m"
    and r: "result = first_some (\<lambda>strategy. strategy data)
              [try_truncated_header, try_padded_header, try_realigned_header, try_legacy_format]"
    by (simp_all add: handle_malformed_header_def)
  have "int (length (malformed_data_log m')) \<le> 100"
    unfolding m' by (rule malformed_log.push_bounded) (use assms(1) in simp_all)
  moreover have "last (malformed_data_log m') = ?e"
    unfolding m' using malformed_log.last_push by simp
  moreover have "result = try_truncated_header data"
    unfolding r by (cases "length data < 3")
      (simp_all add: try_truncated_header_def try_padded_header_def try_realigned_header_def try_legacy_format_def)
  ultimately show ?thesis by (auto simp: try_truncated_header_def split: if_splits)
qed

end
