(* ===== verification/Telnet.thy ===== *)
theory Telnet
  imports Prelude3270
begin

text \<open>
  The Telnet layer: \<open>_process_telnet_stream\<close> and \<open>_handle_telnet_command\<close> of
  \<open>pure3270/protocol/tn3270_handler.py\<close>, which separate commands from data in a stream that
  arrives in chunks, and \<open>strip_telnet_iac\<close> of \<open>pure3270/protocol/utils.py\<close>, which does so for
  one byte string.

  The negotiator is a package of its own: its state is a type parameter, and what its two entry
  points do to it, exceptions swallowed, and the function bits it has negotiated are given by a
  record of functions. That it also holds a reference back to the handler is left out.
\<close>

section \<open>Commands\<close>

abbreviation IAC :: byte where "IAC \<equiv> 0xFF"

abbreviation SB :: byte where "SB \<equiv> 0xFA"

abbreviation SE :: byte where "SE \<equiv> 0xF0"

definition negotiation_commands :: "byte list" where
  "negotiation_commands = [0xFD, 0xFE, 0xFB, 0xFC]"

record 'n negotiator_ops =
  neg_iac_command :: "byte \<Rightarrow> byte \<Rightarrow> 'n \<Rightarrow> 'n"
  neg_subnegotiation :: "byte \<Rightarrow> bytes \<Rightarrow> 'n \<Rightarrow> 'n"
  neg_functions :: "'n \<Rightarrow> int"

record 'n telnet =
  telnet_buffer :: bytes
  negotiator :: 'n
  in_suspended_mode :: bool
  in_3270_mode :: bool
  has_writer :: bool
  is_connected :: bool
  sent :: bytes

text \<open>AO suspends the session when SYSREQ was negotiated; AYT is answered with NOP.\<close>

definition handle_telnet_command ::
    "'n negotiator_ops \<Rightarrow> byte \<Rightarrow> 'n telnet \<Rightarrow> 'n telnet" where
  "handle_telnet_command N cmd s =
     (if cmd = 0xF5 then
        (if neg_functions N (negotiator s) AND 0x10 \<noteq> 0
         then s\<lparr>in_suspended_mode := True, in_3270_mode := False\<rparr> else s)
      else if cmd = 0xF6 then
        (if has_writer s \<and> is_connected s then s\<lparr>sent := sent s @ [IAC, 0xF1]\<rparr> else s)
      else s)"

section \<open>The stream\<close>

text \<open>\<open>data.find(bytes([IAC, SE]), i + 2)\<close>: what stands before the pair and what stands behind it.\<close>

fun split_se :: "bytes \<Rightarrow> (bytes \<times> bytes) option" where
  "split_se (x # y # zs) =
     (if x = IAC \<and> y = SE then Some ([], zs)
      else map_option (\<lambda>(pre, post). (x # pre, post)) (split_se (y # zs)))"
| "split_se _ = None"

lemma split_se_length: "split_se xs = Some (pre, post) \<Longrightarrow> length post < length xs"
  by (induction xs arbitrary: pre rule: split_se.induct) (fastforce split: if_splits)+

text \<open>
  The option of a subnegotiation is the byte behind \<open>IAC SB\<close>, which for an empty one is the
  \<open>IAC\<close> of its end; the payload is what follows the option.
\<close>

definition sub_option :: "bytes \<Rightarrow> byte" where
  "sub_option pre = (case pre of [] \<Rightarrow> IAC | x # _ \<Rightarrow> x)"

function (sequential) telnet_loop ::
    "'n negotiator_ops \<Rightarrow> bytes \<Rightarrow> bytes \<Rightarrow> 'n telnet \<Rightarrow> bytes \<times> 'n telnet" where
  "telnet_loop N [] out s = (out, s)"
| "telnet_loop N (b # bs) out s =
     (if b \<noteq> IAC then telnet_loop N bs (out @ [b]) s
      else case bs of
        [] \<Rightarrow> (out, s\<lparr>telnet_buffer := [b]\<rparr>)
      | c # cs \<Rightarrow>
          (if c = IAC then telnet_loop N cs (out @ [IAC]) s
           else if c \<in> set negotiation_commands then
             (case cs of
                [] \<Rightarrow> (out, s\<lparr>telnet_buffer := [b, c]\<rparr>)
              | opt # ds \<Rightarrow>
                  telnet_loop N ds out (s\<lparr>negotiator := neg_iac_command N c opt (negotiator s)\<rparr>))
           else if c = SB then
             (case split_se cs of
                None \<Rightarrow> (out, s\<lparr>telnet_buffer := b # c # cs\<rparr>)
              | Some (pre, post) \<Rightarrow>
                  telnet_loop N post out
                    (s\<lparr>negotiator := neg_subnegotiation N (sub_option pre) (tl pre) (negotiator s)\<rparr>))
           else telnet_loop N cs out (handle_telnet_command N c s)))"
  by pat_completeness auto
termination
  by (relation "measure (\<lambda>(_, bs, _, _). length bs)") (auto dest: split_se_length)

text \<open>
  \<open>_detect_vt100_sequences\<close>: an escape sequence, or at least 32 bytes of which 70 percent are
  printable ASCII. The quotient of two lengths is compared with 0.7 in floating point, which
  agrees with the exact comparison for every length that fits in memory.
\<close>

definition vt100_starters :: "byte list" where
  "vt100_starters = [0x5B, 0x28, 0x29, 0x23, 0x44, 0x4D, 0x63, 0x37, 0x38]"

fun has_escape_sequence :: "bytes \<Rightarrow> bool" where
  "has_escape_sequence (x # y # zs) \<longleftrightarrow>
     (x = 0x1B \<and> y \<in> set vt100_starters) \<or> has_escape_sequence (y # zs)"
| "has_escape_sequence _ \<longleftrightarrow> False"

definition printable_ascii :: "byte \<Rightarrow> bool" where
  "printable_ascii b \<longleftrightarrow> 32 \<le> b \<and> b \<le> 126"

definition detect_vt100_sequences :: "bytes \<Rightarrow> bool" where
  "detect_vt100_sequences data \<longleftrightarrow>
     (if data = [] \<or> data = [0x1B] then False
      else has_escape_sequence data
        \<or> (length data \<ge> 32 \<and> 10 * length (filter printable_ascii data) \<ge> 7 * length data))"

text \<open>\<open>_process_telnet_stream\<close>: the data of the chunk with the flag of the detection.\<close>

definition process_telnet_stream ::
    "'n negotiator_ops \<Rightarrow> bytes \<Rightarrow> 'n telnet \<Rightarrow> (bytes \<times> bool) \<times> 'n telnet" where
  "process_telnet_stream N data s =
     (case telnet_loop N (telnet_buffer s @ data) [] (s\<lparr>telnet_buffer := []\<rparr>) of
        (out, s1) \<Rightarrow> ((out, detect_vt100_sequences out), s1))"

section \<open>One byte string\<close>

fun skip_to_se :: "bytes \<Rightarrow> bytes" where
  "skip_to_se [] = []"
| "skip_to_se (x # xs) = (if x = SE then xs else skip_to_se xs)"

lemma skip_to_se_length: "length (skip_to_se xs) \<le> length xs"
  by (induction xs) auto

text \<open>\<open>strip_telnet_iac\<close>; its options change what is logged only.\<close>

function strip_telnet_iac :: "bytes \<Rightarrow> bytes" where
  "strip_telnet_iac [] = []"
| "strip_telnet_iac (b # bs) =
     (if b \<noteq> IAC then b # strip_telnet_iac bs
      else case bs of
        [] \<Rightarrow> []
      | c # cs \<Rightarrow>
          (if c = SB then strip_telnet_iac (skip_to_se cs)
           else if c \<in> set negotiation_commands then strip_telnet_iac (drop 1 cs)
           else strip_telnet_iac cs))"
  by pat_completeness auto
termination
  by (relation "measure length") (auto simp: less_Suc_eq_le le_SucI skip_to_se_length)


section \<open>Chunks\<close>

lemma handle_command_frame [simp]:
  "telnet_buffer (handle_telnet_command N c s) = telnet_buffer s"
  by (simp add: handle_telnet_command_def)

text \<open>What may stand at the head of a stream, and what the loop does with it.\<close>

lemma element_cases [case_names Empty Data Lone Escape Short Option Open Sub Command]:
  obtains "xs = []"
  | b bs where "xs = b # bs" "b \<noteq> IAC"
  | "xs = [IAC]"
  | cs where "xs = IAC # IAC # cs"
  | c where "xs = [IAC, c]" "c \<in> set negotiation_commands"
  | c opt ds where "xs = IAC # c # opt # ds" "c \<in> set negotiation_commands"
  | cs where "xs = IAC # SB # cs" "split_se cs = None"
  | cs pre post where "xs = IAC # SB # cs" "split_se cs = Some (pre, post)"
  | c cs where "xs = IAC # c # cs" "c \<noteq> IAC" "c \<notin> set negotiation_commands" "c \<noteq> SB"
proof (cases xs)
  case (Cons b bs)
  show ?thesis
  proof (cases "b = IAC")
    case True
    show ?thesis
    proof (cases bs)
      case (Cons c cs)
      note head = \<open>xs = b # bs\<close> True Cons
      consider "c = IAC" | "c \<in> set negotiation_commands" | "c = SB" "split_se cs = None"
        | pre post where "c = SB" "split_se cs = Some (pre, post)"
        | "c \<noteq> IAC" "c \<notin> set negotiation_commands" "c \<noteq> SB" by fastforce
      then show ?thesis
      proof cases
        case 2
        with head that(5,6) show ?thesis by (cases cs) auto
      qed (use head that(4,7,8,9) in auto)
    qed (use Cons True that in auto)
  qed (use Cons that in auto)
qed (use that in auto)

lemma telnet_loop_steps:
  "b \<noteq> IAC \<Longrightarrow> telnet_loop N (b # bs) out s = telnet_loop N bs (out @ [b]) s"
  "telnet_loop N [IAC] out s = (out, s\<lparr>telnet_buffer := [IAC]\<rparr>)"
  "telnet_loop N (IAC # IAC # cs) out s = telnet_loop N cs (out @ [IAC]) s"
  "c \<in> set negotiation_commands \<Longrightarrow>
     telnet_loop N [IAC, c] out s = (out, s\<lparr>telnet_buffer := [IAC, c]\<rparr>)"
  "c \<in> set negotiation_commands \<Longrightarrow> telnet_loop N (IAC # c # opt # ds) out s
     = telnet_loop N ds out (s\<lparr>negotiator := neg_iac_command N c opt (negotiator s)\<rparr>)"
  "split_se cs = None \<Longrightarrow> telnet_loop N (IAC # SB # cs) out s = (out, s\<lparr>telnet_buffer := IAC # SB # cs\<rparr>)"
  "split_se cs = Some (pre, post) \<Longrightarrow> telnet_loop N (IAC # SB # cs) out s = telnet_loop N post out
     (s\<lparr>negotiator := neg_subnegotiation N (sub_option pre) (tl pre) (negotiator s)\<rparr>)"
  "c \<noteq> IAC \<Longrightarrow> c \<notin> set negotiation_commands \<Longrightarrow> c \<noteq> SB \<Longrightarrow>
     telnet_loop N (IAC # c # cs) out s = telnet_loop N cs out (handle_telnet_command N c s)"
  by (auto simp: negotiation_commands_def)

declare telnet_loop.simps(2) [simp del]

lemma telnet_loop_out: "telnet_loop N bs out s =
    (out @ fst (telnet_loop N bs [] s), snd (telnet_loop N bs [] s))"
proof (induction "length bs" arbitrary: bs out s rule: less_induct)
  case less
  have add: "telnet_loop N xs (out @ [y]) t
      = (out @ fst (telnet_loop N xs [y] t), snd (telnet_loop N xs [y] t))"
    if "length xs < length bs" for xs y t
    using less [OF that, of "out @ [y]" t] less [OF that, of "[y]" t] by simp
  show ?case
  proof (cases bs rule: element_cases)
    case (Sub cs pre post)
    then have l: "length post < length bs" using split_se_length [of cs pre post] by simp
    show ?thesis unfolding Sub(1) telnet_loop_steps(7) [OF Sub(2)] by (rule less [OF l])
  next
    case (Data b bs')
    with add [of bs' b s] show ?thesis by (simp add: telnet_loop_steps)
  next
    case (Escape cs)
    with add [of cs IAC s] show ?thesis by (simp add: telnet_loop_steps)
  next
    case (Option c opt ds)
    then have l: "length ds < length bs" by simp
    show ?thesis unfolding Option(1) telnet_loop_steps(5) [OF Option(2)] by (rule less [OF l])
  next
    case (Command c cs)
    then have l: "length cs < length bs" by simp
    show ?thesis unfolding Command(1) telnet_loop_steps(8) [OF Command(2-4)] by (rule less [OF l])
  qed (simp_all add: telnet_loop_steps)
qed

lemma split_se_append: "split_se xs = Some (pre, post) \<Longrightarrow> split_se (xs @ ys) = Some (pre, post @ ys)"
  by (induction xs arbitrary: pre rule: split_se.induct) (auto split: if_splits)

text \<open>The law of chunks: what the first piece leaves in the buffer is read again with the second.\<close>

lemma telnet_loop_append:
  assumes "telnet_buffer s = []"
  shows "telnet_loop N (xs @ ys) out s =
    (case telnet_loop N xs out s of
       (out1, s1) \<Rightarrow> telnet_loop N (telnet_buffer s1 @ ys) out1 (s1\<lparr>telnet_buffer := []\<rparr>))"
  using assms
proof (induction "length xs" arbitrary: xs out s rule: less_induct)
  case less
  have [simp]: "s\<lparr>telnet_buffer := []\<rparr> = s" using less.prems by simp
  show ?case
  proof (cases xs rule: element_cases)
    case (Sub cs pre post)
    then have l: "length post < length xs" using split_se_length [of cs pre post] by simp
    let ?s = "s\<lparr>negotiator := neg_subnegotiation N (sub_option pre) (tl pre) (negotiator s)\<rparr>"
    have "telnet_loop N (xs @ ys) out s = telnet_loop N (post @ ys) out ?s"
      using Sub split_se_append [of cs pre post ys] by (simp add: telnet_loop_steps)
    with less.hyps [OF l, of ?s out] less.prems Sub show ?thesis by (simp add: telnet_loop_steps)
  qed (use less in \<open>simp_all add: telnet_loop_steps\<close>)
qed


text \<open>A session: the state together with the data it has given so far.\<close>

definition feed_telnet ::
    "'n negotiator_ops \<Rightarrow> 'n telnet \<times> bytes \<Rightarrow> bytes \<Rightarrow> 'n telnet \<times> bytes" where
  "feed_telnet N sa chunk =
     (case process_telnet_stream N chunk (fst sa) of ((out, _), s) \<Rightarrow> (s, snd sa @ out))"

text \<open>The buffer holds an incomplete sequence only: reading it again gives nothing and keeps it.\<close>

definition buffer_pending :: "'n negotiator_ops \<Rightarrow> 'n telnet \<times> bytes \<Rightarrow> bool" where
  "buffer_pending N sa \<longleftrightarrow>
     telnet_loop N (telnet_buffer (fst sa)) [] ((fst sa)\<lparr>telnet_buffer := []\<rparr>) = ([], fst sa)"

lemma feed_telnet_eq: "feed_telnet N (s, acc) chunk =
    (case telnet_loop N (telnet_buffer s @ chunk) [] (s\<lparr>telnet_buffer := []\<rparr>) of
       (out, s1) \<Rightarrow> (s1, acc @ out))"
  by (simp add: feed_telnet_def process_telnet_stream_def split: prod.split)

lemma feed_telnet_append: "feed_telnet N sa (xs @ ys) = feed_telnet N (feed_telnet N sa xs) ys"
proof -
  obtain s acc where sa: "sa = (s, acc)" by fastforce
  let ?s0 = "s\<lparr>telnet_buffer := []\<rparr>"
  obtain out1 s1 where l1: "telnet_loop N (telnet_buffer s @ xs) [] ?s0 = (out1, s1)" by fastforce
  have "telnet_loop N ((telnet_buffer s @ xs) @ ys) [] ?s0
      = telnet_loop N (telnet_buffer s1 @ ys) out1 (s1\<lparr>telnet_buffer := []\<rparr>)"
    using telnet_loop_append [of ?s0 N "telnet_buffer s @ xs" ys "[]"] l1 by simp
  also have "\<dots> = (out1 @ fst (telnet_loop N (telnet_buffer s1 @ ys) [] (s1\<lparr>telnet_buffer := []\<rparr>)),
      snd (telnet_loop N (telnet_buffer s1 @ ys) [] (s1\<lparr>telnet_buffer := []\<rparr>)))"
    by (rule telnet_loop_out)
  finally show ?thesis
    using l1 by (simp add: sa feed_telnet_eq split: prod.split)
qed

lemma feed_telnet_pending: "buffer_pending N (feed_telnet N sa xs)"
proof -
  obtain s acc where sa: "sa = (s, acc)" by fastforce
  let ?s0 = "s\<lparr>telnet_buffer := []\<rparr>"
  obtain out1 s1 where l1: "telnet_loop N (telnet_buffer s @ xs) [] ?s0 = (out1, s1)" by fastforce
  have "(out1, s1) = telnet_loop N (telnet_buffer s1) out1 (s1\<lparr>telnet_buffer := []\<rparr>)"
    using telnet_loop_append [of ?s0 N "telnet_buffer s @ xs" "[]" "[]"] l1 by simp
  also have "\<dots> = (out1 @ fst (telnet_loop N (telnet_buffer s1) [] (s1\<lparr>telnet_buffer := []\<rparr>)),
      snd (telnet_loop N (telnet_buffer s1) [] (s1\<lparr>telnet_buffer := []\<rparr>)))"
    by (rule telnet_loop_out)
  finally have "telnet_loop N (telnet_buffer s1) [] (s1\<lparr>telnet_buffer := []\<rparr>) = ([], s1)"
    by (simp add: prod_eq_iff)
  then show ?thesis using l1 by (simp add: sa feed_telnet_eq buffer_pending_def)
qed

interpretation telnet_feed: chunked_feed "feed_telnet N" "buffer_pending N" for N
proof
  fix s :: "'a telnet \<times> bytes" assume "buffer_pending N s"
  then show "feed_telnet N s [] = s"
    by (cases s) (simp add: feed_telnet_eq buffer_pending_def)
qed (rule feed_telnet_append, rule feed_telnet_pending)

text \<open>
  C37. How the network cuts the stream does not matter: whatever the negotiator does, two ways of
  cutting the same bytes into chunks, in the middle of commands and subnegotiations too, give the
  same data, the same negotiator state, the same answers and modes, and the same pending buffer.
\<close>

theorem chunking_does_not_matter:
  assumes "telnet_buffer s = []" and "concat cs = concat ds"
  shows "foldl (feed_telnet N) (s, []) cs = foldl (feed_telnet N) (s, []) ds"
proof -
  have "s\<lparr>telnet_buffer := []\<rparr> = s" using assms(1) by simp
  then have "buffer_pending N (s, [])" using assms(1) by (simp add: buffer_pending_def)
  from telnet_feed.chunking_irrelevant [OF this assms(2)] show ?thesis .
qed

definition demo_ops :: "byte list negotiator_ops" where
  "demo_ops = \<lparr>neg_iac_command = (\<lambda>c opt n. n @ [c, opt]), neg_subnegotiation = (\<lambda>opt d n. n @ opt # d),
     neg_functions = (\<lambda>_. 0x10)\<rparr>"

definition demo_telnet :: "byte list telnet" where
  "demo_telnet = \<lparr>telnet_buffer = [], negotiator = [], in_suspended_mode = False, in_3270_mode = True,
     has_writer = True, is_connected = True, sent = []\<rparr>"

theorem chunking_does_not_matter_witness:
  "foldl (feed_telnet demo_ops) (demo_telnet, []) [[0xC1, 0xFF], [0xFA, 0x28, 0x02, 0xFF], [0xF0, 0xC2]]
     = foldl (feed_telnet demo_ops) (demo_telnet, []) [[0xC1, 0xFF, 0xFA, 0x28, 0x02, 0xFF, 0xF0, 0xC2]]"
  by (rule chunking_does_not_matter) (simp_all add: demo_telnet_def)


section \<open>Data and commands\<close>

text \<open>How Telnet sends data: every 0xFF twice.\<close>

definition escape_iac :: "bytes \<Rightarrow> bytes" where
  "escape_iac bs = concat (map (\<lambda>b. if b = IAC then [IAC, IAC] else [b]) bs)"

lemma telnet_loop_escaped: "telnet_loop N (escape_iac bs @ xs) out s = telnet_loop N xs (out @ bs) s"
proof (induction bs arbitrary: out)
  case Nil
  then show ?case by (simp add: escape_iac_def)
next
  case (Cons b bs)
  then show ?case by (cases "b = IAC") (simp_all add: escape_iac_def telnet_loop_steps)
qed

text \<open>
  Data comes through: escaped data is given back byte for byte and nothing else happens, and
  an option command or a finished subnegotiation between two pieces of data adds nothing to the
  data and reaches the negotiator exactly once with its option and payload.
\<close>

lemma telnet_data_and_options:
  assumes "telnet_buffer s = []" and "c \<in> set negotiation_commands"
    and "split_se (opt' # payload @ [IAC, SE]) = Some (opt' # payload, [])"
  shows "process_telnet_stream N (escape_iac xs) s = ((xs, detect_vt100_sequences xs), s)
     \<and> process_telnet_stream N (escape_iac xs @ [IAC, c, opt] @ [IAC, SB, opt'] @ payload @ [IAC, SE] @ escape_iac ys) s
       = ((xs @ ys, detect_vt100_sequences (xs @ ys)),
          s\<lparr>negotiator := neg_subnegotiation N opt' payload (neg_iac_command N c opt (negotiator s))\<rparr>)"
proof -
  have s: "s\<lparr>telnet_buffer := []\<rparr> = s" using assms(1) by simp
  have plain: "process_telnet_stream N (escape_iac xs) s = ((xs, detect_vt100_sequences xs), s)"
    using telnet_loop_escaped [of N xs "[]" "[]" s] assms(1)
    by (simp add: process_telnet_stream_def s)
  have "split_se (opt' # payload @ [IAC, SE] @ escape_iac ys) = Some (opt' # payload, escape_iac ys)"
    using split_se_append [OF assms(3), of "escape_iac ys"] by simp
  then have "telnet_loop N ([IAC, SB, opt'] @ payload @ [IAC, SE] @ escape_iac ys) xs t
      = (xs @ ys, t\<lparr>negotiator := neg_subnegotiation N opt' payload (negotiator t)\<rparr>)" for t
    using telnet_loop_escaped [of N ys "[]" xs] by (simp add: telnet_loop_steps sub_option_def)
  with plain show ?thesis
    using assms(1,2) by (simp add: process_telnet_stream_def s telnet_loop_escaped telnet_loop_steps)
qed

lemma strip_escaped: "strip_telnet_iac (escape_iac bs) = filter (\<lambda>b. b \<noteq> IAC) bs"
  by (induction bs) (auto simp: escape_iac_def negotiation_commands_def)

text \<open>
  \<open>strip_telnet_iac\<close> does something else on data: from escaped data it removes every 0xFF
  instead of unescaping it, so it gives the data back exactly when that has no 0xFF.
\<close>

lemma strip_loses_escaped_bytes:
  "strip_telnet_iac (escape_iac bs) = bs \<longleftrightarrow> IAC \<notin> set bs"
proof
  assume a: "strip_telnet_iac (escape_iac bs) = bs"
  show "IAC \<notin> set bs"
    using a [unfolded strip_escaped] by (metis (mono_tags, lifting) filter_id_conv)
qed (auto simp: strip_escaped filter_id_conv)

text \<open>
  Escaped 0xFF inside a subnegotiation is not understood: when the data of the subnegotiation
  contains 0xFF followed by 0xF0, it ends there, its payload keeps a single 0xFF less, and the
  rest of the subnegotiation, up to and without its proper end, comes out as screen data.
\<close>

lemma subnegotiation_cut_at_escape:
  assumes "telnet_buffer s = []" and "IAC \<notin> set (opt # before)" and "IAC \<notin> set behind"
  shows "process_telnet_stream N ([IAC, SB, opt] @ before @ [IAC, IAC, SE] @ behind @ [IAC, SE]) s
     = ((behind, detect_vt100_sequences behind),
        s\<lparr>negotiator := neg_subnegotiation N opt (before @ [IAC]) (negotiator s)\<rparr>)"
proof -
  have s: "s\<lparr>telnet_buffer := []\<rparr> = s" using assms(1) by simp
  have "split_se (xs @ [IAC, IAC, SE] @ ys) = Some (xs @ [IAC], ys)" if "IAC \<notin> set xs" for xs ys
    using that
  proof (induction xs)
    case (Cons x xs)
    then show ?case by (cases xs) auto
  qed simp
  from this [OF assms(2), of "behind @ [IAC, SE]"]
  have split: "split_se (opt # before @ [IAC, IAC, SE] @ behind @ [IAC, SE])
      = Some (opt # before @ [IAC], behind @ [IAC, SE])" by simp
  have "escape_iac behind = behind" using assms(3)
    by (induction behind) (simp_all add: escape_iac_def)
  with telnet_loop_escaped [of N behind "[IAC, SE]" "[]"]
  have "telnet_loop N (behind @ [IAC, SE]) [] t = (behind, t)" for t
    by (simp add: telnet_loop_steps negotiation_commands_def handle_telnet_command_def)
  with split assms(1) show ?thesis
    by (simp add: process_telnet_stream_def s telnet_loop_steps sub_option_def)
qed

text \<open>
  A mostly blank 3270 screen passes for VT100 text: the EBCDIC space 0x40 is a printable ASCII
  code, so data of at least 32 bytes that has 70 percent of them is detected as a terminal stream.
\<close>

lemma blank_screen_detected_as_vt100:
  assumes "32 \<le> length data" and "10 * count_list data 0x40 \<ge> 7 * length data"
  shows "detect_vt100_sequences data"
proof -
  have "count_list data 0x40 = length (filter (\<lambda>b. b = 0x40) data)" by (induction data) simp_all
  also have "\<dots> \<le> length (filter printable_ascii data)"
    by (induction data) (auto simp: printable_ascii_def)
  finally have "10 * length (filter printable_ascii data) \<ge> 7 * length data" using assms(2) by linarith
  with assms(1) show ?thesis by (auto simp: detect_vt100_sequences_def)
qed

end
