(* ===== verification/TerminalModels.thy ===== *)
theory TerminalModels
  imports PyText
begin

text \<open>
  The registry of terminal models of \<open>pure3270/protocol/utils.py\<close>: capabilities, aliases, and the
  screen size of a model, with the default model for a name that is not known. Dictionaries are
  association lists in the order of the source.
\<close>

record TerminalCapabilities =
  screen_size :: "int \<times> int"
  color_support :: bool
  extended_attribute_support :: bool
  programmed_symbols :: bool
  extended_highlighting :: bool
  light_pen_support :: bool
  magnetic_slot_reader :: bool
  operator_information_area :: bool
  max_alternate_screen_size :: "(int \<times> int) option"
  character_sets :: "string list"

text \<open>The constructor with the default character sets.\<close>

definition capabilities ::
    "int \<times> int \<Rightarrow> bool \<Rightarrow> bool \<Rightarrow> bool \<Rightarrow> bool \<Rightarrow> bool \<Rightarrow> bool \<Rightarrow> bool \<Rightarrow> (int \<times> int) option
     \<Rightarrow> TerminalCapabilities" where
  "capabilities sz color ext ps hl pen msr oia alt =
     \<lparr>screen_size = sz, color_support = color, extended_attribute_support = ext, programmed_symbols = ps,
      extended_highlighting = hl, light_pen_support = pen, magnetic_slot_reader = msr,
      operator_information_area = oia, max_alternate_screen_size = alt,
      character_sets = [''EBCDIC'', ''ASCII'']\<rparr>"

definition TERMINAL_MODELS :: "(string \<times> TerminalCapabilities) list" where
  "TERMINAL_MODELS =
     [(''IBM-3278-2'', capabilities (24, 80) False True False True True False True (Some (24, 80))),
      (''IBM-3278-3'', capabilities (32, 80) False True False True True False True (Some (32, 80))),
      (''IBM-3278-4'', capabilities (43, 80) False True False True True False True (Some (43, 80))),
      (''IBM-3278-5'', capabilities (27, 132) False True False True True False True (Some (27, 132))),
      (''IBM-3279-2'', capabilities (24, 80) True True True True True False True (Some (24, 80))),
      (''IBM-3279-3'', capabilities (32, 80) True True True True True False True (Some (32, 80))),
      (''IBM-3279-4'', capabilities (43, 80) True True True True True False True (Some (43, 80))),
      (''IBM-3279-5'', capabilities (27, 132) True True True True True False True (Some (27, 132))),
      (''IBM-3179-2'', capabilities (24, 80) True True True True False False True (Some (25, 80))),
      (''IBM-3270PC-G'', capabilities (24, 80) True True True True False False True (Some (43, 80))),
      (''IBM-3270PC-GA'', capabilities (24, 80) True True True True False False True (Some (43, 80))),
      (''IBM-3270PC-GX'', capabilities (24, 80) True True True True False False True (Some (43, 80))),
      (''IBM-DYNAMIC'', capabilities (24, 80) True True True True False False True None)]"

definition TERMINAL_MODEL_ALIASES :: "(string \<times> string) list" where
  "TERMINAL_MODEL_ALIASES = [(''IBM-3278-2-E'', ''IBM-3278-2''), (''IBM-3279-2-E'', ''IBM-3279-2'')]"

definition DEFAULT_TERMINAL_MODEL :: string where
  "DEFAULT_TERMINAL_MODEL = ''IBM-3278-2''"

definition get_supported_terminal_models :: "string list" where
  "get_supported_terminal_models = map fst TERMINAL_MODELS"

definition is_valid_terminal_model :: "string \<Rightarrow> bool" where
  "is_valid_terminal_model model \<longleftrightarrow>
     map_of TERMINAL_MODELS model \<noteq> None
     \<or> (case map_of TERMINAL_MODEL_ALIASES model of None \<Rightarrow> False | Some c \<Rightarrow> map_of TERMINAL_MODELS c \<noteq> None)"

definition get_terminal_capabilities :: "string \<Rightarrow> TerminalCapabilities option" where
  "get_terminal_capabilities model =
     (case map_of TERMINAL_MODELS model of
        Some c \<Rightarrow> Some c
      | None \<Rightarrow> (case map_of TERMINAL_MODEL_ALIASES model of
                   Some canonical \<Rightarrow> map_of TERMINAL_MODELS canonical
                 | None \<Rightarrow> None))"

definition get_screen_size :: "string \<Rightarrow> int \<times> int" where
  "get_screen_size model =
     (case get_terminal_capabilities model of
        Some c \<Rightarrow> screen_size c
      | None \<Rightarrow> (case map_of TERMINAL_MODELS DEFAULT_TERMINAL_MODEL of
                   Some c \<Rightarrow> screen_size c | None \<Rightarrow> (0, 0)))"

text \<open>Every registered model has 24, 27, 32 or 43 rows and 80 or 132 columns.\<close>

lemma registered_sizes:
  "list_all (\<lambda>(_, c). fst (screen_size c) \<in> {24, 27, 32, 43} \<and> snd (screen_size c) \<in> {80, 132}) TERMINAL_MODELS"
  by code_simp

lemma valid_iff_capabilities: "is_valid_terminal_model m \<longleftrightarrow> get_terminal_capabilities m \<noteq> None"
  by (auto simp: is_valid_terminal_model_def get_terminal_capabilities_def split: option.splits)

end
