(* ===== verification/Negotiation.thy ===== *)
theory Negotiation
  imports AddressNegotiation Header3270E Telnet TerminalModels
begin

text \<open>
  \<open>pure3270/protocol/negotiator.py\<close>: what the client does with the telnet options and the
  subnegotiations of a host. The state is a record; a handler is a step, a function from the state to
  the exception it ends with, if any, and the new state. What has been written to the connection is
  the field \<open>ng_out\<close>. A connection that is lost is one whose \<open>drain\<close> raises (\<open>ng_drains\<close> false).
  Of the handler that owns the negotiator the model has the attributes used here.

  Left out: logging, recorders and timing; a \<open>drain\<close> that never returns.
\<close>

section \<open>State\<close>

datatype SnaSessionState =
  SNA_NORMAL | SNA_ERROR | SNA_PENDING_RECOVERY | SNA_SESSION_DOWN | SNA_LU_BUSY | SNA_INVALID_SEQUENCE | SNA_STATE_ERROR

datatype force_mode = Force_ascii | Force_tn3270 | Force_tn3270e

text \<open>The exceptions; \<open>N_response\<close> is what the header raises for a negative response.\<close>

datatype neg_error =
    N_protocol
  | N_negotiation
  | N_not_connected
  | N_drain
  | N_unicode
  | N_overflow
  | N_type_error
  | N_response negative_error

record handler_view =
  hv_negotiated :: bool
  hv_ascii :: bool
  hv_printer_buffer :: bool
  hv_trace :: bytes

record pending_request =
  rq_type :: string
  rq_header :: TN3270EHeader
  rq_retries :: nat

record neg =
  ng_out :: bytes
  ng_writer :: bool
  ng_parser :: bool
  ng_drains :: bool
  ng_handler :: "handler_view option"
  ng_force_mode :: "force_mode option"
  ng_allow_fallback :: bool
  ng_strict :: bool
  ng_tn3270_mode :: bool
  ng_tn3270e_mode :: bool
  ng_terminal_type :: string
  ng_printer_session :: bool
  ng_negotiated :: bool
  ng_lu_name :: "string option"
  ng_selected_lu :: "string option"
  ng_lu_complete :: bool
  ng_lu_error :: bool
  ng_rows :: int
  ng_cols :: int
  ng_screen :: "screen option"
  ng_printer_status :: "int option"
  ng_printer_event :: bool
  ng_sna :: SnaSessionState
  ng_device_types :: "string list"
  ng_device_type :: "string option"
  ng_connected_lu :: "string option"
  ng_associated_lu :: "string option"
  ng_rejected :: bool
  ng_reason :: int
  ng_functions :: int
  ng_last_functions :: int
  ng_response_mode :: int
  ng_raw_functions :: "bytes option"
  ng_bind_override :: "bool option"
  ng_seq :: int
  ng_pending :: "(int \<times> pending_request) list"
  ng_device_event :: bool
  ng_functions_event :: bool
  ng_lu_event :: bool
  ng_complete :: bool
  ng_forced_failure :: bool
  ng_forced_completion :: bool
  ng_supports :: bool
  ng_ascii :: bool
  ng_trace :: "bytes option"
  ng_connected :: bool
  ng_failures :: nat
  ng_total_failures :: nat
  ng_recovery_attempts :: nat
  ng_addressing :: addr_negotiator

type_synonym neg_step = "neg \<Rightarrow> neg_error option \<times> neg"

text \<open>
  The constructor; \<open>None\<close> is its \<open>ValueError\<close>. The force mode and the negotiation mode are given by
  their names, an unknown terminal type becomes the default one.
\<close>

definition force_modes :: "(string \<times> force_mode) list" where
  "force_modes = [(''ascii'', Force_ascii), (''tn3270'', Force_tn3270), (''tn3270e'', Force_tn3270e)]"

definition Negotiator_init ::
    "bool \<Rightarrow> bool \<Rightarrow> screen option \<Rightarrow> handler_view option \<Rightarrow> bool \<Rightarrow> string \<Rightarrow> bool \<Rightarrow> string \<Rightarrow> string \<Rightarrow> neg option" where
  "Negotiator_init writer parser screen handler printer force fallback terminal mode =
     (let term = (if is_valid_terminal_model terminal then terminal else DEFAULT_TERMINAL_MODEL);
          (r, c) = get_screen_size term
      in if force \<noteq> [] \<and> map_of force_modes force = None then None
         else Some \<lparr>ng_out = [], ng_writer = writer, ng_parser = parser, ng_drains = True,
           ng_handler = map_option (\<lambda>h. h\<lparr>hv_negotiated := False\<rparr>) handler,
           ng_force_mode = map_of force_modes force, ng_allow_fallback = fallback,
           ng_strict = (mode = ''strict''), ng_tn3270_mode = False, ng_tn3270e_mode = False,
           ng_terminal_type = term, ng_printer_session = printer, ng_negotiated = False,
           ng_lu_name = None, ng_selected_lu = None, ng_lu_complete = False, ng_lu_error = False,
           ng_rows = r, ng_cols = c, ng_screen = screen, ng_printer_status = None,
           ng_printer_event = False, ng_sna = SNA_NORMAL,
           ng_device_types = get_supported_terminal_models @ [''IBM-3287-P''],
           ng_device_type = None, ng_connected_lu = None, ng_associated_lu = None,
           ng_rejected = False, ng_reason = 0, ng_functions = 0, ng_last_functions = 0,
           ng_response_mode = 0, ng_raw_functions = None, ng_bind_override = None, ng_seq = 0,
           ng_pending = [], ng_device_event = False, ng_functions_event = False, ng_lu_event = False,
           ng_complete = False, ng_forced_failure = False, ng_forced_completion = False,
           ng_supports = False, ng_ascii = False, ng_trace = None, ng_connected = False,
           ng_failures = 0, ng_total_failures = 0, ng_recovery_attempts = 0,
           ng_addressing = AddressingModeNegotiator_init\<rparr>)"

section \<open>Steps\<close>

definition step_with :: "(neg \<Rightarrow> neg) \<Rightarrow> neg_step" where
  "step_with f n = (None, f n)"

definition no_step :: neg_step where
  "no_step n = (None, n)"

definition fail_with :: "neg_error \<Rightarrow> neg_step" where
  "fail_with e n = (Some e, n)"

fun steps :: "neg_step list \<Rightarrow> neg_step" where
  "steps [] n = (None, n)"
| "steps (a # as) n =
     (case a n of (Some e, n') \<Rightarrow> (Some e, n') | (None, n') \<Rightarrow> steps as n')"

definition when_writer :: "neg_step \<Rightarrow> neg_step" where
  "when_writer a n = (if ng_writer n then a n else (None, n))"

text \<open>Writing: an option command, and a subnegotiation, whose data is written as it is.\<close>

definition put :: "bytes \<Rightarrow> neg \<Rightarrow> neg" where
  "put bs n = (if ng_writer n then n\<lparr>ng_out := ng_out n @ bs\<rparr> else n)"

definition send_iac :: "bytes \<Rightarrow> neg \<Rightarrow> neg" where
  "send_iac command = put (if command \<noteq> [] \<and> hd command = IAC then command else IAC # command)"

definition send_subnegotiation :: "byte \<Rightarrow> bytes \<Rightarrow> neg \<Rightarrow> neg" where
  "send_subnegotiation opt data = put ([IAC, SB] @ [opt] @ data @ [IAC, SE])"

definition send_subneg :: "byte \<Rightarrow> bytes \<Rightarrow> neg_step" where
  "send_subneg opt data n =
     (if ng_writer n then (None, send_subnegotiation opt data n) else (Some N_protocol, n))"

definition safe_drain_writer :: neg_step where
  "safe_drain_writer n = (if ng_writer n \<and> \<not> ng_drains n then (Some N_protocol, n) else (None, n))"

definition writer_drain :: neg_step where
  "writer_drain n = (if ng_drains n then (None, n) else (Some N_drain, n))"

section \<open>Flags and events\<close>

definition set_negotiated_flag :: "bool \<Rightarrow> neg \<Rightarrow> neg" where
  "set_negotiated_flag v n =
     n\<lparr>ng_negotiated := v, ng_handler := map_option (\<lambda>h. h\<lparr>hv_negotiated := v\<rparr>) (ng_handler n)\<rparr>"

definition set_negotiated_tn3270e :: "bool \<Rightarrow> neg \<Rightarrow> neg" where
  "set_negotiated_tn3270e v n =
     (let n' = set_negotiated_flag v n in if v then n'\<lparr>ng_tn3270_mode := True\<rparr> else n')"

text \<open>The setter of the handler, which calls the one above.\<close>

definition handler_set_negotiated :: "bool \<Rightarrow> neg \<Rightarrow> neg" where
  "handler_set_negotiated v n =
     (case ng_handler n of
        None \<Rightarrow> n
      | Some h \<Rightarrow> set_negotiated_tn3270e v (n\<lparr>ng_handler := Some (h\<lparr>hv_negotiated := v\<rparr>)\<rparr>))"

definition maybe_finalize_negotiation :: "neg \<Rightarrow> neg" where
  "maybe_finalize_negotiation n =
     (if (if ng_strict n then ng_device_event n \<and> ng_functions_event n
          else ng_device_event n \<or> ng_functions_event n)
      then (let n' = (if ng_supports n \<and> \<not> ng_negotiated n then set_negotiated_flag True n else n)
            in n'\<lparr>ng_complete := True\<rparr>)
      else n)"

definition signal_device_event :: "bool \<Rightarrow> bool \<Rightarrow> neg \<Rightarrow> neg" where
  "signal_device_event on_send force_negotiated n =
     (let n1 = n\<lparr>ng_device_event := True\<rparr>;
          n2 = (if on_send then n1\<lparr>ng_supports := True\<rparr> else n1);
          n3 = (if force_negotiated then set_negotiated_flag True n2 else n2)
      in maybe_finalize_negotiation n3)"

definition signal_functions_event :: "bool \<Rightarrow> bool \<Rightarrow> neg \<Rightarrow> neg" where
  "signal_functions_event on_send force_negotiated n =
     (let n1 = n\<lparr>ng_functions_event := True\<rparr>;
          n2 = (if on_send then n1\<lparr>ng_supports := True\<rparr> else n1);
          n3 = (if force_negotiated then set_negotiated_flag True n2 else n2)
      in maybe_finalize_negotiation n3)"

definition signal_negotiation_complete :: "bool \<Rightarrow> neg \<Rightarrow> neg" where
  "signal_negotiation_complete success n =
     (let n' = (if success then (set_negotiated_flag True n)\<lparr>ng_supports := True\<rparr>
                else set_negotiated_flag False n)
      in n'\<lparr>ng_complete := True\<rparr>)"

abbreviation signal_device :: "neg \<Rightarrow> neg" where
  "signal_device \<equiv> signal_device_event False False"

abbreviation signal_functions :: "neg \<Rightarrow> neg" where
  "signal_functions \<equiv> signal_functions_event False False"

definition validate_negotiation_completion :: "neg \<Rightarrow> bool" where
  "validate_negotiation_completion n \<longleftrightarrow>
     (if ng_forced_failure n then False
      else if ng_ascii n then True
      else if ng_negotiated n then ng_device_type n \<noteq> None \<or> ng_lu_complete n
      else ng_tn3270_mode n)"

definition set_tn3270_mode :: "bool \<Rightarrow> neg \<Rightarrow> neg" where
  "set_tn3270_mode b n =
     (let n' = n\<lparr>ng_tn3270_mode := b\<rparr> in if b then n' else n'\<lparr>ng_tn3270e_mode := False\<rparr>)"

definition set_tn3270e_mode :: "bool \<Rightarrow> neg \<Rightarrow> neg" where
  "set_tn3270e_mode b n =
     (let n' = (if b then n\<lparr>ng_tn3270_mode := True\<rparr> else n) in n'\<lparr>ng_tn3270e_mode := b\<rparr>)"

definition neg_set_ascii_mode :: "neg \<Rightarrow> neg" where
  "neg_set_ascii_mode n =
     n\<lparr>ng_ascii := True, ng_handler := map_option (\<lambda>h. h\<lparr>hv_ascii := True\<rparr>) (ng_handler n)\<rparr>"

definition max_trace_size :: nat where "max_trace_size = 65536"

text \<open>\<open>trace[-max:]\<close>\<close>

definition handle_negotiation_input :: "bytes \<Rightarrow> neg \<Rightarrow> neg" where
  "handle_negotiation_input data n =
     (if data = [] then n
      else (let t = (case ng_trace n of None \<Rightarrow> [] | Some t \<Rightarrow> t) @ data
            in n\<lparr>ng_trace := Some (drop (length t - max_trace_size) t)\<rparr>))"

definition infer_tn3270e_from_trace :: "bytes \<Rightarrow> bool" where
  "infer_tn3270e_from_trace trace \<longleftrightarrow>
     (if trace = [] then False
      else if py_contains [0xFF, 0xFC, 0x24] trace \<or> py_contains [0xFF, 0xFE, 0x24] trace then False
      else py_contains [0xFF, 0xFB, 0x19] trace
        \<or> py_contains [0xFF, 0xFB, 0x28] trace
        \<or> py_contains [0xFF, 0xFD, 0x28] trace
        \<or> (py_contains [0xFF, 0xFA, 0x28] trace \<and> py_contains [0xFF, 0xF0] trace))"

definition update_printer_status :: "int \<Rightarrow> neg \<Rightarrow> neg" where
  "update_printer_status c n = n\<lparr>ng_printer_status := Some c, ng_printer_event := True\<rparr>"

definition is_data_stream_ctl_active :: "neg \<Rightarrow> bool" where
  "is_data_stream_ctl_active n \<longleftrightarrow> ng_functions n AND 0x01 \<noteq> 0"

definition is_bind_image_active :: "neg \<Rightarrow> bool" where
  "is_bind_image_active n =
     (case ng_bind_override n of Some b \<Rightarrow> b | None \<Rightarrow> ng_functions n AND 0x01 \<noteq> 0)"

definition validate_negotiation_state :: "neg \<Rightarrow> bool" where
  "validate_negotiation_state n \<longleftrightarrow>
     (ng_negotiated n \<longrightarrow> ng_device_type n \<noteq> None \<and> ng_device_type n \<noteq> Some [] \<and> ng_functions n \<noteq> 0)
     \<and> \<not> (ng_negotiated n \<and> ng_ascii n) \<and> ng_device_types n \<noteq> []"

definition reset_negotiation_state :: "neg \<Rightarrow> neg" where
  "reset_negotiation_state n =
     (set_negotiated_flag False n)\<lparr>ng_lu_name := None, ng_device_type := None, ng_connected_lu := None,
        ng_associated_lu := None, ng_rejected := False, ng_reason := 0, ng_functions := 0,
        ng_response_mode := 0, ng_ascii := False, ng_supports := False, ng_forced_failure := False,
        ng_device_event := False, ng_functions_event := False, ng_complete := False, ng_trace := None,
        ng_sna := SNA_NORMAL\<rparr>"

section \<open>Requests and responses\<close>

definition get_next_seq_number :: "neg \<Rightarrow> int \<times> neg" where
  "get_next_seq_number n = (let k = (ng_seq n + 1) mod 65536 in (k, n\<lparr>ng_seq := k\<rparr>))"

definition outgoing_request ::
    "string \<Rightarrow> int \<Rightarrow> int \<Rightarrow> int \<Rightarrow> int option \<Rightarrow> neg \<Rightarrow> TN3270EHeader \<times> neg" where
  "outgoing_request kind data_type request response seq n =
     (let (k, n1) = (case seq of Some k \<Rightarrow> (k, n) | None \<Rightarrow> get_next_seq_number n);
          h = \<lparr>h_data_type = data_type, h_request_flag = request, h_response_flag = response, h_seq_number = k\<rparr>
      in (h, n1\<lparr>ng_pending := AList.update k \<lparr>rq_type = kind, rq_header = h, rq_retries = 0\<rparr> (ng_pending n1)\<rparr>))"

text \<open>The device type and the LU name of a request, by the terminal type.\<close>

definition device_request :: "string \<Rightarrow> bool \<Rightarrow> string \<times> string" where
  "device_request term printer =
     (if py_startswith ''IBM-'' term
      then (let base = drop 4 term
            in if base = ''3287-1'' then (''IBM-3287-1'', ''TDC01702'')
               else if base = ''3278-4'' then (''IBM-3278-4-E'', [])
               else if base = ''3278-2'' \<and> printer then (''IBM-3287-1'', ''TDC01702'')
               else if py_startswith ''3278-2'' base then (''IBM-3278-2-E'', ''TDC01702'')
               else if py_startswith ''3278'' base then (''IBM-'' @ base @ ''-E'', ''TDC01702'')
               else (term, ''TDC01702''))
      else (term, ''TDC01702''))"

definition send_supported_device_types :: neg_step where
  "send_supported_device_types n =
     (if ng_device_types n = [] \<or> \<not> ng_writer n then (None, n)
      else (let (dt, lu) = device_request (ng_terminal_type n) (ng_printer_session n)
            in case (ascii_encode dt, ascii_encode lu) of
                 (Some d, Some l) \<Rightarrow>
                   steps [step_with (send_subnegotiation 0x28 ([0x02, 0x07] @ d @ [0x00] @ l)),
                          safe_drain_writer, step_with signal_device] n
               | _ \<Rightarrow> (Some N_unicode, n)))"

definition DEFAULT_TN3270E_FUNCTIONS_DATA :: bytes where
  "DEFAULT_TN3270E_FUNCTIONS_DATA = [0x00, 0x02, 0x04, 0x05]"

definition functions_data :: "neg \<Rightarrow> bytes" where
  "functions_data n =
     (case ng_raw_functions n of
        Some d \<Rightarrow> if d \<noteq> [] then d else DEFAULT_TN3270E_FUNCTIONS_DATA
      | None \<Rightarrow> DEFAULT_TN3270E_FUNCTIONS_DATA)"

definition send_functions_request :: neg_step where
  "send_functions_request n =
     when_writer (steps [step_with (send_subnegotiation 0x28 ([0x03, 0x07] @ functions_data n)),
                         safe_drain_writer]) n"

text \<open>The functions as a number: the big-endian value of the bytes.\<close>

definition set_functions :: "bytes \<Rightarrow> neg \<Rightarrow> neg" where
  "set_functions d n = n\<lparr>ng_functions := int_from_bytes d, ng_last_functions := int_from_bytes d\<rparr>"

definition functions_sent :: "neg \<Rightarrow> neg" where
  "functions_sent n =
     (let n1 = n\<lparr>ng_functions_event := True\<rparr>
      in if ng_device_event n1
         then handler_set_negotiated True
                ((set_negotiated_flag True n1)\<lparr>ng_supports := True, ng_complete := True\<rparr>)
         else n1)"

definition send_functions_is :: neg_step where
  "send_functions_is n =
     (let d = functions_data n
      in steps [step_with (set_functions d),
                when_writer (steps [step_with (send_subnegotiation 0x28 ([0x03, 0x04] @ d)),
                                    safe_drain_writer, step_with functions_sent])] n)"

definition resend_request :: "string \<Rightarrow> neg_step" where
  "resend_request kind =
     (if kind = ''DEVICE-TYPE SEND'' then send_supported_device_types
      else if kind = ''FUNCTIONS SEND'' then send_functions_is
      else no_step)"

text \<open>
  An error response to a request is answered by sending it again, at most \<open>limit\<close> times; then the
  header raises its error.
\<close>

definition retry_request :: "nat \<Rightarrow> int \<Rightarrow> pending_request \<Rightarrow> TN3270EHeader \<Rightarrow> bytes \<Rightarrow> neg_step" where
  "retry_request limit k r h data =
     (if rq_retries r < limit
      then steps [step_with (\<lambda>n. n\<lparr>ng_pending := AList.update k (r\<lparr>rq_retries := rq_retries r + 1\<rparr>) (ng_pending n)\<rparr>),
                  resend_request (rq_type r)]
      else fail_with (N_response (handle_negative_response h data)))"

definition handle_tn3270e_response :: "TN3270EHeader \<Rightarrow> bytes \<Rightarrow> neg_step" where
  "handle_tn3270e_response h data n =
     (let k = h_seq_number h
      in case map_of (ng_pending n) k of
           None \<Rightarrow> (None, n)
         | Some r \<Rightarrow>
             (let n1 = n\<lparr>ng_pending := AList.delete k (ng_pending n)\<rparr>;
                  failed = (is_error_response h \<or> is_negative_response h)
              in if rq_type r = ''DEVICE-TYPE SEND''
                 then (if failed then retry_request 2 k r h data n1 else step_with signal_device n1)
                 else if rq_type r = ''FUNCTIONS SEND''
                 then (if failed then retry_request 3 k r h data n1 else step_with signal_functions n1)
                 else (None, n1)))"

section \<open>Options\<close>

definition accepted_will :: "byte list" where
  "accepted_will = [0x00, 0x19, 0x18, 0x28, 0x24, 0x30, 0x01, 0x03, 0x06]"

definition handle_will :: "byte \<Rightarrow> neg_step" where
  "handle_will opt =
     steps [step_with (send_iac [if opt \<in> set accepted_will then 0xFD else 0xFE, opt]),
            step_with (\<lambda>n. if opt = 0x28 then n\<lparr>ng_supports := True\<rparr> else n),
            safe_drain_writer]"

definition refuse_tn3270e :: "neg \<Rightarrow> neg" where
  "refuse_tn3270e n =
     (let n1 = n\<lparr>ng_supports := False\<rparr>
      in if ng_force_mode n1 \<notin> {Some Force_tn3270, Some Force_tn3270e} \<and> ng_allow_fallback n1
         then signal_negotiation_complete False
                (signal_functions (signal_device (set_negotiated_flag False (neg_set_ascii_mode n1))))
         else if \<not> ng_allow_fallback n1 \<and> ng_force_mode n1 = Some Force_tn3270e
         then signal_negotiation_complete True
                (signal_functions (signal_device (n1\<lparr>ng_forced_failure := True\<rparr>)))
         else n1)"

definition handle_wont :: "byte \<Rightarrow> neg_step" where
  "handle_wont opt =
     steps [step_with (\<lambda>n. if opt = 0x28 then refuse_tn3270e n else n),
            step_with (put [IAC, 0xFE, opt]), safe_drain_writer]"

text \<open>Width and height are written as they are, with no byte doubled.\<close>

definition send_naws_subnegotiation :: "int \<Rightarrow> int \<Rightarrow> neg_step" where
  "send_naws_subnegotiation width height n =
     (if \<not> ng_writer n then (None, n)
      else case (to_be16 width, to_be16 height) of
             (Some w, Some h) \<Rightarrow>
               steps [step_with (put ([IAC, SB, 0x1F] @ w @ h @ [IAC, SE])), writer_drain] n
           | _ \<Rightarrow> (Some N_overflow, n))"

definition send_lu_name_is :: neg_step where
  "send_lu_name_is n =
     (if \<not> ng_writer n then (Some N_protocol, n)
      else case (case ng_lu_name n of None \<Rightarrow> Some [] | Some l \<Rightarrow> ascii_encode l) of
             None \<Rightarrow> (Some N_unicode, n)
           | Some bs \<Rightarrow> steps [step_with (send_subnegotiation 0x24 (0x04 # bs)), safe_drain_writer] n)"

definition accepted_do :: "byte list" where
  "accepted_do = [0x00, 0x19, 0x1F, 0x27, 0x18, 0x24, 0x28, 0x30, 0x01, 0x03, 0x06]"

definition handle_do :: "byte \<Rightarrow> neg_step" where
  "handle_do opt =
     steps [step_with (send_iac [if opt \<in> set accepted_do then 0xFB else 0xFC, opt]),
            (if opt = 0x1F then when_writer (\<lambda>n. send_naws_subnegotiation (ng_cols n) (ng_rows n) n)
             else if opt = 0x24 then when_writer send_lu_name_is
             else no_step),
            step_with (\<lambda>n. if opt = 0x28 then n\<lparr>ng_supports := True\<rparr> else n),
            safe_drain_writer]"

definition stop_tn3270e :: "neg \<Rightarrow> neg" where
  "stop_tn3270e n =
     signal_negotiation_complete True
       (signal_functions (signal_device (handler_set_negotiated False (set_negotiated_flag False n))))"

definition handle_dont :: "byte \<Rightarrow> neg_step" where
  "handle_dont opt =
     steps [step_with (\<lambda>n. if opt = 0x28 then stop_tn3270e n else n),
            when_writer (steps [step_with (send_iac [0xFC, opt]), safe_drain_writer])]"

definition handle_iac_command :: "byte \<Rightarrow> byte \<Rightarrow> neg_step" where
  "handle_iac_command command opt =
     (if command = 0xFB then handle_will opt
      else if command = 0xFC then handle_wont opt
      else if command = 0xFD then handle_do opt
      else if command = 0xFE then handle_dont opt
      else no_step)"

section \<open>Environment, location, terminal type\<close>

text \<open>
  The variables of a NEW-ENVIRON list. A name ends at the next marker; a marker that starts nothing,
  an escape included, is skipped with the bytes up to the next variable.
\<close>

fun unescape :: "bytes \<Rightarrow> bytes" where
  "unescape (b # c # bs) = (if b = 0x02 then c # unescape bs else b # unescape (c # bs))"
| "unescape bs = bs"

lemma dropWhile_length: "length (dropWhile P xs) \<le> length xs"
  by (induction xs) auto

lemma dropWhile_tl_length: "length (dropWhile Q (tl (dropWhile P xs))) \<le> length xs"
  using dropWhile_length [of Q "tl (dropWhile P xs)"] dropWhile_length [of P xs] by simp

function parse_new_environ :: "bytes \<Rightarrow> (nat list \<times> nat list) list \<Rightarrow> (nat list \<times> nat list) list" where
  "parse_new_environ [] vars = vars"
| "parse_new_environ (b # bs) vars =
     (if b \<noteq> 0x00 \<and> b \<noteq> 0x03 then parse_new_environ bs vars
      else (let name = takeWhile (\<lambda>x. x \<notin> {0x01, 0x00, 0x03, 0x02}) bs;
                r = dropWhile (\<lambda>x. x \<notin> {0x01, 0x00, 0x03, 0x02}) bs;
                (value, r') = (if r \<noteq> [] \<and> hd r = 0x01
                               then (takeWhile (\<lambda>x. x \<notin> {0x00, 0x03, 0x02}) (tl r),
                                     dropWhile (\<lambda>x. x \<notin> {0x00, 0x03, 0x02}) (tl r))
                               else ([], r))
            in parse_new_environ r'
                 (AList.update (decode_replace (unescape name)) (decode_replace (unescape value)) vars)))"
  by pat_completeness auto

termination
  by (relation "measure (length \<circ> fst)")
     (auto split: if_splits simp: less_Suc_eq_le dropWhile_length dropWhile_tl_length simp del: length_tl)

declare parse_new_environ.simps [simp del]

definition new_environ_response :: "string \<Rightarrow> bytes" where
  "new_environ_response term =
     [0x00] @ concat (map (\<lambda>(name, value). [0x00] @ encode_replace name @ [0x01] @ encode_replace value)
                        [(''TERM'', term), (''USER'', ''pure3270'')])"

definition send_new_environ_response :: neg_step where
  "send_new_environ_response n =
     when_writer (steps [step_with (send_subnegotiation 0x27 (new_environ_response (ng_terminal_type n))),
                         writer_drain]) n"

text \<open>What the host tells about its environment is parsed and logged.\<close>

definition handle_new_environ :: "bytes \<Rightarrow> neg_step" where
  "handle_new_environ p =
     (case p of [] \<Rightarrow> no_step | c # _ \<Rightarrow> if c = 0x01 then send_new_environ_response else no_step)"

definition handle_terminal_location :: "bytes \<Rightarrow> neg_step" where
  "handle_terminal_location p n =
     (case p of
        [] \<Rightarrow> (None, n)
      | c # lu \<Rightarrow>
          if c = 0x04
          then (if lu = [] then (None, n\<lparr>ng_lu_complete := True, ng_lu_event := True\<rparr>)
                else case ascii_decode lu of
                       None \<Rightarrow> (None, n)
                     | Some s \<Rightarrow> (None, n\<lparr>ng_selected_lu := Some (rstrip_nul s), ng_lu_name := Some (rstrip_nul s),
                                          ng_lu_complete := True, ng_lu_event := True\<rparr>))
          else if c = 0x01 then (None, n\<lparr>ng_lu_error := True, ng_lu_event := True\<rparr>)
          else (None, n))"

definition terminal_type_answer :: "neg \<Rightarrow> string" where
  "terminal_type_answer n =
     (let t = (if \<not> ng_printer_session n \<and> (case ng_handler n of Some h \<Rightarrow> hv_printer_buffer h | None \<Rightarrow> False)
               then ''IBM-3287-1'' else ng_terminal_type n)
      in if py_startswith ''IBM-3287'' t then ''IBM-3287-1'' else t)"

text \<open>A drain that fails is ignored here.\<close>

definition handle_terminal_type :: "bytes \<Rightarrow> neg_step" where
  "handle_terminal_type p n =
     (case p of
        [] \<Rightarrow> (None, n)
      | c # _ \<Rightarrow>
          if c = 0x01
          then (case ascii_encode (terminal_type_answer n) of
                  None \<Rightarrow> (Some N_unicode, n)
                | Some t \<Rightarrow> when_writer (send_subneg 0x18 (0x00 # t)) n)
          else (None, n))"

section \<open>TN3270E subnegotiations\<close>

definition send_query_sf :: "byte \<Rightarrow> neg_step" where
  "send_query_sf q =
     when_writer (steps [step_with (send_subnegotiation 0x28 [0x0F, 0x01, q]), safe_drain_writer])"

definition handle_tn3270e_send :: "byte \<Rightarrow> neg_step" where
  "handle_tn3270e_send t =
     (if t = 0x02 then send_supported_device_types
      else if t = 0x03 then send_functions_is
      else no_step)"

definition handle_structured_field_of_is :: "byte \<Rightarrow> bytes \<Rightarrow> neg \<Rightarrow> neg" where
  "handle_structured_field_of_is sf_id d n =
     (if sf_id = 0x81 \<and> length d \<ge> 5
      then n\<lparr>ng_device_type := Some (''IBM-327'' @ decimal_text (unat (d ! 2) div 16) @ ''-''
                                     @ decimal_text (unat (d ! 1)))\<rparr>
      else n)"

function is_fields :: "bytes \<Rightarrow> neg \<Rightarrow> neg" where
  "is_fields d n =
     (if length d \<ge> 3 \<and> d ! 0 = 0x0F \<and> 3 + unat (d ! 2) \<le> length d
      then is_fields (drop (3 + unat (d ! 2)) d)
             (handle_structured_field_of_is (d ! 1) (take (unat (d ! 2)) (drop 3 d)) n)
      else n)"
  by auto
termination by (relation "measure (length \<circ> fst)") auto

declare is_fields.simps [simp del]

text \<open>
  The data of an IS: a device type name, which is answered with a request of functions, or
  structured fields. Other data, a name that is empty or not ASCII, has no effect.
\<close>

definition handle_tn3270e_is :: "bytes \<Rightarrow> neg_step" where
  "handle_tn3270e_is d n =
     (if d \<noteq> [] \<and> hd d \<noteq> 0x0F
      then (case ascii_decode d of
              None \<Rightarrow> (None, n)
            | Some s \<Rightarrow>
                if rstrip_nul s \<noteq> []
                then steps [step_with (\<lambda>n. signal_device (n\<lparr>ng_device_type := Some (rstrip_nul s)\<rparr>)),
                            send_functions_request] n
                else (None, n))
      else (None, is_fields d n))"

definition handle_response_mode :: "bytes \<Rightarrow> neg_step" where
  "handle_response_mode d n =
     (if d = [] \<or> (hd d = 0x15 \<and> length d < 2) then (None, n)
      else (let r = (if hd d = 0x15 then tl d else d)
            in if hd r = 0x01
               then when_writer (steps [step_with (send_subnegotiation 0x28 [0x15, 0x00, 0x02]), writer_drain]) n
               else if hd r = 0x00 \<and> tl r \<noteq> []
               then (None, n\<lparr>ng_response_mode := uint (hd (tl r))\<rparr>)
               else (None, n)))"

definition handle_usable_area :: "bytes \<Rightarrow> neg_step" where
  "handle_usable_area d n =
     (if d = [] \<or> (hd d = 0x16 \<and> length d < 2) then (None, n)
      else (let r = (if hd d = 0x16 then tl d else d)
            in if hd r = 0x01 \<and> ng_writer n
               then (case (to_be16 (ng_rows n), to_be16 (ng_cols n)) of
                       (Some rb, Some cb) \<Rightarrow>
                         steps [step_with (send_subnegotiation 0x28 ([0x16, 0x00] @ rb @ cb @ rb @ cb)), writer_drain] n
                     | _ \<Rightarrow> (Some N_overflow, n))
               else (None, n)))"

text \<open>The first characteristics field of a query reply with two bytes behind it decides.\<close>

fun parse_query_reply :: "bytes \<Rightarrow> neg \<Rightarrow> neg" where
  "parse_query_reply (x # y # z # r) n =
     (if x = 0x81
      then (if length r \<ge> 2
            then (case ng_device_type n of
                    None \<Rightarrow> n\<lparr>ng_device_type := Some ''IBM-3278- 2''\<rparr>
                  | Some t \<Rightarrow>
                      if t = [] then n\<lparr>ng_device_type := Some ''IBM-3278- 2''\<rparr>
                      else if \<not> py_contains ''IBM-3278'' t
                      then n\<lparr>ng_device_type := Some (t @ '' IBM-3278- 2'')\<rparr> else n)
            else n)
      else parse_query_reply (y # z # r) n)"
| "parse_query_reply _ n = n"

definition handle_query :: "bytes \<Rightarrow> neg_step" where
  "handle_query d n =
     (if d = [] \<or> (hd d = 0x0F \<and> length d < 2) then (None, n)
      else (let c = (if hd d = 0x0F then d ! 1 else hd d)
            in if c = 0x01
               then when_writer (steps [step_with (send_subnegotiation 0x28
                      ([0x0F, 0x00] @ [0x0F, 0x81, 0x0A, 0x43, 0x02, 0xF1, 0xF0, 0x0F, 0x82, 0x02, 0x41])),
                      writer_drain]) n
               else if c = 0x00 \<and> length d > 1
               then (None, parse_query_reply (if hd d = 0x00 then drop 1 d else drop 2 d) n)
               else (None, n)))"

text \<open>\<open>_handle_functions_subnegotiation\<close>, with or without the leading FUNCTIONS byte\<close>

definition handle_functions_subnegotiation :: "bytes \<Rightarrow> neg \<Rightarrow> neg" where
  "handle_functions_subnegotiation data n =
     (let d = (if data \<noteq> [] \<and> hd data = 0x03 then tl data else data);
          d' = (if d \<noteq> [] \<and> hd d = 0x03
                then (if length d \<ge> 2 \<and> d ! 1 = 0x03 then 0x04 # drop 2 d else tl d)
                else d)
      in if d \<noteq> [] \<and> d' \<noteq> [] \<and> hd d' \<in> {0x04, 0x03, 0x02} \<and> tl d' \<noteq> []
         then signal_functions (n\<lparr>ng_functions := int_from_bytes (tl d')\<rparr>)
         else n)"

subsection \<open>DEVICE-TYPE\<close>

definition device_name :: "bytes \<Rightarrow> string" where
  "device_name d = ascii_decode_ignore (before_nul d)"

definition device_is :: "bytes \<Rightarrow> neg_step" where
  "device_is d =
     (if device_name d = [] then no_step
      else steps [step_with (\<lambda>n. signal_device (n\<lparr>ng_device_type := Some (device_name d)\<rparr>)),
                  (if device_name d = ''IBM-DYNAMIC'' then when_writer (send_query_sf 0x81) else no_step)])"

text \<open>CONNECT is 3 and ASSOCIATE is 4, the value of IS, which is asked for first.\<close>

definition device_type_command :: "bytes \<Rightarrow> neg_step" where
  "device_type_command d =
     (case d of
        [] \<Rightarrow> no_step
      | sub # r \<Rightarrow>
          if sub = 0x08 \<or> sub = 0x07 then send_supported_device_types
          else if sub = 0x04 then device_is r
          else if sub = 0x03 then step_with (\<lambda>n. signal_device (n\<lparr>ng_connected_lu := Some (device_name r)\<rparr>))
          else if sub = 0x04 then step_with (\<lambda>n. signal_device (n\<lparr>ng_associated_lu := Some (device_name r)\<rparr>))
          else if sub = 0x05
          then step_with (\<lambda>n. signal_device (n\<lparr>ng_rejected := True, ng_reason := (case r of [] \<Rightarrow> 0 | x # _ \<Rightarrow> uint x)\<rparr>))
          else device_is (if sub = 0x07 then r else sub # r))"

subsection \<open>FUNCTIONS\<close>

definition record_functions :: "bytes \<Rightarrow> neg \<Rightarrow> neg" where
  "record_functions d n =
     (let n' = n\<lparr>ng_raw_functions := Some d\<rparr> in if d = [] then n' else set_functions d n')"

definition mark_negotiated :: "neg \<Rightarrow> neg" where
  "mark_negotiated n =
     (if ng_negotiated n then n else handler_set_negotiated True (set_negotiated_flag True n))"

text \<open>
  A FUNCTIONS SEND runs on into a second reading, which starts one byte later.
\<close>

definition functions_command :: "bytes \<Rightarrow> neg_step" where
  "functions_command d =
     (case d of
        c # r \<Rightarrow>
          if c = 0x07
          then (case r of
                  x # f \<Rightarrow>
                    if x = 0x04
                    then steps [step_with (\<lambda>n. signal_functions (record_functions f n)),
                                send_functions_is, step_with mark_negotiated]
                    else no_step
                | [] \<Rightarrow> no_step)
          else if c = 0x04 then step_with (\<lambda>n. signal_functions (record_functions r n))
          else if c = 0x08
          then steps [step_with (\<lambda>n. signal_functions (record_functions r n)),
                      send_functions_is, step_with mark_negotiated,
                      step_with (\<lambda>n. signal_functions (record_functions (drop 1 r) n)),
                      send_functions_request, step_with mark_negotiated]
          else no_step
      | [] \<Rightarrow> no_step)"

definition request_command :: "bytes \<Rightarrow> neg \<Rightarrow> neg" where
  "request_command d n =
     signal_negotiation_complete True
       (handler_set_negotiated True
         (set_negotiated_flag True
           (n\<lparr>ng_functions := (case d of [] \<Rightarrow> 0 | x # _ \<Rightarrow> uint x)\<rparr>)))"

subsection \<open>The loop\<close>

text \<open>A command other than SEND takes the rest of the payload.\<close>

definition tn3270e_command :: "byte \<Rightarrow> bytes \<Rightarrow> neg_step" where
  "tn3270e_command c r =
     (if c = 0x02 then device_type_command r
      else if c = 0x04 then handle_tn3270e_is r
      else if c = 0x03 then functions_command r
      else if c = 0x15 then handle_response_mode (c # r)
      else if c = 0x16 then handle_usable_area (c # r)
      else if c = 0x0F then handle_query (c # r)
      else if c = 0x07 then step_with (request_command r)
      else no_step)"

definition bare_header :: "bytes \<Rightarrow> bytes \<Rightarrow> TN3270EHeader option" where
  "bare_header payload d =
     (case (if length payload = 5 then from_bytes payload else None) of
        Some h \<Rightarrow> Some h
      | None \<Rightarrow> if length d \<ge> 5 \<and> hd d \<notin> {0x02, 0x03, 0x08, 0x04, 0x07, 0x0F}
                then from_bytes (take 5 d) else None)"

text \<open>\<open>d\<close> is what is left of the payload.\<close>

fun tn3270e_loop :: "bytes \<Rightarrow> bytes \<Rightarrow> neg_step" where
  "tn3270e_loop payload [] n = (None, n)"
| "tn3270e_loop payload (c # r) n =
     (case bare_header payload (c # r) of
        Some h \<Rightarrow> handle_tn3270e_response h [] n
      | None \<Rightarrow>
          if c = 0x08
          then (case r of
                  [] \<Rightarrow> (None, n)
                | t # r' \<Rightarrow>
                    (case handle_tn3270e_send t n of
                       (Some e, n') \<Rightarrow> (Some e, n')
                     | (None, n') \<Rightarrow> tn3270e_loop payload r' n'))
          else tn3270e_command c r n)"

definition parse_tn3270e_subnegotiation :: "bytes \<Rightarrow> neg_step" where
  "parse_tn3270e_subnegotiation data =
     (if length data < 2 \<or> hd data \<noteq> 0x28 then no_step else tn3270e_loop (tl data) (tl data))"

definition MAX_SUBPAYLOAD_BYTES :: nat where "MAX_SUBPAYLOAD_BYTES = 255"

definition handle_subnegotiation :: "byte \<Rightarrow> bytes \<Rightarrow> neg_step" where
  "handle_subnegotiation opt payload =
     (if length payload > MAX_SUBPAYLOAD_BYTES then fail_with N_protocol
      else if opt = 0x18 then handle_terminal_type payload
      else if opt = 0x27 then handle_new_environ payload
      else if opt = 0x24 then handle_terminal_location payload
      else if opt = 0x28 then parse_tn3270e_subnegotiation (opt # payload)
      else no_step)"

text \<open>
  The negotiator as the telnet layer sees it, which swallows every exception. Its answers and those
  of the layer itself go to the same connection; the model keeps them apart.
\<close>

definition negotiator_instance :: "neg negotiator_ops" where
  "negotiator_instance =
     \<lparr>neg_iac_command = \<lambda>c opt n. snd (handle_iac_command c opt n),
      neg_subnegotiation = \<lambda>opt p n. snd (handle_subnegotiation opt p n),
      neg_functions = ng_functions\<rparr>"

section \<open>Bind images\<close>

text \<open>Rows and columns of the image, \<open>None\<close> where it has none.\<close>

definition neg_handle_bind_image :: "int option \<Rightarrow> int option \<Rightarrow> neg \<Rightarrow> neg" where
  "neg_handle_bind_image br bc n =
     (let r = (case br of Some x \<Rightarrow> if x > 0 then x else ng_rows n | None \<Rightarrow> ng_rows n);
          c = (case bc of Some x \<Rightarrow> if x > 0 then x else ng_cols n | None \<Rightarrow> ng_cols n);
          n' = (if r \<noteq> ng_rows n \<or> c \<noteq> ng_cols n
                then n\<lparr>ng_rows := r, ng_cols := c, ng_screen := (case ScreenBuffer_init r c 0x40 ''cp037'' of Inr b \<Rightarrow> Some b | Inl _ \<Rightarrow> ng_screen n)\<rparr>
                else n)
      in n'\<lparr>ng_functions := ng_functions n' OR 0x01\<rparr>)"

end
