(* ===== verification/NegotiationRun.thy ===== *)
theory NegotiationRun
  imports Negotiation
begin

text \<open>
  The drivers of \<open>pure3270/protocol/negotiator.py\<close>: retries, the two phases of the negotiation, the
  cleanup after a failure, and the reaction to SNA responses. What the host's bytes do to the
  negotiator while a driver waits for an event is an argument: a function for each attempt and each
  of its waits. A wait that has not been satisfied by it times out. Sleeping takes no time here.
\<close>

section \<open>Retries\<close>

definition update_connection_state :: "bool \<Rightarrow> neg \<Rightarrow> neg" where
  "update_connection_state success n =
     (if success then n\<lparr>ng_connected := True, ng_failures := 0\<rparr>
      else n\<lparr>ng_connected := False, ng_failures := ng_failures n + 1, ng_total_failures := ng_total_failures n + 1\<rparr>)"

text \<open>A drain raises an \<open>OSError\<close>.\<close>

definition is_retryable_error :: "neg_error \<Rightarrow> bool" where
  "is_retryable_error e \<longleftrightarrow> e = N_negotiation \<or> e = N_drain"

fun retry_loop :: "(nat \<Rightarrow> neg_step) \<Rightarrow> nat \<Rightarrow> nat \<Rightarrow> neg_step" where
  "retry_loop op retries attempt n =
     (case op attempt (if attempt > 0 then n\<lparr>ng_recovery_attempts := ng_recovery_attempts n + 1\<rparr> else n) of
        (None, n') \<Rightarrow> (None, update_connection_state True n')
      | (Some e, n') \<Rightarrow>
          (let n1 = update_connection_state False n'
           in if \<not> is_retryable_error e then (Some e, n1)
              else (case retries of 0 \<Rightarrow> (Some e, n1) | Suc k \<Rightarrow> retry_loop op k (attempt + 1) n1)))"

declare retry_loop.simps [simp del]

definition retry_with_backoff :: "(nat \<Rightarrow> neg_step) \<Rightarrow> nat \<Rightarrow> neg_step" where
  "retry_with_backoff op max_retries = retry_loop op max_retries 0"

definition validate_connection_state :: "neg \<Rightarrow> bool" where
  "validate_connection_state n \<longleftrightarrow>
     \<not> (\<not> ng_connected n \<and> \<not> ng_writer n) \<and> \<not> ng_failures n \<ge> 3 \<and> ng_writer n"

definition cleanup_on_failure :: "neg \<Rightarrow> neg" where
  "cleanup_on_failure n = signal_negotiation_complete False (reset_negotiation_state n)"

section \<open>The first phase\<close>

text \<open>Nothing is sent: the host is expected to start.\<close>

definition perform_negotiation :: neg_step where
  "perform_negotiation n = (if \<not> ng_writer n then (Some N_protocol, n) else safe_drain_writer n)"

definition negotiate :: neg_step where
  "negotiate n =
     (if \<not> validate_connection_state n then (Some N_not_connected, n)
      else case retry_with_backoff (\<lambda>_. perform_negotiation) 3 n of
             (None, n') \<Rightarrow> (None, n')
           | (Some _, n') \<Rightarrow> (Some N_negotiation, cleanup_on_failure n'))"

section \<open>SNA responses\<close>

definition valid_sna_transitions :: "SnaSessionState \<Rightarrow> SnaSessionState list" where
  "valid_sna_transitions s =
     (case s of
        SNA_NORMAL \<Rightarrow> [SNA_ERROR, SNA_SESSION_DOWN, SNA_LU_BUSY]
      | SNA_ERROR \<Rightarrow> [SNA_PENDING_RECOVERY, SNA_SESSION_DOWN]
      | SNA_PENDING_RECOVERY \<Rightarrow> [SNA_NORMAL, SNA_ERROR, SNA_SESSION_DOWN]
      | SNA_SESSION_DOWN \<Rightarrow> [SNA_NORMAL, SNA_ERROR]
      | SNA_LU_BUSY \<Rightarrow> [SNA_NORMAL, SNA_ERROR]
      | SNA_INVALID_SEQUENCE \<Rightarrow> [SNA_ERROR, SNA_SESSION_DOWN]
      | SNA_STATE_ERROR \<Rightarrow> [SNA_ERROR, SNA_SESSION_DOWN])"

definition validate_sna_state_transition :: "SnaSessionState \<Rightarrow> SnaSessionState \<Rightarrow> bool" where
  "validate_sna_state_transition a b \<longleftrightarrow> b \<in> set (valid_sna_transitions a)"

text \<open>Each of the three rounds asks whether the bind image is active; nothing changes in between.\<close>

fun lu_busy_rounds :: "nat \<Rightarrow> neg \<Rightarrow> neg" where
  "lu_busy_rounds 0 n = n"
| "lu_busy_rounds (Suc k) n =
     (if is_bind_image_active n then (snd (resend_request ''BIND-IMAGE'' n))\<lparr>ng_sna := SNA_NORMAL\<rparr>
      else lu_busy_rounds k n)"

definition handle_lu_busy :: "neg \<Rightarrow> neg" where
  "handle_lu_busy n = lu_busy_rounds 3 (n\<lparr>ng_sna := SNA_PENDING_RECOVERY\<rparr>)"

definition handle_sequence_error :: "neg \<Rightarrow> neg" where
  "handle_sequence_error n =
     n\<lparr>ng_pending := [], ng_seq := 0, ng_sna := SNA_PENDING_RECOVERY\<rparr>\<lparr>ng_sna := SNA_NORMAL\<rparr>"

definition renegotiate :: "neg \<Rightarrow> neg" where
  "renegotiate n =
     (case negotiate n of
        (None, n') \<Rightarrow> n'\<lparr>ng_sna := SNA_NORMAL\<rparr>
      | (Some _, n') \<Rightarrow> n'\<lparr>ng_sna := SNA_SESSION_DOWN\<rparr>)"

definition handle_state_error :: "neg \<Rightarrow> neg" where
  "handle_state_error n =
     renegotiate (n\<lparr>ng_sna := SNA_PENDING_RECOVERY, ng_functions := ng_functions n AND NOT 0x01,
                    ng_bind_override := None\<rparr>)"

text \<open>A response without a sense code reaches the last branch, whose message cannot be formatted.\<close>

definition handle_sna_response :: "SnaResponse \<Rightarrow> neg_step" where
  "handle_sna_response r n =
     (case sna_sense r of
        None \<Rightarrow> (Some N_type_error, n)
      | Some c \<Rightarrow>
          (None,
           if c = 0x0000 then n\<lparr>ng_sna := SNA_NORMAL\<rparr>
           else if c = 0x080A then handle_lu_busy (n\<lparr>ng_sna := SNA_LU_BUSY\<rparr>)
           else if c = 0x082A then renegotiate (n\<lparr>ng_sna := SNA_ERROR\<rparr>)
           else if c = 0x1001 \<or> c = 0x1002 \<or> c = 0x0801 then n\<lparr>ng_sna := SNA_ERROR\<rparr>
           else if c = 0x1008 then handle_sequence_error (n\<lparr>ng_sna := SNA_INVALID_SEQUENCE\<rparr>)
           else if c = 0x080F then n\<lparr>ng_sna := SNA_ERROR\<rparr>
           else if c = 0x1003 then handle_state_error (n\<lparr>ng_sna := SNA_STATE_ERROR\<rparr>)
           else n\<lparr>ng_sna := SNA_ERROR\<rparr>))"

section \<open>The second phase\<close>

text \<open>The result of a wait: the event is set, before or by what arrives, or the wait times out.\<close>

definition wait_event :: "(neg \<Rightarrow> bool) \<Rightarrow> (neg \<Rightarrow> neg) \<Rightarrow> neg \<Rightarrow> bool \<times> neg" where
  "wait_event ev arrives n = (if ev n then (True, n) else (let n' = arrives n in (ev n', n')))"

definition await_events :: "(nat \<Rightarrow> neg \<Rightarrow> neg) \<Rightarrow> neg \<Rightarrow> bool \<times> neg" where
  "await_events arrives n =
     (let first = (if ng_strict n then wait_event ng_device_event (arrives 0) n
                   else wait_event (\<lambda>n. ng_device_event n \<or> ng_functions_event n) (arrives 0) n)
      in case first of
           (False, n1) \<Rightarrow> (False, n1)
         | (True, n1) \<Rightarrow>
             (case wait_event ng_functions_event (arrives 1) n1 of
                (False, n2) \<Rightarrow> (False, n2)
              | (True, n2) \<Rightarrow> wait_event ng_complete (arrives 2) n2))"

definition set_all_events :: "neg \<Rightarrow> neg" where
  "set_all_events n = n\<lparr>ng_device_event := True, ng_functions_event := True, ng_complete := True\<rparr>"

definition negotiation_timed_out :: neg_step where
  "negotiation_timed_out n =
     (if \<not> ng_allow_fallback n then (Some N_negotiation, n)
      else (let n1 = set_negotiated_flag False n;
                n2 = (if ng_handler n1 = None then n1\<lparr>ng_ascii := True\<rparr> else n1)
            in (None, set_all_events n2)))"

definition after_events :: "neg \<Rightarrow> neg" where
  "after_events n =
     handler_set_negotiated True
       (if ng_forced_completion n then n else (set_negotiated_flag True n)\<lparr>ng_supports := True\<rparr>)"

definition decide_mode :: "neg \<Rightarrow> neg" where
  "decide_mode n =
     (if ng_ascii n then set_negotiated_flag False n
      else if \<not> ng_supports n then
        (if ng_negotiated n \<and> ng_device_type n \<noteq> None then n
         else if ng_force_mode n = Some Force_tn3270e then handler_set_negotiated True (set_negotiated_flag True n)
         else if infer_tn3270e_from_trace (case ng_handler n of Some h \<Rightarrow> hv_trace h | None \<Rightarrow> [])
         then set_negotiated_flag True n
         else n)
      else set_negotiated_flag True n)"

definition printer_response :: SnaResponse where
  "printer_response = \<lparr>sna_type = 0x01, sna_flags = Some 0x08, sna_sense = Some 0x0000, sna_data = None\<rparr>"

definition conclude :: neg_step where
  "conclude =
     steps [step_with after_events,
            (\<lambda>n. if ng_printer_session n \<and> ng_parser n then handle_sna_response printer_response n else (None, n)),
            step_with decide_mode, step_with (signal_negotiation_complete True)]"

definition perform_tn3270_negotiation :: "(nat \<Rightarrow> neg \<Rightarrow> neg) \<Rightarrow> neg_step" where
  "perform_tn3270_negotiation arrives n =
     (if \<not> ng_writer n then (Some N_protocol, n)
      else case await_events arrives n of
             (False, n1) \<Rightarrow> negotiation_timed_out n1
           | (True, n1) \<Rightarrow> if ng_forced_failure n1 then (Some N_negotiation, n1) else conclude n1)"

definition negotiate_tn3270 :: "(nat \<Rightarrow> nat \<Rightarrow> neg \<Rightarrow> neg) \<Rightarrow> neg_step" where
  "negotiate_tn3270 arrives n =
     (case ng_force_mode n of
        Some Force_ascii \<Rightarrow> (None, set_all_events (set_negotiated_flag False (neg_set_ascii_mode n)))
      | Some Force_tn3270 \<Rightarrow> (None, set_all_events (set_negotiated_flag False n))
      | Some Force_tn3270e \<Rightarrow>
          if ng_forced_failure n \<or> (\<not> ng_allow_fallback n \<and> \<not> ng_supports n) then (Some N_negotiation, n)
          else (None, set_all_events (handler_set_negotiated True
                  ((set_negotiated_flag True (snd (send_supported_device_types n)))\<lparr>ng_supports := True\<rparr>)))
      | None \<Rightarrow>
          if \<not> validate_connection_state n then (Some N_not_connected, n)
          else if ng_forced_failure n \<and> \<not> ng_allow_fallback n
          then (Some N_negotiation, cleanup_on_failure n)
          else case retry_with_backoff (\<lambda>attempt. perform_tn3270_negotiation (arrives attempt)) 3 n of
                 (None, n') \<Rightarrow> (None, n')
               | (Some _, n') \<Rightarrow> (Some N_negotiation, cleanup_on_failure n'))"

end
