(* ===== verification/NegotiationProps.thy ===== *)
theory NegotiationProps
  imports NegotiationRun
begin

text \<open>
  What the steps of \<open>Negotiation\<close> keep, what a host's options and subnegotiations lead to, and the
  whole negotiation as it comes over the network: the negotiator is an instance of the interface of
  the telnet layer, so that its theorem on chunks applies.
\<close>

section \<open>What every step keeps\<close>

text \<open>Negotiator and handler agree, and the counters stay in their ranges.\<close>

definition ng_ok :: "neg \<Rightarrow> bool" where
  "ng_ok n \<longleftrightarrow>
     (\<forall>h. ng_handler n = Some h \<longrightarrow> hv_negotiated h = ng_negotiated n)
     \<and> 0 \<le> ng_functions n \<and> 0 \<le> ng_seq n \<and> ng_seq n < 65536
     \<and> list_all (\<lambda>(_, r). rq_retries r \<le> 3) (ng_pending n)"

definition evolves :: "neg \<Rightarrow> neg \<Rightarrow> bool" where
  "evolves n n' \<longleftrightarrow>
     (ng_ok n \<longrightarrow> ng_ok n') \<and> (\<exists>bs. ng_out n' = ng_out n @ bs)
     \<and> ng_writer n' = ng_writer n \<and> ng_drains n' = ng_drains n
     \<and> ng_force_mode n' = ng_force_mode n \<and> ng_allow_fallback n' = ng_allow_fallback n
     \<and> ng_strict n' = ng_strict n \<and> ng_terminal_type n' = ng_terminal_type n
     \<and> ng_printer_session n' = ng_printer_session n \<and> ng_device_types n' = ng_device_types n
     \<and> (ng_handler n' = None \<longleftrightarrow> ng_handler n = None)"

lemma evolves_refl [simp]: "evolves n n"
  by (simp add: evolves_def)

lemma evolves_trans:
  assumes "evolves a b" and "evolves b c" shows "evolves a c"
proof -
  have "\<exists>bs. ng_out c = ng_out a @ bs"
    using assms unfolding evolves_def by (metis append_assoc)
  then show ?thesis using assms unfolding evolves_def by simp
qed

named_theorems evolve_rules \<open>steps and updates of the negotiator that keep its invariant\<close>

definition keeping :: "neg_step \<Rightarrow> bool" where
  "keeping a \<longleftrightarrow> (\<forall>n. evolves n (snd (a n)))"

lemma keepingD: "keeping a \<Longrightarrow> evolves n (snd (a n))"
  by (simp add: keeping_def)

lemma keeping_steps [evolve_rules]:
  assumes "\<forall>a\<in>set as. keeping a" shows "keeping (steps as)"
proof -
  have "evolves n (snd (steps as n))" for n
    using assms
  proof (induction as arbitrary: n)
    case (Cons a as)
    obtain e n' where a: "a n = (e, n')" by (cases "a n") blast
    have "evolves n n'" using Cons.prems keepingD [of a n] a by simp
    moreover have "evolves n' (snd (steps as n'))" using Cons by simp
    ultimately show ?case using a by (cases e) (auto intro: evolves_trans)
  qed simp
  then show ?thesis by (simp add: keeping_def)
qed

lemma keeping_step [evolve_rules]: "(\<And>n. evolves n (f n)) \<Longrightarrow> keeping (step_with f)"
  by (simp add: keeping_def step_with_def)

lemma keeping_basic [evolve_rules]:
  "keeping no_step" "keeping (fail_with e)" "keeping safe_drain_writer" "keeping writer_drain"
  by (simp_all add: keeping_def no_step_def fail_with_def safe_drain_writer_def writer_drain_def)

lemma keeping_when [evolve_rules]: "keeping a \<Longrightarrow> keeping (when_writer a)"
  by (simp add: keeping_def when_writer_def)

lemma keeping_if [evolve_rules]: "keeping a \<Longrightarrow> keeping b \<Longrightarrow> keeping (if c then a else b)"
  by simp

lemma evolves_put [evolve_rules]: "evolves n (put bs n)"
  by (simp add: evolves_def put_def ng_ok_def)

lemma evolves_flag [evolve_rules]: "evolves n (set_negotiated_flag v n)"
  by (auto simp: evolves_def set_negotiated_flag_def ng_ok_def)

lemma evolves_flag_of: "evolves a b \<Longrightarrow> evolves a (set_negotiated_flag v b)"
  by (rule evolves_trans [OF _ evolves_flag])

lemma evolves_events [evolve_rules]:
  "evolves n (n\<lparr>ng_device_event := b\<rparr>)" "evolves n (n\<lparr>ng_functions_event := b\<rparr>)"
  "evolves n (n\<lparr>ng_complete := b\<rparr>)" "evolves n (n\<lparr>ng_supports := b\<rparr>)"
  "evolves n (n\<lparr>ng_supports := b, ng_complete := c\<rparr>)" "evolves n (n\<lparr>ng_forced_failure := b\<rparr>)"
  "evolves n (n\<lparr>ng_tn3270_mode := b\<rparr>)"
  by (simp_all add: evolves_def ng_ok_def)

lemma evolves_names [evolve_rules]:
  "evolves n (n\<lparr>ng_device_type := x\<rparr>)" "evolves n (n\<lparr>ng_connected_lu := x\<rparr>)"
  "evolves n (n\<lparr>ng_associated_lu := x\<rparr>)" "evolves n (n\<lparr>ng_rejected := b, ng_reason := r\<rparr>)"
  "evolves n (n\<lparr>ng_lu_complete := b, ng_lu_event := c\<rparr>)"
  "evolves n (n\<lparr>ng_selected_lu := x, ng_lu_name := y, ng_lu_complete := b, ng_lu_event := c\<rparr>)"
  "evolves n (n\<lparr>ng_lu_error := b, ng_lu_event := c\<rparr>)" "evolves n (n\<lparr>ng_response_mode := r\<rparr>)"
  "evolves n (n\<lparr>ng_raw_functions := d\<rparr>)"
  by (simp_all add: evolves_def ng_ok_def)

lemma evolves_ascii [evolve_rules]: "evolves n (neg_set_ascii_mode n)"
  by (auto simp: evolves_def neg_set_ascii_mode_def ng_ok_def)

lemma int_from_bytes_nonneg [simp]: "0 \<le> int_from_bytes d"
proof -
  have "0 \<le> k \<Longrightarrow> 0 \<le> foldl (\<lambda>n b. 256 * n + uint b) k d" for k :: int
    by (induction d arbitrary: k) simp_all
  then show ?thesis by (simp add: int_from_bytes_def)
qed

lemma evolves_functions [evolve_rules]:
  "evolves n (set_functions d n)" "0 \<le> k \<Longrightarrow> evolves n (n\<lparr>ng_functions := k\<rparr>)"
  by (simp_all add: evolves_def set_functions_def ng_ok_def)

lemma evolves_handler_set [evolve_rules]: "evolves n (handler_set_negotiated v n)"
  by (auto simp: evolves_def handler_set_negotiated_def set_negotiated_tn3270e_def set_negotiated_flag_def
      ng_ok_def Let_def split: option.split)

lemma evolves_finalize [evolve_rules]: "evolves n (maybe_finalize_negotiation n)"
  unfolding maybe_finalize_negotiation_def Let_def
  by (auto intro: evolves_trans [OF evolves_flag] evolve_rules)

lemma evolves_signals [evolve_rules]:
  "evolves n (signal_device_event a b n)" "evolves n (signal_functions_event a b n)"
  "evolves n (signal_negotiation_complete s n)"
  unfolding signal_device_event_def signal_functions_event_def signal_negotiation_complete_def Let_def
  by (auto intro!: evolves_trans [OF _ evolves_finalize] evolves_trans [OF _ evolves_events(3)]
        evolves_trans [OF _ evolves_events(4)] evolves_flag_of intro: evolves_events)

text \<open>A composition of updates evolves when each of them does.\<close>

lemma evolves_comp: "(\<And>n. evolves n (f n)) \<Longrightarrow> evolves a b \<Longrightarrow> evolves a (f b)"
  by (rule evolves_trans)

subsection \<open>Every handler\<close>

lemma keeping_supported_types [evolve_rules]: "keeping send_supported_device_types"
proof -
  have "keeping (steps [step_with (send_subnegotiation 0x28 x), safe_drain_writer, step_with signal_device])" for x
    by (simp add: evolve_rules send_subnegotiation_def)
  then show ?thesis
    by (auto simp: keeping_def send_supported_device_types_def split: option.split prod.split)
qed

lemma keeping_functions_request [evolve_rules]: "keeping send_functions_request"
proof -
  have "keeping (when_writer (steps [step_with (send_subnegotiation 0x28 x), safe_drain_writer]))" for x
    by (simp add: evolve_rules send_subnegotiation_def)
  then show ?thesis by (simp add: keeping_def send_functions_request_def)
qed

lemma evolves_functions_sent [evolve_rules]: "evolves n (functions_sent n)"
  unfolding functions_sent_def Let_def
  by (auto intro!: evolves_comp [OF evolves_handler_set] evolves_comp [OF evolves_events(5)] evolves_flag_of
      intro: evolves_events)

lemma keeping_functions_is [evolve_rules]: "keeping send_functions_is"
proof -
  have "keeping (steps [step_with (set_functions d),
      when_writer (steps [step_with (send_subnegotiation 0x28 x), safe_drain_writer, step_with functions_sent])])" for d x
    by (simp add: evolve_rules send_subnegotiation_def)
  then show ?thesis by (simp add: keeping_def send_functions_is_def Let_def)
qed

lemma keeping_resend [evolve_rules]: "keeping (resend_request k)"
  by (simp add: resend_request_def evolve_rules)

lemma pending_update: "list_all (\<lambda>(_, r). P r) ps \<Longrightarrow> P q \<Longrightarrow> list_all (\<lambda>(_, r). P r) (AList.update k q ps)"
  by (induction ps) auto

lemma pending_delete: "list_all (\<lambda>(_, r). P r) ps \<Longrightarrow> list_all (\<lambda>(_, r). P r) (AList.delete k ps)"
  by (simp add: AList.delete_eq list_all_iff)

lemma keeping_retry: "limit \<le> 3 \<Longrightarrow> keeping (retry_request limit k r h data)"
  unfolding retry_request_def
  by (simp add: evolve_rules evolves_def ng_ok_def pending_update)

lemma evolves_deleted: "evolves n (n\<lparr>ng_pending := AList.delete k (ng_pending n)\<rparr>)"
  by (auto simp: evolves_def ng_ok_def pending_delete)

lemma keeping_response [evolve_rules]: "keeping (handle_tn3270e_response h data)"
proof -
  have "evolves n (snd (retry_request l k r h data (n\<lparr>ng_pending := AList.delete k (ng_pending n)\<rparr>)))"
    if "l \<le> 3" for l k r n
    by (rule evolves_trans [OF evolves_deleted keepingD [OF keeping_retry [OF that]]])
  moreover have "evolves n (signal_device (n\<lparr>ng_pending := AList.delete k (ng_pending n)\<rparr>))"
    "evolves n (signal_functions (n\<lparr>ng_pending := AList.delete k (ng_pending n)\<rparr>))" for k n
    by (rule evolves_trans [OF evolves_deleted], rule evolves_signals)+
  ultimately show ?thesis
    by (auto simp: keeping_def handle_tn3270e_response_def Let_def step_with_def evolves_deleted split: option.split)
qed

lemma keeping_will [evolve_rules]: "keeping (handle_will opt)"
  unfolding handle_will_def send_iac_def by (simp add: evolve_rules)

lemma evolves_refuse [evolve_rules]: "evolves n (refuse_tn3270e n)"
  unfolding refuse_tn3270e_def Let_def
  by (auto intro!: evolves_comp [OF evolves_signals(1)] evolves_comp [OF evolves_signals(2)]
      evolves_comp [OF evolves_signals(3)] evolves_comp [OF evolves_flag] evolves_comp [OF evolves_ascii]
      evolves_comp [OF evolves_events(6)] intro: evolves_events)

lemma keeping_wont [evolve_rules]: "keeping (handle_wont opt)"
  unfolding handle_wont_def by (simp add: evolve_rules)

lemma keeping_naws [evolve_rules]: "keeping (send_naws_subnegotiation w h)"
proof -
  have "keeping (steps [step_with (put x), writer_drain])" for x by (simp add: evolve_rules)
  then show ?thesis by (auto simp: keeping_def send_naws_subnegotiation_def split: option.split)
qed

lemma keeping_lu_name [evolve_rules]: "keeping send_lu_name_is"
proof -
  have "keeping (steps [step_with (send_subnegotiation 0x24 x), safe_drain_writer])" for x
    by (simp add: evolve_rules send_subnegotiation_def)
  then show ?thesis by (auto simp: keeping_def send_lu_name_is_def split: option.split)
qed

lemma keeping_do [evolve_rules]: "keeping (handle_do opt)"
proof -
  have "keeping (when_writer (\<lambda>n. send_naws_subnegotiation (ng_cols n) (ng_rows n) n))"
    using keeping_naws by (simp add: keeping_def when_writer_def)
  then show ?thesis unfolding handle_do_def send_iac_def by (simp add: evolve_rules)
qed

lemma evolves_stop [evolve_rules]: "evolves n (stop_tn3270e n)"
  unfolding stop_tn3270e_def
  by (auto intro!: evolves_comp [OF evolves_signals(1)] evolves_comp [OF evolves_signals(2)]
      evolves_comp [OF evolves_signals(3)] evolves_comp [OF evolves_handler_set] evolves_flag)

lemma keeping_dont [evolve_rules]: "keeping (handle_dont opt)"
  unfolding handle_dont_def send_iac_def by (simp add: evolve_rules)

lemma keeping_iac_command: "keeping (handle_iac_command c opt)"
  unfolding handle_iac_command_def by (simp add: evolve_rules)

lemma keeping_new_environ [evolve_rules]: "keeping (handle_new_environ p)"
proof -
  have "keeping (when_writer (steps [step_with (send_subnegotiation 0x27 x), writer_drain]))" for x
    by (simp add: evolve_rules send_subnegotiation_def)
  then have "keeping send_new_environ_response" by (simp add: keeping_def send_new_environ_response_def)
  then show ?thesis by (auto simp: handle_new_environ_def evolve_rules split: list.split)
qed

lemma keeping_location [evolve_rules]: "keeping (handle_terminal_location p)"
  by (auto simp: keeping_def handle_terminal_location_def evolves_names split: list.split option.split)

lemma keeping_terminal_type [evolve_rules]: "keeping (handle_terminal_type p)"
  by (auto simp: keeping_def handle_terminal_type_def when_writer_def send_subneg_def send_subnegotiation_def
      evolves_put split: list.split option.split)

lemma keeping_query_sf [evolve_rules]: "keeping (send_query_sf q)"
  unfolding send_query_sf_def send_subnegotiation_def by (simp add: evolve_rules)

lemma keeping_send [evolve_rules]: "keeping (handle_tn3270e_send t)"
  unfolding handle_tn3270e_send_def by (simp add: evolve_rules)

lemma evolves_is_fields: "evolves n (is_fields d n)"
proof (induction d n rule: is_fields.induct)
  case (1 d n)
  have "evolves n (handle_structured_field_of_is x y n)" for x y
    by (simp add: handle_structured_field_of_is_def evolves_names)
  with 1 show ?case by (subst is_fields.simps) (auto intro: evolves_trans)
qed

lemma evolves_named_device: "evolves n (signal_device (n\<lparr>ng_device_type := x\<rparr>))"
  "evolves n (signal_device (n\<lparr>ng_connected_lu := x\<rparr>))" "evolves n (signal_device (n\<lparr>ng_associated_lu := x\<rparr>))"
  "evolves n (signal_device (n\<lparr>ng_rejected := b, ng_reason := r\<rparr>))"
  by (auto intro!: evolves_comp [OF evolves_signals(1)] evolves_names)

lemma keeping_is [evolve_rules]: "keeping (handle_tn3270e_is d)"
proof -
  have "keeping (steps [step_with (\<lambda>n. signal_device (n\<lparr>ng_device_type := Some x\<rparr>)), send_functions_request])" for x
    by (simp add: evolve_rules evolves_named_device)
  then show ?thesis
    by (auto simp: keeping_def handle_tn3270e_is_def evolves_is_fields split: option.split)
qed

lemma keeping_response_mode [evolve_rules]: "keeping (handle_response_mode d)"
proof -
  have "keeping (when_writer (steps [step_with (send_subnegotiation 0x28 x), writer_drain]))" for x
    by (simp add: evolve_rules send_subnegotiation_def)
  then show ?thesis by (auto simp: keeping_def handle_response_mode_def Let_def evolves_names)
qed

lemma keeping_usable_area [evolve_rules]: "keeping (handle_usable_area d)"
proof -
  have "keeping (steps [step_with (send_subnegotiation 0x28 x), writer_drain])" for x
    by (simp add: evolve_rules send_subnegotiation_def)
  then show ?thesis by (auto simp: keeping_def handle_usable_area_def Let_def split: option.split)
qed

lemma evolves_query_reply: "evolves n (parse_query_reply d n)"
  by (induction d n rule: parse_query_reply.induct) (auto simp: evolves_names split: option.split)

lemma keeping_query [evolve_rules]: "keeping (handle_query d)"
proof -
  have "keeping (when_writer (steps [step_with (send_subnegotiation 0x28 x), writer_drain]))" for x
    by (simp add: evolve_rules send_subnegotiation_def)
  then show ?thesis by (auto simp: keeping_def handle_query_def Let_def evolves_query_reply)
qed

lemma keeping_device_type [evolve_rules]: "keeping (device_type_command d)"
proof -
  have "keeping (device_is x)" for x
    unfolding device_is_def by (simp add: evolve_rules evolves_named_device)
  then show ?thesis
    by (simp add: device_type_command_def evolve_rules evolves_named_device split: list.split)
qed

lemma evolves_record: "evolves n (signal_functions (record_functions d n))"
  by (auto simp: record_functions_def Let_def intro!: evolves_comp [OF evolves_signals(2)]
      evolves_comp [OF evolves_functions(1)] evolves_names)

lemma evolves_mark [evolve_rules]: "evolves n (mark_negotiated n)"
  by (auto simp: mark_negotiated_def intro!: evolves_comp [OF evolves_handler_set] evolves_flag)

lemma keeping_functions [evolve_rules]: "keeping (functions_command d)"
proof -
  have a: "keeping (steps [step_with (\<lambda>n. signal_functions (record_functions r n)), send_functions_is, step_with mark_negotiated])" for r
    by (simp add: evolve_rules evolves_record)
  have b: "keeping (steps [step_with (\<lambda>n. signal_functions (record_functions r n)),
        send_functions_is, step_with mark_negotiated,
        step_with (\<lambda>n. signal_functions (record_functions (drop 1 r) n)),
        send_functions_request, step_with mark_negotiated])" for r
    by (simp add: evolve_rules evolves_record)
  have c: "keeping (step_with (\<lambda>n. signal_functions (record_functions r n)))" for r
    by (simp add: evolve_rules evolves_record)
  show ?thesis unfolding functions_command_def
    by (simp add: a b c evolve_rules del: steps.simps split: list.split)
qed

lemma evolves_request: "evolves n (request_command d n)"
  by (auto simp: request_command_def intro!: evolves_comp [OF evolves_signals(3)] evolves_comp [OF evolves_handler_set]
      evolves_comp [OF evolves_flag] evolves_functions split: list.split)

lemma keeping_command: "keeping (tn3270e_command c r)"
  unfolding tn3270e_command_def by (simp add: evolve_rules evolves_request)

lemma evolves_loop: "evolves n (snd (tn3270e_loop payload d n))"
proof (induction "length d" arbitrary: d n rule: less_induct)
  case less
  show ?case
  proof (cases d)
    case (Cons c r)
    have sub: "evolves n (snd (case handle_tn3270e_send t n of (Some e, n') \<Rightarrow> (Some e, n')
                 | (None, n') \<Rightarrow> tn3270e_loop payload r' n'))" if "r = t # r'" for t r'
    proof -
      obtain e n' where h: "handle_tn3270e_send t n = (e, n')" by (cases "handle_tn3270e_send t n") blast
      with keepingD [OF keeping_send [of t], of n] have "evolves n n'" by simp
      moreover have "evolves n' (snd (tn3270e_loop payload r' n'))" using less [of r'] Cons that by simp
      ultimately show ?thesis using h by (cases e) (auto intro: evolves_trans)
    qed
    show ?thesis
      using keepingD [OF keeping_response] keepingD [OF keeping_command] sub Cons
      by (auto split: option.split list.split)
  qed simp
qed

lemma keeping_subnegotiation: "keeping (handle_subnegotiation opt p)"
proof -
  have "keeping (parse_tn3270e_subnegotiation d)" for d
    using evolves_loop by (simp add: parse_tn3270e_subnegotiation_def keeping_def no_step_def)
  then show ?thesis unfolding handle_subnegotiation_def by (simp add: evolve_rules)
qed

section \<open>Over the network\<close>

lemma evolves_telnet: "evolves (negotiator s) (negotiator (snd (telnet_loop negotiator_instance bs out s)))"
proof (induction "length bs" arbitrary: bs out s rule: less_induct)
  case less
  have i: "evolves n (neg_iac_command negotiator_instance c opt n)" for c opt n
    using keepingD [OF keeping_iac_command] by (simp add: negotiator_instance_def)
  have j: "evolves n (neg_subnegotiation negotiator_instance opt p n)" for opt p n
    using keepingD [OF keeping_subnegotiation] by (simp add: negotiator_instance_def)
  have step: "evolves (negotiator s) (negotiator (snd (telnet_loop negotiator_instance xs o' t)))"
    if "length xs < length bs" "evolves (negotiator s) (negotiator t)" for xs o' t
    using less [OF that(1), of t o'] that(2) by (rule evolves_trans [rotated])
  show ?case
  proof (cases bs rule: element_cases)
    case (Option c opt ds)
    with step [of ds "s\<lparr>negotiator := neg_iac_command negotiator_instance c opt (negotiator s)\<rparr>" out] i
    show ?thesis by (simp add: telnet_loop_steps)
  next
    case (Sub cs pre post)
    with step [of post "s\<lparr>negotiator := neg_subnegotiation negotiator_instance (sub_option pre) (tl pre) (negotiator s)\<rparr>" out]
      j split_se_length [OF Sub(2)]
    show ?thesis by (simp add: telnet_loop_steps)
  next
    case (Command c cs)
    have "negotiator (handle_telnet_command negotiator_instance c s) = negotiator s"
      by (simp add: handle_telnet_command_def)
    with Command step [of cs "handle_telnet_command negotiator_instance c s" out]
    show ?thesis by (simp add: telnet_loop_steps)
  qed (use step [of _ s] in \<open>simp_all add: telnet_loop_steps\<close>)
qed

text \<open>
  C36. Whatever bytes the network brings, in whatever chunks: the negotiator and the handler that owns
  it agree on whether TN3270E has been negotiated, sequence numbers and retry counts stay in their
  ranges, what was written is only added to, and the configuration is not touched.
\<close>

theorem negotiator_invariant:
  "evolves (negotiator s) (negotiator (fst (foldl (feed_telnet negotiator_instance) (s, acc) cs)))"
proof (induction cs arbitrary: s acc)
  case (Cons c cs)
  obtain out s1 where p: "feed_telnet negotiator_instance (s, acc) c = (s1, out)"
    by (cases "feed_telnet negotiator_instance (s, acc) c") blast
  then have "evolves (negotiator s) (negotiator s1)"
    using evolves_telnet [of "s\<lparr>telnet_buffer := []\<rparr>" "telnet_buffer s @ c" "[]"]
    by (auto simp: feed_telnet_def process_telnet_stream_def split: prod.splits)
  with Cons p show ?case by (auto intro: evolves_trans)
qed simp

text \<open>What the signals change.\<close>

lemma signal_frame [simp]:
  "ng_out (signal_device n) = ng_out n" "ng_out (signal_functions n) = ng_out n"
  "ng_device_type (signal_device n) = ng_device_type n" "ng_device_type (signal_functions n) = ng_device_type n"
  "ng_functions (signal_device n) = ng_functions n" "ng_functions (signal_functions n) = ng_functions n"
  "ng_supports (signal_device n) = ng_supports n" "ng_supports (signal_functions n) = ng_supports n"
  "ng_ascii (signal_device n) = ng_ascii n" "ng_ascii (signal_functions n) = ng_ascii n"
  "ng_forced_failure (signal_device n) = ng_forced_failure n"
  "ng_forced_failure (signal_functions n) = ng_forced_failure n"
  "ng_writer (signal_device n) = ng_writer n" "ng_writer (signal_functions n) = ng_writer n"
  "ng_drains (signal_device n) = ng_drains n" "ng_drains (signal_functions n) = ng_drains n"
  "ng_pending (signal_device n) = ng_pending n" "ng_pending (signal_functions n) = ng_pending n"
  "ng_device_types (signal_device n) = ng_device_types n" "ng_device_types (signal_functions n) = ng_device_types n"
  "ng_device_event (signal_device n)" "ng_functions_event (signal_functions n)"
  "ng_device_event (signal_functions n) = ng_device_event n"
  "ng_functions_event (signal_device n) = ng_functions_event n"
  by (simp_all add: signal_device_event_def signal_functions_event_def maybe_finalize_negotiation_def
      set_negotiated_flag_def Let_def)

lemma set_flag_frame [simp]:
  "ng_negotiated (set_negotiated_flag v n) = v" "ng_out (set_negotiated_flag v n) = ng_out n"
  "ng_supports (set_negotiated_flag v n) = ng_supports n" "ng_ascii (set_negotiated_flag v n) = ng_ascii n"
  "ng_forced_failure (set_negotiated_flag v n) = ng_forced_failure n"
  "ng_complete (set_negotiated_flag v n) = ng_complete n"
  "ng_device_type (set_negotiated_flag v n) = ng_device_type n"
  by (simp_all add: set_negotiated_flag_def)

lemma signal_functions_finishes:
  assumes "ng_supports n" and "ng_device_event n"
  shows "ng_negotiated (signal_functions n)" "ng_complete (signal_functions n)"
  using assms by (simp_all add: signal_functions_event_def maybe_finalize_negotiation_def Let_def)

lemma record_frame [simp]:
  "ng_out (record_functions d n) = ng_out n" "ng_supports (record_functions d n) = ng_supports n"
  "ng_device_event (record_functions d n) = ng_device_event n"
  "ng_device_type (record_functions d n) = ng_device_type n" "ng_ascii (record_functions d n) = ng_ascii n"
  "ng_forced_failure (record_functions d n) = ng_forced_failure n"
  "d \<noteq> [] \<Longrightarrow> ng_functions (record_functions d n) = int_from_bytes d"
  by (simp_all add: record_functions_def set_functions_def Let_def)

text \<open>The single messages of a negotiation.\<close>

lemma do_tn3270e:
  assumes "ng_writer n" and "ng_drains n"
  shows "handle_iac_command 0xFD 0x28 n = (None, n\<lparr>ng_out := ng_out n @ [IAC, 0xFB, 0x28], ng_supports := True\<rparr>)"
  using assms by (simp add: handle_iac_command_def handle_do_def accepted_do_def step_with_def no_step_def
      send_iac_def put_def safe_drain_writer_def)

lemma send_device_type:
  assumes "ng_writer n" and "ng_drains n" and "ng_device_types n \<noteq> []"
    and "device_request (ng_terminal_type n) (ng_printer_session n) = (dt, lu)"
    and "ascii_encode dt = Some d" and "ascii_encode lu = Some l"
  shows "handle_subnegotiation 0x28 [0x08, 0x02] n
       = (None, signal_device (n\<lparr>ng_out := ng_out n @ [IAC, SB, 0x28, 0x02, 0x07] @ d @ [0x00] @ l @ [IAC, SE]\<rparr>))"
  using assms
  by (simp add: handle_subnegotiation_def MAX_SUBPAYLOAD_BYTES_def parse_tn3270e_subnegotiation_def bare_header_def
      handle_tn3270e_send_def send_supported_device_types_def step_with_def send_subnegotiation_def put_def
      safe_drain_writer_def split: list.split)

text \<open>A payload that is taken as a bare header: five bytes with a response flag of at most two.\<close>

lemma five_bytes_header:
  "bare_header [a, b, c, x, y] d = Some h \<Longrightarrow> a \<in> {0x02, 0x03} \<Longrightarrow> d = [a, b, c, x, y] \<Longrightarrow> c \<in> {0x00, 0x01, 0x02}"
  by (auto simp: bare_header_def from_bytes_def split: if_splits)

lemma no_header:
  assumes "a \<in> {0x02, 0x03}" and "length p = 3 \<longrightarrow> hd p \<notin> {0x00, 0x01, 0x02}"
  shows "bare_header (a # b # p) (a # b # p) = None"
  using assms by (cases p) (auto simp: bare_header_def from_bytes_def split: if_splits)

lemma device_type_is:
  assumes "name \<noteq> []" and "list_all (\<lambda>b. 0x20 \<le> b \<and> b < 0x7F) name" and "length name \<le> 253"
    and "map byte_char name \<noteq> ''IBM-DYNAMIC''"
  shows "handle_subnegotiation 0x28 ([0x02, 0x04] @ name) n
       = (None, signal_device (n\<lparr>ng_device_type := Some (map byte_char name)\<rparr>))"
proof -
  have c: "b \<noteq> 0 \<and> b < 0x80 \<and> b \<notin> {0x00, 0x01, 0x02}" if "b \<in> set name" for b
  proof -
    have "0x20 \<le> b" "b < 0x7F" using assms(2) that by (auto simp: list_all_iff)
    then show ?thesis by (auto simp: word_le_nat_alt word_less_nat_alt)
  qed
  then have "before_nul name = name" by (intro before_nul_id) auto
  moreover have "ascii_decode_ignore name = map byte_char name"
    using c by (simp add: ascii_decode_ignore_def filter_id_conv)
  ultimately have nm: "device_name name = map byte_char name" by (simp add: device_name_def)
  have "hd name \<notin> {0x00, 0x01, 0x02}" using c assms(1) by (cases name) auto
  then have "bare_header (0x02 # 0x04 # name) (0x02 # 0x04 # name) = None" by (simp add: no_header)
  with assms(1,3,4) nm show ?thesis
    by (simp add: handle_subnegotiation_def MAX_SUBPAYLOAD_BYTES_def parse_tn3270e_subnegotiation_def
        tn3270e_command_def device_type_command_def device_is_def step_with_def no_step_def)
qed

text \<open>A list of exactly three functions, the first at most two, is taken for a header.\<close>

lemma functions_is:
  assumes "length codes = 3 \<longrightarrow> hd codes \<notin> {0x00, 0x01, 0x02}" and "length codes \<le> 253"
  shows "handle_subnegotiation 0x28 ([0x03, 0x04] @ codes) n = (None, signal_functions (record_functions codes n))"
  using assms no_header [of "0x03" codes "0x04"]
  by (simp add: handle_subnegotiation_def MAX_SUBPAYLOAD_BYTES_def parse_tn3270e_subnegotiation_def
      tn3270e_command_def functions_command_def step_with_def)

lemma three_functions_lost:
  assumes "c \<in> {0x00, 0x01, 0x02}" and "map_of (ng_pending n) (be16 x y) = None"
  shows "handle_subnegotiation 0x28 [0x03, 0x04, c, x, y] n = (None, n)"
proof -
  have "bare_header [0x03, 0x04, c, x, y] [0x03, 0x04, c, x, y]
      = Some \<lparr>h_data_type = 3, h_request_flag = 4, h_response_flag = uint c, h_seq_number = be16 x y\<rparr>"
  proof -
    have "\<not> 65535 < uint x * 256 + uint y" using uint_byte_lt [of x] uint_byte_lt [of y] by linarith
    then show ?thesis using assms(1) by (auto simp: bare_header_def from_bytes_def be16_eq)
  qed
  with assms(2) show ?thesis
    by (simp add: handle_subnegotiation_def MAX_SUBPAYLOAD_BYTES_def parse_tn3270e_subnegotiation_def
        handle_tn3270e_response_def)
qed

lemma split_se_plain: "IAC \<notin> set p \<Longrightarrow> split_se (p @ IAC # SE # post) = Some (p, post)"
proof (induction p)
  case (Cons x p)
  then show ?case by (cases p) auto
qed simp

lemma loop_option:
  "c \<in> set negotiation_commands \<Longrightarrow> telnet_loop N ([IAC, c, opt] @ ds) out s
     = telnet_loop N ds out (s\<lparr>negotiator := neg_iac_command N c opt (negotiator s)\<rparr>)"
  by (simp add: telnet_loop_steps)

lemma loop_subnegotiation:
  assumes "opt \<noteq> IAC" and "IAC \<notin> set p"
  shows "telnet_loop N ([IAC, SB, opt] @ p @ [IAC, SE] @ ds) out s
     = telnet_loop N ds out (s\<lparr>negotiator := neg_subnegotiation N opt p (negotiator s)\<rparr>)"
  using split_se_plain [of "opt # p" ds] assms by (simp add: telnet_loop_steps sub_option_def)

text \<open>
  C34. The negotiation of a TN3270E host, cut by the network in any way: DO TN3270E, a request of the
  device type, the device type, and the functions (not a list of three that starts with 0 to 2, which
  is taken for a header). The client answers with WILL TN3270E and its device request and writes
  nothing else, no byte reaches the screen, and at the end the negotiation is complete with that device
  type and those functions, in both negotiation modes, on both sides.
\<close>

theorem negotiation_over_network:
  assumes "telnet_buffer s = []" and "ng_writer (negotiator s)" and "ng_drains (negotiator s)"
    and "ng_device_types (negotiator s) \<noteq> []" and "\<not> ng_forced_failure (negotiator s)"
    and "device_request (ng_terminal_type (negotiator s)) (ng_printer_session (negotiator s)) = (dt, lu)"
    and "ascii_encode dt = Some d" and "ascii_encode lu = Some l"
    and "name \<noteq> []" and "list_all (\<lambda>b. 0x20 \<le> b \<and> b < 0x7F) name" and "length name \<le> 253"
    and "map byte_char name \<noteq> ''IBM-DYNAMIC''"
    and "codes \<noteq> []" and "IAC \<notin> set codes" and "length codes \<le> 253"
    and "length codes = 3 \<longrightarrow> hd codes \<notin> {0x00, 0x01, 0x02}"
    and "concat cs = [IAC, 0xFD, 0x28] @ [IAC, SB, 0x28] @ [0x08, 0x02] @ [IAC, SE]
           @ [IAC, SB, 0x28] @ ([0x02, 0x04] @ name) @ [IAC, SE]
           @ [IAC, SB, 0x28] @ ([0x03, 0x04] @ codes) @ [IAC, SE]"
  shows "let (s', data) = foldl (feed_telnet negotiator_instance) (s, acc) cs; n' = negotiator s'
         in data = acc \<and> ng_negotiated n' \<and> ng_complete n' \<and> ng_supports n'
          \<and> ng_device_type n' = Some (map byte_char name) \<and> ng_functions n' = int_from_bytes codes
          \<and> ng_out n' = ng_out (negotiator s) @ [IAC, 0xFB, 0x28]
                @ [IAC, SB, 0x28, 0x02, 0x07] @ d @ [0x00] @ l @ [IAC, SE]
          \<and> validate_negotiation_completion n'"
proof -
  let ?N = negotiator_instance
  define r3 where "r3 = [IAC, SB, 0x28] @ ([0x03, 0x04] @ codes) @ [IAC, SE] @ []"
  define r2 where "r2 = [IAC, SB, 0x28] @ ([0x02, 0x04] @ name) @ [IAC, SE] @ r3"
  define r1 where "r1 = [IAC, SB, 0x28] @ [0x08, 0x02] @ [IAC, SE] @ r2"
  define n0 where "n0 = negotiator s"
  define n1 where "n1 = n0\<lparr>ng_out := ng_out n0 @ [IAC, 0xFB, 0x28], ng_supports := True\<rparr>"
  define n2 where "n2 = signal_device (n1\<lparr>ng_out := ng_out n1 @ [IAC, SB, 0x28, 0x02, 0x07] @ d @ [0x00] @ l @ [IAC, SE]\<rparr>)"
  define n3 where "n3 = signal_device (n2\<lparr>ng_device_type := Some (map byte_char name)\<rparr>)"
  define n4 where "n4 = signal_functions (record_functions codes n3)"
  have s0: "s\<lparr>telnet_buffer := []\<rparr> = s" using assms(1) by simp
  have i1: "neg_iac_command ?N 0xFD 0x28 n0 = n1"
    using do_tn3270e [of n0] assms(2,3) by (simp add: negotiator_instance_def n0_def n1_def)
  have i2: "neg_subnegotiation ?N 0x28 [0x08, 0x02] n1 = n2"
    using send_device_type [of n1 dt lu d l] assms(2-8)
    by (simp add: negotiator_instance_def n0_def n1_def n2_def)
  have i3: "neg_subnegotiation ?N 0x28 ([0x02, 0x04] @ name) n2 = n3"
    using device_type_is [OF assms(9-12), of n2] by (simp add: negotiator_instance_def n3_def)
  have i4: "neg_subnegotiation ?N 0x28 ([0x03, 0x04] @ codes) n3 = n4"
    using functions_is [OF assms(16,15), of n3] by (simp add: negotiator_instance_def n4_def)
  have iac: "IAC \<notin> set ([0x08, 0x02] :: bytes)" "IAC \<notin> set ([0x02, 0x04] @ name)" "IAC \<notin> set ([0x03, 0x04] @ codes)"
    using assms(10,14) by (auto simp: list_all_iff word_less_nat_alt)
  have c: "0xFD \<in> set negotiation_commands" by (simp add: negotiation_commands_def)
  have opt: "0x28 \<noteq> IAC" by simp
  have "telnet_loop ?N ([IAC, 0xFD, 0x28] @ r1) [] s = telnet_loop ?N r1 [] (s\<lparr>negotiator := n1\<rparr>)"
    unfolding loop_option [OF c] by (simp only: n0_def [symmetric] i1)
  also have "\<dots> = telnet_loop ?N r2 [] (s\<lparr>negotiator := n2\<rparr>)"
    unfolding r1_def loop_subnegotiation [OF opt iac(1)] by (simp add: i2)
  also have "\<dots> = telnet_loop ?N r3 [] (s\<lparr>negotiator := n3\<rparr>)"
    unfolding r2_def loop_subnegotiation [OF opt iac(2)] using i3 by simp
  also have "\<dots> = telnet_loop ?N [] [] (s\<lparr>negotiator := n4\<rparr>)"
    unfolding r3_def loop_subnegotiation [OF opt iac(3)] using i4 by simp
  finally have "telnet_loop ?N (concat cs) [] s = ([], s\<lparr>negotiator := n4\<rparr>)"
    using assms(17) by (simp add: r1_def r2_def r3_def)
  then have "feed_telnet ?N (s, acc) (concat cs) = (s\<lparr>negotiator := n4\<rparr>, acc)"
    using assms(1) by (simp add: feed_telnet_eq s0)
  moreover have "foldl (feed_telnet ?N) (s, acc) cs = feed_telnet ?N (s, acc) (concat cs)"
    by (rule telnet_feed.feed_concat) (simp add: buffer_pending_def assms(1) s0)
  moreover have "ng_negotiated n4" "ng_complete n4"
    by (simp_all add: n4_def n3_def n2_def n1_def signal_functions_finishes)
  moreover have "ng_supports n4" "ng_device_type n4 = Some (map byte_char name)"
    "ng_functions n4 = int_from_bytes codes" "\<not> ng_forced_failure n4"
    "ng_out n4 = ng_out n0 @ [IAC, 0xFB, 0x28] @ [IAC, SB, 0x28, 0x02, 0x07] @ d @ [0x00] @ l @ [IAC, SE]"
    using assms(5,13) by (simp_all add: n4_def n3_def n2_def n1_def n0_def)
  ultimately show ?thesis
    by (simp add: n0_def validate_negotiation_completion_def)
qed

definition demo_neg :: neg where
  "demo_neg = the (Negotiator_init True True None None False [] True ''IBM-3278-2'' ''strict'')"

lemma demo_neg_facts:
  "ng_writer demo_neg" "ng_drains demo_neg" "ng_device_types demo_neg \<noteq> []" "\<not> ng_forced_failure demo_neg"
  "ng_terminal_type demo_neg = ''IBM-3278-2''" "\<not> ng_printer_session demo_neg" "ng_out demo_neg = []"
  "ng_pending demo_neg = []" "ng_handler demo_neg = None" "ng_allow_fallback demo_neg"
  "ng_force_mode demo_neg = None" "ng_functions demo_neg = 0" "ng_seq demo_neg = 0" "ng_failures demo_neg = 0"
  "\<not> ng_ascii demo_neg" "ng_strict demo_neg" "ng_lu_name demo_neg = None" "ng_device_type demo_neg = None"
  "ng_rows demo_neg = 24" "ng_cols demo_neg = 80"
  by code_simp+

definition demo_neg_telnet :: "neg telnet" where
  "demo_neg_telnet = \<lparr>telnet_buffer = [], negotiator = demo_neg, in_suspended_mode = False,
     in_3270_mode = True, has_writer = True, is_connected = True, sent = []\<rparr>"

theorem negotiation_over_network_witness:
  "let (s', data) = foldl (feed_telnet negotiator_instance) (demo_neg_telnet, [])
         [[0xFF], [0xFD, 0x28, 0xFF, 0xFA, 0x28, 0x08], [0x02, 0xFF, 0xF0, 0xFF, 0xFA, 0x28, 0x02, 0x04, 0x54, 0x31],
          [0xFF, 0xF0, 0xFF, 0xFA, 0x28, 0x03, 0x04, 0x00, 0x02, 0x04, 0x05, 0xFF, 0xF0]]
   in ng_negotiated (negotiator s') \<and> ng_device_type (negotiator s') = Some ''T1''"
proof -
  let ?cs = "[[0xFF], [0xFD, 0x28, 0xFF, 0xFA, 0x28, 0x08], [0x02, 0xFF, 0xF0, 0xFF, 0xFA, 0x28, 0x02, 0x04, 0x54, 0x31],
          [0xFF, 0xF0, 0xFF, 0xFA, 0x28, 0x03, 0x04, 0x00, 0x02, 0x04, 0x05, 0xFF, 0xF0]] :: bytes list"
  have t: "telnet_buffer demo_neg_telnet = []" "negotiator demo_neg_telnet = demo_neg"
    by (simp_all add: demo_neg_telnet_def)
  have r: "device_request ''IBM-3278-2'' False = (''IBM-3278-2-E'', ''TDC01702'')" by code_simp
  obtain d l where dl: "ascii_encode ''IBM-3278-2-E'' = Some d" "ascii_encode ''TDC01702'' = Some l"
    by (simp add: ascii_encode_def is_ascii_def)
  have nm: "map byte_char [0x54, 0x31] = ''T1''" by code_simp
  have p: "list_all (\<lambda>b. 0x20 \<le> b \<and> b < 0x7F) ([0x54, 0x31] :: bytes)" by simp
  have cs: "concat ?cs = [IAC, 0xFD, 0x28] @ [IAC, SB, 0x28] @ [0x08, 0x02] @ [IAC, SE]
           @ [IAC, SB, 0x28] @ ([0x02, 0x04] @ [0x54, 0x31]) @ [IAC, SE]
           @ [IAC, SB, 0x28] @ ([0x03, 0x04] @ [0x00, 0x02, 0x04, 0x05]) @ [IAC, SE]"
    by simp
  from negotiation_over_network [OF t(1) _ _ _ _ _ dl _ p _ _ _ _ _ _ cs, of "[]"] t(2) demo_neg_facts r nm
  show ?thesis by (simp add: Let_def case_prod_beta)
qed

text \<open>A new negotiator is in the invariant.\<close>

lemma Negotiator_init_ok: "Negotiator_init w p sc h pr f fb t m = Some n \<Longrightarrow> ng_ok n"
  by (auto simp: Negotiator_init_def ng_ok_def Let_def split: prod.splits if_splits)

end
