(* ===== verification/NegotiationFlow.thy ===== *)
theory NegotiationFlow
  imports NegotiationProps
begin

text \<open>
  Outcomes: what each option command is answered with, what a refusal of TN3270E leads to, how often
  a request is repeated, what the drivers of the negotiation and the SNA responses end with.
\<close>

section \<open>Options\<close>

text \<open>The answer to an option command.\<close>

definition option_answer :: "byte \<Rightarrow> byte \<Rightarrow> byte" where
  "option_answer c opt =
     (if c = 0xFB then (if opt \<in> set accepted_will then 0xFD else 0xFE)
      else if c = 0xFC then 0xFE
      else if c = 0xFD then (if opt \<in> set accepted_do then 0xFB else 0xFC)
      else 0xFC)"

lemma frames_out [simp]:
  "ng_out (refuse_tn3270e n) = ng_out n" "ng_out (stop_tn3270e n) = ng_out n"
  "ng_writer (refuse_tn3270e n) = ng_writer n" "ng_writer (stop_tn3270e n) = ng_writer n"
  "ng_drains (refuse_tn3270e n) = ng_drains n" "ng_drains (stop_tn3270e n) = ng_drains n"
  by (simp_all add: refuse_tn3270e_def stop_tn3270e_def signal_negotiation_complete_def set_negotiated_flag_def
      neg_set_ascii_mode_def handler_set_negotiated_def set_negotiated_tn3270e_def Let_def split: option.split)

lemma accepted_codes:
  "0x1F \<in> set accepted_do" "0x24 \<in> set accepted_do" "0x28 \<in> set accepted_do" "0x28 \<in> set accepted_will"
  by (simp_all add: accepted_do_def accepted_will_def)

lemma to_be16_total: "0 \<le> k \<Longrightarrow> k < 65536 \<Longrightarrow> \<exists>bs. to_be16 k = Some bs"
  by (simp add: to_be16_def)

text \<open>
  Every option command is answered at once and exactly once, without an exception: WILL with DO
  or DONT and DO with WILL or WONT, by the list of accepted options, a refusal with a refusal. Only a
  DO for the window size or the terminal location has a subnegotiation behind its answer.
\<close>

lemma options_answered:
  assumes "c \<in> set negotiation_commands" and "ng_writer n" and "ng_drains n"
    and "0 \<le> ng_rows n" and "ng_rows n < 65536" and "0 \<le> ng_cols n" and "ng_cols n < 65536"
    and "\<forall>l. ng_lu_name n = Some l \<longrightarrow> is_ascii l"
  shows "fst (handle_iac_command c opt n) = None
       \<and> (\<exists>more. ng_out (snd (handle_iac_command c opt n)) = ng_out n @ [IAC, option_answer c opt, opt] @ more
            \<and> (more = [] \<longleftrightarrow> \<not> (c = 0xFD \<and> opt \<in> {0x1F, 0x24})))"
proof -
  consider "c = 0xFB" | "c = 0xFC" | "c = 0xFD" | "c = 0xFE"
    using assms(1) by (auto simp: negotiation_commands_def)
  then show ?thesis
  proof cases
    case 3
    obtain w h where wh: "to_be16 (ng_cols n) = Some w" "to_be16 (ng_rows n) = Some h"
      using to_be16_total assms(4-7) by blast
    have "\<exists>lu. (case ng_lu_name n of None \<Rightarrow> Some [] | Some l \<Rightarrow> ascii_encode l) = Some lu"
      using assms(8) by (cases "ng_lu_name n") (simp_all add: ascii_encode_def)
    then obtain lu where lu: "(case ng_lu_name n of None \<Rightarrow> Some [] | Some l \<Rightarrow> ascii_encode l) = Some lu" ..
    show ?thesis
      using 3 assms(2,3) wh lu
      by (simp add: handle_iac_command_def handle_do_def step_with_def no_step_def when_writer_def send_iac_def
          put_def safe_drain_writer_def writer_drain_def send_naws_subnegotiation_def send_lu_name_is_def
          send_subnegotiation_def option_answer_def accepted_codes)
  qed (use assms(2,3) in \<open>simp_all add: handle_iac_command_def handle_will_def handle_wont_def handle_dont_def
          step_with_def when_writer_def send_iac_def put_def safe_drain_writer_def option_answer_def accepted_codes\<close>)
qed

text \<open>
  So a refusal that is answered with a refusal is answered again: two sides of this kind never stop.
\<close>

lemma refusals_never_end:
  assumes "ng_writer a" and "ng_writer b" and "opt \<noteq> 0x28"
  shows "ng_out (snd (handle_wont opt a)) = ng_out a @ [IAC, 0xFE, opt]
       \<and> ng_out (snd (handle_dont opt b)) = ng_out b @ [IAC, 0xFC, opt]"
  using assms by (simp add: handle_wont_def handle_dont_def step_with_def when_writer_def send_iac_def put_def
      safe_drain_writer_def split: option.split)

section \<open>Refusals\<close>

text \<open>
  What a refusal of TN3270E leads to. WONT with the fallback allowed and no 3270 mode forced:
  ASCII mode, TN3270E not negotiated, the negotiation complete. WONT with TN3270E forced and no
  fallback: the failure is recorded, but the flag says negotiated. DONT: the flag says negotiated and
  the host is recorded as supporting TN3270E, which it has just refused.
\<close>

lemma refusal_outcome:
  "(ng_force_mode n \<notin> {Some Force_tn3270, Some Force_tn3270e} \<and> ng_allow_fallback n \<longrightarrow>
      (let w = snd (handle_wont 0x28 n)
       in ng_ascii w \<and> \<not> ng_negotiated w \<and> \<not> ng_supports w \<and> ng_complete w
        \<and> (\<forall>h. ng_handler w = Some h \<longrightarrow> hv_ascii h \<and> \<not> hv_negotiated h)))
   \<and> (ng_force_mode n = Some Force_tn3270e \<and> \<not> ng_allow_fallback n \<longrightarrow>
      (let w = snd (handle_wont 0x28 n)
       in ng_forced_failure w \<and> ng_negotiated w \<and> ng_complete w \<and> \<not> validate_negotiation_completion w))
   \<and> (let d = snd (handle_dont 0x28 n) in ng_negotiated d \<and> ng_supports d \<and> ng_complete d)"
proof -
  have wont: "ng_ascii (snd (handle_wont 0x28 n)) = ng_ascii (refuse_tn3270e n)"
    "ng_negotiated (snd (handle_wont 0x28 n)) = ng_negotiated (refuse_tn3270e n)"
    "ng_supports (snd (handle_wont 0x28 n)) = ng_supports (refuse_tn3270e n)"
    "ng_complete (snd (handle_wont 0x28 n)) = ng_complete (refuse_tn3270e n)"
    "ng_forced_failure (snd (handle_wont 0x28 n)) = ng_forced_failure (refuse_tn3270e n)"
    "ng_handler (snd (handle_wont 0x28 n)) = ng_handler (refuse_tn3270e n)"
    by (simp_all add: handle_wont_def step_with_def put_def safe_drain_writer_def)
  have dont: "ng_negotiated (snd (handle_dont 0x28 n)) = ng_negotiated (stop_tn3270e n)"
    "ng_supports (snd (handle_dont 0x28 n)) = ng_supports (stop_tn3270e n)"
    "ng_complete (snd (handle_dont 0x28 n)) = ng_complete (stop_tn3270e n)"
    by (simp_all add: handle_dont_def step_with_def when_writer_def send_iac_def put_def safe_drain_writer_def)
  have "ng_negotiated (stop_tn3270e n) \<and> ng_supports (stop_tn3270e n) \<and> ng_complete (stop_tn3270e n)"
    by (simp add: stop_tn3270e_def signal_negotiation_complete_def)
  moreover have "ng_forced_failure (refuse_tn3270e n) \<and> ng_negotiated (refuse_tn3270e n) \<and> ng_complete (refuse_tn3270e n)"
    if "ng_force_mode n = Some Force_tn3270e" "\<not> ng_allow_fallback n"
    using that by (simp add: refuse_tn3270e_def signal_negotiation_complete_def Let_def)
  moreover have "ng_ascii (refuse_tn3270e n) \<and> \<not> ng_negotiated (refuse_tn3270e n)
      \<and> \<not> ng_supports (refuse_tn3270e n) \<and> ng_complete (refuse_tn3270e n)
      \<and> (\<forall>h. ng_handler (refuse_tn3270e n) = Some h \<longrightarrow> hv_ascii h \<and> \<not> hv_negotiated h)"
    if "ng_force_mode n \<notin> {Some Force_tn3270, Some Force_tn3270e}" "ng_allow_fallback n"
    using that
    by (auto simp: refuse_tn3270e_def signal_negotiation_complete_def signal_device_event_def
        signal_functions_event_def maybe_finalize_negotiation_def neg_set_ascii_mode_def set_negotiated_flag_def Let_def)
  ultimately show ?thesis
    unfolding Let_def by (simp add: wont dont validate_negotiation_completion_def)
qed

section \<open>The environment\<close>

lemma unescape_clean: "0x02 \<notin> set w \<Longrightarrow> unescape w = w"
  by (induction w rule: unescape.induct) auto

lemma take_drop_clean:
  "\<forall>x\<in>set w. P x \<Longrightarrow> \<not> P b \<Longrightarrow> takeWhile P (w @ b # r) = w \<and> dropWhile P (w @ b # r) = b # r"
  by (induction w) auto

lemma take_drop_end: "\<forall>x\<in>set w. P x \<Longrightarrow> takeWhile P w = w \<and> dropWhile P w = []"
  by (induction w) auto

text \<open>One variable with a name and a value free of markers, at the end or before another one.\<close>

lemma parse_variable:
  assumes "\<forall>b\<in>set nm. b \<notin> {0x00, 0x01, 0x02, 0x03}" and "\<forall>b\<in>set v. b \<notin> {0x00, 0x01, 0x02, 0x03}"
    and "r = [] \<or> hd r \<in> {0x00, 0x03}"
  shows "parse_new_environ (0x00 # nm @ 0x01 # v @ r) vars
       = parse_new_environ r (AList.update (decode_replace nm) (decode_replace v) vars)"
proof -
  let ?P = "\<lambda>x :: byte. x \<notin> {0x01, 0x00, 0x03, 0x02}" and ?Q = "\<lambda>x :: byte. x \<notin> {0x00, 0x03, 0x02}"
  have n: "takeWhile ?P (nm @ 0x01 # v @ r) = nm" "dropWhile ?P (nm @ 0x01 # v @ r) = 0x01 # v @ r"
    using take_drop_clean [of nm ?P "0x01" "v @ r"] assms(1) by auto
  have q: "\<forall>x\<in>set v. ?Q x" using assms(2) by auto
  have w: "takeWhile ?Q (v @ r) = v" "dropWhile ?Q (v @ r) = r"
    using take_drop_clean [OF q, of "hd r" "tl r"] take_drop_end [OF q] assms(3) by (cases r; auto)+
  have u: "unescape nm = nm" "unescape v = v" using assms(1,2) by (auto intro!: unescape_clean)
  show ?thesis
    by (subst parse_new_environ.simps) (simp add: n [simplified] w [simplified] u Let_def)
qed

lemma clean_code: "4 \<le> (of_char c :: nat) \<Longrightarrow> (of_char c :: nat) < 128 \<Longrightarrow>
    char_byte c \<notin> {0x00, 0x01, 0x02, 0x03} \<and> unat (char_byte c) = of_char c \<and> char_byte c < 0x80"
proof -
  assume a: "4 \<le> (of_char c :: nat)" "(of_char c :: nat) < 128"
  have u: "unat (char_byte c) = of_char c"
    using nat_of_char_less_256 [of c] by (simp add: char_byte_def unat_of_nat)
  then show ?thesis using a by (auto simp: word_less_nat_alt)
qed

text \<open>
  The environment the client sends is read back by its own parser as it was meant: the terminal
  type under TERM and the client's name under USER, for every terminal type of ASCII characters other
  than the four markers.
\<close>

lemma environ_roundtrip:
  assumes "list_all (\<lambda>c. 4 \<le> (of_char c :: nat) \<and> (of_char c :: nat) < 128) t"
  shows "parse_new_environ (tl (new_environ_response t)) []
       = [(map of_char ''TERM'', map of_char t), (map of_char ''USER'', map of_char ''pure3270'')]"
proof -
  have e: "(\<forall>b\<in>set (encode_replace s). b \<notin> {0x00, 0x01, 0x02, 0x03})
      \<and> decode_replace (encode_replace s) = map of_char s"
    if "list_all (\<lambda>c. 4 \<le> (of_char c :: nat) \<and> (of_char c :: nat) < 128) s" for s
    using that clean_code by (auto simp: encode_replace_def decode_replace_def list_all_iff)
  note t = e [OF assms]
  have k: "list_all (\<lambda>c. 4 \<le> (of_char c :: nat) \<and> (of_char c :: nat) < 128) ''TERM''"
    "list_all (\<lambda>c. 4 \<le> (of_char c :: nat) \<and> (of_char c :: nat) < 128) ''USER''"
    "list_all (\<lambda>c. 4 \<le> (of_char c :: nat) \<and> (of_char c :: nat) < 128) ''pure3270''" by simp_all
  let ?u = "0x00 # encode_replace ''USER'' @ 0x01 # encode_replace ''pure3270'' @ []"
  have r: "tl (new_environ_response t) = 0x00 # encode_replace ''TERM'' @ 0x01 # encode_replace t @ ?u"
    by (simp add: new_environ_response_def)
  have "parse_new_environ (tl (new_environ_response t)) [] = parse_new_environ ?u [(map of_char ''TERM'', map of_char t)]"
    using parse_variable [of "encode_replace ''TERM''" "encode_replace t" ?u "[]"] t e [OF k(1)]
    unfolding r by (simp del: list.map)
  also have "\<dots> = [(map of_char ''TERM'', map of_char t), (map of_char ''USER'', map of_char ''pure3270'')]"
  proof -
    have "parse_new_environ ?u vars = parse_new_environ []
        (AList.update (decode_replace (encode_replace ''USER'')) (decode_replace (encode_replace ''pure3270'')) vars)" for vars
      by (rule parse_variable) (use e [OF k(2)] e [OF k(3)] in simp_all)
    then show ?thesis using e [OF k(2)] e [OF k(3)] by (simp add: parse_new_environ.simps(1))
  qed
  finally show ?thesis .
qed

text \<open>An escaped byte ends its name, and the value behind it is lost.\<close>

lemma escaped_variable_lost:
  "parse_new_environ [0x00, 0x41, 0x02, 0x03, 0x42, 0x01, 0x43] [] = [([0x41], []), ([0x42], [0x43])]"
  by code_simp

section \<open>Traces\<close>

text \<open>
  The inference from a trace takes 0x24, the terminal location, for TN3270E when it looks for a
  refusal: a host that refuses TN3270E counts as supporting it, one that only refuses the terminal
  location does not.
\<close>

lemma inference_misses_refusal:
  "infer_tn3270e_from_trace [0xFF, 0xFC, 0x28, 0xFF, 0xFB, 0x19]
   \<and> \<not> infer_tn3270e_from_trace [0xFF, 0xFD, 0x28, 0xFF, 0xFC, 0x24]"
  by code_simp

section \<open>Requests\<close>

lemma resend_frame:
  "ng_pending (snd (resend_request k n)) = ng_pending n"
proof -
  have d: "ng_pending (snd (send_supported_device_types n)) = ng_pending n"
    by (auto simp: send_supported_device_types_def step_with_def send_subnegotiation_def put_def safe_drain_writer_def
        split: option.split prod.split)
  have "ng_pending (functions_sent m) = ng_pending m" for m
    by (simp add: functions_sent_def handler_set_negotiated_def set_negotiated_tn3270e_def set_negotiated_flag_def
        Let_def split: option.split)
  then have "ng_pending (snd (send_functions_is n)) = ng_pending n"
    by (auto simp: send_functions_is_def step_with_def when_writer_def send_subnegotiation_def put_def
        safe_drain_writer_def set_functions_def Let_def)
  with d show ?thesis by (simp add: resend_request_def no_step_def)
qed

lemma map_of_delete: "distinct (map fst ps) \<Longrightarrow> map_of (AList.delete k ps) k = None"
  by (simp add: AList.delete_conv')

text \<open>The number of times a request is repeated.\<close>

definition request_limit :: "pending_request \<Rightarrow> nat" where
  "request_limit r = (if rq_type r = ''DEVICE-TYPE SEND'' then 2 else 3)"

text \<open>
  A negative response to a pending request: while its limit, two for device types and three for
  functions, is not reached, the request stays pending with its count raised by one and is sent
  again; then it is forgotten, nothing is sent, and the exception of the header is raised. So the
  host cannot make the client repeat a request for ever.
\<close>

lemma negative_responses_bounded:
  assumes "map_of (ng_pending n) (h_seq_number h) = Some r"
    and "rq_type r = ''DEVICE-TYPE SEND'' \<or> rq_type r = ''FUNCTIONS SEND''"
    and "is_negative_response h"
  shows "let (e, n') = handle_tn3270e_response h d n
         in if rq_retries r < request_limit r
            then map_of (ng_pending n') (h_seq_number h) = Some (r\<lparr>rq_retries := rq_retries r + 1\<rparr>)
            else e = Some (N_response (handle_negative_response h d)) \<and> ng_out n' = ng_out n
               \<and> map_of (ng_pending n') (h_seq_number h) = None"
proof -
  let ?k = "h_seq_number h"
  let ?n = "n\<lparr>ng_pending := AList.delete ?k (ng_pending n)\<rparr>"
  have r: "handle_tn3270e_response h d n = retry_request (request_limit r) ?k r h d ?n"
    using assms by (auto simp: handle_tn3270e_response_def request_limit_def Let_def)
  show ?thesis
  proof (cases "rq_retries r < request_limit r")
    case True
    let ?m = "?n\<lparr>ng_pending := AList.update ?k (r\<lparr>rq_retries := rq_retries r + 1\<rparr>) (ng_pending ?n)\<rparr>"
    obtain e n' where s: "resend_request (rq_type r) ?m = (e, n')" by (cases "resend_request (rq_type r) ?m") blast
    with resend_frame [of "rq_type r" ?m] have "ng_pending n' = ng_pending ?m" by simp
    then have p: "map_of (ng_pending n') ?k = Some (r\<lparr>rq_retries := rq_retries r + 1\<rparr>)"
      by (simp add: AList.update_conv')
    have "retry_request (request_limit r) ?k r h d ?n = (e, n')"
      using True s by (cases e) (simp_all add: retry_request_def step_with_def)
    with r p True show ?thesis by simp
  next
    case False
    then show ?thesis
      unfolding r by (simp add: retry_request_def fail_with_def AList.delete_conv')
  qed
qed

section \<open>Retries and phases\<close>

text \<open>
  Retrying: an operation that does not touch the counters runs at most once more than the number
  of retries allowed. After a success the connection counts as up and without failures; after a
  failure the last exception is either not one to retry or the attempts are used up.
\<close>

lemma retry_loop_outcome:
  assumes "\<And>a m. ng_total_failures (snd (op a m)) = ng_total_failures m"
    and "retry_loop op k a n = (e, n')"
  shows "ng_total_failures n' \<le> ng_total_failures n + k + 1
       \<and> (e = None \<longrightarrow> ng_connected n' \<and> ng_failures n' = 0 \<and> ng_total_failures n' \<le> ng_total_failures n + k)
       \<and> (\<forall>x. e = Some x \<longrightarrow> \<not> ng_connected n'
             \<and> (is_retryable_error x \<longrightarrow> ng_total_failures n' = ng_total_failures n + k + 1))"
  using assms(2)
proof (induction k arbitrary: a n)
  case 0
  let ?n = "if a > 0 then n\<lparr>ng_recovery_attempts := ng_recovery_attempts n + 1\<rparr> else n"
  obtain x m where o: "op a ?n = (x, m)" by (cases "op a ?n") blast
  with assms(1) [of a ?n] have "ng_total_failures m = ng_total_failures n" by simp
  with o 0 show ?case
    by (cases x) (auto simp: retry_loop.simps [of op 0] update_connection_state_def Let_def split: if_splits)
next
  case (Suc k)
  let ?n = "if a > 0 then n\<lparr>ng_recovery_attempts := ng_recovery_attempts n + 1\<rparr> else n"
  obtain x m where o: "op a ?n = (x, m)" by (cases "op a ?n") blast
  with assms(1) [of a ?n] have t: "ng_total_failures m = ng_total_failures n" by simp
  show ?case
  proof (cases "\<exists>y. x = Some y \<and> is_retryable_error y")
    case True
    then have r: "retry_loop op k (a + 1) (update_connection_state False m) = (e, n')"
      using o Suc.prems by (auto simp: retry_loop.simps [of op "Suc k"] Let_def)
    have "ng_total_failures (update_connection_state False m) = ng_total_failures n + 1"
      using t by (simp add: update_connection_state_def)
    with Suc.IH [OF r] show ?thesis by auto
  next
    case False
    with o t Suc.prems show ?thesis
      by (cases x) (auto simp: retry_loop.simps [of op "Suc k"] update_connection_state_def Let_def split: if_splits)
  qed
qed

lemma conclude_state:
  assumes "\<not> ng_forced_failure n"
  shows "\<exists>n'. conclude n = (None, n') \<and> ng_negotiated n' \<and> ng_supports n' \<and> ng_complete n' \<and> ng_ascii n' = ng_ascii n
          \<and> ng_device_type n' = ng_device_type n \<and> ng_forced_failure n' = ng_forced_failure n"
proof -
  define m where "m = after_events n"
  define k where "k = (if ng_printer_session m \<and> ng_parser m then m\<lparr>ng_sna := SNA_NORMAL\<rparr> else m)"
  have hs: "ng_ascii (handler_set_negotiated v x) = ng_ascii x \<and> ng_device_type (handler_set_negotiated v x) = ng_device_type x
      \<and> ng_forced_failure (handler_set_negotiated v x) = ng_forced_failure x" for v x
    by (simp add: handler_set_negotiated_def set_negotiated_tn3270e_def set_negotiated_flag_def Let_def split: option.split)
  have "ng_ascii m = ng_ascii n" "ng_device_type m = ng_device_type n" "ng_forced_failure m = ng_forced_failure n"
    by (simp_all add: m_def after_events_def hs)
  then have k: "ng_ascii k = ng_ascii n" "ng_device_type k = ng_device_type n" "ng_forced_failure k = ng_forced_failure n"
    by (simp_all add: k_def)
  have d: "ng_ascii (decide_mode k) = ng_ascii k \<and> ng_device_type (decide_mode k) = ng_device_type k
      \<and> ng_forced_failure (decide_mode k) = ng_forced_failure k"
    by (simp add: decide_mode_def hs)
  have "conclude n = (None, signal_negotiation_complete True (decide_mode k))"
    by (simp add: conclude_def step_with_def m_def [symmetric] k_def handle_sna_response_def printer_response_def)
  with d k show ?thesis by (simp add: signal_negotiation_complete_def)
qed

lemma perform_success:
  assumes "ng_writer n" and "await_events arrives n = (True, n1)" and "\<not> ng_forced_failure n1"
  shows "perform_tn3270_negotiation arrives n = conclude n1"
  using assms by (simp add: perform_tn3270_negotiation_def)

lemma perform_timeout:
  assumes "ng_writer n" and "await_events arrives n = (False, n1)" and "ng_allow_fallback n1"
  shows "\<exists>n'. perform_tn3270_negotiation arrives n = (None, n') \<and> \<not> ng_negotiated n' \<and> ng_complete n'
           \<and> (ng_handler n1 = None \<longrightarrow> ng_ascii n')"
  using assms by (auto simp: perform_tn3270_negotiation_def negotiation_timed_out_def set_all_events_def
      set_negotiated_flag_def Let_def)

text \<open>
  The second phase with no mode forced, whatever arrives during its waits. When all three events
  come, it ends normally with the flag set and the host recorded as supporting TN3270E, even if it
  has just refused and ASCII mode is active; such a state is not a consistent one. When a wait times
  out with the fallback allowed, it ends normally too, without the flag, and in ASCII mode if there
  is no handler.
\<close>

lemma second_phase_outcome:
  assumes "ng_force_mode n = None" and "validate_connection_state n"
    and "\<not> (ng_forced_failure n \<and> \<not> ng_allow_fallback n)"
    and "await_events (arrives 0) n = (arrived, n1)" and "\<not> ng_forced_failure n1" and "ng_allow_fallback n1"
  shows "let (e, n') = negotiate_tn3270 arrives n
         in e = None \<and> ng_complete n' \<and> ng_negotiated n' = arrived
          \<and> (arrived \<longrightarrow> ng_supports n' \<and> ng_ascii n' = ng_ascii n1 \<and> (ng_ascii n1 \<longrightarrow> \<not> validate_negotiation_state n'))
          \<and> (\<not> arrived \<and> ng_handler n1 = None \<longrightarrow> ng_ascii n')"
proof -
  have w: "ng_writer n" using assms(2) by (simp add: validate_connection_state_def)
  obtain n' where p: "perform_tn3270_negotiation (arrives 0) n = (None, n')"
    "ng_complete n'" "ng_negotiated n' = arrived" "arrived \<longrightarrow> ng_supports n' \<and> ng_ascii n' = ng_ascii n1"
    "\<not> arrived \<and> ng_handler n1 = None \<longrightarrow> ng_ascii n'"
  proof (cases arrived)
    case True
    with assms(4) have "await_events (arrives 0) n = (True, n1)" by simp
    from perform_success [OF w this assms(5)] conclude_state [OF assms(5)] True that show thesis by auto
  next
    case False
    with assms(4) have "await_events (arrives 0) n = (False, n1)" by simp
    from perform_timeout [OF w this assms(6)] False that show thesis by auto
  qed
  let ?n = "update_connection_state True n'"
  have "negotiate_tn3270 arrives n = (None, ?n)"
    using assms(1-3) p(1) by (simp add: negotiate_tn3270_def retry_with_backoff_def retry_loop.simps)
  then show ?thesis
    using p(2-) by (auto simp: update_connection_state_def validate_negotiation_state_def)
qed

section \<open>SNA responses\<close>

lemma negotiate_outcome:
  "fst (negotiate n) = None \<longleftrightarrow> validate_connection_state n \<and> ng_drains n"
proof -
  have "validate_connection_state n \<Longrightarrow> ng_writer n" by (simp add: validate_connection_state_def)
  then show ?thesis
    by (auto simp: negotiate_def retry_with_backoff_def retry_loop.simps perform_negotiation_def safe_drain_writer_def
        is_retryable_error_def Let_def split: option.split)
qed

lemma renegotiate_sna:
  "ng_sna (renegotiate n) = (if validate_connection_state n \<and> ng_drains n then SNA_NORMAL else SNA_SESSION_DOWN)"
proof -
  obtain e n' where n: "negotiate n = (e, n')" by (cases "negotiate n") blast
  with negotiate_outcome [of n] have "e = None \<longleftrightarrow> validate_connection_state n \<and> ng_drains n" by simp
  with n show ?thesis by (cases e) (auto simp: renegotiate_def)
qed

lemma lu_busy_sna:
  "ng_sna (handle_lu_busy n) = (if is_bind_image_active n then SNA_NORMAL else SNA_PENDING_RECOVERY)"
proof -
  have b: "is_bind_image_active (n\<lparr>ng_sna := SNA_PENDING_RECOVERY\<rparr>) = is_bind_image_active n"
    by (simp add: is_bind_image_active_def split: option.split)
  have "ng_sna (lu_busy_rounds (Suc k) m) = (if is_bind_image_active m then SNA_NORMAL else ng_sna m)" for k m
  proof (induction k)
    case 0
    show ?case by simp
  next
    case (Suc k)
    then show ?case by (subst lu_busy_rounds.simps(2)) (cases "is_bind_image_active m"; simp)
  qed
  from this [of 2] b show ?thesis by (simp add: handle_lu_busy_def numeral_3_eq_3)
qed

text \<open>
  The state an SNA response leads to depends on its sense code and not on the state before. A busy
  LU without an active bind image leaves the session in recovery for good; a session failure or a
  state error ends in the normal state exactly when the connection can be used; a response without a
  sense code, a positive one included, changes nothing.
\<close>

lemma sna_outcome:
  "ng_sna (snd (handle_sna_response r n))
     = (case sna_sense r of
          None \<Rightarrow> ng_sna n
        | Some c \<Rightarrow>
            if c = 0x0000 \<or> c = 0x1008 then SNA_NORMAL
            else if c = 0x080A then (if is_bind_image_active n then SNA_NORMAL else SNA_PENDING_RECOVERY)
            else if c = 0x082A \<or> c = 0x1003
            then (if validate_connection_state n \<and> ng_drains n then SNA_NORMAL else SNA_SESSION_DOWN)
            else SNA_ERROR)"
  by (auto simp: handle_sna_response_def lu_busy_sna renegotiate_sna handle_state_error_def
      handle_sequence_error_def is_bind_image_active_def validate_connection_state_def split: option.split)

text \<open>The table of allowed transitions is not consulted: some of these steps are not in it.\<close>

lemma sna_table_ignored:
  "ng_sna (snd (handle_sna_response (printer_response\<lparr>sna_sense := Some 0x080A\<rparr>) (demo_neg\<lparr>ng_sna := SNA_ERROR\<rparr>)))
     = SNA_PENDING_RECOVERY
   \<and> \<not> validate_sna_state_transition SNA_ERROR SNA_LU_BUSY
   \<and> \<not> validate_sna_state_transition SNA_LU_BUSY SNA_PENDING_RECOVERY"
  by code_simp

section \<open>Functions\<close>

lemma functions_frame:
  "ng_raw_functions (signal_functions n) = ng_raw_functions n"
  "ng_raw_functions (record_functions d n) = Some d"
  "ng_writer (record_functions d n) = ng_writer n" "ng_drains (record_functions d n) = ng_drains n"
  "ng_writer (functions_sent n) = ng_writer n" "ng_drains (functions_sent n) = ng_drains n"
  "ng_out (functions_sent n) = ng_out n"
  "ng_writer (mark_negotiated n) = ng_writer n" "ng_drains (mark_negotiated n) = ng_drains n"
  "ng_out (mark_negotiated n) = ng_out n" "ng_raw_functions (mark_negotiated n) = ng_raw_functions n"
  "ng_functions (mark_negotiated n) = ng_functions n"
  by (simp_all add: signal_functions_event_def maybe_finalize_negotiation_def record_functions_def set_functions_def
      functions_sent_def mark_negotiated_def handler_set_negotiated_def set_negotiated_tn3270e_def
      set_negotiated_flag_def Let_def split: option.split)

text \<open>
  A FUNCTIONS SEND is read twice: the functions are answered with IS, and then the list without its
  first code is taken over and requested.
\<close>

lemma functions_send_drops_first:
  assumes "ng_writer n" and "ng_drains n" and "length codes > 3" and "length codes \<le> 253"
  shows "let n' = snd (handle_subnegotiation 0x28 ([0x03, 0x08] @ codes) n)
         in ng_raw_functions n' = Some (tl codes) \<and> ng_functions n' = int_from_bytes (tl codes)
          \<and> ng_out n' = ng_out n @ [IAC, SB, 0x28, 0x03, 0x04] @ codes @ [IAC, SE]
                                 @ [IAC, SB, 0x28, 0x03, 0x07] @ tl codes @ [IAC, SE]"
proof -
  have t: "codes \<noteq> []" "tl codes \<noteq> []" using assms(3) by (cases codes; cases "tl codes"; auto)+
  have "bare_header (0x03 # 0x08 # codes) (0x03 # 0x08 # codes) = None"
    using no_header [of "0x03" codes "0x08"] assms(3) by simp
  then have u: "handle_subnegotiation 0x28 ([0x03, 0x08] @ codes) n = functions_command (0x08 # codes) n"
    using assms(4) by (simp add: handle_subnegotiation_def MAX_SUBPAYLOAD_BYTES_def
        parse_tn3270e_subnegotiation_def tn3270e_command_def)
  define m1 where "m1 = signal_functions (record_functions codes n)"
  define m2 where "m2 = functions_sent (send_subnegotiation 0x28 ([0x03, 0x04] @ codes) (set_functions codes m1))"
  define m3 where "m3 = signal_functions (record_functions (tl codes) (mark_negotiated m2))"
  have m1: "ng_raw_functions m1 = Some codes" "ng_writer m1" "ng_drains m1" "ng_out m1 = ng_out n"
    using assms(1,2) by (simp_all add: m1_def functions_frame)
  then have is_sent: "send_functions_is m1 = (None, m2)"
    using t by (simp add: send_functions_is_def functions_data_def step_with_def when_writer_def
        safe_drain_writer_def send_subnegotiation_def put_def set_functions_def m2_def)
  have m2: "ng_writer m2" "ng_drains m2" "ng_out m2 = ng_out n @ [IAC, SB, 0x28, 0x03, 0x04] @ codes @ [IAC, SE]"
    using m1 by (simp_all add: m2_def functions_frame send_subnegotiation_def put_def set_functions_def)
  have m3: "ng_raw_functions m3 = Some (tl codes)" "ng_functions m3 = int_from_bytes (tl codes)"
    "ng_writer m3" "ng_drains m3" "ng_out m3 = ng_out m2"
    using m2 t by (simp_all add: m3_def functions_frame)
  then have r: "send_functions_request m3 = (None, send_subnegotiation 0x28 ([0x03, 0x07] @ tl codes) m3)"
    using t by (simp add: send_functions_request_def functions_data_def step_with_def when_writer_def
        safe_drain_writer_def send_subnegotiation_def put_def)
  have "functions_command (0x08 # codes) n
      = (None, mark_negotiated (send_subnegotiation 0x28 ([0x03, 0x07] @ tl codes) m3))"
    using is_sent r by (simp add: functions_command_def step_with_def m1_def [symmetric] m3_def [symmetric] drop_Suc)
  with u m2 m3 show ?thesis by (simp add: functions_frame send_subnegotiation_def put_def)
qed

text \<open>ASSOCIATE has the code of IS: the name of the associated display becomes the device type.\<close>

lemma associate_unreachable:
  assumes "device_name d \<noteq> []" and "device_name d \<noteq> ''IBM-DYNAMIC''"
  shows "device_type_command (0x04 # d) n = (None, signal_device (n\<lparr>ng_device_type := Some (device_name d)\<rparr>))
       \<and> ng_associated_lu (snd (device_type_command (0x04 # d) n)) = ng_associated_lu n"
  using assms
  by (simp add: device_type_command_def device_is_def step_with_def no_step_def signal_device_event_def
      maybe_finalize_negotiation_def set_negotiated_flag_def Let_def)

end
