(* ===== verification/PrintJobs.thy ===== *)
theory PrintJobs
  imports Header3270E
begin

text \<open>
  \<open>pure3270/protocol/print_job_detector.py\<close>: the detector that separates print data from session
  data of a printer session. The log messages are left out.
\<close>

section \<open>Operations\<close>

record print_detector =
  in_print_job :: bool
  print_job_start_pos :: int
  current_job_data :: "bytes list"
  job_sequence_number :: int
  last_header :: "TN3270EHeader option"

definition PrintJobDetector_init :: print_detector where
  "PrintJobDetector_init = \<lparr>in_print_job = False, print_job_start_pos = 0, current_job_data = [],
     job_sequence_number = 0, last_header = None\<rparr>"

definition scs_indicators :: "byte list" where
  "scs_indicators = [0x01, 0x0C, 0x0D, 0x0A, 0x09, 0x2B, 0x2D]"

definition contains_scs_indicators :: "bytes \<Rightarrow> bool" where
  "contains_scs_indicators data \<longleftrightarrow>
     length data \<ge> 2
   \<and> (data ! 0 \<in> set scs_indicators
      \<or> length (filter (\<lambda>b. b < 0x20 \<or> b = 0x40) (take 20 data)) \<ge> 3)"

definition start_print_job :: "print_detector \<Rightarrow> print_detector" where
  "start_print_job d = d\<lparr>in_print_job := True, print_job_start_pos := 0, current_job_data := [],
     job_sequence_number := job_sequence_number d + 1\<rparr>"

definition end_print_job :: "print_detector \<Rightarrow> print_detector" where
  "end_print_job d = d\<lparr>in_print_job := False\<rparr>"

definition ensure_print_job :: "print_detector \<Rightarrow> print_detector" where
  "ensure_print_job d = (if \<not> in_print_job d then start_print_job d else d)"

definition detect_by_content :: "bytes \<Rightarrow> print_detector \<Rightarrow> bool \<times> print_detector" where
  "detect_by_content data d =
     (if contains_scs_indicators data then (True, ensure_print_job d) else (in_print_job d, d))"

definition detect_print_job ::
    "bytes \<Rightarrow> TN3270EHeader option \<Rightarrow> print_detector \<Rightarrow> bool \<times> print_detector" where
  "detect_print_job data header d =
     (case header of
        None \<Rightarrow> detect_by_content data d
      | Some h \<Rightarrow>
          (let d1 = d\<lparr>last_header := Some h\<rparr>
           in if h_data_type h = 0x01 then (True, ensure_print_job d1)
              else if h_data_type h = 0x08
                then (True, if in_print_job d1 then end_print_job d1 else d1)
              else if h_data_type h = 0x00 \<and> contains_scs_indicators data
                then (True, ensure_print_job d1)
              else detect_by_content data d1))"

definition extract_embedded_scs :: "bytes \<Rightarrow> bytes \<times> bytes" where
  "extract_embedded_scs data = (if contains_scs_indicators data then ([], data) else (data, []))"

definition extract_print_data ::
    "bytes \<Rightarrow> TN3270EHeader option \<Rightarrow> print_detector \<Rightarrow> (bytes \<times> bytes) \<times> print_detector" where
  "extract_print_data data header d =
     (case detect_print_job data header d of
        (False, d1) \<Rightarrow> ((data, []), d1)
      | (True, d1) \<Rightarrow>
          if in_print_job d1
          then (([], data), d1\<lparr>current_job_data := current_job_data d1 @ [data]\<rparr>)
          else (case header of
                  Some h \<Rightarrow>
                    if h_data_type h = 0x00
                    then (let (session_data, print_data) = extract_embedded_scs data
                          in ((session_data, print_data),
                              if print_data \<noteq> []
                              then d1\<lparr>current_job_data := current_job_data d1 @ [print_data]\<rparr> else d1))
                    else ((data, []), d1)
                | None \<Rightarrow> ((data, []), d1)))"

definition get_current_job_data :: "print_detector \<Rightarrow> bytes" where
  "get_current_job_data d = concat (current_job_data d)"

definition reset_detector :: "print_detector \<Rightarrow> print_detector" where
  "reset_detector d =
     d\<lparr>in_print_job := False, print_job_start_pos := 0, current_job_data := [], last_header := None\<rparr>"

section \<open>Properties\<close>

lemma in_ensured_job [simp]: "in_print_job (ensure_print_job d)"
  by (simp add: ensure_print_job_def start_print_job_def)

lemma detect_keeps_or_starts:
  assumes "in_print_job d" and "\<forall>h. header = Some h \<longrightarrow> h_data_type h \<noteq> 0x08"
  shows "detect_print_job data header d
     = (True, case header of None \<Rightarrow> d | Some h \<Rightarrow> d\<lparr>last_header := Some h\<rparr>)"
  using assms
  by (auto simp: detect_print_job_def detect_by_content_def ensure_print_job_def Let_def split: option.split)

text \<open>
  Nothing is lost or doubled: the session data and the print data of a chunk joined are the
  chunk, one of them is empty, and print data is added to the current job, which the chunk may
  have started anew.
\<close>

lemma extract_partitions_data:
  assumes "extract_print_data data header d = ((session, print), d')"
  shows "session @ print = data \<and> (session = [] \<or> print = [])
       \<and> (print \<noteq> [] \<longrightarrow> in_print_job d' \<and>
            get_current_job_data d' = (if in_print_job d then get_current_job_data d else []) @ data)"
  using assms
  by (auto simp: extract_print_data_def detect_print_job_def detect_by_content_def ensure_print_job_def
      start_print_job_def end_print_job_def extract_embedded_scs_def get_current_job_data_def Let_def
      split: option.splits if_splits prod.splits bool.splits)

text \<open>
  Three blanks make a print job, and it does not end: data whose first 20 bytes have three
  EBCDIC spaces starts a job, and from then on every chunk of the session, with whatever header
  but that of an end of job, is taken for print data and nothing of it reaches the session.
\<close>

lemma blanks_capture_session:
  assumes "length (filter (\<lambda>b. b = 0x40) (take 20 data)) \<ge> 3"
    and "\<forall>h. header = Some h \<longrightarrow> h_data_type h = 0x00"
    and "extract_print_data data header d = (r, d1)"
    and "\<forall>(c, hd) \<in> set chunks. \<forall>h. hd = Some h \<longrightarrow> h_data_type h \<noteq> 0x08"
    and "foldl (\<lambda>(out, d) (c, hd). case extract_print_data c hd d of ((s, p), d') \<Rightarrow> (out @ s, d'))
           ([], d1) chunks = (session, d2)"
  shows "r = ([], data) \<and> in_print_job d1 \<and> session = [] \<and> in_print_job d2"
proof -
  have "length data \<ge> 2"
  proof (rule ccontr)
    assume "\<not> length data \<ge> 2"
    moreover have "length (filter (\<lambda>b. b = 0x40) (take 20 data)) \<le> length (take 20 data)"
      by (rule length_filter_le)
    then have "length (filter (\<lambda>b. b = 0x40) (take 20 data)) \<le> length data" by simp
    ultimately show False using assms(1) by linarith
  qed
  moreover have "length (filter (\<lambda>b. b = 0x40) xs) \<le> length (filter (\<lambda>b. b < 0x20 \<or> b = 0x40) xs)"
    for xs :: bytes by (induction xs) auto
  from this [of "take 20 data"] have "length (filter (\<lambda>b. b = 0x40) (take 20 data))
      \<le> length (filter (\<lambda>b. b < 0x20 \<or> b = 0x40) (take 20 data))" .
  ultimately have scs: "contains_scs_indicators data"
    using assms(1) by (simp add: contains_scs_indicators_def)
  have first: "r = ([], data) \<and> in_print_job d1"
    using assms(2,3) scs
    by (cases header) (auto simp: extract_print_data_def detect_print_job_def detect_by_content_def Let_def)
  have "session = [] \<and> in_print_job d2" if "in_print_job d1"
    using assms(4,5) that
  proof (induction chunks arbitrary: d1)
    case Nil
    then show ?case by simp
  next
    case (Cons ch chunks)
    obtain c hd where ch: "ch = (c, hd)" by fastforce
    have "\<forall>h. hd = Some h \<longrightarrow> h_data_type h \<noteq> 0x08" using Cons.prems(1) ch by auto
    from detect_keeps_or_starts [OF Cons.prems(3) this, of c] Cons.prems(3)
    obtain d' where "extract_print_data c hd d1 = (([], c), d')" "in_print_job d'"
      by (auto simp: extract_print_data_def split: option.splits)
    with Cons.IH [of d'] Cons.prems ch show ?case by simp
  qed
  with first show ?thesis by blast
qed

end
