(* ===== verification/HandlerState.thy ===== *)
theory HandlerState
  imports Prelude3270
begin

text \<open>
  The session bookkeeping of \<open>pure3270/protocol/tn3270_handler.py\<close>: the state machine of the
  connection handler with its history, and the sequence numbers of TN3270E messages.

  The clock is an argument, and the texts of reasons are strings the caller gives; the texts of
  exceptions are left out. Reader and writer count as present when they are stream objects. The
  callbacks of other code, whose exceptions the source swallows, are recorded as signals.
\<close>

section \<open>The state machine\<close>

datatype hstate =
    DISCONNECTED | CONNECTING | NEGOTIATING | CONNECTED | ASCII_MODE | TN3270_MODE | ERROR
  | RECOVERING | CLOSING

record handler =
  current_state :: hstate
  state_history :: "(hstate \<times> int \<times> string) list"
  transition_count :: "hstate \<rightharpoonup> int"
  max_state_history :: int
  last_state_change :: int
  h_ascii_mode :: bool
  h_connected :: bool
  h_reader :: bool
  h_writer :: bool
  h_negotiator :: bool
  h_signals :: "(hstate \<times> hstate) list"

definition handler_init :: "int \<Rightarrow> bool \<Rightarrow> bool \<Rightarrow> bool \<Rightarrow> handler" where
  "handler_init now reader writer neg =
     \<lparr>current_state = DISCONNECTED, state_history = [], transition_count = Map.empty,
      max_state_history = 100, last_state_change = now, h_ascii_mode = False, h_connected = False,
      h_reader = reader, h_writer = writer, h_negotiator = neg, h_signals = []\<rparr>"

fun valid_transitions :: "hstate \<Rightarrow> hstate list" where
  "valid_transitions DISCONNECTED = [CONNECTING, CLOSING, CONNECTED]"
| "valid_transitions CONNECTING = [NEGOTIATING, CLOSING, ERROR, DISCONNECTED]"
| "valid_transitions NEGOTIATING = [CONNECTED, ASCII_MODE, TN3270_MODE, CLOSING, ERROR]"
| "valid_transitions CONNECTED = [TN3270_MODE, ASCII_MODE, ERROR, CLOSING]"
| "valid_transitions ASCII_MODE = [CONNECTED, ERROR, CLOSING]"
| "valid_transitions TN3270_MODE = [CONNECTED, ERROR, CLOSING]"
| "valid_transitions ERROR = [RECOVERING, DISCONNECTED, CLOSING]"
| "valid_transitions RECOVERING = [CONNECTED, ERROR, DISCONNECTED]"
| "valid_transitions CLOSING = [DISCONNECTED, ERROR]"

definition validate_state_transition :: "hstate \<Rightarrow> hstate \<Rightarrow> bool" where
  "validate_state_transition from_state to_state \<longleftrightarrow> to_state \<in> set (valid_transitions from_state)"

text \<open>\<open>False\<close> is the \<open>StateValidationError\<close>; what is only logged is left out.\<close>

definition validate_negotiator_state :: "hstate \<Rightarrow> handler \<Rightarrow> bool" where
  "validate_negotiator_state to_state h \<longleftrightarrow>
     h_negotiator h \<or> to_state \<notin> {NEGOTIATING, CONNECTED, ASCII_MODE, TN3270_MODE}"

definition validate_state_consistency :: "hstate \<Rightarrow> handler \<Rightarrow> bool" where
  "validate_state_consistency to_state h \<longleftrightarrow>
     (case to_state of
        CONNECTED \<Rightarrow> h_reader h \<and> h_writer h
      | ASCII_MODE \<Rightarrow> h_ascii_mode h
      | TN3270_MODE \<Rightarrow> \<not> h_ascii_mode h
      | NEGOTIATING \<Rightarrow> h_connected h \<and> h_reader h \<and> h_writer h
      | _ \<Rightarrow> True)
     \<and> validate_negotiator_state to_state h"

definition record_state_transition_sync :: "int \<Rightarrow> hstate \<Rightarrow> string \<Rightarrow> handler \<Rightarrow> handler" where
  "record_state_transition_sync now new_state reason h =
     (let h1 = h\<lparr>state_history := state_history h @ [(new_state, now, reason)],
                 transition_count := (transition_count h)
                   (new_state \<mapsto> (case transition_count h new_state of None \<Rightarrow> 0 | Some n \<Rightarrow> n) + 1)\<rparr>;
          h2 = (if int (length (state_history h1)) > max_state_history h1
                then h1\<lparr>state_history := tl (state_history h1)\<rparr> else h1)
      in h2\<lparr>last_state_change := now\<rparr>)"

definition signal_state_change :: "hstate \<Rightarrow> hstate \<Rightarrow> handler \<Rightarrow> handler" where
  "signal_state_change from_state to_state h = h\<lparr>h_signals := h_signals h @ [(from_state, to_state)]\<rparr>"

text \<open>The part that a transition and the entry into the error state have in common.\<close>

definition enter_state :: "int \<Rightarrow> hstate \<Rightarrow> string \<Rightarrow> handler \<Rightarrow> handler" where
  "enter_state now new_state reason h =
     (let h1 = record_state_transition_sync now new_state reason h
      in signal_state_change (current_state h) new_state (h1\<lparr>current_state := new_state\<rparr>))"

datatype transition_error = StateTransitionError | StateValidationError

definition handle_transition_error ::
    "int \<Rightarrow> transition_error \<Rightarrow> hstate \<Rightarrow> handler \<Rightarrow> handler" where
  "handle_transition_error now e from_state h =
     (case e of
        StateValidationError \<Rightarrow> enter_state now ERROR ''validation failed'' h
      | StateTransitionError \<Rightarrow>
          if from_state \<noteq> ERROR then enter_state now ERROR ''invalid transition'' h else h)"

definition change_state ::
    "int \<Rightarrow> hstate \<Rightarrow> string \<Rightarrow> handler \<Rightarrow> transition_error option \<times> handler" where
  "change_state now new_state reason h =
     (let from_state = current_state h
      in if \<not> validate_state_transition from_state new_state
         then (Some StateTransitionError,
               handle_transition_error now StateTransitionError from_state h)
         else if \<not> validate_state_consistency new_state h
         then (Some StateValidationError,
               handle_transition_error now StateValidationError from_state h)
         else (None, enter_state now new_state reason h))"

definition set_max_state_history :: "int \<Rightarrow> handler \<Rightarrow> handler" where
  "set_max_state_history n h = h\<lparr>max_state_history := n\<rparr>"

text \<open>
  \<open>_attempt_state_recovery\<close>, which entering \<open>ERROR\<close> starts as a task when the option for it,
  off by default, is set. The strategy is chosen and run by code that is a parameter here: it
  takes the handler and says whether it succeeded. An error on the way leads to \<open>ERROR\<close> once more.
\<close>

definition attempt_state_recovery ::
    "int \<Rightarrow> (handler \<Rightarrow> bool) \<Rightarrow> (handler \<Rightarrow> bool \<times> handler) \<Rightarrow> handler \<Rightarrow> handler" where
  "attempt_state_recovery now can_attempt execute h =
     (let failed = (\<lambda>h. if current_state h \<noteq> ERROR
                        then snd (change_state now ERROR ''recovery attempt failed'' h) else h);
          try_change = (\<lambda>st reason h. case change_state now st reason h of
                          (None, h1) \<Rightarrow> h1 | (Some _, h1) \<Rightarrow> failed h1)
      in case change_state now RECOVERING ''attempting recovery'' h of
           (Some _, h1) \<Rightarrow> failed h1
         | (None, h1) \<Rightarrow>
             if current_state h1 = ERROR then
               (if can_attempt h1
                then (case execute h1 of
                        (True, h2) \<Rightarrow> try_change CONNECTED ''recovery successful'' h2
                      | (False, h2) \<Rightarrow> try_change ERROR ''recovery failed'' h2)
                else try_change ERROR ''recovery not possible'' h1)
             else h1)"

interpretation state_log: bounded_log
  "\<lambda>h (st, now, reason). record_state_transition_sync now st reason h"
  state_history max_state_history "\<lambda>x. x"
  by unfold_locales (auto simp: record_state_transition_sync_def push_limited_def Let_def)


section \<open>Sequence numbers\<close>

datatype direction = Seq_sent | Seq_received | Seq_sync

record seq_state =
  last_sent_seq_number :: int
  last_received_seq_number :: int
  sequence_number_window :: int
  sequence_sync_enabled :: bool
  sequence_number_history :: "(int \<times> direction \<times> int) list"
  max_sequence_history :: int

definition seq_init :: seq_state where
  "seq_init = \<lparr>last_sent_seq_number = 0, last_received_seq_number = 0, sequence_number_window = 2048,
     sequence_sync_enabled = True, sequence_number_history = [], max_sequence_history = 100\<rparr>"

definition record_sequence_number :: "int \<Rightarrow> int \<Rightarrow> direction \<Rightarrow> seq_state \<Rightarrow> seq_state" where
  "record_sequence_number now n dir q =
     (let q1 = q\<lparr>sequence_number_history := sequence_number_history q @ [(n, dir, now)]\<rparr>
      in if int (length (sequence_number_history q1)) > max_sequence_history q1
         then q1\<lparr>sequence_number_history := tl (sequence_number_history q1)\<rparr> else q1)"

definition detect_sequence_wraparound :: "int \<Rightarrow> int \<Rightarrow> seq_state \<Rightarrow> bool" where
  "detect_sequence_wraparound new_seq last_seq q \<longleftrightarrow>
     new_seq < last_seq
   \<and> (let direct_diff = last_seq - new_seq; wraparound_diff = (65536 - last_seq) + new_seq
      in wraparound_diff < direct_diff \<and> wraparound_diff \<le> sequence_number_window q)"

definition validate_sequence_number :: "int \<Rightarrow> int \<Rightarrow> seq_state \<Rightarrow> bool" where
  "validate_sequence_number received expected q \<longleftrightarrow>
     (if \<not> sequence_sync_enabled q then True
      else if received = expected then True
      else if detect_sequence_wraparound received expected q then True
      else (let seq_diff = \<bar>received - expected\<bar>;
                wraparound_diff = min \<bar>received - (expected + 65536)\<bar> \<bar>received - (expected - 65536)\<bar>
            in seq_diff \<le> sequence_number_window q \<or> wraparound_diff \<le> sequence_number_window q))"

definition get_next_sent_sequence_number :: "int \<Rightarrow> seq_state \<Rightarrow> int \<times> seq_state" where
  "get_next_sent_sequence_number now q =
     (let n = (last_sent_seq_number q + 1) mod 65536
      in (n, record_sequence_number now n Seq_sent (q\<lparr>last_sent_seq_number := n\<rparr>)))"

definition synchronize_sequence_numbers :: "int \<Rightarrow> int \<Rightarrow> seq_state \<Rightarrow> seq_state" where
  "synchronize_sequence_numbers now n q =
     (record_sequence_number now n Seq_sync (q\<lparr>last_received_seq_number := n\<rparr>))
       \<lparr>sequence_number_history := []\<rparr>"

definition update_received_sequence_number :: "int \<Rightarrow> int \<Rightarrow> seq_state \<Rightarrow> seq_state" where
  "update_received_sequence_number now n q =
     (if validate_sequence_number n (last_received_seq_number q + 1) q
      then record_sequence_number now n Seq_received (q\<lparr>last_received_seq_number := n\<rparr>)
      else synchronize_sequence_numbers now n q)"

definition enable_sequence_sync :: "bool \<Rightarrow> seq_state \<Rightarrow> seq_state" where
  "enable_sequence_sync enable q = q\<lparr>sequence_sync_enabled := enable\<rparr>"

definition set_sequence_window :: "int \<Rightarrow> seq_state \<Rightarrow> seq_state" where
  "set_sequence_window n q = q\<lparr>sequence_number_window := max 1 (min n 65535)\<rparr>"

definition reset_sequence_numbers :: "seq_state \<Rightarrow> seq_state" where
  "reset_sequence_numbers q =
     q\<lparr>last_sent_seq_number := 0, last_received_seq_number := 0, sequence_number_history := []\<rparr>"

interpretation seq_log: bounded_log
  "\<lambda>q (n, dir, now). record_sequence_number now n dir q"
  sequence_number_history max_sequence_history "\<lambda>x. x"
  by unfold_locales (auto simp: record_sequence_number_def push_limited_def Let_def)

section \<open>Properties of the state machine\<close>

text \<open>One step of the handler: any request for a state, at any time and for any reason.\<close>

inductive handler_step :: "handler \<Rightarrow> handler \<Rightarrow> bool" where
  "change_state now st reason h = (e, h') \<Longrightarrow> handler_step h h'"

inductive_cases handler_stepE: "handler_step h h'"

inductive_simps handler_step_iff: "handler_step h h'"

lemma enter_state_facts [simp]:
  "current_state (enter_state now st reason h) = st"
  "state_history (enter_state now st reason h) = push_limited (max_state_history h) (state_history h) (st, now, reason)"
  "max_state_history (enter_state now st reason h) = max_state_history h"
  "h_signals (enter_state now st reason h) = h_signals h @ [(current_state h, st)]"
  by (simp_all add: enter_state_def record_state_transition_sync_def signal_state_change_def
      push_limited_def Let_def)

lemmas change_state_defs =
  change_state_def handle_transition_error_def validate_state_transition_def Let_def

text \<open>
  What a request for a state does: it succeeds exactly when the transition is allowed and
  consistent, and then the handler is in that state. Otherwise it raises, and the handler is in
  the error state, whatever state it was in: so an invalid request by a caller ends a working
  session. Each way the history grows by the state entered, unless an invalid request met the
  error state, and never past its limit.
\<close>

lemma change_state_outcome:
  assumes "change_state now st reason h = (e, h')"
  shows "(e = None \<longleftrightarrow> st \<in> set (valid_transitions (current_state h)) \<and> validate_state_consistency st h)
       \<and> current_state h' = (if e = None then st else ERROR)
       \<and> (h' = h \<or> fst (last (state_history h')) = current_state h'
            \<or> max_state_history h \<le> 0)
       \<and> (0 < max_state_history h \<and> int (length (state_history h)) \<le> max_state_history h
            \<longrightarrow> int (length (state_history h')) \<le> max_state_history h')"
proof -
  have last: "fst (last (push_limited m xs (s, t, r))) = s" if "0 < m" for m and xs :: "(hstate \<times> int \<times> string) list" and s t r
    using that by (cases xs) (auto simp: push_limited_def Let_def)
  have len: "int (length (push_limited m xs x)) \<le> m" if "int (length xs) \<le> m" for m and xs :: "(hstate \<times> int \<times> string) list" and x
    using that by (simp add: push_limited_def Let_def)
  show ?thesis
    using assms last len
    by (auto simp: change_state_defs not_le split: if_splits)
qed

fun is_run :: "hstate \<Rightarrow> (hstate \<times> hstate) list \<Rightarrow> hstate \<Rightarrow> bool" where
  "is_run a [] c \<longleftrightarrow> a = c"
| "is_run a ((x, y) # xs) c \<longleftrightarrow> x = a \<and> (y \<in> set (valid_transitions x) \<or> y = ERROR) \<and> is_run y xs c"

lemma is_run_snoc:
  "is_run a xs b \<Longrightarrow> c \<in> set (valid_transitions b) \<or> c = ERROR \<Longrightarrow> is_run a (xs @ [(b, c)]) c"
  by (induction a xs b rule: is_run.induct) auto

definition handler_ok :: "handler \<Rightarrow> bool" where
  "handler_ok h \<longleftrightarrow> max_state_history h = 100 \<and> length (state_history h) \<le> 100
     \<and> is_run DISCONNECTED (h_signals h) (current_state h)
     \<and> (if state_history h = [] then current_state h = DISCONNECTED
        else fst (last (state_history h)) = current_state h)"

lemma push_100: "length xs \<le> 100 \<Longrightarrow> length (push_limited 100 xs x) \<le> 100
    \<and> push_limited 100 xs x \<noteq> [] \<and> last (push_limited 100 xs x) = x"
  by (cases xs) (auto simp: push_limited_def Let_def)

lemma handler_ok_enter:
  assumes "handler_ok h" and "st \<in> set (valid_transitions (current_state h)) \<or> st = ERROR"
  shows "handler_ok (enter_state now st reason h)"
  using assms push_100 [of "state_history h" "(st, now, reason)"]
  by (simp add: handler_ok_def is_run_snoc)

lemma handler_ok_step: "handler_step h h' \<Longrightarrow> handler_ok h \<Longrightarrow> handler_ok h'"
  by (erule handler_stepE) (auto simp: change_state_defs handler_ok_enter split: if_splits)

text \<open>
  Every run of the state machine, of any length and with any requests, keeps the history at
  100 entries or fewer with the current state as its last, and the state changes it signals form
  one unbroken path from \<open>DISCONNECTED\<close> to the current state along allowed transitions, except for
  entries into \<open>ERROR\<close>.
\<close>

lemma handler_runs_are_paths:
  assumes "handler_step\<^sup>*\<^sup>* (handler_init now reader writer neg) h"
  shows "length (state_history h) \<le> 100 \<and> is_run DISCONNECTED (h_signals h) (current_state h)
       \<and> (state_history h \<noteq> [] \<longrightarrow> fst (last (state_history h)) = current_state h)"
proof -
  have "handler_ok h" using assms
  proof (induction rule: rtranclp_induct)
    case base
    then show ?case by (simp add: handler_ok_def handler_init_def)
  next
    case (step h h')
    then show ?case using handler_ok_step by blast
  qed
  then show ?thesis by (auto simp: handler_ok_def)
qed

text \<open>
  Recovery does nothing: an attempt enters \<open>RECOVERING\<close> first and then looks whether the state
  is \<open>ERROR\<close>, so from the error state it never asks whether recovery is possible, never runs a
  strategy, and leaves the handler in \<open>RECOVERING\<close>.
\<close>

lemma recovery_never_runs:
  assumes "current_state h = ERROR"
  shows "current_state (attempt_state_recovery now can execute h) = RECOVERING
       \<and> attempt_state_recovery now can execute h = attempt_state_recovery now can' execute' h"
  using assms
  by (simp add: attempt_state_recovery_def change_state_def validate_state_transition_def
      validate_state_consistency_def validate_negotiator_state_def Let_def)

section \<open>Properties of sequence numbers\<close>

definition circular_distance :: "int \<Rightarrow> int \<Rightarrow> int" where
  "circular_distance a b = min \<bar>a - b\<bar> \<bar>65536 - \<bar>a - b\<bar>\<bar>"

text \<open>
  What the validation of a received number decides: for 16-bit numbers it accepts exactly the
  ones whose distance from the expected number on the circle of 65536 numbers is within the
  window. The separate search for a wraparound decides nothing.
\<close>

lemma validate_sequence_iff:
  assumes "sequence_sync_enabled q" and "0 \<le> sequence_number_window q"
    and "0 \<le> received" and "received < 65536" and "0 \<le> expected" and "expected \<le> 65536"
  shows "validate_sequence_number received expected q
     \<longleftrightarrow> circular_distance received expected \<le> sequence_number_window q"
proof -
  have w: "min \<bar>received - (expected + 65536)\<bar> \<bar>received - (expected - 65536)\<bar>
      = \<bar>65536 - \<bar>received - expected\<bar>\<bar>" using assms(3-6) by auto
  show ?thesis
    using assms unfolding validate_sequence_number_def Let_def w circular_distance_def
      detect_sequence_wraparound_def by auto
qed

text \<open>
  The validation has no consequence for what is accepted: after any received number, valid or
  not, that number is the last received one and the next is expected behind it. A number out of
  the window only empties the history, which otherwise records it.
\<close>

lemma received_number_always_taken:
  "last_received_seq_number (update_received_sequence_number now n q) = n
   \<and> (\<not> validate_sequence_number n (last_received_seq_number q + 1) q
        \<longrightarrow> sequence_number_history (update_received_sequence_number now n q) = [])
   \<and> (validate_sequence_number n (last_received_seq_number q + 1) q \<and> 0 < max_sequence_history q
        \<longrightarrow> last (sequence_number_history (update_received_sequence_number now n q)) = (n, Seq_received, now))"
  using seq_log.last_push [of "q\<lparr>last_received_seq_number := n\<rparr>" "(n, Seq_received, now)"]
  by (simp add: update_received_sequence_number_def synchronize_sequence_numbers_def
      record_sequence_number_def Let_def)

fun send_many :: "int list \<Rightarrow> seq_state \<Rightarrow> int list \<times> seq_state" where
  "send_many [] q = ([], q)"
| "send_many (now # ts) q =
     (let (n, q1) = get_next_sent_sequence_number now q; (ns, q2) = send_many ts q1 in (n # ns, q2))"

lemma next_sent:
  "get_next_sent_sequence_number now q = (n, q1) \<Longrightarrow>
     n = (last_sent_seq_number q + 1) mod 65536 \<and> last_sent_seq_number q1 = n
     \<and> q1 = record_sequence_number now n Seq_sent (q\<lparr>last_sent_seq_number := n\<rparr>)"
  by (auto simp: get_next_sent_sequence_number_def record_sequence_number_def Let_def)

lemma send_many_numbers:
  assumes "send_many ts q = (ns, q')"
  shows "ns = map (\<lambda>i. (last_sent_seq_number q + 1 + int i) mod 65536) [0 ..< length ts]
       \<and> (0 < max_sequence_history q \<and> int (length (sequence_number_history q)) \<le> max_sequence_history q
            \<longrightarrow> int (length (sequence_number_history q')) \<le> max_sequence_history q
              \<and> max_sequence_history q' = max_sequence_history q)"
  using assms
proof (induction ts arbitrary: q ns)
  case Nil
  then show ?case by simp
next
  case (Cons now ts)
  obtain n q1 where n: "get_next_sent_sequence_number now q = (n, q1)" by fastforce
  obtain ms where ms: "send_many ts q1 = (ms, q')" and ns: "ns = n # ms"
    using Cons.prems n by (auto split: prod.splits)
  note IH = Cons.IH [OF ms]
  have l: "last_sent_seq_number q1 = (last_sent_seq_number q + 1) mod 65536"
    using next_sent [OF n] by metis
  have st: "((a + 1) mod 65536 + 1 + x) mod 65536 = (a + 1 + (1 + x)) mod (65536 :: int)" for a x
    using mod_add_left_eq [of "a + 1" 65536 "1 + x"] by (simp only: add.assoc)
  have "[1 ..< length (now # ts)] = map Suc [0 ..< length ts]" by (simp add: map_Suc_upt del: upt_Suc)
  then have "map (\<lambda>i. (last_sent_seq_number q1 + 1 + int i) mod 65536) [0 ..< length ts]
      = map (\<lambda>i. (last_sent_seq_number q + 1 + int i) mod 65536) [1 ..< length (now # ts)]"
    unfolding l st by (simp add: algebra_simps)
  then have "ns = map (\<lambda>i. (last_sent_seq_number q + 1 + int i) mod 65536) [0 ..< length (now # ts)]"
    using IH ns next_sent [OF n] by (simp add: upt_conv_Cons del: upt_Suc)
  moreover have "int (length (sequence_number_history q1)) \<le> max_sequence_history q
      \<and> max_sequence_history q1 = max_sequence_history q"
    if "0 < max_sequence_history q" "int (length (sequence_number_history q)) \<le> max_sequence_history q"
    using seq_log.push_bounded [of "q\<lparr>last_sent_seq_number := n\<rparr>" "(n, Seq_sent, now)"]
      seq_log.limit_push [of "q\<lparr>last_sent_seq_number := n\<rparr>" "(n, Seq_sent, now)"] that next_sent [OF n] by simp
  ultimately show ?case using IH by auto
qed

text \<open>
  Numbers of sent messages: whatever was sent before, the next messages get consecutive numbers
  modulo 65536, so any 65536 in a row are different, and the history stays within its limit.
\<close>

lemma sent_numbers_distinct:
  assumes "send_many ts q = (ns, q')" and "length ts \<le> 65536"
    and "0 < max_sequence_history q" and "int (length (sequence_number_history q)) \<le> max_sequence_history q"
  shows "ns = map (\<lambda>i. (last_sent_seq_number q + 1 + int i) mod 65536) [0 ..< length ts]
       \<and> distinct ns \<and> set ns \<subseteq> {0 ..< 65536}
       \<and> int (length (sequence_number_history q')) \<le> max_sequence_history q"
proof -
  let ?f = "\<lambda>i. (last_sent_seq_number q + 1 + int i) mod 65536"
  have ns: "ns = map ?f [0 ..< length ts]" using send_many_numbers [OF assms(1)] by blast
  have "inj_on ?f {0 ..< length ts}"
  proof (rule inj_onI)
    fix i j assume ij: "i \<in> {0 ..< length ts}" "j \<in> {0 ..< length ts}" and "?f i = ?f j"
    then have "(65536 :: int) dvd int i - int j"
      by (metis add_diff_cancel_left mod_eq_dvd_iff)
    moreover have "\<bar>int i - int j\<bar> < 65536" using ij assms(2) by auto
    ultimately show "i = j"
      by (metis abs_of_nat dvd_imp_le_int eq_iff_diff_eq_0 linorder_not_le of_nat_eq_iff of_nat_numeral)
  qed
  with ns have "distinct ns" by (simp add: distinct_map)
  moreover have "set ns \<subseteq> {0 ..< 65536}" using ns by auto
  ultimately show ?thesis using ns send_many_numbers [OF assms(1)] assms(3,4) by blast
qed

end
