(* ===== verification/Session.thy ===== *)
theory Session
  imports ExtScreen PrintJobs BindImages Telnet HandlerState SenderProps
begin

text \<open>
  The components together: a record on its way from the network through the Telnet layer and the
  parser to the screen, and the screen buffer's own entry point with the parser behind it.
\<close>

section \<open>From the network to the screen\<close>

lemma feed_escaped_record:
  assumes "telnet_buffer s = []" and "concat chunks = escape_iac msg"
  shows "foldl (feed_telnet N) (s, []) chunks = (s, msg)"
proof -
  have s: "s\<lparr>telnet_buffer := []\<rparr> = s" using assms(1) by simp
  then have "buffer_pending N (s, [])" using assms(1) by (simp add: buffer_pending_def)
  from telnet_feed.feed_concat [OF this, of chunks]
  have "foldl (feed_telnet N) (s, []) chunks = feed_telnet N (s, []) (escape_iac msg)"
    by (simp add: assms(2))
  also have "\<dots> = (s, msg)"
    using telnet_loop_escaped [of N msg "[]" "[]" s] assms(1) by (simp add: feed_telnet_eq s)
  finally show ?thesis .
qed

text \<open>
  End to end: a write of plain text, escaped for Telnet and cut into chunks in any way, is put
  together by the Telnet layer without loss and without a side effect, and when the record is
  parsed, its text stands on the screen, the rest is blank, and the cursor is behind the text.
\<close>

lemma network_to_screen:
  assumes "telnet_buffer s = []" and "concat chunks = escape_iac (c # w # str)"
    and "wf_screen (d_screen p)" and "c \<in> set write_commands \<or> c \<in> set erase_write_commands"
    and "\<forall>b \<in> set str. text_byte b" and "int (length str) < ssize (d_screen p)"
    and "foldl (feed_telnet N) (s, []) chunks = (s', msg)"
  shows "s' = s \<and> (\<exists>q. parse msg 0 p = Some (Inr (), q)
       \<and> buffer (d_screen q) = str @ replicate (nat (ssize (d_screen p)) - length str) 0x40
       \<and> get_position (d_screen q) = calculate_coords (d_screen p) (int (length str)))"
  using feed_escaped_record [OF assms(1,2), of N] assms(7) plain_write [OF assms(3-6), of w] by auto

section \<open>The screen buffer's entry point\<close>

text \<open>
  The parser that \<open>update_from_stream\<close> makes for itself, in the form that operation expects: the
  screen it leaves and whether it raised. A parse that did not return has no other screen.
\<close>

definition stream_parser :: "bytes \<Rightarrow> screen \<Rightarrow> bool \<times> screen" where
  "stream_parser data s =
     (case parse data 0 (DataStreamParser_init s False False MODE_12_BIT) of
        None \<Rightarrow> (False, s)
      | Some (Inl _, q) \<Rightarrow> (True, d_screen q)
      | Some (Inr _, q) \<Rightarrow> (False, d_screen q))"

lemma lone_command_cursor:
  assumes "c \<in> set erase_write_commands" and "parse [c] 0 p = Some (r, q)" and "wf_screen (d_screen p)"
  shows "get_position (d_screen q) = (0, 0)"
proof -
  have d: "0 < rows (d_screen p)" "0 < cols (d_screen p)"
    using assms(3) by (simp_all add: wf_screen_def wf_dims_def)
  have c: "c \<notin> set write_commands"
    using assms(1) by (auto simp: write_commands_def erase_write_commands_def)
  have r1: "raw_read q = (Inr c, q\<lparr>ppos := 1\<rparr>)" if "pdata q = [c]" "ppos q = 0" for q :: dsp
    using that by (simp add: raw_read_def d_has_more_def)
  have r2: "raw_read q = (Inl Unexpected_end, q)" if "pdata q = [c]" "ppos q = 1" for q :: dsp
    using that by (simp add: raw_read_def d_has_more_def)
  show ?thesis using assms(1,2) c d
    by (auto simp: parse_def parse_tn3270_def Let_def parse_body_def r1 r2 end_bulk_def outer_except_def
        rollback_def is_critical_error_def to_end_def restore_screen_def snapshot_screen_def
        set_position_def get_position_def set_ascii_mode_def)
qed

lemma wf_fallback_first:
  assumes "wf_screen s" and "get_position s = (0, 0)" and "1 < ssize s"
  shows "wf_screen (fallback_data b s)"
proof -
  have d: "0 < rows s" "0 < cols s" "ssize s = rows s * cols s"
    using assms(1) by (simp_all add: wf_screen_def wf_dims_def)
  have "1 < rows s" if "cols s \<le> 1" using that d assms(3) by (cases "cols s = 1") auto
  with assms d show ?thesis
    by (auto simp: fallback_data_def Let_def get_position_def wf_screen_def wf_dims_def on_screen_def
        field_ok_def)
qed

lemma fallback_dims: "rows (fallback_data b s) = rows s" "cols (fallback_data b s) = cols s"
  by (simp_all add: fallback_data_def Let_def split: prod.split)


lemma wf_stream_parser:
  assumes "wf_screen s" and "1 < ssize s" and "stream_parser data s = (raised, s')"
  shows "wf_screen (if raised then parse_with_fallback data s' else s')
       \<and> rows (if raised then parse_with_fallback data s' else s') = rows s
       \<and> cols (if raised then parse_with_fallback data s' else s') = cols s"
proof -
  let ?p = "DataStreamParser_init s False False MODE_12_BIT"
  have p: "d_screen ?p = s" by (simp add: DataStreamParser_init_def)
  obtain r q where rq: "parse data 0 ?p = Some (r, q)" using parse_total [of data 0 ?p] by auto
  then have s': "s' = d_screen q" "raised = isl r"
    using assms(3) by (auto simp: stream_parser_def split: sum.splits)
  have w: "wf_screen s' \<and> rows s' = rows s \<and> cols s' = cols s"
    using wf.keep_parse [OF rq, of "rows s" "cols s"] assms(1) p s' by simp
  show ?thesis
  proof (cases raised)
    case False
    with w show ?thesis by simp
  next
    case True
    then obtain e where "r = Inl e" using s' by (cases r) auto
    then have "\<exists>q. parse data 0 ?p = Some (Inl e, q)" using rq by blast
    then obtain c where c: "c \<in> set erase_write_commands" "data = [c]"
      unfolding parse_raises by blast
    have pos: "get_position s' = (0, 0)"
      using lone_command_cursor [OF c(1) rq [unfolded c(2)]] assms(1) p s' by simp
    have sz: "1 < ssize s'" using w assms(1,2) by (auto simp: wf_screen_def wf_dims_def)
    have "c \<noteq> 0x05" "c \<noteq> 0x11" "c \<noteq> 0x1D" using c(1) by (auto simp: erase_write_commands_def)
    then have "parse_with_fallback data s' = (if c = 0x0D then s' else fallback_data c s')"
      using c(2) by simp
    with True w wf_fallback_first [OF _ pos sz, of c] show ?thesis by (simp add: fallback_dims)
  qed
qed

text \<open>
  The screen buffer's entry point is safe with the real parser: whatever bytes are fed to
  \<open>update_from_stream\<close>, taken for plain text, for a 3270 stream, or for one the parser refuses and
  the fallback reads, a well-formed screen of more than one position stays well formed with its
  dimensions.
\<close>

lemma update_from_stream_safe:
  assumes "wf_screen s" and "1 < ssize s"
  shows "wf_screen (update_from_stream stream_parser data s)
       \<and> rows (update_from_stream stream_parser data s) = rows s
       \<and> cols (update_from_stream stream_parser data s) = cols s"
proof (cases "data = []")
  case True
  with assms show ?thesis by (simp add: update_from_stream_def)
next
  case False
  let ?s1 = "s\<lparr>field_starts := {}\<rparr>"
  have w1: "wf_screen ?s1"
    using assms(1) by (auto simp: wf_screen_def wf_dims_def on_screen_def field_ok_def)
  let ?t = "s\<lparr>buffer := data @ drop (length data) (buffer s), field_starts := {0}\<rparr>"
  have simple: "wf_screen ?t" if "int (length data) \<le> ssize s"
    using assms that by (auto simp: wf_screen_def wf_dims_def on_screen_def field_ok_def)
  obtain raised s' where sp: "stream_parser data ?s1 = (raised, s')" by fastforce
  note parsed = wf_stream_parser [OF w1 _ sp]
  show ?thesis
    using False simple parsed assms(2) sp
    by (auto simp: update_from_stream_def Let_def wf_screen_detect)
qed

end
