(* ===== verification/VT100.thy ===== *)
theory VT100
  imports ParseProps PyText
begin

text \<open>
  \<open>pure3270/protocol/vt100_parser.py\<close>: the terminal emulation the client falls back to when the
  host does not speak TN3270. Text is the list of the ASCII codes that are left of the data; the
  position of the string parser is what has been consumed of it. The translation of a character to
  EBCDIC is the parameter \<open>enc\<close> (an optional package or a codec), \<open>None\<close> where it raises.

  \<open>int()\<close> of more than 4300 digits raises \<open>ValueError\<close>, the only exception that reaches the loop;
  it then skips a character.
\<close>

section \<open>State\<close>

record vt_state =
  vs_row :: int
  vs_col :: int
  vs_saved_row :: int
  vs_saved_col :: int
  vs_charset :: byte
  vs_graphics :: byte
  vs_alt :: bool
  vs_pos :: nat

record vt100 =
  v_screen :: screen
  v_row :: int
  v_col :: int
  v_saved_row :: int
  v_saved_col :: int
  v_charset :: byte
  v_graphics :: byte
  v_alt :: bool
  v_parser :: "(nat \<times> nat) option"
  v_last_good :: "vt_state option"
  v_recovery :: bool

definition VT100Parser_init :: "screen \<Rightarrow> vt100" where
  "VT100Parser_init s =
     \<lparr>v_screen = s, v_row = 0, v_col = 0, v_saved_row = 0, v_saved_col = 0, v_charset = 0x42,
      v_graphics = 0x30, v_alt = False, v_parser = None, v_last_good = None, v_recovery = True\<rparr>"

definition VT100ParserState_init :: vt_state where
  "VT100ParserState_init =
     \<lparr>vs_row = 0, vs_col = 0, vs_saved_row = 0, vs_saved_col = 0, vs_charset = 0x42,
      vs_graphics = 0x30, vs_alt = False, vs_pos = 0\<rparr>"

text \<open>The inner parser is its position and the length of its text.\<close>

definition save_from_parser :: "vt100 \<Rightarrow> vt_state \<Rightarrow> vt_state" where
  "save_from_parser v st =
     \<lparr>vs_row = v_row v, vs_col = v_col v, vs_saved_row = v_saved_row v, vs_saved_col = v_saved_col v,
      vs_charset = v_charset v, vs_graphics = v_graphics v, vs_alt = v_alt v,
      vs_pos = (case v_parser v of Some (p, _) \<Rightarrow> p | None \<Rightarrow> vs_pos st)\<rparr>"

definition restore_to_parser :: "vt_state \<Rightarrow> vt100 \<Rightarrow> vt100" where
  "restore_to_parser st v =
     v\<lparr>v_row := vs_row st, v_col := vs_col st, v_saved_row := vs_saved_row st,
       v_saved_col := vs_saved_col st, v_charset := vs_charset st, v_graphics := vs_graphics st,
       v_alt := vs_alt st,
       v_parser := map_option (\<lambda>(_, n). (min (vs_pos st) n, n)) (v_parser v)\<rparr>"

definition save_state :: "vt100 \<Rightarrow> vt100" where
  "save_state v =
     v\<lparr>v_last_good := Some (save_from_parser v
         (case v_last_good v of None \<Rightarrow> VT100ParserState_init | Some st \<Rightarrow> st))\<rparr>"

definition set_error_recovery :: "bool \<Rightarrow> vt100 \<Rightarrow> vt100" where
  "set_error_recovery b v = v\<lparr>v_recovery := b\<rparr>"

section \<open>Cursor\<close>

definition move_cursor :: "int \<Rightarrow> int \<Rightarrow> vt100 \<Rightarrow> vt100" where
  "move_cursor row col v =
     v\<lparr>v_row := max 0 (min (rows (v_screen v) - 1) row),
       v_col := max 0 (min (cols (v_screen v) - 1) col)\<rparr>"

definition save_cursor :: "vt100 \<Rightarrow> vt100" where
  "save_cursor v = v\<lparr>v_saved_row := v_row v, v_saved_col := v_col v\<rparr>"

definition restore_cursor :: "vt100 \<Rightarrow> vt100" where
  "restore_cursor v = v\<lparr>v_row := v_saved_row v, v_col := v_saved_col v\<rparr>"

definition index_down :: "vt100 \<Rightarrow> vt100" where
  "index_down v = (if v_row v < rows (v_screen v) - 1 then v\<lparr>v_row := v_row v + 1\<rparr> else v)"

definition reverse_index :: "vt100 \<Rightarrow> vt100" where
  "reverse_index v = (if v_row v > 0 then v\<lparr>v_row := v_row v - 1\<rparr> else v)"

definition vt_reset :: "vt100 \<Rightarrow> vt100" where
  "vt_reset v =
     v\<lparr>v_screen := clear (v_screen v), v_row := 0, v_col := 0, v_saved_row := 0, v_saved_col := 0,
       v_charset := 0x42, v_graphics := 0x30, v_alt := False\<rparr>"

definition recover_from_error :: "vt100 \<Rightarrow> vt100" where
  "recover_from_error v =
     (case v_last_good v of
        Some st \<Rightarrow> if v_recovery v then restore_to_parser st v else vt_reset v
      | None \<Rightarrow> vt_reset v)"

section \<open>Erasing\<close>

definition space_char :: "screen \<Rightarrow> byte" where
  "space_char s = (if ascii_mode s then 0x20 else 0x40)"

text \<open>\<open>for i in range(a, b): buffer[i] = space_char\<close>, with \<open>0 <= a\<close>\<close>

definition fill_range :: "int \<Rightarrow> int \<Rightarrow> screen \<Rightarrow> screen" where
  "fill_range a b s =
     s\<lparr>buffer := map (\<lambda>(i, x). if a \<le> int i \<and> int i < b then space_char s else x)
                  (enumerate 0 (buffer s))\<rparr>"

definition on_screen_of :: "(screen \<Rightarrow> screen) \<Rightarrow> vt100 \<Rightarrow> vt100" where
  "on_screen_of f v = v\<lparr>v_screen := f (v_screen v)\<rparr>"

definition erase_display :: "int \<Rightarrow> vt100 \<Rightarrow> vt100" where
  "erase_display param v =
     (let s = v_screen v; p = v_row v * cols s + v_col v; n = int (length (buffer s))
      in if param = 0 then (if p < n then on_screen_of (fill_range p n) v else v)
         else if param = 1 then (if p < n then on_screen_of (fill_range 0 (min (p + 1) n)) v else v)
         else if param = 2 then on_screen_of clear v
         else v)"

definition erase_line :: "int \<Rightarrow> vt100 \<Rightarrow> vt100" where
  "erase_line param v =
     (let s = v_screen v; start = v_row v * cols s; p = start + v_col v; n = int (length (buffer s))
      in if param = 0 then (if p < n then on_screen_of (fill_range p (min (start + cols s) n)) v else v)
         else if param = 1 then (if start < n then on_screen_of (fill_range start (min (p + 1) n)) v else v)
         else if param = 2 then (if start < n then on_screen_of (fill_range start (min (start + cols s) n)) v else v)
         else v)"

section \<open>Characters\<close>

definition safe_buffer_access :: "vt100 \<Rightarrow> int \<Rightarrow> int \<Rightarrow> int" where
  "safe_buffer_access v row col =
     (let s = v_screen v
      in if 0 \<le> row \<and> row < rows s \<and> 0 \<le> col \<and> col < cols s
         then (if row * cols s + col < int (length (buffer s)) then row * cols s + col else -1)
         else -1)"

definition stored_byte :: "(byte \<Rightarrow> bytes option) \<Rightarrow> screen \<Rightarrow> byte \<Rightarrow> byte" where
  "stored_byte enc s ch =
     (if ascii_mode s then ch
      else case enc ch of Some (b # _) \<Rightarrow> b | _ \<Rightarrow> 0x40)"

definition store_at :: "int \<Rightarrow> byte \<Rightarrow> screen \<Rightarrow> screen" where
  "store_at p b s = s\<lparr>buffer := (buffer s)[nat p := b]\<rparr>"

definition next_cell :: "vt100 \<Rightarrow> vt100" where
  "next_cell v =
     (if v_col v + 1 \<ge> cols (v_screen v)
      then v\<lparr>v_col := 0, v_row := min (rows (v_screen v) - 1) (v_row v + 1)\<rparr>
      else v\<lparr>v_col := v_col v + 1\<rparr>)"

definition vt_write_char :: "(byte \<Rightarrow> bytes option) \<Rightarrow> byte \<Rightarrow> vt100 \<Rightarrow> vt100" where
  "vt_write_char enc ch v =
     (if ch = 0x0A then v\<lparr>v_row := min (rows (v_screen v) - 1) (v_row v + 1), v_col := 0\<rparr>
      else if ch = 0x0D then v\<lparr>v_col := 0\<rparr>
      else if ch = 0x09 then v\<lparr>v_col := min (cols (v_screen v) - 1) ((v_col v div 8 + 1) * 8)\<rparr>
      else if ch = 0x08 then (if v_col v > 0 then v\<lparr>v_col := v_col v - 1\<rparr> else v)
      else if ch = 0x07 then v
      else (let p = safe_buffer_access v (v_row v) (v_col v)
            in next_cell (if p \<ge> 0 then on_screen_of (store_at p (stored_byte enc (v_screen v) ch)) v
                          else v)))"

section \<open>Control sequences\<close>

definition is_digit :: "byte \<Rightarrow> bool" where
  "is_digit b \<longleftrightarrow> 0x30 \<le> b \<and> b \<le> 0x39"

definition is_alpha :: "byte \<Rightarrow> bool" where
  "is_alpha b \<longleftrightarrow> (0x41 \<le> b \<and> b \<le> 0x5A) \<or> (0x61 \<le> b \<and> b \<le> 0x7A)"

definition decimal :: "bytes \<Rightarrow> int" where
  "decimal ds = foldl (\<lambda>n d. 10 * n + (uint d - 48)) 0 ds"

text \<open>One parameter; the \<open>ValueError\<close> of a number with too many digits is \<open>None\<close>.\<close>

definition csi_param :: "bytes \<Rightarrow> int option" where
  "csi_param w =
     (if w \<noteq> [] \<and> list_all is_digit w
      then (if length w \<le> 4300 then Some (decimal w) else None) else Some 0)"

definition csi_params :: "bytes \<Rightarrow> int list option" where
  "csi_params ps =
     (if ps = [] then Some [0] else those (map csi_param (py_split 0x3B ps)))"

definition positive_param :: "int list \<Rightarrow> nat \<Rightarrow> int" where
  "positive_param ps i = (if length ps > i \<and> ps ! i > 0 then ps ! i else 1)"

definition first_param :: "int list \<Rightarrow> int" where
  "first_param ps = (if ps = [] then 0 else hd ps)"

definition handle_csi_command :: "byte \<Rightarrow> int list \<Rightarrow> vt100 \<Rightarrow> vt100" where
  "handle_csi_command c ps v =
     (if c = 0x48 \<or> c = 0x66 then move_cursor (positive_param ps 0 - 1) (positive_param ps 1 - 1) v
      else if c = 0x41 then move_cursor (max 0 (v_row v - positive_param ps 0)) (v_col v) v
      else if c = 0x42 then
        move_cursor (min (rows (v_screen v) - 1) (v_row v + positive_param ps 0)) (v_col v) v
      else if c = 0x43 then
        move_cursor (v_row v) (min (cols (v_screen v) - 1) (v_col v + positive_param ps 0)) v
      else if c = 0x44 then move_cursor (v_row v) (max 0 (v_col v - positive_param ps 0)) v
      else if c = 0x4A then erase_display (first_param ps) v
      else if c = 0x4B then erase_line (first_param ps) v
      else if c = 0x73 then save_cursor v
      else if c = 0x75 then restore_cursor v
      else v)"

text \<open>
  Both parsers return what is left of the text. A control sequence without a final letter takes
  all of it.
\<close>

definition parse_csi_sequence :: "bytes \<Rightarrow> vt100 \<Rightarrow> bytes \<times> vt100" where
  "parse_csi_sequence ts v =
     (case dropWhile (\<lambda>b. \<not> is_alpha b) ts of
        [] \<Rightarrow> ([], v)
      | c # us \<Rightarrow>
          (case csi_params (takeWhile (\<lambda>b. \<not> is_alpha b) ts) of
             None \<Rightarrow> (drop 1 us, v)
           | Some ps \<Rightarrow> (us, handle_csi_command c ps v)))"

definition parse_escape_sequence :: "bytes \<Rightarrow> vt100 \<Rightarrow> bytes \<times> vt100" where
  "parse_escape_sequence ts v =
     (case ts of
        [] \<Rightarrow> ([], v)
      | c # us \<Rightarrow>
          if c = 0x5B then parse_csi_sequence us v
          else if c = 0x28 then (case us of [] \<Rightarrow> ([], v) | d # ws \<Rightarrow> (ws, v\<lparr>v_charset := d\<rparr>))
          else if c = 0x29 then (case us of [] \<Rightarrow> ([], v) | d # ws \<Rightarrow> (ws, v\<lparr>v_graphics := d\<rparr>))
          else if c = 0x23 then (drop 1 us, v)
          else if c = 0x37 then (us, save_cursor v)
          else if c = 0x38 then (us, restore_cursor v)
          else if c = 0x44 then (us, index_down v)
          else if c = 0x4D then (us, reverse_index v)
          else if c = 0x63 then (us, vt_reset v)
          else (us, v))"

lemma length_drop_alpha: "dropWhile f ts = c # us \<Longrightarrow> length us < length ts"
  by (metis length_dropWhile_le length_Cons Suc_le_eq)

lemma parse_csi_shorter: "length (fst (parse_csi_sequence ts v)) \<le> length ts"
  by (auto simp: parse_csi_sequence_def split: list.split option.split dest: length_drop_alpha)

lemma parse_escape_shorter: "length (fst (parse_escape_sequence ts v)) \<le> length ts"
proof (cases ts)
  case (Cons c us)
  have "length (fst (parse_csi_sequence us v)) \<le> Suc (length us)"
    using parse_csi_shorter [of us v] by simp
  then show ?thesis by (auto simp: parse_escape_sequence_def Cons split: list.split)
qed (simp add: parse_escape_sequence_def)

section \<open>The loop\<close>

function parse_text :: "(byte \<Rightarrow> bytes option) \<Rightarrow> bytes \<Rightarrow> vt100 \<Rightarrow> vt100" where
  "parse_text enc ts v =
     (case ts of
        [] \<Rightarrow> v
      | c # us \<Rightarrow>
          if c = 0x1B then
            (let r = parse_escape_sequence us v in parse_text enc (fst r) (snd r))
          else if c = 0x0E then parse_text enc us (v\<lparr>v_alt := True\<rparr>)
          else if c = 0x0F then parse_text enc us (v\<lparr>v_alt := False\<rparr>)
          else parse_text enc us (vt_write_char enc c v))"
  by pat_completeness auto
termination
  by (relation "measure (\<lambda>(_, ts, _). length ts)")
     (auto simp: less_Suc_eq_le split_def intro: parse_escape_shorter)

declare parse_text.simps [simp del]

text \<open>\<open>decode("ascii", errors="ignore")\<close> drops the other bytes; nothing else can fail.\<close>

definition vt_parse :: "(byte \<Rightarrow> bytes option) \<Rightarrow> bytes \<Rightarrow> vt100 \<Rightarrow> vt100" where
  "vt_parse enc data v =
     (let text = filter (\<lambda>b. b < 0x80) data
      in (parse_text enc text (save_state v))\<lparr>v_parser := Some (length text, length text)\<rparr>)"

section \<open>The screen stays whole\<close>

definition vt_ok :: "vt100 \<Rightarrow> bool" where
  "vt_ok v \<longleftrightarrow> wf_screen (v_screen v) \<and> on_screen (v_screen v) (v_row v, v_col v)
     \<and> on_screen (v_screen v) (v_saved_row v, v_saved_col v)"

definition same_shape :: "vt100 \<Rightarrow> vt100 \<Rightarrow> bool" where
  "same_shape v w \<longleftrightarrow> rows (v_screen w) = rows (v_screen v) \<and> cols (v_screen w) = cols (v_screen v)
     \<and> ascii_mode (v_screen w) = ascii_mode (v_screen v)"

lemma same_shape_refl [simp]: "same_shape v v"
  by (simp add: same_shape_def)

lemma same_shape_trans: "same_shape u v \<Longrightarrow> same_shape v w \<Longrightarrow> same_shape u w"
  by (simp add: same_shape_def)

definition vt_safe :: "(vt100 \<Rightarrow> vt100) \<Rightarrow> bool" where
  "vt_safe f \<longleftrightarrow> (\<forall>v. vt_ok v \<longrightarrow> vt_ok (f v) \<and> same_shape v (f v))"

lemma vt_safeD: "vt_safe f \<Longrightarrow> vt_ok v \<Longrightarrow> vt_ok (f v) \<and> same_shape v (f v)"
  by (simp add: vt_safe_def)

lemma on_screen_dims [simp]:
  "on_screen (s\<lparr>buffer := b\<rparr>) rc = on_screen s rc" "on_screen (clear s) rc = on_screen s rc"
  by (simp_all add: on_screen_def)

lemma wf_fill_range: "wf_screen s \<Longrightarrow> wf_screen (fill_range a b s)"
  by (simp add: fill_range_def wf_buffer_update)

lemma fill_range_dims [simp]:
  "rows (fill_range a b s) = rows s" "cols (fill_range a b s) = cols s"
  "ascii_mode (fill_range a b s) = ascii_mode s" "on_screen (fill_range a b s) rc = on_screen s rc"
  by (simp_all add: fill_range_def)

lemma store_at_dims [simp]:
  "rows (store_at p b s) = rows s" "cols (store_at p b s) = cols s"
  "ascii_mode (store_at p b s) = ascii_mode s" "on_screen (store_at p b s) rc = on_screen s rc"
  by (simp_all add: store_at_def)

lemma wf_store_at: "wf_screen s \<Longrightarrow> wf_screen (store_at p b s)"
  by (simp add: store_at_def wf_buffer_update)

lemma on_screen_of_safe:
  assumes "\<And>s. wf_screen s \<Longrightarrow> wf_screen (f s)" and "\<And>s. rows (f s) = rows s" and "\<And>s. cols (f s) = cols s"
    and "\<And>s. ascii_mode (f s) = ascii_mode s"
  shows "vt_safe (on_screen_of f)"
  using assms by (simp add: vt_safe_def on_screen_of_def vt_ok_def same_shape_def on_screen_def)

lemma clear_ascii_mode [simp]: "ascii_mode (clear s) = ascii_mode s"
  by (simp add: clear_def Let_def detect_fields_def set_position_def)

lemma safe_clear: "vt_safe (on_screen_of clear)"
  by (rule on_screen_of_safe) (auto intro: wf_rules)

lemma safe_fill: "vt_safe (on_screen_of (fill_range a b))"
  by (rule on_screen_of_safe) (auto intro: wf_fill_range)

lemma safe_erase: "vt_ok v \<Longrightarrow> vt_ok (erase_display p v) \<and> same_shape v (erase_display p v)"
  "vt_ok v \<Longrightarrow> vt_ok (erase_line p v) \<and> same_shape v (erase_line p v)"
  by (simp_all add: erase_display_def erase_line_def Let_def vt_safeD [OF safe_clear] vt_safeD [OF safe_fill])

text \<open>Everything else moves the cursor within the screen.\<close>

lemma vt_ok_pos: "vt_ok v \<Longrightarrow> 0 < rows (v_screen v) \<and> 0 < cols (v_screen v)"
  by (simp add: vt_ok_def wf_screen_pos)

lemma move_ok:
  assumes "vt_ok v" and "0 \<le> r" and "r < rows (v_screen v)" and "0 \<le> c" and "c < cols (v_screen v)"
  shows "vt_ok (v\<lparr>v_row := r, v_col := c\<rparr>)" "vt_ok (v\<lparr>v_col := c\<rparr>)" "vt_ok (v\<lparr>v_row := r\<rparr>)"
    "vt_ok (v\<lparr>v_col := c, v_row := r\<rparr>)"
  using assms by (simp_all add: vt_ok_def on_screen_def)

lemma safe_move: "vt_ok v \<Longrightarrow> vt_ok (move_cursor r c v) \<and> same_shape v (move_cursor r c v)"
  using vt_ok_pos [of v] by (simp add: move_cursor_def same_shape_def move_ok)

lemma safe_save: "vt_ok v \<Longrightarrow> vt_ok (save_cursor v) \<and> same_shape v (save_cursor v)"
  "vt_ok v \<Longrightarrow> vt_ok (restore_cursor v) \<and> same_shape v (restore_cursor v)"
  by (simp_all add: save_cursor_def restore_cursor_def vt_ok_def same_shape_def)

lemma safe_index: "vt_ok v \<Longrightarrow> vt_ok (index_down v) \<and> same_shape v (index_down v)"
  "vt_ok v \<Longrightarrow> vt_ok (reverse_index v) \<and> same_shape v (reverse_index v)"
  by (auto simp: index_down_def reverse_index_def vt_ok_def same_shape_def on_screen_def)

lemma safe_reset: "vt_ok v \<Longrightarrow> vt_ok (vt_reset v) \<and> same_shape v (vt_reset v)"
  using vt_ok_pos [of v]
  by (auto simp: vt_reset_def vt_ok_def same_shape_def on_screen_def intro: wf_rules)

lemma safe_next_cell: "vt_ok v \<Longrightarrow> vt_ok (next_cell v) \<and> same_shape v (next_cell v)"
  using vt_ok_pos [of v]
  by (auto simp: next_cell_def vt_ok_def same_shape_def on_screen_def)

lemma safe_csi: "vt_ok v \<Longrightarrow> vt_ok (handle_csi_command c ps v) \<and> same_shape v (handle_csi_command c ps v)"
  by (simp add: handle_csi_command_def safe_move safe_erase safe_save)

lemma safe_modes:
  "vt_ok (v\<lparr>v_alt := b\<rparr>) = vt_ok v" "vt_ok (v\<lparr>v_charset := c\<rparr>) = vt_ok v"
  "vt_ok (v\<lparr>v_graphics := c\<rparr>) = vt_ok v" "vt_ok (v\<lparr>v_parser := q\<rparr>) = vt_ok v"
  "vt_ok (v\<lparr>v_last_good := l\<rparr>) = vt_ok v"
  by (simp_all add: vt_ok_def)

lemma safe_write: "vt_ok v \<Longrightarrow> vt_ok (vt_write_char enc ch v) \<and> same_shape v (vt_write_char enc ch v)"
proof -
  assume v: "vt_ok v"
  then have d: "0 \<le> v_row v" "v_row v < rows (v_screen v)" "0 \<le> v_col v" "v_col v < cols (v_screen v)"
    by (simp_all add: vt_ok_def on_screen_def)
  have st: "vt_safe (on_screen_of (store_at p b))" for p b
    by (rule on_screen_of_safe) (auto intro: wf_store_at)
  have "vt_ok (next_cell (on_screen_of (store_at p b) v))
      \<and> same_shape v (next_cell (on_screen_of (store_at p b) v))" for p b
    using vt_safeD [OF st v, of p b] safe_next_cell same_shape_trans by blast
  with v d safe_next_cell [OF v] show ?thesis
    by (auto simp: vt_write_char_def Let_def move_ok same_shape_def)
qed

lemma safe_escape:
  assumes "vt_ok v"
  shows "vt_ok (snd (parse_escape_sequence ts v)) \<and> same_shape v (snd (parse_escape_sequence ts v))"
proof -
  have "vt_ok (snd (parse_csi_sequence us v)) \<and> same_shape v (snd (parse_csi_sequence us v))" for us
    using assms by (simp add: parse_csi_sequence_def safe_csi split: list.split option.split)
  with assms show ?thesis
    by (auto simp: parse_escape_sequence_def safe_save safe_index safe_reset safe_modes
        split: list.split) (simp_all add: same_shape_def)
qed

lemma safe_parse_text: "vt_ok v \<Longrightarrow> vt_ok (parse_text enc ts v) \<and> same_shape v (parse_text enc ts v)"
proof (induction "length ts" arbitrary: ts v rule: less_induct)
  case less
  have step: "vt_ok (parse_text enc us w) \<and> same_shape v (parse_text enc us w)"
    if "length us < length ts" "vt_ok w" "same_shape v w" for us w
    using less.hyps [OF that(1,2)] that(3) same_shape_trans by blast
  show ?case
  proof (cases ts)
    case Nil
    with less.prems show ?thesis by (simp add: parse_text.simps)
  next
    case (Cons c us)
    let ?r = "parse_escape_sequence us v"
    have "length (fst ?r) < length ts" using parse_escape_shorter [of us v] Cons by simp
    from step [OF this] safe_escape [OF less.prems]
    have e: "vt_ok (parse_text enc (fst ?r) (snd ?r)) \<and> same_shape v (parse_text enc (fst ?r) (snd ?r))"
      by blast
    have a: "vt_ok (v\<lparr>v_alt := b\<rparr>)" "same_shape v (v\<lparr>v_alt := b\<rparr>)" for b
      using less.prems by (simp_all add: safe_modes same_shape_def)
    have l: "length us < length ts" by (simp add: Cons)
    show ?thesis
      unfolding Cons parse_text.simps [of enc "c # us"] Let_def list.case
      using e step [OF l a] step [OF l, of "vt_write_char enc c v"] safe_write [OF less.prems, of enc c]
      by (simp split: if_split)
  qed
qed

text \<open>
  C39. Whatever a host sends as terminal data, the screen stays well formed, keeps its size and mode,
  and both the cursor and the saved cursor stay on it.
\<close>

theorem vt100_never_leaves_screen:
  assumes "vt_ok v"
  shows "vt_ok (vt_parse enc data v) \<and> same_shape v (vt_parse enc data v)"
proof -
  have "vt_ok (save_state v)" "same_shape v (save_state v)"
    using assms by (simp_all add: save_state_def safe_modes same_shape_def)
  with safe_parse_text [OF this(1)] same_shape_trans show ?thesis
    by (simp add: vt_parse_def Let_def safe_modes) (simp add: same_shape_def)
qed

definition demo_vt :: vt100 where
  "demo_vt = VT100Parser_init (set_ascii_mode True demo_screen)"

lemma demo_vt_ok: "vt_ok demo_vt"
  using wf_ascii_mode [OF wf_demo]
  by (simp add: demo_vt_def VT100Parser_init_def vt_ok_def on_screen_def set_ascii_mode_def demo_facts)

theorem vt100_never_leaves_screen_witness:
  "vt_ok (vt_parse (\<lambda>b. None) [0x1B, 0x5B, 0x39, 0x39, 0x42, 0x41, 0x0A, 0x1B, 0x5B, 0x32, 0x4A] demo_vt)"
  using vt100_never_leaves_screen [OF demo_vt_ok] by blast

section \<open>Writing text\<close>

definition cell :: "vt100 \<Rightarrow> int" where
  "cell v = linear (v_screen v) (v_row v, v_col v)"

definition cells :: "vt100 \<Rightarrow> int" where
  "cells v = rows (v_screen v) * cols (v_screen v)"

definition printable :: "byte \<Rightarrow> bool" where
  "printable b \<longleftrightarrow> 0x20 \<le> b \<and> b < 0x80"

lemma cell_range: "vt_ok v \<Longrightarrow> 0 \<le> cell v \<and> cell v < cells v \<and> cells v = int (length (buffer (v_screen v)))"
proof -
  assume v: "vt_ok v"
  then have w: "wf_dims (v_screen v)" by (simp add: vt_ok_def wf_dimsD)
  from v have "on_screen (v_screen v) (v_row v, v_col v)" by (simp add: vt_ok_def)
  from on_screen_linear [OF w this] w show ?thesis
    by (simp add: cell_def cells_def wf_dims_def)
qed

lemma printable_codes:
  "printable b \<Longrightarrow> b \<noteq> 0x1B \<and> b \<noteq> 0x0E \<and> b \<noteq> 0x0F \<and> b \<noteq> 0x0A \<and> b \<noteq> 0x0D \<and> b \<noteq> 0x09 \<and> b \<noteq> 0x08 \<and> b \<noteq> 0x07"
  by (auto simp: printable_def)

lemma write_printable:
  assumes "vt_ok v" and "printable ch" and "ascii_mode (v_screen v)"
  shows "vt_write_char enc ch v = next_cell (on_screen_of (store_at (cell v) ch) v)"
  using assms(1,3) printable_codes [OF assms(2)] cell_range [OF assms(1)]
  by (simp add: vt_write_char_def safe_buffer_access_def vt_ok_def on_screen_def cell_def linear_def
      cells_def stored_byte_def)

lemma next_cell_cell:
  assumes "vt_ok v" and "cell v + 1 < cells v"
  shows "cell (next_cell v) = cell v + 1"
proof -
  let ?r = "v_row v" and ?c = "v_col v" and ?R = "rows (v_screen v)" and ?C = "cols (v_screen v)"
  have d: "0 \<le> ?c" "?c < ?C" using assms(1) by (simp_all add: vt_ok_def on_screen_def)
  show ?thesis
  proof (cases "?c + 1 \<ge> ?C")
    case True
    then have c: "?c = ?C - 1" using d by simp
    with assms(2) have "(?r + 1) * ?C < ?R * ?C" by (simp add: cell_def cells_def linear_def algebra_simps)
    then have "?r + 1 < ?R" using d by (simp add: mult_less_cancel_right)
    with c True show ?thesis
      by (simp add: next_cell_def cell_def linear_def algebra_simps)
  qed (simp add: next_cell_def cell_def linear_def)
qed

lemma next_cell_screen [simp]: "v_screen (next_cell v) = v_screen v"
  by (simp add: next_cell_def)

lemma write_text:
  assumes "vt_ok v" and "ascii_mode (v_screen v)" and "list_all printable str"
    and "cell v + int (length str) \<le> cells v"
  shows "buffer (v_screen (parse_text enc str v))
       = take (nat (cell v)) (buffer (v_screen v)) @ str
           @ drop (nat (cell v) + length str) (buffer (v_screen v))
     \<and> (cell v + int (length str) < cells v \<longrightarrow> cell (parse_text enc str v) = cell v + int (length str))"
  using assms
proof (induction str arbitrary: v)
  case Nil
  then show ?case by (simp add: parse_text.simps)
next
  case (Cons ch str)
  let ?w = "vt_write_char enc ch v"
  let ?k = "nat (cell v)"
  have p: "printable ch" "list_all printable str" using Cons.prems(3) by simp_all
  have w: "?w = next_cell (on_screen_of (store_at (cell v) ch) v)"
    using write_printable [OF Cons.prems(1) p(1) Cons.prems(2)] .
  then have s: "v_screen ?w = store_at (cell v) ch (v_screen v)" by (simp add: on_screen_of_def)
  have b: "buffer (v_screen ?w) = (buffer (v_screen v))[?k := ch]" by (simp add: s store_at_def)
  have k: "0 \<le> cell v" "cell v < cells v" "?k < length (buffer (v_screen v))"
    using cell_range [OF Cons.prems(1)] by auto
  have ok: "vt_ok ?w" "ascii_mode (v_screen ?w)" "cells ?w = cells v"
    using safe_write [OF Cons.prems(1), of enc ch] Cons.prems(2)
    by (simp_all add: same_shape_def cells_def)
  have step: "parse_text enc (ch # str) v = parse_text enc str ?w"
    using printable_codes [OF p(1)] by (simp add: parse_text.simps [of enc "ch # str"])
  have mid: "cell ?w = cell v + 1" if "cell v + 1 < cells v"
  proof -
    have "vt_safe (on_screen_of (store_at (cell v) ch))"
      by (rule on_screen_of_safe) (auto intro: wf_store_at)
    from vt_safeD [OF this Cons.prems(1)] have "vt_ok (on_screen_of (store_at (cell v) ch) v)" ..
    from next_cell_cell [OF this] that show ?thesis
      by (simp add: w cell_def cells_def on_screen_of_def linear_def)
  qed
  show ?case
  proof (cases "str = []")
    case True
    then show ?thesis
      using k mid
      by (simp add: step [unfolded True] b parse_text.simps [of enc "[]"] upd_conv_take_nth_drop)
  next
    case False
    then have c: "cell v + 1 < cells v" using Cons.prems(4) by (cases str) auto
    have l: "nat (1 + cell v) = Suc ?k" using k by simp
    have "take (Suc ?k) ((buffer (v_screen v))[?k := ch]) = take ?k (buffer (v_screen v)) @ [ch]"
      using k(3) by (simp add: take_Suc_conv_app_nth)
    moreover have "drop (Suc ?k + length str) ((buffer (v_screen v))[?k := ch])
        = drop (?k + length (ch # str)) (buffer (v_screen v))"
      by simp
    ultimately show ?thesis
      using Cons.IH [OF ok(1,2) p(2)] Cons.prems(4) ok(3)
      by (simp add: step mid [OF c] b l algebra_simps)
  qed
qed

section \<open>Positioned text\<close>

lemma digit_codes: "is_digit b \<Longrightarrow> \<not> is_alpha b \<and> b \<noteq> 0x3B \<and> b < 0x80"
  by (auto simp: is_digit_def is_alpha_def word_le_nat_alt word_less_nat_alt)

text \<open>
  A cursor position sequence with two numbers, followed by text, puts the text at that row and
  column (counted from one) of an ASCII screen and changes nothing else on it; the cursor ends
  behind the text.
\<close>

lemma positioned_text:
  assumes "vt_ok v" and "ascii_mode (v_screen v)" and "list_all printable str"
    and "list_all is_digit rs" and "rs \<noteq> []" and "length rs \<le> 4300" and "decimal rs = r + 1"
    and "list_all is_digit cs" and "cs \<noteq> []" and "length cs \<le> 4300" and "decimal cs = c + 1"
    and "on_screen (v_screen v) (r, c)"
    and "linear (v_screen v) (r, c) + int (length str) < rows (v_screen v) * cols (v_screen v)"
  shows "let k = nat (linear (v_screen v) (r, c));
             w = vt_parse enc ([0x1B, 0x5B] @ rs @ [0x3B] @ cs @ [0x48] @ str) v
         in buffer (v_screen w) = take k (buffer (v_screen v)) @ str
                                    @ drop (k + length str) (buffer (v_screen v))
          \<and> linear (v_screen w) (v_row w, v_col w) = linear (v_screen v) (r, c) + int (length str)"
proof -
  let ?ps = "rs @ [0x3B] @ cs"
  let ?m = "move_cursor r c (save_state v)"
  have d: "list_all (\<lambda>b. \<not> is_alpha b) rs" "list_all (\<lambda>b. \<not> is_alpha b) cs"
    "0x3B \<notin> set rs" "0x3B \<notin> set cs" "list_all (\<lambda>b. b < 0x80) rs" "list_all (\<lambda>b. b < 0x80) cs"
    "list_all (\<lambda>b. b < 0x80) str"
    using assms(3,4,8) digit_codes by (auto simp: list_all_iff printable_def)
  have semi: "\<not> is_alpha 0x3B" "is_alpha 0x48" by (simp_all add: is_alpha_def)
  have t: "takeWhile (\<lambda>b. \<not> is_alpha b) (?ps @ 0x48 # str) = ?ps"
    "dropWhile (\<lambda>b. \<not> is_alpha b) (?ps @ 0x48 # str) = 0x48 # str"
    using d(1,2) semi by (auto simp: list_all_iff takeWhile_append2 dropWhile_append2)
  have ps: "csi_params ?ps = Some [r + 1, c + 1]"
    using d(3,4) assms(4-11)
    by (simp add: csi_params_def py_split_append py_split_word csi_param_def)
  have rc: "0 \<le> r" "0 \<le> c" using assms(12) by (simp_all add: on_screen_def)
  have "parse_csi_sequence (?ps @ 0x48 # str) (save_state v) = (str, ?m)"
    unfolding parse_csi_sequence_def t using ps rc
    by (simp add: handle_csi_command_def positive_param_def)
  then have p: "parse_text enc ([0x1B, 0x5B] @ ?ps @ [0x48] @ str) (save_state v) = parse_text enc str ?m"
    by (simp add: parse_text.simps [of enc "0x1B # x" for x] parse_escape_sequence_def)
  have f: "filter (\<lambda>b. b < 0x80) ([0x1B, 0x5B] @ rs @ [0x3B] @ cs @ [0x48] @ str)
         = [0x1B, 0x5B] @ ?ps @ [0x48] @ str"
    using d(5-7) by (simp add: list_all_iff filter_id_conv)
  have s: "vt_ok (save_state v)" "v_screen (save_state v) = v_screen v"
    using assms(1) by (simp_all add: save_state_def safe_modes)
  have m: "vt_ok ?m" "v_screen ?m = v_screen v" "v_row ?m = r" "v_col ?m = c"
    using conjunct1 [OF safe_move [OF s(1), of r c]] s(2) assms(12)
    by simp_all (simp_all add: move_cursor_def on_screen_def)
  from write_text [OF m(1), of str enc] m(2-4) assms(2,3,13) show ?thesis
    unfolding vt_parse_def f Let_def p by (simp add: cell_def cells_def)
qed

text \<open>
  The parser keeps nothing between calls: the escape character at the end of one chunk is dropped,
  and the rest of its sequence is written as text when the next chunk arrives.
\<close>

lemma split_escape_lost:
  "parse_text enc xs (parse_text enc [0x1B] v) = parse_text enc xs v"
  by (simp add: parse_text.simps [of enc "[0x1B]"] parse_escape_sequence_def parse_text.simps [of enc "[]"])

end
