(* ===== verification/Receive.thy ===== *)
theory Receive
  imports Session NegotiationProps VT100
begin

text \<open>
  The receiving half of \<open>pure3270/protocol/tn3270_handler.py\<close>: \<open>receive_data\<close> with its two ways of
  processing a chunk, \<open>_handle_tn3270_mode\<close> and \<open>_handle_ascii_mode\<close>. The Telnet layer, the
  negotiator, the parser, the terminal and the screen are the ones of the other theories; the flags
  the handler and the negotiator keep of each other are those of the negotiator's view of the handler.

  What the connection delivers before the deadline is the argument \<open>arrivals\<close>, one element for each
  return of \<open>reader.read\<close>; when it is used up the deadline has passed. \<open>enc\<close> is the terminal's
  translation of a character, \<open>now\<close> the clock. Whether the negotiation is complete only selects what is logged.
\<close>

section \<open>State\<close>

record receiver =
  rx_telnet :: "neg telnet"
  rx_parser :: dsp
  rx_seq :: seq_state
  rx_pending :: bytes
  rx_reader :: bool

datatype receive_error =
    Rx_not_connected
  | Rx_timeout
  | Rx_closed
  | Rx_negotiator neg_error

datatype arrival = Chunk bytes | Read_fails | Read_stops

abbreviation rx_neg :: "receiver \<Rightarrow> neg" where
  "rx_neg r \<equiv> negotiator (rx_telnet r)"

abbreviation rx_screen :: "receiver \<Rightarrow> screen" where
  "rx_screen r \<equiv> d_screen (rx_parser r)"

definition set_rx_neg :: "neg \<Rightarrow> receiver \<Rightarrow> receiver" where
  "set_rx_neg n r = r\<lparr>rx_telnet := (rx_telnet r)\<lparr>negotiator := n\<rparr>\<rparr>"

definition on_rx_screen :: "(screen \<Rightarrow> screen) \<Rightarrow> receiver \<Rightarrow> receiver" where
  "on_rx_screen f r = r\<lparr>rx_parser := (rx_parser r)\<lparr>d_screen := f (rx_screen r)\<rparr>\<rparr>"

text \<open>The handler's own copy of the flag that TN3270E was negotiated.\<close>

definition rx_negotiated :: "receiver \<Rightarrow> bool" where
  "rx_negotiated r = (case ng_handler (rx_neg r) of Some h \<Rightarrow> hv_negotiated h | None \<Rightarrow> False)"

section \<open>Bytes\<close>

definition rstrip_19 :: "bytes \<Rightarrow> bytes" where
  "rstrip_19 bs = rev (dropWhile (\<lambda>b. b = 0x19) (rev bs))"

definition strip_f5 :: "bytes \<Rightarrow> bytes" where
  "strip_f5 bs = (if bs \<noteq> [] \<and> hd bs = 0xF5 then tl bs else bs)"

fun strip_zero_blocks :: "bytes \<Rightarrow> bytes" where
  "strip_zero_blocks (a # b # c # d # bs) =
     (if a = 0 \<and> b = 0 \<and> c = 0 \<and> d = 0 then strip_zero_blocks bs else a # b # c # d # bs)"
| "strip_zero_blocks bs = bs"

definition ends_with :: "bytes \<Rightarrow> bytes \<Rightarrow> bool" where
  "ends_with suffix bs \<longleftrightarrow> length suffix \<le> length bs \<and> drop (length bs - length suffix) bs = suffix"

text \<open>The four characters of an escape sequence written out, replaced by the escape byte.\<close>

fun unescape_literal :: "bytes \<Rightarrow> bytes" where
  "unescape_literal (a # b # c # d # bs) =
     (if [a, b, c, d] = [0x5C, 0x78, 0x31, 0x62] then 0x1B # unescape_literal bs
      else a # unescape_literal (b # c # d # bs))"
| "unescape_literal bs = bs"

definition get_fixture_header_len :: "bytes \<Rightarrow> nat \<Rightarrow> nat" where
  "get_fixture_header_len data default_len =
     (if length data \<ge> 5 \<and> take 4 data = [0, 0, 0, 0] \<and> data ! 4 = 0xF5 then 4 else default_len)"

section \<open>Handing over\<close>

text \<open>A call of the parser whose \<open>ParseError\<close> is caught.\<close>

definition run_parser :: "bytes \<Rightarrow> int \<Rightarrow> receiver \<Rightarrow> receiver" where
  "run_parser data data_type r =
     (case parse data data_type (rx_parser r) of
        None \<Rightarrow> r
      | Some (_, p) \<Rightarrow> r\<lparr>rx_parser := p\<rparr>)"

text \<open>A terminal of its own for the data, on the handler's screen.\<close>

definition run_vt100 :: "(byte \<Rightarrow> bytes option) \<Rightarrow> bytes \<Rightarrow> receiver \<Rightarrow> receiver" where
  "run_vt100 enc data = on_rx_screen (\<lambda>s. v_screen (vt_parse enc data (VT100Parser_init s)))"

definition note_sequence_number :: "int \<Rightarrow> TN3270EHeader \<Rightarrow> receiver \<Rightarrow> receiver" where
  "note_sequence_number now h r =
     (let q = rx_seq r; expected = (last_received_seq_number q + 1) mod 65536
      in r\<lparr>rx_seq := (if \<not> validate_sequence_number (h_seq_number h) expected q
                      then synchronize_sequence_numbers now (h_seq_number h) q
                      else q\<lparr>last_received_seq_number := h_seq_number h\<rparr>)\<rparr>)"

text \<open>The negotiator is told of the header; what it raises ends the processing.\<close>

definition note_response :: "TN3270EHeader \<Rightarrow> receiver \<Rightarrow> receive_error option \<times> receiver" where
  "note_response h r =
     (let (e, n) = handle_tn3270e_response h [] (rx_neg r)
      in (map_option Rx_negotiator e, set_rx_neg n r))"

section \<open>3270 data\<close>

definition TN3270E_DATA_TYPES :: "int list" where
  "TN3270E_DATA_TYPES = [0x00, 0x01, 0x02, 0x03, 0x04, 0x05, 0x06, 0x07, 0x08, 0x09, 0x0A, 0x0A]"

text \<open>Print data and printer status of a printer session.\<close>

definition deliver_to_printer :: "bytes \<Rightarrow> nat \<Rightarrow> int \<Rightarrow> receiver \<Rightarrow> bytes option \<times> receiver" where
  "deliver_to_printer data header_len data_type r =
     (Some (strip_f5 (drop header_len (rstrip_19 data))),
      run_parser (strip_f5 (drop header_len data)) data_type r)"

text \<open>Everything else; \<open>None\<close> when nothing is left of the data.\<close>

definition deliver_payload :: "bytes \<Rightarrow> nat \<Rightarrow> int \<Rightarrow> receiver \<Rightarrow> bytes option \<times> receiver" where
  "deliver_payload data header_len data_type r =
     (let payload = rstrip_19 data;
          stripped = strip_f5 (strip_zero_blocks (drop header_len payload))
      in if payload = [] then (None, r)
         else (Some stripped, run_parser stripped data_type r))"

text \<open>
  \<open>_handle_tn3270_mode\<close>. The first five bytes are taken for a TN3270E header whenever they could be
  one, negotiated or not.
\<close>

definition handle_tn3270_mode ::
    "int \<Rightarrow> bytes \<Rightarrow> receiver \<Rightarrow> (receive_error + bytes option) \<times> receiver" where
  "handle_tn3270_mode now data r =
     (case from_bytes (take 5 data) of
        None \<Rightarrow> (let (out, r1) = deliver_payload data 0 0 r in (Inr out, r1))
      | Some h \<Rightarrow>
          (if h_data_type h \<notin> set TN3270E_DATA_TYPES
           then (let (out, r1) = deliver_payload data 0 (h_data_type h) r in (Inr out, r1))
           else (case note_response h (note_sequence_number now h r) of
                   (Some e, r1) \<Rightarrow> (Inl e, r1)
                 | (None, r1) \<Rightarrow>
                     (let n = get_fixture_header_len data 5;
                          (out, r2) = (if h_data_type h \<in> {0x01, 0x0A} \<and> has_printer (rx_parser r1)
                                       then deliver_to_printer data n (h_data_type h) r1
                                       else deliver_payload data n (h_data_type h) r1)
                      in (Inr out, r2)))))"

section \<open>Terminal data\<close>

definition tn3270e_active :: "neg \<Rightarrow> bool" where
  "tn3270e_active n \<longleftrightarrow> ng_tn3270e_mode n \<or> ng_negotiated n \<or> is_data_stream_ctl_active n"

definition leave_ascii_mode :: "screen \<Rightarrow> screen" where
  "leave_ascii_mode s = (if ascii_mode s then set_ascii_mode False s else s)"

text \<open>Escape sequences in the data: all of it goes to the terminal.\<close>

definition deliver_vt100 :: "(byte \<Rightarrow> bytes option) \<Rightarrow> bytes \<Rightarrow> receiver \<Rightarrow> receiver" where
  "deliver_vt100 enc data r =
     (let t = unescape_literal data;
          t' = (if ends_with [0xFF, 0x19] t then take (length t - 2) t else t)
      in run_vt100 enc t' (on_rx_screen (set_ascii_mode True) r))"

text \<open>Without an escape sequence and without a header: terminal first, then parser.\<close>

definition deliver_both :: "(byte \<Rightarrow> bytes option) \<Rightarrow> bytes \<Rightarrow> receiver \<Rightarrow> bytes option \<times> receiver" where
  "deliver_both enc data r =
     (let t = (if ends_with [0xFF, 0x19] data then take (length data - 2) data
               else if ends_with [0x19] data then take (length data - 1) data else data);
          r1 = run_vt100 enc t r
      in if data = [] then (None, r1)
         else (Some (rstrip_19 data), run_parser data 0 (on_rx_screen leave_ascii_mode r1)))"

text \<open>
  \<open>_handle_ascii_mode\<close>. The length of the header is zero unless the data is that of a test fixture.
\<close>

definition handle_ascii_mode ::
    "(byte \<Rightarrow> bytes option) \<Rightarrow> int \<Rightarrow> bytes \<Rightarrow> receiver \<Rightarrow> (receive_error + bytes option) \<times> receiver" where
  "handle_ascii_mode enc now data r =
     (if 0x1B \<in> set data \<or> py_contains [0x5C, 0x78, 0x31, 0x62] data
      then (Inr (Some (rstrip_19 data)), deliver_vt100 enc data r)
      else
        (let header = (if length data \<ge> 5 \<and> tn3270e_active (rx_neg r) then from_bytes (take 5 data) else None)
         in case header of
              Some h \<Rightarrow>
                (if h_data_type h \<in> set TN3270E_DATA_TYPES - {0x02}
                 then (let n = get_fixture_header_len data 0
                       in case note_response h (note_sequence_number now h r) of
                            (Some e, r1) \<Rightarrow> (Inl e, r1)
                          | (None, r1) \<Rightarrow>
                              (Inr (Some (strip_f5 (drop n (rstrip_19 data)))),
                               run_parser (strip_f5 (drop n data)) (h_data_type h)
                                 (on_rx_screen leave_ascii_mode r1)))
                 else (let (out, r1) = deliver_both enc data r in (Inr out, r1)))
            | None \<Rightarrow> (let (out, r1) = deliver_both enc data r in (Inr out, r1))))"

section \<open>A chunk\<close>

text \<open>
  One round of the loop of \<open>receive_data\<close>: \<open>Some\<close> is what it returns or raises, \<open>None\<close> that it reads on.
\<close>

definition telnet_step :: "bytes \<Rightarrow> receiver \<Rightarrow> (bytes \<times> bool) \<times> receiver" where
  "telnet_step part r =
     (let (res, t) = process_telnet_stream negotiator_instance part (rx_telnet r)
      in (res, r\<lparr>rx_telnet := t\<rparr>))"

definition in_ascii_mode :: "bool \<Rightarrow> receiver \<Rightarrow> bool" where
  "in_ascii_mode vt_seen r \<longleftrightarrow> vt_seen \<or> ng_ascii (rx_neg r)"

definition handle_data ::
    "(byte \<Rightarrow> bytes option) \<Rightarrow> int \<Rightarrow> bool \<Rightarrow> bytes \<Rightarrow> receiver \<Rightarrow> (receive_error + bytes option) \<times> receiver" where
  "handle_data enc now vt_seen data r =
     (if in_ascii_mode vt_seen r then handle_ascii_mode enc now data r else handle_tn3270_mode now data r)"

definition note_detection :: "bool \<Rightarrow> receiver \<Rightarrow> receiver" where
  "note_detection vt_seen r =
     (if vt_seen \<and> \<not> rx_negotiated r then set_rx_neg (neg_set_ascii_mode (rx_neg r)) r else r)"

definition process_part ::
    "(byte \<Rightarrow> bytes option) \<Rightarrow> int \<Rightarrow> bytes \<Rightarrow> receiver \<Rightarrow> (receive_error + bytes) option \<times> receiver" where
  "process_part enc now part r =
     (let ((data, vt_seen), r1) = telnet_step part r; r2 = note_detection vt_seen r1
      in if data = [] \<and> telnet_buffer (rx_telnet r1) \<noteq> [] then (Some (Inr []), r1)
         else case handle_data enc now vt_seen data r2 of
                (Inl e, r3) \<Rightarrow> (Some (Inl e), r3)
              | (Inr (Some out), r3) \<Rightarrow> (Some (Inr out), r3)
              | (Inr None, r3) \<Rightarrow>
                  (if data = [] \<and> \<not> in_ascii_mode vt_seen r2 then Some (Inr []) else None, r3))"

fun receive_loop ::
    "(byte \<Rightarrow> bytes option) \<Rightarrow> int \<Rightarrow> arrival list \<Rightarrow> receiver \<Rightarrow> (receive_error + bytes) \<times> receiver \<times> arrival list" where
  "receive_loop enc now [] r = (Inl Rx_timeout, r, [])"
| "receive_loop enc now (a # as) r =
     (case a of
        Read_fails \<Rightarrow> receive_loop enc now as r
      | Read_stops \<Rightarrow> (Inr [], r, as)
      | Chunk part \<Rightarrow>
          (if part = [] then (Inl Rx_closed, r, as)
           else case process_part enc now part r of
                  (Some res, r1) \<Rightarrow> (res, r1, as)
                | (None, r1) \<Rightarrow> receive_loop enc now as r1))"

definition receive_data ::
    "(byte \<Rightarrow> bytes option) \<Rightarrow> int \<Rightarrow> arrival list \<Rightarrow> receiver \<Rightarrow> (receive_error + bytes) \<times> receiver \<times> arrival list" where
  "receive_data enc now arrivals r =
     (if \<not> rx_reader r \<or> \<not> has_writer (rx_telnet r) then (Inl Rx_not_connected, r, arrivals)
      else if rx_pending r \<noteq> []
      then (case process_part enc now (rx_pending r) (r\<lparr>rx_pending := []\<rparr>) of
              (Some res, r1) \<Rightarrow> (res, r1, arrivals)
            | (None, r1) \<Rightarrow> receive_loop enc now arrivals r1)
      else receive_loop enc now arrivals r)"

end
