(* ===== verification/ReceiveProps.thy ===== *)
theory ReceiveProps
  imports Receive
begin

text \<open>
  What the receiving half of the handler does with a connection: whatever arrives, screen and
  negotiator stay whole; what a plain write leads to on the screen; what becomes of the ends of the
  records, of TN3270E headers, and of the command byte 0xF5.
\<close>

section \<open>Everything stays whole\<close>

text \<open>
  What holds between two states of a receiver: a screen that was well formed still is, with the same
  dimensions, and the negotiator has evolved.
\<close>

definition sound_step :: "receiver \<Rightarrow> receiver \<Rightarrow> bool" where
  "sound_step r r' \<longleftrightarrow>
     (wf_screen (rx_screen r) \<longrightarrow>
        wf_screen (rx_screen r') \<and> rows (rx_screen r') = rows (rx_screen r) \<and> cols (rx_screen r') = cols (rx_screen r))
     \<and> evolves (rx_neg r) (rx_neg r')"

named_theorems sound_rules \<open>steps of the receiver that keep screen and negotiator whole\<close>

lemma sound_refl [simp, sound_rules]: "sound_step r r"
  by (simp add: sound_step_def)

lemma sound_trans: "sound_step a b \<Longrightarrow> sound_step b c \<Longrightarrow> sound_step a c"
  by (auto simp: sound_step_def intro: evolves_trans)

lemma sound_parser [sound_rules]: "sound_step r (run_parser data t r)"
proof -
  obtain res p where p: "parse data t (rx_parser r) = Some (res, p)"
    using parse_total [of data t "rx_parser r"] by auto
  then have "wf_screen (d_screen p) \<and> rows (d_screen p) = rows (rx_screen r) \<and> cols (d_screen p) = cols (rx_screen r)"
    if "wf_screen (rx_screen r)" using wf.keep_parse [OF p] that by simp
  with p show ?thesis by (simp add: run_parser_def sound_step_def)
qed

lemma sound_screen: 
  assumes "\<And>s. wf_screen s \<Longrightarrow> wf_screen (f s) \<and> rows (f s) = rows s \<and> cols (f s) = cols s"
  shows "sound_step r (on_rx_screen f r)"
  using assms [of "rx_screen r"] by (simp add: sound_step_def on_rx_screen_def)

lemma sound_ascii [sound_rules]: "sound_step r (on_rx_screen (set_ascii_mode b) r)"
  by (rule sound_screen) (simp add: set_ascii_mode_def wf_ascii)

lemma sound_leave_ascii [sound_rules]: "sound_step r (on_rx_screen leave_ascii_mode r)"
  by (rule sound_screen) (simp add: leave_ascii_mode_def set_ascii_mode_def wf_ascii)

lemma vt_init_ok: "wf_screen s \<Longrightarrow> vt_ok (VT100Parser_init s)"
  by (auto simp: vt_ok_def VT100Parser_init_def on_screen_def wf_screen_def wf_dims_def)

lemma sound_vt100 [sound_rules]: "sound_step r (run_vt100 enc data r)"
  unfolding run_vt100_def
proof (rule sound_screen)
  fix s :: screen
  let ?v = "VT100Parser_init s"
  assume s: "wf_screen s"
  have "vt_ok (save_state ?v)" "same_shape ?v (save_state ?v)"
    using vt_init_ok [OF s] by (simp_all add: save_state_def safe_modes same_shape_def)
  then have "vt_ok (vt_parse enc data ?v)" "same_shape ?v (vt_parse enc data ?v)"
    using safe_parse_text [of "save_state ?v"] same_shape_trans
    by (simp_all add: vt_parse_def Let_def safe_modes) (simp_all add: same_shape_def)
  then show "wf_screen (v_screen (vt_parse enc data ?v)) \<and> rows (v_screen (vt_parse enc data ?v)) = rows s
      \<and> cols (v_screen (vt_parse enc data ?v)) = cols s"
    by (simp add: vt_ok_def same_shape_def VT100Parser_init_def)
qed

lemma sound_neg: "evolves (rx_neg r) n \<Longrightarrow> sound_step r (set_rx_neg n r)"
  by (simp add: sound_step_def set_rx_neg_def)

lemma sound_sequence [sound_rules]: "sound_step r (note_sequence_number now h r)"
  by (simp add: note_sequence_number_def sound_step_def Let_def)

lemma sound_response [sound_rules]: "sound_step r (snd (note_response h r))"
  using sound_neg [of r "snd (handle_tn3270e_response h [] (rx_neg r))"] keepingD [OF keeping_response]
  by (simp add: note_response_def case_prod_beta)

lemma sound_telnet [sound_rules]: "sound_step r (snd (telnet_step part r))"
  using evolves_telnet [of "(rx_telnet r)\<lparr>telnet_buffer := []\<rparr>" "telnet_buffer (rx_telnet r) @ part" "[]"]
  by (simp add: telnet_step_def process_telnet_stream_def sound_step_def case_prod_beta)

lemmas sound_after =
  sound_trans [OF _ sound_parser] sound_trans [OF _ sound_ascii] sound_trans [OF _ sound_leave_ascii]
  sound_trans [OF _ sound_vt100] sound_trans [OF _ sound_sequence] sound_trans [OF _ sound_response]
  sound_trans [OF _ sound_telnet]

lemma sound_deliveries [sound_rules]:
  "sound_step r (snd (deliver_to_printer data n t r))"
  "sound_step r (snd (deliver_payload data n t r))"
  "sound_step r (deliver_vt100 enc data r)"
  "sound_step r (snd (deliver_both enc data r))"
  by (simp_all add: deliver_to_printer_def deliver_payload_def deliver_vt100_def deliver_both_def Let_def
      sound_after)

lemmas sound_after_delivery =
  sound_after sound_trans [OF _ sound_deliveries(1)] sound_trans [OF _ sound_deliveries(2)]
  sound_trans [OF _ sound_deliveries(3)] sound_trans [OF _ sound_deliveries(4)]

lemma sound_tn3270 [sound_rules]: "sound_step r (snd (handle_tn3270_mode now data r))"
  by (simp add: handle_tn3270_mode_def case_prod_unfold Let_def sound_after_delivery
      split: option.split)

lemma sound_ascii_mode [sound_rules]: "sound_step r (snd (handle_ascii_mode enc now data r))"
  by (simp add: handle_ascii_mode_def case_prod_unfold Let_def sound_after_delivery
      split: option.split)

lemma sound_detection [sound_rules]: "sound_step r (note_detection d r)"
  by (simp add: note_detection_def sound_neg evolves_ascii)

lemma sound_data [sound_rules]: "sound_step r (snd (handle_data enc now d data r))"
  by (simp add: handle_data_def sound_rules)

lemma sound_part [sound_rules]: "sound_step r (snd (process_part enc now part r))"
proof -
  obtain data d r1 where t: "telnet_step part r = ((data, d), r1)"
    by (metis prod.exhaust)
  obtain res r3 where h: "handle_data enc now d data (note_detection d r1) = (res, r3)" by fastforce
  have 1: "sound_step r r1" using t sound_telnet [of r part] by simp
  have "sound_step (note_detection d r1) r3" using h sound_data by (metis snd_conv)
  with 1 have 3: "sound_step r r3" using sound_detection by (blast intro: sound_trans)
  have "snd (process_part enc now part r) \<in> {r1, r3}"
  proof (cases res)
    case (Inr out)
    then show ?thesis by (cases out) (simp_all add: process_part_def t h Let_def)
  qed (simp add: process_part_def t h Let_def)
  with 1 3 show ?thesis by auto
qed

lemma sound_loop: "sound_step r (fst (snd (receive_loop enc now arrivals r)))"
proof (induction arrivals arbitrary: r)
  case (Cons a as)
  show ?case
  proof (cases a)
    case (Chunk part)
    obtain res r1 where p: "process_part enc now part r = (res, r1)" by fastforce
    then have "sound_step r r1" using sound_part by (metis snd_conv)
    with Cons.IH [of r1] Chunk p show ?thesis by (cases res) (auto intro: sound_trans)
  qed (use Cons.IH in auto)
qed simp

lemma sound_receive: "sound_step r (fst (snd (receive_data enc now arrivals r)))"
proof -
  have p: "sound_step r (r\<lparr>rx_pending := []\<rparr>)" by (simp add: sound_step_def)
  obtain res r1 where h: "process_part enc now (rx_pending r) (r\<lparr>rx_pending := []\<rparr>) = (res, r1)" by fastforce
  then have "sound_step r r1" using sound_trans [OF p sound_part] by (metis snd_conv)
  then show ?thesis
    using h sound_loop [of r] sound_trans [OF _ sound_loop, of r r1]
    by (cases res) (auto simp: receive_data_def)
qed

text \<open>A call of \<open>receive_data\<close> comes to an end after at most the reads that were delivered.\<close>

lemma receive_consumes:
  "\<exists>used. arrivals = used @ snd (snd (receive_data enc now arrivals r))"
proof -
  have suffix: "\<exists>used. as = used @ snd (snd (receive_loop enc now as q))" for as q
  proof (induction as arbitrary: q)
    case (Cons a as)
    have more: "\<exists>used. a # as = used @ snd (snd (receive_loop enc now as q'))" for q'
      using Cons.IH [of q'] by (metis append_Cons)
    show ?case
      using more by (cases a) (auto split: option.split prod.split)
  qed simp
  obtain res r1 where p: "process_part enc now (rx_pending r) (r\<lparr>rx_pending := []\<rparr>) = (res, r1)"
    by fastforce
  show ?thesis using p suffix by (cases res) (auto simp: receive_data_def)
qed

section \<open>Records\<close>

definition END_OF_RECORD :: bytes where "END_OF_RECORD = [IAC, 0xEF]"

text \<open>Records as a host sends them.\<close>

definition framed :: "bytes list \<Rightarrow> bytes" where
  "framed recs = concat (map (\<lambda>rec. escape_iac rec @ END_OF_RECORD) recs)"

lemma telnet_framed:
  "telnet_loop N (framed recs) out t = (out @ concat recs, t)"
proof (induction recs arbitrary: out)
  case (Cons rec recs)
  have "handle_telnet_command N 0xEF t = t" for t :: "'a telnet"
    by (simp add: handle_telnet_command_def)
  with Cons telnet_loop_escaped [of N rec "END_OF_RECORD @ framed recs"] show ?case
    by (simp add: framed_def END_OF_RECORD_def telnet_loop_steps negotiation_commands_def)
qed (simp add: framed_def)

lemma telnet_step_framed:
  assumes "telnet_buffer (rx_telnet r) = []"
  shows "telnet_step (framed recs) r = ((concat recs, detect_vt100_sequences (concat recs)), r)"
proof -
  have s: "(rx_telnet r)\<lparr>telnet_buffer := []\<rparr> = rx_telnet r" using assms by simp
  then show ?thesis
    using assms telnet_framed [of negotiator_instance recs "[]" "rx_telnet r"]
    by (simp add: telnet_step_def process_telnet_stream_def s)
qed

lemma escape_empty: "escape_iac bs = [] \<longleftrightarrow> bs = []"
  by (cases bs) (simp_all add: escape_iac_def)

lemma telnet_step_escaped:
  assumes "telnet_buffer (rx_telnet r) = []"
  shows "telnet_step (escape_iac bs) r = ((bs, detect_vt100_sequences bs), r)"
proof -
  have s: "(rx_telnet r)\<lparr>telnet_buffer := []\<rparr> = rx_telnet r" using assms by simp
  then show ?thesis
    using assms telnet_loop_escaped [of negotiator_instance bs "[]" "[]" "rx_telnet r"]
    by (simp add: telnet_step_def process_telnet_stream_def s)
qed

text \<open>
  C10. The end of a record has no meaning to the receiver: records that one read delivers together are
  processed like the concatenation of their bytes sent without any end of record.
\<close>

theorem records_run_together:
  assumes "telnet_buffer (rx_telnet r) = []" and "concat recs \<noteq> []"
  shows "receive_loop enc now (Chunk (framed recs) # as) r
       = receive_loop enc now (Chunk (escape_iac (concat recs)) # as) r"
proof -
  have "framed recs \<noteq> []" using assms(2) by (auto simp: framed_def END_OF_RECORD_def)
  moreover have "escape_iac (concat recs) \<noteq> []" using assms(2) by (simp only: escape_empty not_False_eq_True)
  ultimately show ?thesis
    using telnet_step_framed [OF assms(1)] telnet_step_escaped [OF assms(1)]
    by (simp add: process_part_def)
qed

text \<open>A receiver with nothing pending, connected, that has not left 3270 mode.\<close>

definition ready :: "receiver \<Rightarrow> bool" where
  "ready r \<longleftrightarrow> telnet_buffer (rx_telnet r) = [] \<and> rx_pending r = [] \<and> rx_reader r
     \<and> has_writer (rx_telnet r)"

definition demo_receiver :: receiver where
  "demo_receiver = \<lparr>rx_telnet = demo_neg_telnet, rx_parser = demo_parser, rx_seq = seq_init,
     rx_pending = [], rx_reader = True\<rparr>"

lemma demo_receiver_facts:
  "ready demo_receiver" "\<not> ng_ascii (rx_neg demo_receiver)" "rx_screen demo_receiver = demo_screen"
  "rx_neg demo_receiver = demo_neg"
  using demo_neg_facts by (simp_all add: ready_def demo_receiver_def demo_neg_telnet_def)

theorem records_run_together_witness:
  "receive_loop (\<lambda>b. None) 0 [Chunk [0xF1, 0xC3, 0xC8, 0xFF, 0xEF, 0xF1, 0xC3, 0xC9, 0xFF, 0xEF]] demo_receiver
   = receive_loop (\<lambda>b. None) 0 [Chunk [0xF1, 0xC3, 0xC8, 0xF1, 0xC3, 0xC9]] demo_receiver"
  using records_run_together [of demo_receiver "[[0xF1, 0xC3, 0xC8], [0xF1, 0xC3, 0xC9]]"]
  by (simp add: demo_receiver_def demo_neg_telnet_def framed_def escape_iac_def END_OF_RECORD_def)

section \<open>A write of text\<close>

lemma end_bulk_frame [simp]:
  "fst (end_bulk b r) = fst r" "buffer (d_screen (snd (end_bulk b r))) = buffer (d_screen (snd r))"
  "get_position (d_screen (snd (end_bulk b r))) = get_position (d_screen (snd r))"
  by (simp_all add: end_bulk_def end_bulk_update_def Let_def get_position_def)

text \<open>Data that begin with no command: the first byte is the control character, and the orders are carried out on the old screen.\<close>

definition overlay_screen :: "byte \<Rightarrow> bool \<Rightarrow> screen \<Rightarrow> screen" where
  "overlay_screen w bulk s =
     (let s1 = set_position 0 0 (set_ascii_mode False s); s2 = (if bulk then begin_bulk_update s1 else s1)
      in set_position 0 0 (if w AND 0x40 \<noteq> 0 then set_keyboard_lock False s2 else s2))"

lemma overlay_facts:
  assumes "wf_screen s"
  shows "wf_screen (overlay_screen w bulk s)" and "buffer (overlay_screen w bulk s) = buffer s"
    and "ssize (overlay_screen w bulk s) = ssize s" and "rows (overlay_screen w bulk s) = rows s"
    and "cols (overlay_screen w bulk s) = cols s" and "get_position (overlay_screen w bulk s) = (0, 0)"
    and "field_starts (overlay_screen w bulk s) = field_starts s"
proof -
  have "0 < rows s" "0 < cols s" using assms by (simp_all add: wf_screen_def wf_dims_def)
  then show "buffer (overlay_screen w bulk s) = buffer s" "ssize (overlay_screen w bulk s) = ssize s"
    "rows (overlay_screen w bulk s) = rows s" "cols (overlay_screen w bulk s) = cols s"
    "get_position (overlay_screen w bulk s) = (0, 0)" "field_starts (overlay_screen w bulk s) = field_starts s"
    by (simp_all add: overlay_screen_def Let_def set_position_def set_ascii_mode_def begin_bulk_update_def
        set_keyboard_lock_def get_position_def)
qed (use assms in \<open>simp add: overlay_screen_def Let_def wf_rules set_ascii_mode_def wf_ascii\<close>)

lemma parse_control:
  assumes "w \<notin> set write_commands" and "w \<notin> set erase_write_commands"
  shows "parse (w # str) 0 p = map_option (end_bulk (length (w # str) > 4096)) (run_orders None
    (p\<lparr>pdata := w # str, aid := None, ppos := 1, wcc := Some w,
       d_screen := overlay_screen w (length (w # str) > 4096) (d_screen p), dpos := 1\<rparr>))"
proof -
  have r1: "raw_read q = (Inr w, q\<lparr>ppos := 1\<rparr>)" if "pdata q = w # str" "ppos q = 0" for q :: dsp
    using that by (simp add: raw_read_def d_has_more_def)
  show ?thesis
    using assms
    by (simp add: parse_def parse_tn3270_def Let_def parse_body_def r1 run_after_wcc_def dbind_def
        handle_wcc_with_byte_def sync_pos_def reset_mdt_flags_def overlay_screen_def)
qed

lemma parse_overlay:
  assumes "wf_screen (d_screen p)" and "w \<notin> set write_commands" and "w \<notin> set erase_write_commands"
    and "\<forall>b \<in> set str. text_byte b" and "int (length str) < ssize (d_screen p)"
  shows "\<exists>q. parse (w # str) 0 p = Some (Inr (), q)
       \<and> buffer (d_screen q) = str @ drop (length str) (buffer (d_screen p))
       \<and> get_position (d_screen q) = calculate_coords (d_screen p) (int (length str))"
proof -
  define bulk where "bulk = (length (w # str) > 4096)"
  define f where "f = overlay_screen w bulk (d_screen p)"
  let ?p0 = "p\<lparr>pdata := w # str, aid := None, ppos := 1, wcc := Some w, d_screen := f, dpos := 1\<rparr>"
  note facts = overlay_facts [OF assms(1), of w bulk, folded f_def]
  note wf = facts(1)
  have parse: "parse (w # str) 0 p = map_option (end_bulk bulk) (run_orders None ?p0)"
    using parse_control [OF assms(2,3)] by (simp add: bulk_def f_def)
  obtain d where loop: "parse_loop None ?p0 = Some (Completed, ?p0\<lparr>ppos := length (pdata ?p0), dpos := d,
      d_screen := put_text str f\<rparr>)"
    using parse_loop_text [of ?p0 str None] wf assms(4) by auto
  let ?t = "put_text str f"
  have at: "linear f (get_position f) = 0" using facts by (simp add: linear_def)
  have eff: "buffer ?t = str @ drop (length str) (buffer (d_screen p)) \<and> linear ?t (get_position ?t) = int (length str)"
    using put_text_effect [OF wf, of str] at assms(5) facts by simp
  have "get_position ?t = calculate_coords ?t (linear ?t (get_position ?t))"
    by (rule cursor_linear(3)) (rule wf_put_text [OF wf])
  moreover have "cols ?t = cols f" by (rule put_text_frame)
  ultimately have pos: "get_position ?t = calculate_coords (d_screen p) (int (length str))"
    using eff facts by (simp add: calculate_coords_def)
  obtain q1 where q1: "run_orders None ?p0 = Some (Inr (), q1)" "d_screen q1 = ?t"
    using loop by (simp add: run_orders_def after_loop_def)
  have "end_bulk bulk (Inr () :: parse_error + unit, q1) = (Inr (), snd (end_bulk bulk (Inr () :: parse_error + unit, q1)))"
    by (rule prod_eqI) simp_all
  with parse q1(1) have "parse (w # str) 0 p = Some (Inr (), snd (end_bulk bulk (Inr () :: parse_error + unit, q1)))"
    by simp
  with q1(2) eff pos show ?thesis by auto
qed

lemma receive_framed:
  assumes "ready r" and "concat recs \<noteq> []"
    and "handle_data enc now (detect_vt100_sequences (concat recs)) (concat recs)
           (note_detection (detect_vt100_sequences (concat recs)) r) = (Inr (Some out), r')"
  shows "receive_data enc now (Chunk (framed recs) # as) r = (Inr out, r', as)"
proof -
  have "telnet_buffer (rx_telnet r) = []" using assms(1) by (simp add: ready_def)
  note t = telnet_step_framed [OF this, of recs]
  have "framed recs \<noteq> []" using assms(2) by (auto simp: framed_def END_OF_RECORD_def)
  with assms t show ?thesis by (simp add: receive_data_def ready_def process_part_def)
qed

lemma rstrip_19_last: "bs \<noteq> [] \<Longrightarrow> last bs \<noteq> 0x19 \<Longrightarrow> rstrip_19 bs = bs"
  by (cases bs rule: rev_cases) (simp_all add: rstrip_19_def)

lemma rstrip_19_prefix: "\<exists>tail. bs = rstrip_19 bs @ tail"
proof
  show "bs = rstrip_19 bs @ rev (takeWhile (\<lambda>b. b = 0x19) (rev bs))"
    by (simp add: rstrip_19_def flip: rev_append)
qed

lemma strip_zero_blocks_id: "c \<noteq> 0 \<Longrightarrow> strip_zero_blocks (c # bs) = c # bs"
  by (cases "c # bs" rule: strip_zero_blocks.cases) auto

text \<open>What a write leaves on the screen: the command 0xF5 does not reach the parser.\<close>

definition text_over :: "byte \<Rightarrow> bytes \<Rightarrow> screen \<Rightarrow> bytes" where
  "text_over c str s =
     str @ (if c = 0xF5 then drop (length str) (buffer s) else replicate (nat (ssize s) - length str) 0x40)"

lemma write_after_strip:
  assumes "wf_screen (rx_screen r)" and "c \<in> set write_commands \<or> c \<in> set erase_write_commands"
    and "c = 0xF5 \<Longrightarrow> w \<notin> set write_commands \<union> set erase_write_commands"
    and "\<forall>b \<in> set str. text_byte b" and "int (length str) < ssize (rx_screen r)"
  shows "buffer (rx_screen (run_parser (strip_f5 (c # w # str)) 0 r)) = text_over c str (rx_screen r)
       \<and> get_position (rx_screen (run_parser (strip_f5 (c # w # str)) 0 r))
         = calculate_coords (rx_screen r) (int (length str))
       \<and> rx_neg (run_parser (strip_f5 (c # w # str)) 0 r) = rx_neg r"
proof (cases "c = 0xF5")
  case True
  then have "w \<notin> set write_commands" "w \<notin> set erase_write_commands" using assms(3) by blast+
  from parse_overlay [OF assms(1) this assms(4,5)] True show ?thesis
    by (auto simp: run_parser_def strip_f5_def text_over_def)
next
  case False
  from plain_write [OF assms(1,2,4,5), of w] False show ?thesis
    by (auto simp: run_parser_def strip_f5_def text_over_def)
qed

lemma no_data_header:
  assumes "0x02 \<notin> set str" and "\<forall>b \<in> set str. text_byte b"
  shows "from_bytes (take 5 (c # w # str)) = None"
proof (cases str)
  case (Cons b bs)
  then have "b \<noteq> 0x02" "b \<noteq> 0" "b \<noteq> 0x01" using assms by (auto simp: text_byte_def)
  with Cons show ?thesis by (auto simp: from_bytes_def)
qed (simp add: from_bytes_def)

text \<open>
  C4. From the connection to the screen: a write of plain text that fits the screen and arrives in one read, escaped and with
  its end of record, is returned and shown. After every write command but one the text stands on
  an otherwise blank screen; the Erase/Write command 0xF5 is removed before the parser sees the
  record, so that write erases nothing and the text stands on the old screen.
\<close>

theorem text_record_arrives:
  assumes "ready r" and "\<not> ng_ascii (rx_neg r)" and "wf_screen (rx_screen r)"
    and "c \<in> set write_commands \<or> c \<in> set erase_write_commands"
    and "c = 0xF5 \<Longrightarrow> w \<notin> set write_commands \<union> set erase_write_commands"
    and "\<forall>b \<in> set str. text_byte b" and "0x02 \<notin> set str" and "last (w # str) \<noteq> 0x19"
    and "int (length str) < ssize (rx_screen r)" and "\<not> detect_vt100_sequences (c # w # str)"
    and "receive_data enc now (Chunk (framed [c # w # str]) # as) r = (res, r', as')"
  shows "res = Inr (strip_f5 (c # w # str)) \<and> as' = as
       \<and> buffer (rx_screen r') = text_over c str (rx_screen r)
       \<and> get_position (rx_screen r') = calculate_coords (rx_screen r) (int (length str))"
proof -
  have c: "c \<noteq> 0" using assms(4) by (auto simp: write_commands_def erase_write_commands_def)
  have "deliver_payload (c # w # str) 0 0 r
      = (Some (strip_f5 (c # w # str)), run_parser (strip_f5 (c # w # str)) 0 r)"
    using assms(8) c by (simp add: deliver_payload_def rstrip_19_last strip_zero_blocks_id Let_def)
  then have h: "handle_data enc now False (c # w # str) (note_detection False r)
      = (Inr (Some (strip_f5 (c # w # str))), run_parser (strip_f5 (c # w # str)) 0 r)"
    using assms(2) no_data_header [OF assms(7,6), of c w]
    by (simp add: handle_data_def in_ascii_mode_def note_detection_def handle_tn3270_mode_def)
  have "receive_data enc now (Chunk (framed [c # w # str]) # as) r
      = (Inr (strip_f5 (c # w # str)), run_parser (strip_f5 (c # w # str)) 0 r, as)"
    using receive_framed [OF assms(1), of "[c # w # str]"] h assms(10) by simp
  with write_after_strip [OF assms(3-6,9)] assms(11) show ?thesis by simp
qed

theorem text_record_arrives_witness:
  "\<exists>r'. receive_data (\<lambda>b. None) 0 [Chunk (framed [[0xF5, 0xC3, 0xC8, 0xC9]])] demo_receiver
          = (Inr [0xC3, 0xC8, 0xC9], r', [])
      \<and> buffer (rx_screen r') = [0xC8, 0xC9] @ drop 2 (buffer demo_screen)"
proof -
  obtain res r' as' where e:
    "receive_data (\<lambda>b. None) 0 (Chunk (framed [0xF5 # 0xC3 # [0xC8, 0xC9]]) # []) demo_receiver = (res, r', as')"
    by (metis prod.exhaust)
  have f: "0xF5 \<in> set erase_write_commands" "0xC3 \<notin> set write_commands \<union> set erase_write_commands"
    "\<forall>b \<in> set [0xC8, 0xC9]. text_byte b" "\<not> detect_vt100_sequences (0xF5 # 0xC3 # [0xC8, 0xC9])"
    "ssize demo_screen = 8"
    by code_simp+
  from text_record_arrives [OF demo_receiver_facts(1,2) _ _ _ f(3) _ _ _ f(4) e]
  have "res = Inr (strip_f5 (0xF5 # 0xC3 # [0xC8, 0xC9])) \<and> as' = []
      \<and> buffer (rx_screen r') = text_over 0xF5 [0xC8, 0xC9] demo_screen"
    using f wf_demo by (simp add: demo_receiver_facts)
  with e show ?thesis by (simp add: text_over_def strip_f5_def numeral_2_eq_2)
qed

section \<open>Headers\<close>

lemma parse_unknown_type:
  assumes "data_type \<notin> {1, 2, 3, 4, 5, 6, 7, 8, 9}"
  shows "parse data data_type p = parse data 0 p"
  using assms by (simp add: parse_def)

text \<open>
  The TN3270E header of a 3270 message. A header of five zero bytes, the first a host sends, is not
  taken for one: four of its bytes are removed as padding, the fifth becomes the control character, and
  the write command and the control character of the message are shown as text on the old screen.
  Any other header that answers no pending request is removed, and the text is shown as without one.
\<close>

lemma message_with_header:
  assumes "ready r" and "\<not> ng_ascii (rx_neg r)" and "wf_screen (rx_screen r)"
    and "c \<in> set write_commands \<or> c \<in> set erase_write_commands" and "c \<noteq> 0xF5"
    and "\<forall>b \<in> set (c # w # str). text_byte b" and "last (w # str) \<noteq> 0x19"
    and "int (length str) + 2 < ssize (rx_screen r)"
    and "\<not> detect_vt100_sequences (hdr @ c # w # str)"
    and "length hdr = 5" and "hdr ! 0 = 0" and "hdr ! 2 \<in> {0, 1, 2}" and "hdr \<noteq> [0, 0, 0, 0, 0xF5]"
    and "map_of (ng_pending (rx_neg r)) (be16 (hdr ! 3) (hdr ! 4)) = None"
    and "receive_data enc now (Chunk (framed [hdr @ c # w # str]) # as) r = (res, r', as')"
  shows "\<not> isl res
       \<and> buffer (rx_screen r') = (if hdr = [0, 0, 0, 0, 0]
            then (c # w # str) @ drop (length str + 2) (buffer (rx_screen r))
            else text_over c str (rx_screen r))"
proof -
  obtain a b d e where hdr: "hdr = [0, a, b, d, e]"
    using assms(10,11) by (auto simp: length_Suc_conv eval_nat_numeral)
  let ?rec = "hdr @ c # w # str"
  have c: "c \<noteq> 0" using assms(4) by (auto simp: write_commands_def erase_write_commands_def)
  have rs: "rstrip_19 ?rec = ?rec" using assms(7) by (intro rstrip_19_last) (auto simp: hdr)
  have run: "receive_data enc now (Chunk (framed [?rec]) # as) r = (Inr out, r1, as)"
    if "handle_tn3270_mode now ?rec r = (Inr (Some out), r1)" for out r1
    using receive_framed [OF assms(1), of "[?rec]"] assms(2,9) that
    by (simp add: handle_data_def in_ascii_mode_def note_detection_def hdr)
  show ?thesis
  proof (cases "hdr = [0, 0, 0, 0, 0]")
    case True
    then have none: "from_bytes (take 5 ?rec) = None" by (simp add: from_bytes_def)
    have "strip_f5 (strip_zero_blocks ?rec) = 0 # c # w # str"
      using c by (cases str rule: strip_zero_blocks.cases) (auto simp: True strip_f5_def)
    then have "handle_tn3270_mode now ?rec r = (Inr (Some (0 # c # w # str)), run_parser (0 # c # w # str) 0 r)"
      using none rs by (simp add: handle_tn3270_mode_def deliver_payload_def Let_def True)
    note run = run [OF this]
    have "0 \<notin> set write_commands" "0 \<notin> set erase_write_commands"
      by (simp_all add: write_commands_def erase_write_commands_def)
    from parse_overlay [OF assms(3) this assms(6)] assms(8) run assms(15) True show ?thesis
      by (auto simp: run_parser_def)
  next
    case False
    define h where "h = \<lparr>h_data_type = 0, h_request_flag = uint a, h_response_flag = uint b, h_seq_number = be16 d e\<rparr>"
    have "be16 d e \<le> 0xFFFF" using be16_range [of d e] by simp
    then have some: "from_bytes (take 5 ?rec) = Some h"
      using False assms(12) hdr by (auto simp: from_bytes_def h_def)
    define r1 where "r1 = note_sequence_number now h r"
    have keep: "rx_parser r1 = rx_parser r" "rx_neg r1 = rx_neg r"
      by (simp_all add: r1_def note_sequence_number_def Let_def)
    have resp: "note_response h r1 = (None, r1)"
      using assms(14) hdr keep
      by (simp add: note_response_def handle_tn3270e_response_def h_def set_rx_neg_def)
    have len: "get_fixture_header_len ?rec 5 = 5"
      using assms(13) hdr by (auto simp: get_fixture_header_len_def)
    have "handle_tn3270_mode now ?rec r = (Inr (Some (strip_f5 (c # w # str))), run_parser (strip_f5 (c # w # str)) 0 r1)"
      unfolding handle_tn3270_mode_def some option.case r1_def [symmetric] resp prod.case len using rs c
      by (simp add: h_def TN3270E_DATA_TYPES_def deliver_payload_def Let_def strip_zero_blocks_id hdr)
    note run = run [OF this]
    have "wf_screen (rx_screen r1)" "int (length str) < ssize (rx_screen r1)" "\<forall>b\<in>set str. text_byte b"
      using assms(3,6,8) keep by simp_all
    from write_after_strip [OF this(1) assms(4) _ this(3,2), of w] assms(5,15) run keep False show ?thesis
      by auto
  qed
qed

section \<open>Text or 3270 data\<close>

lemma rx_neg_runs [simp]:
  "rx_neg (run_parser data t r) = rx_neg r" "rx_neg (run_vt100 enc data r) = rx_neg r"
  "rx_neg (on_rx_screen f r) = rx_neg r"
  by (simp_all add: run_parser_def run_vt100_def on_rx_screen_def split: option.split prod.split)

text \<open>
  A read whose data looks like text, with 70 percent of its bytes in the range of printable ASCII (where
  the EBCDIC blank lies): without TN3270E it switches the negotiator and the handler to ASCII mode for
  good. In a TN3270E session it is processed as ASCII data all the same, where the header of a
  message is not removed: the parser gets it as the beginning of the data.
\<close>

lemma mostly_blank_read:
  assumes "ready r" and "concat recs = data" and "32 \<le> length data"
    and "7 * length data \<le> 10 * length (filter printable_ascii data)" and "0x1B \<notin> set data"
    and "\<not> py_contains [0x5C, 0x78, 0x31, 0x62] data"
    and "receive_data enc now (Chunk (framed recs) # as) r = (res, r', as')"
  shows "(\<not> rx_negotiated r \<and> \<not> tn3270e_active (rx_neg r) \<longrightarrow> rx_neg r' = neg_set_ascii_mode (rx_neg r))
       \<and> (rx_negotiated r \<and> tn3270e_active (rx_neg r) \<and> take 5 data \<noteq> [0, 0, 0, 0, 0xF5] \<and> data ! 0 \<noteq> 0xF5
           \<longrightarrow> (\<forall>h. from_bytes (take 5 data) = Some h \<and> h_data_type h = 0
                   \<and> map_of (ng_pending (rx_neg r)) (h_seq_number h) = None
                \<longrightarrow> res = Inr (rstrip_19 data)
                  \<and> rx_screen r' = rx_screen (run_parser data 0 (on_rx_screen leave_ascii_mode r))))"
proof -
  have seen: "detect_vt100_sequences data"
    using assms(3,4) by (auto simp: detect_vt100_sequences_def)
  have ne: "data \<noteq> []" using assms(3) by auto
  have to_ascii: "handle_data enc now True data s = handle_ascii_mode enc now data s" for s
    by (simp add: handle_data_def in_ascii_mode_def)
  have run: "receive_data enc now (Chunk (framed recs) # as) r = (Inr out, r1, as)"
    if "handle_ascii_mode enc now data (note_detection True r) = (Inr (Some out), r1)" for out r1
    using receive_framed [OF assms(1), of recs] assms(2) ne seen that to_ascii by simp
  have 1: "rx_neg r' = neg_set_ascii_mode (rx_neg r)"
    if "\<not> rx_negotiated r" "\<not> tn3270e_active (rx_neg r)"
  proof -
    let ?r = "set_rx_neg (neg_set_ascii_mode (rx_neg r)) r"
    have "\<not> tn3270e_active (rx_neg ?r)"
      using that(2) by (simp add: tn3270e_active_def set_rx_neg_def neg_set_ascii_mode_def is_data_stream_ctl_active_def)
    moreover obtain q where q: "deliver_both enc data ?r = (Some (rstrip_19 data), q)" "rx_neg q = rx_neg ?r"
      using ne by (simp add: deliver_both_def Let_def)
    ultimately have "handle_ascii_mode enc now data (note_detection True r) = (Inr (Some (rstrip_19 data)), q)"
      using assms(5,6) that(1) by (simp add: handle_ascii_mode_def note_detection_def)
    from run [OF this] assms(7) q(2) show ?thesis by (simp add: set_rx_neg_def)
  qed
  have 2: "res = Inr (rstrip_19 data) \<and> rx_screen r' = rx_screen (run_parser data 0 (on_rx_screen leave_ascii_mode r))"
    if "rx_negotiated r" "tn3270e_active (rx_neg r)" "take 5 data \<noteq> [0, 0, 0, 0, 0xF5]" "data ! 0 \<noteq> 0xF5"
      "from_bytes (take 5 data) = Some h" "h_data_type h = 0"
      "map_of (ng_pending (rx_neg r)) (h_seq_number h) = None" for h
  proof -
    define r1 where "r1 = note_sequence_number now h r"
    have keep: "rx_parser r1 = rx_parser r" "rx_neg r1 = rx_neg r"
      by (simp_all add: r1_def note_sequence_number_def Let_def)
    have resp: "note_response h r1 = (None, r1)"
      using that(7) keep by (simp add: note_response_def handle_tn3270e_response_def set_rx_neg_def)
    have "take 5 data = take 4 data @ [data ! 4]" using take_Suc_conv_app_nth [of 4 data] assms(3) by simp
    then have len: "get_fixture_header_len data 0 = 0" using that(3) by (auto simp: get_fixture_header_len_def)
    have hd: "hd data \<noteq> 0xF5" using that(4) ne by (simp add: hd_conv_nth)
    have keep_hd: "strip_f5 data = data" using hd by (simp add: strip_f5_def)
    obtain tail where "data = rstrip_19 data @ tail" using rstrip_19_prefix by blast
    with hd have keep_rs: "strip_f5 (rstrip_19 data) = rstrip_19 data"
      unfolding strip_f5_def by (metis hd_append2)
    have "handle_ascii_mode enc now data (note_detection True r)
        = (Inr (Some (rstrip_19 data)), run_parser data 0 (on_rx_screen leave_ascii_mode r1))"
      using assms(3,5,6) that(1,2,5,6) resp len
      by (simp add: handle_ascii_mode_def note_detection_def TN3270E_DATA_TYPES_def keep_hd keep_rs flip: r1_def)
    note run = run [OF this]
    have "rx_screen (run_parser data 0 (on_rx_screen leave_ascii_mode r1))
        = rx_screen (run_parser data 0 (on_rx_screen leave_ascii_mode r))"
      using keep by (simp add: run_parser_def on_rx_screen_def split: option.split prod.split)
    with run assms(7) show ?thesis by simp
  qed
  from 1 2 show ?thesis by blast
qed

end
