(* ===== verification/Sending.thy ===== *)
theory Sending
  imports Receive
begin

text \<open>
  The sending half of \<open>pure3270/protocol/tn3270_handler.py\<close>: records, print data, printer status and the
  telnet commands for attention keys. Everything is written to the stream the negotiator writes to,
  \<open>ng_out\<close>. Whether \<open>drain\<close> raises is the argument \<open>link\<close>, a function of what has been written.
\<close>

datatype link_error = Broken_pipe | Connection_reset | Os_error

datatype send_error = Snd_protocol | Snd_link link_error

type_synonym sending = "receiver \<Rightarrow> send_error option \<times> receiver"

definition require_streams :: "receiver \<Rightarrow> bool" where
  "require_streams r \<longleftrightarrow> rx_reader r \<and> has_writer (rx_telnet r)"

definition wire_write :: "bytes \<Rightarrow> receiver \<Rightarrow> receiver" where
  "wire_write bs r = set_rx_neg ((rx_neg r)\<lparr>ng_out := ng_out (rx_neg r) @ bs\<rparr>) r"

definition wire_drain :: "(bytes \<Rightarrow> link_error option) \<Rightarrow> sending" where
  "wire_drain link r = (map_option Snd_link (link (ng_out (rx_neg r))), r)"

text \<open>
  With DATA-STREAM-CTL a record gets a header with the next number, which the negotiator also enters
  among its pending requests.
\<close>

definition add_header :: "int \<Rightarrow> bytes \<Rightarrow> receiver \<Rightarrow> bytes \<times> receiver" where
  "add_header now data r =
     (if is_data_stream_ctl_active (rx_neg r)
      then (let (k, q) = get_next_sent_sequence_number now (rx_seq r);
                (h, n) = outgoing_request ''CLIENT_DATA'' 0x00 0 0x00 (Some k) (rx_neg r)
            in (case to_bytes h of None \<Rightarrow> data | Some hb \<Rightarrow> hb @ data, set_rx_neg n (r\<lparr>rx_seq := q\<rparr>)))
      else (data, r))"

definition send_data :: "(bytes \<Rightarrow> link_error option) \<Rightarrow> int \<Rightarrow> bytes \<Rightarrow> sending" where
  "send_data link now data r =
     (if \<not> require_streams r then (Some Snd_protocol, r)
      else (let (bs, r1) = add_header now data r in wire_drain link (wire_write bs r1)))"

text \<open>
  The operations below fail without a connection. Their \<open>drain\<close> is the one of \<open>handle_drain\<close>, which
  only logs a failure, except where \<open>wire_drain\<close> stands.
\<close>

definition connected_write :: "(receiver \<Rightarrow> bool) \<Rightarrow> bytes \<Rightarrow> sending" where
  "connected_write allowed bs r =
     (if is_connected (rx_telnet r) \<and> allowed r \<and> require_streams r
      then (None, wire_write bs r) else (Some Snd_protocol, r))"

definition send_scs_data :: "bytes \<Rightarrow> sending" where
  "send_scs_data = connected_write (\<lambda>r. ng_printer_session (rx_neg r))"

definition send_printer_status_sf :: "byte \<Rightarrow> sending" where
  "send_printer_status_sf status = connected_write (\<lambda>_. True) (build_printer_status_sf status)"

definition send_break :: sending where
  "send_break = connected_write (\<lambda>_. True) [IAC, 0xF3]"

definition send_soh_message :: "byte \<Rightarrow> sending" where
  "send_soh_message status = connected_write (\<lambda>_. True) (build_soh_message status)"

definition send_print_eoj :: "(bytes \<Rightarrow> link_error option) \<Rightarrow> sending" where
  "send_print_eoj link r =
     (case connected_write (\<lambda>r. ng_printer_session (rx_neg r)) (build_scs_ctl_codes 0x01) r of
        (Some e, r1) \<Rightarrow> (Some e, r1)
      | (None, r1) \<Rightarrow> wire_drain link r1)"

text \<open>
  SYSREQ: a subnegotiation when the function was agreed on; otherwise only the code 0x6C of the
  attention key has a telnet command to stand for it. A suspended session is resumed before either.
\<close>

definition send_sysreq_command :: "(bytes \<Rightarrow> link_error option) \<Rightarrow> byte \<Rightarrow> sending" where
  "send_sysreq_command link c r =
     (if \<not> is_connected (rx_telnet r) \<or> \<not> require_streams r then (Some Snd_protocol, r)
      else
        (let r1 = (if in_suspended_mode (rx_telnet r)
                   then r\<lparr>rx_telnet := (rx_telnet r)\<lparr>in_suspended_mode := False, in_3270_mode := True\<rparr>\<rparr> else r)
         in if ng_functions (rx_neg r1) AND 0x10 \<noteq> 0
            then wire_drain link (wire_write ([IAC, SB, 0x28] @ [0x1C, c] @ [IAC, SE]) r1)
            else if c = 0x6C then wire_drain link (wire_write [IAC, 0xF4] r1)
            else (Some Snd_protocol, r1)))"

end
