(* ===== verification/Keyboard.thy ===== *)
theory Keyboard
  imports Sending
begin

text \<open>
  The operator's side of \<open>pure3270/session.py\<close>: the cursor and editing commands of \<open>AsyncSession\<close>, its
  keys, and what they send. Session and handler share one screen buffer, the one in the handler's
  parser. A command is a function from the session to the exception it raises, if any, and the new session.

  Parameters, in the record \<open>client\<close>: the code pages, the link, the terminal's translation of characters
  and the clock. What the host delivers while a command reads is an argument of that command.
\<close>

section \<open>Cursor keys\<close>

definition cursor_up :: "screen \<Rightarrow> screen" where
  "cursor_up s =
     (let (row, col) = get_position s; row' = (if row > 0 then row - 1 else row) in set_position row' col s)"

definition cursor_down :: "screen \<Rightarrow> screen" where
  "cursor_down s = (let (row, col) = get_position s in set_position (min (rows s - 1) (row + 1)) col s)"

definition cursor_left :: "screen \<Rightarrow> screen" where
  "cursor_left s =
     (let (row, col) = get_position s;
          (row', col') = (if col > 0 then (row, col - 1)
                          else if row > 0 then (row - 1, cols s - 1) else (row, col))
      in set_position row' col' s)"

definition cursor_right :: "screen \<Rightarrow> screen" where
  "cursor_right s =
     (let (row, col) = get_position s;
          (row', col') = (if col + 1 \<ge> cols s then (min (rows s - 1) (row + 1), 0) else (row, col + 1))
      in set_position row' col' s)"

definition cursor_newline :: "screen \<Rightarrow> screen" where
  "cursor_newline s = set_position (min (rows s - 1) (fst (get_position s) + 1)) 0 s"

definition cursor_home :: "screen \<Rightarrow> screen" where
  "cursor_home s =
     (case get_field_at_position (fst (get_position s)) (snd (get_position s)) s of
        None \<Rightarrow> s
      | Some f \<Rightarrow> set_position (fst (f_start f)) (snd (f_start f)) s)"

definition cursor_backtab :: "screen \<Rightarrow> screen option" where
  "cursor_backtab s =
     (case get_field_at_position (fst (get_position s)) (snd (get_position s)) s of
        None \<Rightarrow> Some s
      | Some f \<Rightarrow>
          (case index_of f (sfields s) of
             None \<Rightarrow> None
           | Some 0 \<Rightarrow> Some s
           | Some (Suc i) \<Rightarrow> (let g = sfields s ! i in Some (set_position (fst (f_start g)) (snd (f_start g)) s))))"

text \<open>\<open>buffer[p] = 0x40\<close> for positions in range.\<close>

definition blank_positions :: "int list \<Rightarrow> screen \<Rightarrow> screen" where
  "blank_positions ps s =
     s\<lparr>buffer := fold (\<lambda>p b. if 0 \<le> p \<and> p < int (length b) then b[nat p := 0x40] else b) ps (buffer s)\<rparr>"

definition key_backspace :: "screen \<Rightarrow> screen" where
  "key_backspace s = (let s1 = cursor_left s in blank_positions [linear s1 (get_position s1)] s1)"

section \<open>Editing\<close>

text \<open>The cells of a field, row by row.\<close>

definition field_cells :: "screen \<Rightarrow> field \<Rightarrow> int list" where
  "field_cells s f =
     (let (sr, sc) = f_start f; (er, ec) = f_end f
      in concat (map (\<lambda>r. map (\<lambda>c. r * cols s + c)
                   [if r = sr then sc else 0 .. if r = er then ec else cols s - 1]) [sr .. er]))"

definition delete_field :: "screen \<Rightarrow> screen" where
  "delete_field s =
     (case get_field_at_position (fst (get_position s)) (snd (get_position s)) s of
        None \<Rightarrow> s
      | Some f \<Rightarrow> blank_positions (field_cells s f) s)"

text \<open>Move what is right of the cursor one column to the right, the last column is lost.\<close>

definition shift_right :: "int \<Rightarrow> int \<Rightarrow> screen \<Rightarrow> screen" where
  "shift_right row col s =
     s\<lparr>buffer := fold (\<lambda>c b. b[nat (row * cols s + c) := b ! nat (row * cols s + (c - 1))])
                   (rev [col + 1 .. cols s - 1]) (buffer s)\<rparr>"

definition insert_char ::
    "bool \<Rightarrow> bool \<Rightarrow> byte \<Rightarrow> (int \<times> int) \<times> screen \<Rightarrow> (int \<times> int) \<times> screen" where
  "insert_char ins circ b rcs =
     (let ((row, col), s) = rcs;
          s1 = (if ins then shift_right row col s else s);
          s2 = write_char b (Some (row, col)) False circ False s1;
          (row', col') = (if col + 1 \<ge> cols s2 then (min (rows s2 - 1) (row + 1), 0) else (row, col + 1))
      in ((row', col'), set_position row' col' s2))"

definition insert_text :: "(char \<Rightarrow> byte) \<Rightarrow> bool \<Rightarrow> bool \<Rightarrow> string \<Rightarrow> screen \<Rightarrow> screen" where
  "insert_text encode1 ins circ str s =
     snd (fold (\<lambda>ch. insert_char ins circ (encode1 ch)) str (get_position s, s))"

text \<open>Delete the character at the cursor: the rest of the row moves left.\<close>

definition delete_char :: "screen \<Rightarrow> screen" where
  "delete_char s =
     (let (row, col) = get_position s;
          b = fold (\<lambda>c b. b[nat (row * cols s + c) := b ! nat (row * cols s + (c + 1))])
                [col .. cols s - 2] (buffer s)
      in s\<lparr>buffer := b[nat (row * cols s + (cols s - 1)) := 0x40]\<rparr>)"

definition erase_eof :: "screen \<Rightarrow> screen" where
  "erase_eof s =
     (let (row, col) = get_position s
      in blank_positions [row * cols s + col .. row * cols s + (cols s - 1)] s)"

text \<open>
  \<open>erase_input\<close> and \<open>cursor_select\<close> change field objects, which the caches share with the list of fields.
\<close>

definition map_fields :: "(field \<Rightarrow> field) \<Rightarrow> screen \<Rightarrow> screen" where
  "map_fields f s =
     (let g = (\<lambda>x. if x \<in> set (sfields s) then f x else x)
      in s\<lparr>sfields := map f (sfields s), pos_cache := (\<lambda>p. map_option g (pos_cache s p)),
           input_cache := map g (input_cache s)\<rparr>)"

definition erase_input :: "screen \<Rightarrow> screen" where
  "erase_input =
     map_fields (\<lambda>f. if \<not> f_protected f then f\<lparr>f_content := replicate (length (f_content f)) 0x40, f_modified := True\<rparr>
                     else f\<lparr>f_modified := False\<rparr>)"

definition cursor_select :: "screen \<Rightarrow> screen" where
  "cursor_select s =
     (case get_field_at_position (fst (get_position s)) (snd (get_position s)) s of
        None \<Rightarrow> s
      | Some f \<Rightarrow> map_fields (\<lambda>g. if g = f then g\<lparr>f_selected := True\<rparr> else g) s)"

text \<open>The bytes of a field, read from the buffer; \<open>None\<close> is the \<open>IndexError\<close>.\<close>

definition ascii_field :: "int \<Rightarrow> screen \<Rightarrow> bytes option" where
  "ascii_field i s =
     map_option (\<lambda>f. map (\<lambda>p. buffer s ! nat p)
                       (filter (\<lambda>p. 0 \<le> p \<and> p < int (length (buffer s))) (field_cells s f)))
       (py_get (sfields s) i)"

definition move_cursor_to :: "int \<Rightarrow> int \<Rightarrow> screen \<Rightarrow> screen" where
  "move_cursor_to row col = set_position row col"

definition move_cursor1 :: "int \<Rightarrow> int \<Rightarrow> screen \<Rightarrow> screen" where
  "move_cursor1 row1 col1 = set_position (max 0 (row1 - 1)) (max 0 (col1 - 1))"

definition cursor_end :: "screen \<Rightarrow> screen" where
  "cursor_end s = set_position (fst (get_position s)) (cols s - 1) s"

definition page_top :: "screen \<Rightarrow> screen" where
  "page_top s = set_position 0 (snd (get_position s)) s"

section \<open>The session\<close>

record client =
  cl_encode1 :: "char \<Rightarrow> byte"
  cl_encode :: "string \<Rightarrow> bytes"
  cl_decode :: "string \<Rightarrow> bytes \<Rightarrow> string"
  cl_terminal :: "byte \<Rightarrow> bytes option"
  cl_link :: "bytes \<Rightarrow> link_error option"
  cl_now :: int

record session =
  ss_rx :: receiver
  ss_open :: bool
  ss_circumvent :: bool
  ss_insert :: bool

datatype session_error =
    Se_session
  | Se_not_connected
  | Se_value
  | Se_send send_error
  | Se_receive receive_error

type_synonym command = "session \<Rightarrow> session_error option \<times> session"

abbreviation ss_screen :: "session \<Rightarrow> screen" where
  "ss_screen s \<equiv> rx_screen (ss_rx s)"

definition on_screen_do :: "(screen \<Rightarrow> screen) \<Rightarrow> command" where
  "on_screen_do f s = (None, s\<lparr>ss_rx := on_rx_screen f (ss_rx s)\<rparr>)"

definition toggle_insert :: command where
  "toggle_insert s = (None, s\<lparr>ss_insert := \<not> ss_insert s\<rparr>)"

definition circum_not :: command where
  "circum_not s = (None, s\<lparr>ss_circumvent := \<not> ss_circumvent s\<rparr>)"

definition type_string :: "client \<Rightarrow> string \<Rightarrow> command" where
  "type_string cl str s =
     on_screen_do (insert_text (cl_encode1 cl) (ss_insert s) (ss_circumvent s) str) s"

definition backtab :: command where
  "backtab s =
     (case cursor_backtab (ss_screen s) of
        None \<Rightarrow> (Some Se_value, s)
      | Some scr \<Rightarrow> on_screen_do (\<lambda>_. scr) s)"

definition local_keys :: "(string \<times> command) list" where
  "local_keys =
     [(''Tab'', on_screen_do move_cursor_to_next_input_field), (''Home'', on_screen_do cursor_home),
      (''BackTab'', backtab), (''Newline'', on_screen_do cursor_newline), (''FieldMark'', \<lambda>s. (None, s)),
      (''Up'', on_screen_do cursor_up), (''Down'', on_screen_do cursor_down),
      (''Left'', on_screen_do cursor_left), (''Right'', on_screen_do cursor_right),
      (''BackSpace'', on_screen_do key_backspace)]"

section \<open>Sending and reading\<close>

definition of_handler :: "(session_error option \<times> receiver) \<Rightarrow> command" where
  "of_handler er s = (fst er, s\<lparr>ss_rx := snd er\<rparr>)"

definition handler_send :: "client \<Rightarrow> bytes \<Rightarrow> command" where
  "handler_send cl data s =
     of_handler (map_prod (map_option Se_send) id (send_data (cl_link cl) (cl_now cl) data (ss_rx s))) s"

text \<open>\<open>send\<close> tries three times; every \<open>OSError\<close> of the link starts the next attempt.\<close>

fun send_attempts :: "nat \<Rightarrow> client \<Rightarrow> bytes \<Rightarrow> command" where
  "send_attempts 0 cl data s = (None, s)"
| "send_attempts (Suc n) cl data s =
     (case handler_send cl data s of
        (Some (Se_send (Snd_link e)), s1) \<Rightarrow>
          (if n > 0 then send_attempts n cl data s1 else (Some (Se_send (Snd_link e)), s1))
      | (e, s1) \<Rightarrow> (e, s1))"

definition session_send :: "client \<Rightarrow> bytes \<Rightarrow> command" where
  "session_send cl data s = (if \<not> ss_open s then (Some Se_not_connected, s) else send_attempts 3 cl data s)"

definition submit :: "client \<Rightarrow> int \<Rightarrow> command" where
  "submit cl a s =
     (if \<not> ss_open s then (Some Se_session, s)
      else
        (let s1 = s\<lparr>ss_rx := on_rx_screen (set_keyboard_lock True) (ss_rx s)\<rparr>
         in if a < 0 \<or> 255 < a then (Some Se_value, s1)
            else case handler_send cl [word_of_int a] s1 of
                   (Some (Se_send (Snd_link Broken_pipe)), s2) \<Rightarrow> (Some Se_session, s2)
                 | (Some (Se_send (Snd_link Connection_reset)), s2) \<Rightarrow> (Some Se_session, s2)
                 | (e, s2) \<Rightarrow> (e, s2)))"

text \<open>
  \<open>read\<close>: up to three waits, each of which may bring something. The payload, which the handler has parsed
  already, is parsed again. What is left of the deliveries is returned.
\<close>

fun receive_attempts :: "nat \<Rightarrow> client \<Rightarrow> arrival list list \<Rightarrow> receiver \<Rightarrow> (receive_error + bytes) \<times> receiver \<times> arrival list list" where
  "receive_attempts 0 cl ws r = (Inr [], r, ws)"
| "receive_attempts (Suc n) cl ws r =
     (let (w, ws') = (case ws of [] \<Rightarrow> ([], []) | w # ws' \<Rightarrow> (w, ws'))
      in case receive_data (cl_terminal cl) (cl_now cl) w r of
           (Inl Rx_timeout, r1, _) \<Rightarrow> receive_attempts n cl ws' r1
         | (res, r1, left) \<Rightarrow> (res, r1, left # ws'))"

definition session_read ::
    "client \<Rightarrow> arrival list list \<Rightarrow> session \<Rightarrow> (session_error + bytes) \<times> session \<times> arrival list list" where
  "session_read cl ws s =
     (if \<not> ss_open s then (Inl Se_not_connected, s, ws)
      else case receive_attempts 3 cl ws (ss_rx s) of
             (Inl e, r, ws') \<Rightarrow> (Inl (Se_receive e), s\<lparr>ss_rx := r\<rparr>, ws')
           | (Inr data, r, ws') \<Rightarrow> (Inr data, s\<lparr>ss_rx := run_parser data 0 r\<rparr>, ws'))"

section \<open>Keys\<close>

definition AID_MAP :: "(string \<times> int) list" where
  "AID_MAP =
     [(''PF(1)'', 0xF1), (''PF(2)'', 0xF2), (''PF(3)'', 0xF3), (''PF(4)'', 0xF4), (''PF(5)'', 0xF5),
      (''PF(6)'', 0xF6), (''PF(7)'', 0xF7), (''PF(8)'', 0xF8), (''PF(9)'', 0xF9), (''PF(10)'', 0x7A),
      (''PF(11)'', 0x7B), (''PF(12)'', 0x7C), (''PF(13)'', 0xC1), (''PF(14)'', 0xC2), (''PF(15)'', 0xC3),
      (''PF(16)'', 0xC4), (''PF(17)'', 0xC5), (''PF(18)'', 0xC6), (''PF(19)'', 0xC7), (''PF(20)'', 0xC8),
      (''PF(21)'', 0xC9), (''PF(22)'', 0x4A), (''PF(23)'', 0x4B), (''PF(24)'', 0x4C),
      (''PA(1)'', 0x6C), (''PA(2)'', 0x6E), (''PA(3)'', 0x6B),
      (''Enter'', 0x7D), (''CLEAR'', 0x6D), (''RESET'', 0x6A), (''TEST'', 0x11),
      (''SysReq'', 0xF0), (''Attn'', 0xF1), (''Dup'', 0xF5), (''BackSpace'', 0xF8), (''Test'', 0x11)]"

text \<open>The record of the Enter key: the modified fields with their positions.\<close>

definition modified_data :: "client \<Rightarrow> screen \<Rightarrow> (int \<times> bytes) list" where
  "modified_data cl scr =
     map (\<lambda>((row, col), content). (row * cols scr + col, cl_encode cl content))
       (read_modified_fields (cl_decode cl) scr)"

definition enter_record :: "client \<Rightarrow> screen \<Rightarrow> bytes" where
  "enter_record cl scr = build_input_stream (modified_data cl scr) 0x7D (cols scr)"

definition key_body ::
    "client \<Rightarrow> string \<Rightarrow> arrival list list \<Rightarrow> session \<Rightarrow> session_error option \<times> session \<times> arrival list list" where
  "key_body cl name ws s =
     (case map_of AID_MAP name of
        None \<Rightarrow> (let (e, s1) = submit cl 0xF3 s in (e, s1, ws))
      | Some a \<Rightarrow>
          (if name = ''Enter''
           then (let (e, s1) = handler_send cl (enter_record cl (ss_screen s)) s in (e, s1, ws))
           else case submit cl a s of
                  (Some e, s1) \<Rightarrow> (Some e, s1, ws)
                | (None, s1) \<Rightarrow>
                    (if name \<in> {''SysReq'', ''Attn''}
                     then (case session_read cl ws s1 of
                             (Inl e, s2, ws') \<Rightarrow> (Some e, s2, ws')
                           | (Inr data, s2, ws') \<Rightarrow> (None, s2\<lparr>ss_rx := run_parser data 0 (ss_rx s2)\<rparr>, ws'))
                     else (None, s1, ws))))"

text \<open>
  \<open>key\<close>: what the body raises is passed on as an error of the session when the link was lost; after any
  other exception an empty record is sent.
\<close>

definition lost_link :: "session_error \<Rightarrow> bool" where
  "lost_link e \<longleftrightarrow> e \<in> {Se_session, Se_send (Snd_link Broken_pipe), Se_send (Snd_link Connection_reset), Se_receive Rx_closed}"

definition key ::
    "client \<Rightarrow> string \<Rightarrow> arrival list list \<Rightarrow> session \<Rightarrow> session_error option \<times> session \<times> arrival list list" where
  "key cl name ws s =
     (case map_of local_keys name of
        Some act \<Rightarrow> (let (e, s1) = act s in (e, s1, ws))
      | None \<Rightarrow>
          (if \<not> ss_open s then (Some Se_session, s, ws)
           else case key_body cl name ws s of
                  (None, s1, ws') \<Rightarrow> (None, s1, ws')
                | (Some e, s1, ws') \<Rightarrow>
                    (if lost_link e then (Some Se_session, s1, ws')
                     else (let (e', s2) = handler_send cl [] s1 in (e', s2, ws')))))"

end
