(* ===== verification/KeyboardProps.thy ===== *)
theory KeyboardProps
  imports ReceiveProps Keyboard
begin

text \<open>
  What every command of the operator keeps: the session stays whole whatever keys, editing commands,
  reads and records of the host follow each other.
\<close>

section \<open>The screen stays whole\<close>

definition safe_edit :: "(screen \<Rightarrow> screen) \<Rightarrow> bool" where
  "safe_edit f \<longleftrightarrow> (\<forall>s. wf_screen s \<longrightarrow> wf_screen (f s) \<and> rows (f s) = rows s \<and> cols (f s) = cols s)"

named_theorems edit_rules \<open>editing operations that keep a screen well formed\<close>

lemma edit_id [edit_rules]: "safe_edit (\<lambda>s. s)"
  by (simp add: safe_edit_def)

lemma edit_position [edit_rules]: "safe_edit (\<lambda>s. set_position (p s) (q s) s)"
  by (simp add: safe_edit_def wf_rules)

lemma edit_buffer:
  assumes "\<And>s. length (g s) = length (buffer s)"
  shows "safe_edit (\<lambda>s. s\<lparr>buffer := g s\<rparr>)"
  by (simp add: safe_edit_def wf_buffer_update assms)

lemma edit_comp: "safe_edit f \<Longrightarrow> safe_edit g \<Longrightarrow> safe_edit (\<lambda>s. g (f s))"
  by (simp add: safe_edit_def)

lemma edit_write [edit_rules]: "safe_edit (write_char b at prot circ mark)"
  by (simp add: safe_edit_def wf_rules)

lemma length_fold_update [simp]:
  "length (fold (\<lambda>x b. b[i x := v x b]) xs b) = length b"
  by (induction xs arbitrary: b) simp_all

lemma length_fold_blank [simp]:
  "length (fold (\<lambda>p b. if 0 \<le> p \<and> p < int (length b) then b[nat p := 0x40] else b) ps b) = length b"
  by (induction ps arbitrary: b) simp_all

lemma blank_keeps [simp]:
  "wf_screen s \<Longrightarrow> wf_screen (blank_positions ps s)"
  "rows (blank_positions ps s) = rows s" "cols (blank_positions ps s) = cols s"
  by (simp_all add: blank_positions_def wf_buffer_update)

lemma edit_shift [edit_rules]: "safe_edit (shift_right row col)"
  unfolding shift_right_def by (rule edit_buffer) simp

lemma edit_cursor [edit_rules]:
  "safe_edit cursor_up" "safe_edit cursor_down" "safe_edit cursor_left" "safe_edit cursor_right"
  "safe_edit cursor_newline" "safe_edit cursor_home" "safe_edit cursor_end" "safe_edit page_top"
  "safe_edit (move_cursor_to row col)" "safe_edit (move_cursor1 row col)"
  by (simp_all add: safe_edit_def cursor_up_def cursor_down_def cursor_left_def cursor_right_def cursor_newline_def
      cursor_home_def cursor_end_def page_top_def move_cursor_to_def move_cursor1_def Let_def wf_rules
      case_prod_unfold split: option.split)

lemma edit_backspace [edit_rules]: "safe_edit key_backspace"
  using edit_cursor(3) by (simp add: safe_edit_def key_backspace_def Let_def)

lemma edit_delete_field [edit_rules]: "safe_edit delete_field"
  by (simp add: safe_edit_def delete_field_def split: option.split)

lemma edit_delete_char [edit_rules]: "safe_edit delete_char"
  unfolding delete_char_def Let_def case_prod_beta by (rule edit_buffer) simp

lemma edit_erase_eof [edit_rules]: "safe_edit erase_eof"
  by (simp add: safe_edit_def erase_eof_def case_prod_unfold Let_def)

lemma edit_tab [edit_rules]: "safe_edit move_cursor_to_next_input_field"
  by (simp add: safe_edit_def wf_rules)
     (simp add: move_cursor_to_next_input_field_def cursor_to_def split: option.split)

lemma edit_clear [edit_rules]: "safe_edit clear"
  by (simp add: safe_edit_def wf_rules)

lemma edit_lock [edit_rules]: "safe_edit (set_keyboard_lock b)"
  by (simp add: safe_edit_def wf_rules)

lemma edit_map_fields:
  assumes "\<And>f. f_start (g f) = f_start f \<and> f_end (g f) = f_end f"
  shows "safe_edit (map_fields g)"
proof -
  have on: "on_screen (map_fields g s) = on_screen s" for s
    by (simp add: fun_eq_iff on_screen_def map_fields_def Let_def)
  have "field_ok (map_fields g s) (if b then g f else f) = field_ok s f" for s f b
    using assms [of f] by (simp add: field_ok_def on)
  note ok = this [of _ True, simplified] this [of _ False, simplified]
  have "wf_screen (map_fields g s)" if w: "wf_screen s" for s
  proof -
    have "wf_dims (map_fields g s) = wf_dims s" by (simp add: wf_dims_def map_fields_def Let_def)
    then have "wf_dims (map_fields g s)" "on_screen s (cursor_row s, cursor_col s)"
      "\<forall>rc \<in> set (ascii_fields s). on_screen s rc"
      using w by (simp_all add: wf_screen_def)
    moreover have "\<forall>f \<in> set (sfields (map_fields g s)). field_ok (map_fields g s) f"
      "\<forall>f \<in> set (input_cache (map_fields g s)). field_ok (map_fields g s) f"
      using w ok by (auto simp: wf_screen_def map_fields_def Let_def)
    moreover have "cursor_row (map_fields g s) = cursor_row s" "cursor_col (map_fields g s) = cursor_col s"
      "ascii_fields (map_fields g s) = ascii_fields s"
      by (simp_all add: map_fields_def Let_def)
    ultimately show ?thesis by (simp add: wf_screen_def on)
  qed
  then show ?thesis by (simp add: safe_edit_def) (simp add: map_fields_def Let_def)
qed

lemma edit_erase_input [edit_rules]: "safe_edit erase_input"
  unfolding erase_input_def by (rule edit_map_fields) simp

lemma edit_select [edit_rules]: "safe_edit cursor_select"
proof -
  have "safe_edit (map_fields (\<lambda>g. if g = f then g\<lparr>f_selected := True\<rparr> else g))" for f
    by (rule edit_map_fields) simp
  then show ?thesis by (auto simp: safe_edit_def cursor_select_def split: option.split)
qed

lemma insert_char_keeps:
  assumes "wf_screen (snd rcs)"
  shows "wf_screen (snd (insert_char ins circ b rcs)) \<and> rows (snd (insert_char ins circ b rcs)) = rows (snd rcs)
       \<and> cols (snd (insert_char ins circ b rcs)) = cols (snd rcs)"
proof -
  obtain row col s where r: "rcs = ((row, col), s)" by (metis prod.exhaust)
  define t where "t = (if ins then shift_right row col s else s)"
  have "wf_screen t" "rows t = rows s" "cols t = cols s"
    using assms edit_shift [of row col] by (simp_all add: r t_def safe_edit_def)
  then show ?thesis
    by (simp add: r insert_char_def Let_def wf_rules flip: t_def)
qed

lemma edit_insert [edit_rules]: "safe_edit (insert_text encode1 ins circ str)"
proof -
  have "wf_screen (snd (fold (\<lambda>ch. insert_char ins circ (encode1 ch)) str rcs))
      \<and> rows (snd (fold (\<lambda>ch. insert_char ins circ (encode1 ch)) str rcs)) = rows (snd rcs)
      \<and> cols (snd (fold (\<lambda>ch. insert_char ins circ (encode1 ch)) str rcs)) = cols (snd rcs)"
    if "wf_screen (snd rcs)" for rcs
    using that by (induction str arbitrary: rcs) (simp_all add: insert_char_keeps)
  then show ?thesis by (simp add: safe_edit_def insert_text_def)
qed

section \<open>Sessions\<close>

lemma sound_edit: "safe_edit f \<Longrightarrow> sound_step r (on_rx_screen f r)"
  by (rule sound_screen) (simp add: safe_edit_def)

lemma sound_write: "sound_step r (wire_write bs r)"
  by (simp add: wire_write_def sound_neg evolves_def ng_ok_def)

lemma sound_header: "sound_step r (snd (add_header now data r))"
proof -
  obtain k q where k: "get_next_sent_sequence_number now (rx_seq r) = (k, q)" by fastforce
  obtain h n where h: "outgoing_request ''CLIENT_DATA'' 0 0 0 (Some k) (rx_neg r) = (h, n)" by fastforce
  have "evolves (rx_neg r) (snd (outgoing_request ''CLIENT_DATA'' 0 0 0 (Some k) (rx_neg r)))"
    by (simp add: outgoing_request_def Let_def evolves_def ng_ok_def pending_update)
  with h have "evolves (rx_neg r) n" by simp
  then have "sound_step r (set_rx_neg n (r\<lparr>rx_seq := q\<rparr>))"
    by (simp add: sound_step_def set_rx_neg_def)
  with k h show ?thesis by (simp add: add_header_def)
qed

lemma sound_send: "sound_step r (snd (send_data link now data r))"
  using sound_trans [OF sound_header [of r now data] sound_write]
  by (simp add: send_data_def wire_drain_def case_prod_unfold Let_def)

lemma sound_connected_write: "sound_step r (snd (connected_write allowed bs r))"
  by (simp add: connected_write_def sound_write)

lemma sound_sysreq: "sound_step r (snd (send_sysreq_command link c r))"
proof -
  let ?r = "r\<lparr>rx_telnet := (rx_telnet r)\<lparr>in_suspended_mode := False, in_3270_mode := True\<rparr>\<rparr>"
  have "sound_step r ?r" by (simp add: sound_step_def)
  then have "sound_step r (wire_write bs ?r)" for bs using sound_write by (rule sound_trans)
  with \<open>sound_step r ?r\<close> sound_write show ?thesis
    by (simp add: send_sysreq_command_def wire_drain_def Let_def)
qed

definition sound_command :: "command \<Rightarrow> bool" where
  "sound_command c \<longleftrightarrow> (\<forall>s. sound_step (ss_rx s) (ss_rx (snd (c s))))"

lemma sound_commandD: "sound_command c \<Longrightarrow> c s = (e, s') \<Longrightarrow> sound_step (ss_rx s) (ss_rx s')"
  unfolding sound_command_def by (metis snd_conv)

lemma sound_local: "safe_edit f \<Longrightarrow> sound_command (on_screen_do f)"
  by (simp add: sound_command_def on_screen_do_def sound_edit)

lemma sound_backtab: "sound_command backtab"
proof -
  have "sound_step r (on_rx_screen (\<lambda>_. t) r)" if "cursor_backtab (rx_screen r) = Some t" for r t
  proof -
    have "wf_screen t \<and> rows t = rows (rx_screen r) \<and> cols t = cols (rx_screen r)" if "wf_screen (rx_screen r)"
      using \<open>cursor_backtab (rx_screen r) = Some t\<close> that
      by (auto simp: cursor_backtab_def Let_def wf_rules split: option.splits nat.splits)
    then show ?thesis by (simp add: sound_step_def on_rx_screen_def)
  qed
  then show ?thesis
    by (simp add: sound_command_def backtab_def on_screen_do_def split: option.split)
qed

lemma sound_local_key:
  assumes "map_of local_keys name = Some act" shows "sound_command act"
proof -
  have idle: "sound_command (Pair None)" by (simp add: sound_command_def)
  have "\<forall>na \<in> set local_keys. sound_command (snd na)"
    unfolding local_keys_def
    by (simp add: sound_backtab sound_local [OF edit_tab] sound_local [OF edit_backspace]
        edit_cursor [THEN sound_local]) (rule idle)
  moreover have "(name, act) \<in> set local_keys" using assms by (rule map_of_SomeD)
  ultimately show ?thesis by fastforce
qed

lemma sound_handler_send: "sound_command (handler_send cl data)"
  by (simp add: sound_command_def handler_send_def of_handler_def sound_send)

lemma sound_submit: "sound_command (submit cl a)"
proof -
  have "sound_step (ss_rx s) (ss_rx s')"
    if "handler_send cl bs (s\<lparr>ss_rx := on_rx_screen (set_keyboard_lock True) (ss_rx s)\<rparr>) = (e, s')" for s bs e s'
    using sound_trans [OF sound_edit [OF edit_lock, of "ss_rx s" True] ] sound_commandD [OF sound_handler_send that]
    by simp
  then show ?thesis
    by (auto simp: sound_command_def submit_def Let_def sound_edit [OF edit_lock]
        split: option.split prod.split session_error.split send_error.split link_error.split)
qed

lemma sound_send_attempts: "sound_command (send_attempts n cl data)"
proof -
  have "sound_step (ss_rx s) (ss_rx (snd (send_attempts n cl data s)))" for s
  proof (induction n arbitrary: s)
    case (Suc n)
    obtain e s1 where h: "handler_send cl data s = (e, s1)" by fastforce
    have 1: "sound_step (ss_rx s) (ss_rx s1)" by (rule sound_commandD [OF sound_handler_send h])
    have "snd (send_attempts (Suc n) cl data s) \<in> {s1, snd (send_attempts n cl data s1)}"
      by (simp add: h split: option.split session_error.split send_error.split)
    with 1 Suc.IH [of s1] show ?case by (auto intro: sound_trans)
  qed simp
  then show ?thesis by (simp add: sound_command_def)
qed

lemma sound_session_send: "sound_command (session_send cl data)"
  using sound_send_attempts by (simp add: sound_command_def session_send_def)

lemma sound_receive_attempts: "sound_step r (fst (snd (receive_attempts n cl ws r)))"
proof (induction n arbitrary: ws r)
  case (Suc n)
  obtain w ws' where w: "(case ws of [] \<Rightarrow> ([], []) | w # ws' \<Rightarrow> (w, ws')) = (w, ws')" by fastforce
  obtain res r1 left where h: "receive_data (cl_terminal cl) (cl_now cl) w r = (res, r1, left)"
    by (metis prod.exhaust)
  have 1: "sound_step r r1" using sound_receive [of r "cl_terminal cl" "cl_now cl" w] h by simp
  have "fst (snd (receive_attempts (Suc n) cl ws r)) \<in> {r1, fst (snd (receive_attempts n cl ws' r1))}"
    by (simp add: w h split: sum.split receive_error.split)
  with 1 Suc.IH [of r1 ws'] show ?case by (auto intro: sound_trans)
qed simp

lemma sound_read: "sound_step (ss_rx s) (ss_rx (fst (snd (session_read cl ws s))))"
proof -
  obtain res r ws' where h: "receive_attempts 3 cl ws (ss_rx s) = (res, r, ws')" by (metis prod.exhaust)
  have "sound_step (ss_rx s) r" using sound_receive_attempts [of "ss_rx s" 3 cl ws] h by simp
  then show ?thesis
    using h sound_trans [OF _ sound_parser] by (cases res) (simp_all add: session_read_def)
qed

lemma sound_key_body: "sound_step (ss_rx s) (ss_rx (fst (snd (key_body cl name ws s))))"
proof (cases "map_of AID_MAP name")
  case None
  then show ?thesis using sound_submit [of cl "0xF3"] by (simp add: key_body_def sound_command_def case_prod_unfold Let_def)
next
  case (Some a)
  obtain e s1 where h: "submit cl a s = (e, s1)" by fastforce
  have 1: "sound_step (ss_rx s) (ss_rx s1)" by (rule sound_commandD [OF sound_submit h])
  obtain res s2 ws' where rd: "session_read cl ws s1 = (res, s2, ws')" by (metis prod.exhaust)
  have 2: "sound_step (ss_rx s) (ss_rx s2)"
    using sound_trans [OF 1 sound_read, of cl ws] rd by simp
  have 3: "sound_step (ss_rx s) (run_parser d 0 (ss_rx s2))" for d by (rule sound_trans [OF 2 sound_parser])
  have 4: "sound_step (ss_rx s) (ss_rx (snd (handler_send cl bs s)))" for bs
    using sound_handler_send by (simp add: sound_command_def)
  show ?thesis
    using 1 2 3 4 by (cases e; cases res) (auto simp: key_body_def Some h rd case_prod_unfold Let_def)
qed

lemma sound_key: "sound_step (ss_rx s) (ss_rx (fst (snd (key cl name ws s))))"
proof -
  obtain e s1 ws' where h: "key_body cl name ws s = (e, s1, ws')" by (metis prod.exhaust)
  have 1: "sound_step (ss_rx s) (ss_rx s1)" using sound_key_body [of s cl name ws] h by simp
  have 2: "sound_step (ss_rx s) (ss_rx (snd (handler_send cl [] s1)))"
    using sound_trans [OF 1] sound_handler_send by (simp add: sound_command_def)
  have 3: "map_of local_keys name = Some act \<Longrightarrow> sound_step (ss_rx s) (ss_rx (snd (act s)))" for act
    using sound_local_key by (simp add: sound_command_def)
  show ?thesis
    using 1 2 3 by (cases e) (auto simp: key_def h case_prod_unfold Let_def split: option.split)
qed

text \<open>Everything that happens to a session: commands of the operator and reads.\<close>

inductive session_step :: "client \<Rightarrow> session \<Rightarrow> session \<Rightarrow> bool" for cl where
  step_key: "key cl name ws s = (e, s', ws') \<Longrightarrow> session_step cl s s'"
| step_read: "session_read cl ws s = (res, s', ws') \<Longrightarrow> session_step cl s s'"
| step_send: "session_send cl data s = (e, s') \<Longrightarrow> session_step cl s s'"
| step_submit: "submit cl a s = (e, s') \<Longrightarrow> session_step cl s s'"
| step_type: "type_string cl str s = (e, s') \<Longrightarrow> session_step cl s s'"
| step_backtab: "backtab s = (e, s') \<Longrightarrow> session_step cl s s'"
| step_edit: "f \<in> {delete_field, delete_char, erase_eof, erase_input, cursor_select, clear, cursor_end, page_top,
                   move_cursor_to row col, move_cursor1 row col} \<Longrightarrow>
     on_screen_do f s = (e, s') \<Longrightarrow> session_step cl s s'"
| step_insert_mode: "toggle_insert s = (e, s') \<Longrightarrow> session_step cl s s'"
| step_circumvent: "circum_not s = (e, s') \<Longrightarrow> session_step cl s s'"
| step_sysreq: "of_handler (map_prod f id (send_sysreq_command link c (ss_rx s))) s = (e, s') \<Longrightarrow> session_step cl s s'"
| step_close: "session_step cl s (s\<lparr>ss_open := False\<rparr>)"

lemma sound_session_step: "session_step cl s s' \<Longrightarrow> sound_step (ss_rx s) (ss_rx s')"
proof (induction rule: session_step.induct)
  case (step_key name ws s e s' ws')
  then show ?case using sound_key [of s cl name ws] by simp
next
  case (step_read ws s res s' ws')
  then show ?case using sound_read [of s cl ws] by simp
next
  case (step_send data s e s')
  then show ?case by (rule sound_commandD [OF sound_session_send])
next
  case (step_submit a s e s')
  then show ?case by (rule sound_commandD [OF sound_submit])
next
  case (step_type str s e s')
  then show ?case using sound_edit [OF edit_insert] by (auto simp: type_string_def on_screen_do_def)
next
  case (step_backtab s e s')
  then show ?case by (rule sound_commandD [OF sound_backtab])
next
  case (step_edit f row col s e s')
  then have "safe_edit f" by (auto simp: edit_rules)
  with step_edit show ?case by (auto simp: on_screen_do_def intro: sound_edit)
next
  case (step_sysreq f link c s e s')
  then show ?case using sound_sysreq [of "ss_rx s" link c] by (auto simp: of_handler_def)
qed (auto simp: toggle_insert_def circum_not_def)

text \<open>
  C3. However keys, typed text, editing commands, reads and whatever the host sends follow each other: a
  screen that was well formed stays well formed with its dimensions and its cursor on it, the negotiator
  keeps its invariant and configuration, and what was written to the connection is only added to.
\<close>

theorem sessions_stay_whole:
  assumes "(session_step cl)\<^sup>*\<^sup>* s t"
  shows "sound_step (ss_rx s) (ss_rx t)"
  using assms by induction (auto intro: sound_trans sound_session_step)

definition demo_client :: client where
  "demo_client = \<lparr>cl_encode1 = char_byte, cl_encode = map char_byte, cl_decode = (\<lambda>_ bs. map byte_char bs),
     cl_terminal = (\<lambda>_. None), cl_link = (\<lambda>_. None), cl_now = 0\<rparr>"

definition demo_session :: session where
  "demo_session = \<lparr>ss_rx = demo_receiver, ss_open = True, ss_circumvent = False, ss_insert = False\<rparr>"

theorem sessions_stay_whole_witness:
  "wf_screen (ss_screen (snd (type_string demo_client ''AB'' (snd (toggle_insert demo_session)))))"
proof -
  let ?s = "snd (toggle_insert demo_session)"
  have "session_step demo_client demo_session ?s"
    by (rule step_insert_mode [of _ "fst (toggle_insert demo_session)"]) simp
  moreover have "session_step demo_client ?s (snd (type_string demo_client ''AB'' ?s))"
    by (rule step_type [of _ "''AB''" _ "fst (type_string demo_client ''AB'' ?s)"]) simp
  ultimately have "(session_step demo_client)\<^sup>*\<^sup>* demo_session (snd (type_string demo_client ''AB'' ?s))"
    by (blast intro: converse_rtranclp_into_rtranclp)
  from sessions_stay_whole [OF this] wf_demo show ?thesis
    by (simp add: sound_step_def demo_session_def demo_receiver_facts)
qed

end
