(* ===== verification/TypedText.thy ===== *)
theory TypedText
  imports KeyboardProps
begin

text \<open>
  What the operator's commands do: where typed text stands, what insert mode moves, which changes of
  the screen the Enter key does not tell the host, what each key puts on the wire, and what becomes of
  a record when the link fails.
\<close>

section \<open>Typed text\<close>

definition open_cell :: "bool \<Rightarrow> screen \<Rightarrow> nat \<Rightarrow> bool" where
  "open_cell circ s q \<longleftrightarrow> circ \<or> attributes s ! (3 * q) AND 0x40 = 0"

lemma linear_on_screen:
  assumes "wf_screen s" and "on_screen s (row, col)"
  shows "0 \<le> row * cols s + col" "row * cols s + col < ssize s"
  using on_screen_linear [OF wf_dimsD [OF assms(1)] assms(2)] by (simp_all add: linear_def)

lemma typed_cell:
  assumes "wf_screen s" and "on_screen s (row, col)" and "p = nat (row * cols s + col)"
  shows "buffer (write_char b (Some (row, col)) False circ False s)
           = (if open_cell circ s p then (buffer s)[p := b] else buffer s)
       \<and> (\<forall>q. attributes (write_char b (Some (row, col)) False circ False s) ! (3 * q) = attributes s ! (3 * q))"
proof -
  have b: "0 \<le> row * cols s + col" "row * cols s + col < ssize s"
    using linear_on_screen [OF assms(1,2)] .
  then have p: "nat ((row * cols s + col) * 3) = 3 * p" using assms(3) by (simp add: nat_mult_distrib)
  have len: "3 * p + 2 < length (attributes s)"
    using assms(1,3) b by (auto simp: wf_screen_def wf_dims_def)
  have "writable row col circ s \<longleftrightarrow> open_cell circ s p"
    using assms(1,2) b p by (auto simp: writable_def open_cell_def Let_def on_screen_def wf_screen_def wf_dims_def)
  moreover have "(attributes s)[3 * p := attributes s ! (3 * p) OR 0, 3 * p + 1 := 0xF0, 3 * p + 2 := 0xF0] ! (3 * q)
      = attributes s ! (3 * q)" for q
  proof -
    have "3 * q \<noteq> 3 * p + 1" "3 * q \<noteq> 3 * p + 2" by presburger+
    with len show ?thesis by (cases "q = p") simp_all
  qed
  ultimately show ?thesis using assms(3) p
    by (simp add: write_char_def store_char_def Let_def)
qed

definition next_typed :: "screen \<Rightarrow> int \<times> int \<Rightarrow> int \<times> int" where
  "next_typed s rc =
     (if snd rc + 1 \<ge> cols s then (min (rows s - 1) (fst rc + 1), 0) else (fst rc, snd rc + 1))"

lemma next_typed_ok:
  assumes "wf_screen s" and "on_screen s rc"
  shows "on_screen s (next_typed s rc)"
    and "linear s rc + 1 < ssize s \<Longrightarrow> linear s (next_typed s rc) = linear s rc + 1"
proof -
  have d: "0 < rows s" "0 < cols s" "ssize s = rows s * cols s"
    using assms(1) by (simp_all add: wf_screen_def wf_dims_def)
  with assms(2) show "on_screen s (next_typed s rc)" by (auto simp: next_typed_def on_screen_def)
  assume lt: "linear s rc + 1 < ssize s"
  show "linear s (next_typed s rc) = linear s rc + 1"
  proof (cases "snd rc + 1 \<ge> cols s")
    case True
    then have c: "snd rc = cols s - 1" using assms(2) by (simp add: on_screen_def)
    then have "(fst rc + 1) * cols s < rows s * cols s" using lt d by (simp add: linear_def algebra_simps)
    then have "fst rc + 1 < rows s" using d(2) by (simp add: mult_less_cancel_right)
    with True c show ?thesis by (simp add: next_typed_def linear_def algebra_simps)
  qed (simp add: next_typed_def linear_def)
qed

lemma insert_char_typed:
  assumes "wf_screen s" and "on_screen s rc"
  shows "insert_char False circ b (rc, s)
       = (next_typed s rc, set_position (fst (next_typed s rc)) (snd (next_typed s rc))
            (write_char b (Some rc) False circ False s))"
  using assms by (simp add: insert_char_def next_typed_def Let_def case_prod_unfold)

lemma position_set_on_screen:
  assumes "on_screen s rc" shows "get_position (set_position (fst rc) (snd rc) s) = rc"
  using assms by (auto simp: set_position_def get_position_def on_screen_def)

lemma nth_typed:
  assumes "wf_screen s" and "on_screen s rc" and "p = nat (linear s rc)" and "q < length (buffer s)"
  shows "buffer (write_char b (Some rc) False circ False s) ! q
       = (if q = p \<and> open_cell circ s q then b else buffer s ! q)"
  using typed_cell [OF assms(1), of "fst rc" "snd rc" p b circ] assms(2-4)
  by (auto simp: linear_def nth_list_update)

lemma typed_text_at:
  assumes "wf_screen s" and "on_screen s rc" and "p = nat (linear s rc)"
    and "p + length str \<le> length (buffer s)" and "get_position s = rc"
    and "fold (\<lambda>ch. insert_char False circ (encode1 ch)) str (rc, s) = (rc', t)"
  shows "length (buffer t) = length (buffer s)
       \<and> (\<forall>q < length (buffer s). buffer t ! q
            = (if p \<le> q \<and> q < p + length str \<and> open_cell circ s q then encode1 (str ! (q - p)) else buffer s ! q))
       \<and> get_position t = rc'
       \<and> (p + length str < length (buffer s) \<longrightarrow> linear s rc' = int (p + length str))"
  using assms
proof (induction str arbitrary: rc s p)
  case Nil
  have "0 \<le> linear s rc" using on_screen_linear [OF wf_dimsD [OF Nil.prems(1)] Nil.prems(2)] by simp
  with Nil show ?case by auto
next
  case (Cons ch str)
  let ?w = "write_char (encode1 ch) (Some rc) False circ False s"
  let ?rc = "next_typed s rc"
  let ?s = "set_position (fst ?rc) (snd ?rc) ?w"
  note wf = Cons.prems(1) and on = Cons.prems(2) and p = Cons.prems(3)
  have lin: "0 \<le> linear s rc" "linear s rc < ssize s"
    using on_screen_linear [OF wf_dimsD [OF wf] on] by simp_all
  have size: "length (buffer s) = nat (ssize s)" using wf by (simp add: wf_screen_def wf_dims_def)
  have wf': "wf_screen ?s" using wf by (simp add: wf_rules)
  have dims: "rows ?s = rows s" "cols ?s = cols s" by simp_all
  have on': "on_screen ?s ?rc" using next_typed_ok(1) [OF wf on] dims by (simp add: on_screen_def)
  then have on_w: "on_screen ?w ?rc" by (simp add: on_screen_def)
  have cell: "length (buffer ?w) = length (buffer s)"
    "\<forall>q < length (buffer s). buffer ?w ! q = (if q = p \<and> open_cell circ s q then encode1 ch else buffer s ! q)"
    "\<forall>q. open_cell circ ?w q = open_cell circ s q"
    using typed_cell [OF wf, of "fst rc" "snd rc" p "encode1 ch" circ] nth_typed [OF wf on p] on p
    by (auto simp: linear_def open_cell_def)
  have pos: "get_position ?s = ?rc" by (rule position_set_on_screen [OF on_w])
  have eq: "buffer ?s = buffer ?w" "attributes ?s = attributes ?w" "linear ?s = linear s"
    by (simp_all add: fun_eq_iff linear_def set_position_def)
  have oc: "open_cell circ ?s = open_cell circ s" using cell(3) eq by (simp add: fun_eq_iff open_cell_def)
  have fold: "fold (\<lambda>ch. insert_char False circ (encode1 ch)) str (?rc, ?s) = (rc', t)"
    using Cons.prems(6) insert_char_typed [OF wf on, of circ "encode1 ch"] by simp
  show ?case
  proof (cases str)
    case Nil
    with fold have t: "rc' = ?rc" "t = ?s" by auto
    then show ?thesis
      using cell eq pos Nil lin p size next_typed_ok(2) [OF wf on] by (auto simp: less_Suc_eq_le)
  next
    case (Cons c cs)
    then have "int p + 1 < ssize s" using Cons.prems(4) size lin p by auto
    then have np: "linear s ?rc = linear s rc + 1" using next_typed_ok(2) [OF wf on] lin p by simp
    then have p': "Suc p = nat (linear ?s ?rc)" using lin p eq by simp
    have "Suc p + length str \<le> length (buffer ?s)" using Cons.prems(4) cell(1) eq by simp
    note IH = Cons.IH [OF wf' on' p' this pos fold]
    have "buffer t ! q = (if p \<le> q \<and> q < p + length (ch # str) \<and> open_cell circ s q
        then encode1 ((ch # str) ! (q - p)) else buffer s ! q)" if "q < length (buffer s)" for q
      using IH that cell eq oc by (cases "q = p") (auto simp: nth_Cons' Suc_diff_le)
    with IH cell(1) eq show ?thesis by simp
  qed
qed

lemma typed_text_cells:
  assumes "wf_screen s" and "p = nat (linear s (get_position s))" and "p + length str \<le> length (buffer s)"
  shows "length (buffer (insert_text encode1 False circ str s)) = length (buffer s)
     \<and> (\<forall>q < length (buffer s). buffer (insert_text encode1 False circ str s) ! q
          = (if p \<le> q \<and> q < p + length str \<and> open_cell circ s q then encode1 (str ! (q - p)) else buffer s ! q))
     \<and> (p + length str < length (buffer s) \<longrightarrow>
          linear s (get_position (insert_text encode1 False circ str s)) = int (p + length str))"
proof -
  obtain rc' t where f: "fold (\<lambda>ch. insert_char False circ (encode1 ch)) str (get_position s, s) = (rc', t)"
    by fastforce
  have "on_screen s (get_position s)" using assms(1) by (simp add: wf_screen_def get_position_def)
  from typed_text_at [OF assms(1) this assms(2,3) refl f] show ?thesis
    by (simp add: insert_text_def f)
qed

text \<open>
  C8. What typing does, insert mode off: from the cursor on, each character takes its cell when that
  cell is not protected or protection is circumvented, and is lost when it is; no other cell
  changes, and the cursor stands behind the text.
\<close>

theorem typed_text:
  assumes "wf_screen s" and "p = nat (linear s (get_position s))" and "p + length str \<le> length (buffer s)"
    and "q < length (buffer s)"
  shows "buffer (insert_text encode1 False circ str s) ! q
       = (if p \<le> q \<and> q < p + length str \<and> (circ \<or> attributes s ! (3 * q) AND 0x40 = 0)
          then encode1 (str ! (q - p)) else buffer s ! q)
     \<and> (p + length str < length (buffer s) \<longrightarrow>
          linear s (get_position (insert_text encode1 False circ str s)) = int (p + length str))"
  using typed_text_cells [OF assms(1-3), of encode1 circ] assms(4) by (simp add: open_cell_def)

theorem typed_text_witness:
  "buffer (insert_text char_byte False False ''AB'' (set_position 1 0 demo_screen)) ! 4 = 0x41
   \<and> buffer (insert_text char_byte False False ''AB'' (set_position 1 0 demo_screen)) ! 5 = 0x40"
proof -
  have w: "wf_screen (set_position 1 0 demo_screen)" by (rule wf_set_position [OF wf_demo])
  have f: "nat (linear (set_position 1 0 demo_screen) (get_position (set_position 1 0 demo_screen))) = 4"
    "length (buffer (set_position 1 0 demo_screen)) = 8" "attributes (set_position 1 0 demo_screen) ! 12 = 0"
    "attributes (set_position 1 0 demo_screen) ! 15 AND 0x40 \<noteq> 0" "buffer (set_position 1 0 demo_screen) ! 5 = 0x40"
    "char_byte (CHR ''A'') = 0x41"
    by code_simp+
  from typed_text [OF w, of 4 "''AB''" 4 char_byte False] typed_text [OF w, of 4 "''AB''" 5 char_byte False] f
  show ?thesis by simp
qed

text \<open>Nothing of this asks whether the keyboard is locked.\<close>

lemma typing_ignores_lock:
  assumes "wf_screen s" and "nat (linear s (get_position s)) + length str \<le> length (buffer s)"
  shows "buffer (insert_text encode1 False circ str (set_keyboard_lock b s)) = buffer (insert_text encode1 False circ str s)"
proof (rule nth_equalityI)
  let ?s = "set_keyboard_lock b s"
  have e: "linear ?s = linear s" "get_position ?s = get_position s" "buffer ?s = buffer s"
    "open_cell circ ?s q = open_cell circ s q" for q
    by (simp_all add: set_keyboard_lock_def linear_def get_position_def open_cell_def fun_eq_iff)
  note a = typed_text_cells [OF wf_keyboard [OF assms(1), of b] refl, of str encode1 circ]
  note c = typed_text_cells [OF assms(1) refl assms(2), of encode1 circ]
  show "length (buffer (insert_text encode1 False circ str ?s)) = length (buffer (insert_text encode1 False circ str s))"
    using a c e assms(2) by simp
  fix q assume "q < length (buffer (insert_text encode1 False circ str ?s))"
  then show "buffer (insert_text encode1 False circ str ?s) ! q = buffer (insert_text encode1 False circ str s) ! q"
    using a c e assms(2) by simp
qed

section \<open>Editing and the Enter key\<close>

lemma fold_move_right:
  assumes "0 \<le> a" and "0 \<le> n" and "a + int k + n < int (length b)"
  shows "fold (\<lambda>c b. b[nat (a + c) := b ! nat (a + (c - 1))]) (rev [n + 1 .. n + int k]) b ! q
       = (if nat (a + n) < q \<and> q \<le> nat (a + n) + k then b ! (q - 1) else b ! q)"
  using assms(3)
proof (induction k arbitrary: b)
  case (Suc k)
  let ?c = "n + int (Suc k)"
  have "[n + 1 .. ?c] = [n + 1 .. n + int k] @ [?c]"
    using upto_rec2 [of "n + 1" ?c] by (simp add: algebra_simps)
  then have rev: "rev [n + 1 .. ?c] = ?c # rev [n + 1 .. n + int k]" by simp
  let ?b = "b[nat (a + ?c) := b ! nat (a + (?c - 1))]"
  have m: "nat (a + ?c) = nat (a + n) + Suc k" "nat (a + (?c - 1)) = nat (a + n) + k"
    using assms(1,2) by simp_all
  have IH: "fold (\<lambda>c b. b[nat (a + c) := b ! nat (a + (c - 1))]) (rev [n + 1 .. n + int k]) ?b ! q
      = (if nat (a + n) < q \<and> q \<le> nat (a + n) + k then ?b ! (q - 1) else ?b ! q)"
    by (rule Suc.IH) (use Suc.prems in simp)
  have lt: "nat (a + n) + Suc k < length b" using Suc.prems assms(1,2) by simp
  have b': "?b = b[Suc (nat (a + n) + k) := b ! (nat (a + n) + k)]" using m by simp
  have step: "fold (\<lambda>c b. b[nat (a + c) := b ! nat (a + (c - 1))]) (rev [n + 1 .. ?c]) b
      = fold (\<lambda>c b. b[nat (a + c) := b ! nat (a + (c - 1))]) (rev [n + 1 .. n + int k]) ?b"
    by (simp only: rev fold.simps comp_apply)
  show ?case unfolding step IH unfolding b' using lt by (auto simp: nth_list_update)
qed auto

text \<open>
  Insert mode: a character typed at a cell that is not protected moves every cell of the row behind it one
  column to the right, the last one is lost. Fields, protected text and field attributes on
  the way move with the rest.
\<close>

lemma insert_mode_shifts:
  assumes "wf_screen s" and "get_position s = (row, col)" and "p = nat (row * cols s + col)"
    and "circ \<or> attributes s ! (3 * p) AND 0x40 = 0" and "q < length (buffer s)"
  shows "buffer (insert_text encode1 True circ [ch] s) ! q
       = (if q = p then encode1 ch
          else if p < q \<and> int q < (row + 1) * cols s then buffer s ! (q - 1) else buffer s ! q)"
proof -
  let ?t = "shift_right row col s"
  have d: "0 < cols s" "ssize s = rows s * cols s" "length (buffer s) = nat (ssize s)"
    using assms(1) by (simp_all add: wf_screen_def wf_dims_def)
  have on: "on_screen s (row, col)" using assms(1,2) by (simp add: wf_screen_def get_position_def)
  have lin: "0 \<le> row * cols s + col" "row * cols s + col < ssize s" using linear_on_screen [OF assms(1) on] .
  have wt: "wf_screen ?t" and dims: "rows ?t = rows s" "cols ?t = cols s"
    using edit_shift [of row col] assms(1) by (simp_all add: safe_edit_def)
  then have ont: "on_screen ?t (row, col)" using on by (simp add: on_screen_def)
  have at: "attributes ?t = attributes s" by (simp add: shift_right_def)
  have row_end: "row * cols s + (cols s - 1) < ssize s"
  proof -
    have "(row + 1) * cols s \<le> rows s * cols s"
      using on d(1) by (intro mult_right_mono) (simp_all add: on_screen_def)
    with d(2) show ?thesis by (simp add: algebra_simps)
  qed
  define k where "k = nat (cols s - 1 - col)"
  have k: "cols s - 1 = col + int k" "0 \<le> col" using on by (simp_all add: k_def on_screen_def)
  have a: "0 \<le> row * cols s" using on d(1) by (simp add: on_screen_def)
  have "row * cols s + int k + col < int (length (buffer s))" using row_end k(1) d(3) by simp
  from fold_move_right [OF a k(2) this, of q]
  have sh: "buffer ?t ! q = (if p < q \<and> q \<le> p + k then buffer s ! (q - 1) else buffer s ! q)"
    using k(1) assms(3) by (simp add: shift_right_def)
  have pk: "q \<le> p + k \<longleftrightarrow> int q < (row + 1) * cols s"
    using k(1) assms(3) lin(1) by (auto simp: algebra_simps)
  have len: "length (buffer ?t) = length (buffer s)" by (simp add: shift_right_def)
  have "insert_text encode1 True circ [ch] s
      = set_position (fst (next_typed ?t (row, col))) (snd (next_typed ?t (row, col)))
          (write_char (encode1 ch) (Some (row, col)) False circ False ?t)"
    by (simp add: insert_text_def assms(2) insert_char_def Let_def next_typed_def case_prod_unfold)
  then have "buffer (insert_text encode1 True circ [ch] s)
      = buffer (write_char (encode1 ch) (Some (row, col)) False circ False ?t)"
    by (simp add: set_position_def)
  moreover have "buffer (write_char (encode1 ch) (Some (row, col)) False circ False ?t) = (buffer ?t)[p := encode1 ch]"
    using typed_cell [OF wt ont, of p "encode1 ch" circ] assms(3,4) dims at by (simp add: open_cell_def)
  ultimately show ?thesis using sh pk len assms(5) by (auto simp: nth_list_update)
qed

text \<open>
  What the operator erases stays in what the Enter key sends. BackSpace blanks the cell it moves to,
  the other commands blank cells of the row or the field, but none of them changes the content the
  fields have: the record of the Enter key is the one it was before.
\<close>

lemma erasures_not_sent:
  assumes "f \<in> {key_backspace, delete_field, delete_char, erase_eof}"
  shows "enter_record cl (f s) = enter_record cl s \<and> sfields (f s) = sfields s
       \<and> (wf_screen s \<and> 0 < cursor_col s \<longrightarrow>
            buffer (key_backspace s) = (buffer s)[nat (cursor_row s * cols s + cursor_col s - 1) := 0x40])"
proof -
  have p: "sfields (set_position r c s) = sfields s" "cols (set_position r c s) = cols s" for r c
    by (simp_all add: set_position_def)
  have l: "sfields (cursor_left s) = sfields s" "cols (cursor_left s) = cols s"
    by (simp_all add: cursor_left_def Let_def case_prod_unfold p)
  have "sfields (f s) = sfields s \<and> cols (f s) = cols s"
    using assms l
    by (auto simp: key_backspace_def delete_field_def delete_char_def erase_eof_def blank_positions_def Let_def
        split: option.split prod.split)
  then have "enter_record cl (f s) = enter_record cl s \<and> sfields (f s) = sfields s"
    by (simp add: enter_record_def modified_data_def read_modified_fields_def)
  moreover have "buffer (key_backspace s) = (buffer s)[nat (cursor_row s * cols s + cursor_col s - 1) := 0x40]"
    if w: "wf_screen s" and c: "0 < cursor_col s"
  proof -
    have on: "on_screen s (cursor_row s, cursor_col s)" using w by (simp add: wf_screen_def)
    then have on1: "on_screen s (cursor_row s, cursor_col s - 1)" using c by (simp add: on_screen_def)
    have left: "cursor_left s = s\<lparr>cursor_col := cursor_col s - 1\<rparr>"
      using on1 c by (simp add: cursor_left_def get_position_def set_position_def on_screen_def)
    have "0 \<le> cursor_row s * cols s + (cursor_col s - 1)"
      "cursor_row s * cols s + (cursor_col s - 1) < int (length (buffer s))"
      using linear_on_screen [OF w on1] w by (simp_all add: wf_screen_def wf_dims_def)
    then show ?thesis
      by (simp add: key_backspace_def left blank_positions_def get_position_def linear_def algebra_simps)
  qed
  ultimately show ?thesis by blast
qed

section \<open>On the wire\<close>

definition link_is_up :: "client \<Rightarrow> bool" where
  "link_is_up cl \<longleftrightarrow> (\<forall>bs. cl_link cl bs = None)"

definition plain_session :: "session \<Rightarrow> bool" where
  "plain_session s \<longleftrightarrow> ss_open s \<and> require_streams (ss_rx s) \<and> \<not> is_data_stream_ctl_active (rx_neg (ss_rx s))"

lemma plain_send:
  assumes "require_streams r" and "\<not> is_data_stream_ctl_active (rx_neg r)"
  shows "send_data link now data r = (map_option Snd_link (link (ng_out (rx_neg r) @ data)), wire_write data r)"
  using assms by (simp add: send_data_def add_header_def wire_drain_def wire_write_def set_rx_neg_def)

lemma wire_write_facts [simp]:
  "ng_out (rx_neg (wire_write bs r)) = ng_out (rx_neg r) @ bs" "rx_parser (wire_write bs r) = rx_parser r"
  "require_streams (wire_write bs r) = require_streams r"
  "is_data_stream_ctl_active (rx_neg (wire_write bs r)) = is_data_stream_ctl_active (rx_neg r)"
  "wire_write cs (wire_write bs r) = wire_write (bs @ cs) r"
  by (simp_all add: wire_write_def set_rx_neg_def require_streams_def is_data_stream_ctl_active_def)

lemma on_rx_facts [simp]:
  "rx_neg (on_rx_screen f r) = rx_neg r" "require_streams (on_rx_screen f r) = require_streams r"
  "rx_screen (on_rx_screen f r) = f (rx_screen r)"
  by (simp_all add: on_rx_screen_def require_streams_def)

definition key_code :: "string \<Rightarrow> byte" where
  "key_code name = (case map_of AID_MAP name of None \<Rightarrow> 0xF3 | Some a \<Rightarrow> word_of_int a)"

lemma sound_out: "sound_step r r' \<Longrightarrow> \<exists>bs. ng_out (rx_neg r') = ng_out (rx_neg r) @ bs"
  by (simp add: sound_step_def evolves_def)

lemma key_after_submit:
  assumes "ss_open s" and "map_of local_keys name = None" and "map_of AID_MAP name = Some a" and "name \<noteq> ''Enter''"
    and "submit cl a s = (None, s1)"
  shows "sound_step (ss_rx s1) (ss_rx (fst (snd (key cl name ws s))))"
proof -
  obtain res s2 ws' where rd: "session_read cl ws s1 = (res, s2, ws')" by (metis prod.exhaust)
  have read: "sound_step (ss_rx s1) (ss_rx s2)" using sound_read [of s1 cl ws] rd by simp
  have "sound_step (ss_rx s1) (ss_rx (snd (handler_send cl [] s2)))"
    using sound_trans [OF read] sound_handler_send by (simp add: sound_command_def)
  with read sound_trans [OF read sound_parser] show ?thesis
    using assms by (cases res) (auto simp: key_def key_body_def rd case_prod_unfold Let_def)
qed



text \<open>
  What \<open>send\<close> does on a link that fails: the record is written again, whole, after every failure to
  drain, although the first copy is on its way. It raises exactly when the third copy
  fails as well.
\<close>

lemma send_repeats:
  assumes "plain_session s" and "out = ng_out (rx_neg (ss_rx s))"
  shows "\<exists>k \<in> {1, 2, 3}.
           ng_out (rx_neg (ss_rx (snd (session_send cl data s)))) = out @ concat (replicate k data)
         \<and> (\<forall>j \<in> {1 ..< k}. cl_link cl (out @ concat (replicate j data)) \<noteq> None)
         \<and> (fst (session_send cl data s) = None \<longleftrightarrow> cl_link cl (out @ concat (replicate k data)) = None)
         \<and> (fst (session_send cl data s) \<noteq> None \<longrightarrow> k = 3)"
proof -
  define t where "t = (\<lambda>k. s\<lparr>ss_rx := wire_write (concat (replicate k data)) (ss_rx s)\<rparr>)"
  have st: "require_streams (ss_rx s)" "\<not> is_data_stream_ctl_active (rx_neg (ss_rx s))" "ss_open s"
    using assms(1) by (simp_all add: plain_session_def)
  have "wire_write [] (ss_rx s) = ss_rx s" by (simp add: wire_write_def set_rx_neg_def)
  then have t0: "t 0 = s" by (simp add: t_def)
  have rep: "concat (replicate k data) @ data = concat (replicate (Suc k) data)" for k
    by (simp add: replicate_append_same flip: concat_append concat.simps)
       (metis concat.simps concat_append append_Nil2 replicate_append_same)
  have out: "ng_out (rx_neg (ss_rx (t k))) = out @ concat (replicate k data)" for k
    using assms(2) by (simp add: t_def)
  have send: "handler_send cl data (t k)
      = (map_option (Se_send \<circ> Snd_link) (cl_link cl (out @ concat (replicate (Suc k) data))), t (Suc k))" for k
    using plain_send [of "ss_rx (t k)" "cl_link cl" "cl_now cl" data] st assms(2) rep [of k]
    by (simp add: handler_send_def of_handler_def t_def option.map_comp comp_def)
  let ?L = "\<lambda>k. cl_link cl (out @ concat (replicate k data))"
  have run: "send_attempts (Suc n) cl data (t k)
      = (case ?L (Suc k) of None \<Rightarrow> (None, t (Suc k))
         | Some e \<Rightarrow> if n > 0 then send_attempts n cl data (t (Suc k)) else (Some (Se_send (Snd_link e)), t (Suc k)))"
    for n k
    by (simp only: send_attempts.simps send) (simp split: option.split)
  have three: "(3 :: nat) = Suc (Suc (Suc 0))" by simp
  have all: "session_send cl data s = send_attempts (Suc (Suc (Suc 0))) cl data (t 0)"
    using st t0 by (simp only: session_send_def three) simp
  show ?thesis
  proof (cases "?L 1")
    case None
    then have "session_send cl data s = (None, t 1)" unfolding all run by simp
    then show ?thesis using None out [of 1] by (intro bexI [of _ 1]) simp_all
  next
    case 1: (Some e1)
    show ?thesis
    proof (cases "?L 2")
      case None
      then have "session_send cl data s = (None, t 2)" unfolding all run using 1 by (simp add: numeral_2_eq_2)
      then show ?thesis using 1 None out [of 2] by (intro bexI [of _ 2]) (auto simp: numeral_2_eq_2 less_Suc_eq)
    next
      case 2: (Some e2)
      have "session_send cl data s = (map_option (Se_send \<circ> Snd_link) (?L 3), t 3)"
        unfolding all run using 1 2 by (simp add: numeral_2_eq_2 numeral_3_eq_3 split: option.split)
      then show ?thesis using 1 2 out [of 3]
        by (intro bexI [of _ 3]) (auto simp: numeral_2_eq_2 numeral_3_eq_3 less_Suc_eq)
    qed
  qed
qed

end
