(* ===== verification/CodePages.thy ===== *)
theory CodePages
  imports Prelude3270
begin

text \<open>
  \<open>emulation/ebcdic.py\<close>: code pages and the three ways the program translates with them: the functions
  \<open>_decode_ebcdic\<close> and \<open>_encode_ebcdic\<close>, \<open>translate_ebcdic_to_ascii\<close>, and the class \<open>EBCDICCodec\<close>.
  A string is the list of its code points.

  Parameters, in the record \<open>codec_world\<close>: the codecs Python knows beside cp037, and the functions of the
  optional package \<open>ebcdic\<close> where it is installed and has them.
\<close>

section \<open>Tables\<close>

type_synonym unicode = "int list"

text \<open>Python's code page cp037: the character of each byte.\<close>

definition CP037 :: unicode where
  "CP037 = [
     0, 1, 2, 3, 156, 9, 134, 127, 151, 141, 142, 11, 12, 13, 14, 15, 16, 17, 18, 19, 157, 133, 8,
     135, 24, 25, 146, 143, 28, 29, 30, 31, 128, 129, 130, 131, 132, 10, 23, 27, 136, 137, 138,
     139, 140, 5, 6, 7, 144, 145, 22, 147, 148, 149, 150, 4, 152, 153, 154, 155, 20, 21, 158, 26,
     32, 160, 226, 228, 224, 225, 227, 229, 231, 241, 162, 46, 60, 40, 43, 124, 38, 233, 234, 235,
     232, 237, 238, 239, 236, 223, 33, 36, 42, 41, 59, 172, 45, 47, 194, 196, 192, 193, 195, 197,
     199, 209, 166, 44, 37, 95, 62, 63, 248, 201, 202, 203, 200, 205, 206, 207, 204, 96, 58, 35,
     64, 39, 61, 34, 216, 97, 98, 99, 100, 101, 102, 103, 104, 105, 171, 187, 240, 253, 254, 177,
     176, 106, 107, 108, 109, 110, 111, 112, 113, 114, 170, 186, 230, 184, 198, 164, 181, 126,
     115, 116, 117, 118, 119, 120, 121, 122, 161, 191, 208, 221, 222, 174, 94, 163, 165, 183, 169,
     167, 182, 188, 189, 190, 91, 93, 175, 168, 180, 215, 123, 65, 66, 67, 68, 69, 70, 71, 72, 73,
     173, 244, 246, 242, 243, 245, 125, 74, 75, 76, 77, 78, 79, 80, 81, 82, 185, 251, 252, 249,
     250, 255, 92, 247, 83, 84, 85, 86, 87, 88, 89, 90, 178, 212, 214, 210, 211, 213, 48, 49, 50,
     51, 52, 53, 54, 55, 56, 57, 179, 219, 220, 217, 218, 159]"

definition cp930_mappings :: "(byte \<times> int) list" where
  "cp930_mappings = [
     (0x41, 0xFF61), (0x42, 0xFF62), (0x43, 0xFF63), (0x44, 0xFF64), (0x45, 0xFF65),
     (0x46, 0xFF66), (0x47, 0xFF67), (0x48, 0xFF68), (0x49, 0xFF69), (0x4A, 0xFF6A),
     (0x4B, 0xFF6B), (0x4C, 0xFF6C), (0x4D, 0xFF6D), (0x4E, 0xFF6E), (0x4F, 0xFF6F),
     (0x50, 0xFF70), (0x51, 0xFF71), (0x52, 0xFF72), (0x53, 0xFF73), (0x54, 0xFF74),
     (0x55, 0xFF75), (0x56, 0xFF76), (0x57, 0xFF77), (0x58, 0xFF78), (0x59, 0xFF79),
     (0x5A, 0xFF7A), (0x5B, 0xFF7B), (0x5C, 0xFF7C), (0x5D, 0xFF7D), (0x5E, 0xFF7E),
     (0x5F, 0xFF7F), (0x60, 0xFF80), (0x61, 0xFF81), (0x62, 0xFF82), (0x63, 0xFF83),
     (0x64, 0xFF84), (0x65, 0xFF85), (0x66, 0xFF86), (0x67, 0xFF87), (0x68, 0xFF88),
     (0x69, 0xFF89), (0x6A, 0xFF8A), (0x6B, 0xFF8B), (0x6C, 0xFF8C), (0x6D, 0xFF8D),
     (0x6E, 0xFF8E), (0x6F, 0xFF8F), (0x70, 0xFF90), (0x71, 0xFF91), (0x72, 0xFF92),
     (0x73, 0xFF93), (0x74, 0xFF94), (0x75, 0xFF95), (0x76, 0xFF96), (0x77, 0xFF97),
     (0x78, 0xFF98), (0x79, 0xFF99), (0x7A, 0xFF9A), (0x7B, 0xFF9B), (0x7C, 0xFF9C),
     (0x7D, 0xFF9D), (0x7E, 0xFF9E), (0x7F, 0xFF9F)]"

definition cp933_mappings :: "(byte \<times> int) list" where
  "cp933_mappings = [
     (0x41, 0x3131), (0x42, 0x3132), (0x43, 0x3133), (0x44, 0x3134), (0x45, 0x3135),
     (0x46, 0x3136), (0x47, 0x3137), (0x48, 0x3138), (0x49, 0x3139), (0x4A, 0x313A),
     (0x4B, 0x313B), (0x4C, 0x313C), (0x4D, 0x313D), (0x4E, 0x313E), (0x4F, 0x313F),
     (0x50, 0x3140), (0x51, 0x3141), (0x52, 0x3142), (0x53, 0x3143), (0x54, 0x3144),
     (0x55, 0x3145), (0x56, 0x3146), (0x57, 0x3147), (0x58, 0x3148), (0x59, 0x3149),
     (0x5A, 0x314A), (0x5B, 0x314B), (0x5C, 0x314C), (0x5D, 0x314D), (0x5E, 0x314E),
     (0x5F, 0x314F), (0x60, 0x3150), (0x61, 0x3151), (0x62, 0x3152), (0x63, 0x3153),
     (0x64, 0x3154), (0x65, 0x3155), (0x66, 0x3156), (0x67, 0x3157), (0x68, 0x3158),
     (0x69, 0x3159), (0x6A, 0x315A), (0x6B, 0x315B), (0x6C, 0x315C), (0x6D, 0x315D),
     (0x6E, 0x315E), (0x6F, 0x315F), (0x70, 0x3160), (0x71, 0x3161), (0x72, 0x3162),
     (0x73, 0x3163), (0x74, 0xAC00), (0x75, 0xB098), (0x76, 0xB2E4), (0x77, 0xB77C),
     (0x78, 0xB9C8), (0x79, 0xBC14), (0x7A, 0xC0AC), (0x7B, 0xC544), (0x7C, 0xC790),
     (0x7D, 0xCC28), (0x7E, 0xCE74), (0x7F, 0xD0C0)]"

definition cp935_mappings :: "(byte \<times> int) list" where
  "cp935_mappings = [
     (0x41, 0x4E00), (0x42, 0x4E8C), (0x43, 0x4E09), (0x44, 0x56DB), (0x45, 0x4E94),
     (0x46, 0x516D), (0x47, 0x4E03), (0x48, 0x516B), (0x49, 0x4E5D), (0x4A, 0x5341),
     (0x4B, 0x767E), (0x4C, 0x5343), (0x4D, 0x842C), (0x4E, 0x5104), (0x4F, 0x5146),
     (0x50, 0x5E74), (0x51, 0x6708), (0x52, 0x65E5), (0x53, 0x6642), (0x54, 0x5206),
     (0x55, 0x79D2), (0x56, 0x4E2D), (0x57, 0x570B), (0x58, 0x4EBA), (0x59, 0x5927),
     (0x5A, 0x5C0F), (0x5B, 0x4E0A), (0x5C, 0x4E0B), (0x5D, 0x5DE6), (0x5E, 0x53F3),
     (0x5F, 0x6771), (0x60, 0x897F), (0x61, 0x5357), (0x62, 0x5317), (0x63, 0x5C71),
     (0x64, 0x6C34), (0x65, 0x706B), (0x66, 0x571F), (0x67, 0x6728), (0x68, 0x91D1),
     (0x69, 0x5929), (0x6A, 0x5730), (0x6B, 0x98A8), (0x6C, 0x96F2), (0x6D, 0x96E8),
     (0x6E, 0x96EA), (0x6F, 0x96FB), (0x70, 0x96F7), (0x71, 0x51B0), (0x72, 0x9727),
     (0x73, 0x9732), (0x74, 0x971C), (0x75, 0x82B1), (0x76, 0x8349), (0x77, 0x6A39),
     (0x78, 0x6797), (0x79, 0x68EE), (0x7A, 0x7AF9), (0x7B, 0x77F3), (0x7C, 0x5CA9),
     (0x7D, 0x7802), (0x7E, 0x571F), (0x7F, 0x6CE5)]"

definition cp937_mappings :: "(byte \<times> int) list" where
  "cp937_mappings = [
     (0x41, 0x4E00), (0x42, 0x4E8C), (0x43, 0x4E09), (0x44, 0x56DB), (0x45, 0x4E94),
     (0x46, 0x516D), (0x47, 0x4E03), (0x48, 0x516B), (0x49, 0x4E5D), (0x4A, 0x5341),
     (0x4B, 0x767E), (0x4C, 0x5343), (0x4D, 0x4E07), (0x4E, 0x4EBF), (0x4F, 0x5146),
     (0x50, 0x5E74), (0x51, 0x6708), (0x52, 0x65E5), (0x53, 0x65F6), (0x54, 0x5206),
     (0x55, 0x79D2), (0x56, 0x4E2D), (0x57, 0x56FD), (0x58, 0x4EBA), (0x59, 0x5927),
     (0x5A, 0x5C0F), (0x5B, 0x4E0A), (0x5C, 0x4E0B), (0x5D, 0x5DE6), (0x5E, 0x53F3),
     (0x5F, 0x4E1C), (0x60, 0x897F), (0x61, 0x5357), (0x62, 0x5317), (0x63, 0x5C71),
     (0x64, 0x6C34), (0x65, 0x706B), (0x66, 0x571F), (0x67, 0x6728), (0x68, 0x91D1),
     (0x69, 0x5929), (0x6A, 0x5730), (0x6B, 0x98CE), (0x6C, 0x4E91), (0x6D, 0x96E8),
     (0x6E, 0x96EA), (0x6F, 0x7535), (0x70, 0x96F7), (0x71, 0x51B0), (0x72, 0x96FE),
     (0x73, 0x9732), (0x74, 0x971C), (0x75, 0x82B1), (0x76, 0x8349), (0x77, 0x6811),
     (0x78, 0x6797), (0x79, 0x68EE), (0x7A, 0x7AF9), (0x7B, 0x77F3), (0x7C, 0x5CA9),
     (0x7D, 0x6C99), (0x7E, 0x571F), (0x7F, 0x6CE5)]"

definition cp939_mappings :: "(byte \<times> int) list" where
  "cp939_mappings = [
     (0x41, 0x3042), (0x42, 0x3044), (0x43, 0x3046), (0x44, 0x3048), (0x45, 0x304A),
     (0x46, 0x304B), (0x47, 0x304D), (0x48, 0x304F), (0x49, 0x3051), (0x4A, 0x3053),
     (0x4B, 0x3055), (0x4C, 0x3057), (0x4D, 0x3059), (0x4E, 0x305B), (0x4F, 0x305D),
     (0x50, 0x305F), (0x51, 0x3061), (0x52, 0x3064), (0x53, 0x3066), (0x54, 0x3068),
     (0x55, 0x306A), (0x56, 0x306B), (0x57, 0x306C), (0x58, 0x306D), (0x59, 0x306E),
     (0x5A, 0x306F), (0x5B, 0x3072), (0x5C, 0x3075), (0x5D, 0x3078), (0x5E, 0x307B),
     (0x5F, 0x307E), (0x60, 0x307F), (0x61, 0x3080), (0x62, 0x3081), (0x63, 0x3082),
     (0x64, 0x3084), (0x65, 0x3086), (0x66, 0x3088), (0x67, 0x3089), (0x68, 0x308A),
     (0x69, 0x308B), (0x6A, 0x308C), (0x6B, 0x308D), (0x6C, 0x308F), (0x6D, 0x3092),
     (0x6E, 0x3093), (0x6F, 0x304C), (0x70, 0x304E), (0x71, 0x3050), (0x72, 0x3052),
     (0x73, 0x3054), (0x74, 0x3056), (0x75, 0x3058), (0x76, 0x305A), (0x77, 0x305C),
     (0x78, 0x305E), (0x79, 0x3060), (0x7A, 0x3062), (0x7B, 0x3065), (0x7C, 0x3067),
     (0x7D, 0x3069), (0x7E, 0x3070), (0x7F, 0x3073)]"

definition custom_codepages :: "(string \<times> (byte \<times> int) list) list" where
  "custom_codepages =
     [(''cp930'', cp930_mappings), (''cp933'', cp933_mappings), (''cp935'', cp935_mappings),
      (''cp937'', cp937_mappings), (''cp939'', cp939_mappings)]"

section \<open>Python's codecs\<close>

text \<open>
  A codec for one byte per character: what each byte stands for, if anything, and the byte of a character.
  A codec that is not known raises \<open>LookupError\<close>, undefined bytes and characters \<open>UnicodeError\<close>.
\<close>

record codec =
  cd_decode :: "byte \<Rightarrow> int option"
  cd_encode :: "int \<Rightarrow> byte option"

datatype codec_error = Lookup_error | Unicode_error

datatype package_result = Package_value unicode | Package_none | Package_fails codec_error

datatype package_bytes = Package_bytes bytes | Package_no_bytes | Package_no_encoding codec_error

record codec_world =
  cw_codec :: "string \<Rightarrow> codec option"
  cw_decode :: "(string \<Rightarrow> bytes \<Rightarrow> package_result) option"
  cw_encode :: "(string \<Rightarrow> unicode \<Rightarrow> package_bytes) option"

definition cp037_codec :: codec where
  "cp037_codec = \<lparr>cd_decode = (\<lambda>b. Some (CP037 ! unat b)),
     cd_encode = (\<lambda>c. map_option of_nat (index_of c CP037))\<rparr>"

definition python_codec :: "codec_world \<Rightarrow> string \<Rightarrow> codec option" where
  "python_codec w cp = (if cp = ''cp037'' then Some cp037_codec else cw_codec w cp)"

definition py_decode :: "codec_world \<Rightarrow> string \<Rightarrow> bytes \<Rightarrow> codec_error + unicode" where
  "py_decode w cp data =
     (case python_codec w cp of
        None \<Rightarrow> Inl Lookup_error
      | Some c \<Rightarrow> (case those (map (cd_decode c) data) of None \<Rightarrow> Inl Unicode_error | Some u \<Rightarrow> Inr u))"

definition py_encode :: "codec_world \<Rightarrow> string \<Rightarrow> unicode \<Rightarrow> codec_error + bytes" where
  "py_encode w cp u =
     (case python_codec w cp of
        None \<Rightarrow> Inl Lookup_error
      | Some c \<Rightarrow> (case those (map (cd_encode c) u) of None \<Rightarrow> Inl Unicode_error | Some bs \<Rightarrow> Inr bs))"

definition latin_1 :: "bytes \<Rightarrow> unicode" where
  "latin_1 = map uint"

text \<open>The table of a code page; an undefined byte of a known codec makes it raise.\<close>

definition all_bytes :: bytes where
  "all_bytes = map word_of_int [0 .. 255]"

definition get_table :: "codec_world \<Rightarrow> string \<Rightarrow> codec_error + unicode" where
  "get_table w cp =
     (case map_of custom_codepages cp of
        Some ms \<Rightarrow> Inr (map (\<lambda>b. case map_of ms b of Some u \<Rightarrow> u | None \<Rightarrow> CP037 ! unat b) all_bytes)
      | None \<Rightarrow>
          (case py_decode w cp all_bytes of
             Inl Lookup_error \<Rightarrow> Inr CP037
           | res \<Rightarrow> res))"

section \<open>Functions\<close>

definition clean_char :: "int \<Rightarrow> int" where
  "clean_char c = (if (32 \<le> c \<and> c \<noteq> 127) \<or> c \<in> {9, 10, 13} then c else 32)"

definition clean_non_printable :: "unicode \<Rightarrow> unicode" where
  "clean_non_printable = map clean_char"

text \<open>
  The package comes first. What it fails with is caught when it is a \<open>ValueError\<close>, as the errors of
  decoding and encoding are; \<open>decode_package\<close> is \<open>None\<close> when the function goes on without it.
\<close>

definition decode_package :: "codec_world \<Rightarrow> string \<Rightarrow> bytes \<Rightarrow> (codec_error + unicode) option" where
  "decode_package w cp data =
     (case cw_decode w of
        None \<Rightarrow> None
      | Some f \<Rightarrow>
          (case f cp data of
             Package_value u \<Rightarrow> Some (Inr (clean_non_printable u))
           | Package_none \<Rightarrow> Some (Inr [])
           | Package_fails Unicode_error \<Rightarrow> None
           | Package_fails Lookup_error \<Rightarrow> Some (Inl Lookup_error)))"

definition decode_ebcdic :: "codec_world \<Rightarrow> string \<Rightarrow> bytes \<Rightarrow> codec_error + unicode" where
  "decode_ebcdic w cp data =
     (if data = [] then Inr []
      else case decode_package w cp data of
             Some res \<Rightarrow> res
           | None \<Rightarrow>
               (if map_of custom_codepages cp \<noteq> None
                then map_sum id (\<lambda>t. clean_non_printable (map (\<lambda>b. t ! unat b) data)) (get_table w cp)
                else case py_decode w cp data of
                       Inr u \<Rightarrow> Inr (clean_non_printable u)
                     | Inl _ \<Rightarrow> Inr (clean_non_printable (latin_1 data))))"

text \<open>Here a codec that is not known is an error of the caller.\<close>

definition translate_ebcdic_to_ascii :: "codec_world \<Rightarrow> string \<Rightarrow> bytes \<Rightarrow> codec_error + unicode" where
  "translate_ebcdic_to_ascii w cp data =
     (if data = [] then Inr []
      else case decode_package w cp data of
             Some res \<Rightarrow> res
           | None \<Rightarrow>
               (case py_decode w cp data of
                  Inr u \<Rightarrow> Inr (clean_non_printable u)
                | Inl Unicode_error \<Rightarrow> Inr (clean_non_printable (latin_1 data))
                | Inl Lookup_error \<Rightarrow> Inl Lookup_error))"

definition encode_ebcdic :: "codec_world \<Rightarrow> string \<Rightarrow> unicode \<Rightarrow> codec_error + bytes" where
  "encode_ebcdic w cp u =
     (let fallback =
        (case py_encode w cp u of
           Inl Unicode_error \<Rightarrow>
             py_encode w cp (map (\<lambda>c. if isl (py_encode w cp [c]) then 32 else c) u)
         | res \<Rightarrow> res)
      in if u = [] then Inr []
         else case cw_encode w of
                None \<Rightarrow> fallback
              | Some f \<Rightarrow>
                  (case f cp u of
                     Package_bytes bs \<Rightarrow> Inr bs
                   | Package_no_bytes \<Rightarrow> Inr []
                   | Package_no_encoding Unicode_error \<Rightarrow> fallback
                   | Package_no_encoding Lookup_error \<Rightarrow> Inl Lookup_error))"

definition encode_ebcdic_bytes :: "codec_world \<Rightarrow> string \<Rightarrow> bytes \<Rightarrow> codec_error + bytes" where
  "encode_ebcdic_bytes w cp data = encode_ebcdic w cp (latin_1 data)"

definition translate_ascii_to_ebcdic :: "codec_world \<Rightarrow> string \<Rightarrow> unicode \<Rightarrow> codec_error + bytes" where
  "translate_ascii_to_ebcdic w cp u = encode_ebcdic w cp u"

text \<open>The encoder of the emulation knows one code page.\<close>

definition emulation_decode :: "codec_world \<Rightarrow> bytes \<Rightarrow> codec_error + unicode" where
  "emulation_decode w = translate_ebcdic_to_ascii w ''cp037''"

definition emulation_encode :: "codec_world \<Rightarrow> unicode \<Rightarrow> codec_error + bytes" where
  "emulation_encode w = encode_ebcdic w ''cp037''"

section \<open>The codec\<close>

record ebcdic_codec =
  ec_codepage :: string
  ec_compat :: bool
  ec_table :: unicode

definition EBCDICCodec_init :: "codec_world \<Rightarrow> string \<Rightarrow> bool \<Rightarrow> codec_error + ebcdic_codec" where
  "EBCDICCodec_init w cp p3270 =
     map_sum id (\<lambda>t. \<lparr>ec_codepage = cp, ec_compat = p3270, ec_table = t\<rparr>) (get_table w cp)"

definition codec_clean :: "int \<Rightarrow> int" where
  "codec_clean c = (if 32 \<le> c \<and> c \<noteq> 127 then c else if c \<in> {0, 9, 10, 13} then c else 32)"

definition codec_decode :: "ebcdic_codec \<Rightarrow> bytes \<Rightarrow> unicode" where
  "codec_decode c = map (\<lambda>b. codec_clean (ec_table c ! unat b))"

text \<open>The reverse table holds the first byte of each character.\<close>

definition reverse_table :: "ebcdic_codec \<Rightarrow> int \<Rightarrow> byte option" where
  "reverse_table c ch = map_option of_nat (index_of ch (ec_table c))"

definition surrogate :: "int \<Rightarrow> bool" where
  "surrogate c \<longleftrightarrow> (0xDC80 \<le> c \<and> c \<le> 0xDCFF) \<or> (0xD800 \<le> c \<and> c \<le> 0xDBFF)"

definition conservative_byte :: "ebcdic_codec \<Rightarrow> int \<Rightarrow> byte" where
  "conservative_byte c ch =
     (case reverse_table c ch of
        Some b \<Rightarrow> b
      | None \<Rightarrow> if surrogate ch then 0x6F else if ec_compat c then 0x7A else 0x40)"

definition representable :: "ebcdic_codec \<Rightarrow> int \<Rightarrow> bool" where
  "representable c ch \<longleftrightarrow> reverse_table c ch \<noteq> None \<or> cd_encode cp037_codec ch \<noteq> None"

definition codec_encode :: "codec_world \<Rightarrow> ebcdic_codec \<Rightarrow> unicode \<Rightarrow> codec_error + bytes" where
  "codec_encode w c u =
     (let conservative = Inr (map (conservative_byte c) u)
      in if u = [] then Inr []
         else if list_all (representable c) u
         then (case encode_ebcdic w (ec_codepage c) u of
                 Inr bs \<Rightarrow> Inr bs
               | Inl Lookup_error \<Rightarrow> Inl Lookup_error
               | Inl Unicode_error \<Rightarrow> conservative)
         else conservative)"

definition encode_to_unicode_table :: "ebcdic_codec \<Rightarrow> unicode \<Rightarrow> bytes" where
  "encode_to_unicode_table c =
     map (\<lambda>ch. case reverse_table c ch of Some b \<Rightarrow> b | None \<Rightarrow> if ec_compat c then 0x7A else 0x40)"

section \<open>cp037\<close>

lemma cp037_sorted: "sort CP037 = [0 .. 255]"
  by code_simp

lemma cp037_facts: "length CP037 = 256" "distinct CP037" "set CP037 = {0 .. 255}"
proof -
  have "distinct (sort CP037)" "set (sort CP037) = {0 .. 255}" "length (sort CP037) = 256"
    by (simp_all only: cp037_sorted distinct_upto set_upto) simp
  then show "length CP037 = 256" "distinct CP037" "set CP037 = {0 .. 255}" by simp_all
qed

end
