(* ===== verification/Newest.thy ===== *)
theory Newest
  imports Prelude3270
begin

text \<open>
  Lists that keep their newest elements: Python's \<open>xs[-n:]\<close> after an append, as print lines, the data of a
  print job, finished jobs and histories use it. The interface \<open>tail_store\<close> is what their users rely on:
  after any number of additions the store holds the newest part of everything that was added.
\<close>

definition newest :: "nat \<Rightarrow> 'a list \<Rightarrow> 'a list" where
  "newest n xs = drop (length xs - n) xs"

text \<open>The source's cut, for any limit; a limit of zero cuts nothing off.\<close>

definition keep_last :: "int \<Rightarrow> 'a list \<Rightarrow> 'a list" where
  "keep_last n xs = (if int (length xs) > n then py_slice xs (- n) (int (length xs)) else xs)"

lemma keep_last_newest: "0 < n \<Longrightarrow> keep_last n xs = newest (nat n) xs"
  by (auto simp: keep_last_def newest_def py_slice_def py_bound_def Let_def nat_diff_distrib')

lemma newest_append: "newest n (newest n xs @ ys) = newest n (xs @ ys)"
proof (cases "length xs \<le> n")
  case False
  then have "length xs + length ys - (length xs - n + n) + (length xs - n) = length xs + length ys - n"
    "length xs - n + n = length xs" by simp_all
  then show ?thesis by (simp add: newest_def drop_append)
qed (simp add: newest_def)

lemma newest_all: "length xs \<le> n \<Longrightarrow> newest n xs = xs"
  by (simp add: newest_def)

lemma length_newest: "length (newest n xs) \<le> n"
  by (simp add: newest_def)

lemma newest_map: "newest n (map f xs) = map f (newest n xs)"
  by (simp add: newest_def drop_map)

lemma set_newest: "set (newest n xs) \<subseteq> set xs"
  by (auto simp: newest_def dest: in_set_dropD)

locale tail_store =
  fixes put :: "'s \<Rightarrow> 'a \<Rightarrow> 's"
    and held :: "'s \<Rightarrow> 'e list"
    and cap :: "'s \<Rightarrow> int"
    and part :: "'a \<Rightarrow> 'e list"
  assumes held_put: "0 < cap s \<Longrightarrow> held (put s x) = newest (nat (cap s)) (held s @ part x)"
    and cap_put: "cap (put s x) = cap s"
begin

lemma held_fold:
  assumes "0 < cap s" and "held s = newest (nat (cap s)) old"
  shows "held (foldl put s xs) = newest (nat (cap s)) (old @ concat (map part xs))"
  using assms
proof (induction xs arbitrary: s old)
  case (Cons x xs)
  have "held (put s x) = newest (nat (cap (put s x))) (old @ part x)"
    using Cons.prems by (simp add: held_put cap_put newest_append)
  from Cons.IH [OF _ this] Cons.prems(1) show ?case by (simp add: cap_put)
qed simp

lemma held_bounded:
  assumes "0 < cap s" and "length (held s) \<le> nat (cap s)"
  shows "length (held (foldl put s xs)) \<le> nat (cap s)"
  using held_fold [OF assms(1), of "held s" xs] assms(2) by (simp add: newest_all length_newest)

lemma held_step:
  assumes "0 < cap s" and "held s = newest (nat (cap s)) old"
  shows "held (put s x) = newest (nat (cap s)) (old @ part x)"
  using held_fold [OF assms, of "[x]"] by simp

end

end
