(* ===== verification/PrinterBuffer.thy ===== *)
theory PrinterBuffer
  imports CodePages PyText Newest
begin

text \<open>
  \<open>emulation/printer_buffer.py\<close>: the pages of a 3287 printer. The buffer is a list of finished lines and
  the pieces of the line at work; \<open>write_scs_data\<close> interprets a chunk of print data, \<open>write_char\<close> places
  a single character. Texts are lists of code points, the codec is the one for cp037.

  The positions the parser passes only serve diagnosis, except that a chunk with a position makes the
  buffer remember its last 32 bytes and put them before the next chunk.
\<close>

section \<open>State\<close>

record printer_buffer =
  pb_max_lines :: int
  pb_auto_reset :: bool
  pb_lines :: "unicode list"
  pb_current :: "unicode list"
  pb_row :: int
  pb_col :: int
  pb_pending :: bytes
  pb_pending_base :: "int option"
  pb_last_pos :: "int option"
  pb_status :: byte

definition PrinterBuffer_init :: "int \<Rightarrow> bool \<Rightarrow> printer_buffer" where
  "PrinterBuffer_init max_lines auto_reset =
     \<lparr>pb_max_lines = max_lines, pb_auto_reset = auto_reset, pb_lines = [], pb_current = [], pb_row = 0,
      pb_col = 0, pb_pending = [], pb_pending_base = None, pb_last_pos = None, pb_status = 0\<rparr>"

definition printer_reset :: "printer_buffer \<Rightarrow> printer_buffer" where
  "printer_reset b = b\<lparr>pb_lines := [], pb_current := [], pb_row := 0, pb_col := 0\<rparr>"

definition scs_codec :: ebcdic_codec where
  "scs_codec = \<lparr>ec_codepage = ''cp037'', ec_compat = False, ec_table = CP037\<rparr>"

section \<open>Lines\<close>

definition flush_current_line :: "printer_buffer \<Rightarrow> printer_buffer" where
  "flush_current_line b = b\<lparr>pb_lines := pb_lines b @ [concat (pb_current b)], pb_current := []\<rparr>"

definition new_line :: "printer_buffer \<Rightarrow> printer_buffer" where
  "new_line b = (let b1 = flush_current_line b in b1\<lparr>pb_row := pb_row b1 + 1, pb_col := 0\<rparr>)"

definition append_text :: "unicode \<Rightarrow> printer_buffer \<Rightarrow> printer_buffer" where
  "append_text t b = b\<lparr>pb_current := pb_current b @ [t], pb_col := pb_col b + int (length t)\<rparr>"

definition form_feed :: "printer_buffer \<Rightarrow> printer_buffer" where
  "form_feed b =
     (let b1 = flush_current_line b in b1\<lparr>pb_lines := pb_lines b1 @ [[12]], pb_row := pb_row b1 + 1, pb_col := 0\<rparr>)"

definition end_job :: "printer_buffer \<Rightarrow> printer_buffer" where
  "end_job b =
     (let b1 = flush_current_line b in b1\<lparr>pb_lines := pb_lines b1 @ [map of_char ''PRINT-EOJ'']\<rparr>)"

definition allowed :: "int \<Rightarrow> bool" where
  "allowed c \<longleftrightarrow> c \<in> {9, 10, 12} \<or> (0x20 \<le> c \<and> c \<le> 0x7E)"

definition relax :: "unicode \<Rightarrow> unicode" where
  "relax = map (\<lambda>c. if allowed c then c else 32)"

text \<open>The output, which with \<open>auto_reset\<close> is also taken away.\<close>

definition get_rendered_output :: "printer_buffer \<Rightarrow> unicode \<times> printer_buffer" where
  "get_rendered_output b =
     (join_with [10] (pb_lines b) @ concat (pb_current b), if pb_auto_reset b then printer_reset b else b)"

definition get_printer_content :: "printer_buffer \<Rightarrow> unicode \<times> printer_buffer" where
  "get_printer_content b = (let (raw, b1) = get_rendered_output b in (filter allowed raw, b1))"

definition get_buffer_content :: "printer_buffer \<Rightarrow> unicode list" where
  "get_buffer_content b = pb_lines b @ [concat (pb_current b)]"

section \<open>A single character\<close>

definition move_to_row :: "int \<Rightarrow> printer_buffer \<Rightarrow> printer_buffer" where
  "move_to_row row b =
     (if row = pb_row b then b
      else (let b1 = flush_current_line b in ((new_line ^^ nat (row - pb_row b1)) b1)\<lparr>pb_row := row\<rparr>))"

definition pad_to_col :: "int \<Rightarrow> printer_buffer \<Rightarrow> printer_buffer" where
  "pad_to_col col b =
     b\<lparr>pb_current := pb_current b @ replicate (nat (col - int (length (pb_current b)))) [32], pb_col := col\<rparr>"

definition printer_write_char :: "byte \<Rightarrow> int option \<Rightarrow> int option \<Rightarrow> printer_buffer \<Rightarrow> printer_buffer" where
  "printer_write_char b row col p =
     (let current_col = pb_col p;
          p1 = (case row of None \<Rightarrow> p | Some r \<Rightarrow> move_to_row r p);
          p2 = (case col of None \<Rightarrow> p1 | Some c \<Rightarrow> if c = current_col then p1 else pad_to_col c p1);
          ch = hd (codec_decode scs_codec [b])
      in if ch = 10 \<or> b = 0x0A then new_line p2
         else if ch = 13 \<or> b = 0x0D then p2\<lparr>pb_col := 0\<rparr>
         else if ch \<in> {9, 12} \<or> (0x20 \<le> ch \<and> ch \<le> 0x7E) then append_text [ch] p2
         else p2)"

section \<open>Screen-like content\<close>

text \<open>
  The patterns are sequences of words, blanks and digits; a greedy match needs no way back, because
  what follows blanks or digits is something else. Letters match in either case.
\<close>

datatype pattern_step = Word string | Spaces | Maybe_spaces | Digits | Hex_digits

definition space_char :: "int \<Rightarrow> bool" where
  "space_char c \<longleftrightarrow> c \<in> {9, 10, 11, 12, 13, 28, 29, 30, 31, 32, 0x85, 0xA0}"

definition digit_char :: "int \<Rightarrow> bool" where
  "digit_char c \<longleftrightarrow> 48 \<le> c \<and> c \<le> 57"

definition letter_char :: "int \<Rightarrow> bool" where
  "letter_char c \<longleftrightarrow> (65 \<le> c \<and> c \<le> 90) \<or> (97 \<le> c \<and> c \<le> 122)"

definition hex_char :: "int \<Rightarrow> bool" where
  "hex_char c \<longleftrightarrow> digit_char c \<or> (65 \<le> c \<and> c \<le> 70) \<or> (97 \<le> c \<and> c \<le> 102)"

definition fold_case :: "int \<Rightarrow> int" where
  "fold_case c = (if 65 \<le> c \<and> c \<le> 90 then c + 32 else c)"

fun after_word :: "string \<Rightarrow> unicode \<Rightarrow> unicode option" where
  "after_word [] u = Some u"
| "after_word (c # cs) [] = None"
| "after_word (c # cs) (x # xs) = (if fold_case (of_char c) = fold_case x then after_word cs xs else None)"

fun match_steps :: "pattern_step list \<Rightarrow> unicode \<Rightarrow> bool" where
  "match_steps [] u = True"
| "match_steps (Word w # ps) u = (case after_word w u of None \<Rightarrow> False | Some v \<Rightarrow> match_steps ps v)"
| "match_steps (Spaces # ps) u = (u \<noteq> [] \<and> space_char (hd u) \<and> match_steps ps (dropWhile space_char u))"
| "match_steps (Maybe_spaces # ps) u = match_steps ps (dropWhile space_char u)"
| "match_steps (Digits # ps) u = (u \<noteq> [] \<and> digit_char (hd u) \<and> match_steps ps (dropWhile digit_char u))"
| "match_steps (Hex_digits # ps) u = (u \<noteq> [] \<and> hex_char (hd u) \<and> match_steps ps (dropWhile hex_char u))"

fun search_steps :: "pattern_step list \<Rightarrow> unicode \<Rightarrow> bool" where
  "search_steps ps [] = match_steps ps []"
| "search_steps ps (x # xs) = (match_steps ps (x # xs) \<or> search_steps ps xs)"

definition trace_patterns :: "pattern_step list list" where
  "trace_patterns =
     [[Word ''TRACE''], [Word ''DEBUG''], [Word ''SCREEN'', Spaces, Word ''DUMP''],
      [Word ''BUFFER'', Spaces, Word ''DUMP''], [Word ''FIELD'', Spaces, Word ''COMMAND''],
      [Word ''ORDER'', Spaces, Word ''STREAM''], [Word ''POSITION'', Spaces, Digits],
      [Word ''ROW'', Maybe_spaces, Digits], [Word ''COL'', Maybe_spaces, Digits],
      [Word ''ATTRIBUTE'', Spaces, Word ''0x'', Hex_digits]]"

definition tn3270_orders :: bytes where
  "tn3270_orders = [0x01, 0x05, 0x11, 0x12, 0x13, 0x3C, 0x29]"

definition should_suppress_chunk :: "bytes \<Rightarrow> bool" where
  "should_suppress_chunk chunk \<longleftrightarrow>
     list_ex (\<lambda>b. b \<in> set tn3270_orders) chunk
     \<or> list_ex (\<lambda>ps. search_steps ps (codec_decode scs_codec chunk)) trace_patterns
     \<or> (let printable = length (filter (\<lambda>b. 0x40 \<le> b \<and> b \<le> 0xFE) chunk);
            control = length (filter (\<lambda>b. b < 0x40 \<or> b \<in> set tn3270_orders) chunk)
        in printable > 0 \<and> 2 * control > printable)"

section \<open>Markers\<close>

text \<open>Fragments are looked for in the hexadecimal digits, so that a match may begin within a byte.\<close>

definition hex_digits :: "bytes \<Rightarrow> int list" where
  "hex_digits bs = concat (map (\<lambda>b. [uint b div 16, uint b mod 16]) bs)"

definition marker_frags :: "bytes list" where
  "marker_frags = [[0xE4, 0xE2, 0xC5, 0xD9, 0x7A, 0x40], [0xE4, 0xE2], [0xC5, 0xD9], [0x7A, 0x40]]"

definition has_marker :: "bytes \<Rightarrow> bool" where
  "has_marker bs \<longleftrightarrow> list_ex (\<lambda>m. py_contains (hex_digits m) (hex_digits bs)) marker_frags"

definition contains_text :: "string \<Rightarrow> unicode \<Rightarrow> bool" where
  "contains_text w u \<longleftrightarrow> py_contains (map of_char w) u"

text \<open>A leading number followed by \<open>H\<close> and a letter loses number and \<open>H\<close>.\<close>

definition header_end :: "unicode \<Rightarrow> unicode option" where
  "header_end u =
     (case dropWhile digit_char u of
        h # x # r \<Rightarrow> if digit_char (hd u) \<and> h = 72 \<and> letter_char x then Some (x # r) else None
      | _ \<Rightarrow> None)"

definition strip_header :: "unicode \<Rightarrow> unicode" where
  "strip_header u = (case header_end u of Some r \<Rightarrow> r | None \<Rightarrow> u)"

definition strip_indented_header :: "unicode \<Rightarrow> unicode" where
  "strip_indented_header u = (case header_end (dropWhile space_char u) of Some r \<Rightarrow> r | None \<Rightarrow> u)"

definition marker_candidates :: "bytes list" where
  "marker_candidates =
     [[0xE4, 0xE2, 0xC5, 0xD9, 0x7A, 0x40, 0xD7, 0xD2, 0xC1, 0xF6, 0xF0, 0xF3, 0xF9],
      [0xE4, 0xE2, 0xC5, 0xD9, 0x7A, 0x40], [0xD7, 0xD2, 0xC1, 0xF6, 0xF0, 0xF3, 0xF9]]"

fun append_marker :: "bytes list \<Rightarrow> bytes \<Rightarrow> printer_buffer \<Rightarrow> printer_buffer" where
  "append_marker [] combined b = b"
| "append_marker (m # ms) combined b =
     (let t = relax (codec_decode scs_codec m);
          s = strip_right space_char (dropWhile space_char t)
      in if py_contains (hex_digits m) (hex_digits combined) \<and> py_contains m combined
            \<and> s \<noteq> [] \<and> \<not> py_contains s (concat (pb_current b))
         then append_text t b else append_marker ms combined b)"

section \<open>Print data\<close>

definition chunk_text :: "bytes \<Rightarrow> unicode" where
  "chunk_text chunk =
     (let decoded = codec_decode scs_codec chunk;
          mapped = map (\<lambda>b. CP037 ! unat b) chunk;
          relaxed = relax decoded;
          sanitized = relax mapped;
          safe = (if has_marker chunk
                  then (if contains_text ''USER'' sanitized \<or> contains_text ''PKA'' sanitized then sanitized
                        else if list_ex letter_char sanitized then sanitized else relaxed)
                  else filter allowed mapped)
      in if (contains_text ''USER'' decoded \<or> contains_text ''PKA'' decoded \<or> has_marker chunk)
            \<and> \<not> contains_text ''USER'' safe
         then relaxed else safe)"

definition print_chunk :: "bytes \<Rightarrow> printer_buffer \<Rightarrow> printer_buffer" where
  "print_chunk chunk b =
     (if should_suppress_chunk chunk then b
      else if chunk_text chunk \<noteq> [] then append_text (strip_header (chunk_text chunk)) b
      else if has_marker chunk \<and> relax (codec_decode scs_codec chunk) \<noteq> []
      then append_text (strip_header (relax (codec_decode scs_codec chunk))) b
      else b)"

definition scs_controls :: bytes where
  "scs_controls = [0x0A, 0x0D, 0x0C, 0x09, 0x01]"

function scs_loop :: "bytes \<Rightarrow> printer_buffer \<Rightarrow> printer_buffer" where
  "scs_loop [] b = b"
| "scs_loop (x # xs) b =
     (if x = 0x0A then scs_loop xs (new_line (flush_current_line b))
      else if x = 0x0D then scs_loop xs (b\<lparr>pb_col := 0\<rparr>)
      else if x = 0x0C then scs_loop xs (form_feed b)
      else if x = 0x09 then scs_loop xs (append_text [9] b)
      else if x = 0x01 then (case xs of [] \<Rightarrow> b | s # ys \<Rightarrow> scs_loop ys (b\<lparr>pb_status := s\<rparr>))
      else scs_loop (dropWhile (\<lambda>y. y \<notin> set scs_controls) xs)
             (print_chunk (x # takeWhile (\<lambda>y. y \<notin> set scs_controls) xs) b))"
  by pat_completeness auto

termination
  by (relation "measure (\<lambda>(xs, b). length xs)") (auto simp: less_Suc_eq_le length_dropWhile_le)

definition last_bytes :: "nat \<Rightarrow> bytes \<Rightarrow> bytes" where
  "last_bytes n bs = drop (length bs - n) bs"

definition remember_tail :: "int option \<Rightarrow> bytes \<Rightarrow> printer_buffer \<Rightarrow> printer_buffer" where
  "remember_tail base data b =
     (case base of
        None \<Rightarrow> b
      | Some p \<Rightarrow>
          (if data = [] then b
           else b\<lparr>pb_pending := last_bytes 32 data,
                  pb_pending_base := Some (p + int (length data - length (last_bytes 32 data)))\<rparr>))"

definition trim_lines :: "printer_buffer \<Rightarrow> printer_buffer" where
  "trim_lines b = b\<lparr>pb_lines := keep_last (pb_max_lines b) (pb_lines b)\<rparr>"

definition take_pending :: "int option \<Rightarrow> bytes \<Rightarrow> printer_buffer \<Rightarrow> bytes \<times> int option \<times> printer_buffer" where
  "take_pending pos data b =
     (let base = (case pos of None \<Rightarrow> pb_last_pos b | Some p \<Rightarrow> Some p)
      in if base \<noteq> None \<and> pb_pending b \<noteq> []
         then (pb_pending b @ data, pb_pending_base b, b\<lparr>pb_pending := [], pb_pending_base := None\<rparr>)
         else (data, base, b))"

definition write_scs_data :: "int option \<Rightarrow> bytes \<Rightarrow> printer_buffer \<Rightarrow> printer_buffer" where
  "write_scs_data pos new_data b0 =
     (let (data, base, b) = take_pending pos new_data b0
      in if has_marker data
         then append_text (strip_indented_header (relax (codec_decode scs_codec data))) b
         else if has_marker (pb_pending b @ data)
         then (append_text (strip_header (relax (codec_decode scs_codec (pb_pending b @ data)))) b)
                \<lparr>pb_pending := [], pb_pending_base := None\<rparr>
         else
           (let b1 = scs_loop data b;
                b2 = append_marker marker_candidates (pb_pending b1 @ data) b1
            in trim_lines (flush_current_line (remember_tail base data b2))))"

text \<open>A record of print data, as \<open>_handle_scs_data\<close> of the parser hands it over.\<close>

definition scs_record :: "bytes \<Rightarrow> printer_buffer \<Rightarrow> printer_buffer" where
  "scs_record data b = write_scs_data (Some 0) data (b\<lparr>pb_last_pos := Some 0\<rparr>)"

end
