(* ===== verification/CodePageProps.thy ===== *)
theory CodePageProps
  imports CodePages
begin

text \<open>
  Translating there and back: what the codec of a code page encodes and decodes, the blanks that
  unprintable bytes become, and the code pages whose codec can only be used for decoding.
\<close>

lemma those_map_Some: "(\<And>x. x \<in> set xs \<Longrightarrow> f x = Some (g x)) \<Longrightarrow> those (map f xs) = Some (map g xs)"
  by (induction xs) auto

lemma those_map_None: "x \<in> set xs \<Longrightarrow> f x = None \<Longrightarrow> those (map f xs) = None"
  by (induction xs) (auto split: option.split)

lemma unat_byte: "i < 256 \<Longrightarrow> unat (of_nat i :: byte) = i"
  by (simp add: unat_of_nat)

lemma unat_byte_lt: "unat (b :: byte) < 256"
  using unsigned_less [of b, where 'a = nat] by simp

section \<open>Tables\<close>

lemma length_all_bytes: "length all_bytes = 256" by (simp add: all_bytes_def)

lemma nth_all_bytes: "i < 256 \<Longrightarrow> all_bytes ! i = of_nat i"
  by (simp add: all_bytes_def)

lemma all_bytes_nth: "map f all_bytes ! unat b = f b"
  using unat_byte_lt [of b] by (simp add: length_all_bytes nth_all_bytes)

lemma those_SomeD: "those xs = Some ys \<Longrightarrow> xs = map Some ys"
  by (induction xs arbitrary: ys) (auto split: option.splits)

lemma get_table_length:
  assumes "get_table w cp = Inr t"
  shows "length t = 256"
  using assms
  by (auto simp: get_table_def py_decode_def length_all_bytes cp037_facts(1)
      split: option.splits sum.splits codec_error.splits if_splits
      dest!: those_SomeD arg_cong [of "map _ _" _ length])

lemma get_table_cp037: "get_table w ''cp037'' = Inr CP037"
proof -
  have "those (map (cd_decode cp037_codec) all_bytes) = Some (map (\<lambda>b. CP037 ! unat b) all_bytes)"
    by (rule those_map_Some) (simp add: cp037_codec_def)
  moreover have "map (\<lambda>b. CP037 ! unat b) all_bytes = CP037"
    by (rule nth_equalityI) (simp_all add: length_all_bytes cp037_facts(1) nth_all_bytes unat_byte)
  ultimately show ?thesis
    by (simp add: get_table_def py_decode_def python_codec_def custom_codepages_def)
qed

section \<open>Encoding and decoding\<close>

definition printable_in :: "unicode \<Rightarrow> int \<Rightarrow> bool" where
  "printable_in t c \<longleftrightarrow> c \<in> set t \<and> 32 \<le> c \<and> c \<noteq> 127"

lemma decode_reverse:
  assumes "length (ec_table c) = 256" and "printable_in (ec_table c) ch"
  obtains b where "reverse_table c ch = Some b" and "codec_clean (ec_table c ! unat b) = ch"
proof -
  from assms(2) obtain i where i: "index_of ch (ec_table c) = Some i"
    using index_of_Some by (force simp: printable_in_def)
  with index_ofD [OF this] assms have "unat (of_nat i :: byte) = i" by (simp add: unat_byte)
  with i index_ofD [OF i] assms(2) that show ?thesis
    by (simp add: reverse_table_def codec_clean_def printable_in_def)
qed

lemma encode_cp037:
  assumes "cw_encode w = None" and "set u \<subseteq> set CP037"
  shows "encode_ebcdic w ''cp037'' u = Inr (map (\<lambda>ch. of_nat (the (index_of ch CP037))) u)"
proof -
  have "those (map (cd_encode cp037_codec) u) = Some (map (\<lambda>ch. of_nat (the (index_of ch CP037))) u)"
    using assms(2) index_of_Some [of _ CP037]
    by (intro those_map_Some) (force simp: cp037_codec_def)
  with assms(1) show ?thesis
    by (simp add: encode_ebcdic_def py_encode_def python_codec_def Let_def)
qed

definition decoded_again :: "bytes \<Rightarrow> bytes" where
  "decoded_again = map (\<lambda>b. if codec_clean (CP037 ! unat b) = CP037 ! unat b then b else 0x40)"

lemma cp037_reverse: "index_of (CP037 ! unat (b :: byte)) CP037 = Some (unat b)"
  using unat_byte_lt [of b] by (simp add: index_of_nth cp037_facts)

lemma cp037_blank: "index_of 32 CP037 = Some 0x40"
  by code_simp

lemma encode_clean_cp037:
  "word_of_nat (the (index_of (codec_clean (CP037 ! unat b)) CP037))
     = (if codec_clean (CP037 ! unat b) = CP037 ! unat b then b else (0x40 :: byte))"
proof (cases "codec_clean (CP037 ! unat b) = CP037 ! unat b")
  case True
  then show ?thesis by (simp add: cp037_reverse)
next
  case False
  then have "codec_clean (CP037 ! unat b) = 32" by (auto simp: codec_clean_def split: if_splits)
  with False show ?thesis by (simp add: cp037_blank)
qed

lemma clean_in_cp037: "codec_clean (CP037 ! unat (b :: byte)) \<in> set CP037"
  using unat_byte_lt [of b] nth_mem [of "unat b" CP037]
  by (auto simp: codec_clean_def cp037_facts)

lemma codec_encode_cp037:
  assumes "cw_encode w = None" and "ec_codepage c = ''cp037''" and "ec_table c = CP037"
    and "set u \<subseteq> set CP037"
  shows "codec_encode w c u = Inr (map (\<lambda>ch. of_nat (the (index_of ch CP037))) u)"
proof -
  have "list_all (representable c) u"
    using assms(3,4) by (auto simp: list_all_iff representable_def reverse_table_def index_of_None)
  then show ?thesis
    using encode_cp037 [OF assms(1,4)] assms(2) by (simp add: codec_encode_def Let_def)
qed

lemma codec_roundtrip_table:
  assumes "EBCDICCodec_init w cp p = Inr c" and "\<forall>ch \<in> set u. printable_in (ec_table c) ch"
  shows "codec_decode c (encode_to_unicode_table c u) = u"
proof -
  from assms(1) have "get_table w cp = Inr (ec_table c)"
    by (cases "get_table w cp"; auto simp: EBCDICCodec_init_def)+
  note len = get_table_length [OF this]
  have "codec_clean (ec_table c ! unat (case reverse_table c ch of Some b \<Rightarrow> b | None \<Rightarrow> if ec_compat c then 0x7A else 0x40)) = ch"
    if "ch \<in> set u" for ch
    using decode_reverse [OF len, of ch] assms(2) that by (metis option.simps(5))
  then show ?thesis
    unfolding codec_decode_def encode_to_unicode_table_def map_map comp_def by (rule map_idI)
qed

text \<open>
  C17. Text that a code page can print, lower case and punctuation included, is read back: whatever code page the codec was made for, decoding
  what its table encodes gives the text. For cp037 this is also what the codec's own \<open>encode\<close>
  writes, and there bytes come back too, except that a byte for an unprintable character comes back as
  a blank.
\<close>

theorem codec_roundtrip:
  assumes "EBCDICCodec_init w cp p = Inr c" and "\<forall>ch \<in> set u. printable_in (ec_table c) ch"
  shows "codec_decode c (encode_to_unicode_table c u) = u
       \<and> (cp = ''cp037'' \<and> cw_encode w = None \<longrightarrow>
            codec_encode w c u = Inr (encode_to_unicode_table c u)
          \<and> codec_encode w c (codec_decode c bs) = Inr (decoded_again bs))"
proof -
  from assms(1) have c: "get_table w cp = Inr (ec_table c)" "ec_codepage c = cp"
    by (cases "get_table w cp"; auto simp: EBCDICCodec_init_def)+
  have "codec_decode c (encode_to_unicode_table c u) = u" using assms by (rule codec_roundtrip_table)
  moreover have "codec_encode w c u = Inr (encode_to_unicode_table c u)
      \<and> codec_encode w c (codec_decode c bs) = Inr (decoded_again bs)"
    if "cp = ''cp037''" "cw_encode w = None"
  proof -
    from that c get_table_cp037 have t: "ec_table c = CP037" by simp
    have u: "set u \<subseteq> set CP037" using assms(2) t by (auto simp: printable_in_def)
    have d: "set (codec_decode c bs) \<subseteq> set CP037"
      by (auto simp: codec_decode_def t clean_in_cp037)
    have "encode_to_unicode_table c u = map (\<lambda>ch. of_nat (the (index_of ch CP037))) u"
      using u index_of_Some [of _ CP037] by (force simp: encode_to_unicode_table_def reverse_table_def t)
    with codec_encode_cp037 [OF that(2) _ t u] codec_encode_cp037 [OF that(2) _ t d] that(1) c(2)
    show ?thesis
      by (simp add: codec_decode_def decoded_again_def encode_clean_cp037 t)
  qed
  ultimately show ?thesis by blast
qed

definition bare_world :: codec_world where
  "bare_world = \<lparr>cw_codec = (\<lambda>_. None), cw_decode = None, cw_encode = None\<rparr>"

theorem codec_roundtrip_witness:
  "\<exists>c. EBCDICCodec_init bare_world ''cp037'' False = Inr c
     \<and> codec_encode bare_world c [72, 105] = Inr [0xC8, 0x89]
     \<and> codec_decode c [0xC8, 0x89] = [72, 105]"
proof -
  obtain c where c: "EBCDICCodec_init bare_world ''cp037'' False = Inr c" "ec_table c = CP037"
    by (auto simp: EBCDICCodec_init_def get_table_cp037)
  have r: "index_of 72 CP037 = Some 0xC8" "index_of 105 CP037 = Some 0x89" "printable_in CP037 72" "printable_in CP037 105"
    by code_simp+
  have "encode_to_unicode_table c [72, 105] = [0xC8, 0x89]"
    by (simp add: encode_to_unicode_table_def reverse_table_def c(2) r)
  with codec_roundtrip [OF c(1), of "[72, 105]"] r c show ?thesis
    by (auto simp: bare_world_def)
qed

text \<open>
  A document lists as a known bug that the codec encodes "test" as four bytes 0x6F, and the class is documented
  to restrict its table to capital letters, digits and blanks. Neither is so.
\<close>

lemma lower_case_and_punctuation_encoded:
  assumes "cw_encode w = None" and "EBCDICCodec_init w ''cp037'' p = Inr c"
  shows "codec_encode w c [116, 101, 115, 116] = Inr [0xA3, 0x85, 0xA2, 0xA3]" and "codec_encode w c [46, 33] = Inr [0x4B, 0x5A]"
proof -
  have c: "ec_codepage c = ''cp037''" "ec_table c = CP037"
    using assms(2) by (auto simp: EBCDICCodec_init_def get_table_cp037)
  have u: "set [116, 101, 115, 116 :: int] \<subseteq> set CP037" "set [46, 33 :: int] \<subseteq> set CP037" by code_simp+
  have i: "index_of 116 CP037 = Some 0xA3" "index_of 101 CP037 = Some 0x85" "index_of 115 CP037 = Some 0xA2"
    "index_of 46 CP037 = Some 0x4B" "index_of 33 CP037 = Some 0x5A" by code_simp+
  show "codec_encode w c [116, 101, 115, 116] = Inr [0xA3, 0x85, 0xA2, 0xA3]"
    using codec_encode_cp037 [OF assms(1) c u(1)] by (simp add: i)
  show "codec_encode w c [46, 33] = Inr [0x4B, 0x5A]"
    using codec_encode_cp037 [OF assms(1) c u(2)] by (simp add: i)
qed

section \<open>Code pages that only decode\<close>

lemma custom_table:
  assumes "map_of custom_codepages cp = Some ms"
  shows "get_table w cp = Inr (map (\<lambda>b. case map_of ms b of Some u \<Rightarrow> u | None \<Rightarrow> CP037 ! unat b) all_bytes)"
  using assms by (simp add: get_table_def)

text \<open>
  The Asian code pages are tables of the program; Python has no codec for them. Their codec can be
  made and decodes, but encoding any text it can represent raises \<open>LookupError\<close>, and so does translating
  any byte outside the codec.
\<close>

lemma custom_pages_only_decode:
  assumes "cp \<in> set (map fst custom_codepages)" and "cw_codec w cp = None"
    and "cw_encode w = None" and "cw_decode w = None"
  shows "\<exists>c. EBCDICCodec_init w cp p = Inr c
           \<and> (\<forall>u. u \<noteq> [] \<and> set u \<subseteq> set (ec_table c) \<union> set CP037 \<longrightarrow> codec_encode w c u = Inl Lookup_error)
           \<and> (\<forall>data. data \<noteq> [] \<longrightarrow> translate_ebcdic_to_ascii w cp data = Inl Lookup_error
                 \<and> (\<exists>t. decode_ebcdic w cp data = Inr t \<and> length t = length data))"
proof -
  from assms(1) obtain ms where ms: "map_of custom_codepages cp = Some ms"
    by (metis list.set_map map_of_eq_None_iff not_Some_eq)
  define c where "c = \<lparr>ec_codepage = cp, ec_compat = p, ec_table = (case get_table w cp of Inr t \<Rightarrow> t | Inl _ \<Rightarrow> [])\<rparr>"
  have init: "EBCDICCodec_init w cp p = Inr c"
    using custom_table [OF ms, of w] by (simp add: EBCDICCodec_init_def c_def)
  have cp: "cp \<noteq> ''cp037''" using assms(1) by (auto simp: custom_codepages_def)
  have "codec_encode w c u = Inl Lookup_error" if "u \<noteq> []" "set u \<subseteq> set (ec_table c) \<union> set CP037" for u
  proof -
    have "list_all (representable c) u"
      using that(2) index_of_None [of _ CP037] index_of_None [of _ "ec_table c"]
      by (force simp: list_all_iff representable_def reverse_table_def cp037_codec_def)
    with that(1) assms(2,3) cp show ?thesis
      by (simp add: codec_encode_def encode_ebcdic_def py_encode_def python_codec_def c_def Let_def)
  qed
  moreover have "translate_ebcdic_to_ascii w cp data = Inl Lookup_error" if "data \<noteq> []" for data
    using that assms(2,4) cp
    by (simp add: translate_ebcdic_to_ascii_def decode_package_def py_decode_def python_codec_def)
  moreover have "\<exists>t. decode_ebcdic w cp data = Inr t \<and> length t = length data" if "data \<noteq> []" for data
    using that assms(4) ms custom_table [OF ms, of w]
    by (simp add: decode_ebcdic_def decode_package_def clean_non_printable_def)
  ultimately show ?thesis using init by blast
qed

end
