(* ===== verification/PrinterBufferProps.thy ===== *)
theory PrinterBufferProps
  imports PrinterBuffer CodePageProps
begin

text \<open>
  What stands on the pages of the printer: only printable characters, whatever is sent; the lines of a
  record, each followed by an empty one; the end of each record once more before the next; nothing of
  a line that looks like a trace.
\<close>

section \<open>Only printable characters\<close>

definition all_allowed :: "unicode \<Rightarrow> bool" where
  "all_allowed u \<longleftrightarrow> (\<forall>c \<in> set u. allowed c)"

definition printable_buffer :: "printer_buffer \<Rightarrow> bool" where
  "printable_buffer b \<longleftrightarrow> (\<forall>u \<in> set (pb_lines b) \<union> set (pb_current b). all_allowed u)"

named_theorems prints \<open>operations that keep a buffer of printable characters\<close>

lemma all_allowed_simps [simp]:
  "all_allowed []" "all_allowed (c # u) \<longleftrightarrow> allowed c \<and> all_allowed u"
  "all_allowed (u @ v) \<longleftrightarrow> all_allowed u \<and> all_allowed v" "all_allowed (filter allowed u)" "all_allowed (relax u)"
  by (auto simp: all_allowed_def relax_def allowed_def)

lemma allowed_codes [simp]: "allowed 9" "allowed 10" "allowed 12" "allowed 32"
  by (simp_all add: allowed_def)

lemma header_end_suffix: "header_end u = Some r \<Longrightarrow> \<exists>p. u = p @ r"
  by (auto simp: header_end_def split: list.splits if_splits)
    (metis append.assoc append_Cons append_Nil takeWhile_dropWhile_id)

lemma all_allowed_strip [simp]:
  assumes "all_allowed u" shows "all_allowed (strip_header u)" "all_allowed (strip_indented_header u)"
proof -
  have "u = takeWhile space_char u @ dropWhile space_char u" by simp
  with assms have "all_allowed (dropWhile space_char u)" by (metis all_allowed_simps(3))
  with assms show "all_allowed (strip_header u)" "all_allowed (strip_indented_header u)"
    by (auto simp: strip_header_def strip_indented_header_def split: option.split dest!: header_end_suffix)
qed

lemma prints_flush [prints]: "printable_buffer b \<Longrightarrow> printable_buffer (flush_current_line b)"
  by (auto simp: printable_buffer_def flush_current_line_def all_allowed_def)

lemma prints_frame [prints]:
  assumes "printable_buffer b"
  shows "printable_buffer (b\<lparr>pb_row := r\<rparr>)" "printable_buffer (b\<lparr>pb_col := c\<rparr>)"
    "printable_buffer (b\<lparr>pb_pending := p\<rparr>)" "printable_buffer (b\<lparr>pb_pending_base := q\<rparr>)"
    "printable_buffer (b\<lparr>pb_status := s\<rparr>)" "printable_buffer (b\<lparr>pb_last_pos := q\<rparr>)"
  using assms by (simp_all add: printable_buffer_def)

lemma prints_lines [prints]:
  "printable_buffer b \<Longrightarrow> \<forall>u \<in> set us. all_allowed u \<Longrightarrow> printable_buffer (b\<lparr>pb_lines := pb_lines b @ us\<rparr>)"
  by (auto simp: printable_buffer_def)

lemma prints_new_line [prints]: "printable_buffer b \<Longrightarrow> printable_buffer (new_line b)"
  by (auto simp: new_line_def Let_def intro!: prints)

lemma prints_form_feed [prints]: "printable_buffer b \<Longrightarrow> printable_buffer (form_feed b)"
  by (auto simp: form_feed_def Let_def intro!: prints)

lemma prints_end_job [prints]: "printable_buffer b \<Longrightarrow> printable_buffer (end_job b)"
  by (auto simp: end_job_def Let_def allowed_def intro!: prints)

lemma prints_append [prints]: "printable_buffer b \<Longrightarrow> all_allowed t \<Longrightarrow> printable_buffer (append_text t b)"
  by (auto simp: printable_buffer_def append_text_def)

lemma prints_reset [prints]: "printable_buffer (printer_reset b)"
  by (simp add: printable_buffer_def printer_reset_def)

lemma prints_new_lines: "printable_buffer b \<Longrightarrow> printable_buffer ((new_line ^^ n) b)"
  by (induction n) (auto intro: prints)

lemma prints_write_char [prints]:
  assumes "printable_buffer b" shows "printable_buffer (printer_write_char x row col b)"
proof -
  have r: "printable_buffer (move_to_row r b)" for r
    using assms by (auto simp: move_to_row_def Let_def intro!: prints prints_new_lines)
  have c: "printable_buffer (pad_to_col c q)" if "printable_buffer q" for c q
    using that by (auto simp: pad_to_col_def printable_buffer_def)
  show ?thesis
    using assms r c
    by (auto simp: printer_write_char_def Let_def allowed_def intro!: prints split: option.split)
qed

lemma chunk_text_allowed: "all_allowed (chunk_text chunk)"
  by (auto simp: chunk_text_def Let_def)

lemma prints_chunk [prints]: "printable_buffer b \<Longrightarrow> printable_buffer (print_chunk chunk b)"
  by (auto simp: print_chunk_def chunk_text_allowed intro!: prints)

lemma prints_loop [prints]: "printable_buffer b \<Longrightarrow> printable_buffer (scs_loop data b)"
proof (induction data b rule: scs_loop.induct)
  case (2 x xs b)
  consider "x = 0x0A" | "x = 0x0D" | "x = 0x0C" | "x = 0x09" | "x = 0x01" | "x \<notin> {0x0A, 0x0D, 0x0C, 0x09, 0x01}"
    by blast
  then show ?case
  proof cases
    case 5
    with 2 show ?thesis by (cases xs) (auto intro: prints)
  next
    case 6
    with 2(6) 2(7) show ?thesis by (simp add: prints_chunk)
  qed (use 2 in \<open>simp_all add: prints\<close>)
qed simp

lemma prints_marker [prints]: "printable_buffer b \<Longrightarrow> printable_buffer (append_marker ms data b)"
  by (induction ms) (auto simp: Let_def intro: prints)

lemma prints_remember [prints]: "printable_buffer b \<Longrightarrow> printable_buffer (remember_tail base data b)"
  by (auto simp: remember_tail_def intro: prints split: option.split)

lemma prints_trim [prints]: "printable_buffer b \<Longrightarrow> printable_buffer (trim_lines b)"
  by (auto simp: trim_lines_def keep_last_def printable_buffer_def py_slice_def Let_def dest!: in_set_takeD in_set_dropD split: if_splits)

lemma prints_scs [prints]:
  assumes "printable_buffer b" shows "printable_buffer (write_scs_data pos data b)"
proof -
  have "printable_buffer (snd (snd (take_pending pos data b)))"
    using assms by (auto simp: take_pending_def Let_def intro!: prints)
  then show ?thesis
    by (auto simp: write_scs_data_def Let_def case_prod_unfold intro!: prints)
qed

text \<open>Everything that can be done with a buffer.\<close>

inductive printer_step :: "printer_buffer \<Rightarrow> printer_buffer \<Rightarrow> bool" where
  step_scs: "printer_step b (write_scs_data pos data b)"
| step_record: "printer_step b (scs_record data b)"
| step_char: "printer_step b (printer_write_char x row col b)"
| step_end_job: "printer_step b (end_job b)"
| step_reset: "printer_step b (printer_reset b)"
| step_output: "printer_step b (snd (get_rendered_output b))"
| step_content: "printer_step b (snd (get_printer_content b))"

lemma prints_step: "printer_step b b' \<Longrightarrow> printable_buffer b \<Longrightarrow> printable_buffer b'"
  by (induction rule: printer_step.induct)
    (auto simp: scs_record_def get_rendered_output_def get_printer_content_def intro: prints)

lemma prints_reachable: "printer_step\<^sup>*\<^sup>* b b' \<Longrightarrow> printable_buffer b \<Longrightarrow> printable_buffer b'"
  by (induction rule: rtranclp_induct) (auto intro: prints_step)

lemma join_allowed: "\<forall>u \<in> set us. all_allowed u \<Longrightarrow> all_allowed (join_with [10] us)"
  by (induction "[10::int]" us rule: join_with.induct) auto

text \<open>
  C26. Every character of every line, finished or not, is printable, a blank, a tab, a line feed or a form feed, whatever
  bytes are sent in whatever order of operations: the output that is filtered before it is shown is the
  unfiltered one.
\<close>

theorem printed_is_printable:
  assumes "printer_step\<^sup>*\<^sup>* (PrinterBuffer_init max_lines auto_reset) b"
  shows "(\<forall>u \<in> set (get_buffer_content b). \<forall>c \<in> set u. allowed c)
       \<and> get_printer_content b = get_rendered_output b"
proof -
  have p: "printable_buffer b"
    using prints_reachable [OF assms] by (simp add: printable_buffer_def PrinterBuffer_init_def)
  then have "all_allowed (concat (pb_current b))" by (auto simp: printable_buffer_def all_allowed_def)
  moreover from p have "all_allowed (join_with [10] (pb_lines b))"
    by (intro join_allowed) (simp add: printable_buffer_def)
  ultimately have "all_allowed (fst (get_rendered_output b))" by (simp add: get_rendered_output_def)
  then have "get_printer_content b = get_rendered_output b"
    by (auto simp: get_printer_content_def case_prod_unfold all_allowed_def prod_eq_iff intro: filter_True)
  with p show ?thesis
    by (auto simp: get_buffer_content_def printable_buffer_def all_allowed_def)
qed

theorem printed_is_printable_witness:
  "get_printer_content (write_scs_data None [0xC1, 0x00, 0x0A, 0xC2] (PrinterBuffer_init 10 False))
   = get_rendered_output (write_scs_data None [0xC1, 0x00, 0x0A, 0xC2] (PrinterBuffer_init 10 False))"
  using printed_is_printable [OF r_into_rtranclp, of 10 False "write_scs_data None [0xC1, 0x00, 0x0A, 0xC2] (PrinterBuffer_init 10 False)"]
  by (simp add: step_scs)

section \<open>Lines of a record\<close>

abbreviation text_of :: "bytes \<Rightarrow> unicode" where
  "text_of \<equiv> map (\<lambda>b. CP037 ! unat b)"

text \<open>A line of text that none of the special cases is made for.\<close>

definition plain_line :: "bytes \<Rightarrow> bool" where
  "plain_line w \<longleftrightarrow> w \<noteq> [] \<and> (\<forall>b \<in> set w. b \<notin> set scs_controls \<and> allowed (CP037 ! unat b))
     \<and> \<not> should_suppress_chunk w \<and> header_end (text_of w) = None"

definition unmarked :: "bytes \<Rightarrow> bool" where
  "unmarked data \<longleftrightarrow> \<not> has_marker data \<and> \<not> contains_text ''PKA'' (codec_decode scs_codec data)"

lemma py_contains_trans: "py_contains a b \<Longrightarrow> py_contains b c \<Longrightarrow> py_contains a c"
proof -
  assume "py_contains a b" and "py_contains b c"
  then obtain p q r t where "b = p @ a @ q" and "c = r @ b @ t" by (auto simp: py_contains_iff)
  then have "c = (r @ p) @ a @ (q @ t)" by simp
  then show ?thesis unfolding py_contains_iff by blast
qed

lemma py_contains_map: "py_contains a b \<Longrightarrow> py_contains (map f a) (map f b)"
proof -
  assume "py_contains a b"
  then obtain p q where "b = p @ a @ q" by (auto simp: py_contains_iff)
  then have "map f b = map f p @ map f a @ map f q" by simp
  then show ?thesis unfolding py_contains_iff by blast
qed

lemma hex_contains: "py_contains a b \<Longrightarrow> py_contains (hex_digits a) (hex_digits b)"
proof -
  assume "py_contains a b"
  then obtain p q where "b = p @ a @ q" by (auto simp: py_contains_iff)
  then have "hex_digits b = hex_digits p @ hex_digits a @ hex_digits q" by (simp add: hex_digits_def)
  then show ?thesis unfolding py_contains_iff by blast
qed

lemma has_marker_part: "py_contains a b \<Longrightarrow> has_marker a \<Longrightarrow> has_marker b"
  unfolding has_marker_def list_ex_iff by (meson hex_contains py_contains_trans)

lemma decode_scs: "codec_decode scs_codec = map (\<lambda>b. codec_clean (CP037 ! unat b))"
  by (simp add: codec_decode_def scs_codec_def fun_eq_iff)

lemma unmarked_part: "py_contains a b \<Longrightarrow> unmarked b \<Longrightarrow> unmarked a"
  unfolding unmarked_def contains_text_def decode_scs
  by (meson has_marker_part py_contains_map py_contains_trans)

lemma user_is_marked: "contains_text ''USER'' (codec_decode scs_codec w) \<Longrightarrow> has_marker w"
proof -
  assume a: "contains_text ''USER'' (codec_decode scs_codec w)"
  have inj: "codec_clean (CP037 ! unat b) = c \<Longrightarrow> c \<in> {85, 83, 69, 82} \<Longrightarrow>
     b = word_of_nat (the (index_of c CP037))" for b :: byte and c
    using encode_clean_cp037 [of b] by (auto simp: codec_clean_def split: if_splits)
  have p: "index_of 85 CP037 = Some 0xE4" "index_of 83 CP037 = Some 0xE2"
    by code_simp+
  from a obtain pre post where "map (\<lambda>b. codec_clean (CP037 ! unat b)) w = pre @ [85, 83, 69, 82] @ post"
    by (auto simp: contains_text_def py_contains_iff decode_scs)
  then obtain w1 x y w2 where "w = w1 @ [x, y] @ w2" "codec_clean (CP037 ! unat x) = 85" "codec_clean (CP037 ! unat y) = 83"
    by (auto simp: map_eq_append_conv map_eq_Cons_conv)
  with inj [of x 85] inj [of y 83] p have "w = w1 @ [0xE4, 0xE2] @ w2" by simp
  then have "py_contains [0xE4, 0xE2] w" unfolding py_contains_iff by blast
  then show ?thesis
    using hex_contains by (auto simp: has_marker_def marker_frags_def)
qed

lemma plain_chunk_text:
  assumes "plain_line w" and "unmarked w"
  shows "chunk_text w = text_of w"
  using assms user_is_marked [of w]
  by (auto simp: chunk_text_def Let_def plain_line_def unmarked_def intro!: filter_True)

lemma print_plain:
  assumes "plain_line w" and "unmarked w"
  shows "print_chunk w b = append_text (text_of w) b"
  using assms plain_chunk_text [OF assms] by (simp add: print_chunk_def plain_line_def strip_header_def)

lemma unmarked_no_append: "unmarked data \<Longrightarrow> append_marker marker_candidates data b = b"
proof -
  assume u: "unmarked data"
  have m: "has_marker [0xE4, 0xE2, 0xC5, 0xD9, 0x7A, 0x40, 0xD7, 0xD2, 0xC1, 0xF6, 0xF0, 0xF3, 0xF9]"
    "has_marker [0xE4, 0xE2, 0xC5, 0xD9, 0x7A, 0x40]"
    "contains_text ''PKA'' (codec_decode scs_codec [0xD7, 0xD2, 0xC1, 0xF6, 0xF0, 0xF3, 0xF9])"
    by code_simp+
  have "\<not> py_contains w data" if "w \<in> set marker_candidates" for w
    using u unmarked_part [of w data] m that by (auto simp: unmarked_def marker_candidates_def)
  then show ?thesis by (auto simp: marker_candidates_def)
qed

lemma loop_chunk:
  assumes "w \<noteq> []" and "\<forall>b \<in> set w. b \<notin> set scs_controls" and "ys = [] \<or> hd ys \<in> set scs_controls"
  shows "scs_loop (w @ ys) b = scs_loop ys (print_chunk w b)"
proof -
  obtain x v where w: "w = x # v" using assms(1) by (cases w) auto
  have "takeWhile (\<lambda>y. y \<notin> set scs_controls) (v @ ys) = v" "dropWhile (\<lambda>y. y \<notin> set scs_controls) (v @ ys) = ys"
    using assms(2,3) w by (cases ys; simp add: takeWhile_append dropWhile_append)+
  moreover from assms(2) w have "x \<notin> {0x0A, 0x0D, 0x0C, 0x09, 0x01}" by (auto simp: scs_controls_def)
  ultimately show ?thesis by (simp add: w)
qed

text \<open>The bytes of lines separated by line feeds.\<close>

definition scs_lines :: "bytes list \<Rightarrow> bytes" where
  "scs_lines = join_with [0x0A]"

definition double_spaced :: "unicode list \<Rightarrow> unicode list" where
  "double_spaced us = concat (map (\<lambda>u. [u, []]) (butlast us)) @ (if us = [] then [] else [last us])"

lemma loop_lines:
  assumes "ws \<noteq> []" and "\<forall>w \<in> set ws. plain_line w" and "unmarked (scs_lines ws)" and "pb_current b = []"
  shows "pb_lines (flush_current_line (scs_loop (scs_lines ws) b)) = pb_lines b @ double_spaced (map text_of ws)
       \<and> pb_max_lines (scs_loop (scs_lines ws) b) = pb_max_lines b"
  using assms unfolding scs_lines_def
proof (induction "[0x0A :: byte]" ws arbitrary: b rule: join_with.induct)
  case (2 w)
  then have "scs_loop (w @ []) b = scs_loop [] (print_chunk w b)"
    by (intro loop_chunk) (simp_all add: plain_line_def)
  with 2 print_plain [of w b] show ?case
    by (simp add: flush_current_line_def append_text_def double_spaced_def)
next
  case (3 w w' ws)
  let ?r = "join_with [0x0A] (w' # ws)"
  have u: "unmarked w" "unmarked ?r"
    using 3(4) by (auto intro!: unmarked_part [OF _ 3(4)] simp: py_contains_iff) (metis append.assoc append_Cons append_Nil append_Nil2)+
  have "scs_loop (w @ 0x0A # ?r) b = scs_loop (0x0A # ?r) (print_chunk w b)"
    using 3(3) by (intro loop_chunk) (simp_all add: plain_line_def scs_controls_def)
  with 3 u print_plain [of w b] show ?case
    by (simp add: flush_current_line_def append_text_def new_line_def double_spaced_def)
qed simp

section \<open>Records\<close>

lemma trim_newest: "0 < pb_max_lines b \<Longrightarrow> pb_lines (trim_lines b) = newest (nat (pb_max_lines b)) (pb_lines b)"
  by (simp add: trim_lines_def keep_last_newest)

lemma remember_frame [simp]:
  "pb_lines (remember_tail base data b) = pb_lines b" "pb_current (remember_tail base data b) = pb_current b"
  "pb_max_lines (remember_tail base data b) = pb_max_lines b"
  by (simp_all add: remember_tail_def split: option.split)

lemma scs_loop_frame [simp]: "pb_pending (scs_loop data b) = pb_pending b"
proof -
  have c: "pb_pending (print_chunk w b) = pb_pending b" for w b
    by (simp add: print_chunk_def append_text_def)
  show ?thesis
    by (induction data b rule: scs_loop.induct)
      (simp_all add: c new_line_def form_feed_def flush_current_line_def append_text_def Let_def split: list.split)
qed

lemma trim_frame [simp]:
  "pb_current (trim_lines b) = pb_current b" "pb_max_lines (trim_lines b) = pb_max_lines b"
  "pb_pending (trim_lines b) = pb_pending b" "pb_pending_base (trim_lines b) = pb_pending_base b"
  by (simp_all add: trim_lines_def)

lemma flush_frame [simp]:
  "pb_current (flush_current_line b) = []" "pb_max_lines (flush_current_line b) = pb_max_lines b"
  "pb_pending (flush_current_line b) = pb_pending b" "pb_pending_base (flush_current_line b) = pb_pending_base b"
  by (simp_all add: flush_current_line_def)

lemma scs_lines_nonempty: "ws \<noteq> [] \<Longrightarrow> \<forall>w \<in> set ws. plain_line w \<Longrightarrow> scs_lines ws \<noteq> []"
  by (cases ws rule: remdups_adj.cases) (auto simp: scs_lines_def plain_line_def)

lemma write_lines:
  assumes "take_pending (Some p) data b = (scs_lines ws, Some q, b1)" and "pb_pending b1 = []"
    and "pb_lines b1 = pb_lines b" and "pb_current b1 = []" and "pb_max_lines b1 = pb_max_lines b"
    and "ws \<noteq> []" and "\<forall>w \<in> set ws. plain_line w" and "unmarked (scs_lines ws)" and "0 < pb_max_lines b"
  defines "r \<equiv> write_scs_data (Some p) data b"
  shows "pb_lines r = newest (nat (pb_max_lines b)) (pb_lines b @ double_spaced (map text_of ws))
       \<and> pb_current r = [] \<and> pb_max_lines r = pb_max_lines b \<and> pb_pending r = last_bytes 32 (scs_lines ws)
       \<and> pb_pending_base r \<noteq> None"
proof -
  have m: "\<not> has_marker (scs_lines ws)" using assms(8) by (simp add: unmarked_def)
  have "r = trim_lines (flush_current_line (remember_tail (Some q) (scs_lines ws) (scs_loop (scs_lines ws) b1)))"
    using m unmarked_no_append [OF assms(8)] by (simp add: r_def write_scs_data_def assms(1,2) Let_def)
  moreover note loop_lines [OF assms(6,7,8,4)] scs_lines_nonempty [OF assms(6,7)]
  ultimately show ?thesis
    using assms(3,5,9) by (auto simp: trim_newest flush_current_line_def remember_tail_def)
qed



section \<open>Lines that look like a trace\<close>

text \<open>
  A line with a word such as \<open>TRACE\<close>, or \<open>ROW\<close> before a number, leaves an empty line.
\<close>

lemma suppressed_line_lost:
  assumes "w \<noteq> []" and "\<forall>b \<in> set w. b \<notin> set scs_controls" and "should_suppress_chunk w" and "unmarked w"
    and "pb_pending b = []" and "0 < pb_max_lines b"
  shows "pb_lines (write_scs_data (Some p) w b) = newest (nat (pb_max_lines b)) (pb_lines b @ [concat (pb_current b)])"
proof -
  have "scs_loop (w @ []) b = scs_loop [] (print_chunk w b)" using assms(1,2) by (intro loop_chunk) auto
  then have "scs_loop w b = b" using assms(3) by (simp add: print_chunk_def)
  with assms(4-6) unmarked_no_append [OF assms(4)] show ?thesis
    by (simp add: write_scs_data_def take_pending_def unmarked_def Let_def trim_newest flush_current_line_def)
qed

lemma rows_are_suppressed: "should_suppress_chunk [0xD9, 0xD6, 0xE6, 0x40, 0xF1]"
  "should_suppress_chunk [0xC4, 0x85, 0x82, 0xA4, 0x87]"
  by code_simp+

end
