(* ===== verification/PrintFlow.thy ===== *)
theory PrintFlow
  imports ReceiveProps PrinterBufferProps
begin

text \<open>
  Print data from the connection to the paper: the receiver takes header and framing off a record of print
  data, the parser tells the printer buffer of it, and the buffer prints it.
\<close>

text \<open>The records of print data among the events of the parser, printed in their order.\<close>

definition print_events :: "event list \<Rightarrow> printer_buffer \<Rightarrow> printer_buffer" where
  "print_events evs b =
     fold (\<lambda>ev b. case ev of
             Ev_scs_data d \<Rightarrow> scs_record d b
           | Ev_end_job \<Rightarrow> end_job b
           | Ev_printer_status st \<Rightarrow> b\<lparr>pb_status := st\<rparr>
           | _ \<Rightarrow> b) evs b"

lemma print_events_append: "print_events (es @ fs) b = print_events fs (print_events es b)"
  by (simp add: print_events_def)

lemma run_parser_scs:
  assumes "has_printer (rx_parser r)"
  shows "events (rx_parser (run_parser data 1 r)) = events (rx_parser r) @ [Ev_scs_data data]"
  using assms by (simp add: run_parser_def parse_def Let_def emit_def)

text \<open>
  C15. A plain line of print data that arrives with its header, when the printer has nothing unfinished, is handed to the
  printer and printed without its first character when that is the digit 5: its code 0xF5 is taken for a control character of the
  3270 data stream.
\<close>

theorem print_line_arrives:
  assumes "ready r" and "\<not> ng_ascii (rx_neg r)" and "has_printer (rx_parser r)"
    and "hdr = [0x01, q, f, s1, s0]" and "f \<in> {0, 1, 2}" and "line \<noteq> []" and "last line \<noteq> 0x19"
    and "\<not> detect_vt100_sequences (hdr @ line)" and "map_of (ng_pending (rx_neg r)) (be16 s1 s0) = None"
    and "plain_line (strip_f5 line)" and "unmarked (strip_f5 line)"
    and "pb_current b = []" and "pb_pending b = []" and "length (pb_lines b) < nat (pb_max_lines b)"
    and "receive_data enc now (Chunk (framed [hdr @ line]) # as) r = (res, r', as')"
  shows "res = Inr (strip_f5 line)
       \<and> events (rx_parser r') = events (rx_parser r) @ [Ev_scs_data (strip_f5 line)]
       \<and> pb_lines (print_events [Ev_scs_data (strip_f5 line)] b) = pb_lines b @ [text_of (strip_f5 line)]"
proof -
  let ?rec = "hdr @ line"
  define h where "h = \<lparr>h_data_type = 1, h_request_flag = uint q, h_response_flag = uint f, h_seq_number = be16 s1 s0\<rparr>"
  have "be16 s1 s0 \<le> 0xFFFF" using be16_range [of s1 s0] by simp
  then have some: "from_bytes (take 5 ?rec) = Some h"
    using assms(4,5) by (auto simp: from_bytes_def h_def)
  define r1 where "r1 = note_sequence_number now h r"
  have keep: "rx_parser r1 = rx_parser r" "rx_neg r1 = rx_neg r"
    by (simp_all add: r1_def note_sequence_number_def Let_def)
  have resp: "note_response h r1 = (None, r1)"
    using assms(9) keep by (simp add: note_response_def handle_tn3270e_response_def h_def set_rx_neg_def)
  have len: "get_fixture_header_len ?rec 5 = 5"
    using assms(4) by (simp add: get_fixture_header_len_def)
  have "rstrip_19 ?rec = ?rec" using assms(6,7) by (intro rstrip_19_last) auto
  then have "handle_tn3270_mode now ?rec r = (Inr (Some (strip_f5 line)), run_parser (strip_f5 line) 1 r1)"
    unfolding handle_tn3270_mode_def some option.case r1_def [symmetric] resp prod.case len
    using assms(3,4) keep by (simp add: h_def TN3270E_DATA_TYPES_def deliver_to_printer_def)
  then have "receive_data enc now (Chunk (framed [?rec]) # as) r = (Inr (strip_f5 line), run_parser (strip_f5 line) 1 r1, as)"
    using receive_framed [OF assms(1), of "[?rec]"] assms(2,4,8)
    by (simp add: handle_data_def in_ascii_mode_def note_detection_def)
  moreover have "pb_lines (scs_record (strip_f5 line) b) = pb_lines b @ [text_of (strip_f5 line)]"
  proof -
    have "take_pending (Some 0) (strip_f5 line) (b\<lparr>pb_last_pos := Some 0\<rparr>)
        = (scs_lines [strip_f5 line], Some 0, b\<lparr>pb_last_pos := Some 0\<rparr>)"
      using assms(13) by (simp add: take_pending_def scs_lines_def)
    from write_lines [OF this] assms(10-14) show ?thesis
      by (simp add: scs_record_def scs_lines_def double_spaced_def newest_all)
  qed
  ultimately show ?thesis
    using assms(15) run_parser_scs [of r1 "strip_f5 line"] assms(3) keep by (auto simp: print_events_def)
qed

definition print_receiver :: receiver where
  "print_receiver = demo_receiver\<lparr>rx_parser := demo_parser\<lparr>has_printer := True\<rparr>\<rparr>"

theorem print_line_arrives_witness:
  "fst (receive_data (\<lambda>_. None) 0 [Chunk (framed [[0x01, 0, 0, 0, 1] @ [0xF5, 0xF0, 0xF0]])] print_receiver)
     = Inr [0xF0, 0xF0]
   \<and> pb_lines (print_events [Ev_scs_data [0xF0, 0xF0]] (PrinterBuffer_init 10 False)) = [[48, 48]]"
proof -
  obtain res r' as' where e:
    "receive_data (\<lambda>_. None) 0 (Chunk (framed [[0x01, 0, 0, 0, 1] @ [0xF5, 0xF0, 0xF0]]) # []) print_receiver = (res, r', as')"
    by (metis prod.exhaust)
  have f: "\<not> detect_vt100_sequences ([0x01, 0, 0, 0, 1] @ [0xF5, 0xF0, 0xF0])" "plain_line [0xF0, 0xF0]"
    "unmarked [0xF0, 0xF0]" "ng_pending demo_neg = []" "map (\<lambda>b :: byte. CP037 ! unat b) [0xF0, 0xF0] = [48, 48]"
    by code_simp+
  have p: "ready print_receiver" "\<not> ng_ascii (rx_neg print_receiver)" "has_printer (rx_parser print_receiver)"
    "rx_neg print_receiver = demo_neg"
    using demo_receiver_facts by (simp_all add: print_receiver_def ready_def)
  have b: "pb_current (PrinterBuffer_init 10 False) = []" "pb_pending (PrinterBuffer_init 10 False) = []"
    "length (pb_lines (PrinterBuffer_init 10 False)) < nat (pb_max_lines (PrinterBuffer_init 10 False))"
    "pb_lines (PrinterBuffer_init 10 False) = []"
    by (simp_all add: PrinterBuffer_init_def)
  have s: "strip_f5 [0xF5, 0xF0, 0xF0] = [0xF0, 0xF0]" by (simp add: strip_f5_def)
  from print_line_arrives [OF p(1-3) refl _ _ _ f(1) _ _ _ b(1-3) e, unfolded s f(5) b(4)] f p
  show ?thesis using e by simp
qed

end
