(* ===== verification/PrinterSession.thy ===== *)
theory PrinterSession
  imports Header3270E PyText Newest
begin

text \<open>
  \<open>protocol/printer.py\<close>: print jobs and the session that collects them. The clock is the argument \<open>now\<close>;
  locks are left out, each operation is one step. What a session raises is \<open>Inactive\<close>, its
  \<open>ProtocolError\<close>; \<open>ParseError\<close> stands for a control code whose handler failed.
\<close>

section \<open>Jobs\<close>

datatype job_status = Job_active | Job_completed | Job_error | Job_paused

record printer_job =
  pj_id :: string
  pj_max_data :: int
  pj_data :: bytes
  pj_status :: job_status
  pj_start :: int
  pj_end :: "int option"
  pj_codes :: "int list"
  pj_pages :: nat
  pj_lines :: nat
  pj_error :: "string option"

definition PrinterJob_init :: "int \<Rightarrow> string \<Rightarrow> printer_job" where
  "PrinterJob_init now job_id =
     \<lparr>pj_id = (if job_id = [] then ''job_'' @ decimal_text (nat ((now * 1000) mod 100000)) else job_id),
      pj_max_data = 1048576, pj_data = [], pj_status = Job_active, pj_start = now, pj_end = None,
      pj_codes = [], pj_pages = 0, pj_lines = 0, pj_error = None\<rparr>"

definition job_add_data :: "printer_job \<Rightarrow> bytes \<Rightarrow> printer_job" where
  "job_add_data j data = j\<lparr>pj_data := keep_last (pj_max_data j) (pj_data j @ data)\<rparr>"

definition add_scs_control_code :: "int \<Rightarrow> printer_job \<Rightarrow> printer_job" where
  "add_scs_control_code code j = j\<lparr>pj_codes := pj_codes j @ [code]\<rparr>"

definition increment_line_count :: "printer_job \<Rightarrow> printer_job" where
  "increment_line_count j = j\<lparr>pj_lines := Suc (pj_lines j)\<rparr>"

definition increment_page_count :: "printer_job \<Rightarrow> printer_job" where
  "increment_page_count j = j\<lparr>pj_pages := Suc (pj_pages j)\<rparr>"

definition complete_job :: "int \<Rightarrow> printer_job \<Rightarrow> printer_job" where
  "complete_job now j =
     (if pj_status j = Job_active then j\<lparr>pj_status := Job_completed, pj_end := Some now\<rparr> else j)"

definition set_error :: "int \<Rightarrow> string \<Rightarrow> printer_job \<Rightarrow> printer_job" where
  "set_error now msg j = j\<lparr>pj_status := Job_error, pj_end := Some now, pj_error := Some msg\<rparr>"

definition pause_job :: "printer_job \<Rightarrow> printer_job" where
  "pause_job j = (if pj_status j = Job_active then j\<lparr>pj_status := Job_paused\<rparr> else j)"

definition resume_job :: "printer_job \<Rightarrow> printer_job" where
  "resume_job j = (if pj_status j = Job_paused then j\<lparr>pj_status := Job_active\<rparr> else j)"

definition get_duration :: "int \<Rightarrow> printer_job \<Rightarrow> int" where
  "get_duration now j = (case pj_end j of Some e \<Rightarrow> e - pj_start j | None \<Rightarrow> now - pj_start j)"

definition get_page_count :: "printer_job \<Rightarrow> nat" where
  "get_page_count j = 1 + length (filter (\<lambda>b. b = 0x0C) (pj_data j))"

definition get_data_size :: "printer_job \<Rightarrow> nat" where
  "get_data_size j = length (pj_data j)"

section \<open>Sessions\<close>

record printer_session =
  ps_active :: bool
  ps_current :: "printer_job option"
  ps_completed :: "printer_job list"
  ps_max_jobs :: int
  ps_job_counter :: nat
  ps_handlers :: bool
  ps_functions :: "int set"
  ps_device_type :: string
  ps_error_count :: nat

datatype printer_error = Inactive | Handler_failed

type_synonym printer_op = "printer_session \<Rightarrow> printer_error option \<times> printer_session"

definition PrinterSession_init :: printer_session where
  "PrinterSession_init =
     \<lparr>ps_active = False, ps_current = None, ps_completed = [], ps_max_jobs = 50, ps_job_counter = 0,
      ps_handlers = False, ps_functions = {}, ps_device_type = ''IBM-DYNAMIC'', ps_error_count = 0\<rparr>"

definition store_job :: "printer_session \<Rightarrow> printer_job \<Rightarrow> printer_session" where
  "store_job s j = s\<lparr>ps_completed := keep_last (ps_max_jobs s) (ps_completed s @ [j])\<rparr>"

definition finish_current_job :: "printer_session \<Rightarrow> printer_session" where
  "finish_current_job s =
     (case ps_current s of None \<Rightarrow> s | Some j \<Rightarrow> (store_job s j)\<lparr>ps_current := None\<rparr>)"

definition prune :: "printer_session \<Rightarrow> printer_session" where
  "prune s = s\<lparr>ps_completed := keep_last (ps_max_jobs s) (ps_completed s)\<rparr>"

definition on_current :: "(printer_job \<Rightarrow> printer_job) \<Rightarrow> printer_session \<Rightarrow> printer_session" where
  "on_current f s = s\<lparr>ps_current := map_option f (ps_current s)\<rparr>"

definition activate :: "printer_session \<Rightarrow> printer_session" where
  "activate s = s\<lparr>ps_active := True, ps_handlers := True\<rparr>"

definition deactivate :: "int \<Rightarrow> printer_session \<Rightarrow> printer_session" where
  "deactivate now s =
     (finish_current_job (on_current (set_error now ''Session deactivated'') s))\<lparr>ps_active := False\<rparr>"

definition close_session :: "int \<Rightarrow> printer_session \<Rightarrow> printer_session" where
  "close_session now s = (deactivate now s)\<lparr>ps_completed := []\<rparr>"

definition new_job :: "int \<Rightarrow> string \<Rightarrow> printer_session \<Rightarrow> printer_session" where
  "new_job now job_id s =
     (if job_id = []
      then s\<lparr>ps_job_counter := Suc (ps_job_counter s),
             ps_current := Some (PrinterJob_init now (''job_'' @ decimal_text (Suc (ps_job_counter s))))\<rparr>
      else s\<lparr>ps_current := Some (PrinterJob_init now job_id)\<rparr>)"

definition start_new_job :: "int \<Rightarrow> string \<Rightarrow> printer_op" where
  "start_new_job now job_id s =
     (if \<not> ps_active s then (Some Inactive, s)
      else (None, new_job now job_id
              (finish_current_job (on_current (set_error now ''New job started before completion'') s))))"

definition add_scs_data :: "int \<Rightarrow> bytes \<Rightarrow> bool \<Rightarrow> printer_op" where
  "add_scs_data now data holding_lock s =
     (if \<not> holding_lock \<and> \<not> ps_active s then (Some Inactive, s)
      else (let s1 = (if ps_current s = None then new_job now [] s else s)
            in (None, on_current (\<lambda>j. job_add_data j data) s1)))"

definition handle_print_eoj :: "int \<Rightarrow> printer_op" where
  "handle_print_eoj now s =
     (if \<not> ps_active s then (Some Inactive, s)
      else (None, finish_current_job (on_current (complete_job now) s)))"

text \<open>The handlers of the control codes: most only log, four count lines, two pages.\<close>

definition scs_handler :: "int \<Rightarrow> int \<Rightarrow> printer_op option" where
  "scs_handler now code =
     (if code = 0x08 then Some (handle_print_eoj now)
      else if code \<in> {0x03, 0x0D, 0x04, 0x09} then Some (\<lambda>s. (None, on_current increment_line_count s))
      else if code \<in> {0x05, 0x0C} then Some (\<lambda>s. (None, on_current increment_page_count s))
      else if code \<in> {0x01, 0x06, 0x07, 0x0A, 0x0B} \<or> (0x0E \<le> code \<and> code \<le> 0x1F)
      then Some (\<lambda>s. (None, s))
      else None)"

definition handle_scs_control_code :: "int \<Rightarrow> int \<Rightarrow> printer_op" where
  "handle_scs_control_code now code s =
     (if \<not> ps_active s then (Some Inactive, s)
      else case (if ps_handlers s then scs_handler now code else None) of
             None \<Rightarrow> (None, s)
           | Some f \<Rightarrow>
               (case f s of
                  (Some e, s1) \<Rightarrow> (Some Handler_failed, s1)
                | (None, s1) \<Rightarrow> (None, on_current (add_scs_control_code code) s1)))"

section \<open>Messages\<close>

definition handle_printer_response :: "int \<Rightarrow> TN3270EHeader \<Rightarrow> printer_session \<Rightarrow> printer_session" where
  "handle_printer_response now h s =
     (if h_response_flag h = 0x01
      then on_current (set_error now (''Error response received for sequence '' @ decimal_text (nat (h_seq_number h)))) s
      else s)"

text \<open>
  The branches in the order of the source: 0x01 print data, 0x04 control codes (also the type of UNBIND, whose
  branch comes later), 0x02 responses. The others only log.
\<close>

definition process_tn3270e_message :: "int \<Rightarrow> TN3270EHeader \<Rightarrow> bytes \<Rightarrow> printer_op" where
  "process_tn3270e_message now h data s =
     (if \<not> ps_active s then (Some Inactive, s)
      else if h_data_type h = 0x01 then add_scs_data now data True s
      else if h_data_type h = 0x04
      then (case data of [] \<Rightarrow> (None, s) | c # _ \<Rightarrow> handle_scs_control_code now (uint c) s)
      else if h_data_type h = 0x02 then (None, handle_printer_response now h s)
      else (None, s))"

section \<open>Reports\<close>

record job_statistics =
  js_active :: nat
  js_completed :: nat
  js_pages :: nat
  js_bytes :: nat

definition get_job_statistics :: "printer_session \<Rightarrow> job_statistics" where
  "get_job_statistics s =
     \<lparr>js_active = (if ps_current s = None then 0 else 1), js_completed = length (ps_completed s),
      js_pages = sum_list (map get_page_count (ps_completed s)),
      js_bytes = sum_list (map get_data_size (ps_completed s))\<rparr>"

definition is_healthy :: "printer_session \<Rightarrow> bool" where
  "is_healthy s \<longleftrightarrow>
     (let total = length (ps_completed s) + (if ps_current s = None then 0 else 1)
      in ps_active s \<and> ps_error_count s \<le> 10 \<and> (total = 0 \<or> 10 * ps_error_count s < total))"

end
