(* ===== verification/PrinterSessionProps.thy ===== *)
theory PrinterSessionProps
  imports PrinterSession
begin

text \<open>
  A printer session as a spool: the specification keeps every job with all of its data, the session the
  newest ones with the newest data. Each message takes both the same step, so that nothing is lost
  within the limits, and what is lost beyond them is the oldest.
\<close>

interpretation job_data: tail_store job_add_data pj_data pj_max_data "\<lambda>data. data"
  by unfold_locales (simp_all add: job_add_data_def keep_last_newest)

interpretation job_list: tail_store store_job ps_completed ps_max_jobs "\<lambda>j. [j]"
  by unfold_locales (simp_all add: store_job_def keep_last_newest)

section \<open>The spool\<close>

type_synonym spooled = "bytes \<times> job_status"

record spool =
  sp_open :: "spooled option"
  sp_done :: "spooled list"

definition spool_data :: "bytes \<Rightarrow> spool \<Rightarrow> spool" where
  "spool_data data sp =
     sp\<lparr>sp_open := Some (case sp_open sp of None \<Rightarrow> (data, Job_active) | Some (d, st) \<Rightarrow> (d @ data, st))\<rparr>"

definition spool_end :: "spool \<Rightarrow> spool" where
  "spool_end sp =
     (case sp_open sp of
        None \<Rightarrow> sp
      | Some (d, st) \<Rightarrow>
          sp\<lparr>sp_open := None, sp_done := sp_done sp @ [(d, if st = Job_active then Job_completed else st)]\<rparr>)"

definition spool_fail :: "spool \<Rightarrow> spool" where
  "spool_fail sp = sp\<lparr>sp_open := map_option (\<lambda>(d, st). (d, Job_error)) (sp_open sp)\<rparr>"

definition spool_message :: "TN3270EHeader \<times> bytes \<Rightarrow> spool \<Rightarrow> spool" where
  "spool_message m sp =
     (let (h, data) = m
      in if h_data_type h = 0x01 then spool_data data sp
         else if h_data_type h = 0x04 then (if data \<noteq> [] \<and> hd data = 0x08 then spool_end sp else sp)
         else if h_data_type h = 0x02 \<and> h_response_flag h = 0x01 then spool_fail sp
         else sp)"

definition empty_spool :: spool where
  "empty_spool = \<lparr>sp_open = None, sp_done = []\<rparr>"

section \<open>The session holds the newest of it\<close>

abbreviation view_job :: "printer_job \<Rightarrow> spooled" where
  "view_job j \<equiv> (pj_data j, pj_status j)"

definition cut_job :: "spooled \<Rightarrow> spooled" where
  "cut_job x = (newest 1048576 (fst x), snd x)"

definition holds :: "printer_session \<Rightarrow> spool \<Rightarrow> bool" where
  "holds s sp \<longleftrightarrow> ps_active s \<and> ps_handlers s \<and> ps_max_jobs s = 50
     \<and> (\<forall>j. ps_current s = Some j \<longrightarrow> pj_max_data j = 1048576)
     \<and> map_option view_job (ps_current s) = map_option cut_job (sp_open sp)
     \<and> map view_job (ps_completed s) = newest 50 (map cut_job (sp_done sp))"

lemma view_add_data:
  assumes "pj_max_data j = 1048576" and "pj_data j = newest 1048576 d"
  shows "pj_data (job_add_data j data) = newest 1048576 (d @ data)"
    "pj_status (job_add_data j data) = pj_status j" "pj_max_data (job_add_data j data) = pj_max_data j"
  using job_data.held_step [of j d data] assms by (simp_all add: job_add_data_def)

lemma holds_open:
  assumes "holds s sp" and "ps_current s = Some j"
  obtains d st where "sp_open sp = Some (d, st)" "pj_data j = newest 1048576 d" "pj_status j = st"
  using assms by (cases "sp_open sp") (auto simp: holds_def cut_job_def)

lemma holds_data:
  assumes "holds s sp"
  shows "holds (snd (add_scs_data now data True s)) (spool_data data sp) \<and> fst (add_scs_data now data True s) = None"
proof (cases "ps_current s")
  case None
  have "pj_data (PrinterJob_init now i) = newest 1048576 []" for i by (simp add: PrinterJob_init_def newest_def)
  with None assms show ?thesis
    by (auto simp: holds_def add_scs_data_def Let_def new_job_def on_current_def spool_data_def cut_job_def
        view_add_data PrinterJob_init_def job_add_data_def keep_last_newest newest_def)
next
  case (Some j)
  from holds_open [OF assms Some] obtain d st
    where o: "sp_open sp = Some (d, st)" "pj_data j = newest 1048576 d" "pj_status j = st" .
  with Some assms show ?thesis
    by (simp add: holds_def add_scs_data_def Let_def on_current_def spool_data_def cut_job_def view_add_data)
qed

lemma holds_end:
  assumes "holds s sp"
  shows "holds (finish_current_job (on_current (complete_job now) s)) (spool_end sp)"
proof (cases "ps_current s")
  case None
  with assms show ?thesis by (simp add: holds_def finish_current_job_def on_current_def spool_end_def)
next
  case (Some j)
  from holds_open [OF assms Some] obtain d st
    where o: "sp_open sp = Some (d, st)" "pj_data j = newest 1048576 d" "pj_status j = st" .
  have "map view_job (newest 50 (ps_completed s @ [complete_job now j]))
      = newest 50 (newest 50 (map cut_job (sp_done sp)) @ [view_job (complete_job now j)])"
    using assms by (simp add: holds_def newest_map [symmetric])
  with o Some assms show ?thesis
    by (simp add: holds_def finish_current_job_def on_current_def spool_end_def store_job_def keep_last_newest
        newest_append cut_job_def complete_job_def)
qed

lemma holds_frame:
  assumes "\<And>j. pj_data (f j) = pj_data j \<and> pj_status (f j) = pj_status j \<and> pj_max_data (f j) = pj_max_data j"
  shows "holds (on_current f s) sp = holds s sp"
  using assms by (auto simp: holds_def on_current_def option.map_comp comp_def)

lemma holds_code:
  assumes "holds s sp"
  shows "holds (snd (handle_scs_control_code now c s)) (if c = 0x08 then spool_end sp else sp)
       \<and> fst (handle_scs_control_code now c s) = None"
proof -
  have a: "ps_active s" "ps_handlers s" using assms by (simp_all add: holds_def)
  have f: "holds (on_current (add_scs_control_code k) t) q = holds t q"
    "holds (on_current increment_line_count t) q = holds t q"
    "holds (on_current increment_page_count t) q = holds t q" for k t q
    by (rule holds_frame, simp add: add_scs_control_code_def increment_line_count_def increment_page_count_def)+
  show ?thesis
    using a assms holds_end [OF assms]
    by (auto simp: handle_scs_control_code_def scs_handler_def handle_print_eoj_def f split: option.split)
qed

lemma holds_message:
  assumes "holds s sp"
  shows "holds (snd (process_tn3270e_message now h data s)) (spool_message (h, data) sp)
       \<and> fst (process_tn3270e_message now h data s) = None"
proof -
  have a: "ps_active s" using assms by (simp add: holds_def)
  have r: "holds (handle_printer_response now h s) (if h_response_flag h = 0x01 then spool_fail sp else sp)"
    using assms
    by (cases "ps_current s"; cases "sp_open sp")
      (auto simp: holds_def handle_printer_response_def on_current_def spool_fail_def set_error_def cut_job_def)
  consider "h_data_type h = 0x01" | "h_data_type h = 0x04" | "h_data_type h \<notin> {0x01, 0x04}" by blast
  then show ?thesis
  proof cases
    case 1
    with a holds_data [OF assms, of now data] show ?thesis
      by (simp add: process_tn3270e_message_def spool_message_def)
  next
    case 2
    show ?thesis
    proof (cases data)
      case (Cons c cs)
      have "uint c = 8 \<longleftrightarrow> c = 0x08" by (simp add: word_uint_eq_iff)
      with 2 Cons a holds_code [OF assms, of now "uint c"] show ?thesis
        by (simp add: process_tn3270e_message_def spool_message_def)
    qed (use 2 a assms in \<open>simp add: process_tn3270e_message_def spool_message_def\<close>)
  next
    case 3
    with a r assms show ?thesis
      by (cases "h_response_flag h = 0x01")
        (simp_all add: process_tn3270e_message_def spool_message_def handle_printer_response_def)
  qed
qed

type_synonym timed_message = "int \<times> TN3270EHeader \<times> bytes"

definition run_messages :: "timed_message list \<Rightarrow> printer_session \<Rightarrow> printer_session" where
  "run_messages ms s = fold (\<lambda>(now, h, data) s. snd (process_tn3270e_message now h data s)) ms s"

definition run_spool :: "timed_message list \<Rightarrow> spool \<Rightarrow> spool" where
  "run_spool ms sp = fold (\<lambda>(now, h, data). spool_message (h, data)) ms sp"

lemma holds_run: "holds s sp \<Longrightarrow> holds (run_messages ms s) (run_spool ms sp)"
proof (induction ms arbitrary: s sp)
  case (Cons m ms)
  obtain now h data where "m = (now, h, data)" by (cases m)
  with Cons.IH [of "snd (process_tn3270e_message now h data s)" "spool_message (h, data) sp"]
    holds_message [OF Cons.prems, of now h data]
  show ?case by (simp add: run_messages_def run_spool_def)
qed (simp add: run_messages_def run_spool_def)

text \<open>
  C14. An active session refines the spool: after every message it holds the newest 50 finished jobs of the
  specification and the open one, each with its status and the newest megabyte of its data, and no
  message is refused.
\<close>

theorem session_refines_spool:
  assumes "holds s sp"
  shows "holds (run_messages ms s) (run_spool ms sp)
       \<and> (\<forall>now h data. fst (process_tn3270e_message now h data (run_messages ms s)) = None)"
  using holds_run [OF assms, of ms] holds_message by blast

lemma holds_fresh: "holds (activate PrinterSession_init) empty_spool"
  by (simp add: holds_def activate_def PrinterSession_init_def empty_spool_def newest_def)

definition scs_message :: "bytes \<Rightarrow> timed_message" where
  "scs_message data = (0, TN3270EHeader_default\<lparr>h_data_type := 0x01\<rparr>, data)"

definition eoj_message :: timed_message where
  "eoj_message = (0, TN3270EHeader_default\<lparr>h_data_type := 0x04\<rparr>, [0x08])"

theorem session_refines_spool_witness:
  "map view_job (ps_completed (run_messages [scs_message [1], scs_message [2], eoj_message] (activate PrinterSession_init)))
   = [([1, 2], Job_completed)]"
proof -
  have "run_spool [scs_message [1], scs_message [2], eoj_message] empty_spool
    = \<lparr>sp_open = None, sp_done = [([1, 2], Job_completed)]\<rparr>"
    by code_simp
  with session_refines_spool [OF holds_fresh, of "[scs_message [1], scs_message [2], eoj_message]"] show ?thesis
    by (simp add: holds_def newest_def cut_job_def)
qed

section \<open>Nothing is lost within the limits\<close>

definition spool_bytes :: "spool \<Rightarrow> bytes" where
  "spool_bytes sp = concat (map fst (sp_done sp)) @ (case sp_open sp of None \<Rightarrow> [] | Some (d, st) \<Rightarrow> d)"

definition print_bytes :: "timed_message list \<Rightarrow> bytes" where
  "print_bytes ms = concat (map (\<lambda>(now, h, data). if h_data_type h = 0x01 then data else []) ms)"

lemma spool_bytes_message:
  "spool_bytes (spool_message (h, data) sp) = spool_bytes sp @ (if h_data_type h = 0x01 then data else [])"
  by (auto simp: spool_bytes_def spool_message_def spool_data_def spool_end_def spool_fail_def split: option.split)

lemma spool_bytes_run: "spool_bytes (run_spool ms sp) = spool_bytes sp @ print_bytes ms"
  by (induction ms arbitrary: sp)
    (auto simp: run_spool_def print_bytes_def spool_bytes_message case_prod_unfold)

lemma cut_short: "\<forall>x \<in> set xs. length (fst x) \<le> 1048576 \<Longrightarrow> map cut_job xs = xs"
  by (rule map_idI) (simp add: cut_job_def newest_all prod_eq_iff)

lemma print_data_kept:
  assumes "sp = run_spool ms empty_spool" and "length (sp_done sp) \<le> 50"
    and "\<forall>x \<in> set (sp_done sp) \<union> set_option (sp_open sp). length (fst x) \<le> 1048576"
  defines "s \<equiv> run_messages ms (activate PrinterSession_init)"
  shows "concat (map pj_data (ps_completed s)) @ (case ps_current s of None \<Rightarrow> [] | Some j \<Rightarrow> pj_data j) = print_bytes ms"
proof -
  have h: "holds s sp" using holds_run [OF holds_fresh] assms(1) by (simp add: s_def)
  then have "map view_job (ps_completed s) = sp_done sp"
    using assms(2,3) cut_short [of "sp_done sp"] by (simp add: holds_def newest_all)
  then have "map pj_data (ps_completed s) = map fst (sp_done sp)" by (metis (no_types, lifting) comp_apply fst_conv list.map_comp map_eq_conv)
  moreover have "(case ps_current s of None \<Rightarrow> [] | Some j \<Rightarrow> pj_data j) = (case sp_open sp of None \<Rightarrow> [] | Some (d, st) \<Rightarrow> d)"
    using h assms(3) by (cases "sp_open sp"; cases "ps_current s") (auto simp: holds_def cut_job_def newest_all)
  ultimately show ?thesis
    using spool_bytes_run [of ms empty_spool] assms(1) by (simp add: spool_bytes_def empty_spool_def)
qed

end
