(* ===== verification/StatusReports.thy ===== *)
theory StatusReports
  imports PyText Newest
begin

text \<open>
  \<open>protocol/printer_status_reporter.py\<close>: the status of a printer, its history, counters of errors and the
  queue of notifications with the task that hands them to the callbacks. The clock is an argument; a
  callback is a name and a function that says whether it raises.
\<close>

section \<open>Kinds\<close>

datatype printer_status = Healthy | Degraded | Unhealthy | Down | Maintenance | Unknown_status

datatype status_event =
    Status_change | Health_check | Error_occurred | Recovery_success | Performance_issue | Resource_warning

datatype priority = Low | Medium | High | Critical

fun status_value :: "printer_status \<Rightarrow> string" where
  "status_value Healthy = ''healthy''"
| "status_value Degraded = ''degraded''"
| "status_value Unhealthy = ''unhealthy''"
| "status_value Down = ''down''"
| "status_value Maintenance = ''maintenance''"
| "status_value Unknown_status = ''unknown''"

record notification =
  nt_event :: status_event
  nt_priority :: priority
  nt_message :: string

record status_entry =
  se_time :: int
  se_status :: printer_status
  se_previous :: "printer_status option"
  se_reason :: string

type_synonym callback = "nat \<times> (notification \<Rightarrow> bool)"

text \<open>The task that processes notifications: not started, at work, or ended by an exception.\<close>

datatype task = No_task | At_work | Ended

record reporter =
  sr_status :: printer_status
  sr_history :: "status_entry list"
  sr_history_size :: int
  sr_notifications :: bool
  sr_queue :: "notification list"
  sr_queue_size :: nat
  sr_error_counts :: "(string \<times> nat) list"
  sr_counters :: "(string \<times> int) list"
  sr_failures :: int
  sr_error_permille :: int
  sr_last_check :: "int option"
  sr_callbacks :: "callback list"
  sr_task :: task

definition PrinterStatusReporter_init :: "int \<Rightarrow> bool \<Rightarrow> nat \<Rightarrow> reporter" where
  "PrinterStatusReporter_init history_size notifications queue_size =
     \<lparr>sr_status = Unknown_status, sr_history = [], sr_history_size = history_size,
      sr_notifications = notifications, sr_queue = [], sr_queue_size = queue_size, sr_error_counts = [],
      sr_counters = [], sr_failures = 0, sr_error_permille = 0, sr_last_check = None, sr_callbacks = [],
      sr_task = No_task\<rparr>"

text \<open>
  \<open>start\<close> makes a task when there is none. \<open>stop\<close> waits for the task, which raises what the task ended with
  and leaves it and the callbacks in place.
\<close>

definition start_reporter :: "reporter \<Rightarrow> reporter" where
  "start_reporter r = (if sr_notifications r \<and> sr_task r = No_task then r\<lparr>sr_task := At_work\<rparr> else r)"

definition stop_reporter :: "reporter \<Rightarrow> bool \<times> reporter" where
  "stop_reporter r =
     (if sr_task r = Ended then (True, r) else (False, r\<lparr>sr_task := No_task, sr_callbacks := []\<rparr>))"

section \<open>Notifications\<close>

text \<open>A queue of size zero has no limit; a notification for a full queue is dropped.\<close>

definition notify_status_change :: "status_event \<Rightarrow> priority \<Rightarrow> string \<Rightarrow> reporter \<Rightarrow> reporter" where
  "notify_status_change ev pr msg r =
     (if \<not> sr_notifications r then r
      else if 0 < sr_queue_size r \<and> sr_queue_size r \<le> length (sr_queue r) then r
      else r\<lparr>sr_queue := sr_queue r @ [\<lparr>nt_event = ev, nt_priority = pr, nt_message = msg\<rparr>]\<rparr>)"

text \<open>
  One round of the task: it takes a notification and calls the callbacks in their order. The first that
  raises ends the round and the task.
\<close>

definition called :: "notification \<Rightarrow> callback list \<Rightarrow> nat" where
  "called n cs = (if list_ex (\<lambda>c. snd c n) cs then Suc (length (takeWhile (\<lambda>c. \<not> snd c n) cs)) else length cs)"

definition process_notification :: "reporter \<Rightarrow> (notification \<times> nat) option \<times> reporter" where
  "process_notification r =
     (case sr_queue r of
        [] \<Rightarrow> (None, r)
      | n # q \<Rightarrow>
          (if sr_task r \<noteq> At_work then (None, r)
           else (Some (n, called n (sr_callbacks r)),
                 r\<lparr>sr_queue := q, sr_task := (if list_ex (\<lambda>c. snd c n) (sr_callbacks r) then Ended else At_work)\<rparr>)))"

definition add_notification_callback :: "callback \<Rightarrow> reporter \<Rightarrow> reporter" where
  "add_notification_callback c r =
     (if fst c \<in> fst ` set (sr_callbacks r) then r else r\<lparr>sr_callbacks := sr_callbacks r @ [c]\<rparr>)"

definition remove_notification_callback :: "nat \<Rightarrow> reporter \<Rightarrow> reporter" where
  "remove_notification_callback k r = r\<lparr>sr_callbacks := filter (\<lambda>c. fst c \<noteq> k) (sr_callbacks r)\<rparr>"

section \<open>Status\<close>

definition push_status :: "reporter \<Rightarrow> status_entry \<Rightarrow> reporter" where
  "push_status r e = r\<lparr>sr_history := push_limited (sr_history_size r) (sr_history r) e\<rparr>"

definition update_status :: "int \<Rightarrow> printer_status \<Rightarrow> string \<Rightarrow> reporter \<Rightarrow> reporter" where
  "update_status now new reason r =
     (let old = sr_status r;
          r1 = push_status (r\<lparr>sr_status := new\<rparr>)
                 \<lparr>se_time = now, se_status = new, se_previous = (if old \<noteq> new then Some old else None),
                  se_reason = reason\<rparr>
      in if old \<noteq> new
         then notify_status_change Status_change (if new = Down then Critical else Medium)
                (''Status changed from '' @ status_value old @ '' to '' @ status_value new @ '': '' @ reason) r1
         else r1)"

definition count_of :: "string \<Rightarrow> (string \<times> nat) list \<Rightarrow> nat" where
  "count_of k xs = (case map_of xs k of None \<Rightarrow> 0 | Some n \<Rightarrow> n)"

definition report_error :: "string \<Rightarrow> string \<Rightarrow> reporter \<Rightarrow> reporter" where
  "report_error error_type msg r =
     (let n = Suc (count_of error_type (sr_error_counts r))
      in notify_status_change Error_occurred (if n > 10 then High else if n > 5 then Medium else Low)
           (''Error ('' @ error_type @ ''): '' @ msg)
           (r\<lparr>sr_error_counts := AList.update error_type n (sr_error_counts r)\<rparr>))"

definition report_recovery :: "string \<Rightarrow> reporter \<Rightarrow> reporter" where
  "report_recovery operation =
     notify_status_change Recovery_success Medium (''Recovery successful for operation: '' @ operation)"

definition increment_performance_counter :: "string \<Rightarrow> int \<Rightarrow> reporter \<Rightarrow> reporter" where
  "increment_performance_counter k n r =
     r\<lparr>sr_counters := AList.update k ((case map_of (sr_counters r) k of None \<Rightarrow> 0 | Some m \<Rightarrow> m) + n) (sr_counters r)\<rparr>"

text \<open>
  Health from two metrics, the number of failed connections and the rate of errors, here in thousandths;
  \<open>None\<close> leaves a metric as it was.
\<close>

definition evaluate_health_status :: "int \<Rightarrow> reporter \<Rightarrow> reporter" where
  "evaluate_health_status now r =
     (let (new, reason) = (if sr_failures r > 5 then (Unhealthy, ''High connection failure rate'')
                           else if sr_error_permille r > 100 then (Degraded, ''High error rate detected'')
                           else (Healthy, ''Conditions optimal''))
      in if new \<noteq> sr_status r then update_status now new reason r else r)"

definition update_health_metrics :: "int \<Rightarrow> int option \<Rightarrow> int option \<Rightarrow> reporter \<Rightarrow> reporter" where
  "update_health_metrics now failures permille r =
     evaluate_health_status now
       (r\<lparr>sr_failures := (case failures of None \<Rightarrow> sr_failures r | Some n \<Rightarrow> n),
          sr_error_permille := (case permille of None \<Rightarrow> sr_error_permille r | Some n \<Rightarrow> n),
          sr_last_check := Some now\<rparr>)"

definition perform_health_check :: "int \<Rightarrow> reporter \<Rightarrow> reporter" where
  "perform_health_check now r =
     notify_status_change Health_check Low ''Periodic health check completed'' (r\<lparr>sr_last_check := Some now\<rparr>)"

text \<open>A limit or a start of zero selects everything.\<close>

definition get_status_history :: "int option \<Rightarrow> int option \<Rightarrow> reporter \<Rightarrow> status_entry list" where
  "get_status_history limit since r =
     (let h = (case since of
                 Some t \<Rightarrow> if t = 0 then sr_history r else filter (\<lambda>e. se_time e \<ge> t) (sr_history r)
               | None \<Rightarrow> sr_history r)
      in case limit of Some n \<Rightarrow> if n = 0 then h else py_slice h (- n) (int (length h)) | None \<Rightarrow> h)"

interpretation status_log: bounded_log push_status sr_history sr_history_size "\<lambda>e. e"
  by unfold_locales (simp_all add: push_status_def)

section \<open>A callback that fails\<close>

inductive reporter_step :: "reporter \<Rightarrow> reporter \<Rightarrow> bool" where
  rep_status: "reporter_step r (update_status now new reason r)"
| rep_error: "reporter_step r (report_error k msg r)"
| rep_recovery: "reporter_step r (report_recovery op r)"
| rep_health: "reporter_step r (update_health_metrics now f p r)"
| rep_check: "reporter_step r (perform_health_check now r)"
| rep_add: "reporter_step r (add_notification_callback cb r)"
| rep_remove: "reporter_step r (remove_notification_callback k r)"
| rep_start: "reporter_step r (start_reporter r)"
| rep_stop: "reporter_step r (snd (stop_reporter r))"
| rep_process: "reporter_step r (snd (process_notification r))"

text \<open>What a step of a reporter with an ended task may change: it may add to the queue, within its limit.\<close>

definition only_queues :: "reporter \<Rightarrow> reporter \<Rightarrow> bool" where
  "only_queues r r' \<longleftrightarrow> sr_task r' = sr_task r \<and> sr_queue_size r' = sr_queue_size r
     \<and> (\<exists>tail. sr_queue r' = sr_queue r @ tail)
     \<and> (0 < sr_queue_size r \<and> length (sr_queue r) \<le> sr_queue_size r \<longrightarrow> length (sr_queue r') \<le> sr_queue_size r)"

lemma only_queues_same:
  "sr_task r1 = sr_task r \<Longrightarrow> sr_queue_size r1 = sr_queue_size r \<Longrightarrow> sr_queue r1 = sr_queue r
     \<Longrightarrow> only_queues r r1"
  by (simp add: only_queues_def)

lemma only_queues_notify:
  assumes "sr_task r1 = sr_task r" "sr_queue_size r1 = sr_queue_size r" "sr_queue r1 = sr_queue r"
  shows "only_queues r (notify_status_change evt pr msg r1)"
  using assms by (auto simp: only_queues_def notify_status_change_def)

lemma only_queues_update:
  assumes "sr_task r1 = sr_task r" "sr_queue_size r1 = sr_queue_size r" "sr_queue r1 = sr_queue r"
  shows "only_queues r (update_status now new reason r1)"
  using assms
  by (simp add: update_status_def Let_def push_status_def only_queues_notify only_queues_same)

lemma only_queues_trans: "only_queues a b \<Longrightarrow> only_queues b c \<Longrightarrow> only_queues a c"
  by (fastforce simp: only_queues_def)

lemma reporter_ended:
  assumes "reporter_step r r'" and "sr_task r = Ended"
  shows "only_queues r r'"
  using assms
proof cases
  case rep_process
  then have "r' = r" using assms(2) by (simp add: process_notification_def split: list.split)
  then show ?thesis by (simp add: only_queues_same)
next
  case rep_start
  then show ?thesis using assms(2) by (simp add: start_reporter_def only_queues_same)
next
  case rep_stop
  then show ?thesis using assms(2) by (simp add: stop_reporter_def only_queues_same)
qed (simp_all add: only_queues_update report_error_def report_recovery_def only_queues_notify
      update_health_metrics_def evaluate_health_status_def perform_health_check_def only_queues_same Let_def
      case_prod_unfold add_notification_callback_def remove_notification_callback_def)

lemma reporter_stays_ended:
  assumes "reporter_step\<^sup>*\<^sup>* r r'" and "sr_task r = Ended"
  shows "only_queues r r'"
  using assms
proof (induction rule: rtranclp_induct)
  case (step y z)
  then have "only_queues r y" by simp
  moreover from this step have "sr_task y = Ended" by (simp add: only_queues_def)
  ultimately show ?case using reporter_ended step(2) only_queues_trans by blast
qed (simp add: only_queues_same)

text \<open>
  One callback that raises ends the delivery of notifications for good: the callbacks after it do not see
  the notification, and whatever happens later, a stop and a new start among it, nothing leaves the
  queue, which grows to its limit; \<open>stop\<close> raises.
\<close>

lemma failing_callback_stops_reports:
  assumes "sr_queue r = n # q" and "sr_task r = At_work"
    and "sr_callbacks r = before @ c # after" and "\<forall>b \<in> set before. \<not> snd b n" and "snd c n"
    and "reporter_step\<^sup>*\<^sup>* (snd (process_notification r)) r'"
  shows "fst (process_notification r) = Some (n, Suc (length before))
       \<and> fst (process_notification r') = None \<and> fst (stop_reporter r') \<and> (\<exists>tail. sr_queue r' = q @ tail)
       \<and> (0 < sr_queue_size r \<and> length q \<le> sr_queue_size r \<longrightarrow> length (sr_queue r') \<le> sr_queue_size r)"
proof -
  let ?r = "snd (process_notification r)"
  have "takeWhile (\<lambda>c. \<not> snd c n) (before @ c # after) = before"
    using assms(4,5) by (subst takeWhile_append2) auto
  then have p: "fst (process_notification r) = Some (n, Suc (length before))" "sr_task ?r = Ended" "sr_queue ?r = q"
    "sr_queue_size ?r = sr_queue_size r"
    using assms(1-5) by (simp_all add: process_notification_def called_def)
  from reporter_stays_ended [OF assms(6) p(2)] p have o: "only_queues ?r r'" by simp
  then have "sr_task r' = Ended" using p by (simp add: only_queues_def)
  then have "fst (process_notification r') = None" "fst (stop_reporter r')"
    by (simp_all add: process_notification_def stop_reporter_def split: list.split)
  with o show ?thesis using p by (auto simp: only_queues_def)
qed

definition demo_reporter :: reporter where
  "demo_reporter = add_notification_callback (0, \<lambda>n. nt_priority n = Critical)
     (start_reporter (PrinterStatusReporter_init 1000 True 100))"

end
