(* ===== verification/CircuitBreaker.thy ===== *)
theory CircuitBreaker
  imports StatusReports
begin

text \<open>
  \<open>protocol/printer_error_recovery.py\<close>: the circuit breaker, the policies of the retries and the two managers
  over them. Times are milliseconds of the loop's clock and arguments of the operations; the protected
  function is given by how long it takes and how it ends. What is said to the status reporter is a list of
  reports, with \<open>deliver\<close> for what the reporter of \<open>StatusReports\<close> makes of one.
\<close>

section \<open>The breaker\<close>

definition quoted :: "string \<Rightarrow> string" where
  "quoted s = CHR 0x27 # s @ [CHR 0x27]"

datatype breaker_state = Closed | Open | Half_open

record breaker_config =
  failure_threshold :: int
  recovery_timeout :: int
  success_threshold :: int
  half_open_max_calls :: int

definition CircuitBreakerConfig_default :: breaker_config where
  "CircuitBreakerConfig_default =
     \<lparr>failure_threshold = 5, recovery_timeout = 60000, success_threshold = 3, half_open_max_calls = 3\<rparr>"

datatype report = Status_report printer_status string | Error_report string string | Recovery_report string

record breaker =
  br_name :: string
  br_config :: breaker_config
  br_state :: breaker_state
  br_failures :: int
  br_successes :: int
  br_last_failure :: "int option"
  br_half_open_calls :: int
  br_total_calls :: nat
  br_total_failures :: nat
  br_total_successes :: nat
  br_reports :: "report list"

definition CircuitBreaker_init :: "string \<Rightarrow> breaker_config \<Rightarrow> breaker" where
  "CircuitBreaker_init name cfg =
     \<lparr>br_name = name, br_config = cfg, br_state = Closed, br_failures = 0, br_successes = 0,
      br_last_failure = None, br_half_open_calls = 0, br_total_calls = 0, br_total_failures = 0,
      br_total_successes = 0, br_reports = []\<rparr>"

definition notify_state_change :: "string \<Rightarrow> breaker \<Rightarrow> breaker" where
  "notify_state_change msg b =
     b\<lparr>br_reports := br_reports b @
        [Status_report (if br_state b = Open then Degraded else Healthy)
           (''Circuit breaker '' @ quoted (br_name b) @ '': '' @ msg)]\<rparr>"

definition open_circuit :: "breaker \<Rightarrow> breaker" where
  "open_circuit b = notify_state_change ''Circuit opened due to failures'' (b\<lparr>br_state := Open, br_successes := 0\<rparr>)"

definition close_circuit :: "breaker \<Rightarrow> breaker" where
  "close_circuit b =
     notify_state_change ''Circuit closed - recovered successfully''
       (b\<lparr>br_state := Closed, br_failures := 0, br_successes := 0, br_half_open_calls := 0\<rparr>)"

definition should_attempt_recovery :: "int \<Rightarrow> breaker \<Rightarrow> bool" where
  "should_attempt_recovery now b =
     (case br_last_failure b of None \<Rightarrow> False | Some t \<Rightarrow> now - t \<ge> recovery_timeout (br_config b))"

definition record_success :: "breaker \<Rightarrow> breaker" where
  "record_success b =
     (let b1 = b\<lparr>br_total_successes := Suc (br_total_successes b)\<rparr>
      in if br_state b1 = Half_open
         then let b2 = b1\<lparr>br_successes := br_successes b1 + 1\<rparr>
              in if br_successes b2 \<ge> success_threshold (br_config b2) then close_circuit b2 else b2
         else b1\<lparr>br_failures := 0\<rparr>)"

definition record_failure :: "int \<Rightarrow> breaker \<Rightarrow> breaker" where
  "record_failure now b =
     (let b1 = b\<lparr>br_total_failures := Suc (br_total_failures b), br_failures := br_failures b + 1,
                 br_last_failure := Some now\<rparr>
      in if br_state b1 = Half_open then open_circuit b1
         else if br_state b1 = Closed \<and> br_failures b1 \<ge> failure_threshold (br_config b1) then open_circuit b1
         else b1)"

definition force_open :: "int \<Rightarrow> string \<Rightarrow> breaker \<Rightarrow> breaker" where
  "force_open now reason b =
     notify_state_change reason (b\<lparr>br_state := Open, br_successes := 0, br_last_failure := Some now\<rparr>)"

definition reset_breaker :: "breaker \<Rightarrow> breaker" where
  "reset_breaker b =
     b\<lparr>br_state := Closed, br_failures := 0, br_successes := 0, br_last_failure := None,
       br_half_open_calls := 0, br_total_calls := 0, br_total_failures := 0, br_total_successes := 0\<rparr>"

text \<open>The part of \<open>call\<close> under the lock: the message of the refusal, or leave to run.\<close>

definition admit :: "int \<Rightarrow> breaker \<Rightarrow> string option \<times> breaker" where
  "admit now b =
     (let b1 = b\<lparr>br_total_calls := Suc (br_total_calls b)\<rparr>
      in if br_state b1 = Open \<and> \<not> should_attempt_recovery now b1
         then (Some (''Circuit breaker '' @ quoted (br_name b) @ '' is open''), b1)
         else let b2 = (if br_state b1 = Open
                        then notify_state_change ''Entering half-open state for recovery''
                               (b1\<lparr>br_state := Half_open, br_half_open_calls := 0\<rparr>)
                        else b1)
              in if br_state b2 \<noteq> Half_open then (None, b2)
                 else if br_half_open_calls b2 \<ge> half_open_max_calls (br_config b2)
                 then (Some (''Circuit breaker '' @ quoted (br_name b) @ '' half-open call limit exceeded''), b2)
                 else (None, b2\<lparr>br_half_open_calls := br_half_open_calls b2 + 1\<rparr>))"

text \<open>
  How a function ends: it returns, raises an exception with a text, or is cancelled. \<open>CancelledError\<close> is not
  an \<open>Exception\<close>: the handler that records failures does not see it.
\<close>

datatype ending = Returns | Raises string | Cancelled

datatype result = Returned | Returned_none | Failed string | Open_error string | Was_cancelled

definition result_of :: "ending \<Rightarrow> result" where
  "result_of e = (case e of Returns \<Rightarrow> Returned | Raises x \<Rightarrow> Failed x | Cancelled \<Rightarrow> Was_cancelled)"

definition record_end :: "int \<Rightarrow> ending \<Rightarrow> breaker \<Rightarrow> breaker" where
  "record_end now e b =
     (case e of Returns \<Rightarrow> record_success b | Raises x \<Rightarrow> record_failure now b | Cancelled \<Rightarrow> b)"

text \<open>
  \<open>call\<close> at the time \<open>now\<close> of a function that takes \<open>d\<close> and ends with \<open>e\<close>; the fallback, where there is one,
  by how it ends. The results are with the time after it.
\<close>

definition call :: "int \<Rightarrow> int \<times> ending \<Rightarrow> ending option \<Rightarrow> breaker \<Rightarrow> result \<times> int \<times> breaker" where
  "call now f fallback b =
     (case admit now b of
        (Some msg, b1) \<Rightarrow>
          ((case fallback of None \<Rightarrow> Open_error msg | Some e \<Rightarrow> result_of e), now, b1)
      | (None, b1) \<Rightarrow> (result_of (snd f), now + fst f, record_end (now + fst f) (snd f) b1))"

section \<open>Retries\<close>

datatype recovery_policy = Immediate | Linear_backoff | Exponential_backoff | Custom | Retry

text \<open>
  \<open>_apply_recovery_policy\<close> after the attempt of a number: how long it takes and how it ends; only a custom
  function can raise.
\<close>

definition apply_recovery_policy ::
    "recovery_policy \<Rightarrow> (nat \<Rightarrow> int \<times> ending) option \<Rightarrow> nat \<Rightarrow> int \<times> ending" where
  "apply_recovery_policy policy custom attempt =
     (case policy of
        Immediate \<Rightarrow> (0, Returns)
      | Retry \<Rightarrow> (0, Returns)
      | Linear_backoff \<Rightarrow> ((int attempt + 1) * 2000, Returns)
      | Exponential_backoff \<Rightarrow> (2 ^ attempt * 1000, Returns)
      | Custom \<Rightarrow> (case custom of None \<Rightarrow> (0, Returns) | Some f \<Rightarrow> f attempt))"

definition attempt_once ::
    "(nat \<Rightarrow> int \<times> ending) \<Rightarrow> nat \<Rightarrow> int \<Rightarrow> breaker option \<Rightarrow> result \<times> int \<times> breaker option" where
  "attempt_once func i now cb =
     (case cb of
        None \<Rightarrow> (result_of (snd (func i)), now + fst (func i), None)
      | Some b \<Rightarrow> (case call now (func i) None b of (r, now1, b1) \<Rightarrow> (r, now1, Some b1)))"

definition is_exception :: "result \<Rightarrow> bool" where
  "is_exception r = (case r of Failed x \<Rightarrow> True | Open_error x \<Rightarrow> True | _ \<Rightarrow> False)"

text \<open>The loop over \<open>range(max_attempts)\<close>, from attempt \<open>i\<close> with a number of attempts left.\<close>

fun recover_loop ::
    "string \<Rightarrow> recovery_policy \<Rightarrow> (nat \<Rightarrow> int \<times> ending) option \<Rightarrow> (nat \<Rightarrow> int \<times> ending) \<Rightarrow> nat \<Rightarrow> nat
       \<Rightarrow> int \<Rightarrow> breaker option \<Rightarrow> result \<times> int \<times> breaker option \<times> report list" where
  "recover_loop operation policy custom func i 0 now cb = (Returned_none, now, cb, [])"
| "recover_loop operation policy custom func i (Suc left) now cb =
     (case attempt_once func i now cb of
        (r, now1, cb1) \<Rightarrow>
          if \<not> is_exception r then (r, now1, cb1, [])
          else if left > 0 then
            (case apply_recovery_policy policy custom i of
               (d, Returns) \<Rightarrow> recover_loop operation policy custom func (Suc i) left (now1 + d) cb1
             | (d, e) \<Rightarrow> (result_of e, now1 + d, cb1, []))
          else
            (r, now1,
             map_option (force_open now1
               (''Entering open state after final failed attempt for '' @ quoted operation)) cb1,
             [Error_report ''recovery_failed'' (''All recovery attempts failed for operation '' @ quoted operation)]))"

section \<open>The managers\<close>

record recovery_manager =
  rm_breakers :: "(string \<times> breaker) list"
  rm_policies :: "(string \<times> recovery_policy) list"
  rm_custom :: "(string \<times> (nat \<Rightarrow> int \<times> ending)) list"

definition RecoveryManager_init :: recovery_manager where
  "RecoveryManager_init = \<lparr>rm_breakers = [], rm_policies = [], rm_custom = []\<rparr>"

text \<open>\<open>None\<close> is the \<open>ValueError\<close>.\<close>

definition add_circuit_breaker :: "string \<Rightarrow> breaker_config \<Rightarrow> recovery_manager \<Rightarrow> recovery_manager option" where
  "add_circuit_breaker name cfg m =
     (if map_of (rm_breakers m) name \<noteq> None then None
      else Some (m\<lparr>rm_breakers := rm_breakers m @ [(name, CircuitBreaker_init name cfg)]\<rparr>))"

definition get_circuit_breaker :: "string \<Rightarrow> recovery_manager \<Rightarrow> breaker option" where
  "get_circuit_breaker name m = map_of (rm_breakers m) name"

definition add_recovery_policy ::
    "string \<Rightarrow> recovery_policy \<Rightarrow> (nat \<Rightarrow> int \<times> ending) option \<Rightarrow> recovery_manager \<Rightarrow> recovery_manager option" where
  "add_recovery_policy operation policy custom m =
     (if policy = Custom \<and> custom = None then None
      else Some (m\<lparr>rm_policies := AList.update operation policy (rm_policies m),
                   rm_custom := (case custom of None \<Rightarrow> rm_custom m | Some f \<Rightarrow> AList.update operation f (rm_custom m))\<rparr>))"

definition execute_with_recovery ::
    "string \<Rightarrow> (nat \<Rightarrow> int \<times> ending) \<Rightarrow> string option \<Rightarrow> int \<Rightarrow> int \<Rightarrow> recovery_manager
       \<Rightarrow> result \<times> int \<times> recovery_manager \<times> report list" where
  "execute_with_recovery operation func name max_attempts now m =
     (let cb = (case name of None \<Rightarrow> None | Some n \<Rightarrow> if n = [] then None else get_circuit_breaker n m);
          policy = (case map_of (rm_policies m) operation of None \<Rightarrow> Immediate | Some p \<Rightarrow> p)
      in case recover_loop operation policy (map_of (rm_custom m) operation) func 0 (nat max_attempts) now cb of
           (r, now1, cb1, rs) \<Rightarrow>
             (r, now1,
              (case (name, cb1) of
                 (Some n, Some b) \<Rightarrow> m\<lparr>rm_breakers := AList.update n (b\<lparr>br_reports := []\<rparr>) (rm_breakers m)\<rparr>
               | _ \<Rightarrow> m),
              (case cb1 of None \<Rightarrow> [] | Some b \<Rightarrow> br_reports b) @ rs))"

definition reset_all_circuit_breakers :: "recovery_manager \<Rightarrow> recovery_manager" where
  "reset_all_circuit_breakers m = m\<lparr>rm_breakers := map (map_prod id reset_breaker) (rm_breakers m)\<rparr>"

record error_recovery =
  er_manager :: recovery_manager
  er_default :: breaker_config
  er_circuits :: "(string \<times> string) list"

definition PrinterErrorRecovery_init :: "breaker_config option \<Rightarrow> error_recovery" where
  "PrinterErrorRecovery_init cfg =
     \<lparr>er_manager = RecoveryManager_init,
      er_default = (case cfg of None \<Rightarrow> CircuitBreakerConfig_default | Some c \<Rightarrow> c), er_circuits = []\<rparr>"

definition add_operation_circuit :: "string \<Rightarrow> breaker_config option \<Rightarrow> error_recovery \<Rightarrow> error_recovery option" where
  "add_operation_circuit operation cfg e =
     map_option (\<lambda>m. e\<lparr>er_manager := m, er_circuits := AList.update operation (''circuit_'' @ operation) (er_circuits e)\<rparr>)
       (add_circuit_breaker (''circuit_'' @ operation) (case cfg of None \<Rightarrow> er_default e | Some c \<Rightarrow> c) (er_manager e))"

definition execute_operation ::
    "string \<Rightarrow> (nat \<Rightarrow> int \<times> ending) \<Rightarrow> bool \<Rightarrow> int \<Rightarrow> int \<Rightarrow> error_recovery
       \<Rightarrow> result \<times> int \<times> error_recovery \<times> report list" where
  "execute_operation operation func use_breaker max_attempts now e =
     (case execute_with_recovery operation func (if use_breaker then map_of (er_circuits e) operation else None)
             max_attempts now (er_manager e) of
        (r, now1, m, rs) \<Rightarrow>
          (r, now1, e\<lparr>er_manager := m\<rparr>,
           rs @ (case r of
                   Open_error x \<Rightarrow>
                     [Error_report ''circuit_open'' (''Circuit breaker open for operation '' @ quoted operation @ '': '' @ x)]
                 | Failed x \<Rightarrow>
                     [Error_report ''operation_failed''
                        (''Operation '' @ quoted operation @ '' failed after recovery attempts: '' @ x)]
                 | Was_cancelled \<Rightarrow> []
                 | _ \<Rightarrow> if max_attempts > 1 then [Recovery_report operation] else [])))"

definition get_operation_circuit :: "string \<Rightarrow> error_recovery \<Rightarrow> breaker option" where
  "get_operation_circuit operation e =
     (case map_of (er_circuits e) operation of
        None \<Rightarrow> None
      | Some n \<Rightarrow> if n = [] then None else get_circuit_breaker n (er_manager e))"

definition reset_operation_circuit :: "string \<Rightarrow> error_recovery \<Rightarrow> error_recovery" where
  "reset_operation_circuit operation e =
     (case (map_of (er_circuits e) operation, get_operation_circuit operation e) of
        (Some n, Some b) \<Rightarrow>
          e\<lparr>er_manager := (er_manager e)\<lparr>rm_breakers := AList.update n (reset_breaker b) (rm_breakers (er_manager e))\<rparr>\<rparr>
      | _ \<Rightarrow> e)"

text \<open>What the reporter makes of a report, at the wall clock's time.\<close>

definition deliver :: "int \<Rightarrow> report \<Rightarrow> reporter \<Rightarrow> reporter" where
  "deliver wall rp r =
     (case rp of
        Status_report s msg \<Rightarrow> update_status wall s msg r
      | Error_report k msg \<Rightarrow> report_error k msg r
      | Recovery_report op \<Rightarrow> report_recovery op r)"

end
