(* ===== verification/CircuitBreakerProps.thy ===== *)
theory CircuitBreakerProps
  imports CircuitBreaker
begin

text \<open>
  What the breaker keeps under any interleaving of calls, when a half-open breaker closes, and what the retries
  of the manager above it do to the time it stays open.
\<close>

section \<open>What every step keeps\<close>

text \<open>
  A breaker with the number of admitted calls still running. The lock makes an admission and a record one
  step each; calls run between them.
\<close>

inductive breaker_step :: "breaker \<times> nat \<Rightarrow> breaker \<times> nat \<Rightarrow> bool" where
  br_admit: "admit now b = (None, b') \<Longrightarrow> breaker_step (b, n) (b', Suc n)"
| br_refuse: "admit now b = (Some msg, b') \<Longrightarrow> breaker_step (b, n) (b', n)"
| br_end: "breaker_step (b, Suc n) (record_end now e b, n)"
| br_force: "breaker_step (b, n) (force_open now why b, n)"
| br_reset: "breaker_step (b, n) (reset_breaker b, n)"

inductive_cases breaker_stepE: "breaker_step s s'"

definition breaker_ok :: "breaker \<Rightarrow> bool" where
  "breaker_ok b \<longleftrightarrow>
     0 \<le> br_failures b \<and> 0 \<le> br_successes b \<and> 0 \<le> br_half_open_calls b \<and>
     (case br_state b of
        Closed \<Rightarrow> br_successes b = 0 \<and> (br_failures b = 0 \<or> br_failures b < failure_threshold (br_config b))
      | Open \<Rightarrow> br_successes b = 0 \<and> br_last_failure b \<noteq> None
      | Half_open \<Rightarrow> (br_successes b = 0 \<or> br_successes b < success_threshold (br_config b))
          \<and> br_half_open_calls b \<le> max 0 (half_open_max_calls (br_config b)) \<and> br_last_failure b \<noteq> None)"

lemmas breaker_defs = admit_def record_end_def record_success_def record_failure_def open_circuit_def
  close_circuit_def notify_state_change_def force_open_def reset_breaker_def should_attempt_recovery_def Let_def

lemma record_end_ok: "breaker_ok b \<Longrightarrow> breaker_ok (record_end now e b)"
  by (cases e; cases "br_state b") (auto simp: breaker_ok_def breaker_defs)

lemma admit_ok: "breaker_ok b \<Longrightarrow> breaker_ok (snd (admit now b))"
  by (cases "br_state b") (auto simp: breaker_ok_def breaker_defs split: option.split)

lemma breaker_step_ok: "breaker_step s s' \<Longrightarrow> breaker_ok (fst s) \<Longrightarrow> breaker_ok (fst s')"
proof (induction rule: breaker_step.induct)
  case (br_admit now b b' n)
  then show ?case using admit_ok [of b now] by simp
next
  case (br_refuse now b msg b' n)
  then show ?case using admit_ok [of b now] by simp
next
  case (br_end b n now e)
  then show ?case by (simp add: record_end_ok)
qed (auto simp: breaker_ok_def breaker_defs)

lemma breaker_steps_ok:
  assumes "breaker_step\<^sup>*\<^sup>* s s'" and "breaker_ok (fst s)"
  shows "breaker_ok (fst s')"
  using assms by (induction rule: rtranclp_induct) (auto intro: breaker_step_ok)

lemma CircuitBreaker_init_ok: "breaker_ok (CircuitBreaker_init name cfg)"
  by (simp add: breaker_ok_def CircuitBreaker_init_def)

section \<open>When a half-open breaker closes\<close>

text \<open>Calls one after the other, each at its time: the results and the breaker after them.\<close>

fun calls :: "(int \<times> int \<times> ending) list \<Rightarrow> breaker \<Rightarrow> result list \<times> breaker" where
  "calls [] b = ([], b)"
| "calls ((now, f) # cs) b =
     (case call now f None b of (r, now1, b1) \<Rightarrow> (case calls cs b1 of (rs, b2) \<Rightarrow> (r # rs, b2)))"

definition no_raise :: "(int \<times> int \<times> ending) list \<Rightarrow> bool" where
  "no_raise cs \<longleftrightarrow> list_all (\<lambda>(now, d, e). case e of Raises x \<Rightarrow> False | _ \<Rightarrow> True) cs"

definition returns :: "(int \<times> int \<times> ending) list \<Rightarrow> int" where
  "returns cs = int (length (filter (\<lambda>(now, d, e). e = Returns) cs))"

definition refused :: "result \<Rightarrow> bool" where
  "refused r = (case r of Open_error x \<Rightarrow> True | _ \<Rightarrow> False)"

lemma refused_Open_error [simp]: "refused (Open_error x)"
  by (simp add: refused_def)

lemma no_raise_Cons [simp]: "no_raise ((now, d, e) # cs) \<longleftrightarrow> (e = Returns \<or> e = Cancelled) \<and> no_raise cs"
  by (cases e) (auto simp: no_raise_def)

lemma returns_Nil [simp]: "returns [] = 0"
  by (simp add: returns_def)

lemma returns_Cons [simp]: "returns ((now, d, e) # cs) = (if e = Returns then 1 else 0) + returns cs"
  by (simp add: returns_def)

lemma returns_nonneg [simp]: "0 \<le> returns cs"
  by (simp add: returns_def)

lemma calls_closed:
  "br_state b = Closed \<Longrightarrow> no_raise cs \<Longrightarrow> br_state (snd (calls cs b)) = Closed"
proof (induction cs arbitrary: b)
  case (Cons c cs)
  obtain now d e where c: "c = (now, d, e)" by (cases c)
  then show ?case using Cons by (auto simp: call_def breaker_defs case_prod_unfold)
qed simp

text \<open>A half-open breaker with its calls used up refuses everything, for ever.\<close>

lemma calls_used_up:
  assumes "br_state b = Half_open" and "half_open_max_calls (br_config b) \<le> br_half_open_calls b"
  shows "br_state (snd (calls cs b)) = Half_open \<and> list_all refused (fst (calls cs b))"
  using assms
proof (induction cs arbitrary: b)
  case (Cons c cs)
  obtain now d e where c: "c = (now, d, e)" by (cases c)
  let ?b = "b\<lparr>br_total_calls := Suc (br_total_calls b)\<rparr>"
  have "br_state (snd (calls cs ?b)) = Half_open \<and> list_all refused (fst (calls cs ?b))"
    using Cons by simp
  then show ?case using Cons.prems c
    by (simp add: call_def admit_def Let_def case_prod_unfold)
qed simp

lemma call_half_open:
  assumes "br_state b = Half_open" and "br_half_open_calls b < half_open_max_calls (br_config b)"
  shows "snd (snd (call now (d, e) None b)) =
     record_end (now + d) e (b\<lparr>br_total_calls := Suc (br_total_calls b), br_half_open_calls := br_half_open_calls b + 1\<rparr>)"
  using assms by (simp add: call_def admit_def Let_def)

text \<open>A call of a half-open breaker that raises opens it again, until the timeout has passed since then.\<close>

lemma failing_call_reopens:
  assumes "br_state b = Half_open" and "br_half_open_calls b < half_open_max_calls (br_config b)"
    and "call now (d, Raises x) None b = (r, t, b')"
  shows "r = result_of (Raises x) \<and> br_state b' = Open \<and> br_successes b' = 0
       \<and> (should_attempt_recovery later b' \<longleftrightarrow> recovery_timeout (br_config b) \<le> later - (now + d))"
  using assms by (auto simp: call_def breaker_defs)

lemma half_open_closes:
  assumes "br_state b = Half_open" and "br_successes b < success_threshold (br_config b)" and "no_raise cs"
    and "m = nat (half_open_max_calls (br_config b) - br_half_open_calls b)"
  shows "(br_state (snd (calls cs b)) = Closed
            \<longleftrightarrow> success_threshold (br_config b) \<le> br_successes b + returns (take m cs))
       \<and> (br_state (snd (calls cs b)) \<noteq> Closed \<longrightarrow> m \<le> length cs \<longrightarrow>
            br_state (snd (calls cs b)) = Half_open
            \<and> half_open_max_calls (br_config (snd (calls cs b))) \<le> br_half_open_calls (snd (calls cs b)))"
  using assms
proof (induction cs arbitrary: b m)
  case (Cons c cs)
  obtain now d e where c: "c = (now, d, e)" by (cases c)
  show ?case
  proof (cases "br_half_open_calls b < half_open_max_calls (br_config b)")
    case False
    then have m: "m = 0" using Cons.prems(4) by simp
    let ?b = "b\<lparr>br_total_calls := Suc (br_total_calls b)\<rparr>"
    have "snd (calls (c # cs) b) = snd (calls cs ?b)"
      using False Cons.prems(1) c by (simp add: call_def admit_def Let_def case_prod_unfold)
    then show ?thesis
      using Cons.IH [of ?b 0] Cons.prems False m c by (simp del: calls.simps)
  next
    case True
    define a where "a = b\<lparr>br_total_calls := Suc (br_total_calls b), br_half_open_calls := br_half_open_calls b + 1\<rparr>"
    define b' where "b' = record_end (now + d) e a"
    have step: "snd (calls (c # cs) b) = snd (calls cs b')"
      using call_half_open [OF Cons.prems(1) True, of now d e] c
      by (simp add: case_prod_unfold a_def b'_def)
    obtain k where m: "m = Suc k" "k = nat (half_open_max_calls (br_config b) - (br_half_open_calls b + 1))"
      using True Cons.prems(4) by (metis Suc_nat_eq_nat_zadd1 diff_add_eq_diff_diff_swap diff_ge_0_iff_ge
          add.commute diff_add_cancel zle_add1_eq_le add_le_imp_le_diff)
    have e: "e = Returns \<or> e = Cancelled" and nr: "no_raise cs" using Cons.prems(3) c by auto
    consider (close) "e = Returns" "success_threshold (br_config b) \<le> br_successes b + 1"
      | (stay) "e = Cancelled \<or> br_successes b + 1 < success_threshold (br_config b)"
      using e by fastforce
    then show ?thesis
    proof cases
      case close
      then have "br_state b' = Closed"
        using Cons.prems(1) by (simp add: b'_def a_def breaker_defs)
      then have "br_state (snd (calls cs b')) = Closed" using nr by (rule calls_closed)
      then show ?thesis using close c m step returns_nonneg [of "take k cs"]
        by (simp del: calls.simps returns_nonneg)
    next
      case stay
      then have b': "br_state b' = Half_open" "br_config b' = br_config b"
        "br_half_open_calls b' = br_half_open_calls b + 1"
        "br_successes b' = br_successes b + (if e = Returns then 1 else 0)"
        using e Cons.prems(1) by (auto simp: b'_def a_def breaker_defs)
      then have "br_successes b' < success_threshold (br_config b')" using stay Cons.prems(2) by auto
      note ih = Cons.IH [OF b'(1) this nr, of k]
      show ?thesis using ih b' c m step by (simp add: add.assoc del: calls.simps)
    qed
  qed
qed auto

text \<open>
  C32. A breaker that is open and whose timeout has passed, called one call after the other by callers whose
  function does not raise: it closes exactly when enough of the first \<open>half_open_max_calls\<close> calls return. A
  call that is cancelled takes one of them and is never counted. Where too few of them return, and none of them raises,
  it is stuck: when they are used up it refuses every call from then on, whenever it comes and whatever the
  function would do. A call that raises while it is half open opens it again (\<open>failing_call_reopens\<close>), so
  after such a call it can recover.
\<close>

theorem recovery_iff:
  assumes "br_state b = Open" and "br_successes b = 0" and "should_attempt_recovery now b"
    and "0 < success_threshold (br_config b)" and "no_raise ((now, f) # cs)"
  shows "(br_state (snd (calls ((now, f) # cs) b)) = Closed
            \<longleftrightarrow> success_threshold (br_config b)
                \<le> returns (take (nat (half_open_max_calls (br_config b))) ((now, f) # cs)))
       \<and> (br_state (snd (calls ((now, f) # cs) b)) \<noteq> Closed \<longrightarrow>
            half_open_max_calls (br_config b) \<le> int (length ((now, f) # cs)) \<longrightarrow>
            (\<forall>later. list_all refused (fst (calls later (snd (calls ((now, f) # cs) b))))))"
proof -
  let ?h = "notify_state_change ''Entering half-open state for recovery'' (b\<lparr>br_state := Half_open, br_half_open_calls := 0\<rparr>)"
  have "call now f None b = call now f None ?h"
    using assms(1,3) by (cases f; cases b) (simp add: call_def admit_def Let_def notify_state_change_def should_attempt_recovery_def
        split: option.splits)
  then have c: "calls ((now, f) # cs) b = calls ((now, f) # cs) ?h" by simp
  have h: "br_state ?h = Half_open" "br_successes ?h = 0" "br_config ?h = br_config b" "br_half_open_calls ?h = 0"
    using assms(2) by (simp_all add: notify_state_change_def)
  have "br_successes ?h < success_threshold (br_config ?h)" using assms(4) h by simp
  note closes = half_open_closes [OF h(1) this assms(5) refl]
  show ?thesis
    unfolding c using closes calls_used_up h by (auto simp del: calls.simps)
qed

definition demo_breaker :: breaker where
  "demo_breaker = force_open 0 ''down'' (CircuitBreaker_init ''print'' CircuitBreakerConfig_default)"

theorem recovery_iff_witness:
  "br_state (snd (calls [(60000, 5, Returns), (60010, 5, Returns), (60020, 5, Returns)] demo_breaker)) = Closed \<and>
   br_state (snd (calls [(60000, 5, Returns), (60010, 5, Cancelled), (60020, 5, Returns)] demo_breaker)) \<noteq> Closed \<and>
   list_all refused (fst (calls [(900000, 5, Returns), (9000000, 5, Returns)]
     (snd (calls [(60000, 5, Returns), (60010, 5, Cancelled), (60020, 5, Returns)] demo_breaker))))"
proof -
  have b: "br_state demo_breaker = Open" "br_successes demo_breaker = 0" "should_attempt_recovery 60000 demo_breaker"
    "0 < success_threshold (br_config demo_breaker)" "half_open_max_calls (br_config demo_breaker) = 3"
    "success_threshold (br_config demo_breaker) = 3"
    by (simp_all add: demo_breaker_def breaker_defs CircuitBreaker_init_def CircuitBreakerConfig_default_def)
  have n: "no_raise [(60000, 5, Returns), (60010, 5, Returns), (60020, 5, Returns)]"
    "no_raise [(60000, 5, Returns), (60010, 5, Cancelled), (60020, 5, Returns)]"
    by (simp_all add: no_raise_def)
  show ?thesis
    using recovery_iff [OF b(1-4) n(1)] recovery_iff [OF b(1-4) n(2)] b(5,6)
    by (simp del: calls.simps add: numeral_3_eq_3)
qed

section \<open>Retries against an open breaker\<close>

text \<open>How long the manager waits between the attempts: after each but the last.\<close>

definition waits :: "recovery_policy \<Rightarrow> nat \<Rightarrow> nat \<Rightarrow> int" where
  "waits policy i k = sum_list (map (\<lambda>j. fst (apply_recovery_policy policy None j)) [i..<i + k])"

lemma waits_0 [simp]: "waits policy i 0 = 0"
  by (simp add: waits_def)

lemma waits_Suc: "waits policy i (Suc k) = fst (apply_recovery_policy policy None i) + waits policy (Suc i) k"
  by (simp add: waits_def upt_rec)

lemma policy_no_custom: "policy \<noteq> Custom \<Longrightarrow>
    apply_recovery_policy policy custom i = (fst (apply_recovery_policy policy None i), Returns)
    \<and> 0 \<le> fst (apply_recovery_policy policy None i)"
  by (cases policy) (auto simp: apply_recovery_policy_def)

lemma waits_nonneg: "policy \<noteq> Custom \<Longrightarrow> 0 \<le> waits policy i k"
proof (induction k arbitrary: i)
  case (Suc k)
  then show ?case using policy_no_custom [of policy None i] by (simp add: waits_Suc)
qed simp

lemma call_too_early:
  assumes "br_state b = Open" and "br_last_failure b = Some t" and "now < t + recovery_timeout (br_config b)"
  shows "\<exists>msg. call now f None b = (Open_error msg, now, b\<lparr>br_total_calls := Suc (br_total_calls b)\<rparr>)"
  using assms by (simp add: call_def admit_def should_attempt_recovery_def Let_def)

lemma recover_loop_refused:
  assumes "br_state b = Open" and "br_last_failure b = Some t" and "policy \<noteq> Custom"
    and "now + waits policy i k < t + recovery_timeout (br_config b)"
  shows "\<exists>msg b' rs. recover_loop operation policy custom func i (Suc k) now (Some b)
             = (Open_error msg, now + waits policy i k, Some b', rs)
           \<and> br_state b' = Open \<and> br_last_failure b' = Some (now + waits policy i k)
           \<and> br_config b' = br_config b \<and> br_total_failures b' = br_total_failures b
           \<and> br_total_successes b' = br_total_successes b"
  using assms
proof (induction k arbitrary: i now b)
  case 0
  then obtain msg where "call now (func i) None b = (Open_error msg, now, b\<lparr>br_total_calls := Suc (br_total_calls b)\<rparr>)"
    using call_too_early [of b t now] by fastforce
  then show ?case using 0
    by (simp add: attempt_once_def is_exception_def force_open_def notify_state_change_def)
next
  case (Suc k)
  let ?b = "b\<lparr>br_total_calls := Suc (br_total_calls b)\<rparr>" and ?d = "fst (apply_recovery_policy policy None i)"
  have "0 \<le> waits policy i (Suc k)" using waits_nonneg [OF Suc.prems(3)] .
  then obtain msg where c: "call now (func i) None b = (Open_error msg, now, ?b)"
    using call_too_early [of b t now] Suc.prems by fastforce
  have p: "apply_recovery_policy policy custom i = (?d, Returns)" using policy_no_custom [OF Suc.prems(3)] by blast
  have "recover_loop operation policy custom func i (Suc (Suc k)) now (Some b)
      = recover_loop operation policy custom func (Suc i) (Suc k) (now + ?d) (Some ?b)"
    using c p by (simp add: attempt_once_def is_exception_def)
  with Suc.IH [of ?b "now + ?d" "Suc i"] Suc.prems show ?case
    by (simp add: waits_Suc add.assoc)
qed

text \<open>Callers of \<open>execute_with_recovery\<close>, one after the other.\<close>

fun callers ::
    "string \<Rightarrow> (nat \<Rightarrow> int \<times> ending) \<Rightarrow> string \<Rightarrow> int \<Rightarrow> int list \<Rightarrow> recovery_manager \<Rightarrow> result list \<times> recovery_manager" where
  "callers operation func name attempts [] m = ([], m)"
| "callers operation func name attempts (now # ts) m =
     (case execute_with_recovery operation func (Some name) attempts now m of
        (r, now1, m1, rs) \<Rightarrow> (case callers operation func name attempts ts m1 of (out, m2) \<Rightarrow> (r # out, m2)))"

definition policy_of :: "string \<Rightarrow> recovery_manager \<Rightarrow> recovery_policy" where
  "policy_of operation m = (case map_of (rm_policies m) operation of None \<Rightarrow> Immediate | Some p \<Rightarrow> p)"

lemma execute_refused:
  assumes "get_circuit_breaker name m = Some b" and "name \<noteq> []" and "br_state b = Open"
    and "br_last_failure b = Some t" and "policy_of operation m \<noteq> Custom" and "0 < attempts"
    and "now + waits (policy_of operation m) 0 (nat attempts - 1) < t + recovery_timeout (br_config b)"
  shows "\<exists>msg rs m' b'. execute_with_recovery operation func (Some name) attempts now m
             = (Open_error msg, now + waits (policy_of operation m) 0 (nat attempts - 1), m', rs)
           \<and> get_circuit_breaker name m' = Some b' \<and> br_state b' = Open
           \<and> br_last_failure b' = Some (now + waits (policy_of operation m) 0 (nat attempts - 1))
           \<and> br_config b' = br_config b \<and> policy_of operation m' = policy_of operation m
           \<and> br_total_failures b' = br_total_failures b \<and> br_total_successes b' = br_total_successes b"
proof -
  have k: "nat attempts = Suc (nat attempts - 1)" using assms(6) by simp
  obtain msg b' rs where l: "recover_loop operation (policy_of operation m) (map_of (rm_custom m) operation) func 0
       (nat attempts) now (Some b)
       = (Open_error msg, now + waits (policy_of operation m) 0 (nat attempts - 1), Some b', rs)"
    "br_state b' = Open" "br_last_failure b' = Some (now + waits (policy_of operation m) 0 (nat attempts - 1))"
    "br_config b' = br_config b" "br_total_failures b' = br_total_failures b"
    "br_total_successes b' = br_total_successes b"
    using recover_loop_refused [OF assms(3,4,5,7), of operation "map_of (rm_custom m) operation" func, folded k]
    by blast
  define m' where "m' = m\<lparr>rm_breakers := AList.update name (b'\<lparr>br_reports := []\<rparr>) (rm_breakers m)\<rparr>"
  have "execute_with_recovery operation func (Some name) attempts now m
      = (Open_error msg, now + waits (policy_of operation m) 0 (nat attempts - 1), m', br_reports b' @ rs)"
    using l(1) assms(1,2) by (simp add: execute_with_recovery_def m'_def policy_of_def)
  moreover have "get_circuit_breaker name m' = Some (b'\<lparr>br_reports := []\<rparr>)"
    by (simp add: m'_def get_circuit_breaker_def update_conv)
  moreover have "policy_of operation m' = policy_of operation m" by (simp add: m'_def policy_of_def)
  ultimately show ?thesis using l by auto
qed

text \<open>
  The manager forces the breaker open after the last attempt of every execution, the executions among
  them whose attempts were all refused: as long as the executions end less than a timeout apart, the breaker
  stays open and the function is not run again, however long ago the last failure was.
\<close>

lemma retries_keep_breaker_open:
  assumes "get_circuit_breaker name m = Some b" and "name \<noteq> []" and "br_state b = Open"
    and "br_last_failure b = Some t" and "policy_of operation m \<noteq> Custom" and "0 < attempts"
    and "successively (\<lambda>s u. u < s + recovery_timeout (br_config b))
           (t # map (\<lambda>now. now + waits (policy_of operation m) 0 (nat attempts - 1)) ts)"
  shows "list_all refused (fst (callers operation func name attempts ts m))
       \<and> (\<exists>b'. get_circuit_breaker name (snd (callers operation func name attempts ts m)) = Some b' \<and> br_state b' = Open
            \<and> br_total_failures b' = br_total_failures b \<and> br_total_successes b' = br_total_successes b)"
  using assms
proof (induction ts arbitrary: m b t)
  case (Cons now ts)
  let ?w = "waits (policy_of operation m) 0 (nat attempts - 1)"
  have "now + ?w < t + recovery_timeout (br_config b)" using Cons.prems(7) by simp
  from execute_refused [OF Cons.prems(1-6) this, of func]
  obtain msg rs m' b' where s: "execute_with_recovery operation func (Some name) attempts now m
         = (Open_error msg, now + ?w, m', rs)"
    "get_circuit_breaker name m' = Some b'" "br_state b' = Open" "br_last_failure b' = Some (now + ?w)"
    "br_config b' = br_config b" "policy_of operation m' = policy_of operation m"
    "br_total_failures b' = br_total_failures b" "br_total_successes b' = br_total_successes b"
    by blast
  show ?case
    using Cons.IH [OF s(2) Cons.prems(2) s(3,4)] Cons.prems s(1,5-8)
    by (simp add: case_prod_unfold)
qed simp

definition demo_manager :: recovery_manager where
  "demo_manager = RecoveryManager_init\<lparr>rm_breakers := [(''circuit_print'', demo_breaker)]\<rparr>"

end
