(* ===== verification/PrinterPool.thy ===== *)
theory PrinterPool
  imports PyText "HOL-Library.AList"
begin

text \<open>
  \<open>protocol/tcpip_printer_session.py\<close>, \<open>tcpip_connection_pool.py\<close> and
  \<open>tcpip_printer_session_manager.py\<close>: printer sessions over TCP, the pool that keeps them and the manager
  above it. Sessions are shared objects: a store maps addresses to them, and the pool and the manager hold
  addresses. The locks make each operation one step. What the network does is an argument: how a connection
  attempt ends, which handlers are connected and which of them close without an exception.
\<close>

section \<open>A session\<close>

datatype session_state = DISCONNECTED | CONNECTING | NEGOTIATING | CONNECTED | ACTIVE | ERROR | CLOSING

datatype tcp_error = RuntimeError | Connect_failed | Cancelled_error | Transfer_failed

record tcp_session =
  tp_host :: string
  tp_port :: nat
  tp_id :: string
  tp_state :: session_state
  tp_activity :: int
  tp_errors :: nat
  tp_handler :: bool
  tp_lu_name :: "string option"
  tp_device_type :: "string option"
  tp_status :: "int option"

definition TCPIPPrinterSession_init :: "int \<Rightarrow> nat \<Rightarrow> string \<Rightarrow> nat \<Rightarrow> string option \<Rightarrow> tcp_session" where
  "TCPIPPrinterSession_init now addr host port sid =
     \<lparr>tp_host = host, tp_port = port,
      tp_id = (case sid of None \<Rightarrow> ''printer_'' @ decimal_text addr
               | Some i \<Rightarrow> if i = [] then ''printer_'' @ decimal_text addr else i),
      tp_state = DISCONNECTED, tp_activity = now, tp_errors = 0, tp_handler = False,
      tp_lu_name = None, tp_device_type = None, tp_status = None\<rparr>"

definition set_session_state :: "int \<Rightarrow> session_state \<Rightarrow> tcp_session \<Rightarrow> tcp_session" where
  "set_session_state now st s = s\<lparr>tp_state := st, tp_activity := now\<rparr>"

text \<open>
  How an attempt to connect ends: in the setup of the socket, in the negotiation, well, with the name of the
  LU, the device type and the status, or cancelled from outside in one of the two waits.
\<close>

datatype dialled =
    Setup_fails | Negotiation_fails | Negotiated "string option" "string option" "int option"
  | Cancelled_in_setup | Cancelled_in_negotiation

definition connect_session :: "int \<Rightarrow> dialled \<Rightarrow> tcp_session \<Rightarrow> tcp_error option \<times> tcp_session" where
  "connect_session now dial s =
     (if tp_state s \<noteq> DISCONNECTED then (None, s)
      else let s1 = set_session_state now CONNECTING s;
               s2 = set_session_state now NEGOTIATING (s1\<lparr>tp_handler := True\<rparr>)
           in case dial of
                Setup_fails \<Rightarrow> (Some Connect_failed, set_session_state now ERROR s1)
              | Negotiation_fails \<Rightarrow> (Some Connect_failed, set_session_state now ERROR s2)
              | Negotiated lu dev st \<Rightarrow>
                  (None, (set_session_state now CONNECTED s2)\<lparr>tp_lu_name := lu, tp_device_type := dev, tp_status := st\<rparr>)
              | Cancelled_in_setup \<Rightarrow> (Some Cancelled_error, s1)
              | Cancelled_in_negotiation \<Rightarrow> (Some Cancelled_error, s2))"

definition activate_session :: "int \<Rightarrow> tcp_session \<Rightarrow> tcp_error option \<times> tcp_session" where
  "activate_session now s =
     (if tp_state s \<noteq> CONNECTED then (Some RuntimeError, s) else (None, set_session_state now ACTIVE s))"

datatype transfer = Done_well | Raises_error | Timed_out

text \<open>
  A time out of the caller's is a cancellation in here, which is no \<open>Exception\<close>; the session's own time out
  is one.
\<close>

definition send_print_data :: "int \<Rightarrow> transfer \<Rightarrow> tcp_session \<Rightarrow> tcp_error option \<times> tcp_session" where
  "send_print_data now tr s =
     (if tp_state s \<noteq> ACTIVE \<or> \<not> tp_handler s then (Some RuntimeError, s)
      else case tr of
             Done_well \<Rightarrow> (None, s\<lparr>tp_activity := now\<rparr>)
           | Raises_error \<Rightarrow> (Some Transfer_failed, set_session_state now ERROR (s\<lparr>tp_errors := Suc (tp_errors s)\<rparr>))
           | Timed_out \<Rightarrow> (Some Cancelled_error, s))"

definition send_printer_status :: "int \<Rightarrow> transfer \<Rightarrow> int \<Rightarrow> tcp_session \<Rightarrow> tcp_error option \<times> tcp_session" where
  "send_printer_status now tr code s =
     (if tp_state s \<noteq> ACTIVE \<or> \<not> tp_handler s then (Some RuntimeError, s)
      else case tr of
             Done_well \<Rightarrow> (None, s\<lparr>tp_status := Some code, tp_activity := now\<rparr>)
           | Raises_error \<Rightarrow> (Some Transfer_failed, s\<lparr>tp_errors := Suc (tp_errors s)\<rparr>)
           | Timed_out \<Rightarrow> (Some Cancelled_error, s))"

definition receive_session_data :: "int \<Rightarrow> transfer \<Rightarrow> tcp_session \<Rightarrow> tcp_error option \<times> tcp_session" where
  "receive_session_data now tr s =
     (if tp_state s \<noteq> ACTIVE \<or> \<not> tp_handler s then (Some RuntimeError, s)
      else case tr of
             Done_well \<Rightarrow> (None, s\<lparr>tp_activity := now\<rparr>)
           | Raises_error \<Rightarrow> (Some Transfer_failed, s\<lparr>tp_errors := Suc (tp_errors s)\<rparr>)
           | Timed_out \<Rightarrow> (Some Cancelled_error, s))"

text \<open>\<open>True\<close> for a close that does not raise.\<close>

definition close_session :: "int \<Rightarrow> bool \<Rightarrow> tcp_session \<Rightarrow> bool \<times> tcp_session" where
  "close_session now ok s =
     (if tp_state s \<in> {DISCONNECTED, CLOSING} then (True, s)
      else if ok then (True, set_session_state now DISCONNECTED s)
      else (False, set_session_state now ERROR s))"

section \<open>The pool\<close>

type_synonym conn_table = "(string \<times> nat list) list"

record pool =
  cp_max :: nat
  cp_per_host :: nat
  cp_idle_timeout :: int
  cp_store :: "nat \<Rightarrow> tcp_session"
  cp_free :: nat
  cp_active :: conn_table
  cp_idle :: conn_table
  cp_all :: "nat set"
  cp_created :: nat
  cp_destroyed :: nat
  cp_borrowed :: nat
  cp_returned :: nat
  cp_running :: bool

text \<open>The outside world in one operation: the handlers that are connected, and those that close well.\<close>

record wires =
  w_connected :: "nat \<Rightarrow> bool"
  w_closes :: "nat \<Rightarrow> bool"

definition TCPIPConnectionPool_init :: "nat \<Rightarrow> nat \<Rightarrow> int \<Rightarrow> pool" where
  "TCPIPConnectionPool_init limit per_host idle_timeout =
     \<lparr>cp_max = limit, cp_per_host = per_host, cp_idle_timeout = idle_timeout,
      cp_store = (\<lambda>a. TCPIPPrinterSession_init 0 a [] 0 None), cp_free = 0,
      cp_active = [], cp_idle = [], cp_all = {}, cp_created = 0, cp_destroyed = 0, cp_borrowed = 0,
      cp_returned = 0, cp_running = False\<rparr>"

definition host_key :: "string \<Rightarrow> nat \<Rightarrow> string" where
  "host_key host port = host @ '':'' @ decimal_text port"

definition key_of :: "tcp_session \<Rightarrow> string" where
  "key_of s = host_key (tp_host s) (tp_port s)"

definition conns :: "string \<Rightarrow> conn_table \<Rightarrow> nat list" where
  "conns k d = (case map_of d k of None \<Rightarrow> [] | Some xs \<Rightarrow> xs)"

definition add_conn :: "string \<Rightarrow> nat \<Rightarrow> conn_table \<Rightarrow> conn_table" where
  "add_conn k a d = AList.update k (conns k d @ [a]) d"

definition drop_conn :: "string \<Rightarrow> nat \<Rightarrow> conn_table \<Rightarrow> conn_table" where
  "drop_conn k a d = (if a \<in> set (conns k d) then AList.update k (remove1 a (conns k d)) d else d)"

definition table_size :: "conn_table \<Rightarrow> nat" where
  "table_size d = sum_list (map (length \<circ> snd) d)"

definition store_session :: "nat \<Rightarrow> tcp_session \<Rightarrow> pool \<Rightarrow> pool" where
  "store_session a s p = p\<lparr>cp_store := (cp_store p)(a := s)\<rparr>"

definition new_session :: "int \<Rightarrow> string \<Rightarrow> nat \<Rightarrow> string option \<Rightarrow> pool \<Rightarrow> nat \<times> pool" where
  "new_session now host port sid p =
     (cp_free p, store_session (cp_free p) (TCPIPPrinterSession_init now (cp_free p) host port sid)
        (p\<lparr>cp_free := Suc (cp_free p)\<rparr>))"

definition is_connection_healthy :: "wires \<Rightarrow> nat \<Rightarrow> pool \<Rightarrow> bool" where
  "is_connection_healthy w a p =
     (let s = cp_store p a in tp_state s = ACTIVE \<and> (tp_handler s \<longrightarrow> w_connected w a) \<and> tp_errors s \<le> 5)"

definition destroy_connection :: "wires \<Rightarrow> int \<Rightarrow> nat \<Rightarrow> pool \<Rightarrow> pool" where
  "destroy_connection w now a p =
     (let s = snd (close_session now (w_closes w a) (cp_store p a)); k = key_of s
      in store_session a s
           (p\<lparr>cp_active := drop_conn k a (cp_active p), cp_idle := drop_conn k a (cp_idle p),
              cp_all := cp_all p - {a}, cp_destroyed := Suc (cp_destroyed p)\<rparr>))"

definition open_connection ::
    "wires \<Rightarrow> int \<Rightarrow> dialled \<Rightarrow> string \<Rightarrow> nat \<Rightarrow> string option \<Rightarrow> pool \<Rightarrow> (tcp_error + nat) \<times> pool" where
  "open_connection w now dial host port sid p =
     (case new_session now host port sid p of
        (a, p1) \<Rightarrow>
          (case connect_session now dial (cp_store p1 a) of
             (Some Cancelled_error, s) \<Rightarrow> (Inl Cancelled_error, store_session a s p1)
           | (Some e, s) \<Rightarrow> (Inl e, destroy_connection w now a (store_session a s p1))
           | (None, s) \<Rightarrow>
               (case activate_session now s of
                  (Some e, s1) \<Rightarrow> (Inl e, destroy_connection w now a (store_session a s1 p1))
                | (None, s1) \<Rightarrow>
                    (Inr a, store_session a s1
                       (p1\<lparr>cp_active := add_conn (host_key host port) a (cp_active p1), cp_all := insert a (cp_all p1),
                          cp_created := Suc (cp_created p1), cp_borrowed := Suc (cp_borrowed p1)\<rparr>)))))"

definition borrow_connection ::
    "wires \<Rightarrow> int \<Rightarrow> dialled \<Rightarrow> string \<Rightarrow> nat \<Rightarrow> string option \<Rightarrow> pool \<Rightarrow> (tcp_error + nat) \<times> pool" where
  "borrow_connection w now dial host port sid p =
     (let k = host_key host port; idle = conns k (cp_idle p)
      in if table_size (cp_active p) \<ge> cp_max p then (Inl RuntimeError, p)
         else if length (conns k (cp_active p)) \<ge> cp_per_host p then (Inl RuntimeError, p)
         else if idle = [] then open_connection w now dial host port sid p
         else let a = last idle;
                  p1 = p\<lparr>cp_idle := AList.update k (butlast idle) (cp_idle p)\<rparr>
              in if is_connection_healthy w a p1
                 then (Inr a, p1\<lparr>cp_active := add_conn k a (cp_active p1), cp_borrowed := Suc (cp_borrowed p1)\<rparr>)
                 else open_connection w now dial host port sid (destroy_connection w now a p1))"

definition return_connection :: "wires \<Rightarrow> int \<Rightarrow> nat \<Rightarrow> pool \<Rightarrow> pool" where
  "return_connection w now a p =
     (let k = key_of (cp_store p a);
          p1 = p\<lparr>cp_active := drop_conn k a (cp_active p)\<rparr>
      in if is_connection_healthy w a p1
         then p1\<lparr>cp_idle := add_conn k a (cp_idle p1), cp_returned := Suc (cp_returned p1)\<rparr>
         else destroy_connection w now a p1)"

text \<open>
  A round of the two background tasks: every idle connection for which \<open>keep\<close> fails is taken off its list,
  then they are destroyed.
\<close>

definition weed_idle :: "(nat \<Rightarrow> bool) \<Rightarrow> wires \<Rightarrow> int \<Rightarrow> pool \<Rightarrow> pool" where
  "weed_idle keep w now p =
     fold (destroy_connection w now) (concat (map (\<lambda>(k, xs). filter (\<lambda>a. \<not> keep a) xs) (cp_idle p)))
       (p\<lparr>cp_idle := map (\<lambda>(k, xs). (k, filter keep xs)) (cp_idle p)\<rparr>)"

definition perform_health_checks :: "wires \<Rightarrow> int \<Rightarrow> pool \<Rightarrow> pool" where
  "perform_health_checks w now p = weed_idle (\<lambda>a. is_connection_healthy w a p) w now p"

definition perform_cleanup :: "wires \<Rightarrow> int \<Rightarrow> pool \<Rightarrow> pool" where
  "perform_cleanup w now p =
     weed_idle (\<lambda>a. now - tp_activity (cp_store p a) \<le> cp_idle_timeout p) w now p"

definition pool_start :: "pool \<Rightarrow> pool" where
  "pool_start p = p\<lparr>cp_running := True\<rparr>"

definition pool_stop :: "wires \<Rightarrow> int \<Rightarrow> pool \<Rightarrow> pool" where
  "pool_stop w now p =
     (if \<not> cp_running p then p
      else p\<lparr>cp_running := False,
             cp_store := (\<lambda>a. if a \<in> cp_all p then snd (close_session now (w_closes w a) (cp_store p a)) else cp_store p a),
             cp_active := [], cp_idle := [], cp_all := {}\<rparr>)"

section \<open>The manager\<close>

text \<open>
  The manager makes its pool at its first start and keeps it afterwards; here the pool is there from the
  beginning, not running.
\<close>

record manager =
  mg_pool :: pool
  mg_sessions :: "(string \<times> nat) list"
  mg_started :: bool

definition TCPIPPrinterSessionManager_init :: "nat \<Rightarrow> nat \<Rightarrow> int \<Rightarrow> manager" where
  "TCPIPPrinterSessionManager_init limit per_host idle_timeout =
     \<lparr>mg_pool = TCPIPConnectionPool_init limit per_host idle_timeout, mg_sessions = [], mg_started = False\<rparr>"

definition manager_start :: "manager \<Rightarrow> tcp_error option \<times> manager" where
  "manager_start m =
     (if mg_started m then (Some RuntimeError, m)
      else (None, m\<lparr>mg_pool := pool_start (mg_pool m), mg_started := True\<rparr>))"

definition close_session_safe :: "wires \<Rightarrow> int \<Rightarrow> nat \<Rightarrow> pool \<Rightarrow> pool" where
  "close_session_safe w now a p = store_session a (snd (close_session now (w_closes w a) (cp_store p a))) p"

definition manager_stop :: "wires \<Rightarrow> int \<Rightarrow> manager \<Rightarrow> tcp_error option \<times> manager" where
  "manager_stop w now m =
     (if \<not> mg_started m then (Some RuntimeError, m)
      else (None, m\<lparr>mg_pool := pool_stop w now (fold (close_session_safe w now) (map snd (mg_sessions m)) (mg_pool m)),
                    mg_sessions := [], mg_started := False\<rparr>))"

text \<open>
  A connection is borrowed and connected, and a second session object, the one that is kept, is made beside
  it. Every error comes out as a \<open>RuntimeError\<close>.
\<close>

definition create_printer_session ::
    "wires \<Rightarrow> int \<Rightarrow> dialled \<Rightarrow> string \<Rightarrow> nat \<Rightarrow> string option \<Rightarrow> manager \<Rightarrow> (tcp_error + string) \<times> manager" where
  "create_printer_session w now dial host port sid m =
     (if \<not> mg_started m then (Inl RuntimeError, m)
      else case borrow_connection w now dial host port None (mg_pool m) of
             (Inl e, p) \<Rightarrow> (Inl RuntimeError, m\<lparr>mg_pool := p\<rparr>)
           | (Inr borrowed, p) \<Rightarrow>
               (case new_session now host port sid p of
                  (a, p1) \<Rightarrow>
                    (Inr (tp_id (cp_store p1 a)),
                     m\<lparr>mg_pool := p1, mg_sessions := AList.update (tp_id (cp_store p1 a)) a (mg_sessions m)\<rparr>)))"

definition get_printer_session :: "string \<Rightarrow> manager \<Rightarrow> tcp_error + nat" where
  "get_printer_session sid m =
     (case map_of (mg_sessions m) sid of
        None \<Rightarrow> Inl RuntimeError
      | Some a \<Rightarrow> if tp_state (cp_store (mg_pool m) a) \<noteq> ACTIVE then Inl RuntimeError else Inr a)"

definition handle_session_error :: "wires \<Rightarrow> int \<Rightarrow> nat \<Rightarrow> manager \<Rightarrow> manager" where
  "handle_session_error w now a m =
     (let s = set_session_state now ERROR (cp_store (mg_pool m) a)
      in m\<lparr>mg_sessions := AList.delete (tp_id s) (mg_sessions m),
           mg_pool := return_connection w now a (store_session a s (mg_pool m))\<rparr>)"

definition through_session ::
    "(tcp_session \<Rightarrow> tcp_error option \<times> tcp_session) \<Rightarrow> (tcp_error \<Rightarrow> tcp_error) \<Rightarrow> wires \<Rightarrow> int \<Rightarrow> string \<Rightarrow> manager
       \<Rightarrow> tcp_error option \<times> manager" where
  "through_session f as_error w now sid m =
     (case get_printer_session sid m of
        Inl e \<Rightarrow> (Some e, m)
      | Inr a \<Rightarrow>
          (case f (cp_store (mg_pool m) a) of
             (None, s) \<Rightarrow> (None, m\<lparr>mg_pool := store_session a s (mg_pool m)\<rparr>)
           | (Some e, s) \<Rightarrow> (Some (as_error e), handle_session_error w now a (m\<lparr>mg_pool := store_session a s (mg_pool m)\<rparr>))))"

definition send_print_job :: "wires \<Rightarrow> int \<Rightarrow> transfer \<Rightarrow> string \<Rightarrow> manager \<Rightarrow> tcp_error option \<times> manager" where
  "send_print_job w now tr = through_session (send_print_data now tr) (\<lambda>e. RuntimeError) w now"

definition manager_send_status :: "wires \<Rightarrow> int \<Rightarrow> transfer \<Rightarrow> int \<Rightarrow> string \<Rightarrow> manager \<Rightarrow> tcp_error option \<times> manager" where
  "manager_send_status w now tr code = through_session (send_printer_status now tr code) (\<lambda>e. e) w now"

definition receive_printer_data :: "wires \<Rightarrow> int \<Rightarrow> transfer \<Rightarrow> string \<Rightarrow> manager \<Rightarrow> tcp_error option \<times> manager" where
  "receive_printer_data w now tr = through_session (receive_session_data now tr) (\<lambda>e. e) w now"

definition close_printer_session :: "wires \<Rightarrow> int \<Rightarrow> string \<Rightarrow> manager \<Rightarrow> tcp_error option \<times> manager" where
  "close_printer_session w now sid m =
     (case map_of (mg_sessions m) sid of
        None \<Rightarrow> (Some RuntimeError, m)
      | Some a \<Rightarrow>
          (None, m\<lparr>mg_sessions := AList.delete sid (mg_sessions m),
                   mg_pool := return_connection w now a (close_session_safe w now a (mg_pool m))\<rparr>))"

definition close_all_sessions :: "wires \<Rightarrow> int \<Rightarrow> manager \<Rightarrow> manager" where
  "close_all_sessions w now m = fold (\<lambda>sid. snd \<circ> close_printer_session w now sid) (map fst (mg_sessions m)) m"

end
