(* ===== verification/PrinterPoolProps.thy ===== *)
theory PrinterPoolProps
  imports PrinterPool
begin

text \<open>
  What the pool keeps for clients that return what they borrowed, and what the session manager above it does
  with the pool: the sessions it hands out are not the connections it borrows.
\<close>

section \<open>Tables of connections\<close>

lemma conns_Nil [simp]: "conns k [] = []"
  by (simp add: conns_def)

lemma conns_update: "conns k (AList.update k' xs d) = (if k = k' then xs else conns k d)"
  by (simp add: conns_def update_conv')

lemma conns_add: "conns k (add_conn k' a d) = (if k = k' then conns k d @ [a] else conns k d)"
  by (simp add: add_conn_def conns_update)

lemma conns_drop: "conns k (drop_conn k' a d) = (if k = k' then remove1 a (conns k d) else conns k d)"
  by (auto simp: drop_conn_def conns_update remove1_idem)

lemma conns_filter: "conns k (map (\<lambda>(k, xs). (k, filter f xs)) d) = filter f (conns k d)"
  by (induction d) (auto simp: conns_def)

lemma keys_add [simp]: "distinct (map fst d) \<Longrightarrow> distinct (map fst (add_conn k a d))"
  by (simp add: add_conn_def distinct_update)

lemma keys_drop [simp]: "distinct (map fst d) \<Longrightarrow> distinct (map fst (drop_conn k a d))"
  by (simp add: drop_conn_def distinct_update)

lemma table_size_update:
  "distinct (map fst d) \<Longrightarrow> table_size (AList.update k xs d) + length (conns k d) = table_size d + length xs"
proof (induction d)
  case (Cons x d)
  show ?case
  proof (cases "fst x = k")
    case True
    then show ?thesis by (cases x) (simp add: table_size_def conns_def)
  next
    case False
    then show ?thesis using Cons by (cases x) (simp add: table_size_def conns_def)
  qed
qed (simp add: table_size_def)

lemma table_size_add: "distinct (map fst d) \<Longrightarrow> table_size (add_conn k a d) = Suc (table_size d)"
  using table_size_update [of d k "conns k d @ [a]"] by (simp add: add_conn_def)

lemma table_size_drop: "distinct (map fst d) \<Longrightarrow> table_size (drop_conn k a d) \<le> table_size d"
  using table_size_update [of d k "remove1 a (conns k d)"] length_remove1 [of a "conns k d"]
  by (auto simp: drop_conn_def split: if_splits)

section \<open>The invariant of the pool\<close>

definition lent :: "pool \<Rightarrow> nat \<Rightarrow> bool" where
  "lent p a \<longleftrightarrow> a \<in> set (conns (key_of (cp_store p a)) (cp_active p))"

definition pool_ok :: "pool \<Rightarrow> bool" where
  "pool_ok p \<longleftrightarrow>
     distinct (map fst (cp_active p)) \<and> (\<forall>k. distinct (conns k (cp_active p) @ conns k (cp_idle p)))
   \<and> (\<forall>k. \<forall>a \<in> set (conns k (cp_active p)) \<union> set (conns k (cp_idle p)).
        key_of (cp_store p a) = k \<and> a < cp_free p \<and> a \<in> cp_all p)
   \<and> table_size (cp_active p) \<le> cp_max p \<and> (\<forall>k. length (conns k (cp_active p)) \<le> cp_per_host p)"

lemma key_close [simp]: "key_of (snd (close_session now ok s)) = key_of s"
  by (simp add: close_session_def set_session_state_def key_of_def)

lemma key_state [simp]: "key_of (set_session_state now st s) = key_of s"
  by (simp add: set_session_state_def key_of_def)

lemma key_connect [simp]: "key_of (snd (connect_session now dial s)) = key_of s"
  by (cases dial) (simp_all add: connect_session_def set_session_state_def key_of_def Let_def)

lemma key_activate [simp]: "key_of (snd (activate_session now s)) = key_of s"
  by (simp add: activate_session_def)

lemma key_init [simp]: "key_of (TCPIPPrinterSession_init now a host port sid) = host_key host port"
  by (simp add: TCPIPPrinterSession_init_def key_of_def)

text \<open>Lists that only get shorter.\<close>

lemma pool_ok_less:
  assumes "pool_ok p" and "distinct (map fst act)" and "table_size act \<le> cp_max p"
    and "\<And>k. distinct (conns k act) \<and> set (conns k act) \<subseteq> set (conns k (cp_active p))
            \<and> length (conns k act) \<le> length (conns k (cp_active p))"
    and "\<And>k. distinct (conns k idl) \<and> set (conns k idl) \<subseteq> set (conns k (cp_idle p))"
  shows "pool_ok (p\<lparr>cp_active := act, cp_idle := idl\<rparr>)"
proof -
  have "distinct (conns k act @ conns k idl)" for k
    using assms(1) assms(4,5) [of k] unfolding pool_ok_def by fastforce
  moreover have "length (conns k act) \<le> cp_per_host p" for k
    using assms(1) assms(4) [of k] unfolding pool_ok_def by (meson le_trans)
  moreover have "key_of (cp_store p a) = k \<and> a < cp_free p \<and> a \<in> cp_all p"
    if "a \<in> set (conns k act) \<union> set (conns k idl)" for k a
    using assms(1) assms(4,5) [of k] that unfolding pool_ok_def by blast
  ultimately show ?thesis using assms(2,3) by (simp add: pool_ok_def)
qed

lemma pool_ok_lists:
  assumes "pool_ok p"
  shows "distinct (conns k (cp_active p))" and "distinct (conns k (cp_idle p))" and "distinct (map fst (cp_active p))"
    and "table_size (cp_active p) \<le> cp_max p"
  using assms by (auto simp: pool_ok_def)

lemma pool_ok_lend:
  assumes "pool_ok p" and "a \<notin> set (conns k (cp_active p))" and "a \<notin> set (conns k (cp_idle p))"
    and "key_of (cp_store p a) = k" and "a < cp_free p" and "a \<in> cp_all p"
    and "table_size (cp_active p) < cp_max p" and "length (conns k (cp_active p)) < cp_per_host p"
  shows "pool_ok (p\<lparr>cp_active := add_conn k a (cp_active p), cp_borrowed := i\<rparr>)"
  using assms by (auto simp: pool_ok_def conns_add table_size_add)

lemma pool_ok_keep:
  assumes "pool_ok p" and "a \<notin> set (conns k (cp_active p))" and "a \<notin> set (conns k (cp_idle p))"
    and "key_of (cp_store p a) = k" and "a < cp_free p" and "a \<in> cp_all p"
  shows "pool_ok (p\<lparr>cp_idle := add_conn k a (cp_idle p), cp_returned := i\<rparr>)"
  using assms by (auto simp: pool_ok_def conns_add)

lemma remove1_less: "distinct xs \<Longrightarrow> distinct (remove1 a xs) \<and> set (remove1 a xs) \<subseteq> set xs \<and> length (remove1 a xs) \<le> length xs"
  using set_remove1_subset [of a xs] by (simp add: length_remove1)

lemma destroy_ok:
  assumes "pool_ok p"
  shows "pool_ok (destroy_connection w now a p)"
proof -
  define p' where "p' = destroy_connection w now a p"
  let ?k = "key_of (cp_store p a)"
  have t: "cp_active p' = drop_conn ?k a (cp_active p)" "cp_idle p' = drop_conn ?k a (cp_idle p)"
    "cp_all p' = cp_all p - {a}" "cp_free p' = cp_free p" "cp_max p' = cp_max p" "cp_per_host p' = cp_per_host p"
    "\<And>b. key_of (cp_store p' b) = key_of (cp_store p b)"
    by (simp_all add: p'_def destroy_connection_def store_session_def Let_def)
  have d: "distinct (conns k (cp_active p) @ conns k (cp_idle p))"
    and m: "b \<in> set (conns k (cp_active p)) \<union> set (conns k (cp_idle p)) \<Longrightarrow>
      key_of (cp_store p b) = k \<and> b < cp_free p \<and> b \<in> cp_all p"
    and l: "length (conns k (cp_active p)) \<le> cp_per_host p" for k b
    using assms unfolding pool_ok_def by blast+
  have "distinct (conns k (cp_active p') @ conns k (cp_idle p'))" for k
    using d [of k] set_remove1_subset [of a "conns k (cp_active p)"] set_remove1_subset [of a "conns k (cp_idle p)"]
    by (auto simp: t conns_drop)
  moreover have "key_of (cp_store p' b) = k \<and> b < cp_free p' \<and> b \<in> cp_all p'"
    if "b \<in> set (conns k (cp_active p')) \<union> set (conns k (cp_idle p'))" for k b
  proof (cases "k = ?k")
    case True
    then have "b \<in> set (conns k (cp_active p)) \<union> set (conns k (cp_idle p))" "b \<noteq> a"
      using that d [of k] by (auto simp: t conns_drop)
    then show ?thesis using m by (auto simp: t)
  next
    case False
    then have b: "b \<in> set (conns k (cp_active p)) \<union> set (conns k (cp_idle p))"
      using that by (simp add: t conns_drop)
    then have "b \<noteq> a" using m False by blast
    then show ?thesis using m [OF b] by (simp add: t)
  qed
  moreover have "table_size (cp_active p') \<le> cp_max p'" "distinct (map fst (cp_active p'))"
    using assms table_size_drop [of "cp_active p" ?k a] by (auto simp: pool_ok_def t)
  moreover have "length (conns k (cp_active p')) \<le> cp_per_host p'" for k
    using l [of k] by (auto simp: t conns_drop length_remove1)
  ultimately show ?thesis by (simp add: pool_ok_def p'_def)
qed

lemma open_ok:
  assumes "pool_ok p" and "table_size (cp_active p) < cp_max p"
    and "length (conns (host_key host port) (cp_active p)) < cp_per_host p"
  shows "pool_ok (snd (open_connection w now dial host port sid p))"
proof -
  let ?a = "cp_free p" and ?n = "TCPIPPrinterSession_init now (cp_free p) host port sid"
  have stored: "pool_ok (store_session ?a s (p\<lparr>cp_free := Suc ?a\<rparr>))" for s
    using assms(1) by (auto simp: pool_ok_def store_session_def less_Suc_eq)
  have added: "pool_ok (store_session ?a s (p\<lparr>cp_free := Suc ?a, cp_active := add_conn (host_key host port) ?a (cp_active p),
      cp_all := insert ?a (cp_all p), cp_created := i, cp_borrowed := j\<rparr>))"
    if "key_of s = host_key host port" for s i j
  proof -
    have "?a \<notin> set (conns k (cp_active p)) \<union> set (conns k (cp_idle p))" for k
      using assms(1) unfolding pool_ok_def by blast
    then show ?thesis using assms that
      by (auto simp: pool_ok_def store_session_def conns_add less_Suc_eq table_size_add)
  qed
  have k: "key_of (snd (connect_session now dial ?n)) = host_key host port"
    "key_of (snd (activate_session now (snd (connect_session now dial ?n)))) = host_key host port" by simp_all
  show ?thesis
    using stored added destroy_ok k
    by (auto simp: open_connection_def new_session_def store_session_def case_prod_unfold
        split: option.split prod.split tcp_error.split)
qed

lemma borrow_ok: "pool_ok p \<Longrightarrow> pool_ok (snd (borrow_connection w now dial host port sid p))"
proof -
  assume ok: "pool_ok p"
  let ?k = "host_key host port"
  define p1 where "p1 = p\<lparr>cp_idle := AList.update ?k (butlast (conns ?k (cp_idle p))) (cp_idle p)\<rparr>"
  let ?a = "last (conns ?k (cp_idle p))"
  have "pool_ok (p\<lparr>cp_active := cp_active p, cp_idle := AList.update ?k (butlast (conns ?k (cp_idle p))) (cp_idle p)\<rparr>)"
    using pool_ok_lists [OF ok]
    by (intro pool_ok_less [OF ok]) (auto simp: conns_update distinct_butlast dest: in_set_butlastD)
  then have p1: "pool_ok p1" "table_size (cp_active p1) = table_size (cp_active p)" "cp_max p1 = cp_max p"
    "cp_per_host p1 = cp_per_host p" "cp_active p1 = cp_active p"
    by (simp_all add: p1_def)
  have dt: "table_size (cp_active (destroy_connection w now ?a p1)) \<le> table_size (cp_active p)"
    "length (conns ?k (cp_active (destroy_connection w now ?a p1))) \<le> length (conns ?k (cp_active p))"
    "cp_max (destroy_connection w now ?a p1) = cp_max p" "cp_per_host (destroy_connection w now ?a p1) = cp_per_host p"
    using ok p1 table_size_drop [of "cp_active p"]
    by (auto simp: destroy_connection_def store_session_def Let_def conns_drop length_remove1 pool_ok_def)
  have reuse: "pool_ok (p1\<lparr>cp_active := add_conn ?k ?a (cp_active p), cp_borrowed := i\<rparr>)"
    if "conns ?k (cp_idle p) \<noteq> []" "table_size (cp_active p) < cp_max p"
      "length (conns ?k (cp_active p)) < cp_per_host p" for i
  proof -
    have i: "conns ?k (cp_idle p) = butlast (conns ?k (cp_idle p)) @ [?a]" using that(1) by simp
    have b: "cp_free p1 = cp_free p" "cp_all p1 = cp_all p" "cp_store p1 = cp_store p"
      "conns ?k (cp_idle p1) = butlast (conns ?k (cp_idle p))"
      by (simp_all add: p1_def conns_update)
    have d: "distinct (conns ?k (cp_active p) @ conns ?k (cp_idle p))"
      and m: "\<forall>a \<in> set (conns ?k (cp_active p)) \<union> set (conns ?k (cp_idle p)).
         key_of (cp_store p a) = ?k \<and> a < cp_free p \<and> a \<in> cp_all p"
      using ok unfolding pool_ok_def by blast+
    have "?a \<in> set (conns ?k (cp_idle p))" using that(1) by simp
    moreover have "?a \<notin> set (conns ?k (cp_active p))" "?a \<notin> set (butlast (conns ?k (cp_idle p)))"
      using d i by (metis IntI distinct_append empty_iff in_set_conv_decomp, metis d distinct_append i
          not_distinct_conv_prefix append.right_neutral)
    ultimately show ?thesis
      using pool_ok_lend [OF p1(1), of ?a ?k i] m b that(2,3) p1 by simp
  qed
  show ?thesis
    using ok open_ok [OF ok] open_ok [OF destroy_ok [OF p1(1)]] dt reuse p1(5)
    by (auto simp: borrow_connection_def Let_def p1_def [symmetric] not_le)
qed

lemma return_ok:
  assumes "pool_ok p" and "lent p a"
  shows "pool_ok (return_connection w now a p)"
proof -
  let ?k = "key_of (cp_store p a)"
  define p1 where "p1 = p\<lparr>cp_active := drop_conn ?k a (cp_active p)\<rparr>"
  have a: "a \<in> set (conns ?k (cp_active p))" using assms(2) by (simp add: lent_def)
  have "distinct (conns ?k (cp_active p) @ conns ?k (cp_idle p))" using assms(1) by (simp add: pool_ok_def)
  then have na: "a \<notin> set (remove1 a (conns ?k (cp_active p)))" "a \<notin> set (conns ?k (cp_idle p))"
    using a by auto
  have al: "a < cp_free p" "a \<in> cp_all p" using assms(1) a by (auto simp: pool_ok_def)
  have s: "table_size (cp_active p1) \<le> cp_max p"
    using assms(1) table_size_drop [of "cp_active p" ?k a] by (auto simp: pool_ok_def p1_def)
  have "pool_ok (p\<lparr>cp_active := cp_active p1, cp_idle := cp_idle p\<rparr>)"
  proof (rule pool_ok_less [OF assms(1)])
    show "distinct (map fst (cp_active p1))" "table_size (cp_active p1) \<le> cp_max p"
      using pool_ok_lists [OF assms(1)] s by (simp_all add: p1_def)
  next
    fix k
    show "distinct (conns k (cp_active p1)) \<and> set (conns k (cp_active p1)) \<subseteq> set (conns k (cp_active p))
        \<and> length (conns k (cp_active p1)) \<le> length (conns k (cp_active p))"
      using remove1_less [OF pool_ok_lists(1) [OF assms(1), of k], of a] pool_ok_lists(1) [OF assms(1), of k]
      by (cases "k = ?k") (simp_all add: p1_def conns_drop)
    show "distinct (conns k (cp_idle p)) \<and> set (conns k (cp_idle p)) \<subseteq> set (conns k (cp_idle p))"
      using pool_ok_lists(2) [OF assms(1)] by simp
  qed
  then have p1: "pool_ok p1" by (simp add: p1_def)
  have "pool_ok (p1\<lparr>cp_idle := add_conn ?k a (cp_idle p1), cp_returned := i\<rparr>)" for i
    using pool_ok_keep [OF p1, of a ?k i] na al by (simp add: p1_def conns_drop)
  then show ?thesis
    using destroy_ok [OF p1] by (simp add: return_connection_def Let_def p1_def)
qed

lemma weed_ok:
  assumes "pool_ok p"
  shows "pool_ok (weed_idle keep w now p)"
proof -
  have f: "pool_ok (fold (destroy_connection w now) as q)" if "pool_ok q" for as q
    using that by (induction as arbitrary: q) (auto intro: destroy_ok)
  have "pool_ok (p\<lparr>cp_idle := map (\<lambda>(k, xs). (k, filter keep xs)) (cp_idle p)\<rparr>)"
    using assms by (auto simp: pool_ok_def conns_filter)
  then show ?thesis unfolding weed_idle_def by (rule f)
qed

inductive pool_step :: "pool \<Rightarrow> pool \<Rightarrow> bool" where
  pl_borrow: "pool_step p (snd (borrow_connection w now dial host port sid p))"
| pl_return: "lent p a \<Longrightarrow> pool_step p (return_connection w now a p)"
| pl_health: "pool_step p (perform_health_checks w now p)"
| pl_cleanup: "pool_step p (perform_cleanup w now p)"
| pl_start: "pool_step p (pool_start p)"
| pl_stop: "pool_step p (pool_stop w now p)"
| pl_use: "key_of s = key_of (cp_store p a) \<Longrightarrow> pool_step p (store_session a s p)"

lemma pool_step_ok: "pool_step p p' \<Longrightarrow> pool_ok p \<Longrightarrow> pool_ok p'"
proof (induction rule: pool_step.induct)
  case (pl_stop p w now)
  then show ?case by (simp add: pool_stop_def pool_ok_def table_size_def)
next
  case (pl_use s p a)
  then show ?case by (auto simp: pool_ok_def store_session_def)
next
  case (pl_start p)
  then show ?case by (simp add: pool_start_def pool_ok_def)
qed (simp_all add: borrow_ok return_ok weed_ok perform_health_checks_def perform_cleanup_def)

lemma pool_steps_ok:
  assumes "pool_step\<^sup>*\<^sup>* p p'" and "pool_ok p"
  shows "pool_ok p'"
  using assms by (induction rule: rtranclp_induct) (auto intro: pool_step_ok)

lemma pool_init_ok: "pool_ok (TCPIPConnectionPool_init limit per_host idle)"
  by (simp add: pool_ok_def TCPIPConnectionPool_init_def table_size_def)

lemma borrowed_is_new:
  assumes "pool_ok p" and "borrow_connection w now dial host port sid p = (Inr a, p')"
  shows "\<forall>k. a \<notin> set (conns k (cp_active p))" and "a \<in> set (conns (host_key host port) (cp_active p'))"
proof -
  let ?k = "host_key host port"
  have d: "distinct (conns k (cp_active p) @ conns k (cp_idle p))"
    and m: "b \<in> set (conns k (cp_active p)) \<union> set (conns k (cp_idle p)) \<Longrightarrow>
      key_of (cp_store p b) = k \<and> b < cp_free p" for k b
    using assms(1) unfolding pool_ok_def by blast+
  have o: "b = cp_free q \<and> b \<in> set (conns ?k (cp_active q'))" if "open_connection w now dial host port sid q = (Inr b, q')" for b q q'
    using that by (auto simp: open_connection_def new_session_def store_session_def case_prod_unfold conns_add
        split: option.splits prod.splits tcp_error.splits)
  have f: "cp_free (destroy_connection w now b (p\<lparr>cp_idle := i\<rparr>)) = cp_free p" for b i
    by (simp add: destroy_connection_def store_session_def Let_def)
  let ?i = "conns ?k (cp_idle p)"
  have "(a = cp_free p \<or> ?i \<noteq> [] \<and> a = last ?i) \<and> a \<in> set (conns ?k (cp_active p'))"
    using assms(2) o f by (fastforce simp: borrow_connection_def Let_def conns_add split: if_splits)
  then have a: "a = cp_free p \<or> a \<in> set ?i" "a \<in> set (conns ?k (cp_active p'))" by auto
  show "\<forall>k. a \<notin> set (conns k (cp_active p))"
  proof (intro allI notI)
    fix k assume k: "a \<in> set (conns k (cp_active p))"
    then have "key_of (cp_store p a) = k" "a < cp_free p" using m by blast+
    then have "a \<in> set ?i" "k = ?k" using a m by blast+
    then show False using k d [of k] by auto
  qed
  show "a \<in> set (conns ?k (cp_active p'))" by fact
qed

text \<open>
  C33. With clients that return only what they have borrowed, the pool lends no connection to two of them: what
  \<open>borrow_connection\<close> hands out was not lent, and the connections lent stay within the two limits, whatever
  the health checks and the cleanup do in between.
\<close>

theorem pool_lends_once:
  assumes "pool_step\<^sup>*\<^sup>* (TCPIPConnectionPool_init limit per_host idle) p"
    and "borrow_connection w now dial host port sid p = (Inr a, p')"
  shows "(\<forall>k. a \<notin> set (conns k (cp_active p))) \<and> lent p' a
       \<and> table_size (cp_active p') \<le> cp_max p' \<and> (\<forall>k. length (conns k (cp_active p')) \<le> cp_per_host p')"
proof -
  have ok: "pool_ok p" using assms(1) pool_init_ok by (rule pool_steps_ok)
  then have ok': "pool_ok p'" using borrow_ok [of p w now dial host port sid] assms(2) by simp
  have "key_of (cp_store p' a) = host_key host port"
    using ok' borrowed_is_new(2) [OF ok assms(2)] unfolding pool_ok_def by blast
  then have "lent p' a" using borrowed_is_new(2) [OF ok assms(2)] by (simp add: lent_def)
  then show ?thesis
    using borrowed_is_new(1) [OF ok assms(2)] ok' by (simp add: pool_ok_def)
qed

definition all_up :: wires where
  "all_up = \<lparr>w_connected = (\<lambda>a. True), w_closes = (\<lambda>a. True)\<rparr>"

definition demo_pool :: pool where
  "demo_pool = TCPIPConnectionPool_init 10 2 300"

definition demo_dial :: dialled where
  "demo_dial = Negotiated (Some ''LU1'') None None"

lemmas pool_run = borrow_connection_def open_connection_def new_session_def store_session_def connect_session_def
  activate_session_def set_session_state_def TCPIPPrinterSession_init_def TCPIPConnectionPool_init_def
  return_connection_def is_connection_healthy_def Let_def conns_add conns_drop conns_update key_of_def all_up_def
  demo_pool_def demo_dial_def table_size_def

lemma demo_borrow:
  "\<exists>p'. borrow_connection all_up 0 demo_dial ''h'' 23 None demo_pool = (Inr 0, p')"
  by (simp add: pool_run)

theorem pool_lends_once_witness:
  "\<exists>p'. borrow_connection all_up 0 demo_dial ''h'' 23 None demo_pool = (Inr 0, p') \<and> lent p' 0"
proof -
  obtain p' where b: "borrow_connection all_up 0 demo_dial ''h'' 23 None demo_pool = (Inr 0, p')"
    using demo_borrow by blast
  have "pool_step\<^sup>*\<^sup>* (TCPIPConnectionPool_init 10 2 300) demo_pool" by (simp add: demo_pool_def)
  from pool_lends_once [OF this b] b show ?thesis by blast
qed

section \<open>The manager\<close>

datatype manager_event = Created string | Other_event | Stopped

inductive manager_step :: "manager \<Rightarrow> manager_event \<Rightarrow> manager \<Rightarrow> bool" where
  mg_start: "manager_step m Other_event (snd (manager_start m))"
| mg_create: "create_printer_session w now dial host port sid m = (Inr i, m')
    \<Longrightarrow> manager_step m (Created (host_key host port)) m'"
| mg_create_fails: "create_printer_session w now dial host port sid m = (Inl e, m') \<Longrightarrow> manager_step m Other_event m'"
| mg_send: "manager_step m Other_event (snd (send_print_job w now tr i m))"
| mg_status: "manager_step m Other_event (snd (manager_send_status w now tr code i m))"
| mg_receive: "manager_step m Other_event (snd (receive_printer_data w now tr i m))"
| mg_close: "manager_step m Other_event (snd (close_printer_session w now i m))"
| mg_health: "manager_step m Other_event (m\<lparr>mg_pool := perform_health_checks w now (mg_pool m)\<rparr>)"
| mg_cleanup: "manager_step m Other_event (m\<lparr>mg_pool := perform_cleanup w now (mg_pool m)\<rparr>)"
| mg_stop: "manager_step m Stopped (snd (manager_stop w now m))"

inductive manager_runs :: "manager \<Rightarrow> manager_event list \<Rightarrow> manager \<Rightarrow> bool" where
  runs_none: "manager_runs m [] m"
| runs_more: "manager_runs m es m' \<Longrightarrow> manager_step m' e m'' \<Longrightarrow> manager_runs m (es @ [e]) m''"

text \<open>
  The sessions the manager hands out are disconnected and unknown to its pool, in which nothing is ever idle.
\<close>

definition manager_ok :: "manager \<Rightarrow> bool" where
  "manager_ok m \<longleftrightarrow>
     (\<forall>(i, a) \<in> set (mg_sessions m). tp_state (cp_store (mg_pool m) a) = DISCONNECTED \<and> a < cp_free (mg_pool m)
        \<and> (\<forall>k. a \<notin> set (conns k (cp_active (mg_pool m)))))
   \<and> (\<forall>k. conns k (cp_idle (mg_pool m)) = []) \<and> list_all (\<lambda>(k, xs). xs = []) (cp_idle (mg_pool m))
   \<and> (\<forall>k. \<forall>a \<in> set (conns k (cp_active (mg_pool m))). a < cp_free (mg_pool m))
   \<and> distinct (map fst (cp_active (mg_pool m)))"

lemma manager_init_ok: "manager_ok (TCPIPPrinterSessionManager_init limit per_host idle)"
  by (simp add: manager_ok_def TCPIPPrinterSessionManager_init_def TCPIPConnectionPool_init_def)

lemma get_fails: "manager_ok m \<Longrightarrow> get_printer_session i m = Inl RuntimeError"
  by (auto simp: get_printer_session_def manager_ok_def split: option.split dest!: map_of_SomeD)

lemma through_fails: "manager_ok m \<Longrightarrow> through_session f as_error w now i m = (Some RuntimeError, m)"
  by (simp add: through_session_def get_fails)

lemma map_filter_empty: "list_all (\<lambda>(k, xs). xs = []) d \<Longrightarrow> map (\<lambda>(k, xs). (k, filter f xs)) d = d"
  by (induction d) auto

lemma concat_filter_empty: "list_all (\<lambda>(k, xs). xs = []) d \<Longrightarrow> concat (map (\<lambda>(k, xs). filter f xs) d) = []"
  by (induction d) auto

lemma weed_nothing: "list_all (\<lambda>(k, xs). xs = []) (cp_idle p) \<Longrightarrow> weed_idle keep w now p = p"
  by (simp add: weed_idle_def map_filter_empty concat_filter_empty)

lemma weed_manager: "manager_ok m \<Longrightarrow> weed_idle keep w now (mg_pool m) = mg_pool m"
  by (simp add: manager_ok_def weed_nothing)

lemma start_keeps: "manager_ok m \<Longrightarrow> manager_ok (snd (manager_start m))"
  by (auto simp: manager_start_def manager_ok_def pool_start_def)

text \<open>Closing such a session destroys it and leaves the lists of the pool as they are.\<close>

lemma return_unknown:
  assumes "tp_state (cp_store p a) = DISCONNECTED" and "\<forall>k. a \<notin> set (conns k (cp_active p))"
    and "\<forall>k. conns k (cp_idle p) = []"
  shows "return_connection w now a (close_session_safe w now a p)
       = p\<lparr>cp_all := cp_all p - {a}, cp_destroyed := Suc (cp_destroyed p)\<rparr>"
  using assms
  by (simp add: close_session_safe_def close_session_def return_connection_def destroy_connection_def
      store_session_def is_connection_healthy_def drop_conn_def Let_def)

lemma close_keeps:
  assumes "manager_ok m"
  shows "manager_ok (snd (close_printer_session w now i m))
       \<and> cp_active (mg_pool (snd (close_printer_session w now i m))) = cp_active (mg_pool m)
       \<and> cp_max (mg_pool (snd (close_printer_session w now i m))) = cp_max (mg_pool m)
       \<and> cp_per_host (mg_pool (snd (close_printer_session w now i m))) = cp_per_host (mg_pool m)"
proof (cases "map_of (mg_sessions m) i")
  case None
  then show ?thesis using assms by (simp add: close_printer_session_def)
next
  case (Some a)
  then have a: "(i, a) \<in> set (mg_sessions m)" by (rule map_of_SomeD)
  have "return_connection w now a (close_session_safe w now a (mg_pool m))
     = (mg_pool m)\<lparr>cp_all := cp_all (mg_pool m) - {a}, cp_destroyed := Suc (cp_destroyed (mg_pool m))\<rparr>"
    using assms a by (intro return_unknown) (auto simp: manager_ok_def)
  then show ?thesis using assms Some
    by (auto simp: close_printer_session_def manager_ok_def AList.delete_eq)
qed

lemma open_active:
  assumes "open_connection w now dial host port sid p = (r, p')"
  shows "cp_max p' = cp_max p" and "cp_per_host p' = cp_per_host p"
    and "case r of Inr a \<Rightarrow> a = cp_free p \<and> cp_active p' = add_conn (host_key host port) a (cp_active p) \<and> cp_idle p' = cp_idle p
       | Inl e \<Rightarrow> cp_active p' = drop_conn (host_key host port) (cp_free p) (cp_active p) \<and> cp_idle p' = drop_conn (host_key host port) (cp_free p) (cp_idle p)
           \<or> cp_active p' = cp_active p \<and> cp_idle p' = cp_idle p"
    and "cp_free p' = Suc (cp_free p)" and "\<forall>b. b \<noteq> cp_free p \<longrightarrow> cp_store p' b = cp_store p b"
  using assms
  by (auto simp: open_connection_def new_session_def store_session_def destroy_connection_def case_prod_unfold Let_def
      split: option.splits prod.splits tcp_error.splits sum.split)

lemma manager_ok_same:
  assumes "manager_ok m" and "mg_sessions m' = mg_sessions m" and "cp_active (mg_pool m') = cp_active (mg_pool m)"
    and "cp_idle (mg_pool m') = cp_idle (mg_pool m)" and "cp_free (mg_pool m) \<le> cp_free (mg_pool m')"
    and "\<forall>a < cp_free (mg_pool m). cp_store (mg_pool m') a = cp_store (mg_pool m) a"
  shows "manager_ok m'"
proof -
  have "\<forall>(i, a) \<in> set (mg_sessions m'). tp_state (cp_store (mg_pool m') a) = DISCONNECTED \<and> a < cp_free (mg_pool m')
        \<and> (\<forall>k. a \<notin> set (conns k (cp_active (mg_pool m'))))"
    using assms(1) assms(6) less_le_trans [OF _ assms(5)] unfolding assms(2,3) manager_ok_def by fastforce
  moreover have "\<forall>k. \<forall>a \<in> set (conns k (cp_active (mg_pool m'))). a < cp_free (mg_pool m')"
    using assms(1) less_le_trans [OF _ assms(5)] unfolding assms(3) manager_ok_def by blast
  ultimately show ?thesis using assms(1,3,4) by (simp add: manager_ok_def)
qed

lemma set_update_subset: "set (AList.update k v al) \<subseteq> insert (k, v) (set al)"
  by (induction al) auto

lemma fresh_not_in: "manager_ok m \<Longrightarrow> cp_free (mg_pool m) \<notin> set (conns k (cp_active (mg_pool m)))"
  by (auto simp: manager_ok_def)

lemma manager_ok_added:
  assumes "manager_ok m" and "n = Suc (cp_free (mg_pool m))"
    and "m' = m\<lparr>mg_pool := q, mg_sessions := AList.update i n (mg_sessions m)\<rparr>" and "cp_free q = Suc n"
    and "cp_active q = add_conn k (cp_free (mg_pool m)) (cp_active (mg_pool m))" and "cp_idle q = cp_idle (mg_pool m)"
    and "tp_state (cp_store q n) = DISCONNECTED" and "\<And>x. x < cp_free (mg_pool m) \<Longrightarrow> cp_store q x = cp_store (mg_pool m) x"
  shows "manager_ok m'"
proof -
  let ?p = "mg_pool m"
  have old: "a < cp_free ?p" "tp_state (cp_store ?p a) = DISCONNECTED" "a \<notin> set (conns k (cp_active ?p))"
    if "(i, a) \<in> set (mg_sessions m)" for i a k
    using assms(1) that by (auto simp: manager_ok_def)
  have less: "a < cp_free ?p" if "a \<in> set (conns k (cp_active ?p))" for a k
    using assms(1) that by (auto simp: manager_ok_def)
  have st: "tp_state (cp_store q x) = DISCONNECTED \<and> x < cp_free q \<and> (\<forall>k. x \<notin> set (conns k (cp_active q)))"
    if x: "x = n \<or> (\<exists>j. (j, x) \<in> set (mg_sessions m))" for x
  proof (cases "x = n")
    case True
    then show ?thesis using assms(2,4,5,7) less by (force simp: conns_add)
  next
    case False
    with x obtain j where "(j, x) \<in> set (mg_sessions m)" by blast
    from old [OF this] show ?thesis using assms(2,4,5,8) by (simp add: conns_add)
  qed
  have "\<forall>(j, x) \<in> set (mg_sessions m'). tp_state (cp_store q x) = DISCONNECTED \<and> x < cp_free q \<and> (\<forall>k. x \<notin> set (conns k (cp_active q)))"
  proof (rule ballI, rule case_prodI2)
    fix y j x
    assume "y \<in> set (mg_sessions m')" and "y = (j, x)"
    moreover have "mg_sessions m' = AList.update i n (mg_sessions m)" by (simp add: assms(3))
    ultimately have "x = n \<or> (\<exists>j. (j, x) \<in> set (mg_sessions m))"
      using set_update_subset [of i n "mg_sessions m"] by auto
    then show "tp_state (cp_store q x) = DISCONNECTED \<and> x < cp_free q \<and> (\<forall>k. x \<notin> set (conns k (cp_active q)))" by (rule st)
  qed
  moreover have "\<forall>k. \<forall>a \<in> set (conns k (cp_active q)). a < cp_free q"
    using less assms(2,4,5) by (auto simp: conns_add intro: less_SucI)
  moreover have "mg_pool m' = q" by (simp add: assms(3))
  ultimately show ?thesis using assms(1,5,6) by (simp add: manager_ok_def)
qed

lemma create_cases:
  assumes "manager_ok m" and "create_printer_session w now dial host port sid m = (r, m')"
  obtains (failed) e where "r = Inl e" "manager_ok m'" "cp_active (mg_pool m') = cp_active (mg_pool m)"
      "cp_max (mg_pool m') = cp_max (mg_pool m)" "cp_per_host (mg_pool m') = cp_per_host (mg_pool m)"
  | (created) i where "r = Inr i" "manager_ok m'"
      "cp_active (mg_pool m') = add_conn (host_key host port) (cp_free (mg_pool m)) (cp_active (mg_pool m))"
      "cp_max (mg_pool m') = cp_max (mg_pool m)" "cp_per_host (mg_pool m') = cp_per_host (mg_pool m)"
      "table_size (cp_active (mg_pool m)) < cp_max (mg_pool m)"
      "length (conns (host_key host port) (cp_active (mg_pool m))) < cp_per_host (mg_pool m)"
proof -
  let ?p = "mg_pool m" and ?k = "host_key host port"
  have idle: "conns k (cp_idle ?p) = []" "list_all (\<lambda>(k, xs). xs = []) (cp_idle ?p)" for k
    using assms(1) by (simp_all add: manager_ok_def)
  have fr: "cp_free ?p \<notin> set (conns k (cp_active ?p))" for k using assms(1) by (rule fresh_not_in)
  have old: "a < cp_free ?p" "tp_state (cp_store ?p a) = DISCONNECTED" "a \<notin> set (conns k (cp_active ?p))"
    if "(i, a) \<in> set (mg_sessions m)" for i a k
    using assms(1) that by (auto simp: manager_ok_def)
  obtain b p where b: "borrow_connection w now dial host port None ?p = (b, p)" by fastforce
  show thesis
  proof (cases "\<not> mg_started m \<or> table_size (cp_active ?p) \<ge> cp_max ?p \<or> length (conns ?k (cp_active ?p)) \<ge> cp_per_host ?p")
    case True
    then have "r = Inl RuntimeError" "m' = m"
      using assms(2) by (auto simp: create_printer_session_def borrow_connection_def Let_def split: if_splits)
    then show thesis using failed assms(1) by blast
  next
    case False
    then have o: "open_connection w now dial host port None ?p = (b, p)"
      using b idle by (simp add: borrow_connection_def Let_def)
    note a = open_active [OF o]
    show thesis
    proof (cases b)
      case (Inl e)
      then have "cp_active p = cp_active ?p" "cp_idle p = cp_idle ?p"
        using a(3) fr idle by (auto simp: drop_conn_def)
      moreover have m': "r = Inl RuntimeError" "m' = m\<lparr>mg_pool := p\<rparr>"
        using False assms(2) b Inl by (auto simp: create_printer_session_def)
      ultimately have "manager_ok m'"
        using a(4,5) old by (intro manager_ok_same [OF assms(1)]) (auto dest: old(1))
      then show thesis using failed [of RuntimeError] m' a(1,2) \<open>cp_active p = cp_active ?p\<close> by simp
    next
      case (Inr c)
      then have c: "c = cp_free ?p" "cp_active p = add_conn ?k c (cp_active ?p)" "cp_idle p = cp_idle ?p"
        using a(3) by auto
      define q where "q = snd (new_session now host port sid p)"
      obtain i where m': "r = Inr i" "m' = m\<lparr>mg_pool := q, mg_sessions := AList.update i (cp_free p) (mg_sessions m)\<rparr>"
        using False assms(2) b Inr by (auto simp: create_printer_session_def new_session_def q_def)
      have q: "cp_free q = Suc (cp_free p)" "cp_active q = cp_active p" "cp_idle q = cp_idle p" "cp_max q = cp_max ?p" "cp_per_host q = cp_per_host ?p"
        "tp_state (cp_store q (cp_free p)) = DISCONNECTED" "x \<noteq> cp_free p \<Longrightarrow> cp_store q x = cp_store p x" for x
        using a(1,2) by (simp_all add: q_def new_session_def store_session_def TCPIPPrinterSession_init_def)
      have "manager_ok m'"
        by (rule manager_ok_added [OF assms(1) a(4) m'(2)]) (use q c a(4,5) in auto)
      then show thesis
        using created [OF m'(1)] c q m'(2) False by (simp add: not_le)
    qed
  qed
qed

definition tally :: "manager_event list \<Rightarrow> manager \<Rightarrow> bool" where
  "tally es m \<longleftrightarrow> manager_ok m
     \<and> (\<forall>k. length (conns k (cp_active (mg_pool m))) = length (filter (\<lambda>e. e = Created k) es))
     \<and> table_size (cp_active (mg_pool m)) = length (filter (\<lambda>e. e \<noteq> Other_event) es)
     \<and> (\<forall>k. length (conns k (cp_active (mg_pool m))) \<le> cp_per_host (mg_pool m))
     \<and> table_size (cp_active (mg_pool m)) \<le> cp_max (mg_pool m)"

lemma tally_other:
  assumes "tally es m" and "manager_ok m'" and "cp_active (mg_pool m') = cp_active (mg_pool m)"
    and "cp_max (mg_pool m') = cp_max (mg_pool m)" and "cp_per_host (mg_pool m') = cp_per_host (mg_pool m)"
  shows "tally (es @ [Other_event]) m'"
  using assms by (auto simp: tally_def)

lemma tally_same: "tally es m \<Longrightarrow> tally (es @ [Other_event]) m"
  by (rule tally_other) (auto simp: tally_def)

lemma tally_step:
  assumes "manager_step m e m'" and "tally es m" and "e \<noteq> Stopped"
  shows "tally (es @ [e]) m' \<and> cp_max (mg_pool m') = cp_max (mg_pool m) \<and> cp_per_host (mg_pool m') = cp_per_host (mg_pool m)"
  using assms
proof (induction rule: manager_step.induct)
  case (mg_create w now dial host port sid m i m')
  then have ok: "manager_ok m" by (simp add: tally_def)
  from create_cases [OF ok mg_create(1)] show ?case
  proof cases
    case 2
    moreover have "distinct (map fst (cp_active (mg_pool m)))" using ok by (simp add: manager_ok_def)
    ultimately show ?thesis using mg_create(2) by (auto simp: tally_def conns_add table_size_add)
  qed simp
next
  case (mg_create_fails w now dial host port sid m e m')
  then have ok: "manager_ok m" by (simp add: tally_def)
  from create_cases [OF ok mg_create_fails(1)] show ?case
    using tally_other [OF mg_create_fails(2)] by cases simp_all
next
  case (mg_start m)
  then have "manager_ok (snd (manager_start m))" by (simp add: tally_def start_keeps)
  from tally_other [OF mg_start(1) this] show ?case by (simp add: manager_start_def pool_start_def)
next
  case (mg_send m w now tr i)
  then show ?case using tally_same [OF mg_send(1)] by (simp add: tally_def send_print_job_def through_fails)
next
  case (mg_status m w now tr code i)
  then show ?case using tally_same [OF mg_status(1)] by (simp add: tally_def manager_send_status_def through_fails)
next
  case (mg_receive m w now tr i)
  then show ?case using tally_same [OF mg_receive(1)] by (simp add: tally_def receive_printer_data_def through_fails)
next
  case (mg_close m w now i)
  then have "manager_ok m" by (simp add: tally_def)
  from close_keeps [OF this, of w now i] show ?case using tally_other [OF mg_close(1)] by simp
next
  case (mg_health m w now)
  then have "perform_health_checks w now (mg_pool m) = mg_pool m"
    by (simp add: perform_health_checks_def weed_manager tally_def)
  then show ?case using tally_same [OF mg_health(1)] by simp
next
  case (mg_cleanup m w now)
  then have "perform_cleanup w now (mg_pool m) = mg_pool m"
    by (simp add: perform_cleanup_def weed_manager tally_def)
  then show ?case using tally_same [OF mg_cleanup(1)] by simp
qed simp

lemma runs_tally:
  assumes "manager_runs m es m'" and "tally [] m" and "Stopped \<notin> set es"
  shows "tally es m' \<and> cp_max (mg_pool m') = cp_max (mg_pool m) \<and> cp_per_host (mg_pool m') = cp_per_host (mg_pool m)"
  using assms
proof (induction rule: manager_runs.induct)
  case (runs_more m es m' e m'')
  then have "tally es m'" by simp
  moreover have "e \<noteq> Stopped" using runs_more.prems(2) by auto
  ultimately show ?case using tally_step [OF runs_more(2)] runs_more by simp
qed simp

lemma tally_init: "tally [] (TCPIPPrinterSessionManager_init limit per_host idle)"
  using manager_init_ok [of limit per_host idle]
  by (simp add: tally_def TCPIPPrinterSessionManager_init_def TCPIPConnectionPool_init_def table_size_def)

lemma fold_close_same:
  "cp_active (fold (close_session_safe w now) as p) = cp_active p \<and> cp_idle (fold (close_session_safe w now) as p) = cp_idle p
   \<and> cp_free (fold (close_session_safe w now) as p) = cp_free p"
  by (induction as arbitrary: p) (simp_all add: close_session_safe_def store_session_def)

lemma runs_ok:
  assumes "manager_runs m es m'" and "manager_ok m"
  shows "manager_ok m'"
  using assms
proof (induction rule: manager_runs.induct)
  case (runs_more m es m' e m'')
  then have ok: "manager_ok m'" by simp
  from runs_more(2) show ?case
  proof cases
    case mg_stop
    with ok show ?thesis
      by (auto simp: manager_stop_def pool_stop_def manager_ok_def fold_close_same)
  next
    case (mg_create w now dial host port sid i)
    from create_cases [OF ok mg_create(2)] show ?thesis by cases simp_all
  next
    case (mg_create_fails w now dial host port sid e)
    from create_cases [OF ok mg_create_fails(2)] show ?thesis by cases simp_all
  qed (use ok in \<open>simp_all add: start_keeps send_print_job_def manager_send_status_def receive_printer_data_def
      through_fails close_keeps perform_health_checks_def perform_cleanup_def weed_manager\<close>)
qed simp

text \<open>
  Nothing can be sent through a session of the manager. The connection that \<open>create_printer_session\<close> borrows
  is dropped; the session it hands out is another one, which is never connected: whatever was done before,
  a print job, a status and a receive are refused for every session and change nothing.
\<close>

lemma sessions_never_active:
  assumes "manager_runs (TCPIPPrinterSessionManager_init limit per_host idle) es m"
  shows "send_print_job w now tr i m = (Some RuntimeError, m)
       \<and> manager_send_status w now tr code i m = (Some RuntimeError, m)
       \<and> receive_printer_data w now tr i m = (Some RuntimeError, m)"
  using runs_ok [OF assms manager_init_ok]
  by (simp add: send_print_job_def manager_send_status_def receive_printer_data_def through_fails)

definition demo_started :: manager where
  "demo_started = snd (manager_start (TCPIPPrinterSessionManager_init 10 2 300))"

definition demo_created :: manager where
  "demo_created = snd (create_printer_session all_up 0 demo_dial ''h'' 23 (Some ''s'') demo_started)"

lemma demo_create:
  "fst (create_printer_session all_up 0 demo_dial ''h'' 23 (Some ''s'') demo_started) = Inr ''s''"
  by (simp add: demo_started_def manager_start_def TCPIPPrinterSessionManager_init_def create_printer_session_def
      pool_start_def pool_run)

lemma demo_runs: "manager_runs (TCPIPPrinterSessionManager_init 10 2 300) [Other_event, Created (host_key ''h'' 23)] demo_created"
proof -
  have "manager_runs (TCPIPPrinterSessionManager_init 10 2 300) ([] @ [Other_event]) demo_started"
    unfolding demo_started_def by (rule runs_more [OF runs_none mg_start])
  moreover have "manager_step demo_started (Created (host_key ''h'' 23)) demo_created"
    using demo_create unfolding demo_created_def by (intro mg_create) (auto intro: prod_eqI)
  ultimately show ?thesis using runs_more by fastforce
qed

text \<open>
  Between two stops the manager makes at most \<open>max_connections_per_host\<close> sessions for a host and
  \<open>max_connections\<close> in all, however many of them are closed in between: closing a session does not give back
  the connection borrowed for it.
\<close>

lemma connections_leak:
  assumes "manager_runs (TCPIPPrinterSessionManager_init limit per_host idle) es m" and "Stopped \<notin> set es"
  shows "length (filter (\<lambda>e. e = Created k) es) = length (conns k (cp_active (mg_pool m)))
       \<and> length (filter (\<lambda>e. e = Created k) es) \<le> per_host \<and> length (filter (\<lambda>e. e \<noteq> Other_event) es) \<le> limit
       \<and> (length (filter (\<lambda>e. e = Created (host_key host port)) es) = per_host \<longrightarrow>
            create_printer_session w now dial host port i m = (Inl RuntimeError, m))"
proof -
  note t = runs_tally [OF assms(1) tally_init assms(2)]
  have lim: "cp_max (mg_pool m) = limit" "cp_per_host (mg_pool m) = per_host"
    using t by (simp_all add: TCPIPPrinterSessionManager_init_def TCPIPConnectionPool_init_def)
  have n: "length (filter (\<lambda>e. e = Created k) es) = length (conns k (cp_active (mg_pool m)))"
    "length (conns k (cp_active (mg_pool m))) \<le> cp_per_host (mg_pool m)"
    "length (filter (\<lambda>e. e \<noteq> Other_event) es) \<le> cp_max (mg_pool m)" for k
    using t unfolding tally_def by auto
  have "create_printer_session w now dial host port i m = (Inl RuntimeError, m)"
    if "length (filter (\<lambda>e. e = Created (host_key host port)) es) = per_host"
    using that n(1) [of "host_key host port"] lim
    by (auto simp: create_printer_session_def borrow_connection_def Let_def)
  then show ?thesis using n lim by auto
qed

end
