(* ===== verification/DataFlow.thy ===== *)
theory DataFlow
  imports PrintJobs PrinterPoolProps
begin

text \<open>
  \<open>protocol/protocol_translator.py\<close>, \<open>print_job_extractor.py\<close> and \<open>data_flow_controller.py\<close>: print data
  taken out of a session and routed to printer sessions, over the detector of \<open>PrintJobs\<close> and the manager
  of \<open>PrinterPool\<close>.
\<close>

section \<open>The translator\<close>

record translator =
  tl_active :: bool
  tl_sequence :: int
  tl_type :: "string option"

definition ProtocolTranslator_init :: translator where
  "ProtocolTranslator_init = \<lparr>tl_active = False, tl_sequence = 0, tl_type = None\<rparr>"

text \<open>A header with the next sequence number.\<close>

definition numbered :: "int \<Rightarrow> translator \<Rightarrow> TN3270EHeader \<times> translator" where
  "numbered data_type t =
     (\<lparr>h_data_type = data_type, h_request_flag = 0, h_response_flag = 0, h_seq_number = tl_sequence t\<rparr>,
      t\<lparr>tl_sequence := tl_sequence t + 1\<rparr>)"

definition translate_to_printer_session ::
    "bytes \<Rightarrow> TN3270EHeader option \<Rightarrow> string \<Rightarrow> translator \<Rightarrow> (TN3270EHeader option \<times> bytes) \<times> translator" where
  "translate_to_printer_session data source session_type t =
     (let t1 = t\<lparr>tl_type := Some session_type\<rparr>
      in if session_type = ''tn3270e'' then (case numbered 0x01 t1 of (h, t2) \<Rightarrow> ((Some h, data), t2))
         else if session_type = ''tn3270'' then ((None, data), t1)
         else ((source, data), t1))"

definition translate_from_printer_session ::
    "bytes \<Rightarrow> TN3270EHeader option \<Rightarrow> string \<Rightarrow> translator \<Rightarrow> (TN3270EHeader option \<times> bytes) \<times> translator" where
  "translate_from_printer_session data header target t =
     (if target \<noteq> ''tn3270e'' then ((header, data), t)
      else case header of
             None \<Rightarrow> (case numbered 0x02 t of (h, t1) \<Rightarrow> ((Some h, data), t1))
           | Some p \<Rightarrow> ((Some (p\<lparr>h_data_type := 0x02\<rparr>), data), t))"

definition activate_printer_session :: "string \<Rightarrow> translator \<Rightarrow> translator" where
  "activate_printer_session session_type t = \<lparr>tl_active = True, tl_sequence = 0, tl_type = Some session_type\<rparr>"

definition deactivate_printer_session :: "translator \<Rightarrow> translator" where
  "deactivate_printer_session t = t\<lparr>tl_active := False, tl_type := None\<rparr>"

definition handle_print_job_end :: "translator \<Rightarrow> (TN3270EHeader \<times> bytes) \<times> translator" where
  "handle_print_job_end t = (case numbered 0x08 t of (h, t1) \<Rightarrow> ((h, []), t1))"

text \<open>\<open>bytes([status_code])\<close> raises for what is no byte, after the number was taken.\<close>

definition translate_status_response :: "int \<Rightarrow> translator \<Rightarrow> (py_error + TN3270EHeader \<times> bytes) \<times> translator" where
  "translate_status_response code t =
     (case numbered 0x02 t of
        (h, t1) \<Rightarrow> (if 0 \<le> code \<and> code < 256 then Inr (h, [word_of_int code]) else Inl ValueError, t1))"

section \<open>The extractor\<close>

text \<open>A callback is given by the calls on which it raises.\<close>

record job_info =
  ji_in_print_job :: bool
  ji_number :: int
  ji_length :: nat
  ji_last_type :: "int option"

record extractor =
  ex_detector :: print_detector
  ex_translator :: translator
  ex_callbacks :: "(bytes \<Rightarrow> TN3270EHeader \<Rightarrow> bool) list"
  ex_completions :: "(job_info \<Rightarrow> bool) list"

definition PrintJobExtractor_init :: extractor where
  "PrintJobExtractor_init =
     \<lparr>ex_detector = PrintJobDetector_init, ex_translator = ProtocolTranslator_init, ex_callbacks = [], ex_completions = []\<rparr>"

definition get_job_info :: "print_detector \<Rightarrow> job_info" where
  "get_job_info d =
     \<lparr>ji_in_print_job = in_print_job d, ji_number = job_sequence_number d,
      ji_length = length (get_current_job_data d), ji_last_type = map_option h_data_type (last_header d)\<rparr>"

definition register_extraction_callback :: "(bytes \<Rightarrow> TN3270EHeader \<Rightarrow> bool) \<Rightarrow> extractor \<Rightarrow> extractor" where
  "register_extraction_callback f e = e\<lparr>ex_callbacks := ex_callbacks e @ [f]\<rparr>"

definition register_job_completion_callback :: "(job_info \<Rightarrow> bool) \<Rightarrow> extractor \<Rightarrow> extractor" where
  "register_job_completion_callback f e = e\<lparr>ex_completions := ex_completions e @ [f]\<rparr>"

text \<open>\<open>None\<close> is the \<open>ProtocolError\<close> of a callback that raised.\<close>

definition process_data_stream ::
    "bytes \<Rightarrow> TN3270EHeader option \<Rightarrow> extractor \<Rightarrow> (bytes \<times> bytes option) option \<times> extractor" where
  "process_data_stream data header e =
     (case detect_print_job data header (ex_detector e) of
        (False, d) \<Rightarrow> (Some (data, None), e\<lparr>ex_detector := d\<rparr>)
      | (True, d) \<Rightarrow>
          (case extract_print_data data header d of
             ((session, print), d1) \<Rightarrow>
               if print = [] then (Some (session, None), e\<lparr>ex_detector := d1\<rparr>)
               else case translate_to_printer_session print header ''tn3270e'' (ex_translator e) of
                      ((h, out), t) \<Rightarrow>
                        (if list_ex (\<lambda>f. f out (case h of Some x \<Rightarrow> x | None \<Rightarrow> TN3270EHeader_default\<lparr>h_data_type := 0x01\<rparr>))
                              (ex_callbacks e)
                         then None else Some (session, Some out),
                         e\<lparr>ex_detector := d1, ex_translator := t\<rparr>)))"

definition extractor_end_print_job :: "extractor \<Rightarrow> (TN3270EHeader \<times> bytes) option option \<times> extractor" where
  "extractor_end_print_job e =
     (if \<not> in_print_job (ex_detector e) then (Some None, e)
      else case handle_print_job_end (ex_translator e) of
             (m, t) \<Rightarrow>
               if list_ex (\<lambda>f. f (get_job_info (ex_detector e))) (ex_completions e)
               then (None, e\<lparr>ex_translator := t\<rparr>)
               else (Some (Some m), e\<lparr>ex_translator := t, ex_detector := reset_detector (ex_detector e)\<rparr>))"

definition reset_extractor :: "extractor \<Rightarrow> extractor" where
  "reset_extractor e =
     e\<lparr>ex_detector := reset_detector (ex_detector e), ex_translator := deactivate_printer_session (ex_translator e)\<rparr>"

definition configure_printer_session :: "string \<Rightarrow> extractor \<Rightarrow> extractor" where
  "configure_printer_session ty e = e\<lparr>ex_translator := activate_printer_session ty (ex_translator e)\<rparr>"

definition handle_printer_status :: "int \<Rightarrow> extractor \<Rightarrow> (py_error + TN3270EHeader \<times> bytes) \<times> extractor" where
  "handle_printer_status code e =
     (case translate_status_response code (ex_translator e) of (r, t) \<Rightarrow> (r, e\<lparr>ex_translator := t\<rparr>))"

section \<open>The controller\<close>

record printer_flow =
  fl_session :: string
  fl_main :: string
  fl_host :: string
  fl_port :: nat

record data_flow =
  df_manager :: manager
  df_detector :: print_detector
  df_translator :: translator
  df_flows :: "(string \<times> printer_flow) list"
  df_bytes :: nat
  df_detected :: nat
  df_routed :: nat
  df_sessions :: int
  df_errors :: nat
  df_started :: bool

text \<open>What the network does during one operation: see \<open>PrinterPool\<close>.\<close>

record network =
  nw_wires :: wires
  nw_now :: int
  nw_dial :: dialled
  nw_transfer :: transfer

datatype flow_error = Not_started | Protocol_error

definition DataFlowController_init :: "manager \<Rightarrow> data_flow" where
  "DataFlowController_init m =
     \<lparr>df_manager = m, df_detector = PrintJobDetector_init, df_translator = ProtocolTranslator_init, df_flows = [],
      df_bytes = 0, df_detected = 0, df_routed = 0, df_sessions = 0, df_errors = 0, df_started = False\<rparr>"

definition controller_start :: "data_flow \<Rightarrow> tcp_error option \<times> data_flow" where
  "controller_start c =
     (if df_started c then (None, c)
      else case manager_start (df_manager c) of
             (Some e, m) \<Rightarrow> (Some e, c\<lparr>df_manager := m\<rparr>)
           | (None, m) \<Rightarrow> (None, c\<lparr>df_manager := m, df_started := True\<rparr>))"

text \<open>\<open>True\<close> for a close that raises.\<close>

definition close_flow :: "network \<Rightarrow> string \<Rightarrow> data_flow \<Rightarrow> bool \<times> data_flow" where
  "close_flow nw fid c =
     (case map_of (df_flows c) fid of
        None \<Rightarrow> (False, c)
      | Some f \<Rightarrow>
          (let c1 = c\<lparr>df_flows := AList.delete fid (df_flows c)\<rparr>;
               (eoj_error, c2) =
                 (if tl_active (df_translator c1)
                  then case handle_print_job_end (df_translator c1) of
                         ((h, data), t) \<Rightarrow>
                           if data = [] then (None, c1\<lparr>df_translator := t\<rparr>)
                           else (case send_print_job (nw_wires nw) (nw_now nw) (nw_transfer nw) (fl_session f) (df_manager c1) of
                                   (e, m) \<Rightarrow> (e, c1\<lparr>df_translator := t, df_manager := m\<rparr>))
                  else (None, c1))
           in if eoj_error \<noteq> None then (True, c2)
              else case close_printer_session (nw_wires nw) (nw_now nw) (fl_session f) (df_manager c2) of
                     (Some e, m) \<Rightarrow> (True, c2\<lparr>df_manager := m\<rparr>)
                   | (None, m) \<Rightarrow>
                       (False, c2\<lparr>df_manager := m, df_translator := deactivate_printer_session (df_translator c2),
                                  df_sessions := df_sessions c2 - 1\<rparr>)))"

definition create_printer_flow ::
    "network \<Rightarrow> string \<Rightarrow> string \<Rightarrow> string option \<Rightarrow> nat \<Rightarrow> data_flow \<Rightarrow> printer_flow option \<times> data_flow" where
  "create_printer_flow nw fid main host port c =
     (case host of
        None \<Rightarrow> (None, c)
      | Some h \<Rightarrow>
          if h = [] then (None, c)
          else case create_printer_session (nw_wires nw) (nw_now nw) (nw_dial nw) h port (Some (fid @ ''_session'')) (df_manager c) of
                 (Inl e, m) \<Rightarrow> (None, c\<lparr>df_manager := m\<rparr>)
               | (Inr sid, m) \<Rightarrow>
                   (let f = \<lparr>fl_session = sid, fl_main = main, fl_host = h, fl_port = port\<rparr>
                    in (Some f, c\<lparr>df_manager := m, df_translator := activate_printer_session ''tn3270e'' (df_translator c),
                                  df_sessions := df_sessions c + 1, df_flows := AList.update fid f (df_flows c)\<rparr>)))"

text \<open>The handler of an exception in \<open>_route_print_data\<close>: it counts, closes the flow and raises.\<close>

definition route_failed :: "network \<Rightarrow> string \<Rightarrow> data_flow \<Rightarrow> bool \<times> data_flow" where
  "route_failed nw fid c = (True, snd (close_flow nw fid (c\<lparr>df_errors := Suc (df_errors c)\<rparr>)))"

definition route_print_data ::
    "network \<Rightarrow> bytes \<Rightarrow> TN3270EHeader option \<Rightarrow> string \<Rightarrow> string option \<Rightarrow> nat \<Rightarrow> data_flow \<Rightarrow> bool \<times> data_flow" where
  "route_print_data nw print header main host port c =
     (let fid = main @ ''_printer'';
          (flow, c1) = (case map_of (df_flows c) fid of
                          Some f \<Rightarrow> (Some f, c)
                        | None \<Rightarrow> create_printer_flow nw fid main host port c)
      in case flow of
           None \<Rightarrow> route_failed nw fid c1
         | Some f \<Rightarrow>
             (case translate_to_printer_session print header ''tn3270e'' (df_translator c1) of
                ((h, out), t) \<Rightarrow>
                  (case send_print_job (nw_wires nw) (nw_now nw) (nw_transfer nw) (fl_session f) (df_manager c1) of
                     (Some e, m) \<Rightarrow> route_failed nw fid (c1\<lparr>df_translator := t, df_manager := m\<rparr>)
                   | (None, m) \<Rightarrow> (False, c1\<lparr>df_translator := t, df_manager := m, df_routed := Suc (df_routed c1)\<rparr>))))"

definition process_main_session_data ::
    "network \<Rightarrow> bytes \<Rightarrow> TN3270EHeader option \<Rightarrow> string \<Rightarrow> string option \<Rightarrow> nat \<Rightarrow> data_flow
       \<Rightarrow> (flow_error + bytes \<times> TN3270EHeader option) \<times> data_flow" where
  "process_main_session_data nw data header main host port c =
     (if \<not> df_started c then (Inl Not_started, c)
      else let c1 = c\<lparr>df_bytes := df_bytes c + length data\<rparr>
           in case detect_print_job data header (df_detector c1) of
                (False, d) \<Rightarrow> (Inr (data, header), c1\<lparr>df_detector := d\<rparr>)
              | (True, d) \<Rightarrow>
                  (case extract_print_data data header d of
                     ((rest_data, print), d1) \<Rightarrow>
                       (let c2 = c1\<lparr>df_detector := d1, df_detected := Suc (df_detected c1)\<rparr>
                        in if print = [] then (Inr (rest_data, header), c2)
                           else case route_print_data nw print header main host port c2 of
                                  (False, c3) \<Rightarrow> (Inr (rest_data, header), c3)
                                | (True, c3) \<Rightarrow> (Inl Protocol_error, c3\<lparr>df_errors := Suc (df_errors c3)\<rparr>))))"

definition handle_print_job_completion :: "network \<Rightarrow> string \<Rightarrow> data_flow \<Rightarrow> bool \<times> data_flow" where
  "handle_print_job_completion nw main = close_flow nw (main @ ''_printer'')"

definition controller_stop :: "network \<Rightarrow> data_flow \<Rightarrow> tcp_error option \<times> data_flow" where
  "controller_stop nw c =
     (if \<not> df_started c then (None, c)
      else let c1 = fold (\<lambda>fid. snd \<circ> close_flow nw fid) (map fst (df_flows c)) c
           in case manager_stop (nw_wires nw) (nw_now nw) (df_manager c1) of
                (Some e, m) \<Rightarrow> (Some e, c1\<lparr>df_manager := m\<rparr>)
              | (None, m) \<Rightarrow> (None, c1\<lparr>df_manager := m, df_started := False\<rparr>))"

section \<open>No print data arrives\<close>

inductive flow_step :: "data_flow \<Rightarrow> data_flow \<Rightarrow> bool" where
  fl_start: "flow_step c (snd (controller_start c))"
| fl_process: "flow_step c (snd (process_main_session_data nw data header main host port c))"
| fl_complete: "flow_step c (snd (handle_print_job_completion nw main c))"
| fl_stop: "flow_step c (snd (controller_stop nw c))"
| fl_manager: "manager_step (df_manager c) e m \<Longrightarrow> flow_step c (c\<lparr>df_manager := m\<rparr>)"

definition flow_ok :: "data_flow \<Rightarrow> bool" where
  "flow_ok c \<longleftrightarrow> manager_ok (df_manager c) \<and> df_routed c = 0"

lemma manager_step_ok: "manager_step m e m' \<Longrightarrow> manager_ok m \<Longrightarrow> manager_ok m'"
  using runs_ok [of m "[] @ [e]" m'] runs_more [OF runs_none] by blast

lemma send_fails: "manager_ok m \<Longrightarrow> send_print_job w now tr i m = (Some RuntimeError, m)"
  by (simp add: send_print_job_def through_fails)

lemma close_flow_ok:
  assumes "flow_ok c"
  shows "flow_ok (snd (close_flow nw fid c)) \<and> df_errors (snd (close_flow nw fid c)) = df_errors c
       \<and> df_detector (snd (close_flow nw fid c)) = df_detector c \<and> df_started (snd (close_flow nw fid c)) = df_started c"
proof (cases "map_of (df_flows c) fid")
  case (Some f)
  have m: "manager_ok (df_manager c)" using assms by (simp add: flow_ok_def)
  from close_keeps [OF m] have "manager_ok (snd (close_printer_session w now i (df_manager c)))" for w now i by blast
  then show ?thesis using assms Some
    by (auto simp: close_flow_def flow_ok_def handle_print_job_end_def numbered_def Let_def case_prod_unfold
        split: option.split prod.split dest: arg_cong [of _ _ snd])
qed (use assms in \<open>simp add: close_flow_def\<close>)

lemma create_flow_ok:
  assumes "flow_ok c"
  shows "flow_ok (snd (create_printer_flow nw fid main host port c))
       \<and> df_errors (snd (create_printer_flow nw fid main host port c)) = df_errors c
       \<and> df_detector (snd (create_printer_flow nw fid main host port c)) = df_detector c
       \<and> df_started (snd (create_printer_flow nw fid main host port c)) = df_started c"
proof -
  have "manager_ok m'" if "create_printer_session w now dial h port sid (df_manager c) = (r, m')" for w now dial h port sid r m'
    using create_cases [OF _ that] assms unfolding flow_ok_def by metis
  then show ?thesis using assms
    by (auto simp: create_printer_flow_def flow_ok_def Let_def split: option.split prod.split sum.split)
qed

lemma route_fails:
  assumes "flow_ok c"
  shows "fst (route_print_data nw print header main host port c)
       \<and> flow_ok (snd (route_print_data nw print header main host port c))
       \<and> df_errors (snd (route_print_data nw print header main host port c)) = Suc (df_errors c)
       \<and> df_detector (snd (route_print_data nw print header main host port c)) = df_detector c
       \<and> df_started (snd (route_print_data nw print header main host port c)) = df_started c"
proof -
  let ?fid = "main @ ''_printer''"
  have failed: "fst (route_failed nw ?fid x) \<and> flow_ok (snd (route_failed nw ?fid x))
      \<and> df_errors (snd (route_failed nw ?fid x)) = Suc (df_errors x)
      \<and> df_detector (snd (route_failed nw ?fid x)) = df_detector x
      \<and> df_started (snd (route_failed nw ?fid x)) = df_started x" if "flow_ok x" for x
  proof -
    have "flow_ok (x\<lparr>df_errors := Suc (df_errors x)\<rparr>)" using that by (simp add: flow_ok_def)
    from close_flow_ok [OF this] show ?thesis by (simp add: route_failed_def)
  qed
  define fc where "fc = (case map_of (df_flows c) ?fid of Some f \<Rightarrow> (Some f, c) | None \<Rightarrow> create_printer_flow nw ?fid main host port c)"
  have fc: "flow_ok (snd fc)" "df_errors (snd fc) = df_errors c" "df_detector (snd fc) = df_detector c"
    "df_started (snd fc) = df_started c"
    using assms create_flow_ok [OF assms] by (auto simp: fc_def split: option.split)
  have sf: "send_print_job w now tr i (df_manager (snd fc)) = (Some RuntimeError, df_manager (snd fc))" for w now tr i
    using fc(1) by (simp add: send_fails flow_ok_def)
  have route: "route_print_data nw print header main host port c = route_failed nw ?fid
     (case fst fc of None \<Rightarrow> snd fc
      | Some f \<Rightarrow> (snd fc)\<lparr>df_translator := snd (translate_to_printer_session print header ''tn3270e'' (df_translator (snd fc))),
           df_manager := df_manager (snd fc)\<rparr>)"
    unfolding route_print_data_def Let_def fc_def [symmetric] case_prod_unfold
    by (simp add: sf split: option.split)
  have "flow_ok ((snd fc)\<lparr>df_translator := t, df_manager := df_manager (snd fc)\<rparr>)" for t
    using fc(1) by (simp add: flow_ok_def)
  from failed [OF this] failed [OF fc(1)] show ?thesis
    by (simp add: route fc split: option.split)
qed

text \<open>Whatever is found to be print data is answered by an exception.\<close>

lemma process_found:
  assumes "flow_ok c" and "df_started c" and "detect_print_job data header (df_detector c) = (True, d)"
    and "extract_print_data data header d = ((out, print), d1)" and "print \<noteq> []"
  shows "fst (process_main_session_data nw data header main host port c) = Inl Protocol_error
       \<and> flow_ok (snd (process_main_session_data nw data header main host port c))
       \<and> df_errors (snd (process_main_session_data nw data header main host port c)) = df_errors c + 2
       \<and> df_detector (snd (process_main_session_data nw data header main host port c)) = d1
       \<and> df_started (snd (process_main_session_data nw data header main host port c))"
proof -
  let ?c = "c\<lparr>df_bytes := df_bytes c + length data, df_detector := d1, df_detected := Suc (df_detected c)\<rparr>"
  have "flow_ok ?c" using assms(1) by (simp add: flow_ok_def)
  note r = route_fails [OF this, of nw print header main host port]
  obtain c3 where c3: "route_print_data nw print header main host port ?c = (True, c3)" using r by (metis prod.collapse)
  then show ?thesis using r assms by (simp add: process_main_session_data_def Let_def flow_ok_def)
qed

lemma process_ok:
  assumes "flow_ok c"
  shows "flow_ok (snd (process_main_session_data nw data header main host port c))"
proof -
  obtain b d where d: "detect_print_job data header (df_detector c) = (b, d)" by fastforce
  obtain out print d1 where x: "extract_print_data data header d = ((out, print), d1)" by (metis prod.collapse)
  show ?thesis
  proof (cases "df_started c \<and> b \<and> print \<noteq> []")
    case True
    then show ?thesis using process_found [OF assms _ _ x] d by simp
  next
    case False
    then show ?thesis using assms d x
      by (auto simp: process_main_session_data_def Let_def flow_ok_def split: bool.split)
  qed
qed

lemma flow_step_ok:
  assumes "flow_step c c'" and "flow_ok c"
  shows "flow_ok c'"
  using assms
proof (induction rule: flow_step.induct)
  case (fl_start c)
  then show ?case
    using manager_step_ok [OF mg_start, of "df_manager c"]
    by (auto simp: controller_start_def flow_ok_def split: prod.split option.split dest: arg_cong [of _ _ snd])
next
  case (fl_stop c nw)
  have f: "flow_ok (fold (\<lambda>fid. snd \<circ> close_flow nw fid) fids x)" if "flow_ok x" for fids x
    using that by (induction fids arbitrary: x) (simp_all add: close_flow_ok)
  from f [OF fl_stop] have "manager_ok (snd (manager_stop w now (df_manager (fold (\<lambda>fid. snd \<circ> close_flow nw fid) fids c))))"
    for fids w now
    using manager_step_ok [OF mg_stop] by (simp add: flow_ok_def)
  then show ?case using f [OF fl_stop] fl_stop
    by (simp add: controller_stop_def Let_def flow_ok_def case_prod_unfold split: option.split)
next
  case (fl_manager c e m)
  then show ?case using manager_step_ok by (simp add: flow_ok_def)
qed (simp_all add: process_ok handle_print_job_completion_def close_flow_ok)

lemma flow_steps_ok:
  assumes "flow_step\<^sup>*\<^sup>* c c'" and "flow_ok c"
  shows "flow_ok c'"
  using assms by (induction rule: rtranclp_induct) (auto intro: flow_step_ok)

lemma controller_init_ok: "flow_ok (DataFlowController_init (TCPIPPrinterSessionManager_init limit per_host idle))"
  using manager_init_ok by (simp add: flow_ok_def DataFlowController_init_def)

text \<open>Chunks one after the other, each with its network.\<close>

type_synonym chunk = "network \<times> bytes \<times> TN3270EHeader option \<times> string \<times> string option \<times> nat"

fun feed :: "chunk list \<Rightarrow> data_flow \<Rightarrow> (flow_error + bytes \<times> TN3270EHeader option) list \<times> data_flow" where
  "feed [] c = ([], c)"
| "feed ((nw, data, header, main, host, port) # chunks) c =
     (case process_main_session_data nw data header main host port c of
        (r, c1) \<Rightarrow> (case feed chunks c1 of (rs, c2) \<Rightarrow> (r # rs, c2)))"

definition no_job_end :: "TN3270EHeader option \<Rightarrow> bool" where
  "no_job_end header \<longleftrightarrow> (case header of None \<Rightarrow> True | Some h \<Rightarrow> h_data_type h \<noteq> 0x08)"

lemma extract_in_job:
  assumes "in_print_job d" and "no_job_end header"
  obtains d' where "extract_print_data data header d = (([], data), d')" and "in_print_job d'"
  using detect_keeps_or_starts [of d header data] assms
  by (auto simp: extract_print_data_def no_job_end_def split: option.splits)

lemma process_in_job:
  assumes "flow_ok c" and "df_started c" and "detect_print_job data header (df_detector c) = (True, d)"
    and "in_print_job d" and "no_job_end header" and "data \<noteq> []"
  shows "fst (process_main_session_data nw data header main host port c) = Inl Protocol_error
       \<and> flow_ok (snd (process_main_session_data nw data header main host port c))
       \<and> df_errors (snd (process_main_session_data nw data header main host port c)) = df_errors c + 2
       \<and> in_print_job (df_detector (snd (process_main_session_data nw data header main host port c)))
       \<and> df_started (snd (process_main_session_data nw data header main host port c))"
proof -
  obtain d1 where "extract_print_data data header d = (([], data), d1)" "in_print_job d1"
    using extract_in_job [OF assms(4,5)] by blast
  with process_found [OF assms(1-3) this(1) assms(6)] show ?thesis by simp
qed

lemma feed_in_job:
  assumes "flow_ok c" and "df_started c" and "in_print_job (df_detector c)"
    and "list_all (\<lambda>(nw, data, header, main, host, port). data \<noteq> [] \<and> no_job_end header) chunks"
  shows "list_all (\<lambda>r. r = Inl Protocol_error) (fst (feed chunks c)) \<and> df_routed (snd (feed chunks c)) = 0
       \<and> df_errors (snd (feed chunks c)) = df_errors c + 2 * length chunks"
  using assms
proof (induction chunks arbitrary: c)
  case Nil
  then show ?case by (simp add: flow_ok_def)
next
  case (Cons x chunks)
  obtain nw data header main host port where x: "x = (nw, data, header, main, host, port)" by (cases x) auto
  have h: "data \<noteq> []" "no_job_end header" using Cons.prems(4) x by simp_all
  obtain d where d: "detect_print_job data header (df_detector c) = (True, d)" "in_print_job d"
    using detect_keeps_or_starts [OF Cons.prems(3), of header data] h(2) Cons.prems(3)
    by (auto simp: no_job_end_def split: option.splits)
  note p = process_in_job [OF Cons.prems(1,2) d h(2,1), of nw main host port]
  then show ?case using Cons.IH [of "snd (process_main_session_data nw data header main host port c)"] Cons.prems(4) x
    by (simp add: case_prod_unfold)
qed

lemma blanks_detected:
  assumes "3 \<le> length (filter (\<lambda>b. b = 0x40) (take 20 data))" and "\<forall>h. header = Some h \<longrightarrow> h_data_type h = 0x00"
  obtains d' where "detect_print_job data header d = (True, d')" and "in_print_job d'" and "data \<noteq> []"
proof -
  have n: "length (filter (\<lambda>b. b = 0x40) xs) \<le> length (filter (\<lambda>b. b < 0x20 \<or> b = 0x40) xs)" for xs :: bytes
    by (induction xs) auto
  have "length (filter (\<lambda>b. b = 0x40) (take 20 data)) \<le> length data"
    using length_filter_le [of "\<lambda>b. b = 0x40" "take 20 data"] by simp
  then have "3 \<le> length data" and scs: "contains_scs_indicators data"
    using assms(1) n [of "take 20 data"] by (auto simp: contains_scs_indicators_def)
  then have "data \<noteq> []" by auto
  with scs show thesis
    using assms(2) that
    by (cases header) (auto simp: detect_print_job_def detect_by_content_def Let_def)
qed

text \<open>
  A session that is led through the controller is lost at the first record with three blanks among its
  first 20 bytes: the record is taken for print data, no printer session can take it, and the call raises;
  from then on every record but one with the header of an end of job is answered by an exception, whatever
  the network does, and nothing of it reaches the session or a printer.
\<close>

lemma blanks_stop_the_session:
  assumes "flow_step\<^sup>*\<^sup>* (DataFlowController_init (TCPIPPrinterSessionManager_init limit per_host idle)) c" and "df_started c"
    and "3 \<le> length (filter (\<lambda>b. b = 0x40) (take 20 data))" and "\<forall>h. header = Some h \<longrightarrow> h_data_type h = 0x00"
    and "list_all (\<lambda>(nw, data, header, main, host, port). data \<noteq> [] \<and> no_job_end header) chunks"
  shows "list_all (\<lambda>r. r = Inl Protocol_error) (fst (feed ((nw, data, header, main, host, port) # chunks) c))
       \<and> df_routed (snd (feed ((nw, data, header, main, host, port) # chunks) c)) = 0
       \<and> df_errors (snd (feed ((nw, data, header, main, host, port) # chunks) c)) = df_errors c + 2 * Suc (length chunks)"
proof -
  have ok: "flow_ok c" using assms(1) controller_init_ok by (rule flow_steps_ok)
  obtain d where d: "detect_print_job data header (df_detector c) = (True, d)" "in_print_job d" "data \<noteq> []"
    using blanks_detected [OF assms(3,4)] by blast
  have "no_job_end header" using assms(4) by (auto simp: no_job_end_def split: option.split)
  note p = process_in_job [OF ok assms(2) d(1,2) this d(3), of nw main host port]
  from feed_in_job [OF _ _ _ assms(5), of "snd (process_main_session_data nw data header main host port c)"] p
  show ?thesis by (simp add: case_prod_unfold)
qed

definition demo_network :: network where
  "demo_network = \<lparr>nw_wires = all_up, nw_now = 1, nw_dial = demo_dial, nw_transfer = Done_well\<rparr>"

definition demo_controller :: data_flow where
  "demo_controller = snd (controller_start (DataFlowController_init (TCPIPPrinterSessionManager_init 10 2 300)))"

end
