(* ===== verification/ErrorHandler.thy ===== *)
theory ErrorHandler
  imports FieldAttributes PyText "HOL-Library.AList"
begin

text \<open>
  \<open>protocol/printer_error_handler.py\<close>: errors put into categories and the strategies tried for each. An
  error is its class, its text and the operation of its context; whether \<open>asyncio.TimeoutError\<close> is an
  \<open>OSError\<close> depends on the Python version (it is from 3.11 on) and is an argument. The callback of a recovery
  is given by the calls that succeed; a call may also fail by running into the timeout.
\<close>

section \<open>Categories\<close>

datatype severity = Sev_low | Sev_medium | Sev_high | Sev_critical

datatype error_category =
  Cat_connection | Cat_protocol | Cat_timeout | Cat_data | Cat_session | Cat_resource | Cat_unknown

datatype strategy = St_retry | St_reconnect | St_reset | St_failover | St_escalate | St_ignore

fun category_value :: "error_category \<Rightarrow> string" where
  "category_value Cat_connection = ''connection''"
| "category_value Cat_protocol = ''protocol''"
| "category_value Cat_timeout = ''timeout''"
| "category_value Cat_data = ''data''"
| "category_value Cat_session = ''session''"
| "category_value Cat_resource = ''resource''"
| "category_value Cat_unknown = ''unknown''"

datatype exception_class =
    Ex_os | Ex_value | Ex_type | Ex_timeout | Ex_runtime | Ex_memory | Ex_pure3270 "string option" | Ex_other

record exc =
  exc_class :: exception_class
  exc_text :: string

definition mentions :: "string \<Rightarrow> exc \<Rightarrow> bool" where
  "mentions w e \<longleftrightarrow> py_contains w (lower (exc_text e))"

definition classify_error :: "bool \<Rightarrow> exc \<Rightarrow> error_category \<times> severity" where
  "classify_error timeout_is_os e =
     (let c = exc_class e
      in if c = Ex_os \<or> timeout_is_os \<and> c = Ex_timeout
         then if mentions ''timeout'' e then (Cat_timeout, Sev_medium) else (Cat_connection, Sev_high)
         else if c = Ex_value \<or> c = Ex_type \<or> mentions ''protocol'' e then (Cat_protocol, Sev_high)
         else if c = Ex_timeout \<or> mentions ''timeout'' e then (Cat_timeout, Sev_medium)
         else if mentions ''session'' e \<or> c = Ex_runtime then (Cat_session, Sev_high)
         else if c = Ex_memory \<and> mentions ''resource'' e then (Cat_resource, Sev_critical)
         else case c of
                Ex_pure3270 op \<Rightarrow>
                  if op = Some ''connection'' then (Cat_connection, Sev_high)
                  else if op = Some ''protocol'' then (Cat_protocol, Sev_high)
                  else if op = Some ''timeout'' then (Cat_timeout, Sev_medium)
                  else (Cat_unknown, Sev_medium)
              | _ \<Rightarrow> (Cat_unknown, Sev_medium))"

section \<open>The handler\<close>

record error_handler =
  eh_max_retries :: int
  eh_base_delay :: int
  eh_max_delay :: int
  eh_escalation :: bool
  eh_counts :: "(string \<times> nat) list"
  eh_last :: "(string \<times> int) list"
  eh_strategies :: "(error_category \<times> strategy list) list"

definition build_recovery_strategies :: "(error_category \<times> strategy list) list" where
  "build_recovery_strategies =
     [(Cat_connection, [St_reconnect, St_retry, St_escalate]),
      (Cat_protocol, [St_reset, St_retry, St_escalate]),
      (Cat_timeout, [St_retry, St_reconnect, St_escalate]),
      (Cat_data, [St_retry, St_reset, St_escalate]),
      (Cat_session, [St_reconnect, St_reset, St_escalate]),
      (Cat_resource, [St_retry, St_failover, St_escalate]),
      (Cat_unknown, [St_retry, St_escalate])]"

definition PrinterErrorHandler_init :: "int \<Rightarrow> int \<Rightarrow> int \<Rightarrow> bool \<Rightarrow> error_handler" where
  "PrinterErrorHandler_init max_retries base_delay max_delay escalation =
     \<lparr>eh_max_retries = max_retries, eh_base_delay = base_delay, eh_max_delay = max_delay,
      eh_escalation = escalation, eh_counts = [], eh_last = [], eh_strategies = build_recovery_strategies\<rparr>"

text \<open>
  The retries from attempt \<open>i\<close>, with a number left, when \<open>n\<close> calls of the callback were made before: whether
  one succeeded, the calls made by then and the time slept.
\<close>

definition retry_delay :: "error_handler \<Rightarrow> nat \<Rightarrow> int" where
  "retry_delay h i = min (eh_base_delay h * 2 ^ i) (eh_max_delay h)"

fun retry_operation :: "error_handler \<Rightarrow> (nat \<Rightarrow> bool) \<Rightarrow> nat \<Rightarrow> nat \<Rightarrow> nat \<Rightarrow> bool \<times> nat \<times> int" where
  "retry_operation h cb i 0 n = (False, n, 0)"
| "retry_operation h cb i (Suc left) n =
     (let d = max 0 (retry_delay h i)
      in if cb n then (True, Suc n, d)
         else case retry_operation h cb (Suc i) left (Suc n) of (r, m, t) \<Rightarrow> (r, m, d + t))"

text \<open>
  One strategy. The three that call the callback once raise when it fails, and \<open>_attempt_recovery\<close> goes on to
  the next strategy as it does for \<open>False\<close>.
\<close>

definition execute_recovery_strategy ::
    "error_handler \<Rightarrow> (nat \<Rightarrow> bool) option \<Rightarrow> strategy \<Rightarrow> nat \<Rightarrow> bool \<times> nat \<times> int" where
  "execute_recovery_strategy h cb s n =
     (case s of
        St_escalate \<Rightarrow> (False, n, 0)
      | St_ignore \<Rightarrow> (True, n, 0)
      | _ \<Rightarrow>
          (case cb of
             None \<Rightarrow> (False, n, 0)
           | Some f \<Rightarrow> if s = St_retry then retry_operation h f 0 (nat (eh_max_retries h)) n else (f n, Suc n, 0)))"

fun attempt_recovery :: "error_handler \<Rightarrow> (nat \<Rightarrow> bool) option \<Rightarrow> strategy list \<Rightarrow> nat \<Rightarrow> bool \<times> nat \<times> int" where
  "attempt_recovery h cb [] n = (False, n, 0)"
| "attempt_recovery h cb (s # ss) n =
     (case execute_recovery_strategy h cb s n of
        (True, m, t) \<Rightarrow> (True, m, t)
      | (False, m, t) \<Rightarrow> (case attempt_recovery h cb ss m of (r, m1, t1) \<Rightarrow> (r, m1, t + t1)))"

definition strategies_for :: "error_handler \<Rightarrow> error_category \<Rightarrow> strategy list" where
  "strategies_for h c = (case map_of (eh_strategies h) c of None \<Rightarrow> [St_escalate] | Some ss \<Rightarrow> ss)"

definition handle_error ::
    "bool \<Rightarrow> int \<Rightarrow> exc \<Rightarrow> string \<Rightarrow> (nat \<Rightarrow> bool) option \<Rightarrow> error_handler \<Rightarrow> (bool \<times> nat \<times> int) \<times> error_handler" where
  "handle_error timeout_is_os now e operation cb h =
     (let (c, sev) = classify_error timeout_is_os e;
          k = category_value c @ '':'' @ operation;
          h1 = h\<lparr>eh_counts := AList.update k (Suc (case map_of (eh_counts h) k of None \<Rightarrow> 0 | Some n \<Rightarrow> n)) (eh_counts h),
                 eh_last := AList.update k now (eh_last h)\<rparr>
      in (attempt_recovery h1 cb (strategies_for h1 c) 0, h1))"

definition total_errors :: "error_handler \<Rightarrow> nat" where
  "total_errors h = sum_list (map snd (eh_counts h))"

definition recent_errors :: "int \<Rightarrow> error_handler \<Rightarrow> (string \<times> nat) list" where
  "recent_errors now h =
     filter (\<lambda>(k, n). (case map_of (eh_last h) k of None \<Rightarrow> 0 | Some t \<Rightarrow> t) > now - 3600) (eh_counts h)"

definition reset_error_stats :: "error_handler \<Rightarrow> error_handler" where
  "reset_error_stats h = h\<lparr>eh_counts := [], eh_last := []\<rparr>"

text \<open>\<open>list.insert\<close>: an index below zero counts from the end, and one past an end is that end.\<close>

definition py_insert :: "int \<Rightarrow> 'a \<Rightarrow> 'a list \<Rightarrow> 'a list" where
  "py_insert i x xs = (let n = nat (py_bound (int (length xs)) i) in take n xs @ x # drop n xs)"

definition add_recovery_strategy :: "error_category \<Rightarrow> strategy \<Rightarrow> int \<Rightarrow> error_handler \<Rightarrow> error_handler" where
  "add_recovery_strategy c s prio h =
     (let ss = (case map_of (eh_strategies h) c of None \<Rightarrow> [] | Some ss \<Rightarrow> ss)
      in h\<lparr>eh_strategies := AList.update c (if s \<in> set ss then ss else py_insert prio s ss) (eh_strategies h)\<rparr>)"

section \<open>What a recovery comes to\<close>

text \<open>How many calls of the callback a list of strategies may make, up to one that ignores the error.\<close>

fun budget :: "error_handler \<Rightarrow> strategy list \<Rightarrow> nat" where
  "budget h [] = 0"
| "budget h (s # ss) =
     (case s of
        St_retry \<Rightarrow> nat (eh_max_retries h) + budget h ss
      | St_escalate \<Rightarrow> budget h ss
      | St_ignore \<Rightarrow> 0
      | _ \<Rightarrow> Suc (budget h ss))"

text \<open>The specification: the callback is called until it succeeds or the calls are used up.\<close>

definition tries :: "(nat \<Rightarrow> bool) \<Rightarrow> nat \<Rightarrow> nat \<Rightarrow> bool \<times> nat" where
  "tries cb n k = (if \<exists>i < k. cb (n + i) then (True, Suc (n + (LEAST i. cb (n + i)))) else (False, n + k))"

lemma tries_0 [simp]: "tries cb n 0 = (False, n)"
  by (simp add: tries_def)

lemma tries_Suc: "tries cb n (Suc k) = (if cb n then (True, Suc n) else tries cb (Suc n) k)"
proof (cases "cb n")
  case True
  then have "(LEAST i. cb (n + i)) = 0" by (intro Least_equality) auto
  then show ?thesis using True by (auto simp: tries_def)
next
  case False
  have ex: "(\<exists>i < Suc k. cb (n + i)) \<longleftrightarrow> (\<exists>i < k. cb (Suc n + i))"
    using False by (auto simp: less_Suc_eq_0_disj)
  have "(LEAST i. cb (n + i)) = Suc (LEAST i. cb (Suc n + i))" if "\<exists>i < k. cb (Suc n + i)"
  proof -
    from that obtain j where "cb (n + Suc j)" by auto
    then have "(LEAST i. cb (n + i)) = Suc (LEAST m. cb (n + Suc m))" using False Least_Suc [of "\<lambda>i. cb (n + i)" "Suc j"] by simp
    then show ?thesis by simp
  qed
  then show ?thesis using False ex by (auto simp: tries_def)
qed

lemma tries_add: "tries cb n (j + k) = (case tries cb n j of (True, m) \<Rightarrow> (True, m) | (False, m) \<Rightarrow> tries cb m k)"
  by (induction j arbitrary: n) (simp_all add: tries_Suc)

lemma retry_tries: "(case retry_operation h cb i k n of (r, m, t) \<Rightarrow> (r, m)) = tries cb n k"
  by (induction k arbitrary: i n) (auto simp: tries_Suc Let_def case_prod_unfold)

lemma attempt_tries:
  assumes "St_ignore \<notin> set ss"
  shows "(case attempt_recovery h (Some cb) ss n of (r, m, t) \<Rightarrow> (r, m)) = tries cb n (budget h ss)"
  using assms
proof (induction ss arbitrary: n)
  case (Cons s ss)
  have ih: "(case attempt_recovery h (Some cb) ss m of (r, m, t) \<Rightarrow> (r, m)) = tries cb m (budget h ss)" for m
    using Cons by simp
  show ?case
  proof (cases s)
    case St_retry
    obtain r m t where r: "retry_operation h cb 0 (nat (eh_max_retries h)) n = (r, m, t)" by (metis prod.collapse)
    then have "tries cb n (nat (eh_max_retries h)) = (r, m)"
      using retry_tries [of h cb 0 "nat (eh_max_retries h)" n] by simp
    then show ?thesis using r ih [of m] St_retry
      by (auto simp: execute_recovery_strategy_def tries_add case_prod_unfold split: bool.split)
  qed (use Cons.prems ih in \<open>auto simp: execute_recovery_strategy_def tries_Suc case_prod_unfold split: bool.split\<close>)
qed simp

lemma attempt_without_callback:
  "St_ignore \<notin> set ss \<Longrightarrow> attempt_recovery h None ss n = (False, n, 0)"
proof (induction ss)
  case (Cons s ss)
  then show ?case by (cases s) (simp_all add: execute_recovery_strategy_def)
qed simp

text \<open>
  An error is handled exactly when one of the first calls of the callback succeeds, as many as the
  strategies of its category allow together, and no call is made after the first that succeeds; without a
  callback nothing is handled. Every error is counted under its category and operation.
\<close>

lemma handle_error_tries:
  assumes "St_ignore \<notin> set (strategies_for h (fst (classify_error os e)))"
  shows "(case fst (handle_error os now e operation (Some cb) h) of (r, m, t) \<Rightarrow> (r, m))
           = tries cb 0 (budget h (strategies_for h (fst (classify_error os e))))
       \<and> fst (handle_error os now e operation None h) = (False, 0, 0)
       \<and> map_of (eh_counts (snd (handle_error os now e operation cb' h)))
             (category_value (fst (classify_error os e)) @ '':'' @ operation)
           = Some (Suc (case map_of (eh_counts h) (category_value (fst (classify_error os e)) @ '':'' @ operation) of
                          None \<Rightarrow> 0 | Some n \<Rightarrow> n))"
proof -
  have b: "budget (h\<lparr>eh_counts := a, eh_last := l\<rparr>) ss = budget h ss" for a l ss
    by (induction ss) (auto split: strategy.split)
  have s: "strategies_for (h\<lparr>eh_counts := a, eh_last := l\<rparr>) c = strategies_for h c" for a l c
    by (simp add: strategies_for_def)
  show ?thesis
    using attempt_tries [OF assms] attempt_without_callback [OF assms]
    by (simp add: handle_error_def Let_def case_prod_unfold s attempt_tries [OF assms, unfolded case_prod_unfold] b
        update_conv')
qed

end
