(* ===== verification/ScreenText.thy ===== *)
theory ScreenText
  imports ScreenProps CodePageProps PyText
begin

text \<open>
  The screen as text: \<open>ascii_buffer\<close>, \<open>to_text\<close> and the content of fields in
  \<open>emulation/screen_buffer.py\<close>, over the codecs of \<open>CodePages\<close>. A text is a list of code points. The
  mode \<open>compat_mode\<close> of the codec matters for encoding only.
\<close>

section \<open>Rows\<close>

definition row_bytes :: "screen \<Rightarrow> int \<Rightarrow> bytes" where
  "row_bytes s r = py_slice (buffer s) (r * cols s) (r * cols s + cols s)"

text \<open>\<open>decode("ascii", errors="replace")\<close>\<close>

definition ascii_replace :: "bytes \<Rightarrow> unicode" where
  "ascii_replace = map (\<lambda>b. if b < 0x80 then uint b else 0xFFFD)"

definition join_lines :: "unicode list \<Rightarrow> unicode" where
  "join_lines = join_with [10]"

text \<open>
  The bytes of a row with what is hidden as blanks: the attribute bytes at the starts of fields, as far as
  they look like ones, and the position of the cursor.
\<close>

definition mask_cell :: "screen \<Rightarrow> int \<Rightarrow> int \<Rightarrow> byte \<Rightarrow> byte" where
  "mask_cell s r c b =
     (if r * cols s + c \<in> field_starts s
      then if b = 0 \<or> b AND 0x80 \<noteq> 0 \<and> b AND 0x40 \<noteq> 0 then 0x40 else b
      else if r = cursor_row s \<and> c = cursor_col s then 0x40 else b)"

definition mask_row :: "screen \<Rightarrow> int \<Rightarrow> bytes" where
  "mask_row s r = map (\<lambda>(c, b). mask_cell s r c b) (zip [0 .. cols s - 1] (row_bytes s r))"

text \<open>\<open>to_text\<close> hides every byte at the start of a field.\<close>

definition hide_cell :: "screen \<Rightarrow> int \<Rightarrow> int \<Rightarrow> byte \<Rightarrow> byte" where
  "hide_cell s r c b =
     (if r * cols s + c \<in> field_starts s then 0x40
      else if r = cursor_row s \<and> c = cursor_col s then 0x40 else b)"

definition hide_row :: "screen \<Rightarrow> int \<Rightarrow> bytes" where
  "hide_row s r = map (\<lambda>(c, b). hide_cell s r c b) (zip [0 .. cols s - 1] (row_bytes s r))"

text \<open>
  One line. The codec of a code page that is not known raises a \<open>LookupError\<close>, which is not caught; a code
  page that cannot be built falls back to the encoder of the emulation, whose own \<open>ValueError\<close> gives a
  blank line.
\<close>

definition decode_line :: "codec_world \<Rightarrow> screen \<Rightarrow> bytes \<Rightarrow> codec_error + unicode" where
  "decode_line w s bs =
     (case EBCDICCodec_init w (codepage s) False of
        Inr c \<Rightarrow> Inr (map clean_char (codec_decode c bs))
      | Inl Lookup_error \<Rightarrow> Inl Lookup_error
      | Inl Unicode_error \<Rightarrow>
          (case emulation_decode w bs of
             Inr u \<Rightarrow> Inr (map clean_char u)
           | Inl Lookup_error \<Rightarrow> Inl Lookup_error
           | Inl Unicode_error \<Rightarrow> Inr (replicate (length bs) 32)))"

fun all_lines :: "(codec_error + unicode) list \<Rightarrow> codec_error + unicode list" where
  "all_lines [] = Inr []"
| "all_lines (x # xs) =
     (case x of Inl e \<Rightarrow> Inl e | Inr u \<Rightarrow> (case all_lines xs of Inl e \<Rightarrow> Inl e | Inr us \<Rightarrow> Inr (u # us)))"

definition ascii_buffer :: "codec_world \<Rightarrow> screen \<Rightarrow> codec_error + unicode" where
  "ascii_buffer w s =
     (if ascii_mode s
      then Inr (join_lines (map (\<lambda>r. map clean_char (ascii_replace (row_bytes s r))) [0 .. rows s - 1]))
      else map_sum id join_lines (all_lines (map (\<lambda>r. decode_line w s (mask_row s r)) [0 .. rows s - 1])))"

text \<open>
  In \<open>to_text\<close> the last resort decodes through latin-1 and cp037; its lines are the code points of cp037
  where they can be shown. In ASCII mode nothing is cleaned.
\<close>

definition last_resort :: "bytes \<Rightarrow> unicode" where
  "last_resort = map (\<lambda>b. let c = uint b in if clean_char c = c then clean_char (CP037 ! unat b) else 32)"

definition text_line :: "codec_world \<Rightarrow> screen \<Rightarrow> bytes \<Rightarrow> codec_error + unicode" where
  "text_line w s bs =
     (case EBCDICCodec_init w (codepage s) False of
        Inr c \<Rightarrow> Inr (map clean_char (codec_decode c bs))
      | Inl Lookup_error \<Rightarrow> Inl Lookup_error
      | Inl Unicode_error \<Rightarrow>
          (case emulation_decode w bs of
             Inr u \<Rightarrow> Inr (map clean_char u)
           | Inl Lookup_error \<Rightarrow> Inl Lookup_error
           | Inl Unicode_error \<Rightarrow> Inr (last_resort bs)))"

definition to_text :: "codec_world \<Rightarrow> screen \<Rightarrow> codec_error + unicode" where
  "to_text w s =
     (if ascii_mode s then Inr (join_lines (map (\<lambda>r. ascii_replace (row_bytes s r)) [0 .. rows s - 1]))
      else map_sum id join_lines (all_lines (map (\<lambda>r. text_line w s (hide_row s r)) [0 .. rows s - 1])))"

section \<open>Fields\<close>

definition field_get_content :: "codec_world \<Rightarrow> field \<Rightarrow> codec_error + unicode" where
  "field_get_content w f =
     (case EBCDICCodec_init w (f_codepage f) False of
        Inr c \<Rightarrow> Inr (codec_decode c (f_content f))
      | Inl Lookup_error \<Rightarrow> Inl Lookup_error
      | Inl Unicode_error \<Rightarrow> emulation_decode w (f_content f))"

text \<open>\<open>str.upper\<close> for the characters of Latin-1, which is as far as the single-byte pages of the program go.\<close>

definition upper_char :: "int \<Rightarrow> unicode" where
  "upper_char c =
     (if 97 \<le> c \<and> c \<le> 122 \<or> 224 \<le> c \<and> c \<le> 254 \<and> c \<noteq> 247 then [c - 32]
      else if c = 223 then [83, 83] else if c = 181 then [924] else if c = 255 then [376] else [c])"

definition py_upper :: "unicode \<Rightarrow> unicode" where
  "py_upper u = concat (map upper_char u)"

definition field_set_content :: "codec_world \<Rightarrow> unicode \<Rightarrow> field \<Rightarrow> codec_error + field" where
  "field_set_content w text f =
     (let u = py_upper text;
          store = (\<lambda>bs. f\<lparr>f_content := bs, f_modified := True\<rparr>)
      in case EBCDICCodec_init w (f_codepage f) False of
           Inl Lookup_error \<Rightarrow> Inl Lookup_error
         | Inl Unicode_error \<Rightarrow> map_sum id store (emulation_encode w u)
         | Inr c \<Rightarrow>
             (case codec_encode w c u of
                Inr bs \<Rightarrow> Inr (store bs)
              | Inl Lookup_error \<Rightarrow> Inl Lookup_error
              | Inl Unicode_error \<Rightarrow> map_sum id store (emulation_encode w u)))"

definition get_field_content :: "codec_world \<Rightarrow> int \<Rightarrow> screen \<Rightarrow> codec_error + unicode" where
  "get_field_content w i s =
     (if 0 \<le> i \<and> i < int (length (sfields s)) \<and> f_content (sfields s ! nat i) \<noteq> []
      then map_sum id (\<lambda>c. codec_decode c (f_content (sfields s ! nat i))) (EBCDICCodec_init w (codepage s) False)
      else Inr [])"

section \<open>What is shown\<close>

lemma row_bounds:
  assumes "wf_dims s" and "0 \<le> r" and "r < rows s"
  shows "0 \<le> r * cols s" and "r * cols s + cols s \<le> ssize s" and "0 < cols s"
  using assms mult_right_mono [of "r + 1" "rows s" "cols s"] by (simp_all add: wf_dims_def distrib_right)

lemma row_bytes_take:
  assumes "wf_dims s" and "0 \<le> r" and "r < rows s"
  shows "row_bytes s r = take (nat (cols s)) (drop (nat (r * cols s)) (buffer s))"
proof -
  have "min (r * cols s) (ssize s) = r * cols s" "min (r * cols s + cols s) (ssize s) = r * cols s + cols s"
    "int (length (buffer s)) = ssize s"
    using row_bounds [OF assms] assms(1) by (simp_all add: wf_dims_def)
  then show ?thesis
    using row_bounds [OF assms] by (simp add: row_bytes_def py_slice_def py_bound_def Let_def)
qed

lemma length_row_bytes:
  assumes "wf_dims s" and "0 \<le> r" and "r < rows s"
  shows "length (row_bytes s r) = nat (cols s)"
  using row_bounds [OF assms] assms(1) by (simp add: row_bytes_take [OF assms] wf_dims_def)

lemma row_bytes_nth:
  assumes "wf_dims s" and "0 \<le> r" and "r < rows s" and "0 \<le> k" and "k < cols s"
  shows "row_bytes s r ! nat k = buffer s ! nat (r * cols s + k)"
  using row_bounds [OF assms(1-3)] assms by (simp add: row_bytes_take [OF assms(1-3)] wf_dims_def nat_add_distrib)

lemma length_mask_row [simp]:
  "wf_dims s \<Longrightarrow> 0 \<le> r \<Longrightarrow> r < rows s \<Longrightarrow> length (mask_row s r) = nat (cols s)"
  by (simp add: mask_row_def length_row_bytes)

lemma mask_row_nth:
  assumes "wf_dims s" and "0 \<le> r" and "r < rows s" and "0 \<le> k" and "k < cols s"
  shows "mask_row s r ! nat k = mask_cell s r k (buffer s ! nat (r * cols s + k))"
  using assms row_bytes_nth [OF assms] by (simp add: mask_row_def length_row_bytes)

lemma all_lines_Inr: "all_lines (map (\<lambda>x. Inr (f x)) xs) = Inr (map f xs)"
  by (induction xs) simp_all

definition shown_line :: "ebcdic_codec \<Rightarrow> screen \<Rightarrow> int \<Rightarrow> unicode" where
  "shown_line c s r = map clean_char (codec_decode c (mask_row s r))"

definition shown_lines :: "ebcdic_codec \<Rightarrow> screen \<Rightarrow> unicode list" where
  "shown_lines c s = map (shown_line c s) [0 .. rows s - 1]"

lemma ascii_buffer_lines:
  assumes "\<not> ascii_mode s" and "EBCDICCodec_init w (codepage s) False = Inr c"
  shows "ascii_buffer w s = Inr (join_lines (shown_lines c s))"
  using assms by (simp add: ascii_buffer_def decode_line_def shown_lines_def shown_line_def [abs_def] all_lines_Inr)

lemma shown_line_length:
  assumes "wf_dims s" and "0 \<le> r" and "r < rows s"
  shows "length (shown_line c s r) = nat (cols s)"
  using assms by (simp add: shown_line_def codec_decode_def)

lemma shown_line_nth:
  assumes "wf_dims s" and "0 \<le> r" and "r < rows s" and "0 \<le> k" and "k < cols s"
  shows "shown_line c s r ! nat k
       = clean_char (codec_clean (ec_table c ! unat (mask_cell s r k (buffer s ! nat (r * cols s + k)))))"
  using assms by (simp add: shown_line_def codec_decode_def mask_row_nth)

lemma shown_lines_nth: "0 \<le> r \<Longrightarrow> r < rows s \<Longrightarrow> shown_lines c s ! nat r = shown_line c s r"
  by (simp add: shown_lines_def)

lemma clean_printable: "printable_in t ch \<Longrightarrow> clean_char ch = ch"
  by (auto simp: printable_in_def clean_char_def)

lemma table_blank: "EBCDICCodec_init w ''cp037'' p = Inr c \<Longrightarrow> ec_table c ! unat (0x40 :: byte) = 32"
proof -
  assume "EBCDICCodec_init w ''cp037'' p = Inr c"
  then have "ec_table c = CP037" by (auto simp: EBCDICCodec_init_def get_table_cp037)
  moreover have "CP037 ! unat (0x40 :: byte) = 32" by code_simp
  ultimately show ?thesis by simp
qed

text \<open>The bytes that are hidden at the mark of a field.\<close>

definition masked_at_mark :: "byte \<Rightarrow> bool" where
  "masked_at_mark b \<longleftrightarrow> b = 0 \<or> b AND 0x80 \<noteq> 0 \<and> b AND 0x40 \<noteq> 0"

lemma text_cell:
  assumes "wf_dims s" and "0 \<le> r" and "r < rows s" and "0 \<le> k"
    and "take (length u) (drop (nat (r * cols s + k)) (buffer s)) = encode_to_unicode_table c u" and "i < length u"
  shows "buffer s ! nat (r * cols s + (k + int i)) = encode_to_unicode_table c u ! i"
proof -
  note b = row_bounds [OF assms(1-3)]
  have "length (encode_to_unicode_table c u) = length u" by (simp add: encode_to_unicode_table_def)
  then have "length (take (length u) (drop (nat (r * cols s + k)) (buffer s))) = length u" using assms(5) by simp
  then have "take (length u) (drop (nat (r * cols s + k)) (buffer s)) ! i = buffer s ! (nat (r * cols s + k) + i)"
    using assms(6) by simp
  then show ?thesis using assms(4,5) b(1) by (simp add: nat_add_distrib add.assoc)
qed

lemma text_cell_decoded:
  assumes "EBCDICCodec_init w cp False = Inr c" and "\<forall>ch \<in> set u. printable_in (ec_table c) ch" and "i < length u"
  shows "codec_clean (ec_table c ! unat (encode_to_unicode_table c u ! i)) = u ! i"
proof -
  have "codec_decode c (encode_to_unicode_table c u) = u" using codec_roundtrip_table [OF assms(1,2)] .
  then have "codec_decode c (encode_to_unicode_table c u) ! i = u ! i" by simp
  then show ?thesis using assms(3) by (simp add: codec_decode_def encode_to_unicode_table_def)
qed

text \<open>
  C23. What is written is what is read: where a row of the screen holds a text encoded with the table of the
  screen's code page, the same place of the text of the screen shows it, with two exceptions. At the mark of a field,
  also one the text was written over, a character whose byte is 0 or has both of its high bits set (letters and digits
  among them) is shown as a blank. Elsewhere the character under the cursor is shown as a blank. The text has a line for each row, as long as the row.
\<close>

theorem written_text_shown:
  assumes "wf_screen s" and "\<not> ascii_mode s" and "EBCDICCodec_init w (codepage s) False = Inr c"
    and "0 \<le> r" and "r < rows s" and "0 \<le> k" and "k + int (length u) \<le> cols s"
    and "take (length u) (drop (nat (r * cols s + k)) (buffer s)) = encode_to_unicode_table c u"
    and "\<forall>ch \<in> set u. printable_in (ec_table c) ch"
    and "ec_table c ! unat (0x40 :: byte) = 32"
  shows "\<exists>ls. ascii_buffer w s = Inr (join_lines ls) \<and> length ls = nat (rows s) \<and> (\<forall>l \<in> set ls. length l = nat (cols s))
       \<and> (\<forall>i < length u. ls ! nat r ! (nat k + i)
             = (if r * cols s + (k + int i) \<in> field_starts s then (if masked_at_mark (encode_to_unicode_table c u ! i) then 32 else u ! i)
                else if (r, k + int i) = (cursor_row s, cursor_col s) then 32 else u ! i))"
proof -
  have d: "wf_dims s" using assms(1) by (simp add: wf_screen_def)
  have "shown_lines c s ! nat r ! (nat k + i)
      = (if r * cols s + (k + int i) \<in> field_starts s then (if masked_at_mark (encode_to_unicode_table c u ! i) then 32 else u ! i)
         else if (r, k + int i) = (cursor_row s, cursor_col s) then 32 else u ! i)" if i: "i < length u" for i
  proof -
    have k: "0 \<le> k + int i" "k + int i < cols s" "nat (k + int i) = nat k + i" using assms(6,7) i by auto
    note e = text_cell [OF d assms(4-6) assms(8) i]
    have dec: "clean_char (codec_clean (ec_table c ! unat (encode_to_unicode_table c u ! i))) = u ! i"
      using text_cell_decoded [OF assms(3,9) i] assms(9) i clean_printable nth_mem by metis
    have blank: "clean_char (codec_clean (ec_table c ! unat (0x40 :: byte))) = 32"
      unfolding assms(10) by (simp add: clean_char_def codec_clean_def)
    have m: "mask_cell s r (k + int i) b
        = (if r * cols s + (k + int i) \<in> field_starts s then (if masked_at_mark b then 0x40 else b)
           else if (r, k + int i) = (cursor_row s, cursor_col s) then 0x40 else b)" for b
      by (simp add: mask_cell_def masked_at_mark_def)
    have "shown_line c s r ! nat (k + int i) = clean_char (codec_clean (ec_table c ! unat (mask_cell s r (k + int i) (encode_to_unicode_table c u ! i))))"
      using shown_line_nth [OF d assms(4,5) k(1,2), of c] e by simp
    then show ?thesis
      unfolding m shown_lines_nth [OF assms(4,5)] k(3) [symmetric]
      by (simp only: dec blank if_distrib [of "\<lambda>b. clean_char (codec_clean (ec_table c ! unat b))"])
  qed
  then show ?thesis
    using ascii_buffer_lines [OF assms(2,3)] shown_line_length [OF d]
    by (intro exI [of _ "shown_lines c s"]) (auto simp: shown_lines_def)
qed

definition demo_text_screen :: screen where
  "demo_text_screen =
     (case ScreenBuffer_init 2 4 0x40 ''cp037'' of
        Inr s \<Rightarrow> s\<lparr>buffer := [0x40, 0xC8, 0x89, 0x40, 0x40, 0x40, 0x40, 0x40], field_starts := {1}\<rparr>)"

theorem written_text_shown_witness:
  "\<exists>ls. ascii_buffer bare_world demo_text_screen = Inr (join_lines ls) \<and> ls ! 0 ! 1 = 32 \<and> ls ! 0 ! 2 = 105"
proof -
  obtain c where c: "EBCDICCodec_init bare_world ''cp037'' False = Inr c" "ec_table c = CP037"
    by (auto simp: EBCDICCodec_init_def get_table_cp037)
  have r: "index_of 72 CP037 = Some 0xC8" "index_of 105 CP037 = Some 0x89" "printable_in CP037 72" "printable_in CP037 105"
    by code_simp+
  have e: "encode_to_unicode_table c [72, 105] = [0xC8, 0x89]"
    by (simp add: encode_to_unicode_table_def reverse_table_def c(2) r)
  have s: "wf_screen demo_text_screen" "\<not> ascii_mode demo_text_screen" "codepage demo_text_screen = ''cp037''"
    "cols demo_text_screen = 4" "rows demo_text_screen = 2" "field_starts demo_text_screen = {1}"
    "take 2 (drop 1 (buffer demo_text_screen)) = [0xC8, 0x89]" "cursor_row demo_text_screen = 0" "cursor_col demo_text_screen = 0"
    by (simp_all add: demo_text_screen_def ScreenBuffer_init_def wf_screen_def wf_dims_def on_screen_def)
  have t: "take (length [72, 105 :: int]) (drop (nat (0 * cols demo_text_screen + 1)) (buffer demo_text_screen))
      = encode_to_unicode_table c [72, 105]" using s(7) e by (simp add: numeral_2_eq_2)
  have m: "masked_at_mark 0xC8" by (simp add: masked_at_mark_def)
  have p: "\<forall>ch \<in> set [72, 105 :: int]. printable_in (ec_table c) ch" using r c(2) by simp
  have "ec_table c ! unat (0x40 :: byte) = 32" using table_blank [OF c(1)] .
  from written_text_shown [OF s(1,2) _ _ _ _ _ t p this, of bare_world] c(1) s(3-5)
  obtain ls where ls: "ascii_buffer bare_world demo_text_screen = Inr (join_lines ls)"
    "\<forall>i < length [72, 105 :: int]. ls ! nat 0 ! (nat 1 + i)
       = (if 0 * cols demo_text_screen + (1 + int i) \<in> field_starts demo_text_screen
          then (if masked_at_mark (encode_to_unicode_table c [72, 105] ! i) then 32 else [72, 105] ! i)
          else if (0, 1 + int i) = (cursor_row demo_text_screen, cursor_col demo_text_screen) then 32 else [72, 105] ! i)" by auto
  from ls(2) [rule_format, of 0] ls(2) [rule_format, of 1] have "ls ! 0 ! 1 = 32" "ls ! 0 ! 2 = 105"
    using s(4,6,8,9) e m by (simp_all add: numeral_2_eq_2)
  with ls(1) show ?thesis by blast
qed

section \<open>Lines\<close>

lemma split_count: "length (py_split c xs) = Suc (length (filter (\<lambda>x. x = c) xs))"
  by (induction xs) (auto split: list.split)

lemma join_count:
  "ws \<noteq> [] \<Longrightarrow> Suc (length (filter (\<lambda>x. x = c) (join_with [c] ws)))
     = length ws + length (filter (\<lambda>x. x = c) (concat ws))"
  by (induction "[c]" ws rule: join_with.induct) auto

text \<open>
  The source says it returns exactly a line for each row. A cell that shows as a line feed, such as the byte
  0x25 in cp037, adds one.
\<close>

lemma line_feeds_add_lines:
  assumes "wf_screen s" and "\<not> ascii_mode s" and "EBCDICCodec_init w (codepage s) False = Inr c"
  shows "\<exists>text. ascii_buffer w s = Inr text
       \<and> length (py_split 10 text) = nat (rows s) + length (filter (\<lambda>ch. ch = 10) (concat (shown_lines c s)))"
proof -
  have "shown_lines c s \<noteq> []" "length (shown_lines c s) = nat (rows s)"
    using assms(1) by (auto simp: shown_lines_def wf_screen_def wf_dims_def)
  then show ?thesis
    using ascii_buffer_lines [OF assms(2,3)] join_count [of "shown_lines c s" 10]
    by (simp add: split_count join_lines_def)
qed

lemma line_feed_byte: "CP037 ! unat (0x25 :: byte) = 10"
  by code_simp

end
