(* ===== verification/Client3270.thy ===== *)
theory Client3270
  imports ScreenText KeyboardProps FieldAttributes
begin

text \<open>
  \<open>p3270_client.py\<close> and the synchronous \<open>Session\<close> of \<open>session.py\<close> it works through: commands as text, the
  screen as trimmed text, reading by position and the waits. Code pages and the connection are parameters;
  the time that waits and pauses take is left out.
\<close>

section \<open>The client\<close>

text \<open>No session, a session that was never connected, or one with its asynchronous session.\<close>

datatype pure_session = No_session | Unopened | Opened session

record p3270 =
  pc_host :: "string option"
  pc_port :: int
  pc_session :: pure_session
  pc_connected :: bool
  pc_last :: unicode
  pc_row :: int
  pc_col :: int
  pc_rows :: int
  pc_cols :: int

text \<open>What a command may meet: the codecs, the handler's environment, how a connection attempt ends and what the host sends.\<close>

record client_world =
  ww_codecs :: codec_world
  ww_client :: client
  ww_dial :: "string \<Rightarrow> int \<Rightarrow> session option"
  ww_redial :: "session \<Rightarrow> session option"
  ww_arrivals :: "arrival list list"

definition P3270Client_init :: "string option \<Rightarrow> int \<Rightarrow> p3270" where
  "P3270Client_init host port =
     \<lparr>pc_host = host, pc_port = port, pc_session = No_session, pc_connected = False, pc_last = [],
      pc_row = 0, pc_col = 0, pc_rows = 24, pc_cols = 80\<rparr>"

text \<open>\<open>True\<close> for a connection that raises; without a host name nothing is connected.\<close>

definition client_connect :: "client_world \<Rightarrow> p3270 \<Rightarrow> bool \<times> p3270" where
  "client_connect w c =
     (if pc_connected c then (False, c)
      else case pc_host c of
             None \<Rightarrow> (False, c\<lparr>pc_session := Unopened, pc_connected := False\<rparr>)
           | Some h \<Rightarrow>
               (if h = [] then (False, c\<lparr>pc_session := Unopened, pc_connected := False\<rparr>)
                else case ww_dial w h (pc_port c) of
                       None \<Rightarrow> (True, c\<lparr>pc_session := Unopened\<rparr>)
                     | Some s \<Rightarrow> (False, c\<lparr>pc_session := Opened s, pc_connected := True\<rparr>)))"

definition client_disconnect :: "p3270 \<Rightarrow> p3270" where
  "client_disconnect c = c\<lparr>pc_session := No_session, pc_connected := False\<rparr>"

section \<open>The screen\<close>

definition py_white :: "int \<Rightarrow> bool" where
  "py_white c \<longleftrightarrow> 9 \<le> c \<and> c \<le> 13 \<or> 28 \<le> c \<and> c \<le> 32 \<or> c = 133 \<or> c = 160 \<or> c = 0x1680
     \<or> 0x2000 \<le> c \<and> c \<le> 0x200A \<or> c = 0x2028 \<or> c = 0x2029 \<or> c = 0x202F \<or> c = 0x205F \<or> c = 0x3000"

fun unify_newlines :: "unicode \<Rightarrow> unicode" where
  "unify_newlines [] = []"
| "unify_newlines [c] = [if c = 13 then 10 else c]"
| "unify_newlines (c # d # cs) =
     (if c = 13 \<and> d = 10 then 10 # unify_newlines cs
      else (if c = 13 then 10 else c) # unify_newlines (d # cs))"

definition trimmed_lines :: "unicode \<Rightarrow> unicode list" where
  "trimmed_lines text =
     rev (dropWhile (\<lambda>l. l = []) (rev (dropWhile (\<lambda>l. l = [])
       (map (strip_right py_white) (py_split 10 (unify_newlines text))))))"

definition client_buffer :: "pure_session \<Rightarrow> screen option" where
  "client_buffer p =
     (case p of
        No_session \<Rightarrow> None
      | Unopened \<Rightarrow> (case ScreenBuffer_init 24 80 0x40 ''cp037'' of Inr s \<Rightarrow> Some s | Inl e \<Rightarrow> None)
      | Opened s \<Rightarrow> Some (ss_screen s))"

text \<open>The compatibility mode set for the reading changes the encoding only, so it is left out.\<close>

definition getScreen :: "client_world \<Rightarrow> p3270 \<Rightarrow> unicode \<times> p3270" where
  "getScreen w c =
     (if \<not> pc_connected c then ([], c)
      else case client_buffer (pc_session c) of
             None \<Rightarrow> ([], c)
           | Some s \<Rightarrow>
               (case ascii_buffer (ww_codecs w) s of
                  Inl e \<Rightarrow> (pc_last c, c)
                | Inr t \<Rightarrow> (let text = join_lines (trimmed_lines t) in (text, c\<lparr>pc_last := text\<rparr>))))"

definition line_part :: "unicode \<Rightarrow> int \<Rightarrow> int \<Rightarrow> unicode" where
  "line_part l col n =
     (if col \<ge> int (length l) then [] else py_slice l col (min (col + n) (int (length l))))"

text \<open>A negative row counts from the last line, as an index of Python does; one before the first raises.\<close>

definition readTextAtPosition :: "client_world \<Rightarrow> int \<Rightarrow> int \<Rightarrow> int \<Rightarrow> p3270 \<Rightarrow> (py_error + unicode) \<times> p3270" where
  "readTextAtPosition w row col n c =
     (case getScreen w c of
        (text, c1) \<Rightarrow>
          (let ls = py_split 10 text; i = (if row < 0 then int (length ls) + row else row)
           in (if row \<ge> int (length ls) then Inr []
               else if i < 0 then Inl IndexError
               else Inr (line_part (ls ! nat i) col n), c1)))"

datatype area = Line unicode | Lines "unicode list"

definition readTextArea ::
    "client_world \<Rightarrow> int \<Rightarrow> int \<Rightarrow> int \<Rightarrow> int \<Rightarrow> p3270 \<Rightarrow> (py_error + area) \<times> p3270" where
  "readTextArea w row col nrows ncols c =
     (if row < 1 \<or> col < 1 \<or> nrows < 1 \<or> ncols < 1 then (Inl ValueError, c)
      else case getScreen w c of
             (text, c1) \<Rightarrow>
               (let got = map (\<lambda>l. py_slice l (col - 1) (col - 1 + ncols))
                            (take (nat nrows) (drop (nat (row - 1)) (py_split 10 text)))
                in (Inr (if nrows = 1 then Line (case got of [] \<Rightarrow> [] | l # _ \<Rightarrow> l) else Lines got), c1)))"

definition foundTextAtPosition :: "client_world \<Rightarrow> int \<Rightarrow> int \<Rightarrow> unicode \<Rightarrow> p3270 \<Rightarrow> (py_error + bool) \<times> p3270" where
  "foundTextAtPosition w row col text c =
     map_prod (map_sum id (\<lambda>t. t = text)) id (readTextAtPosition w row col (int (length text)) c)"

section \<open>Commands\<close>

text \<open>
  The methods of the synchronous session: most connect first when the asynchronous session is not
  connected; without one they raise. The result is \<open>True\<close> for an exception.
\<close>

definition with_async :: "(session \<Rightarrow> bool \<times> session) \<Rightarrow> pure_session \<Rightarrow> bool \<times> pure_session" where
  "with_async f p = (case p of Opened s \<Rightarrow> map_prod id Opened (f s) | _ \<Rightarrow> (True, p))"

definition require_connected ::
    "client_world \<Rightarrow> (session \<Rightarrow> bool \<times> session) \<Rightarrow> pure_session \<Rightarrow> bool \<times> pure_session" where
  "require_connected w f p =
     with_async (\<lambda>s. if ss_open s then f s else case ww_redial w s of None \<Rightarrow> (True, s) | Some s1 \<Rightarrow> f s1) p"

definition as_method :: "command \<Rightarrow> session \<Rightarrow> bool \<times> session" where
  "as_method f s = map_prod (\<lambda>e. e \<noteq> None) id (f s)"

definition key_method :: "client_world \<Rightarrow> string \<Rightarrow> session \<Rightarrow> bool \<times> session" where
  "key_method w name s = (case key (ww_client w) name (ww_arrivals w) s of (e, s1, ws) \<Rightarrow> (e \<noteq> None, s1))"

text \<open>What the commands without arguments call; \<open>Clear\<close> and \<open>Erase\<close> clear the screen here, not at the host.\<close>

definition plain_commands :: "client_world \<Rightarrow> (string \<times> (session \<Rightarrow> bool \<times> session)) list" where
  "plain_commands w =
     [(''Enter'', key_method w ''Enter''), (''Clear'', as_method (on_screen_do clear)),
      (''CLEAR'', as_method (on_screen_do clear)), (''Home'', as_method (on_screen_do cursor_home)),
      (''Tab'', as_method (on_screen_do move_cursor_to_next_input_field)), (''BackTab'', as_method backtab),
      (''BackSpace'', key_method w ''BackSpace''), (''Up'', key_method w ''Up''), (''Down'', key_method w ''Down''),
      (''Left'', as_method (on_screen_do cursor_left)), (''Right'', as_method (on_screen_do cursor_right)),
      (''Left2'', as_method (on_screen_do (cursor_left \<circ> cursor_left))),
      (''Right2'', as_method (on_screen_do (cursor_right \<circ> cursor_right))),
      (''Delete'', as_method (on_screen_do clear)), (''DeleteWord'', as_method (on_screen_do clear)),
      (''Erase'', as_method (on_screen_do clear)), (''EraseEOF'', as_method (on_screen_do erase_eof)),
      (''EraseInput'', as_method (on_screen_do erase_input)), (''FieldEnd'', as_method (on_screen_do cursor_end)),
      (''FieldMark'', as_method (\<lambda>s. (None, s))), (''Dup'', key_method w ''Dup''),
      (''SysReq'', key_method w ''SysReq''), (''Attn'', key_method w ''Attn''),
      (''Reset'', as_method (on_screen_do clear)), (''Newline'', as_method (on_screen_do cursor_newline)),
      (''Test'', key_method w ''Test'')]"

fun hex_value :: "char \<Rightarrow> int option" where
  "hex_value ch =
     (let n = of_char ch :: int
      in if 48 \<le> n \<and> n \<le> 57 then Some (n - 48)
         else if 65 \<le> n \<and> n \<le> 70 then Some (n - 55)
         else if 97 \<le> n \<and> n \<le> 102 then Some (n - 87) else None)"

text \<open>\<open>bytes.fromhex\<close>: pairs of digits with white space between them.\<close>

fun fromhex :: "string \<Rightarrow> bytes option" where
  "fromhex [] = Some []"
| "fromhex [a] = (if py_space a then Some [] else None)"
| "fromhex (a # b # s) =
     (if py_space a then fromhex (b # s)
      else case (hex_value a, hex_value b) of
             (Some x, Some y) \<Rightarrow> map_option (\<lambda>bs. word_of_int (16 * x + y) # bs) (fromhex s)
           | _ \<Rightarrow> None)"

definition begins :: "string \<Rightarrow> string \<Rightarrow> bool" where
  "begins w s \<longleftrightarrow> take (length w) s = w"

definition argument :: "string \<Rightarrow> string \<Rightarrow> string" where
  "argument w s = py_slice s (int (length w)) (-1)"

definition ints_of :: "string \<Rightarrow> int list option" where
  "ints_of s = those (map (\<lambda>x. py_int (py_strip x)) (py_split CHR '','' s))"

text \<open>Everything after the first occurrence of a character.\<close>

definition after_char :: "char \<Rightarrow> string \<Rightarrow> string" where
  "after_char c s = drop 1 (dropWhile (\<lambda>x. x \<noteq> c) s)"

definition connect_target :: "string \<Rightarrow> p3270 \<Rightarrow> p3270 option" where
  "connect_target param c =
     (let host = (if begins ''B:'' param then drop 2 param
                  else if begins ''L:'' param \<and> CHR ''@'' \<in> set param then after_char CHR ''@'' param else param)
      in if CHR '':'' \<in> set host
         then map_option (\<lambda>p. c\<lparr>pc_host := Some (takeWhile (\<lambda>x. x \<noteq> CHR '':'') host), pc_port := p\<rparr>)
                (py_int (after_char CHR '':'' host))
         else Some (c\<lparr>pc_host := Some host\<rparr>))"

datatype answer = Nothing_said | Said_text unicode | Said_area area

definition on_session :: "(pure_session \<Rightarrow> bool \<times> pure_session) \<Rightarrow> p3270 \<Rightarrow> answer \<times> p3270" where
  "on_session f c = (Nothing_said, c\<lparr>pc_session := snd (f (pc_session c))\<rparr>)"

text \<open>
  \<open>_sendCommand\<close>. Every exception is caught and logged: the answer is the same as after a success. The
  answers of the reading commands are those of the methods they call.
\<close>

definition sendCommand :: "client_world \<Rightarrow> string \<Rightarrow> p3270 \<Rightarrow> answer \<times> p3270" where
  "sendCommand w cmd c =
     (if pc_session c = No_session then (Nothing_said, c)
      else case map_of (plain_commands w) cmd of
             Some f \<Rightarrow> on_session (require_connected w f) c
           | None \<Rightarrow>
      (if cmd = ''DeleteField'' then on_session (with_async (as_method (on_screen_do delete_field))) c
       else if cmd = ''CircumNot'' then on_session (with_async (as_method circum_not)) c
       else if cmd = ''Insert'' then (Nothing_said, c)
       else if begins ''PF('' cmd
       then on_session (require_connected w (key_method w (''PF('' @ argument ''PF('' cmd @ '')''))) c
       else if begins ''PA('' cmd
       then on_session (require_connected w (key_method w (''PA('' @ argument ''PA('' cmd @ '')''))) c
       else if begins ''String('' cmd
       then on_session (with_async (as_method (type_string (ww_client w) (argument ''String('' cmd)))) c
       else if begins ''MoveCursor('' cmd
       then (case ints_of (argument ''MoveCursor('' cmd) of
               Some [row, col] \<Rightarrow> (Nothing_said, c\<lparr>pc_row := row, pc_col := col\<rparr>)
             | _ \<Rightarrow> (Nothing_said, c))
       else if begins ''Connect('' cmd
       then (case connect_target (argument ''Connect('' cmd) c of
               None \<Rightarrow>
                 (Nothing_said, c\<lparr>pc_host := Some (takeWhile (\<lambda>x. x \<noteq> CHR '':'')
                    (let param = argument ''Connect('' cmd
                     in if begins ''B:'' param then drop 2 param
                        else if begins ''L:'' param \<and> CHR ''@'' \<in> set param then after_char CHR ''@'' param else param))\<rparr>)
             | Some c1 \<Rightarrow> (Nothing_said, snd (client_connect w c1)))
       else if cmd = ''Disconnect'' \<or> cmd = ''Quit'' then (Nothing_said, client_disconnect c)
       else if begins ''Ascii('' cmd
       then (let params = argument ''Ascii('' cmd
             in if params = [] then (case getScreen w c of (t, c1) \<Rightarrow> (Said_text t, c1))
                else case ints_of params of
                       Some [r, k, n] \<Rightarrow>
                         (case readTextAtPosition w r k n c of
                            (Inr t, c1) \<Rightarrow> (Said_text t, c1) | (Inl e, c1) \<Rightarrow> (Nothing_said, c1))
                     | Some [r, k, m, n] \<Rightarrow>
                         (case readTextArea w (r + 1) (k + 1) m n c of
                            (Inr a, c1) \<Rightarrow> (Said_area a, c1) | (Inl e, c1) \<Rightarrow> (Nothing_said, c1))
                     | _ \<Rightarrow> (Nothing_said, c))
       else if begins ''Wait('' cmd then (Nothing_said, c)
       else if begins ''Pause('' cmd \<or> cmd = ''Bell''
       then on_session (require_connected w (as_method (\<lambda>s. (None, s)))) c
       else if begins ''PrintText('' cmd \<or> begins ''Snap('' cmd
       then (case getScreen w c of (t, c1) \<Rightarrow> (Said_text t, c1))
       else if begins ''Transfer('' cmd \<or> cmd = ''NoOpCommand'' then (Nothing_said, c)
       else if begins ''Key('' cmd then on_session (require_connected w (key_method w (argument ''Key('' cmd))) c
       else if begins ''HexString('' cmd
       then (case fromhex (argument ''HexString('' cmd) of
               None \<Rightarrow> (Nothing_said, c)
             | Some bs \<Rightarrow> on_session (require_connected w (as_method (session_send (ww_client w) bs))) c)
       else if is_ascii cmd
       then on_session (require_connected w (as_method (session_send (ww_client w) (map char_byte cmd)))) c
       else (Nothing_said, c)))"

section \<open>The methods\<close>

definition sendText :: "client_world \<Rightarrow> string \<Rightarrow> p3270 \<Rightarrow> p3270" where
  "sendText w text c = snd (sendCommand w (''String('' @ text @ '')'') c)"

definition sendEnter :: "client_world \<Rightarrow> p3270 \<Rightarrow> p3270" where
  "sendEnter w c = snd (sendCommand w ''Enter'' c)"

definition int_text :: "int \<Rightarrow> string" where
  "int_text i = (if i < 0 then CHR ''-'' # decimal_text (nat (- i)) else decimal_text (nat i))"

definition sendPF :: "client_world \<Rightarrow> int \<Rightarrow> p3270 \<Rightarrow> p3270" where
  "sendPF w n c = snd (sendCommand w (''PF('' @ int_text n @ '')'') c)"

definition sendPA :: "client_world \<Rightarrow> int \<Rightarrow> p3270 \<Rightarrow> p3270" where
  "sendPA w n c = snd (sendCommand w (''PA('' @ int_text n @ '')'') c)"

definition sendKeys :: "client_world \<Rightarrow> string \<Rightarrow> p3270 \<Rightarrow> p3270" where
  "sendKeys w keys c = snd (sendCommand w (''Key('' @ keys @ '')'') c)"

definition moveTo :: "client_world \<Rightarrow> int \<Rightarrow> int \<Rightarrow> p3270 \<Rightarrow> p3270" where
  "moveTo w row col c =
     (snd (sendCommand w (''MoveCursor('' @ int_text row @ '','' @ int_text col @ '')'') c))\<lparr>pc_row := row, pc_col := col\<rparr>"

definition moveCursorUp :: "client_world \<Rightarrow> p3270 \<Rightarrow> p3270" where
  "moveCursorUp w c = (let c1 = snd (sendCommand w ''Up'' c) in if pc_row c1 > 0 then c1\<lparr>pc_row := pc_row c1 - 1\<rparr> else c1)"

definition moveCursorDown :: "client_world \<Rightarrow> p3270 \<Rightarrow> p3270" where
  "moveCursorDown w c =
     (let c1 = snd (sendCommand w ''Down'' c)
      in if pc_row c1 < pc_rows c1 - 1 then c1\<lparr>pc_row := pc_row c1 + 1\<rparr> else c1)"

definition moveCursorLeft :: "client_world \<Rightarrow> p3270 \<Rightarrow> p3270" where
  "moveCursorLeft w c = (let c1 = snd (sendCommand w ''Left'' c) in if pc_col c1 > 0 then c1\<lparr>pc_col := pc_col c1 - 1\<rparr> else c1)"

definition moveCursorRight :: "client_world \<Rightarrow> p3270 \<Rightarrow> p3270" where
  "moveCursorRight w c =
     (let c1 = snd (sendCommand w ''Right'' c)
      in if pc_col c1 < pc_cols c1 - 1 then c1\<lparr>pc_col := pc_col c1 + 1\<rparr> else c1)"

definition moveToFirstInputField :: "client_world \<Rightarrow> p3270 \<Rightarrow> p3270" where
  "moveToFirstInputField w c = snd (sendCommand w ''Tab'' (snd (sendCommand w ''Home'' c)))"

definition trySendTextToField :: "client_world \<Rightarrow> string \<Rightarrow> int option \<Rightarrow> int option \<Rightarrow> p3270 \<Rightarrow> bool \<times> p3270" where
  "trySendTextToField w text row col c =
     (True, sendText w text (case (row, col) of (Some r, Some k) \<Rightarrow> moveTo w r k c | _ \<Rightarrow> c))"

text \<open>
  The waits whose outcome does not change while they wait: they look at what the client itself remembers.
  \<open>waitForStringAt\<close> looks at the screen again each time; the screens it sees are an argument.
\<close>

definition waitForCursorAt :: "int \<Rightarrow> int \<Rightarrow> int \<Rightarrow> p3270 \<Rightarrow> bool" where
  "waitForCursorAt row col timeout c \<longleftrightarrow> 0 < timeout \<and> pc_row c = row \<and> pc_col c = col"

definition waitForCursorAtOffset :: "int \<Rightarrow> int \<Rightarrow> p3270 \<Rightarrow> bool" where
  "waitForCursorAtOffset off timeout c = waitForCursorAt (off div pc_cols c) (off mod pc_cols c) timeout c"

definition waitForField :: "int \<Rightarrow> bool" where
  "waitForField timeout \<longleftrightarrow> 0 < timeout"

fun waitForStringAt :: "client_world \<Rightarrow> int \<Rightarrow> int \<Rightarrow> unicode \<Rightarrow> session list \<Rightarrow> p3270 \<Rightarrow> (py_error + bool) \<times> p3270" where
  "waitForStringAt w row col text [] c = (Inr False, c)"
| "waitForStringAt w row col text (s # ss) c =
     (case foundTextAtPosition w row col text (c\<lparr>pc_session := Opened s\<rparr>) of
        (Inl e, c1) \<Rightarrow> (Inl e, c1)
      | (Inr True, c1) \<Rightarrow> (Inr True, c1)
      | (Inr False, c1) \<Rightarrow> waitForStringAt w row col text ss (snd (getScreen w c1)))"

end
