(* ===== verification/ClientProps.thy ===== *)
theory ClientProps
  imports Client3270
begin

text \<open>
  What the compatible client makes of positions: reading by position in a text whose blank lines were
  removed, and moving a cursor that is the client's own.
\<close>

section \<open>Reading by position\<close>

lemma unify_id: "13 \<notin> set u \<Longrightarrow> unify_newlines u = u"
  by (induction u rule: unify_newlines.induct) auto

lemma set_join: "set (join_with [c] ws) \<subseteq> insert c (\<Union> (set ` set ws))"
  by (induction "[c]" ws rule: join_with.induct) auto

lemma split_joined:
  assumes "ls \<noteq> []" and "\<forall>l \<in> set ls. 10 \<notin> set l"
  shows "py_split 10 (join_lines ls) = ls"
  using split_join [OF assms] by (simp add: join_lines_def)

definition trim_blank :: "unicode list \<Rightarrow> unicode list" where
  "trim_blank ls = rev (dropWhile (\<lambda>l. l = []) (rev (dropWhile (\<lambda>l. l = []) ls)))"

lemma trimmed_joined:
  assumes "ls \<noteq> []" and "\<forall>l \<in> set ls. 10 \<notin> set l \<and> 13 \<notin> set l"
  shows "trimmed_lines (join_lines ls) = trim_blank (map (strip_right py_white) ls)"
proof -
  have "13 \<notin> set (join_lines ls)"
    using assms(2) set_join [of 10 ls] by (auto simp: join_lines_def)
  then show ?thesis
    using split_joined [OF assms(1)] assms(2) by (simp add: trimmed_lines_def unify_id trim_blank_def)
qed

text \<open>Trimming takes the leading blanks off the front and leaves the rest in place.\<close>

lemma trim_blank_front:
  assumes "\<forall>l \<in> set bs. l = []" and "ls \<noteq> []" and "hd ls \<noteq> []"
  shows "\<exists>n. trim_blank (bs @ ls) = take n ls \<and> (\<forall>l \<in> set (drop n ls). l = []) \<and> n \<noteq> 0"
proof -
  have f: "dropWhile (\<lambda>l. l = []) (bs @ ls) = ls"
    using assms by (simp add: dropWhile_append1 dropWhile_append2 hd_conv_nth dropWhile_eq_self_iff)
  define t where "t = takeWhile (\<lambda>l. l = []) (rev ls)"
  have "rev ls = t @ dropWhile (\<lambda>l. l = []) (rev ls)" by (simp add: t_def)
  then have s: "ls = rev (dropWhile (\<lambda>l. l = []) (rev ls)) @ rev t" by (metis rev_append rev_rev_ident)
  let ?d = "rev (dropWhile (\<lambda>l. l = []) (rev ls))"
  have b: "\<forall>l \<in> set t. l = []" by (auto simp: t_def dest: set_takeWhileD)
  have "?d \<noteq> []"
  proof
    assume "?d = []"
    then have "\<forall>l \<in> set ls. l = []" using s b by (metis append_Nil set_rev)
    then show False using assms(2,3) by (meson hd_in_set)
  qed
  moreover have "take (length ?d) ls = ?d" "drop (length ?d) ls = rev t"
    using arg_cong [OF s, of "take (length ?d)"] arg_cong [OF s, of "drop (length ?d)"] by simp_all
  ultimately show ?thesis
    using b f by (intro exI [of _ "length ?d"]) (simp add: trim_blank_def)
qed

lemma line_part_Nil [simp]: "0 \<le> k \<Longrightarrow> line_part [] k n = []"
  by (simp add: line_part_def)

lemma set_strip: "set (strip_right f xs) \<subseteq> set xs"
  by (auto simp: strip_right_def dest: set_dropWhileD)

lemma getScreen_lines:
  assumes "pc_connected c" and "pc_session c = Opened s" and "wf_screen (ss_screen s)" and "\<not> ascii_mode (ss_screen s)"
    and "EBCDICCodec_init (ww_codecs w) (codepage (ss_screen s)) False = Inr cd"
    and "\<forall>l \<in> set (shown_lines cd (ss_screen s)). 10 \<notin> set l \<and> 13 \<notin> set l"
  shows "fst (getScreen w c) = join_lines (trim_blank (map (strip_right py_white) (shown_lines cd (ss_screen s))))"
proof -
  have "shown_lines cd (ss_screen s) \<noteq> []"
    using assms(3) by (auto simp: shown_lines_def wf_screen_def wf_dims_def)
  from trimmed_joined [OF this assms(6)] show ?thesis
    using ascii_buffer_lines [OF assms(4,5)] assms(1,2) by (simp add: getScreen_def client_buffer_def Let_def)
qed

text \<open>
  C24. The text of the screen is trimmed before it is read by position: with \<open>b\<close> blank rows at the top of the
  screen, every position is read \<open>b\<close> rows further down than asked for.
\<close>

theorem blank_rows_shift_positions:
  assumes "pc_connected c" and "pc_session c = Opened s" and "wf_screen (ss_screen s)" and "\<not> ascii_mode (ss_screen s)"
    and "EBCDICCodec_init (ww_codecs w) (codepage (ss_screen s)) False = Inr cd"
    and "\<forall>l \<in> set (shown_lines cd (ss_screen s)). 10 \<notin> set l \<and> 13 \<notin> set l"
    and "\<forall>l \<in> set (take b (shown_lines cd (ss_screen s))). strip_right py_white l = []"
    and "b < length (shown_lines cd (ss_screen s))" and "strip_right py_white (shown_lines cd (ss_screen s) ! b) \<noteq> []"
    and "0 \<le> row" and "nat row + b < length (shown_lines cd (ss_screen s))" and "0 \<le> k"
  shows "fst (readTextAtPosition w row k n c)
       = Inr (line_part (strip_right py_white (shown_lines cd (ss_screen s) ! (nat row + b))) k n)"
proof -
  let ?L = "map (strip_right py_white) (shown_lines cd (ss_screen s))"
  let ?bs = "take b ?L" and ?ls = "drop b ?L"
  have bs: "\<forall>l \<in> set ?bs. l = []" using assms(7) by (simp add: take_map)
  have ne: "?ls \<noteq> []" "hd ?ls = ?L ! b" using assms(8) by (simp_all add: hd_drop_conv_nth)
  obtain m where m: "trim_blank (?bs @ ?ls) = take m ?ls" "\<forall>l \<in> set (drop m ?ls). l = []" "m \<noteq> 0"
    using trim_blank_front [OF bs ne(1)] ne(2) assms(8,9) by auto
  have scr: "fst (getScreen w c) = join_lines (take m ?ls)"
    using getScreen_lines [OF assms(1-6)] m(1) by simp
  have "10 \<notin> set l" if "l \<in> set (take m ?ls)" for l
    using that assms(6) set_strip by (fastforce dest!: in_set_takeD in_set_dropD)
  then have split: "py_split 10 (join_lines (take m ?ls)) = take m ?ls"
    using m(3) ne(1) by (intro split_joined) auto
  obtain c1 where g: "getScreen w c = (join_lines (take m ?ls), c1)" using scr by (metis prod.collapse)
  have i: "nat row < length ?ls" using assms(11) by simp
  have cell: "?ls ! nat row = strip_right py_white (shown_lines cd (ss_screen s) ! (nat row + b))"
    using assms(11) by (simp add: add.commute)
  show ?thesis
  proof (cases "nat row < m")
    case True
    then have "\<not> int (length (take m ?ls)) \<le> row" "take m ?ls ! nat row = ?ls ! nat row"
      using i assms(10) by auto
    then show ?thesis using g split cell assms(10) by (simp only: readTextAtPosition_def) simp
  next
    case False
    then have "?ls ! nat row \<in> set (drop m ?ls)"
      using i nth_mem [of "nat row - m" "drop m ?ls"] by simp
    then have "?ls ! nat row = []" using m(2) by blast
    moreover have "int (length (take m ?ls)) \<le> row" using False assms(10) by simp
    ultimately show ?thesis using g split cell assms(10,12)
      by (simp only: readTextAtPosition_def) simp
  qed
qed

definition blank_top_screen :: screen where
  "blank_top_screen =
     (case ScreenBuffer_init 2 4 0x40 ''cp037'' of
        Inr s \<Rightarrow> s\<lparr>buffer := [0x40, 0x40, 0x40, 0x40, 0x40, 0xC8, 0x89, 0x40]\<rparr>)"

definition demo_world :: client_world where
  "demo_world = \<lparr>ww_codecs = bare_world, ww_client = demo_client, ww_dial = (\<lambda>_ _. None),
     ww_redial = (\<lambda>_. None), ww_arrivals = []\<rparr>"

definition demo_p3270 :: p3270 where
  "demo_p3270 = (P3270Client_init None 23)\<lparr>pc_session := Opened (snd (on_screen_do (\<lambda>_. blank_top_screen) demo_session)),
     pc_connected := True\<rparr>"

lemma blank_top_facts:
  assumes "ec_table c = CP037"
  shows "wf_screen blank_top_screen" "\<not> ascii_mode blank_top_screen" "codepage blank_top_screen = ''cp037''"
    "shown_lines c blank_top_screen = [[32, 32, 32, 32], [32, 72, 105, 32]]"
proof -
  show "wf_screen blank_top_screen" "\<not> ascii_mode blank_top_screen" "codepage blank_top_screen = ''cp037''"
    by (simp_all add: blank_top_screen_def ScreenBuffer_init_def wf_screen_def wf_dims_def on_screen_def)
  have t: "CP037 ! 64 = 32" "CP037 ! 200 = 72" "CP037 ! 137 = 105" by code_simp+
  have "[0 .. 1 :: int] = [0, 1]" "[0 .. 3 :: int] = [0, 1, 2, 3]"
    "py_slice [0x40, 0x40, 0x40, 0x40, 0x40, 0xC8, 0x89, 0x40 :: byte] 0 4 = [0x40, 0x40, 0x40, 0x40]"
    "py_slice [0x40, 0x40, 0x40, 0x40, 0x40, 0xC8, 0x89, 0x40 :: byte] 4 8 = [0x40, 0xC8, 0x89, 0x40]"
    by code_simp+
  then show "shown_lines c blank_top_screen = [[32, 32, 32, 32], [32, 72, 105, 32]]"
    using t by (simp add: shown_lines_def shown_line_def mask_row_def mask_cell_def row_bytes_def codec_decode_def
        blank_top_screen_def ScreenBuffer_init_def assms clean_char_def codec_clean_def)
qed

theorem blank_rows_shift_positions_witness:
  "fst (readTextAtPosition demo_world 0 1 2 demo_p3270) = Inr [72, 105]"
proof -
  obtain c where c: "EBCDICCodec_init bare_world ''cp037'' False = Inr c" "ec_table c = CP037"
    by (auto simp: EBCDICCodec_init_def get_table_cp037)
  note f = blank_top_facts [OF c(2)]
  let ?s = "snd (on_screen_do (\<lambda>_. blank_top_screen) demo_session)"
  have s: "ss_screen ?s = blank_top_screen" "pc_connected demo_p3270" "pc_session demo_p3270 = Opened ?s"
    by (simp_all add: on_screen_do_def on_rx_screen_def demo_p3270_def)
  have w: "strip_right py_white [32, 32, 32, 32] = []" "strip_right py_white [32, 72, 105, 32] = [32, 72, 105]"
    by code_simp+
  have "fst (readTextAtPosition demo_world 0 1 2 demo_p3270) = Inr (line_part [32, 72, 105] 1 2)"
    using blank_rows_shift_positions [OF s(2,3), of demo_world c 1 0 1 2] s(1) f c(1) w
    by (simp add: demo_world_def)
  then show ?thesis by (simp add: line_part_def py_slice_def py_bound_def)
qed

section \<open>Moving\<close>

lemma moveTo_session: "pc_session (moveTo w r k c) = pc_session c"
proof -
  let ?cmd = "''MoveCursor('' @ int_text r @ '','' @ int_text k @ '')''"
  have "map_of (plain_commands w) ?cmd = None" by (simp add: plain_commands_def)
  then have "pc_session (snd (sendCommand w ?cmd c)) = pc_session c"
    by (simp add: sendCommand_def begins_def split: option.split list.split)
  then show ?thesis by (simp add: moveTo_def)
qed

lemma moveTo_position: "pc_row (moveTo w r k c) = r" "pc_col (moveTo w r k c) = k"
  by (simp_all add: moveTo_def)

lemma sendText_session:
  "pc_session (sendText w str c)
     = (if pc_session c = No_session then No_session
        else snd (with_async (as_method (type_string (ww_client w) (argument ''String('' (''String('' @ str @ '')'')))) (pc_session c)))"
  "pc_row (sendText w str c) = pc_row c" "pc_col (sendText w str c) = pc_col c"
proof -
  let ?cmd = "''String('' @ str @ '')''"
  have "map_of (plain_commands w) ?cmd = None" by (simp add: plain_commands_def)
  then have s: "sendCommand w ?cmd c = (if pc_session c = No_session then (Nothing_said, c)
     else on_session (with_async (as_method (type_string (ww_client w) (argument ''String('' ?cmd)))) c)"
    by (simp add: sendCommand_def begins_def)
  show "pc_session (sendText w str c)
     = (if pc_session c = No_session then No_session
        else snd (with_async (as_method (type_string (ww_client w) (argument ''String('' ?cmd))) (pc_session c)))"
    "pc_row (sendText w str c) = pc_row c" "pc_col (sendText w str c) = pc_col c"
    using s by (simp_all add: sendText_def on_session_def)
qed

lemma argument_wrapped: "argument w (w @ str @ [x]) = str"
  by (simp add: argument_def py_slice_def py_bound_def Let_def)

text \<open>
  C25. Moving the cursor moves a cursor of the client only: text sent to a position is typed where the
  session's cursor stands, as without the position, while the client says that it sent the text and that
  the cursor is where it was told to go.
\<close>

theorem text_goes_where_cursor_is:
  assumes "pc_session c = Opened s" and "0 < timeout"
  shows "fst (trySendTextToField w str (Some r) (Some k) c)
       \<and> pc_session (snd (trySendTextToField w str (Some r) (Some k) c))
           = Opened (snd (type_string (ww_client w) str s))
       \<and> pc_session (sendText w str c) = Opened (snd (type_string (ww_client w) str s))
       \<and> waitForCursorAt r k timeout (snd (trySendTextToField w str (Some r) (Some k) c))"
proof -
  have a: "argument ''String('' (''String('' @ str @ '')'') = str"
    using argument_wrapped [of "''String(''" str "CHR '')''"] by simp
  have t: "pc_session (sendText w str c') = Opened (snd (type_string (ww_client w) str s))"
    if "pc_session c' = Opened s" for c'
    unfolding sendText_session a using that by (simp add: with_async_def as_method_def map_prod_def case_prod_unfold)
  show ?thesis
    using t assms moveTo_session [of w r k c] moveTo_position [of w r k c] sendText_session(2,3)
    by (simp add: trySendTextToField_def waitForCursorAt_def)
qed

theorem text_goes_where_cursor_is_witness:
  "\<exists>s. pc_session (snd (trySendTextToField demo_world ''AB'' (Some 1) (Some 2) demo_p3270))
         = Opened (snd (type_string demo_client ''AB'' s))
     \<and> waitForCursorAt 1 2 5 (snd (trySendTextToField demo_world ''AB'' (Some 1) (Some 2) demo_p3270))"
proof -
  let ?s = "snd (on_screen_do (\<lambda>_. blank_top_screen) demo_session)"
  have "pc_session demo_p3270 = Opened ?s" by (simp add: demo_p3270_def)
  from text_goes_where_cursor_is [OF this, of 5 demo_world "''AB''" 1 2] show ?thesis
    by (simp add: demo_world_def) blast
qed

end
