(* ===== verification/HandlerConnect.thy ===== *)
theory HandlerConnect
  imports HandlerState Keyboard
begin

text \<open>
  Connecting, negotiating and closing in \<open>pure3270/protocol/tn3270_handler.py\<close>, with the transport of
  \<open>session_manager.py\<close>: the task that reads while the negotiator waits, the handler's second phase around
  the negotiator's, the connection with the state machine, the recovery strategies and the validation.

  What the connection delivers during each wait of the negotiator is an argument, as is whether the guard
  that polls the negotiation runs out during it. Links of the network are numbered in the order they are opened.
\<close>

section \<open>The reader task\<close>

text \<open>A read: data, the end of the stream when it is empty, nothing for a second, or an exception.\<close>

datatype reading = Got bytes | Silence | Broken

datatype reader_task = Reading | Reader_done | Reader_failed

record negotiating =
  nn_rx :: receiver
  nn_task :: reader_task
  nn_rounds :: nat

abbreviation nn_neg :: "negotiating \<Rightarrow> neg" where
  "nn_neg w \<equiv> rx_neg (nn_rx w)"

definition on_rx :: "(receiver \<Rightarrow> receiver) \<Rightarrow> negotiating \<Rightarrow> negotiating" where
  "on_rx f w = w\<lparr>nn_rx := f (nn_rx w)\<rparr>"

definition on_neg :: "(neg \<Rightarrow> neg) \<Rightarrow> receiver \<Rightarrow> receiver" where
  "on_neg f r = set_rx_neg (f (rx_neg r)) r"

text \<open>The end of the stream counts as the end of the negotiation.\<close>

definition signal_end :: "neg \<Rightarrow> neg" where
  "signal_end n = signal_negotiation_complete True (signal_functions (signal_device n))"

definition trace_read :: "bytes \<Rightarrow> neg \<Rightarrow> neg" where
  "trace_read data n =
     n\<lparr>ng_handler := map_option (\<lambda>h. let t = hv_trace h @ data in h\<lparr>hv_trace := drop (length t - max_trace_size) t\<rparr>)
        (ng_handler n)\<rparr>"

text \<open>Data that is left is parsed at once and kept for the first read of the session.\<close>

definition stash :: "bytes \<Rightarrow> receiver \<Rightarrow> receiver" where
  "stash bs r = r\<lparr>rx_pending := rx_pending r @ bs\<rparr>"

definition read_chunk :: "(byte \<Rightarrow> bytes option) \<Rightarrow> int \<Rightarrow> bytes \<Rightarrow> receiver \<Rightarrow> receiver" where
  "read_chunk enc now data r =
     (let ((cleaned, vt_seen), r1) = telnet_step data (on_neg (trace_read data) r)
      in if cleaned = [] then r1
         else case handle_data enc now vt_seen cleaned r1 of
                (Inr (Some out), r2) \<Rightarrow> stash out r2
              | (_, r2) \<Rightarrow> stash cleaned r2)"

definition read_once :: "(byte \<Rightarrow> bytes option) \<Rightarrow> int \<Rightarrow> reading \<Rightarrow> negotiating \<Rightarrow> negotiating" where
  "read_once enc now a w =
     (let w1 = w\<lparr>nn_rounds := nn_rounds w + 1\<rparr>
      in case a of
           Silence \<Rightarrow> w1
         | Broken \<Rightarrow> w1\<lparr>nn_task := Reader_failed\<rparr>
         | Got data \<Rightarrow>
             (if data = [] then (on_rx (on_neg signal_end) w1)\<lparr>nn_task := Reader_done\<rparr>
              else on_rx (read_chunk enc now data) w1))"

definition max_reader_rounds :: nat where "max_reader_rounds = 500"

text \<open>The condition of the loop; past the last round the negotiation is forced to its end.\<close>

definition reader_check :: "negotiating \<Rightarrow> negotiating" where
  "reader_check w =
     (if nn_task w \<noteq> Reading then w
      else if max_reader_rounds \<le> nn_rounds w
      then (on_rx (on_neg (\<lambda>n. signal_end (n\<lparr>ng_forced_completion := True\<rparr>))) w)\<lparr>nn_task := Reader_done\<rparr>
      else if ng_complete (nn_neg w) then w\<lparr>nn_task := Reader_done\<rparr> else w)"

fun reader_run :: "(byte \<Rightarrow> bytes option) \<Rightarrow> int \<Rightarrow> reading list \<Rightarrow> negotiating \<Rightarrow> negotiating" where
  "reader_run enc now [] w = reader_check w"
| "reader_run enc now (a # as) w =
     (let w1 = reader_check w
      in if nn_task w1 \<noteq> Reading then w1 else reader_run enc now as (read_once enc now a w1))"

section \<open>The negotiator with the reader beside it\<close>

text \<open>What a wait sees: the readings during it, and whether the guard of the handler cancels it.\<close>

type_synonym wait_input = "reading list \<times> bool"

datatype waited = Event_set | Waited_out | Cut_off

datatype run_error = Run_neg neg_error | Run_cut | Run_reader

definition wait_run ::
    "(wait_input \<Rightarrow> negotiating \<Rightarrow> negotiating) \<Rightarrow> wait_input \<Rightarrow> (neg \<Rightarrow> bool) \<Rightarrow> negotiating \<Rightarrow> waited \<times> negotiating" where
  "wait_run arrive i ev w =
     (if ev (nn_neg w) then (Event_set, w)
      else let w1 = arrive i w
           in (if ev (nn_neg w1) then Event_set else if snd i then Cut_off else Waited_out, w1))"

definition and_then :: "waited \<times> negotiating \<Rightarrow> (negotiating \<Rightarrow> waited \<times> negotiating) \<Rightarrow> waited \<times> negotiating" where
  "and_then x f = (case x of (Event_set, w) \<Rightarrow> f w | _ \<Rightarrow> x)"

definition await_run ::
    "(wait_input \<Rightarrow> negotiating \<Rightarrow> negotiating) \<Rightarrow> (nat \<Rightarrow> wait_input) \<Rightarrow> negotiating \<Rightarrow> waited \<times> negotiating" where
  "await_run arrive input w =
     and_then
       (and_then
         (wait_run arrive (input 0)
           (if ng_strict (nn_neg w) then ng_device_event else (\<lambda>n. ng_device_event n \<or> ng_functions_event n)) w)
         (wait_run arrive (input 1) ng_functions_event))
       (wait_run arrive (input 2) ng_complete)"

definition lifted :: "neg_step \<Rightarrow> negotiating \<Rightarrow> run_error option \<times> negotiating" where
  "lifted f w = (case f (nn_neg w) of (e, n) \<Rightarrow> (map_option Run_neg e, on_rx (set_rx_neg n) w))"

definition perform_run ::
    "(wait_input \<Rightarrow> negotiating \<Rightarrow> negotiating) \<Rightarrow> (nat \<Rightarrow> wait_input) \<Rightarrow> negotiating \<Rightarrow> run_error option \<times> negotiating" where
  "perform_run arrive input w =
     (if \<not> ng_writer (nn_neg w) then (Some (Run_neg N_protocol), w)
      else case await_run arrive input w of
             (Cut_off, w1) \<Rightarrow> (Some Run_cut, w1)
           | (Waited_out, w1) \<Rightarrow> lifted negotiation_timed_out w1
           | (Event_set, w1) \<Rightarrow>
               if ng_forced_failure (nn_neg w1) then (Some (Run_neg N_negotiation), w1) else lifted conclude w1)"

definition count_recovery :: "nat \<Rightarrow> neg \<Rightarrow> neg" where
  "count_recovery attempt n =
     (if attempt > 0 then n\<lparr>ng_recovery_attempts := ng_recovery_attempts n + 1\<rparr> else n)"

text \<open>The cancelling of the guard is no \<open>Exception\<close> and passes through the retries.\<close>

fun retry_run ::
    "(nat \<Rightarrow> negotiating \<Rightarrow> run_error option \<times> negotiating) \<Rightarrow> nat \<Rightarrow> nat \<Rightarrow> negotiating \<Rightarrow> run_error option \<times> negotiating" where
  "retry_run op retries attempt w =
     (case op attempt (on_rx (on_neg (count_recovery attempt)) w) of
        (None, w1) \<Rightarrow> (None, on_rx (on_neg (update_connection_state True)) w1)
      | (Some (Run_neg e), w1) \<Rightarrow>
          (let w2 = on_rx (on_neg (update_connection_state False)) w1
           in if \<not> is_retryable_error e then (Some (Run_neg e), w2)
              else (case retries of 0 \<Rightarrow> (Some (Run_neg e), w2) | Suc k \<Rightarrow> retry_run op k (attempt + 1) w2))
      | (Some e, w1) \<Rightarrow> (Some e, w1))"

declare retry_run.simps [simp del]

definition negotiate_run ::
    "(wait_input \<Rightarrow> negotiating \<Rightarrow> negotiating) \<Rightarrow> (nat \<Rightarrow> nat \<Rightarrow> wait_input) \<Rightarrow> negotiating \<Rightarrow> run_error option \<times> negotiating" where
  "negotiate_run arrive input w =
     (if ng_force_mode (nn_neg w) \<noteq> None then lifted (negotiate_tn3270 (\<lambda>_ _ n. n)) w
      else if \<not> validate_connection_state (nn_neg w) then (Some (Run_neg N_not_connected), w)
      else if ng_forced_failure (nn_neg w) \<and> \<not> ng_allow_fallback (nn_neg w)
      then (Some (Run_neg N_negotiation), on_rx (on_neg cleanup_on_failure) w)
      else case retry_run (\<lambda>attempt. perform_run arrive (input attempt)) 3 0 w of
             (Some (Run_neg e), w1) \<Rightarrow> (Some (Run_neg N_negotiation), on_rx (on_neg cleanup_on_failure) w1)
           | res \<Rightarrow> res)"

section \<open>The second phase of the handler\<close>

text \<open>
  What the network does: the first read after the first phase, the readings of each wait, the one that
  still arrives while the reader is given half a second, and those of the grace period after it.
\<close>

record phase_input =
  ph_first :: "reading option"
  ph_waits :: "nat \<Rightarrow> nat \<Rightarrow> wait_input"
  ph_late :: "reading option"
  ph_grace :: "reading list"

definition last_reading :: "(byte \<Rightarrow> bytes option) \<Rightarrow> int \<Rightarrow> reading option \<Rightarrow> negotiating \<Rightarrow> negotiating" where
  "last_reading enc now late w =
     (case late of Some a \<Rightarrow> if nn_task w = Reading then read_once enc now a w else w | None \<Rightarrow> w)"

text \<open>Without TN3270E the terminal gets the data; when its header is refused the 3270 path gets it too.\<close>

definition grace_chunk :: "(byte \<Rightarrow> bytes option) \<Rightarrow> int \<Rightarrow> bytes \<Rightarrow> receiver \<Rightarrow> receiver" where
  "grace_chunk enc now data r =
     (let ((cleaned, vt_seen), r1) = telnet_step data r
      in if cleaned = [] then r1
         else case handle_ascii_mode enc now cleaned r1 of
                (Inr out, r2) \<Rightarrow> stash (case out of Some bs \<Rightarrow> bs | None \<Rightarrow> []) r2
              | (Inl e, r2) \<Rightarrow>
                  (case handle_tn3270_mode now cleaned r2 of
                     (Inr (Some bs), r3) \<Rightarrow> stash bs r3
                   | (_, r3) \<Rightarrow> r3))"

fun grace_loop :: "(byte \<Rightarrow> bytes option) \<Rightarrow> int \<Rightarrow> nat \<Rightarrow> reading list \<Rightarrow> receiver \<Rightarrow> receiver" where
  "grace_loop enc now (Suc k) (Got data # as) r =
     (if data = [] then r else grace_loop enc now k as (grace_chunk enc now data r))"
| "grace_loop enc now k as r = r"

text \<open>The flag that is reported at the end: what the negotiator says, or else what the trace suggests.\<close>

definition negotiated_flag :: "neg \<Rightarrow> bool" where
  "negotiated_flag n \<longleftrightarrow>
     ng_force_mode n = Some Force_tn3270e \<or> ng_negotiated n
     \<or> infer_tn3270e_from_trace (case ng_handler n of Some h \<Rightarrow> hv_trace h | None \<Rightarrow> [])"

definition handler_negotiate ::
    "(byte \<Rightarrow> bytes option) \<Rightarrow> int \<Rightarrow> phase_input \<Rightarrow> receiver \<Rightarrow> run_error option \<times> receiver" where
  "handler_negotiate enc now i r =
     (let (e, w) = negotiate_run (\<lambda>j. reader_run enc now (fst j)) (ph_waits i)
            (\<lparr>nn_rx = r, nn_task = Reading, nn_rounds = 0\<rparr>);
          w1 = (if e = None \<and> ng_ascii (nn_neg w) then on_rx (on_neg (set_negotiated_tn3270e False)) w else w);
          w2 = (if ng_force_mode (nn_neg w1) = None then last_reading enc now (ph_late i) w1 else w1)
      in if nn_task w2 = Reader_failed then (Some Run_reader, nn_rx w2)
         else if e \<noteq> None then (e, nn_rx w2)
         else (let r1 = on_neg (\<lambda>n. set_negotiated_tn3270e (negotiated_flag n) n) (nn_rx w2)
               in (None, if ng_ascii (rx_neg r1) then grace_loop enc now 30 (ph_grace i) r1 else r1)))"

section \<open>The connection\<close>

record network_links =
  nt_open :: "nat set"
  nt_next :: nat

text \<open>
  The handler with its transport: \<open>Some l\<close> is a transport, with its link when it has one. \<open>cn_link\<close> is the
  link the handler reads from and writes to.
\<close>

record connection =
  cn_host :: "string option"
  cn_port :: int
  cn_machine :: handler
  cn_rx :: receiver
  cn_transport :: "nat option option"
  cn_link :: "nat option"
  cn_timed_out :: bool
  cn_cleaned :: bool
  cn_tasks :: nat

text \<open>A handler over an open link; \<open>None\<close> is the \<open>ValueError\<close> of the negotiator for an unknown mode.\<close>

definition TN3270Handler_init ::
    "int \<Rightarrow> string option \<Rightarrow> int \<Rightarrow> bool \<Rightarrow> string \<Rightarrow> bool \<Rightarrow> string \<Rightarrow> nat \<Rightarrow> screen \<Rightarrow> connection option" where
  "TN3270Handler_init now host port printer force fallback terminal link s =
     map_option (\<lambda>n. \<lparr>cn_host = host, cn_port = port, cn_machine = handler_init now True True True,
         cn_rx = \<lparr>rx_telnet = \<lparr>telnet_buffer = [], negotiator = n, in_suspended_mode = False,
             in_3270_mode = True, has_writer = True, is_connected = False, sent = []\<rparr>,
           rx_parser = DataStreamParser_init s printer True MODE_12_BIT, rx_seq = seq_init,
           rx_pending = [], rx_reader = True\<rparr>,
         cn_transport = None, cn_link = Some link, cn_timed_out = False, cn_cleaned = False, cn_tasks = 0\<rparr>)
       (Negotiator_init True True (Some s)
         (Some \<lparr>hv_negotiated = False, hv_ascii = False, hv_printer_buffer = printer, hv_trace = []\<rparr>)
         printer force fallback terminal ''strict'')"

text \<open>The state machine looks at flags that are kept elsewhere.\<close>

definition machine_of :: "connection \<Rightarrow> handler" where
  "machine_of c = (cn_machine c)
     \<lparr>h_ascii_mode := (case ng_handler (rx_neg (cn_rx c)) of Some v \<Rightarrow> hv_ascii v | None \<Rightarrow> False),
      h_reader := rx_reader (cn_rx c), h_writer := has_writer (rx_telnet (cn_rx c))\<rparr>"

definition change :: "int \<Rightarrow> hstate \<Rightarrow> string \<Rightarrow> connection \<Rightarrow> transition_error option \<times> connection" where
  "change now st reason c =
     (case change_state now st reason (machine_of c) of (e, h) \<Rightarrow> (e, c\<lparr>cn_machine := h\<rparr>))"

abbreviation cn_state :: "connection \<Rightarrow> hstate" where
  "cn_state c \<equiv> current_state (cn_machine c)"

abbreviation cn_connected :: "connection \<Rightarrow> bool" where
  "cn_connected c \<equiv> h_connected (cn_machine c)"

text \<open>The flag of the handler, which its telnet layer looks at too.\<close>

definition set_connected :: "bool \<Rightarrow> connection \<Rightarrow> connection" where
  "set_connected b c =
     c\<lparr>cn_machine := (cn_machine c)\<lparr>h_connected := b\<rparr>,
       cn_rx := (cn_rx c)\<lparr>rx_telnet := (rx_telnet (cn_rx c))\<lparr>is_connected := b\<rparr>\<rparr>\<rparr>"

definition on_receiver :: "(receiver \<Rightarrow> receiver) \<Rightarrow> connection \<Rightarrow> connection" where
  "on_receiver f c = c\<lparr>cn_rx := f (cn_rx c)\<rparr>"

definition open_link :: "network_links \<Rightarrow> nat \<times> network_links" where
  "open_link nw = (nt_next nw, nw\<lparr>nt_open := insert (nt_next nw) (nt_open nw), nt_next := nt_next nw + 1\<rparr>)"

definition close_link :: "nat option \<Rightarrow> network_links \<Rightarrow> network_links" where
  "close_link l nw = (case l of Some k \<Rightarrow> nw\<lparr>nt_open := nt_open nw - {k}\<rparr> | None \<Rightarrow> nw)"

datatype dial = Dialled | Dial_slow | Dial_refused

datatype connect_error = Ce_transition transition_error | Ce_timeout | Ce_refused | Ce_neg neg_error | Ce_run run_error

text \<open>A failure leads to the state of errors, unless the handler is in it already.\<close>

definition fail_connect ::
    "int \<Rightarrow> connect_error \<Rightarrow> connection \<Rightarrow> connect_error option \<times> connection" where
  "fail_connect now e c =
     (Some e, if cn_state c \<noteq> ERROR then snd (change now ERROR ''unexpected error during connection'' c) else c)"

text \<open>The streams of the transport become those of the handler and of the negotiator.\<close>

definition assign_streams :: "nat \<Rightarrow> connection \<Rightarrow> connection" where
  "assign_streams l c =
     set_connected True (c\<lparr>cn_transport := Some (Some l), cn_link := Some l,
       cn_rx := on_neg (\<lambda>n. n\<lparr>ng_writer := True\<rparr>)
         ((cn_rx c)\<lparr>rx_reader := True, rx_telnet := (rx_telnet (cn_rx c))\<lparr>has_writer := True\<rparr>\<rparr>)\<rparr>)"

text \<open>\<open>perform_telnet_negotiation\<close>: the first phase, and one read of what the host answers.\<close>

definition first_phase :: "phase_input \<Rightarrow> receiver \<Rightarrow> neg_error option \<times> receiver" where
  "first_phase i r =
     (case negotiate (rx_neg r) of
        (Some e, n) \<Rightarrow> (Some e, set_rx_neg n r)
      | (None, n) \<Rightarrow>
          (None, case ph_first i of
                   Some (Got data) \<Rightarrow>
                     (if data = [] then set_rx_neg n r
                      else case telnet_step data (set_rx_neg n r) of ((cleaned, vt_seen), r1) \<Rightarrow> stash cleaned r1)
                 | _ \<Rightarrow> set_rx_neg n r))"

definition enter_final_state :: "int \<Rightarrow> connection \<Rightarrow> transition_error option \<times> connection" where
  "enter_final_state now c =
     (if ng_ascii (rx_neg (cn_rx c)) then change now ASCII_MODE ''negotiation completed in ASCII mode'' c
      else change now TN3270_MODE ''negotiation completed in TN3270 mode'' c)"

definition negotiate_connection ::
    "(byte \<Rightarrow> bytes option) \<Rightarrow> int \<Rightarrow> phase_input \<Rightarrow> connection \<Rightarrow> connect_error option \<times> connection" where
  "negotiate_connection enc now i c =
     (case change now hstate.NEGOTIATING ''connection established, starting negotiation'' c of
        (Some e, c1) \<Rightarrow> fail_connect now (Ce_transition e) c1
      | (None, c1) \<Rightarrow>
          (case first_phase i (cn_rx c1) of
             (Some e, r) \<Rightarrow> fail_connect now (Ce_neg e) (c1\<lparr>cn_rx := r\<rparr>)
           | (None, r) \<Rightarrow>
               (case handler_negotiate enc now i r of
                  (Some e, r1) \<Rightarrow> fail_connect now (Ce_run e) (c1\<lparr>cn_rx := r1\<rparr>)
                | (None, r1) \<Rightarrow>
                    (case enter_final_state now (c1\<lparr>cn_rx := r1\<rparr>) of
                       (None, c2) \<Rightarrow> (None, c2)
                     | (Some e, c2) \<Rightarrow> fail_connect now (Ce_transition e) c2))))"

definition handler_connect ::
    "(byte \<Rightarrow> bytes option) \<Rightarrow> int \<Rightarrow> dial \<Rightarrow> phase_input \<Rightarrow> connection \<times> network_links
       \<Rightarrow> connect_error option \<times> connection \<times> network_links" where
  "handler_connect enc now d i = (\<lambda>(c, nw).
     if cn_state c = CONNECTED then (None, c, nw)
     else case change now CONNECTING ''starting connection'' c of
            (Some e, c1) \<Rightarrow> (let (res, c2) = fail_connect now (Ce_transition e) c1 in (res, c2, nw))
          | (None, c1) \<Rightarrow>
              (let c2 = (if cn_transport c1 = None then c1\<lparr>cn_transport := Some None\<rparr> else c1)
               in case d of
                    Dial_slow \<Rightarrow> (Some Ce_timeout, snd (change now ERROR ''connection timeout'' c2), nw)
                  | Dial_refused \<Rightarrow> (Some Ce_refused, snd (change now ERROR ''connection error'' c2), nw)
                  | Dialled \<Rightarrow>
                      (case open_link nw of
                         (l, nw1) \<Rightarrow>
                           (case negotiate_connection enc now i (assign_streams l c2) of
                              (res, c3) \<Rightarrow> (res, c3, nw1)))))"

definition handler_set_ascii_mode :: "connection \<Rightarrow> connection" where
  "handler_set_ascii_mode c =
     on_receiver (\<lambda>r. on_rx_screen (set_ascii_mode True) (on_neg neg_set_ascii_mode r)) c"

section \<open>Closing\<close>

text \<open>
  A state from which closing is not allowed has become the one of errors by the attempt; closing is then
  forced. Closing the writer may raise when there is no transport.
\<close>

definition start_closing :: "int \<Rightarrow> connection \<Rightarrow> connection" where
  "start_closing now c =
     (case change now CLOSING ''closing connection'' c of
        (None, c1) \<Rightarrow> c1
      | (Some _, c1) \<Rightarrow> c1\<lparr>cn_machine := enter_state now CLOSING ''forced closing'' (cn_machine c1)\<rparr>)"

definition handler_close ::
    "int \<Rightarrow> bool \<Rightarrow> connection \<times> network_links \<Rightarrow> bool \<times> connection \<times> network_links" where
  "handler_close now raises = (\<lambda>(c, nw).
     let c1 = start_closing now c;
         finish = (\<lambda>c nw. (False, snd (change now DISCONNECTED ''connection closed successfully''
                                (set_connected False (c\<lparr>cn_tasks := 0\<rparr>))), nw))
     in case cn_transport c1 of
          Some l \<Rightarrow> finish (c1\<lparr>cn_transport := None\<rparr>) (close_link l nw)
        | None \<Rightarrow>
            (if \<not> has_writer (rx_telnet (cn_rx c1)) then finish c1 nw
             else if raises then (True, snd (change now ERROR ''error during close'' c1), close_link (cn_link c1) nw)
             else finish (on_receiver (\<lambda>r. r\<lparr>rx_telnet := (rx_telnet r)\<lparr>has_writer := False\<rparr>\<rparr>)
                    (c1\<lparr>cn_link := None\<rparr>)) (close_link (cn_link c1) nw)))"

text \<open>The streams as far as they can be seen from here: \<open>ended\<close> says that the writer is closing or the reader at its end.\<close>

definition handler_is_connected :: "bool \<Rightarrow> connection \<Rightarrow> bool" where
  "handler_is_connected ended c \<longleftrightarrow>
     (case cn_transport c of
        Some l \<Rightarrow> l \<noteq> None \<and> \<not> ended
      | None \<Rightarrow> cn_connected c \<and> has_writer (rx_telnet (cn_rx c)) \<and> rx_reader (cn_rx c) \<and> \<not> ended)"

section \<open>Timeouts and recovery\<close>

definition mark_negotiation_timeout :: "connection \<Rightarrow> connection" where
  "mark_negotiation_timeout c = c\<lparr>cn_timed_out := True, cn_cleaned := False\<rparr>"

definition drop_pending :: "connection \<Rightarrow> connection" where
  "drop_pending = on_receiver (\<lambda>r. r\<lparr>rx_pending := []\<rparr>)"

definition perform_timeout_cleanup :: "connection \<Rightarrow> connection" where
  "perform_timeout_cleanup c =
     (if cn_cleaned c then c
      else (on_receiver (\<lambda>r. on_neg reset_negotiation_state r\<lparr>rx_seq := reset_sequence_numbers (rx_seq r)\<rparr>)
              (drop_pending c))\<lparr>cn_tasks := 0, cn_cleaned := True\<rparr>)"

definition handler_reset_negotiation_state :: "connection \<Rightarrow> connection" where
  "handler_reset_negotiation_state c =
     (on_receiver (on_neg reset_negotiation_state) c)\<lparr>cn_timed_out := False, cn_cleaned := False\<rparr>"

definition handler_cleanup_on_failure :: "connection \<times> network_links \<Rightarrow> connection \<times> network_links" where
  "handler_cleanup_on_failure = (\<lambda>(c, nw).
     ((on_receiver (on_neg reset_negotiation_state) (drop_pending (set_connected False c)))
        \<lparr>cn_transport := None, cn_tasks := 0\<rparr>,
      case cn_transport c of Some l \<Rightarrow> close_link l nw | None \<Rightarrow> nw))"

datatype recovery = Reconnect | Renegotiate | Reset_mode | Full_reset

text \<open>The entries into the state of errors among the last five, by their reasons.\<close>

definition determine_recovery_strategy :: "handler \<Rightarrow> recovery" where
  "determine_recovery_strategy h =
     (let h5 = drop (length (state_history h) - 5) (state_history h);
          speaks = (\<lambda>w. \<exists>(st, t, reason) \<in> set h5. st = ERROR \<and> py_contains w (lower reason))
      in if speaks ''connection'' then Reconnect
         else if speaks ''negotiation'' then Renegotiate
         else if speaks ''ascii'' \<or> speaks ''tn3270'' then Reset_mode
         else Full_reset)"

definition can_attempt_recovery :: "connection \<Rightarrow> bool" where
  "can_attempt_recovery c \<longleftrightarrow>
     cn_host c \<noteq> None \<and> cn_host c \<noteq> Some [] \<and> cn_port c \<noteq> 0
     \<and> cn_state c \<noteq> RECOVERING
     \<and> (case transition_count (cn_machine c) RECOVERING of None \<Rightarrow> 0 | Some n \<Rightarrow> n) \<le> 5"

definition recovery_reconnect ::
    "(byte \<Rightarrow> bytes option) \<Rightarrow> int \<Rightarrow> dial \<Rightarrow> phase_input \<Rightarrow> connection \<times> network_links
       \<Rightarrow> bool \<times> connection \<times> network_links" where
  "recovery_reconnect enc now d i = (\<lambda>(c, nw).
     let c1 = drop_pending ((set_connected False c)\<lparr>cn_transport := None\<rparr>);
         nw1 = (case cn_transport c of Some l \<Rightarrow> close_link l nw | None \<Rightarrow> nw);
         (e, res) = handler_connect enc now d i (c1, nw1)
     in (e = None, res))"

definition recovery_renegotiate ::
    "(byte \<Rightarrow> bytes option) \<Rightarrow> int \<Rightarrow> phase_input \<Rightarrow> connection \<Rightarrow> bool \<times> connection" where
  "recovery_renegotiate enc now i c =
     (let c1 = on_receiver (on_neg reset_negotiation_state) c
      in if cn_transport c = None then (True, c1)
         else case first_phase i (cn_rx c1) of
                (Some e, r) \<Rightarrow> (False, c1\<lparr>cn_rx := r\<rparr>)
              | (None, r) \<Rightarrow> (case handler_negotiate enc now i r of (e, r1) \<Rightarrow> (e = None, c1\<lparr>cn_rx := r1\<rparr>)))"

text \<open>The handler's own flag is cleared first and set again by the negotiator.\<close>

definition recovery_reset_mode :: "connection \<Rightarrow> bool \<times> connection" where
  "recovery_reset_mode c =
     (True, drop_pending (on_receiver (on_neg (\<lambda>n. set_negotiated_tn3270e False (neg_set_ascii_mode
        (n\<lparr>ng_handler := map_option (\<lambda>v. v\<lparr>hv_ascii := False\<rparr>) (ng_handler n)\<rparr>)))) c))"

definition recovery_full_reset :: "connection \<times> network_links \<Rightarrow> bool \<times> connection \<times> network_links" where
  "recovery_full_reset x =
     (case handler_cleanup_on_failure x of
        (c, nw) \<Rightarrow>
          (True,
           on_receiver (on_neg (\<lambda>n. reset_negotiation_state
             (n\<lparr>ng_handler := map_option (\<lambda>v. v\<lparr>hv_ascii := False\<rparr>) (ng_handler n)\<rparr>)))
             (drop_pending (set_connected False c)), nw))"

definition execute_recovery ::
    "(byte \<Rightarrow> bytes option) \<Rightarrow> int \<Rightarrow> dial \<Rightarrow> phase_input \<Rightarrow> recovery \<Rightarrow> connection \<times> network_links
       \<Rightarrow> bool \<times> connection \<times> network_links" where
  "execute_recovery enc now d i k x =
     (case k of
        Reconnect \<Rightarrow> recovery_reconnect enc now d i x
      | Renegotiate \<Rightarrow> (case recovery_renegotiate enc now i (fst x) of (ok, c) \<Rightarrow> (ok, c, snd x))
      | Reset_mode \<Rightarrow> (case recovery_reset_mode (fst x) of (ok, c) \<Rightarrow> (ok, c, snd x))
      | Full_reset \<Rightarrow> recovery_full_reset x)"

section \<open>Validation\<close>

text \<open>Nothing in the program sets the mode for replayed traces, which would make it more lenient.\<close>

definition validate_connection :: "connection \<Rightarrow> bool" where
  "validate_connection c \<longleftrightarrow>
     validate_negotiation_completion (rx_neg (cn_rx c)) \<and> cn_connected c \<and> \<not> cn_timed_out c
     \<and> cn_state c \<notin> {ERROR, DISCONNECTED}"

text \<open>Each check with its verdict, if it has one; a check without one counts as failed.\<close>

definition connection_checks :: "connection \<Rightarrow> (string \<times> bool option) list" where
  "connection_checks c =
     [(''negotiator'', Some (validate_negotiation_completion (rx_neg (cn_rx c)))),
      (''connection'', Some (cn_connected c)), (''timeout'', None), (''streams'', None)]"

definition details_valid :: "connection \<Rightarrow> bool" where
  "details_valid c \<longleftrightarrow> (\<forall>(name, v) \<in> set (connection_checks c). v = Some True)"

end
