(* ===== verification/HandlerConnectProps.thy ===== *)
theory HandlerConnectProps
  imports HandlerConnect
begin

text \<open>
  The handler's negotiation refines the negotiator's, a host that hangs up, the states in which connecting
  and closing end, and the links they leave.
\<close>

section \<open>The negotiator's view\<close>

lemma nn_neg_on_rx [simp]: "nn_neg (on_rx (set_rx_neg n) w) = n" "nn_neg (on_rx (on_neg f) w) = f (nn_neg w)"
  by (simp_all add: on_rx_def on_neg_def set_rx_neg_def)

text \<open>What the waits of one attempt leave in the negotiator, as a function of the wait.\<close>

definition seen :: "neg \<Rightarrow> neg \<Rightarrow> neg \<Rightarrow> nat \<Rightarrow> neg \<Rightarrow> neg" where
  "seen a b c k n = (if k = 0 then a else if k = 1 then b else c)"

fun event_result :: "waited \<Rightarrow> bool" where
  "event_result Event_set = True"
| "event_result _ = False"

lemma wait_run_event:
  assumes "wait_run arrive i ev w = (x, w')"
  shows "wait_event ev (\<lambda>_. nn_neg w') (nn_neg w) = (event_result x, nn_neg w')"
  using assms by (auto simp: wait_run_def wait_event_def Let_def split: if_splits)

lemma await_run_events:
  assumes "await_run arrive input w = (x, w')"
  shows "\<exists>ar. await_events ar (nn_neg w) = (event_result x, nn_neg w')"
proof -
  let ?ev = "if ng_strict (nn_neg w) then ng_device_event else (\<lambda>n. ng_device_event n \<or> ng_functions_event n)"
  obtain x0 w0 where 0: "wait_run arrive (input 0) ?ev w = (x0, w0)" by fastforce
  obtain x1 w1 where 1: "wait_run arrive (input 1) ng_functions_event w0 = (x1, w1)" by fastforce
  obtain x2 w2 where 2: "wait_run arrive (input 2) ng_complete w1 = (x2, w2)" by fastforce
  note e = wait_run_event [OF 0] wait_run_event [OF 1] wait_run_event [OF 2]
  have "await_events (seen (nn_neg w0) (nn_neg w1) (nn_neg w2)) (nn_neg w)
      = (event_result x, nn_neg w')"
    using assms 0 1 2 e
    by (cases x0; cases x1; cases x2)
      (auto simp: await_run_def and_then_def await_events_def seen_def [abs_def] split: if_splits)
  then show ?thesis by blast
qed

fun shown_error :: "run_error option \<Rightarrow> neg_error option" where
  "shown_error (Some (Run_neg e)) = Some e"
| "shown_error _ = None"

lemma shown_run [simp]: "shown_error (map_option Run_neg e) = e"
  by (cases e) simp_all

lemma perform_run_negotiates:
  assumes "perform_run arrive input w = (e, w')"
  shows "e = Some Run_cut \<or> e \<noteq> Some Run_reader
    \<and> (\<exists>ar. perform_tn3270_negotiation ar (nn_neg w) = (shown_error e, nn_neg w'))"
proof (cases "ng_writer (nn_neg w)")
  case False
  then show ?thesis using assms by (auto simp: perform_run_def perform_tn3270_negotiation_def)
next
  case True
  obtain x w1 where x: "await_run arrive input w = (x, w1)" by fastforce
  obtain ar where ar: "await_events ar (nn_neg w) = (event_result x, nn_neg w1)"
    using await_run_events [OF x] by blast
  have "e = Some Run_cut \<or> e \<noteq> Some Run_reader
      \<and> perform_tn3270_negotiation ar (nn_neg w) = (shown_error e, nn_neg w')"
    using assms x ar True
    by (cases x) (auto simp: perform_run_def perform_tn3270_negotiation_def lifted_def map_option_case
        split: if_splits prod.splits option.splits)
  then show ?thesis by blast
qed

lemma retry_loop_once:
  assumes "op attempt (count_recovery attempt n) = (d, n1)"
  shows "d = None \<Longrightarrow> retry_loop op retries attempt n = (None, update_connection_state True n1)"
    and "d = Some x \<Longrightarrow> \<not> is_retryable_error x \<or> retries = 0
      \<Longrightarrow> retry_loop op retries attempt n = (Some x, update_connection_state False n1)"
    and "d = Some x \<Longrightarrow> is_retryable_error x
      \<Longrightarrow> retry_loop op (Suc k) attempt n = retry_loop op k (attempt + 1) (update_connection_state False n1)"
  using assms unfolding count_recovery_def
  by (subst retry_loop.simps, simp only: split: option.split nat.split, force simp: Let_def)+

lemma retry_run_once:
  assumes "op attempt (on_rx (on_neg (count_recovery attempt)) w) = (d, w1)"
  shows "d = None \<Longrightarrow> retry_run op retries attempt w = (None, on_rx (on_neg (update_connection_state True)) w1)"
    and "d = Some (Run_neg x) \<Longrightarrow> \<not> is_retryable_error x \<or> retries = 0
      \<Longrightarrow> retry_run op retries attempt w = (Some (Run_neg x), on_rx (on_neg (update_connection_state False)) w1)"
    and "d = Some (Run_neg x) \<Longrightarrow> is_retryable_error x \<Longrightarrow> retry_run op (Suc k) attempt w
      = retry_run op k (attempt + 1) (on_rx (on_neg (update_connection_state False)) w1)"
    and "d = Some Run_cut \<Longrightarrow> retry_run op retries attempt w = (Some Run_cut, w1)"
  using assms by (subst retry_run.simps, force simp: Let_def split: nat.split)+

lemma retry_loop_cong:
  "(\<And>a n. attempt \<le> a \<Longrightarrow> op1 a n = op2 a n) \<Longrightarrow> retry_loop op1 retries attempt n = retry_loop op2 retries attempt n"
proof (induction retries arbitrary: attempt n)
  case 0
  obtain d n1 where d: "op2 attempt (count_recovery attempt n) = (d, n1)" by fastforce
  with 0 have d': "op1 attempt (count_recovery attempt n) = (d, n1)" by simp
  show ?case
    by (cases d) (simp_all add: retry_loop_once(1,2) [of op1, OF d'] retry_loop_once(1,2) [of op2, OF d])
next
  case (Suc k)
  obtain d n1 where d: "op2 attempt (count_recovery attempt n) = (d, n1)" by fastforce
  with Suc have d': "op1 attempt (count_recovery attempt n) = (d, n1)" by simp
  have "retry_loop op1 k (attempt + 1) m = retry_loop op2 k (attempt + 1) m" for m
    using Suc by simp
  then show ?case
    using retry_loop_once [of op1, OF d'] retry_loop_once [of op2, OF d]
    by (cases d) (simp, metis)
qed

lemma retry_stops:
  assumes "perform_run arrive (input attempt) (on_rx (on_neg (count_recovery attempt)) w) = (d, w1)"
    and "perform_tn3270_negotiation ar (count_recovery attempt (nn_neg w)) = (shown_error d, nn_neg w1)"
    and "d \<noteq> Some Run_cut" and "d \<noteq> Some Run_reader" and "retries = 0 \<or> \<not> (\<exists>x. d = Some (Run_neg x) \<and> is_retryable_error x)"
    and "retry_run (\<lambda>a. perform_run arrive (input a)) retries attempt w = (e, w')"
  shows "e \<noteq> Some Run_reader \<and> retry_loop (\<lambda>a. perform_tn3270_negotiation ar) retries attempt (nn_neg w) = (shown_error e, nn_neg w')"
  using assms(3-) retry_run_once [of "\<lambda>a. perform_run arrive (input a)", OF assms(1)]
    retry_loop_once [of "\<lambda>a. perform_tn3270_negotiation ar", OF assms(2)]
  by (cases d rule: shown_error.cases) auto

lemma retry_goes_on:
  assumes "perform_tn3270_negotiation ar (count_recovery attempt n) = (Some x, n1)" and "is_retryable_error x"
    and "retry_loop (\<lambda>a. perform_tn3270_negotiation (ars a)) k (attempt + 1) (update_connection_state False n1) = res"
  shows "\<exists>ars. retry_loop (\<lambda>a. perform_tn3270_negotiation (ars a)) (Suc k) attempt n = res"
proof -
  let ?ars = "\<lambda>a. if a = attempt then ar else ars a"
  have "retry_loop (\<lambda>a. perform_tn3270_negotiation (?ars a)) k (attempt + 1) m
      = retry_loop (\<lambda>a. perform_tn3270_negotiation (ars a)) k (attempt + 1) m" for m
    by (rule retry_loop_cong) simp
  moreover have "perform_tn3270_negotiation (?ars attempt) (count_recovery attempt n) = (Some x, n1)" using assms(1) by simp
  from retry_loop_once(3) [of "\<lambda>a. perform_tn3270_negotiation (?ars a)", OF this _ assms(2)]
  have "retry_loop (\<lambda>a. perform_tn3270_negotiation (?ars a)) (Suc k) attempt n
      = retry_loop (\<lambda>a. perform_tn3270_negotiation (?ars a)) k (attempt + 1) (update_connection_state False n1)" by simp
  ultimately have "retry_loop (\<lambda>a. perform_tn3270_negotiation (?ars a)) (Suc k) attempt n = res" using assms(3) by simp
  then show ?thesis by (rule exI [of _ ?ars])
qed

lemma retry_run_negotiates:
  assumes "retry_run (\<lambda>a. perform_run arrive (input a)) retries attempt w = (e, w')"
  shows "e = Some Run_cut \<or> e \<noteq> Some Run_reader
    \<and> (\<exists>ar. retry_loop (\<lambda>a. perform_tn3270_negotiation (ar a)) retries attempt (nn_neg w) = (shown_error e, nn_neg w'))"
  using assms
proof (induction retries arbitrary: attempt w)
  case (0 attempt w)
  obtain d w1 where d: "perform_run arrive (input attempt) (on_rx (on_neg (count_recovery attempt)) w) = (d, w1)" by fastforce
  from perform_run_negotiates [OF d] consider "d = Some Run_cut" | ar where "d \<noteq> Some Run_cut" "d \<noteq> Some Run_reader"
    "perform_tn3270_negotiation ar (count_recovery attempt (nn_neg w)) = (shown_error d, nn_neg w1)" by auto
  then show ?case
  proof cases
    case 2
    from retry_stops [OF d 2(3,1,2) _ 0] show ?thesis by (intro disjI2 conjI exI [of _ "\<lambda>_. ar"]) auto
  qed (use 0 retry_run_once [of "\<lambda>a. perform_run arrive (input a)", OF d] in simp)
next
  case (Suc k attempt w)
  obtain d w1 where d: "perform_run arrive (input attempt) (on_rx (on_neg (count_recovery attempt)) w) = (d, w1)" by fastforce
  note run = retry_run_once [of "\<lambda>a. perform_run arrive (input a)", OF d]
  from perform_run_negotiates [OF d] consider "d = Some Run_cut"
    | (again) ar x where "d = Some (Run_neg x)" "is_retryable_error x"
      "perform_tn3270_negotiation ar (count_recovery attempt (nn_neg w)) = (Some x, nn_neg w1)"
    | (stop) ar where "d \<noteq> Some Run_cut" "d \<noteq> Some Run_reader" "\<not> (\<exists>x. d = Some (Run_neg x) \<and> is_retryable_error x)"
      "perform_tn3270_negotiation ar (count_recovery attempt (nn_neg w)) = (shown_error d, nn_neg w1)" by fastforce
  then show ?case
  proof cases
    case again
    have "retry_run (\<lambda>a. perform_run arrive (input a)) k (attempt + 1)
        (on_rx (on_neg (update_connection_state False)) w1) = (e, w')"
      using Suc.prems run(3) [OF again(1,2)] by simp
    from Suc.IH [OF this] consider "e = Some Run_cut" | ars where "e \<noteq> Some Run_reader"
      "retry_loop (\<lambda>a. perform_tn3270_negotiation (ars a)) k (attempt + 1) (update_connection_state False (nn_neg w1))
         = (shown_error e, nn_neg w')" by auto
    then show ?thesis
    proof cases
      case 2
      from retry_goes_on [OF again(3,2) 2(2)] 2(1) show ?thesis by simp
    qed simp
  next
    case stop
    from retry_stops [OF d stop(4,1,2) _ Suc.prems] stop(3) show ?thesis by (intro disjI2 conjI exI [of _ "\<lambda>_. ar"]) auto
  qed (use Suc.prems run in simp)
qed

text \<open>
  C30. The negotiation that runs beside the reader task refines the negotiator's own: whatever the reader
  does during the waits, to the screen, the pending data or the telnet layer, unless the guard cancels
  the negotiation there are functions of the negotiator for the waits with which it ends alike.
\<close>

theorem negotiation_refines:
  "case negotiate_run arrive input w of
     (e, w') \<Rightarrow> e = Some Run_cut \<or>
       (\<exists>ar. negotiate_tn3270 ar (nn_neg w) = (shown_error e, nn_neg w') \<and> (e = None \<longleftrightarrow> shown_error e = None))"
proof -
  obtain e w' where r: "negotiate_run arrive input w = (e, w')" by fastforce
  obtain d w1 where d: "retry_run (\<lambda>a. perform_run arrive (input a)) 3 0 w = (d, w1)" by fastforce
  have "e = Some Run_cut \<or>
       (\<exists>ar. negotiate_tn3270 ar (nn_neg w) = (shown_error e, nn_neg w') \<and> (e = None \<longleftrightarrow> shown_error e = None))"
  proof (cases "ng_force_mode (nn_neg w)")
    case (Some m)
    obtain x n where n: "negotiate_tn3270 (\<lambda>_ _ n. n) (nn_neg w) = (x, n)" by fastforce
    then have "e = map_option Run_neg x" "w' = on_rx (set_rx_neg n) w"
      using r Some by (simp_all add: negotiate_run_def lifted_def)
    with n show ?thesis by (intro disjI2 exI [of _ "\<lambda>_ _ n. n"]) simp
  next
    case None
    consider "d = Some Run_cut" | ar where "d \<noteq> Some Run_cut" "d \<noteq> Some Run_reader"
      "retry_loop (\<lambda>a. perform_tn3270_negotiation (ar a)) 3 0 (nn_neg w) = (shown_error d, nn_neg w1)"
      using retry_run_negotiates [OF d] by blast
    then show ?thesis
    proof cases
      case 1
      then show ?thesis using r None d
        by (auto simp: negotiate_run_def negotiate_tn3270_def split: if_splits)
    next
      case 2
      have run: "(if \<not> validate_connection_state (nn_neg w) then (Some (Run_neg N_not_connected), w)
          else if ng_forced_failure (nn_neg w) \<and> \<not> ng_allow_fallback (nn_neg w)
          then (Some (Run_neg N_negotiation), on_rx (on_neg cleanup_on_failure) w)
          else case (d, w1) of
                 (Some (Run_neg e), w1) \<Rightarrow> (Some (Run_neg N_negotiation), on_rx (on_neg cleanup_on_failure) w1)
               | res \<Rightarrow> res) = (e, w')"
        using r None unfolding negotiate_run_def d by simp
      have neg: "negotiate_tn3270 ar (nn_neg w)
          = (if \<not> validate_connection_state (nn_neg w) then (Some N_not_connected, nn_neg w)
             else if ng_forced_failure (nn_neg w) \<and> \<not> ng_allow_fallback (nn_neg w)
             then (Some N_negotiation, cleanup_on_failure (nn_neg w))
             else case (shown_error d, nn_neg w1) of
                    (None, n') \<Rightarrow> (None, n') | (Some _, n') \<Rightarrow> (Some N_negotiation, cleanup_on_failure n'))"
        using None unfolding negotiate_tn3270_def retry_with_backoff_def 2(3) by simp
      have "negotiate_tn3270 ar (nn_neg w) = (shown_error e, nn_neg w') \<and> (e = None \<longleftrightarrow> shown_error e = None)"
        unfolding neg using run 2(1,2) by (cases d rule: shown_error.cases) (auto split: if_splits)
      then show ?thesis by (intro disjI2 exI [of _ ar])
    qed
  qed
  then show ?thesis using r by simp
qed

section \<open>States\<close>

lemma change_facts:
  assumes "change now st reason c = (e, c')"
  shows "cn_state c' = (if e = None then st else ERROR)"
    and "e = None \<longleftrightarrow> st \<in> set (valid_transitions (cn_state c)) \<and> validate_state_consistency st (machine_of c)"
    and "cn_rx c' = cn_rx c" "cn_transport c' = cn_transport c" "cn_link c' = cn_link c" "cn_tasks c' = cn_tasks c"
    and "cn_connected c' = cn_connected c" "h_negotiator (cn_machine c') = h_negotiator (cn_machine c)"
proof -
  obtain h where h: "change_state now st reason (machine_of c) = (e, h)" "c' = c\<lparr>cn_machine := h\<rparr>"
    using assms by (auto simp: change_def split: prod.splits)
  have "current_state (machine_of c) = cn_state c" by (simp add: machine_of_def)
  with change_state_outcome [OF h(1)] show "cn_state c' = (if e = None then st else ERROR)"
    "e = None \<longleftrightarrow> st \<in> set (valid_transitions (cn_state c)) \<and> validate_state_consistency st (machine_of c)"
    using h(2) by auto
  show "cn_rx c' = cn_rx c" "cn_transport c' = cn_transport c" "cn_link c' = cn_link c" "cn_tasks c' = cn_tasks c"
    using h(2) by simp_all
  have "h_connected h = h_connected (machine_of c) \<and> h_negotiator h = h_negotiator (machine_of c)" using h(1)
    by (auto simp: change_state_defs enter_state_def record_state_transition_sync_def signal_state_change_def
        split: if_splits)
  then show "cn_connected c' = cn_connected c" "h_negotiator (cn_machine c') = h_negotiator (cn_machine c)"
    using h(2) by (simp_all add: machine_of_def)
qed

lemma change_done:
  assumes "st \<in> set (valid_transitions (cn_state c))" and "validate_state_consistency st (machine_of c)"
  obtains c' where "change now st reason c = (None, c')" "cn_state c' = st" "cn_rx c' = cn_rx c"
    "cn_transport c' = cn_transport c" "cn_link c' = cn_link c" "cn_tasks c' = cn_tasks c"
    "cn_connected c' = cn_connected c" "h_negotiator (cn_machine c') = h_negotiator (cn_machine c)"
proof -
  obtain e c' where c: "change now st reason c = (e, c')" by fastforce
  note f = change_facts [OF c]
  from f(2) assms have "e = None" by simp
  then show ?thesis using c f that [of c'] by simp
qed

lemma set_connected_facts [simp]:
  "cn_state (set_connected b c) = cn_state c" "cn_connected (set_connected b c) = b"
  "cn_tasks (set_connected b c) = cn_tasks c" "cn_transport (set_connected b c) = cn_transport c" "cn_link (set_connected b c) = cn_link c"
  by (simp_all add: set_connected_def)

lemma change_error: "cn_state (snd (change now ERROR reason c)) = ERROR"
proof -
  obtain e c' where c: "change now ERROR reason c = (e, c')" by fastforce
  from change_facts(1) [OF c] c show ?thesis by simp
qed

lemma fail_connect_error:
  "fail_connect now e c = (res, c') \<Longrightarrow> res = Some e \<and> cn_state c' = ERROR"
  using change_error by (auto simp: fail_connect_def)

lemma final_state:
  assumes "enter_final_state now c = (e, c')"
  shows "cn_state c' = (if e = None then if ng_ascii (rx_neg (cn_rx c')) then ASCII_MODE else TN3270_MODE else ERROR)"
    and "cn_rx c' = cn_rx c"
  using assms change_facts(1,3) by (auto simp: enter_final_state_def split: if_splits)

lemma negotiate_connection_state:
  assumes "negotiate_connection enc now i c = (e, c')"
  shows "cn_state c'
    = (if e = None then if ng_ascii (rx_neg (cn_rx c')) then ASCII_MODE else TN3270_MODE else ERROR)"
  using assms
  by (auto simp: negotiate_connection_def dest!: fail_connect_error dest: final_state(1) split: prod.splits option.splits)

lemma handler_connect_state:
  assumes "handler_connect enc now d i (c, nw) = (e, c', nw')"
  shows "e = None \<Longrightarrow> cn_state c = CONNECTED \<and> c' = c \<or> cn_state c = DISCONNECTED
      \<and> cn_state c' = (if ng_ascii (rx_neg (cn_rx c')) then ASCII_MODE else TN3270_MODE)"
    and "e \<noteq> None \<Longrightarrow> cn_state c' = ERROR"
proof -
  obtain f c1 where s: "change now CONNECTING ''starting connection'' c = (f, c1)" by fastforce
  note fs = change_facts [OF s]
  have "CONNECTING \<in> set (valid_transitions (cn_state c)) \<Longrightarrow> cn_state c = DISCONNECTED"
    by (cases "cn_state c") simp_all
  with fs have from_start: "f = None \<Longrightarrow> cn_state c = DISCONNECTED" by simp
  show "e = None \<Longrightarrow> cn_state c = CONNECTED \<and> c' = c \<or> cn_state c = DISCONNECTED
      \<and> cn_state c' = (if ng_ascii (rx_neg (cn_rx c')) then ASCII_MODE else TN3270_MODE)"
    using assms s from_start
    by (auto simp: handler_connect_def Let_def dest!: fail_connect_error dest: negotiate_connection_state
        split: if_splits prod.splits option.splits dial.splits)
  show "e \<noteq> None \<Longrightarrow> cn_state c' = ERROR"
    using assms s change_error
    by (auto simp: handler_connect_def Let_def dest!: fail_connect_error dest: negotiate_connection_state
        split: if_splits prod.splits option.splits dial.splits)
qed

text \<open>
  C29. A handler connects once. From the state of a connection that was made, or that failed, no further
  attempt to connect succeeds, whatever the network does: it raises and leaves the state of errors. So
  the strategy of recovery that connects again never works.
\<close>

theorem connects_once:
  assumes "handler_connect enc now d i (c, nw) = (e, c', nw')" and "cn_state c \<noteq> CONNECTED"
  shows "(e = None \<longleftrightarrow> cn_state c' \<in> {TN3270_MODE, ASCII_MODE}) \<and> (e \<noteq> None \<longleftrightarrow> cn_state c' = ERROR)
       \<and> (\<exists>x. fst (handler_connect enc2 now2 d2 i2 (c', nw')) = Some x)
       \<and> cn_state (fst (snd (handler_connect enc2 now2 d2 i2 (c', nw')))) = ERROR
       \<and> \<not> fst (recovery_reconnect enc2 now2 d2 i2 (c', nw'))"
proof -
  note s = handler_connect_state [OF assms(1)]
  have st: "(e = None \<longleftrightarrow> cn_state c' \<in> {TN3270_MODE, ASCII_MODE})" "(e \<noteq> None \<longleftrightarrow> cn_state c' = ERROR)"
    using s assms(2) by (cases e; auto)+
  have never: "\<exists>x. fst (handler_connect enc2 now2 d2 i2 (b, m)) = Some x" "cn_state (fst (snd (handler_connect enc2 now2 d2 i2 (b, m)))) = ERROR"
    if "cn_state b = cn_state c'" for b m
  proof -
    obtain f b' m' where r: "handler_connect enc2 now2 d2 i2 (b, m) = (f, b', m')" by (metis prod.exhaust)
    have "f \<noteq> None"
    proof
      assume "f = None"
      from handler_connect_state(1) [OF r this] show False using st that by (cases e) auto
    qed
    then obtain y where "f = Some y" "cn_state b' = ERROR" using handler_connect_state(2) [OF r] by blast
    with r show "\<exists>x. fst (handler_connect enc2 now2 d2 i2 (b, m)) = Some x" "cn_state (fst (snd (handler_connect enc2 now2 d2 i2 (b, m)))) = ERROR"
      by auto
  qed
  have "cn_state (drop_pending ((set_connected False c')\<lparr>cn_transport := None\<rparr>)) = cn_state c'"
    by (simp add: drop_pending_def on_receiver_def)
  from never(1) [OF this, of "case cn_transport c' of Some l \<Rightarrow> close_link l nw' | None \<Rightarrow> nw'"]
  have "\<not> fst (recovery_reconnect enc2 now2 d2 i2 (c', nw'))"
    by (cases "cn_transport c'") (auto simp: recovery_reconnect_def Let_def case_prod_unfold)
  with st never [OF refl] show ?thesis by blast
qed

lemma closing_state: "cn_state (start_closing now c) = CLOSING" "cn_rx (start_closing now c) = cn_rx c"
  "cn_transport (start_closing now c) = cn_transport c" "cn_link (start_closing now c) = cn_link c"
proof -
  obtain e c1 where s: "change now CLOSING ''closing connection'' c = (e, c1)" by fastforce
  from change_facts [OF s] s
  show "cn_state (start_closing now c) = CLOSING" "cn_rx (start_closing now c) = cn_rx c"
    "cn_transport (start_closing now c) = cn_transport c" "cn_link (start_closing now c) = cn_link c"
    by (auto simp: start_closing_def split: option.splits)
qed

lemma closed_state:
  assumes "cn_state c = CLOSING"
  shows "cn_state (snd (change now DISCONNECTED reason c)) = DISCONNECTED"
    "cn_connected (snd (change now DISCONNECTED reason c)) = cn_connected c"
    "cn_transport (snd (change now DISCONNECTED reason c)) = cn_transport c"
    "cn_tasks (snd (change now DISCONNECTED reason c)) = cn_tasks c"
proof -
  have "validate_state_consistency DISCONNECTED (machine_of c)"
    by (simp add: validate_state_consistency_def validate_negotiator_state_def)
  with assms obtain c' where "change now DISCONNECTED reason c = (None, c')" "cn_state c' = DISCONNECTED"
    "cn_transport c' = cn_transport c" "cn_tasks c' = cn_tasks c" "cn_connected c' = cn_connected c"
    by (auto intro: change_done [of DISCONNECTED c now reason])
  then show "cn_state (snd (change now DISCONNECTED reason c)) = DISCONNECTED"
    "cn_connected (snd (change now DISCONNECTED reason c)) = cn_connected c"
    "cn_transport (snd (change now DISCONNECTED reason c)) = cn_transport c"
    "cn_tasks (snd (change now DISCONNECTED reason c)) = cn_tasks c" by simp_all
qed

lemma closing_links:
  assumes "handler_close now raises (c, nw) = (x, c', nw')"
  shows "nt_open nw' = nt_open nw - set_option (case cn_transport c of Some l \<Rightarrow> l
           | None \<Rightarrow> if has_writer (rx_telnet (cn_rx c)) then cn_link c else None)"
  using assms closing_state [of now c]
  by (auto simp: handler_close_def Let_def close_link_def split: option.splits if_splits)

text \<open>
  Closing works from every state, those from which it is not an allowed transition included: it ends
  disconnected, without tasks or transport, and closes the link of the transport, or without one the
  link of the handler. Only a writer without a transport can make it raise; the handler is then in the state of errors.
\<close>

lemma closing_always_ends:
  assumes "handler_close now raises (c, nw) = (x, c', nw')"
  shows "(if x then raises \<and> cn_transport c = None \<and> cn_state c' = ERROR
          else cn_state c' = DISCONNECTED \<and> \<not> cn_connected c' \<and> cn_tasks c' = 0 \<and> cn_transport c' = None)
       \<and> nt_open nw' = nt_open nw - set_option (case cn_transport c of Some l \<Rightarrow> l
           | None \<Rightarrow> if has_writer (rx_telnet (cn_rx c)) then cn_link c else None)"
proof -
  note s = closing_state [of now c]
  note d = closed_state [of "set_connected False (b\<lparr>cn_tasks := 0\<rparr>)" for b, simplified]
  have "if x then raises \<and> cn_transport c = None \<and> cn_state c' = ERROR
        else cn_state c' = DISCONNECTED \<and> \<not> cn_connected c' \<and> cn_tasks c' = 0 \<and> cn_transport c' = None"
  proof (cases "cn_transport c")
    case None
    then show ?thesis using assms s d change_error
      by (simp add: handler_close_def Let_def on_receiver_def split: if_splits) auto
  next
    case (Some l)
    then show ?thesis using assms s d by (simp add: handler_close_def Let_def) auto
  qed
  with closing_links [OF assms] show ?thesis by blast
qed

lemma a_handler: "\<exists>c. TN3270Handler_init now host port printer [] fallback terminal link scr = Some c"
  by (simp add: TN3270Handler_init_def Negotiator_init_def Let_def split: prod.split)

definition demo_handler :: connection where
  "demo_handler = the (TN3270Handler_init 0 (Some ''h'') 23 False [] True ''IBM-3278-2'' 0 demo_screen)"

lemma demo_handler_init:
  "TN3270Handler_init 0 (Some ''h'') 23 False [] True ''IBM-3278-2'' 0 demo_screen = Some demo_handler"
  using a_handler [of 0 "Some ''h''" 23 False True "''IBM-3278-2''" 0 demo_screen] by (auto simp: demo_handler_def)

definition hangs_up :: phase_input where
  "hangs_up = \<lparr>ph_first = None, ph_waits = (\<lambda>_ _. ([Got []], False)), ph_late = None, ph_grace = []\<rparr>"

definition one_link :: network_links where
  "one_link = \<lparr>nt_open = {0}, nt_next = 1\<rparr>"

section \<open>Hanging up\<close>

lemma reader_run_over: "nn_task w \<noteq> Reading \<Longrightarrow> reader_run enc now as w = w"
  by (cases as) (simp_all add: reader_check_def)

lemma init_facts:
  assumes "TN3270Handler_init now host port printer [] fallback terminal link s = Some c"
  shows "cn_state c = DISCONNECTED" "cn_transport c = None"
    and "ng_force_mode (rx_neg (cn_rx c)) = None" "ng_drains (rx_neg (cn_rx c))" "ng_failures (rx_neg (cn_rx c)) = 0"
    and "\<not> ng_forced_failure (rx_neg (cn_rx c))" "\<not> ng_device_event (rx_neg (cn_rx c))" "ng_strict (rx_neg (cn_rx c))"
    and "\<not> ng_complete (rx_neg (cn_rx c))" "\<not> ng_ascii (rx_neg (cn_rx c))" "ng_device_type (rx_neg (cn_rx c)) = None"
    and "ng_handler (rx_neg (cn_rx c))
      = Some \<lparr>hv_negotiated = False, hv_ascii = False, hv_printer_buffer = printer, hv_trace = []\<rparr>"
    and "h_negotiator (cn_machine c)" "\<not> ng_forced_completion (rx_neg (cn_rx c))"
    and "has_writer (rx_telnet (cn_rx c))" "rx_reader (cn_rx c)" "cn_link c = Some link" "rx_screen (cn_rx c) = s"
  using assms
  by (auto simp: TN3270Handler_init_def Negotiator_init_def handler_init_def force_modes_def DataStreamParser_init_def Let_def split: prod.splits)

text \<open>What the end of the stream makes of the negotiator.\<close>

lemma signal_end_facts:
  "ng_device_event (signal_end n)" "ng_functions_event (signal_end n)" "ng_complete (signal_end n)"
  "ng_forced_failure (signal_end n) = ng_forced_failure n" "ng_writer (signal_end n) = ng_writer n"
  "ng_ascii (signal_end n) = ng_ascii n" "ng_strict (signal_end n) = ng_strict n"
  "ng_force_mode (signal_end n) = ng_force_mode n" "ng_device_type (signal_end n) = ng_device_type n"
  "ng_forced_completion (signal_end n) = ng_forced_completion n"
  "ng_handler (signal_end n) = map_option (\<lambda>v. v\<lparr>hv_negotiated := True\<rparr>) (ng_handler n)"
  by (simp_all add: option.map_comp comp_def signal_end_def signal_negotiation_complete_def signal_device_event_def
      signal_functions_event_def maybe_finalize_negotiation_def set_negotiated_flag_def Let_def)

lemma conclude_facts:
  assumes "\<not> ng_ascii n" and "\<not> ng_forced_completion n \<or> ng_supports n"
  obtains n' where "conclude n = (None, n')" "ng_negotiated n'" "\<not> ng_ascii n'"
    "ng_device_type n' = ng_device_type n" "ng_force_mode n' = ng_force_mode n"
    "ng_handler n' = map_option (\<lambda>v. v\<lparr>hv_negotiated := True\<rparr>) (ng_handler n)"
  using assms
  by (atomize_elim, cases "ng_handler n")
    (auto simp: conclude_def step_with_def after_events_def decide_mode_def handle_sna_response_def printer_response_def
      signal_negotiation_complete_def set_negotiated_flag_def handler_set_negotiated_def set_negotiated_tn3270e_def Let_def)

lemma on_rx_same: "on_rx (on_neg (\<lambda>n. n)) w = w"
  by (simp add: on_rx_def on_neg_def set_rx_neg_def)

lemma negotiate_start:
  assumes "ng_writer n" and "ng_drains n" and "ng_failures n = 0"
  shows "negotiate n = (None, update_connection_state True n)"
proof -
  have v: "validate_connection_state n" using assms by (simp add: validate_connection_state_def)
  have p: "perform_negotiation (count_recovery 0 n) = (None, n)"
    using assms by (simp add: perform_negotiation_def safe_drain_writer_def count_recovery_def)
  show ?thesis
    using v retry_loop_once(1) [of "\<lambda>_. perform_negotiation", OF p refl]
    by (simp add: negotiate_def retry_with_backoff_def)
qed

lemma hangup_run:
  fixes r
  defines "n \<equiv> rx_neg r"
  assumes "ng_force_mode n = None" and "ng_writer n" and "ng_failures n = 0" and "\<not> ng_forced_failure n"
    and "\<not> ng_device_event n" and "ng_strict n" and "\<not> ng_complete n" and "\<not> ng_ascii n"
    and "\<not> ng_forced_completion n" and "fst (input 0 0) = Got [] # as"
  obtains w where "negotiate_run (\<lambda>j. reader_run enc now (fst j)) input (\<lparr>nn_rx = r, nn_task = Reading, nn_rounds = 0\<rparr>) = (None, w)"
    "nn_task w = Reader_done" "ng_negotiated (nn_neg w)" "\<not> ng_ascii (nn_neg w)"
    "ng_device_type (nn_neg w) = ng_device_type n" "ng_force_mode (nn_neg w) = None"
    "ng_handler (nn_neg w) = map_option (\<lambda>v. v\<lparr>hv_negotiated := True\<rparr>) (ng_handler n)"
    "rx_reader (nn_rx w) = rx_reader r" "has_writer (rx_telnet (nn_rx w)) = has_writer (rx_telnet r)"
proof -
  let ?w = "\<lparr>nn_rx = r, nn_task = Reading, nn_rounds = 0\<rparr>"
  let ?w1 = "(on_rx (on_neg signal_end) (?w\<lparr>nn_rounds := 1\<rparr>))\<lparr>nn_task := Reader_done\<rparr>"
  let ?arrive = "\<lambda>j. reader_run enc now (fst j)"
  note n = assms(2-10) [unfolded n_def]
  have start: "on_rx (on_neg (count_recovery 0)) ?w = ?w"
    using on_rx_same [of ?w] by (simp add: count_recovery_def [abs_def])
  have n1: "nn_neg ?w1 = signal_end (rx_neg r)" by (simp add: on_rx_def on_neg_def set_rx_neg_def)
  have hung: "reader_run enc now (Got [] # as) ?w = ?w1"
    using n by (simp add: reader_check_def max_reader_rounds_def read_once_def reader_run_over)
  have "await_run ?arrive (input 0) ?w = (Event_set, ?w1)"
    using n hung assms(11) n1 by (simp add: await_run_def wait_run_def and_then_def signal_end_facts)
  moreover obtain n' where n': "conclude (signal_end (rx_neg r)) = (None, n')" "ng_negotiated n'" "\<not> ng_ascii n'"
    "ng_device_type n' = ng_device_type (rx_neg r)" "ng_force_mode n' = None"
    "ng_handler n' = map_option (\<lambda>v. v\<lparr>hv_negotiated := True\<rparr>) (ng_handler (rx_neg r))"
    using conclude_facts [of "signal_end (rx_neg r)"] n
    by (auto simp: signal_end_facts option.map_comp o_def)
  ultimately have p: "perform_run ?arrive (input 0) (on_rx (on_neg (count_recovery 0)) ?w) = (None, on_rx (set_rx_neg n') ?w1)"
    using n n1 start by (simp add: perform_run_def lifted_def signal_end_facts)
  have v: "validate_connection_state (rx_neg r)" using n by (simp add: validate_connection_state_def)
  let ?w2 = "on_rx (on_neg (update_connection_state True)) (on_rx (set_rx_neg n') ?w1)"
  have "negotiate_run ?arrive input ?w = (None, ?w2)"
    using n v retry_run_once(1) [of "\<lambda>a. perform_run ?arrive (input a)", OF p refl]
    by (simp add: negotiate_run_def)
  moreover have "nn_neg ?w2 = update_connection_state True n'" by simp
  ultimately show ?thesis
    using n' by (intro that [of ?w2])
      (simp_all add: update_connection_state_def n_def, simp_all add: on_rx_def on_neg_def set_rx_neg_def)
qed

lemma connect_starts:
  assumes "TN3270Handler_init now host port printer [] fallback terminal link s = Some c"
  obtains c1 c3 where "change now CONNECTING ''starting connection'' c = (None, c1)" and "cn_transport c1 = None"
    and "change now hstate.NEGOTIATING ''connection established, starting negotiation'' (assign_streams k (c1\<lparr>cn_transport := Some None\<rparr>)) = (None, c3)"
    and "cn_state c3 = hstate.NEGOTIATING" and "cn_connected c3" and "h_negotiator (cn_machine c3)"
    and "rx_neg (cn_rx c3) = (rx_neg (cn_rx c))\<lparr>ng_writer := True\<rparr>"
proof -
  note f = init_facts [OF assms]
  have "validate_state_consistency CONNECTING (machine_of c)"
    using f by (simp add: validate_state_consistency_def validate_negotiator_state_def)
  with f(1) obtain c1 where c1: "change now CONNECTING ''starting connection'' c = (None, c1)" "cn_state c1 = CONNECTING"
    "cn_rx c1 = cn_rx c" "cn_transport c1 = None" "h_negotiator (cn_machine c1)"
    using f(2,13) by (auto intro: change_done [of CONNECTING c now "''starting connection''"])
  let ?c2 = "assign_streams k (c1\<lparr>cn_transport := Some None\<rparr>)"
  have a: "cn_state ?c2 = CONNECTING" "cn_connected ?c2" "h_negotiator (cn_machine ?c2)"
    "rx_neg (cn_rx ?c2) = (rx_neg (cn_rx c))\<lparr>ng_writer := True\<rparr>" "rx_reader (cn_rx ?c2)" "has_writer (rx_telnet (cn_rx ?c2))"
    by (simp_all add: assign_streams_def set_connected_def on_neg_def set_rx_neg_def c1)
  then have "validate_state_consistency hstate.NEGOTIATING (machine_of ?c2)"
    by (simp add: validate_state_consistency_def validate_negotiator_state_def machine_of_def)
  with a obtain c3 where "change now hstate.NEGOTIATING ''connection established, starting negotiation'' ?c2 = (None, c3)"
    "cn_state c3 = hstate.NEGOTIATING" "cn_rx c3 = cn_rx ?c2" "cn_connected c3" "h_negotiator (cn_machine c3)"
    by (auto intro: change_done [of hstate.NEGOTIATING ?c2 now "''connection established, starting negotiation''"])
  with that [of c1 c3] c1 a(4) show thesis by simp
qed

text \<open>
  C27. A host that hangs up while the client waits for its first message counts as one that negotiated
  TN3270E: the end of the stream signals all events of the negotiation, connecting succeeds, and the
  handler is connected in 3270 mode with the flag set, although no device type was ever agreed on.
\<close>

theorem hangup_counts_as_negotiated:
  assumes "TN3270Handler_init now host port printer [] fallback terminal link s = Some c"
    and "ph_first i = None" and "fst (ph_waits i 0 0) = Got [] # as"
  shows "\<exists>c' nw'. handler_connect enc now Dialled i (c, nw) = (None, c', nw')
       \<and> cn_state c' = TN3270_MODE \<and> cn_connected c' \<and> rx_negotiated (cn_rx c') \<and> ng_negotiated (rx_neg (cn_rx c'))
       \<and> ng_device_type (rx_neg (cn_rx c')) = None"
proof -
  note f = init_facts [OF assms(1)]
  obtain c1 c3 where c1: "change now CONNECTING ''starting connection'' c = (None, c1)" "cn_transport c1 = None"
    and c3: "change now hstate.NEGOTIATING ''connection established, starting negotiation'' (assign_streams (nt_next nw) (c1\<lparr>cn_transport := Some None\<rparr>)) = (None, c3)"
      "cn_state c3 = hstate.NEGOTIATING" "cn_connected c3" "h_negotiator (cn_machine c3)"
      "rx_neg (cn_rx c3) = (rx_neg (cn_rx c))\<lparr>ng_writer := True\<rparr>"
    using connect_starts [OF assms(1)] by blast
  define n where "n = update_connection_state True ((rx_neg (cn_rx c))\<lparr>ng_writer := True\<rparr>)"
  let ?r = "set_rx_neg n (cn_rx c3)"
  have first: "first_phase i (cn_rx c3) = (None, ?r)"
    using negotiate_start [of "rx_neg (cn_rx c3)"] f c3(5) assms(2) by (simp add: first_phase_def n_def)
  have n: "rx_neg ?r = n" by (simp add: set_rx_neg_def)
  have "ng_force_mode n = None" "ng_writer n" "ng_failures n = 0" "\<not> ng_forced_failure n"
    "\<not> ng_device_event n" "ng_strict n" "\<not> ng_complete n" "\<not> ng_ascii n" "\<not> ng_forced_completion n"
    "ng_device_type n = None" "ng_handler n = ng_handler (rx_neg (cn_rx c))"
    using f by (simp_all add: n_def update_connection_state_def)
  note n' = this
  obtain w where w: "negotiate_run (\<lambda>j. reader_run enc now (fst j)) (ph_waits i) (\<lparr>nn_rx = ?r, nn_task = Reading, nn_rounds = 0\<rparr>) = (None, w)"
    "nn_task w = Reader_done" "ng_negotiated (nn_neg w)" "\<not> ng_ascii (nn_neg w)" "ng_device_type (nn_neg w) = None"
    "ng_force_mode (nn_neg w) = None" "ng_handler (nn_neg w) = map_option (\<lambda>v. v\<lparr>hv_negotiated := True\<rparr>) (ng_handler n)"
    using hangup_run [of ?r "ph_waits i" as enc now, unfolded n, OF n'(1-9) assms(3)] n'(10) by metis
  define r1 where "r1 = on_neg (\<lambda>n. set_negotiated_tn3270e (negotiated_flag n) n) (nn_rx w)"
  have flag: "negotiated_flag (nn_neg w)" using w(3) by (simp add: negotiated_flag_def)
  have r1: "ng_negotiated (rx_neg r1)" "\<not> ng_ascii (rx_neg r1)" "ng_device_type (rx_neg r1) = None"
    "ng_handler (rx_neg r1) = map_option (\<lambda>v. v\<lparr>hv_negotiated := True\<rparr>) (ng_handler n)"
    using w flag by (simp_all add: r1_def on_neg_def set_rx_neg_def set_negotiated_tn3270e_def set_negotiated_flag_def
        Let_def option.map_comp comp_def)
  have run: "handler_negotiate enc now i ?r = (None, r1)"
    using w r1(2) by (simp add: handler_negotiate_def last_reading_def r1_def Let_def split: option.split)
  have v: "ng_handler (rx_neg r1) = Some \<lparr>hv_negotiated = True, hv_ascii = False, hv_printer_buffer = printer, hv_trace = []\<rparr>"
    using r1(4) n'(11) f(12) by simp
  then have "validate_state_consistency TN3270_MODE (machine_of (c3\<lparr>cn_rx := r1\<rparr>))"
    using c3(4) by (simp add: validate_state_consistency_def validate_negotiator_state_def machine_of_def)
  then obtain c4 where c4: "change now TN3270_MODE ''negotiation completed in TN3270 mode'' (c3\<lparr>cn_rx := r1\<rparr>) = (None, c4)"
    "cn_state c4 = TN3270_MODE" "cn_rx c4 = r1" "cn_connected c4"
    using c3(2,3)
    by (auto intro: change_done [of TN3270_MODE "c3\<lparr>cn_rx := r1\<rparr>" now "''negotiation completed in TN3270 mode''"])
  have "negotiate_connection enc now i (assign_streams (nt_next nw) (c1\<lparr>cn_transport := Some None\<rparr>)) = (None, c4)"
    using first run c4(1) r1(2) by (simp add: negotiate_connection_def c3(1) enter_final_state_def)
  then have "handler_connect enc now Dialled i (c, nw) = (None, c4, snd (open_link nw))"
    using f(1) c1(2) by (simp add: handler_connect_def c1(1) open_link_def)
  with c4 r1(1-3) v show ?thesis by (simp add: rx_negotiated_def)
qed

theorem connects_once_witness:
  "\<exists>c'. handler_connect (\<lambda>_. None) 0 Dial_refused hangs_up (demo_handler, one_link) = (Some Ce_refused, c', one_link)
     \<and> cn_state (fst (snd (handler_connect (\<lambda>_. None) 0 Dialled hangs_up (c', one_link)))) = ERROR"
proof -
  have d: "cn_state demo_handler = DISCONNECTED" "h_negotiator (cn_machine demo_handler)" "cn_transport demo_handler = None"
    using init_facts [OF demo_handler_init] by simp_all
  have "validate_state_consistency CONNECTING (machine_of demo_handler)"
    using d by (simp add: validate_state_consistency_def validate_negotiator_state_def)
  with d obtain c1 where "change 0 CONNECTING ''starting connection'' demo_handler = (None, c1)" "cn_transport c1 = None"
    by (auto intro: change_done [of CONNECTING demo_handler 0 "''starting connection''"])
  then obtain c' where c: "handler_connect (\<lambda>_. None) 0 Dial_refused hangs_up (demo_handler, one_link) = (Some Ce_refused, c', one_link)"
    using d by (simp add: handler_connect_def)
  from connects_once [OF this, of "\<lambda>_. None" 0 Dialled hangs_up] d c show ?thesis by simp
qed

theorem hangup_counts_as_negotiated_witness:
  "\<exists>c' nw'. handler_connect (\<lambda>_. None) 0 Dialled hangs_up (demo_handler, one_link) = (None, c', nw')
     \<and> cn_state c' = TN3270_MODE \<and> rx_negotiated (cn_rx c')"
  using hangup_counts_as_negotiated [OF demo_handler_init, of hangs_up "[]" "\<lambda>_. None" one_link]
  by (auto simp: hangs_up_def)

end
