(* ===== verification/SessionConnect.thy ===== *)
theory SessionConnect
  imports HandlerConnectProps ScreenText
begin

text \<open>
  Connecting and closing in \<open>session.py\<close>, over the handler of \<open>HandlerConnect\<close> and the receiving of \<open>Receive\<close>:
  the constructor's checks, the fallback when the negotiation fails, the reads before and after the session is handed
  out, reconnecting. Transports that tests inject are left out. The times of waits are integers of any unit.
\<close>

section \<open>The session\<close>

record async_session =
  as_host :: "string option"
  as_port :: int
  as_force :: string
  as_fallback :: bool
  as_terminal :: string
  as_printer :: bool
  as_codepage :: string
  as_screen :: screen
  as_handler :: "connection option"
  as_open :: bool

definition FORCE_MODES :: "string list" where
  "FORCE_MODES = [''tn3270'', ''tn3270e'', ''nvt'', ''ascii'']"

text \<open>An empty mode is no mode; letters of either case are accepted.\<close>

definition validate_force_mode :: "string \<Rightarrow> bool" where
  "validate_force_mode m \<longleftrightarrow> m = [] \<or> lower m \<in> set FORCE_MODES"

text \<open>\<open>None\<close> is a \<open>ValueError\<close>.\<close>

definition AsyncSession_init ::
    "string option \<Rightarrow> int \<Rightarrow> string \<Rightarrow> bool \<Rightarrow> string \<Rightarrow> bool \<Rightarrow> string \<Rightarrow> async_session option" where
  "AsyncSession_init host port force fallback terminal printer page =
     (if \<not> is_valid_terminal_model terminal \<or> \<not> validate_force_mode force then None
      else case get_screen_size terminal of
             (r, c) \<Rightarrow>
               (case ScreenBuffer_init r c 0x40 page of
                  Inl e \<Rightarrow> None
                | Inr s \<Rightarrow> Some \<lparr>as_host = host, as_port = port, as_force = force, as_fallback = fallback,
                    as_terminal = terminal, as_printer = printer, as_codepage = page, as_screen = s,
                    as_handler = None, as_open = False\<rparr>))"

definition session_screen :: "async_session \<Rightarrow> screen" where
  "session_screen s = (case as_handler s of Some c \<Rightarrow> rx_screen (cn_rx c) | None \<Rightarrow> as_screen s)"

definition session_connected :: "async_session \<Rightarrow> bool" where
  "session_connected s \<longleftrightarrow> as_open s \<or> (case as_handler s of Some c \<Rightarrow> cn_connected c | None \<Rightarrow> False)"

definition session_tn3270_mode :: "bool option \<Rightarrow> async_session \<Rightarrow> bool" where
  "session_tn3270_mode pending s =
     (case pending of
        Some b \<Rightarrow> b
      | None \<Rightarrow> (case as_handler s of Some c \<Rightarrow> rx_negotiated (cn_rx c) | None \<Rightarrow> False))"

section \<open>Reads\<close>

text \<open>The wait ends early once something shows. What a read leaves of its arrivals is there for the next one.\<close>

definition shows_text :: "unicode \<Rightarrow> bool" where
  "shows_text u \<longleftrightarrow> (\<exists>ch \<in> set u. ch \<noteq> 32 \<and> ch \<noteq> 10)"

fun warm_up ::
    "codec_world \<Rightarrow> (byte \<Rightarrow> bytes option) \<Rightarrow> int \<Rightarrow> nat \<Rightarrow> arrival list \<Rightarrow> arrival list list \<Rightarrow> receiver \<Rightarrow> receiver" where
  "warm_up w enc now (Suc k) left (as # ws) r =
     (case receive_data enc now (left @ as) r of
        (res, r1, left1) \<Rightarrow>
          (case to_text w (rx_screen r1) of
             Inl e \<Rightarrow> r1
           | Inr u \<Rightarrow> if shows_text u then r1 else warm_up w enc now k left1 ws r1))"
| "warm_up w enc now k left ws r = r"

definition screen_filled :: "receiver \<Rightarrow> bool" where
  "screen_filled r \<longleftrightarrow>
     (\<exists>b \<in> set (buffer (rx_screen r)). b \<noteq> 0 \<and> b \<noteq> (if ng_ascii (rx_neg r) then 0x20 else 0x40))"

fun initial_reads ::
    "(byte \<Rightarrow> bytes option) \<Rightarrow> int \<Rightarrow> arrival list \<Rightarrow> arrival list list \<Rightarrow> receiver \<Rightarrow> receiver" where
  "initial_reads enc now left [] r = r"
| "initial_reads enc now left (as # ws) r =
     (case receive_data enc now (left @ as) r of
        (Inl Rx_timeout, r1, left1) \<Rightarrow> (if screen_filled r1 then r1 else initial_reads enc now left1 ws r1)
      | (Inl e, r1, left1) \<Rightarrow> r1
      | (Inr bs, r1, left1) \<Rightarrow> (if screen_filled r1 then r1 else initial_reads enc now left1 ws r1))"

text \<open>The background reader: what it reads goes to the screen only. It ends with any error but a timeout.\<close>

fun background_reads ::
    "(byte \<Rightarrow> bytes option) \<Rightarrow> int \<Rightarrow> nat \<Rightarrow> arrival list \<Rightarrow> arrival list list \<Rightarrow> receiver \<Rightarrow> receiver" where
  "background_reads enc now (Suc k) left (as # ws) r =
     (case receive_data enc now (left @ as) r of
        (Inl e, r1, left1) \<Rightarrow> (if e = Rx_timeout then background_reads enc now k left1 ws r1 else r1)
      | (Inr bs, r1, left1) \<Rightarrow> background_reads enc now k left1 ws r1)"
| "background_reads enc now k left ws r = r"

section \<open>Connecting\<close>

text \<open>What the network does: the first connection, the second one, which the handler makes, and the data.\<close>

record dialing =
  dl_first :: bool
  dl_second :: dial
  dl_phase :: phase_input
  dl_warm :: "arrival list list"
  dl_initial :: "arrival list list"
  dl_later :: "arrival list list"

datatype open_error = Oe_value | Oe_socket | Oe_handler connect_error

definition use_files :: "receiver \<Rightarrow> receiver" where
  "use_files r = r\<lparr>rx_parser := (rx_parser r)\<lparr>has_ind_file := True\<rparr>\<rparr>"

definition hand_out ::
    "(byte \<Rightarrow> bytes option) \<Rightarrow> int \<Rightarrow> dialing \<Rightarrow> connection \<Rightarrow> connection" where
  "hand_out enc now d c =
     (on_receiver (\<lambda>r. background_reads enc now 300 [] (dl_later d) (initial_reads enc now [] (dl_initial d) (use_files r))) c)
       \<lparr>cn_tasks := cn_tasks c + 1\<rparr>"

definition fall_back ::
    "codec_world \<Rightarrow> (byte \<Rightarrow> bytes option) \<Rightarrow> int \<Rightarrow> dialing \<Rightarrow> connection \<Rightarrow> connection" where
  "fall_back w enc now d c = on_receiver (warm_up w enc now 20 [] (dl_warm d)) (handler_set_ascii_mode c)"

definition open_session ::
    "codec_world \<Rightarrow> (byte \<Rightarrow> bytes option) \<Rightarrow> int \<Rightarrow> dialing \<Rightarrow> async_session \<times> network_links
       \<Rightarrow> open_error option \<times> async_session \<times> network_links" where
  "open_session w enc now d = (\<lambda>(s, nw).
     if as_host s = None then (Some Oe_value, s, nw)
     else case get_screen_size (as_terminal s) of
            (r, k) \<Rightarrow>
              (case ScreenBuffer_init r k 0x40 ''cp037'' of
                 Inl e \<Rightarrow> (Some Oe_value, s, nw)
               | Inr scr \<Rightarrow>
                   (let s1 = s\<lparr>as_screen := scr\<rparr>
                    in if \<not> dl_first d then (Some Oe_socket, s1, nw)
                       else case open_link nw of
                              (l, nw1) \<Rightarrow>
                                (case TN3270Handler_init now (as_host s) (as_port s) (as_printer s) (as_force s)
                                        (as_fallback s) (as_terminal s) l scr of
                                   None \<Rightarrow> (Some Oe_value, s1, nw1)
                                 | Some c \<Rightarrow>
                                     (case handler_connect enc now (dl_second d) (dl_phase d) (c, nw1) of
                                        (None, c1, nw2) \<Rightarrow>
                                          (None, s1\<lparr>as_handler := Some (hand_out enc now d c1), as_open := True\<rparr>, nw2)
                                      | (Some e, c1, nw2) \<Rightarrow>
                                          (if as_fallback s
                                           then (None, s1\<lparr>as_handler := Some (hand_out enc now d (fall_back w enc now d c1)),
                                                  as_open := True\<rparr>, nw2)
                                           else (Some (Oe_handler e), s1\<lparr>as_handler := Some c1\<rparr>, nw2)))))))"

definition close_session ::
    "int \<Rightarrow> bool \<Rightarrow> async_session \<times> network_links \<Rightarrow> async_session \<times> network_links" where
  "close_session now raises = (\<lambda>(s, nw).
     case as_handler s of
       None \<Rightarrow> (s\<lparr>as_open := False\<rparr>, nw)
     | Some c \<Rightarrow>
         (case handler_close now raises (c, nw) of
            (x, c1, nw1) \<Rightarrow> (s\<lparr>as_handler := None, as_open := False, as_screen := rx_screen (cn_rx c1)\<rparr>, nw1)))"

text \<open>
  \<open>reconnect\<close>: each attempt closes and connects; what each attempt meets is an element of the list, which has one
  for each attempt there can be. The waits between them are returned.
\<close>

fun reconnect_loop ::
    "codec_world \<Rightarrow> (byte \<Rightarrow> bytes option) \<Rightarrow> int \<Rightarrow> int \<Rightarrow> int \<Rightarrow> dialing list \<Rightarrow> async_session \<times> network_links
       \<Rightarrow> open_error option \<times> int list \<times> async_session \<times> network_links" where
  "reconnect_loop w enc now backoff most [] x = (None, [], x)"
| "reconnect_loop w enc now backoff most (d # ds) x =
     (case open_session w enc now d (close_session now False x) of
        (None, y) \<Rightarrow> (None, [], y)
      | (Some e, y) \<Rightarrow>
          (if ds = [] then (Some e, [], y)
           else case reconnect_loop w enc now (min (backoff * 2) most) most ds y of
                  (f, waits, z) \<Rightarrow> (f, backoff # waits, z)))"

definition reconnect ::
    "codec_world \<Rightarrow> (byte \<Rightarrow> bytes option) \<Rightarrow> int \<Rightarrow> int \<Rightarrow> int \<Rightarrow> int \<Rightarrow> (nat \<Rightarrow> dialing)
       \<Rightarrow> async_session \<times> network_links \<Rightarrow> open_error option \<times> int list \<times> async_session \<times> network_links" where
  "reconnect w enc now max_attempts backoff most dials =
     reconnect_loop w enc now backoff most (map dials [0 ..< nat max_attempts])"

section \<open>Links\<close>

lemma links_change: "change now st reason c = (e, c') \<Longrightarrow> cn_transport c' = cn_transport c \<and> cn_link c' = cn_link c"
  using change_facts(4,5) by blast

lemma links_fail: "fail_connect now e c = (res, c') \<Longrightarrow> cn_transport c' = cn_transport c"
  using links_change [of now ERROR _ c] by (auto simp: fail_connect_def split: if_splits) (metis prod.collapse)+

lemma links_negotiate:
  "negotiate_connection enc now i c = (e, c') \<Longrightarrow> cn_transport c' = cn_transport c"
  by (auto simp: negotiate_connection_def enter_final_state_def dest!: links_fail links_change
      split: prod.splits option.splits if_splits)

text \<open>What connecting does to the links, from a handler without a transport.\<close>

lemma links_connect:
  assumes "handler_connect enc now d i (c, nw) = (e, c', nw')" and "cn_transport c = None" and "cn_state c = DISCONNECTED"
    and "h_negotiator (cn_machine c)"
  shows "if d = Dialled then cn_transport c' = Some (Some (nt_next nw)) \<and> nw' = snd (open_link nw)
         else cn_transport c' = Some None \<and> nw' = nw \<and> e \<noteq> None"
proof -
  have "validate_state_consistency CONNECTING (machine_of c)"
    using assms(4) by (simp add: validate_state_consistency_def validate_negotiator_state_def machine_of_def)
  with assms(3) obtain c1 where c1: "change now CONNECTING ''starting connection'' c = (None, c1)" "cn_transport c1 = None"
    using assms(2) by (auto intro: change_done [of CONNECTING c now "''starting connection''"])
  have "cn_transport (assign_streams l b) = Some (Some l)" for l b
    by (simp add: assign_streams_def)
  show ?thesis
  proof (cases d)
    case Dialled
    obtain f c3 where n: "negotiate_connection enc now i (assign_streams (nt_next nw) (c1\<lparr>cn_transport := Some None\<rparr>)) = (f, c3)"
      by fastforce
    from links_negotiate [OF n] n Dialled assms(1,3) c1 show ?thesis
      by (simp add: handler_connect_def open_link_def assign_streams_def)
  next
    case Dial_slow
    obtain f c3 where n: "change now ERROR ''connection timeout'' (c1\<lparr>cn_transport := Some None\<rparr>) = (f, c3)" by fastforce
    from links_change [OF n] n Dial_slow assms(1,3) c1 show ?thesis by (auto simp: handler_connect_def)
  next
    case Dial_refused
    obtain f c3 where n: "change now ERROR ''connection error'' (c1\<lparr>cn_transport := Some None\<rparr>) = (f, c3)" by fastforce
    from links_change [OF n] n Dial_refused assms(1,3) c1 show ?thesis by (auto simp: handler_connect_def)
  qed
qed

section \<open>What connecting ignores and leaves\<close>

text \<open>
  The code page of a session is forgotten when it connects: with another one everything ends in the same
  way, with the same screen, which is made for the default page.
\<close>

lemma code_page_ignored:
  "open_session w enc now d (s\<lparr>as_codepage := page\<rparr>, nw)
     = (case open_session w enc now d (s, nw) of (e, s', nw') \<Rightarrow> (e, s'\<lparr>as_codepage := page\<rparr>, nw'))"
  by (simp add: open_session_def Let_def split: prod.split sum.split option.split)

text \<open>A session that comes out of connecting.\<close>

lemma opened:
  assumes "open_session w enc now d (s, nw) = (None, s', nw')" and "as_force s = []"
  obtains c e c1 where "TN3270Handler_init now (as_host s) (as_port s) (as_printer s) [] (as_fallback s)
      (as_terminal s) (nt_next nw) (as_screen s') = Some c"
    "handler_connect enc now (dl_second d) (dl_phase d) (c, snd (open_link nw)) = (e, c1, nw')"
    "as_handler s' = Some (hand_out enc now d (if e = None then c1 else fall_back w enc now d c1))" "as_open s'"
    "e = None \<or> as_fallback s"
proof -
  show ?thesis using assms that
    by (fastforce simp: open_session_def open_link_def Let_def split: prod.splits sum.splits option.splits if_splits)
qed

lemma kept_by_reads:
  "cn_transport (hand_out enc now d c) = cn_transport c" "cn_state (hand_out enc now d c) = cn_state c"
  "cn_transport (fall_back w enc now d c) = cn_transport c" "cn_state (fall_back w enc now d c) = cn_state c"
  by (simp_all add: hand_out_def fall_back_def on_receiver_def handler_set_ascii_mode_def)

lemma links_after_open:
  assumes "open_session w enc now d (s, nw) = (None, s', nw')" and "as_force s = []" and "dl_second d = Dialled"
  shows "nw' = snd (open_link (snd (open_link nw)))"
    and "\<exists>c. as_handler s' = Some c \<and> cn_transport c = Some (Some (nt_next nw + 1))"
proof -
  obtain c e c1 where h: "TN3270Handler_init now (as_host s) (as_port s) (as_printer s) [] (as_fallback s)
      (as_terminal s) (nt_next nw) (as_screen s') = Some c"
    "handler_connect enc now (dl_second d) (dl_phase d) (c, snd (open_link nw)) = (e, c1, nw')"
    "as_handler s' = Some (hand_out enc now d (if e = None then c1 else fall_back w enc now d c1))"
    using opened [OF assms(1,2)] by metis
  note f = init_facts [OF h(1)]
  have l: "cn_transport c1 = Some (Some (nt_next nw + 1))" "nw' = snd (open_link (snd (open_link nw)))"
    using links_connect [OF h(2) f(2,1,13)] assms(3) by (simp_all add: open_link_def)
  from l(2) show "nw' = snd (open_link (snd (open_link nw)))" .
  from l(1) h(3) show "\<exists>c. as_handler s' = Some c \<and> cn_transport c = Some (Some (nt_next nw + 1))"
    by (simp add: kept_by_reads)
qed

lemma links_after_close:
  assumes "close_session now raises (s, nw) = (s2, nw2)" and "as_handler s = Some c" and "cn_transport c = Some (Some l)"
  shows "nt_open nw2 = nt_open nw - {l} \<and> as_handler s2 = None"
proof -
  obtain x c1 where "handler_close now raises (c, nw) = (x, c1, nw2)" "as_handler s2 = None"
    using assms(1,2) by (auto simp: close_session_def split: prod.splits)
  with closing_links [of now raises c nw] assms(3) show ?thesis by fastforce
qed

text \<open>
  C28. A session without a forced mode is connected twice: connecting opens a link and then the handler opens another.
  When that succeeds, closing the session closes the second one only; the first stays open.
\<close>

theorem first_link_stays_open:
  assumes "open_session w enc now d (s, nw) = (None, s', nw')" and "as_force s = []" and "dl_second d = Dialled"
    and "close_session now2 raises (s', nw') = (s2, nw2)" and "nt_next nw \<notin> nt_open nw" and "nt_next nw + 1 \<notin> nt_open nw"
  shows "nt_open nw' = nt_open nw \<union> {nt_next nw, nt_next nw + 1} \<and> nt_open nw2 = nt_open nw \<union> {nt_next nw}
       \<and> as_handler s2 = None"
  using links_after_open [OF assms(1-3)] links_after_close [OF assms(4)] assms(5,6)
  by (fastforce simp: open_link_def)

text \<open>Falling back, connecting cannot fail any more.\<close>

lemma session_opens:
  assumes "as_host s \<noteq> None" and "as_fallback s" and "as_force s = []" and "dl_first d" and "get_screen_size (as_terminal s) = (r, k)"
    and "0 < r" and "0 < k"
  shows "\<exists>s' nw' c. open_session w enc now d (s, nw) = (None, s', nw') \<and> session_connected s' \<and> as_handler s' = Some c
       \<and> (dl_second d \<noteq> Dialled \<longrightarrow> cn_state c = ERROR)"
proof -
  obtain scr where scr: "ScreenBuffer_init r k 0x40 ''cp037'' = Inr scr"
    using assms(6,7) by (simp add: ScreenBuffer_init_def)
  obtain c where c: "TN3270Handler_init now (as_host s) (as_port s) (as_printer s) [] (as_fallback s)
      (as_terminal s) (nt_next nw) scr = Some c"
    using a_handler by blast
  obtain e c1 nw' where h: "handler_connect enc now (dl_second d) (dl_phase d) (c, snd (open_link nw)) = (e, c1, nw')"
    by (metis prod.exhaust)
  note f = init_facts [OF c]
  have "dl_second d \<noteq> Dialled \<Longrightarrow> e \<noteq> None" using links_connect [OF h f(2,1,13)] by simp
  with handler_connect_state(2) [OF h] have "dl_second d \<noteq> Dialled \<longrightarrow> e \<noteq> None \<and> cn_state c1 = ERROR" by simp
  then show ?thesis
    using assms scr c h
    by (cases e) (simp_all add: open_session_def open_link_def session_connected_def kept_by_reads)
qed

text \<open>
  With the fallback allowed, connecting a session does not fail once its first link is open, whatever the
  handler meets. When the handler fails, its second link refused for instance, the session counts as connected in
  ASCII mode while the handler is in the state of errors.
\<close>

lemma fallback_hides_errors:
  assumes "as_host s \<noteq> None" and "as_fallback s" and "as_force s = []" and "dl_first d" and "get_screen_size (as_terminal s) = (r, k)"
    and "0 < r" and "0 < k"
  shows "\<exists>s' nw' c. open_session w enc now d (s, nw) = (None, s', nw') \<and> session_connected s' \<and> as_handler s' = Some c
       \<and> (dl_second d \<noteq> Dialled \<longrightarrow> cn_state c = ERROR)"
  using session_opens [OF assms] .

text \<open>
  Modes that the constructor of a session accepts, like \<open>nvt\<close> or a mode in upper case, raise when it
  connects: the negotiator knows three modes in lower case. The link that was opened before stays open.
\<close>

lemma accepted_mode_raises:
  assumes "AsyncSession_init (Some host) port force fallback terminal printer page = Some s"
    and "force \<notin> {[], ''ascii'', ''tn3270'', ''tn3270e''}" and "dl_first d"
  shows "\<exists>s'. open_session w enc now d (s, nw) = (Some Oe_value, s', snd (open_link nw)) \<and> as_handler s' = None"
proof -
  obtain r k where rk: "get_screen_size terminal = (r, k)" by fastforce
  note i = assms(1) [unfolded AsyncSession_init_def rk prod.case]
  then have v: "\<not> (\<not> is_valid_terminal_model terminal \<or> \<not> validate_force_mode force)" by (simp only: split: if_splits) simp_all
  obtain scr0 where scr0: "ScreenBuffer_init r k 0x40 page = Inr scr0"
    using i unfolding if_not_P [OF v] by (cases "ScreenBuffer_init r k 0x40 page") simp_all
  have s: "as_host s = Some host" "as_force s = force" "as_terminal s = terminal" "as_handler s = None"
    using i unfolding if_not_P [OF v] scr0 by auto
  have "0 < r \<and> 0 < k" using scr0 by (simp add: ScreenBuffer_init_def not_le split: if_splits)
  then obtain scr where "ScreenBuffer_init r k 0x40 ''cp037'' = Inr scr" by (simp add: ScreenBuffer_init_def)
  moreover have "map_of force_modes force = None" using assms(2) by (simp add: force_modes_def)
  ultimately show ?thesis
    using s rk assms(2,3)
    by (simp add: open_session_def open_link_def TN3270Handler_init_def Negotiator_init_def Let_def split: prod.split)
qed

section \<open>Reconnecting\<close>

definition try_again ::
    "codec_world \<Rightarrow> (byte \<Rightarrow> bytes option) \<Rightarrow> int \<Rightarrow> dialing \<Rightarrow> async_session \<times> network_links
       \<Rightarrow> open_error option \<times> async_session \<times> network_links" where
  "try_again w enc now d x = open_session w enc now d (close_session now False x)"

fun after_tries ::
    "codec_world \<Rightarrow> (byte \<Rightarrow> bytes option) \<Rightarrow> int \<Rightarrow> dialing list \<Rightarrow> async_session \<times> network_links \<Rightarrow> async_session \<times> network_links" where
  "after_tries w enc now [] x = x"
| "after_tries w enc now (d # ds) x = after_tries w enc now ds (snd (try_again w enc now d x))"

fun backoffs :: "nat \<Rightarrow> int \<Rightarrow> int \<Rightarrow> int list" where
  "backoffs 0 b most = []"
| "backoffs (Suc n) b most = b # backoffs n (min (b * 2) most) most"

lemma reconnect_tries:
  assumes "reconnect_loop w enc now b most ds x = (e, waits, y)" and "ds \<noteq> []"
  shows "\<exists>n < length ds. waits = backoffs n b most \<and> (e, y) = try_again w enc now (ds ! n) (after_tries w enc now (take n ds) x)
       \<and> (\<forall>m < n. fst (try_again w enc now (ds ! m) (after_tries w enc now (take m ds) x)) \<noteq> None)
       \<and> (e = None \<or> Suc n = length ds)"
  using assms
proof (induction ds arbitrary: b x waits)
  case (Cons d ds)
  obtain f z where f: "try_again w enc now d x = (f, z)" by (cases "try_again w enc now d x")
  show ?case
  proof (cases "f = None \<or> ds = []")
    case True
    then show ?thesis using Cons.prems f
      by (intro exI [of _ 0]) (auto simp: try_again_def split: option.splits)
  next
    case False
    then obtain a where a: "f = Some a" "ds \<noteq> []" by auto
    obtain waits' where r: "reconnect_loop w enc now (min (b * 2) most) most ds z = (e, waits', y)" "waits = b # waits'"
      using Cons.prems f a by (auto simp: try_again_def split: prod.splits)
    from Cons.IH [OF r(1) a(2)] obtain n where n: "n < length ds" "waits' = backoffs n (min (b * 2) most) most"
      "(e, y) = try_again w enc now (ds ! n) (after_tries w enc now (take n ds) z)"
      "\<forall>m < n. fst (try_again w enc now (ds ! m) (after_tries w enc now (take m ds) z)) \<noteq> None"
      "e = None \<or> Suc n = length ds" by auto
    have "fst (try_again w enc now ((d # ds) ! m) (after_tries w enc now (take m (d # ds)) x)) \<noteq> None" if "m < Suc n" for m
      using that n(4) f a(1) by (cases m) auto
    then show ?thesis using n r(2) f by (intro exI [of _ "Suc n"]) auto
  qed
qed simp

text \<open>
  C31. Reconnecting makes at most the allowed number of attempts, each on what the one before left: it ends with
  the first that succeeds, or with the error of the last, after waits that double up to their limit. With no
  attempt allowed it returns like a success and nothing has been done.
\<close>

theorem reconnect_outcome:
  assumes "reconnect w enc now max_attempts b most dials x = (e, waits, y)"
  shows "if max_attempts \<le> 0 then e = None \<and> waits = [] \<and> y = x
         else \<exists>n < nat max_attempts. waits = backoffs n b most
           \<and> (e, y) = try_again w enc now (dials n) (after_tries w enc now (map dials [0 ..< n]) x)
           \<and> (\<forall>m < n. fst (try_again w enc now (dials m) (after_tries w enc now (map dials [0 ..< m]) x)) \<noteq> None)
           \<and> (e = None \<or> Suc n = nat max_attempts)"
proof (cases "max_attempts \<le> 0")
  case True
  then show ?thesis using assms by (simp add: reconnect_def)
next
  case False
  then have "map dials [0 ..< nat max_attempts] \<noteq> []" by simp
  from reconnect_tries [OF assms [unfolded reconnect_def] this] False show ?thesis
    by (auto simp: take_map)
qed


section \<open>Witnesses\<close>

definition demo_async :: async_session where
  "demo_async = \<lparr>as_host = Some ''h'', as_port = 23, as_force = [], as_fallback = True, as_terminal = ''IBM-3278-2'',
     as_printer = False, as_codepage = ''cp500'', as_screen = demo_screen, as_handler = None, as_open = False\<rparr>"

definition demo_dialing :: "dial \<Rightarrow> dialing" where
  "demo_dialing second = \<lparr>dl_first = True, dl_second = second, dl_phase = hangs_up, dl_warm = [], dl_initial = [], dl_later = []\<rparr>"

definition no_links :: network_links where
  "no_links = \<lparr>nt_open = {}, nt_next = 0\<rparr>"

lemma demo_size: "get_screen_size ''IBM-3278-2'' = (24, 80)"
  by code_simp

lemma demo_opens:
  "\<exists>s' nw' c. open_session bare_world (\<lambda>_. None) 0 (demo_dialing x) (demo_async, no_links) = (None, s', nw')
     \<and> session_connected s' \<and> as_handler s' = Some c \<and> (x \<noteq> Dialled \<longrightarrow> cn_state c = ERROR)"
  using session_opens [of demo_async "demo_dialing x" 24 80] demo_size by (simp add: demo_async_def demo_dialing_def)

theorem first_link_stays_open_witness:
  "\<exists>s' nw'. open_session bare_world (\<lambda>_. None) 0 (demo_dialing Dialled) (demo_async, no_links) = (None, s', nw')
     \<and> nt_open nw' = {0, 1} \<and> nt_open (snd (close_session 0 False (s', nw'))) = {0}"
proof -
  obtain s' nw' where o: "open_session bare_world (\<lambda>_. None) 0 (demo_dialing Dialled) (demo_async, no_links) = (None, s', nw')"
    using demo_opens by blast
  obtain s2 nw2 where c: "close_session 0 False (s', nw') = (s2, nw2)" by fastforce
  from first_link_stays_open [OF o _ _ c] o c show ?thesis
    by (simp add: demo_async_def demo_dialing_def no_links_def insert_commute)
qed

theorem reconnect_outcome_witness:
  "\<exists>e waits y. reconnect bare_world (\<lambda>_. None) 0 3 1 5 (\<lambda>_. demo_dialing Dial_refused) (demo_async, no_links) = (e, waits, y)
     \<and> (e = None \<or> waits = [1, 2])"
proof -
  obtain e waits y where r:
    "reconnect bare_world (\<lambda>_. None) 0 3 1 5 (\<lambda>_. demo_dialing Dial_refused) (demo_async, no_links) = (e, waits, y)"
    by (metis prod.exhaust)
  from reconnect_outcome [OF this] obtain n where "waits = backoffs n 1 5" "e = None \<or> Suc n = 3" by auto
  then have "e = None \<or> waits = [1, 2]" by (auto simp: eval_nat_numeral)
  with r show ?thesis by blast
qed

end
