(* ===== verification/SessionScripts.thy ===== *)
theory SessionScripts
  imports Client3270 SessionConnect
begin

text \<open>
  The rest of the commands of \<open>session.py\<close>: macros and scripts, SYSREQ, waiting for text, cookies, resources,
  the attributes of fields, and what the session tells about itself. A command may read what the host sends, so
  it takes the arrivals of its reads and returns those that are left.
\<close>

section \<open>Commands as actions\<close>

datatype script_error = Sc_session session_error | Sc_value | Sc_type | Sc_failed

type_synonym act = "arrival list list \<Rightarrow> session \<Rightarrow> script_error option \<times> session \<times> arrival list list"

definition of_command :: "command \<Rightarrow> act" where
  "of_command f ws s = (case f s of (e, s1) \<Rightarrow> (map_option Sc_session e, s1, ws))"

definition press :: "client \<Rightarrow> string \<Rightarrow> act" where
  "press cl name ws s = (case key cl name ws s of (e, s1, ws1) \<Rightarrow> (map_option Sc_session e, s1, ws1))"

definition refuse :: "script_error \<Rightarrow> act" where
  "refuse e ws s = (Some e, s, ws)"

section \<open>SYSREQ and breaks\<close>

definition sysreq_codes :: "(string \<times> byte) list" where
  "sysreq_codes =
     [(''ATTN'', 0xF1), (''BREAK'', 0xF3), (''CANCEL'', 0x6D), (''RESTART'', 0x7D), (''PRINT'', 0x7C), (''LOGOFF'', 0x7B)]"

definition upper :: "string \<Rightarrow> string" where
  "upper = map (\<lambda>ch. if CHR ''a'' \<le> ch \<and> ch \<le> CHR ''z'' then char_of ((of_char ch :: nat) - 32) else ch)"

definition sys_req :: "client \<Rightarrow> string \<Rightarrow> act" where
  "sys_req cl cmd ws s =
     (if \<not> ss_open s then (Some (Sc_session Se_session), s, ws)
      else case map_of sysreq_codes (if cmd = [] then ''ATTN'' else upper cmd) of
             None \<Rightarrow> (Some Sc_value, s, ws)
           | Some c \<Rightarrow>
               of_command (\<lambda>s. of_handler (map_prod (map_option Se_send) id (send_sysreq_command (cl_link cl) c (ss_rx s))) s) ws s)"

definition session_break :: command where
  "session_break s =
     (if \<not> ss_open s then (Some Se_session, s)
      else of_handler (map_prod (map_option Se_send) id (send_break (ss_rx s))) s)"

definition session_soh :: "byte \<Rightarrow> command" where
  "session_soh status s =
     (if \<not> ss_open s then (Some Se_session, s)
      else of_handler (map_prod (map_option Se_send) id (send_soh_message status (ss_rx s))) s)"

section \<open>Macros\<close>

definition execute_macro_command :: "client \<Rightarrow> string \<Rightarrow> act" where
  "execute_macro_command cl command ws s =
     (let c = py_strip command
      in if c = [] then (None, s, ws)
         else if begins ''String('' c then of_command (type_string cl (argument ''String('' c)) ws s
         else if begins ''key '' c then press cl (drop 4 c) ws s
         else if begins ''SysReq('' c \<and> last c = CHR '')'' then sys_req cl (py_strip (argument ''SysReq('' c)) ws s
         else (Some Sc_value, s, ws))"

fun macro :: "client \<Rightarrow> string list \<Rightarrow> act" where
  "macro cl [] ws s = (None, s, ws)"
| "macro cl (c # cs) ws s =
     (case execute_macro_command cl c ws s of
        (None, s1, ws1) \<Rightarrow> macro cl cs ws1 s1
      | (Some e, s1, ws1) \<Rightarrow> (Some e, s1, ws1))"

section \<open>Scripts\<close>

text \<open>\<open>nvt_text\<close> sends the characters of ASCII and raises for others.\<close>

definition nvt_text :: "client \<Rightarrow> string \<Rightarrow> act" where
  "nvt_text cl str ws s =
     (case ascii_encode str of None \<Rightarrow> (Some Sc_value, s, ws) | Some bs \<Rightarrow> of_command (session_send cl bs) ws s)"

definition move_cursor_text :: "string \<Rightarrow> string \<Rightarrow> act" where
  "move_cursor_text r c ws s =
     (case (py_int r, py_int c) of
        (Some row, Some col) \<Rightarrow> of_command (on_screen_do (move_cursor_to row col)) ws s
      | _ \<Rightarrow> (Some Sc_value, s, ws))"

text \<open>The methods of a session that take no argument. Some do nothing, or nothing to the session.\<close>

definition plain_methods :: "client \<Rightarrow> (string \<times> act) list" where
  "plain_methods cl =
     [(''cursor_select'', of_command (on_screen_do cursor_select)), (''delete_field'', of_command (on_screen_do delete_field)),
      (''circum_not'', of_command circum_not), (''newline'', of_command (on_screen_do cursor_newline)),
      (''page_down'', of_command (on_screen_do page_top)), (''page_up'', of_command (on_screen_do page_top)),
      (''end'', of_command (on_screen_do cursor_end)), (''next_word'', of_command (on_screen_do cursor_right)),
      (''previous_word'', of_command (on_screen_do cursor_left)), (''toggle_insert'', of_command toggle_insert),
      (''flip'', of_command toggle_insert), (''insert'', of_command toggle_insert),
      (''delete'', of_command (on_screen_do delete_char)), (''left'', of_command (on_screen_do cursor_left)),
      (''right'', of_command (on_screen_do cursor_right)),
      (''left2'', of_command (on_screen_do (cursor_left \<circ> cursor_left))),
      (''right2'', of_command (on_screen_do (cursor_right \<circ> cursor_right))),
      (''home'', of_command (on_screen_do cursor_home)), (''up'', press cl ''Up''), (''down'', press cl ''Down''),
      (''tab'', of_command (on_screen_do move_cursor_to_next_input_field)), (''backtab'', of_command backtab),
      (''backspace'', press cl ''BackSpace''), (''enter'', press cl ''Enter''),
      (''clear'', of_command (on_screen_do clear)), (''erase'', of_command (on_screen_do clear)),
      (''erase_eof'', of_command (on_screen_do erase_eof)), (''erase_input'', of_command (on_screen_do erase_input)),
      (''field_end'', of_command (on_screen_do cursor_end)), (''dup'', press cl ''Dup''),
      (''field_exit'', press cl ''FieldExit''), (''sysreq'', press cl ''SysReq''), (''attn'', press cl ''Attn''),
      (''test'', press cl ''Test''), (''interrupt'', of_command session_break), (''send_break'', of_command session_break),
      (''sys_req'', sys_req cl [])] @
     map (\<lambda>n. (n, of_command (\<lambda>s. (None, s))))
       [''field_mark'', ''snap'', ''mono_case'', ''screen_trace'', ''subject_names'', ''get_aid'', ''get_trace_events'',
        ''capabilities'', ''read_buffer'', ''tn3270e_info'', ''query'', ''bell'', ''info'', ''pause'']"

text \<open>Those that take one argument, given as text; a macro given as one text is run letter by letter.\<close>

definition text_methods :: "client \<Rightarrow> (string \<times> (string \<Rightarrow> act)) list" where
  "text_methods cl =
     [(''string'', \<lambda>a. of_command (type_string cl a)), (''insert_text'', \<lambda>a. of_command (type_string cl a)),
      (''paste_string'', \<lambda>a. of_command (type_string cl a)), (''compose'', \<lambda>a. of_command (type_string cl a)),
      (''key'', press cl), (''pf'', \<lambda>a. press cl (''PF('' @ a @ '')'')), (''pa'', \<lambda>a. press cl (''PA('' @ a @ '')'')),
      (''nvt_text'', nvt_text cl), (''sys_req'', sys_req cl), (''macro'', \<lambda>a. macro cl (map (\<lambda>ch. [ch]) a)),
      (''_execute_macro_command'', execute_macro_command cl), (''fail'', \<lambda>a. refuse Sc_failed)] @
     map (\<lambda>n. (n, \<lambda>a. of_command (\<lambda>s. (None, s))))
       [''source'', ''toggle_option'', ''trace'', ''transfer'', ''wait_condition'', ''query'']"

definition pair_methods :: "(string \<times> (string \<Rightarrow> string \<Rightarrow> act)) list" where
  "pair_methods =
     [(''move_cursor'', move_cursor_text), (''move_cursor1'', \<lambda>a b. refuse Sc_type),
      (''set'', \<lambda>a b. of_command (\<lambda>s. (None, s))), (''set_option'', \<lambda>a b. of_command (\<lambda>s. (None, s)))]"

text \<open>The other methods, whose calls from a script are an argument of the model.\<close>

definition other_methods :: "string list" where
  "other_methods =
     [''connect'', ''send'', ''send_data'', ''read'', ''receive_data'', ''close'', ''close_script'', ''managed'', ''ascii'',
      ''ebcdic'', ''ascii1'', ''ebcdic1'', ''ascii_field'', ''execute'', ''exit'', ''ansi_text'', ''hex_string'', ''show'',
      ''disconnect'', ''print_text'', ''prompt'', ''wait_for_text'', ''wait_for_aid'', ''reconnect'', ''quit'',
      ''send_soh_message'', ''send_file'', ''receive_file'', ''cookie'', ''expect'', ''select_light_pen'',
      ''start_lu_lu_session'', ''load_resource_definitions'', ''apply_resources'', ''set_field_attribute'',
      ''_retry_operation'', ''submit'']"

text \<open>
  Calling an attribute by its name with arguments as text. A name that is no attribute and one that cannot be
  called are refused alike; a wrong number of arguments is a \<open>TypeError\<close>. Names that every Python object has
  are left out.
\<close>

definition call_attribute :: "client \<Rightarrow> (string \<Rightarrow> string list \<Rightarrow> act) \<Rightarrow> string \<Rightarrow> string list \<Rightarrow> act" where
  "call_attribute cl others name args =
     (case (map_of (plain_methods cl) name, map_of (text_methods cl) name, map_of pair_methods name, args) of
        (Some f, _, _, []) \<Rightarrow> f
      | (_, Some f, _, [a]) \<Rightarrow> f a
      | (_, _, Some f, [a, b]) \<Rightarrow> f a b
      | (None, None, None, _) \<Rightarrow> (if name \<in> set other_methods then others name args else refuse Sc_value)
      | _ \<Rightarrow> refuse Sc_type)"

definition split_call :: "string \<Rightarrow> (string \<times> string list) option" where
  "split_call cmd =
     (if CHR ''('' \<in> set cmd \<and> last cmd = CHR '')''
      then let args = butlast (after_char CHR ''('' cmd)
           in Some (takeWhile (\<lambda>x. x \<noteq> CHR ''('') cmd, if args = [] then [] else map py_strip (py_split CHR '','' args))
      else None)"

lemma py_strip_length: "length (py_strip s) \<le> length s"
proof -
  have "length (strip_right f xs) \<le> length xs" for f and xs :: string
    by (metis length_dropWhile_le length_rev strip_right_def)
  then show ?thesis by (metis py_strip_def length_dropWhile_le order_trans)
qed

lemma py_split_length: "x \<in> set (py_split c xs) \<Longrightarrow> length x \<le> length xs"
  by (induction c xs arbitrary: x rule: py_split.induct) (fastforce split: if_splits list.splits)+

lemma after_char_length: "c \<in> set s \<Longrightarrow> length (after_char c s) < length s"
  by (induction s) (auto simp: after_char_def)

lemma split_call_length:
  assumes "split_call cmd = Some (name, args)" and "a \<in> set args"
  shows "length a < length cmd"
proof -
  obtain p where p: "p \<in> set (py_split CHR '','' (butlast (after_char CHR ''('' cmd)))" "a = py_strip p"
    and c: "CHR ''('' \<in> set cmd"
    using assms by (auto simp: split_call_def Let_def split: if_splits)
  have "length a \<le> length (butlast (after_char CHR ''('' cmd))"
    using py_strip_length [of p] py_split_length [OF p(1)] p(2) by simp
  with after_char_length [OF c] show ?thesis by simp
qed

function script :: "client \<Rightarrow> (string \<Rightarrow> string list \<Rightarrow> act) \<Rightarrow> string \<Rightarrow> act" where
  "script cl others commands =
     (if py_strip commands = [] then of_command (\<lambda>s. (None, s))
      else case split_call (py_strip commands) of
             Some (name, args) \<Rightarrow>
               (if lower name = ''script'' then (case args of [a] \<Rightarrow> script cl others a | _ \<Rightarrow> refuse Sc_type)
                else call_attribute cl others (lower name) args)
           | None \<Rightarrow>
               (if py_strip commands = ''script'' then refuse Sc_type
                else call_attribute cl others (py_strip commands) []))"
  by pat_completeness auto
termination
proof (relation "measure (\<lambda>(cl, others, cmd). length cmd)")
  fix cl :: client and others :: "string \<Rightarrow> string list \<Rightarrow> act" and commands :: string
    and x :: "string \<times> string list" and name args a as
  assume "split_call (py_strip commands) = Some x" "(name, args) = x" "args = a # as" "as = []"
  then have "length a < length (py_strip commands)" using split_call_length [of "py_strip commands" name args a] by auto
  with py_strip_length [of commands] show "((cl, others, a), cl, others, commands) \<in> measure (\<lambda>(cl, others, cmd). length cmd)"
    by simp
qed simp

declare script.simps [simp del]

end
