(* ===== verification/SessionResources.thy ===== *)
theory SessionResources
  imports SessionScripts
begin

text \<open>
  The settings of a session in \<open>session.py\<close>: resource files and what they change, cookies, the attributes of
  fields; the commands that wait, and those that tell about the session. The time of a file is an integer of any unit.
\<close>

section \<open>Resource files\<close>

record settings =
  st_mtime :: int
  st_resources :: "(string \<times> string) list"
  st_palette :: "(int \<times> int \<times> int) list"
  st_font :: string
  st_keymap :: string
  st_model :: string
  st_color_mode :: bool
  st_cookies :: "(string \<times> string) list"

definition settings_init :: settings where
  "settings_init =
     \<lparr>st_mtime = 0, st_resources = [], st_palette = replicate 16 (0, 0, 0), st_font = ''default'', st_keymap = ''default'',
      st_model = ''2'', st_color_mode = False, st_cookies = []\<rparr>"

text \<open>A file opened for text has every line end as a line feed, and \<open>readlines\<close> keeps it at the end of each line.\<close>

fun universal_newlines :: "string \<Rightarrow> string" where
  "universal_newlines [] = []"
| "universal_newlines (c # s) =
     (if c = CHR 0x0D then CHR 0x0A # universal_newlines (if s \<noteq> [] \<and> hd s = CHR 0x0A then tl s else s)
      else c # universal_newlines s)"

fun readlines :: "string \<Rightarrow> string list" where
  "readlines [] = []"
| "readlines (c # s) =
     (if c = CHR 0x0A then [c] # readlines s
      else case readlines s of [] \<Rightarrow> [[c]] | l # ls \<Rightarrow> (c # l) # ls)"

definition chomp :: "string \<Rightarrow> string" where
  "chomp = strip_right (\<lambda>c. c = CHR 0x0A \<or> c = CHR 0x0D)"

definition comment_line :: "string \<Rightarrow> bool" where
  "comment_line l \<longleftrightarrow> begins ''#'' (py_strip l) \<or> begins ''!'' (py_strip l)"

text \<open>A line that ends with a backslash goes on with the next one.\<close>

fun continue_line :: "string \<Rightarrow> string list \<Rightarrow> string \<times> string list" where
  "continue_line l [] = (l, [])"
| "continue_line l (n # ns) =
     (if l \<noteq> [] \<and> last l = CHR 0x5C
      then continue_line (strip_right py_space (butlast l) @ '' '' @ dropWhile py_space (chomp n)) ns
      else (l, n # ns))"

lemma continue_line_length: "length (snd (continue_line l ns)) \<le> length ns"
  by (induction l ns rule: continue_line.induct) auto

definition enter_line :: "string \<Rightarrow> (string \<times> string) list \<Rightarrow> (string \<times> string) list" where
  "enter_line l d =
     (if CHR '':'' \<notin> set l then d
      else let k = py_strip (takeWhile (\<lambda>c. c \<noteq> CHR '':'') l); v = py_strip (after_char CHR '':'' l)
           in if begins ''s3270.'' k then AList.update (drop 6 k) v d else d)"

function parse_resources :: "string list \<Rightarrow> (string \<times> string) list \<Rightarrow> (string \<times> string) list" where
  "parse_resources [] d = d"
| "parse_resources (l # ls) d =
     (if comment_line (chomp l) then parse_resources ls d
      else parse_resources (snd (continue_line (chomp l) ls)) (enter_line (fst (continue_line (chomp l) ls)) d))"
  by pat_completeness auto
termination
  by (relation "measure (\<lambda>(ls, d). length ls)") (simp_all add: le_imp_less_Suc continue_line_length)

section \<open>Applying them\<close>

text \<open>\<open>int(s, 16)\<close> of two characters, one of which may be a blank or a sign.\<close>

definition hex_pair :: "char \<Rightarrow> char \<Rightarrow> int option" where
  "hex_pair a b =
     (case (hex_value a, hex_value b) of
        (Some x, Some y) \<Rightarrow> Some (16 * x + y)
      | (Some x, None) \<Rightarrow> (if py_space b then Some x else None)
      | (None, Some y) \<Rightarrow>
          (if py_space a \<or> a = CHR ''+'' then Some y else if a = CHR ''-'' then Some (- y) else None)
      | _ \<Rightarrow> None)"

definition color_of :: "string \<Rightarrow> (int \<times> int \<times> int) option" where
  "color_of v =
     (case v of
        [h, a, b, c, d, e, f] \<Rightarrow>
          (if h \<noteq> CHR ''#'' then None
           else case (hex_pair a b, hex_pair c d, hex_pair e f) of
                  (Some x, Some y, Some z) \<Rightarrow> Some (x, y, z)
                | _ \<Rightarrow> None)
      | _ \<Rightarrow> None)"

text \<open>The colour byte of every position. A negative number does not fit: the first assignment raises.\<close>

definition tint :: "int \<Rightarrow> screen \<Rightarrow> screen" where
  "tint v s =
     (if v < 0 then s
      else s\<lparr>attributes := map (\<lambda>(i, b). if i mod 3 = 1 then word_of_int v else b) (enumerate 0 (attributes s))\<rparr>)"

definition apply_resource :: "string \<times> string \<Rightarrow> settings \<times> screen \<Rightarrow> settings \<times> screen" where
  "apply_resource = (\<lambda>(k, v) (t, s).
     if begins ''color'' k \<and> drop 5 k \<noteq> [] \<and> list_all is_digit_char (drop 5 k)
     then (let i = digits_value (drop 5 k)
           in if i > 15 then (t, s)
              else case color_of v of
                     None \<Rightarrow> (t, s)
                   | Some (x, y, z) \<Rightarrow>
                       (t\<lparr>st_palette := (st_palette t)[nat i := (x, y, z)]\<rparr>,
                        if i = 1 \<and> 1 < length (attributes s) div 3 then tint x s else s))
     else if k = ''font'' then (t\<lparr>st_font := v\<rparr>, s)
     else if k = ''keymap'' then (t\<lparr>st_keymap := v\<rparr>, s)
     else if k = ''model'' then (t\<lparr>st_model := v, st_color_mode := (v = ''3'')\<rparr>, s)
     else (t, s))"

definition apply_resources :: "settings \<times> screen \<Rightarrow> settings \<times> screen" where
  "apply_resources x = fold apply_resource (st_resources (fst x)) x"

text \<open>The time of the file and its text, \<open>None\<close> where reading them fails; \<open>True\<close> is a \<open>SessionError\<close>.\<close>

definition load_resource_definitions ::
    "int option \<Rightarrow> string option \<Rightarrow> settings \<times> screen \<Rightarrow> bool \<times> settings \<times> screen" where
  "load_resource_definitions mtime content = (\<lambda>(t, s).
     case mtime of
       None \<Rightarrow> (True, t, s)
     | Some m \<Rightarrow>
         (if st_mtime t = m then (False, t, s)
          else let t1 = t\<lparr>st_mtime := m\<rparr>
               in case content of
                    None \<Rightarrow> (True, t1, s)
                  | Some file \<Rightarrow>
                      (False, apply_resources (t1\<lparr>st_resources := parse_resources (readlines (universal_newlines file)) []\<rparr>, s))))"

section \<open>Cookies\<close>

definition cookie :: "string \<Rightarrow> settings \<Rightarrow> settings" where
  "cookie c t =
     (if CHR ''='' \<in> set c
      then t\<lparr>st_cookies := AList.update (takeWhile (\<lambda>x. x \<noteq> CHR ''='') c) (after_char CHR ''='' c) (st_cookies t)\<rparr> else t)"

section \<open>Attributes of fields\<close>

text \<open>The columns from the first to the last one of the field, in all its rows. Positions of fields are not negative.\<close>

definition field_box :: "screen \<Rightarrow> field \<Rightarrow> int list" where
  "field_box s f =
     concat (map (\<lambda>r. map (\<lambda>c. r * cols s + c) [snd (f_start f) .. snd (f_end f)]) [fst (f_start f) .. fst (f_end f)])"

text \<open>\<open>True\<close> is the \<open>ValueError\<close> of a value that is no byte.\<close>

definition set_field_attribute :: "int \<Rightarrow> string \<Rightarrow> int \<Rightarrow> screen \<Rightarrow> bool \<times> screen" where
  "set_field_attribute i attr v s =
     (if 0 \<le> i \<and> i < int (length (sfields s)) \<and> attr \<in> {''color'', ''highlight''}
      then (let k = (if attr = ''color'' then 1 else 2);
                slots = filter (\<lambda>j. j < int (length (attributes s))) (map (\<lambda>p. p * 3 + k) (field_box s (sfields s ! nat i)))
            in if v < 0 \<or> 255 < v then (slots \<noteq> [], s)
               else (False, s\<lparr>attributes := fold (\<lambda>j a. a[nat j := word_of_int v]) slots (attributes s)\<rparr>))
      else (False, s))"

section \<open>Waiting\<close>

text \<open>
  Each element of the list is one round: what the host sends in it. The deadline has passed after the last one.
  What a round raises is ignored; when the text cannot be made nothing is read either.
\<close>

definition poll :: "client \<Rightarrow> arrival list \<Rightarrow> session \<Rightarrow> session \<times> arrival list" where
  "poll cl as s =
     (if \<not> ss_open s then (s, as)
      else case receive_data (cl_terminal cl) (cl_now cl) as (ss_rx s) of (res, r, left) \<Rightarrow> (s\<lparr>ss_rx := r\<rparr>, left))"

fun wait_for_text ::
    "codec_world \<Rightarrow> client \<Rightarrow> unicode \<Rightarrow> arrival list \<Rightarrow> arrival list list \<Rightarrow> session \<Rightarrow> bool \<times> session" where
  "wait_for_text w cl pat left [] s = (False, s)"
| "wait_for_text w cl pat left (as # ws) s =
     (case to_text w (ss_screen s) of
        Inl e \<Rightarrow> wait_for_text w cl pat (left @ as) ws s
      | Inr t \<Rightarrow>
          (if py_contains pat t then (True, s)
           else case poll cl (left @ as) s of (s1, left1) \<Rightarrow> wait_for_text w cl pat left1 ws s1))"

text \<open>The last AID is an attribute that nothing sets after the constructor.\<close>

definition get_aid :: "session \<Rightarrow> int option" where
  "get_aid s = None"

fun wait_for_aid ::
    "client \<Rightarrow> int option \<Rightarrow> arrival list \<Rightarrow> arrival list list \<Rightarrow> session \<Rightarrow> int option \<times> session" where
  "wait_for_aid cl want left [] s = (get_aid s, s)"
| "wait_for_aid cl want left (as # ws) s =
     (if get_aid s \<noteq> None \<and> (want = None \<or> get_aid s = want) then (get_aid s, s)
      else case poll cl (left @ as) s of (s1, left1) \<Rightarrow> wait_for_aid cl want left1 ws s1)"

text \<open>\<open>pattern.encode(errors="ignore")\<close>\<close>

definition utf8 :: "int \<Rightarrow> bytes" where
  "utf8 c =
     (if c < 0x80 then [word_of_int c]
      else if c < 0x800 then [word_of_int (0xC0 + c div 0x40), word_of_int (0x80 + c mod 0x40)]
      else if 0xD800 \<le> c \<and> c < 0xE000 then []
      else if c < 0x10000
      then [word_of_int (0xE0 + c div 0x1000), word_of_int (0x80 + c div 0x40 mod 0x40), word_of_int (0x80 + c mod 0x40)]
      else [word_of_int (0xF0 + c div 0x40000), word_of_int (0x80 + c div 0x1000 mod 0x40),
            word_of_int (0x80 + c div 0x40 mod 0x40), word_of_int (0x80 + c mod 0x40)])"

text \<open>\<open>expect\<close> looks at the screens of its rounds; it reads nothing itself.\<close>

fun expect :: "codec_world \<Rightarrow> unicode \<Rightarrow> screen list \<Rightarrow> codec_error + bool" where
  "expect w pat [] = Inr False"
| "expect w pat (s # ss) =
     (case to_text w s of
        Inl e \<Rightarrow> Inl e
      | Inr t \<Rightarrow>
          (if py_contains pat t \<or> py_contains (concat (map utf8 pat)) (buffer s) then Inr True else expect w pat ss))"

section \<open>Retrying\<close>

text \<open>\<open>_retry_operation\<close>: the outcome of each attempt is an argument; \<open>None\<close> where no attempt is made.\<close>

fun retry_from :: "nat \<Rightarrow> nat \<Rightarrow> int \<Rightarrow> (nat \<Rightarrow> 'e + 'a) \<Rightarrow> ('e + 'a) option \<times> int list" where
  "retry_from 0 k delay f = (None, [])"
| "retry_from (Suc n) k delay f =
     (case f k of
        Inr x \<Rightarrow> (Some (Inr x), [])
      | Inl e \<Rightarrow>
          (if n = 0 then (Some (Inl e), [])
           else case retry_from n (Suc k) delay f of (r, ws) \<Rightarrow> (r, delay * 2 ^ k # ws)))"

definition retry_operation :: "int \<Rightarrow> int \<Rightarrow> (nat \<Rightarrow> 'e + 'a) \<Rightarrow> ('e + 'a) option \<times> int list" where
  "retry_operation max_retries delay f = retry_from (nat max_retries) 0 delay f"

section \<open>What the session tells\<close>

record e_info =
  ei_negotiated :: bool
  ei_device_type :: "string option"
  ei_functions :: "string list"
  ei_lu_name :: "string option"

text \<open>The functions are a number, which is listed as one text. There is no BIND image at the negotiator.\<close>

definition tn3270e_info :: "session \<Rightarrow> e_info" where
  "tn3270e_info s =
     (if \<not> ss_open s then \<lparr>ei_negotiated = False, ei_device_type = None, ei_functions = [], ei_lu_name = None\<rparr>
      else let n = rx_neg (ss_rx s)
           in \<lparr>ei_negotiated = ng_negotiated n, ei_device_type = ng_device_type n,
               ei_functions = [int_text (ng_functions n)],
               ei_lu_name = (if ng_lu_name n = Some [] then None else ng_lu_name n)\<rparr>)"

definition capabilities :: "screen \<Rightarrow> string" where
  "capabilities s = ''Model 2, '' @ int_text (cols s) @ ''x'' @ int_text (rows s)"

end
