(* ===== verification/SessionCommandProps.thy ===== *)
theory SessionCommandProps
  imports SessionResources
begin

text \<open>
  What the commands of \<open>SessionScripts\<close> and \<open>SessionResources\<close> do: text in macros and scripts, SYSREQ, resource
  files, attributes of fields and the waits.
\<close>

section \<open>Macros and scripts\<close>

lemma begins_append [simp]: "begins w (w @ s)"
  by (simp add: begins_def)

lemma argument_call [simp]: "argument w (w @ a @ [c]) = a"
  by (simp add: argument_def py_slice_def py_bound_def)

lemma strip_call: "\<not> py_space (hd w) \<Longrightarrow> w \<noteq> [] \<Longrightarrow> py_strip (w @ a @ '')'') = w @ a @ '')''"
  by (rule py_strip_id) (simp add: py_space_def)

lemma split_call_text:
  assumes "CHR ''('' \<notin> set n"
  shows "split_call (n @ CHR ''('' # a @ '')'') = Some (n, if a = [] then [] else map py_strip (py_split CHR '','' a))"
  using assms
  by (simp add: split_call_def after_char_def Let_def takeWhile_append2 dropWhile_append2 cong: conj_cong)
     (auto simp: takeWhile_append dropWhile_append)

lemma macro_append:
  "macro cl (cs @ ds) ws s =
     (case macro cl cs ws s of
        (None, s1, ws1) \<Rightarrow> macro cl ds ws1 s1
      | (Some e, s1, ws1) \<Rightarrow> (Some e, s1, ws1))"
  by (induction cs arbitrary: ws s) (auto split: prod.split option.split)

lemma py_split_one: "(\<exists>w. py_split c xs = [w]) \<longleftrightarrow> c \<notin> set xs"
proof
  show "\<exists>w. py_split c xs = [w]" if "c \<notin> set xs" using that by (simp add: py_split_word)
next
  assume w: "\<exists>w. py_split c xs = [w]"
  show "c \<notin> set xs"
  proof
    assume "c \<in> set xs"
    then obtain as bs where "xs = as @ c # bs" "c \<notin> set as" by (meson split_list_first)
    with w have "py_split c bs = []" by (auto simp: py_split_append)
    then show False by (cases bs) (auto split: if_splits list.splits)
  qed
qed

lemma split_two: "c \<in> set xs \<Longrightarrow> \<exists>a b r. py_split c xs = a # b # r"
  using py_split_one [of c xs] by (cases "py_split c xs"; cases "tl (py_split c xs)") (auto, cases xs, auto split: if_splits list.splits)

lemma string_command: "of_command (type_string cl u) ws s = (None, snd (type_string cl u s), ws)"
  by (simp add: of_command_def type_string_def on_screen_do_def)

lemma string_stripped: "py_strip (''String('' @ t @ '')'') = ''String('' @ t @ '')''"
  by (rule strip_call) (simp_all add: py_space_def)

lemma text_in_macro: "macro cl [''String('' @ t @ '')''] ws s = (None, snd (type_string cl t s), ws)"
  unfolding macro.simps execute_macro_command_def string_stripped Let_def by (simp add: string_command del: append_Cons)

lemma text_in_script:
  "script cl others (''String('' @ t @ '')'') ws s =
     (if t = [] \<or> CHR '','' \<in> set t then (Some Sc_type, s, ws) else (None, snd (type_string cl (py_strip t) s), ws))"
proof -
  have sc: "split_call (''String('' @ t @ '')'') = Some (''String'', if t = [] then [] else map py_strip (py_split CHR '','' t))"
    using split_call_text [of "''String''" t] by simp
  have low: "lower ''String'' = ''string''" by (simp add: lower_def) code_simp
  have tab: "map_of (plain_methods cl) ''string'' = None" "map_of pair_methods ''string'' = None"
    "map_of (text_methods cl) ''string'' = Some (\<lambda>a. of_command (type_string cl a))"
    by (simp_all add: plain_methods_def pair_methods_def text_methods_def)
  consider "t = []" | "t \<noteq> []" "CHR '','' \<notin> set t" | "t \<noteq> []" "CHR '','' \<in> set t" by blast
  then show ?thesis
  proof cases
    case 3
    then obtain a b r where "py_split CHR '','' t = a # b # r" using split_two by metis
    with 3 show ?thesis
      unfolding script.simps [of cl others "''String('' @ t @ '')''"] string_stripped sc by (simp add: low call_attribute_def tab refuse_def)
  qed (unfold script.simps [of cl others "''String('' @ t @ '')''"] string_stripped sc,
       simp_all add: low call_attribute_def tab refuse_def string_command py_split_word)
qed

text \<open>
  The same command in a macro and in a script. A macro types what stands between the parentheses. A script
  takes it for a list of arguments: blanks around the text are lost, a comma in it makes the call fail, and so
  does the empty text.
\<close>

lemma text_in_macros_and_scripts:
  "macro cl [''String('' @ t @ '')''] ws s = (None, snd (type_string cl t s), ws)
   \<and> script cl others (''String('' @ t @ '')'') ws s =
     (if t = [] \<or> CHR '','' \<in> set t then (Some Sc_type, s, ws) else (None, snd (type_string cl (py_strip t) s), ws))"
  using text_in_macro text_in_script by simp

text \<open>The example in the documentation of scripts: there is no method of that name in lower case.\<close>

lemma documented_script_fails: "script cl others (''MoveCursor('' @ a @ '')'') ws s = (Some Sc_value, s, ws)"
proof -
  have p: "py_strip (''MoveCursor('' @ a @ '')'') = ''MoveCursor('' @ a @ '')''" by (rule strip_call) (simp_all add: py_space_def)
  obtain args where sc: "split_call (''MoveCursor('' @ a @ '')'') = Some (''MoveCursor'', args)"
    using split_call_text [of "''MoveCursor''" a] by simp
  have low: "lower ''MoveCursor'' = ''movecursor''" by (simp add: lower_def) code_simp
  have "map_of (plain_methods cl) ''movecursor'' = None" "map_of pair_methods ''movecursor'' = None"
    "map_of (text_methods cl) ''movecursor'' = None" "''movecursor'' \<notin> set other_methods"
    by (simp_all add: plain_methods_def pair_methods_def text_methods_def other_methods_def)
  then show ?thesis
    unfolding script.simps [of cl others "''MoveCursor('' @ a @ '')''"] p sc by (simp add: low call_attribute_def refuse_def)
qed

section \<open>SYSREQ\<close>

lemma sysreq_code_known: "map_of sysreq_codes x = Some c \<Longrightarrow> c \<noteq> 0x6C"
  by (auto simp: sysreq_codes_def split: if_splits)

definition sysreq_record :: "string \<Rightarrow> session \<Rightarrow> bytes" where
  "sysreq_record cmd s =
     (if ss_open s \<and> is_connected (rx_telnet (ss_rx s)) \<and> require_streams (ss_rx s) \<and> ng_functions (rx_neg (ss_rx s)) AND 0x10 \<noteq> 0
      then case map_of sysreq_codes (if cmd = [] then ''ATTN'' else upper cmd) of
             Some c \<Rightarrow> [IAC, SB, 0x28, 0x1C, c, IAC, SE]
           | None \<Rightarrow> []
      else [])"

text \<open>
  What a SYSREQ sends: the subnegotiation with the code of a known request, when the function was agreed on and the
  link is there, and nothing otherwise. It succeeds exactly when it sends something and the link takes
  it, so without the function every request fails; the interrupt that the handler keeps for this case is never sent.
\<close>

lemma sysreq_sends:
  "ng_out (rx_neg (ss_rx (fst (snd (sys_req cl cmd ws s))))) = ng_out (rx_neg (ss_rx s)) @ sysreq_record cmd s"
  "fst (sys_req cl cmd ws s) = None \<longleftrightarrow>
     sysreq_record cmd s \<noteq> [] \<and> cl_link cl (ng_out (rx_neg (ss_rx s)) @ sysreq_record cmd s) = None"
proof -
  note d = sys_req_def of_command_def of_handler_def send_sysreq_command_def wire_drain_def wire_write_def set_rx_neg_def
    sysreq_record_def
  show "ng_out (rx_neg (ss_rx (fst (snd (sys_req cl cmd ws s))))) = ng_out (rx_neg (ss_rx s)) @ sysreq_record cmd s"
    by (cases "map_of sysreq_codes (if cmd = [] then ''ATTN'' else upper cmd)") (auto simp: d Let_def dest: sysreq_code_known)
  show "fst (sys_req cl cmd ws s) = None \<longleftrightarrow>
     sysreq_record cmd s \<noteq> [] \<and> cl_link cl (ng_out (rx_neg (ss_rx s)) @ sysreq_record cmd s) = None"
    by (cases "map_of sysreq_codes (if cmd = [] then ''ATTN'' else upper cmd)") (auto simp: d Let_def dest: sysreq_code_known)
qed

section \<open>Resource files\<close>

text \<open>How a resource is written, and when its name and value can be read back.\<close>

definition resource_line :: "string \<times> string \<Rightarrow> string" where
  "resource_line kv = ''s3270.'' @ fst kv @ '':'' @ snd kv @ [CHR 0x0A]"

definition trimmed :: "string \<Rightarrow> bool" where
  "trimmed x \<longleftrightarrow> x \<noteq> [] \<and> \<not> py_space (hd x) \<and> \<not> py_space (last x)"

definition plain_resource :: "string \<times> string \<Rightarrow> bool" where
  "plain_resource kv \<longleftrightarrow> trimmed (fst kv) \<and> trimmed (snd kv) \<and> CHR '':'' \<notin> set (fst kv) \<and> last (snd kv) \<noteq> CHR 0x5C
     \<and> (\<forall>c \<in> set (fst kv @ snd kv). c \<noteq> CHR 0x0A \<and> c \<noteq> CHR 0x0D)"

definition resource_file :: "(string \<times> string) list \<Rightarrow> string" where
  "resource_file kvs = concat (map resource_line kvs)"

text \<open>Lines without an end inside are read back as they were written.\<close>

lemma universal_newlines_id: "CHR 0x0D \<notin> set s \<Longrightarrow> universal_newlines s = s"
  by (induction s rule: universal_newlines.induct) auto

lemma readlines_line: "CHR 0x0A \<notin> set l \<Longrightarrow> readlines (l @ CHR 0x0A # s) = (l @ [CHR 0x0A]) # readlines s"
  by (induction l) auto

lemma readlines_file:
  assumes "\<forall>kv \<in> set kvs. plain_resource kv"
  shows "readlines (universal_newlines (resource_file kvs)) = map resource_line kvs"
proof -
  have "CHR 0x0D \<notin> set (resource_file kvs)"
    using assms by (auto simp: resource_file_def resource_line_def plain_resource_def)
  moreover have "readlines (resource_file kvs) = map resource_line kvs"
    using assms
  proof (induction kvs)
    case (Cons kv kvs)
    then have "CHR 0x0A \<notin> set (''s3270.'' @ fst kv @ '':'' @ snd kv)" by (auto simp: plain_resource_def)
    from readlines_line [OF this, of "resource_file kvs"] Cons show ?case by (simp add: resource_file_def resource_line_def)
  qed (simp add: resource_file_def)
  ultimately show ?thesis by (simp add: universal_newlines_id)
qed

lemma trimmed_strip: "trimmed x \<Longrightarrow> py_strip x = x"
  by (simp add: py_strip_id trimmed_def)

lemma chomp_line: "x \<noteq> [] \<Longrightarrow> \<not> py_space (last x) \<Longrightarrow> chomp (x @ [CHR 0x0A]) = x"
  by (subst chomp_def, subst strip_right_snoc) (auto simp: py_space_def intro!: strip_right_id)

lemma read_resource_line:
  assumes "plain_resource kv"
  shows "parse_resources (resource_line kv # ls) d = parse_resources ls (AList.update (fst kv) (snd kv) d)"
proof -
  obtain k v where kv: "kv = (k, v)" by fastforce
  let ?l = "''s3270.'' @ k @ '':'' @ v"
  have a: "k \<noteq> []" "\<not> py_space (last k)" "v \<noteq> []" "\<not> py_space (hd v)" "\<not> py_space (last v)" "CHR '':'' \<notin> set k" "last v \<noteq> CHR 0x5C"
    using assms by (auto simp: kv plain_resource_def trimmed_def)
  have c: "chomp (resource_line kv) = ?l" using chomp_line [of ?l] a by (simp add: kv resource_line_def)
  have s: "py_strip ?l = ?l" using a by (intro py_strip_id) (simp add: py_space_def)
  have n: "\<not> comment_line ?l" unfolding comment_line_def s by (simp add: begins_def)
  have g: "continue_line ?l ls = (?l, ls)" using a by (cases ls) simp_all
  have sk: "py_strip (''s3270.'' @ k) = ''s3270.'' @ k" using a by (intro py_strip_id) (simp add: py_space_def)
  have sv: "py_strip v = v" using a by (intro py_strip_id) simp
  have t: "takeWhile (\<lambda>x. x \<noteq> CHR '':'') ?l = ''s3270.'' @ k" "after_char CHR '':'' ?l = v"
    using a(6) by (simp_all add: after_char_def takeWhile_append2 dropWhile_append2)
       (auto simp: takeWhile_append dropWhile_append)
  have "enter_line ?l d = AList.update k v d"
    unfolding enter_line_def t sk sv Let_def by (simp add: begins_def)
  then show ?thesis unfolding parse_resources.simps c g using n by (simp add: kv)
qed

lemma read_resource_lines:
  "\<forall>kv \<in> set kvs. plain_resource kv \<Longrightarrow> parse_resources (map resource_line kvs) d = fold (\<lambda>kv. AList.update (fst kv) (snd kv)) kvs d"
  by (induction kvs arbitrary: d) (simp_all add: read_resource_line del: parse_resources.simps(2))

lemma update_new: "k \<notin> fst ` set d \<Longrightarrow> AList.update k v d = d @ [(k, v)]"
  by (induction d) auto

lemma fold_update_distinct:
  "distinct (map fst d @ map fst kvs) \<Longrightarrow> fold (\<lambda>kv. AList.update (fst kv) (snd kv)) kvs d = d @ kvs"
  by (induction kvs arbitrary: d) (auto simp: update_new)

text \<open>
  C22. Resources written to a file, a line each, are read back as they were, in their order, and loading the file
  makes them the resources of the session; loading it again while its time is the same changes nothing. The names are all different; names and values are
  not empty, have no line end in them and no white space at their ends; a name has no colon and a value does not end with a
  backslash.
\<close>

theorem resources_roundtrip:
  assumes "\<forall>kv \<in> set kvs. plain_resource kv" and "distinct (map fst kvs)" and "m \<noteq> st_mtime t"
    and "load_resource_definitions (Some m) (Some (resource_file kvs)) (t, s) = (e, t', s')"
  shows "\<not> e \<and> st_resources t' = kvs \<and> load_resource_definitions (Some m) anything (t', s') = (False, t', s')"
proof -
  have p: "parse_resources (readlines (universal_newlines (resource_file kvs))) [] = kvs"
    using assms(1,2) by (simp add: readlines_file read_resource_lines fold_update_distinct)
  have one: "st_resources (fst (apply_resource kv x)) = st_resources (fst x) \<and> st_mtime (fst (apply_resource kv x)) = st_mtime (fst x)" for kv x
    by (cases kv; cases x) (auto simp: apply_resource_def Let_def split: option.split)
  have all: "st_resources (fst (fold apply_resource xs x)) = st_resources (fst x) \<and> st_mtime (fst (fold apply_resource xs x)) = st_mtime (fst x)" for xs x
    by (induction xs arbitrary: x) (simp_all add: one)
  have e: "\<not> e" "(t', s') = apply_resources (t\<lparr>st_mtime := m, st_resources := kvs\<rparr>, s)"
    using assms(3,4) by (auto simp: load_resource_definitions_def Let_def p)
  then have t: "t' = fst (apply_resources (t\<lparr>st_mtime := m, st_resources := kvs\<rparr>, s))" by (metis fst_conv)
  have "st_resources t' = kvs" "st_mtime t' = m" unfolding t apply_resources_def using all by simp_all
  with e(1) show ?thesis by (simp add: load_resource_definitions_def)
qed

text \<open>A file that could not be read is remembered as loaded, and so is every other file of the same time.\<close>

lemma failed_load_is_remembered:
  assumes "load_resource_definitions (Some m) None (t, s) = (True, t', s')"
  shows "load_resource_definitions (Some m) (Some file) (t', s') = (False, t', s') \<and> st_resources t' = st_resources t"
  using assms by (auto simp: load_resource_definitions_def Let_def split: if_splits)

section \<open>Attributes of fields\<close>

lemma fold_put:
  "\<forall>j \<in> set js. 0 \<le> j \<Longrightarrow> n < length a \<Longrightarrow>
     fold (\<lambda>j a. a[nat j := v]) js a ! n = (if int n \<in> set js then v else a ! n)"
proof (induction js arbitrary: a)
  case (Cons j js)
  then show ?case by (auto simp: nth_list_update)
qed simp

lemma fold_put_length [simp]: "length (fold (\<lambda>j a. a[nat j := v]) js a) = length a"
  by (induction js arbitrary: a) simp_all

lemma field_box_cells:
  "p \<in> set (field_box s f) \<longleftrightarrow> (\<exists>r c. fst (f_start f) \<le> r \<and> r \<le> fst (f_end f) \<and> snd (f_start f) \<le> c \<and> c \<le> snd (f_end f)
     \<and> p = r * cols s + c)"
proof -
  have "x \<in> (\<lambda>c. a + c) ` {l .. h} \<longleftrightarrow> (\<exists>c. l \<le> c \<and> c \<le> h \<and> x = a + c)" for x a l h :: int
    by (simp only: image_iff Bex_def atLeastAtMost_iff conj_assoc)
  then show ?thesis
    by (simp only: field_box_def set_concat set_map set_upto image_image UN_iff Bex_def atLeastAtMost_iff) blast
qed

lemma field_box_iff:
  assumes "0 < cols s" and "0 \<le> snd (f_start f)" and "snd (f_end f) < cols s"
  shows "p \<in> set (field_box s f) \<longleftrightarrow>
    fst (f_start f) \<le> p div cols s \<and> p div cols s \<le> fst (f_end f) \<and> snd (f_start f) \<le> p mod cols s \<and> p mod cols s \<le> snd (f_end f)"
proof
  assume "p \<in> set (field_box s f)"
  then obtain r c where "fst (f_start f) \<le> r" "r \<le> fst (f_end f)" "snd (f_start f) \<le> c" "c \<le> snd (f_end f)" "p = r * cols s + c"
    unfolding field_box_cells by blast
  moreover have "0 \<le> c" "c < cols s" using calculation assms by auto
  ultimately show "fst (f_start f) \<le> p div cols s \<and> p div cols s \<le> fst (f_end f) \<and> snd (f_start f) \<le> p mod cols s \<and> p mod cols s \<le> snd (f_end f)"
    using linear_div_mod [of c "cols s" r] by simp
next
  assume "fst (f_start f) \<le> p div cols s \<and> p div cols s \<le> fst (f_end f) \<and> snd (f_start f) \<le> p mod cols s \<and> p mod cols s \<le> snd (f_end f)"
  moreover have "p = (p div cols s) * cols s + p mod cols s" by simp
  ultimately show "p \<in> set (field_box s f)" unfolding field_box_cells by blast
qed

text \<open>
  C40. The colour set for a field reaches the positions of a rectangle: the rows from the first to the last of
  the field, and in each of them the columns from the one where the field starts to the one where it ends. So
  a field that ends in a column left of its start gets nothing at all, however many rows it has.
\<close>

theorem attributes_fill_rectangle:
  assumes "wf_screen s" and "0 \<le> i" and "i < int (length (sfields s))" and "0 \<le> v" and "v \<le> 255"
    and "set_field_attribute i ''color'' v s = (e, s')" and "0 \<le> p" and "p < ssize s" and "f = sfields s ! nat i"
  shows "\<not> e \<and> attributes s' ! nat (p * 3 + 1) =
      (if fst (f_start f) \<le> p div cols s \<and> p div cols s \<le> fst (f_end f) \<and> snd (f_start f) \<le> p mod cols s \<and> p mod cols s \<le> snd (f_end f)
       then word_of_int v else attributes s ! nat (p * 3 + 1))
    \<and> (snd (f_end f) < snd (f_start f) \<longrightarrow> s' = s)"
proof -
  have ok: "field_ok s f" using assms(1,2,3,9) by (simp add: wf_screen_def)
  have len: "length (attributes s) = nat (ssize s * 3)" and c: "0 < cols s" using assms(1) by (simp_all add: wf_screen_def wf_dims_def)
  have b: "0 \<le> snd (f_start f)" "snd (f_end f) < cols s" "0 \<le> fst (f_start f)"
    using ok by (simp_all add: field_ok_def on_screen_def)
  let ?slots = "filter (\<lambda>j. j < int (length (attributes s))) (map (\<lambda>p. p * 3 + 1) (field_box s f))"
  have s': "s' = s\<lparr>attributes := fold (\<lambda>j a. a[nat j := word_of_int v]) ?slots (attributes s)\<rparr>" "\<not> e"
    using assms(2-6) by (auto simp: set_field_attribute_def Let_def assms(9))
  have "0 \<le> q" if "q \<in> set (field_box s f)" for q using that b c unfolding field_box_cells by auto
  then have pos: "\<forall>j \<in> set ?slots. 0 \<le> j" by fastforce
  have n: "nat (p * 3 + 1) < length (attributes s)" using assms(7,8) len by simp
  have "int (nat (p * 3 + 1)) \<in> set ?slots \<longleftrightarrow> p \<in> set (field_box s f)" using assms(7,8) len by auto
  with fold_put [OF pos n, of "word_of_int v"] field_box_iff [OF c b(1,2), of p]
  have "attributes s' ! nat (p * 3 + 1) =
      (if fst (f_start f) \<le> p div cols s \<and> p div cols s \<le> fst (f_end f) \<and> snd (f_start f) \<le> p mod cols s \<and> p mod cols s \<le> snd (f_end f)
       then word_of_int v else attributes s ! nat (p * 3 + 1))"
    by (simp add: s')
  moreover have "s' = s" if "snd (f_end f) < snd (f_start f)"
  proof -
    have "?slots = []" using that by (auto simp: field_box_def filter_empty_conv)
    then show ?thesis by (simp add: s')
  qed
  ultimately show ?thesis using s'(2) by simp
qed

section \<open>Waiting\<close>

lemma wait_for_text_last:
  "fst (wait_for_text w cl pat left (ws @ [as]) s) = fst (wait_for_text w cl pat left (ws @ [bs]) s)"
  by (induction w cl pat left ws s rule: wait_for_text.induct) (auto split: sum.split prod.split)

lemma wait_for_text_sound:
  "fst (wait_for_text w cl pat left ws s) \<Longrightarrow>
     \<exists>t. to_text w (ss_screen (snd (wait_for_text w cl pat left ws s))) = Inr t \<and> py_contains pat t"
  by (induction w cl pat left ws s rule: wait_for_text.induct) (auto split: sum.splits prod.splits if_splits)

lemma wait_for_aid_none: "fst (wait_for_aid cl want left ws s) = None"
  by (induction cl want left ws s rule: wait_for_aid.induct) (auto simp: get_aid_def split: prod.split)

text \<open>
  The waits. What the host sends in the last round before the deadline is read and yet makes no difference to
  the answer, since the screen is not looked at again. Waiting for an attention key never finds one, whatever arrives.
\<close>

lemma waits_for_text_and_keys:
  "fst (wait_for_text w cl pat [] (ws @ [as]) s) = fst (wait_for_text w cl pat [] (ws @ [bs]) s)"
  "fst (wait_for_aid cl want [] ws s) = None"
  using wait_for_text_last wait_for_aid_none by blast+

text \<open>An at sign has the code of an EBCDIC blank, so it is found on any screen that has one.\<close>

lemma expect_finds_blanks:
  assumes "to_text w s = Inr t" and "0x40 \<in> set (buffer s)"
  shows "expect w [0x40] (s # ss) = Inr True"
proof -
  from assms(2) have "py_contains [0x40] (buffer s)" by (auto simp: py_contains_iff dest: split_list)
  then show ?thesis using assms(1) by (simp add: utf8_def)
qed

section \<open>Retrying\<close>

lemma retry_from_outcome:
  assumes "0 < n"
  shows "(\<forall>j < n. \<exists>e. f (k + j) = Inl e) \<and> fst (retry_from n k delay f) = Some (f (k + (n - 1)))
           \<and> snd (retry_from n k delay f) = map (\<lambda>j. delay * 2 ^ (k + j)) [0 ..< n - 1]
       \<or> (\<exists>j < n. (\<exists>x. f (k + j) = Inr x) \<and> (\<forall>i < j. \<exists>e. f (k + i) = Inl e) \<and> fst (retry_from n k delay f) = Some (f (k + j))
           \<and> snd (retry_from n k delay f) = map (\<lambda>i. delay * 2 ^ (k + i)) [0 ..< j])"
  using assms
proof (induction n arbitrary: k)
  case (Suc n)
  show ?case
  proof (cases "f k")
    case (Inr x)
    then show ?thesis by (intro disjI2 exI [of _ 0]) simp
  next
    case (Inl e)
    show ?thesis
    proof (cases "n = 0")
      case False
      obtain r ws where r: "retry_from n (Suc k) delay f = (r, ws)" by fastforce
      have go: "retry_from (Suc n) k delay f = (r, delay * 2 ^ k # ws)" using Inl False r by simp
      have sh: "map (\<lambda>j. delay * 2 ^ (k + j)) [0 ..< Suc m] = delay * 2 ^ k # map (\<lambda>j. delay * 2 ^ (Suc k + j)) [0 ..< m]" for m
        by (simp add: upt_conv_Cons map_Suc_upt [symmetric] del: upt_Suc)
      from Suc.IH [of "Suc k"] False consider
        "\<forall>j < n. \<exists>e. f (Suc k + j) = Inl e" "r = Some (f (Suc k + (n - 1)))" "ws = map (\<lambda>j. delay * 2 ^ (Suc k + j)) [0 ..< n - 1]"
      | j x where "j < n" "f (Suc k + j) = Inr x" "\<forall>i < j. \<exists>e. f (Suc k + i) = Inl e" "r = Some (f (Suc k + j))"
          "ws = map (\<lambda>i. delay * 2 ^ (Suc k + i)) [0 ..< j]"
        unfolding r by auto
      then show ?thesis
      proof cases
        case 1
        have "\<forall>j < Suc n. \<exists>e. f (k + j) = Inl e" using 1(1) Inl by (auto simp: less_Suc_eq_0_disj)
        moreover have "Suc k + (n - 1) = k + (Suc n - 1)" using False by simp
        moreover have "delay * 2 ^ k # ws = map (\<lambda>j. delay * 2 ^ (k + j)) [0 ..< Suc n - 1]"
          using sh [of "n - 1"] 1(3) False by simp
        ultimately show ?thesis unfolding go using 1(2) by (intro disjI1) simp
      next
        case 2
        have "\<forall>i < Suc j. \<exists>e. f (k + i) = Inl e" using 2(3) Inl by (auto simp: less_Suc_eq_0_disj)
        moreover have "delay * 2 ^ k # ws = map (\<lambda>i. delay * 2 ^ (k + i)) [0 ..< Suc j]" using sh [of j] 2(5) by simp
        ultimately show ?thesis unfolding go using 2(1,2,4) by (intro disjI2 exI [of _ "Suc j"]) simp
      qed
    qed (use Inl in \<open>intro disjI1; simp\<close>)
  qed
qed simp

section \<open>Witnesses\<close>

theorem resources_roundtrip_witness:
  "\<forall>s. st_resources (fst (snd (load_resource_definitions (Some 7)
       (Some (''s3270.font:mono'' @ [CHR 0x0A] @ ''s3270.model:3'' @ [CHR 0x0A])) (settings_init, s)))) = [(''font'', ''mono''), (''model'', ''3'')]"
proof
  fix s
  let ?kvs = "[(''font'', ''mono''), (''model'', ''3'')]"
  have l: "resource_file ?kvs = ''s3270.font:mono'' @ [CHR 0x0A] @ ''s3270.model:3'' @ [CHR 0x0A]"
    by (simp add: resource_file_def resource_line_def)
  obtain e t' s' where r: "load_resource_definitions (Some 7) (Some (resource_file ?kvs)) (settings_init, s) = (e, t', s')"
    by (metis prod.exhaust)
  have p: "\<forall>kv \<in> set ?kvs. plain_resource kv" by (simp add: plain_resource_def trimmed_def py_space_def)
  have "st_resources t' = ?kvs"
    using resources_roundtrip [OF p _ _ r] by (simp add: settings_init_def)
  then show "st_resources (fst (snd (load_resource_definitions (Some 7)
       (Some (''s3270.font:mono'' @ [CHR 0x0A] @ ''s3270.model:3'' @ [CHR 0x0A])) (settings_init, s)))) = ?kvs"
    using r unfolding l by simp
qed

definition demo_box_field :: field where
  "demo_box_field =
     \<lparr>f_start = (0, 2), f_end = (1, 1), f_protected = False, f_numeric = False, f_bypass = False, f_hidden = False,
      f_modified = False, f_selected = False, f_intensity = 0, f_color = 0, f_background = 0, f_validation = 0, f_outlining = 0,
      f_character_set = 0, f_sfe_highlight = 0, f_light_pen = 0, f_content = [], f_codepage = ''cp037''\<rparr>"

definition demo_box_screen :: screen where
  "demo_box_screen =
     (case ScreenBuffer_init 2 3 0x40 ''cp037'' of
        Inr s \<Rightarrow> s\<lparr>sfields := [demo_box_field]\<rparr>)"

theorem attributes_fill_rectangle_witness:
  "snd (set_field_attribute 0 ''color'' 0xF2 demo_box_screen) = demo_box_screen"
proof -
  obtain e s' where r: "set_field_attribute 0 ''color'' 0xF2 demo_box_screen = (e, s')" by (metis prod.exhaust)
  have w: "wf_screen demo_box_screen" "sfields demo_box_screen = [demo_box_field]"
    "ssize demo_box_screen = 6"
    by (simp_all add: demo_box_screen_def ScreenBuffer_init_def wf_screen_def wf_dims_def on_screen_def field_ok_def lex_le_def demo_box_field_def)
  show ?thesis using attributes_fill_rectangle [OF w(1) _ _ _ _ r, of 0] w r by (simp add: demo_box_field_def)
qed

end
