(* ===== verification/SyncSession.thy ===== *)
theory SyncSession
  imports SessionCommandProps
begin

text \<open>
  The synchronous \<open>Session\<close> of \<open>session.py\<close>: it makes an asynchronous session each time it connects and hands every
  command to it. Its thread with the event loop is left out; running a coroutine there is calling it.
\<close>

section \<open>The session\<close>

record sync_session =
  sy_host :: "string option"
  sy_port :: int
  sy_force :: string
  sy_fallback :: bool
  sy_terminal :: string
  sy_codepage :: string
  sy_async :: "async_session option"

text \<open>Only the type of the terminal is checked here; \<open>None\<close> is a \<open>ValueError\<close>.\<close>

definition Session_init :: "string option \<Rightarrow> int \<Rightarrow> string \<Rightarrow> bool \<Rightarrow> string \<Rightarrow> string \<Rightarrow> sync_session option" where
  "Session_init host port force fallback terminal page =
     (if \<not> is_valid_terminal_model terminal then None
      else Some \<lparr>sy_host = host, sy_port = port, sy_force = force, sy_fallback = fallback, sy_terminal = terminal,
             sy_codepage = page, sy_async = None\<rparr>)"

definition sync_connected :: "sync_session \<Rightarrow> bool" where
  "sync_connected s \<longleftrightarrow> (case sy_async s of None \<Rightarrow> False | Some a \<Rightarrow> session_connected a)"

text \<open>The session made here is kept when its connecting raises. One that was there before is dropped as it is.\<close>

definition sync_connect ::
    "codec_world \<Rightarrow> (byte \<Rightarrow> bytes option) \<Rightarrow> int \<Rightarrow> dialing \<Rightarrow> string option \<Rightarrow> int option
       \<Rightarrow> sync_session \<times> network_links \<Rightarrow> open_error option \<times> sync_session \<times> network_links" where
  "sync_connect w enc now d host port = (\<lambda>(s, nw).
     let s1 = s\<lparr>sy_host := (case host of None \<Rightarrow> sy_host s | h \<Rightarrow> h), sy_port := (case port of None \<Rightarrow> sy_port s | Some p \<Rightarrow> p)\<rparr>
     in case AsyncSession_init (sy_host s1) (sy_port s1) (sy_force s1) (sy_fallback s1) (sy_terminal s1) False ''cp037'' of
          None \<Rightarrow> (Some Oe_value, s1, nw)
        | Some a \<Rightarrow>
            (if session_connected a then (None, s1\<lparr>sy_async := Some a\<rparr>, nw)
             else case open_session w enc now d (a, nw) of (e, a1, nw1) \<Rightarrow> (e, s1\<lparr>sy_async := Some a1\<rparr>, nw1)))"

definition sync_open ::
    "codec_world \<Rightarrow> (byte \<Rightarrow> bytes option) \<Rightarrow> int \<Rightarrow> dialing \<Rightarrow> string \<Rightarrow> int
       \<Rightarrow> sync_session \<times> network_links \<Rightarrow> open_error option \<times> sync_session \<times> network_links" where
  "sync_open w enc now d host port = sync_connect w enc now d (Some host) (Some port)"

definition sync_close :: "int \<Rightarrow> bool \<Rightarrow> sync_session \<times> network_links \<Rightarrow> sync_session \<times> network_links" where
  "sync_close now raises = (\<lambda>(s, nw).
     case sy_async s of
       None \<Rightarrow> (s, nw)
     | Some a \<Rightarrow> (case close_session now raises (a, nw) of (a1, nw1) \<Rightarrow> (s\<lparr>sy_async := None\<rparr>, nw1)))"

definition sync_close_script :: "int \<Rightarrow> bool \<Rightarrow> sync_session \<times> network_links \<Rightarrow> sync_session \<times> network_links" where
  "sync_close_script now raises = (\<lambda>(s, nw).
     case sy_async s of
       None \<Rightarrow> (s, nw)
     | Some a \<Rightarrow> (case close_session now raises (a, nw) of (a1, nw1) \<Rightarrow> (s\<lparr>sy_async := Some a1\<rparr>, nw1)))"

text \<open>
  The decorator of most commands: without an asynchronous session it raises, one that is not connected is
  connected first. Other commands only ask for the asynchronous session.
\<close>

datatype sync_error = Sy_session | Sy_open open_error | Sy_value

definition require_connected_session ::
    "codec_world \<Rightarrow> (byte \<Rightarrow> bytes option) \<Rightarrow> int \<Rightarrow> dialing \<Rightarrow> (async_session \<times> network_links \<Rightarrow> 'a \<times> async_session \<times> network_links)
       \<Rightarrow> sync_session \<times> network_links \<Rightarrow> (sync_error + 'a) \<times> sync_session \<times> network_links" where
  "require_connected_session w enc now d f = (\<lambda>(s, nw).
     case sy_async s of
       None \<Rightarrow> (Inl Sy_session, s, nw)
     | Some a \<Rightarrow>
         (case (if session_connected a then (None, a, nw) else open_session w enc now d (a, nw)) of
            (Some e, a1, nw1) \<Rightarrow> (Inl (Sy_open e), s\<lparr>sy_async := Some a1\<rparr>, nw1)
          | (None, a1, nw1) \<Rightarrow> (case f (a1, nw1) of (x, a2, nw2) \<Rightarrow> (Inr x, s\<lparr>sy_async := Some a2\<rparr>, nw2))))"

definition require_async :: "(async_session \<Rightarrow> 'a \<times> async_session) \<Rightarrow> sync_session \<Rightarrow> (sync_error + 'a) \<times> sync_session" where
  "require_async f s =
     (case sy_async s of
        None \<Rightarrow> (Inl Sy_session, s)
      | Some a \<Rightarrow> (case f a of (x, a1) \<Rightarrow> (Inr x, s\<lparr>sy_async := Some a1\<rparr>)))"

section \<open>What it tells\<close>

definition sync_screen :: "sync_session \<Rightarrow> screen option" where
  "sync_screen s =
     (case sy_async s of
        None \<Rightarrow> (case ScreenBuffer_init 24 80 0x40 ''cp037'' of Inr scr \<Rightarrow> Some scr | Inl e \<Rightarrow> None)
      | Some a \<Rightarrow> Some (session_screen a))"

definition sync_input_inhibited :: "sync_session \<Rightarrow> bool" where
  "sync_input_inhibited s = (case sy_async s of None \<Rightarrow> False | Some a \<Rightarrow> kbd_locked (session_screen a))"

text \<open>The handler it falls back to is an attribute that it does not have.\<close>

definition sync_tn3270e_mode :: "sync_session \<Rightarrow> bool" where
  "sync_tn3270e_mode s = (case sy_async s of None \<Rightarrow> False | Some a \<Rightarrow> session_tn3270_mode None a)"

text \<open>No method for a single type of query exists.\<close>

definition sync_query :: "string \<Rightarrow> sync_session \<Rightarrow> sync_error + string" where
  "sync_query kind s = (if sy_async s = None then Inl Sy_session else Inr (''Unknown query type: '' @ kind))"

definition async_query :: "string \<Rightarrow> async_session \<Rightarrow> string" where
  "async_query kind a =
     (if lower kind = ''all'' then ''Connected: '' @ (if session_connected a then ''True'' else ''False'') else [])"

definition async_info :: "async_session \<Rightarrow> string" where
  "async_info a =
     ''Connected: '' @ (if session_connected a then ''True'' else ''False'') @ '' (status: ''
       @ (if session_connected a then ''connected'' else ''disconnected'') @ '')''"

definition sync_info :: "sync_session \<Rightarrow> string" where
  "sync_info s = (case sy_async s of None \<Rightarrow> ''pure3270 session: not initialized'' | Some a \<Rightarrow> async_info a)"

section \<open>Conversions and positions\<close>

definition sync_ascii1 :: "codec_world \<Rightarrow> int \<Rightarrow> codec_error + unicode" where
  "sync_ascii1 w v = map_sum id (take 1) (translate_ebcdic_to_ascii w ''cp037'' [word_of_int v])"

definition sync_ebcdic1 :: "codec_world \<Rightarrow> unicode \<Rightarrow> codec_error + int option" where
  "sync_ebcdic1 w str =
     (if str = [] then Inr None
      else map_sum id (\<lambda>bs. Some (uint (hd bs))) (translate_ascii_to_ebcdic w ''cp037'' (take 1 str)))"

definition async_ascii1 :: "int \<Rightarrow> unicode" where
  "async_ascii1 v = [v]"

definition async_ebcdic1 :: "unicode \<Rightarrow> int option" where
  "async_ebcdic1 str = (case str of [c] \<Rightarrow> Some c | _ \<Rightarrow> None)"

text \<open>Positions counted from one are passed on as if they were counted from zero.\<close>

definition sync_move_cursor1 :: "int \<Rightarrow> int \<Rightarrow> screen \<Rightarrow> screen" where
  "sync_move_cursor1 row col = move_cursor_to row col"

definition sync_hex_string :: "string \<Rightarrow> sync_session \<Rightarrow> sync_error option \<times> sync_session" where
  "sync_hex_string hex s =
     (if sy_async s = None then (Some Sy_session, s)
      else case fromhex hex of None \<Rightarrow> (Some Sy_value, s) | Some bs \<Rightarrow> (None, s))"

section \<open>Properties\<close>

text \<open>
  Connecting again. A session that is connected a second time forgets the first one, whose two links stay open
  for good; closing closes the last of the four links.
\<close>

lemma second_connect_leaks:
  assumes "sync_connect w enc now d h p (s, nw) = (None, s1, nw1)" and "sync_connect w enc now2 d2 h2 p2 (s1, nw1) = (None, s2, nw2)"
    and "sync_close now3 raises (s2, nw2) = (s3, nw3)" and "sy_force s = []" and "dl_second d = Dialled" and "dl_second d2 = Dialled"
    and "\<forall>l \<in> nt_open nw. l < nt_next nw"
  shows "nt_open nw3 = nt_open nw \<union> {nt_next nw, nt_next nw + 1, nt_next nw + 2} \<and> sy_async s3 = None"
proof -
  have step: "\<exists>a b. open_session w enc t d (a, nw) = (None, b, nw') \<and> as_force a = [] \<and> sy_async s' = Some b \<and> sy_force s' = []"
    if "sync_connect w enc t d h p (s, nw) = (None, s', nw')" "sy_force s = []" for t d h p s nw s' nw'
  proof -
    let ?init = "AsyncSession_init (case h of None \<Rightarrow> sy_host s | h \<Rightarrow> h) (case p of None \<Rightarrow> sy_port s | Some p \<Rightarrow> p) []
        (sy_fallback s) (sy_terminal s) False ''cp037''"
    from that obtain a where a: "?init = Some a"
      by (cases ?init) (simp_all add: sync_connect_def Let_def)
    then have "as_force a = []" "\<not> session_connected a"
      by (auto simp: AsyncSession_init_def session_connected_def split: if_splits prod.splits sum.splits)
    with that a show ?thesis by (auto simp: sync_connect_def Let_def split: prod.splits)
  qed
  obtain a b where 1: "open_session w enc now d (a, nw) = (None, b, nw1)" "as_force a = []" "sy_force s1 = []"
    using step [OF assms(1,4)] by blast
  obtain a2 b2 where 2: "open_session w enc now2 d2 (a2, nw1) = (None, b2, nw2)" "as_force a2 = []" "sy_async s2 = Some b2"
    using step [OF assms(2) 1(3)] by blast
  note l1 = links_after_open(1) [OF 1(1,2) assms(5)] and l2 = links_after_open [OF 2(1,2) assms(6)]
  obtain c where c: "as_handler b2 = Some c" "cn_transport c = Some (Some (nt_next nw1 + 1))" using l2(2) by blast
  obtain b3 where b3: "close_session now3 raises (b2, nw2) = (b3, nw3)" "sy_async s3 = None"
    using assms(3) 2(3) by (auto simp: sync_close_def split: prod.splits)
  from links_after_close [OF b3(1) c] have "nt_open nw3 = nt_open nw2 - {nt_next nw1 + 1}" by blast
  with l1 l2(1) b3(2) assms(7) show ?thesis by (auto simp: open_link_def)
qed

text \<open>The two sessions disagree on positions counted from one and on single characters.\<close>

lemma positions_from_one:
  assumes "0 < r" and "0 < c"
  shows "sync_move_cursor1 r c s = move_cursor1 (r + 1) (c + 1) s"
  using assms by (simp add: sync_move_cursor1_def move_cursor1_def move_cursor_to_def)

lemma single_characters: "async_ascii1 0xC1 = [0xC1]" "async_ebcdic1 [65] = Some 65"
  by (simp_all add: async_ascii1_def async_ebcdic1_def)

section \<open>Witness\<close>

definition demo_sync :: sync_session where
  "demo_sync =
     \<lparr>sy_host = Some ''host'', sy_port = 23, sy_force = [], sy_fallback = True, sy_terminal = ''IBM-3278-2'',
      sy_codepage = ''cp037'', sy_async = None\<rparr>"

lemma demo_sync_connects:
  "\<exists>b nw'. sync_connect bare_world (\<lambda>_. None) 0 (demo_dialing Dialled) None None (demo_sync\<lparr>sy_async := x\<rparr>, nw)
     = (None, demo_sync\<lparr>sy_async := Some b\<rparr>, nw')"
proof -
  have v: "is_valid_terminal_model ''IBM-3278-2''" by code_simp
  obtain a where a: "AsyncSession_init (Some ''host'') 23 [] True ''IBM-3278-2'' False ''cp037'' = Some a" "as_host a \<noteq> None"
    "as_fallback a" "as_force a = []" "as_terminal a = ''IBM-3278-2''" "\<not> session_connected a"
    by (simp add: AsyncSession_init_def v demo_size ScreenBuffer_init_def validate_force_mode_def session_connected_def)
  obtain b nw' where "open_session bare_world (\<lambda>_. None) 0 (demo_dialing Dialled) (a, nw) = (None, b, nw')"
    using session_opens [of a "demo_dialing Dialled" 24 80 bare_world "\<lambda>_. None" 0 nw] a demo_size by (auto simp: demo_dialing_def)
  with a show ?thesis by (intro exI [of _ b] exI [of _ nw']) (simp add: sync_connect_def demo_sync_def Let_def)
qed

end
