(* ===== verification/Snapshots.thy ===== *)
theory Snapshots
  imports ScreenProps
begin

text \<open>
  \<open>emulation/snapshot.py\<close>: snapshots of a screen, the screen made from one, and their comparison. Bytes in base64
  and positions as text are kept as bytes and pairs; the dictionary forms and JSON hold the same data. A snapshot is
  given the time it is taken at, as text.
\<close>

section \<open>Snapshots\<close>

record saved_field =
  sv_start :: "int \<times> int"
  sv_end :: "int \<times> int"
  sv_protected :: bool
  sv_numeric :: bool
  sv_modified :: bool
  sv_selected :: bool
  sv_intensity :: int
  sv_color :: int
  sv_background :: int
  sv_validation :: int
  sv_outlining :: int
  sv_character_set :: int
  sv_sfe_highlight :: int
  sv_content :: bytes

record saved_screen =
  sp_time :: string
  sp_ascii :: bool
  sp_rows :: int
  sp_cols :: int
  sp_buffer :: bytes
  sp_attributes :: bytes
  sp_cursor :: "int \<times> int"
  sp_ext :: "((int \<times> int) \<times> attr_dict) list"
  sp_fields :: "saved_field list"

definition save_field :: "field \<Rightarrow> saved_field" where
  "save_field f =
     \<lparr>sv_start = f_start f, sv_end = f_end f, sv_protected = f_protected f, sv_numeric = f_numeric f,
      sv_modified = f_modified f, sv_selected = f_selected f, sv_intensity = f_intensity f, sv_color = f_color f,
      sv_background = f_background f, sv_validation = f_validation f, sv_outlining = f_outlining f,
      sv_character_set = f_character_set f, sv_sfe_highlight = f_sfe_highlight f, sv_content = f_content f\<rparr>"

definition restore_field :: "saved_field \<Rightarrow> field" where
  "restore_field v =
     Field_init
       \<lparr>f_start = sv_start v, f_end = sv_end v, f_protected = sv_protected v, f_numeric = sv_numeric v, f_bypass = False,
        f_hidden = False, f_modified = sv_modified v, f_selected = sv_selected v, f_intensity = sv_intensity v,
        f_color = sv_color v, f_background = sv_background v, f_validation = sv_validation v, f_outlining = sv_outlining v,
        f_character_set = sv_character_set v, f_sfe_highlight = sv_sfe_highlight v, f_light_pen = 0,
        f_content = sv_content v, f_codepage = ''cp037''\<rparr>"

fun save_ext :: "ext_attrs \<Rightarrow> py_error + ((int \<times> int) \<times> attr_dict) list" where
  "save_ext [] = Inr []"
| "save_ext ((rc, a) # es) =
     (case aset_to_dict a of
        Inl e \<Rightarrow> Inl e
      | Inr d \<Rightarrow> map_sum id (\<lambda>ds. (rc, d) # ds) (save_ext es))"

definition ScreenSnapshot_init :: "string \<Rightarrow> screen \<Rightarrow> py_error + saved_screen" where
  "ScreenSnapshot_init now s =
     map_sum id (\<lambda>ext.
       \<lparr>sp_time = now, sp_ascii = ascii_mode s, sp_rows = rows s, sp_cols = cols s, sp_buffer = buffer s,
        sp_attributes = attributes s, sp_cursor = (cursor_row s, cursor_col s), sp_ext = ext,
        sp_fields = map save_field (sfields s)\<rparr>) (save_ext (extended_attributes s))"

definition set_saved_attributes :: "(int \<times> int) \<times> attr_dict \<Rightarrow> screen \<Rightarrow> screen" where
  "set_saved_attributes = (\<lambda>(rc, d) s. fold (\<lambda>(t, a). set_extended_attribute (fst rc) (snd rc) t (attr_value a)) d s)"

definition to_screen_buffer :: "saved_screen \<Rightarrow> py_error + screen" where
  "to_screen_buffer p =
     map_sum id (\<lambda>s.
       let s1 = (set_ascii_mode (sp_ascii p) s)
             \<lparr>buffer := sp_buffer p, attributes := sp_attributes p,
              cursor_row := fst (sp_cursor p), cursor_col := snd (sp_cursor p)\<rparr>
       in (fold set_saved_attributes (sp_ext p) s1)\<lparr>sfields := map restore_field (sp_fields p)\<rparr>)
     (ScreenBuffer_init (sp_rows p) (sp_cols p) 0x40 ''cp037'')"

text \<open>A snapshot in the other mode; the screen has its own mode again afterwards.\<close>

definition snapshot_in_mode :: "bool \<Rightarrow> string \<Rightarrow> screen \<Rightarrow> (py_error + saved_screen) \<times> screen" where
  "snapshot_in_mode m now s =
     (let s1 = set_ascii_mode m s in (ScreenSnapshot_init now s1, set_ascii_mode (ascii_mode s) s1))"

section \<open>Comparing\<close>

text \<open>Dictionaries are equal whatever the order of their entries.\<close>

definition same_ext :: "((int \<times> int) \<times> attr_dict) list \<Rightarrow> ((int \<times> int) \<times> attr_dict) list \<Rightarrow> bool" where
  "same_ext a b \<longleftrightarrow> length a = length b
     \<and> list_all (\<lambda>(rc, d). case map_of b rc of Some d' \<Rightarrow> set d = set d' | None \<Rightarrow> False) a"

definition differences :: "saved_screen \<Rightarrow> saved_screen \<Rightarrow> string list" where
  "differences p q =
     (if (sp_time p, sp_ascii p, sp_rows p, sp_cols p) \<noteq> (sp_time q, sp_ascii q, sp_rows q, sp_cols q) then [''metadata''] else [])
     @ (if sp_buffer p \<noteq> sp_buffer q then [''buffer''] else [])
     @ (if sp_attributes p \<noteq> sp_attributes q then [''attributes''] else [])
     @ (if sp_cursor p \<noteq> sp_cursor q then [''cursor''] else [])
     @ (if \<not> same_ext (sp_ext p) (sp_ext q) then [''extended_attributes''] else [])
     @ (if length (sp_fields p) \<noteq> length (sp_fields q) then [''fields_count'']
        else if sp_fields p \<noteq> sp_fields q then [''fields''] else [])"

definition is_identical :: "saved_screen \<Rightarrow> saved_screen \<Rightarrow> bool" where
  "is_identical p q \<longleftrightarrow> differences p q = []"

definition has_differences :: "saved_screen \<Rightarrow> saved_screen \<Rightarrow> bool" where
  "has_differences p q \<longleftrightarrow> \<not> is_identical p q"

definition get_buffer_diff_positions :: "saved_screen \<Rightarrow> saved_screen \<Rightarrow> (int \<times> int \<times> byte \<times> byte) list" where
  "get_buffer_diff_positions p q =
     (if ''buffer'' \<notin> set (differences p q) then []
      else map (\<lambda>(i, a, b). (int i div sp_cols p, int i mod sp_cols p, a, b))
             (filter (\<lambda>(i, a, b). a \<noteq> b) (enumerate 0 (zip (sp_buffer p) (sp_buffer q)))))"

text \<open>Three bytes at a time; the bytes reported are the first ones of the position. \<open>None\<close> is an \<open>IndexError\<close>.\<close>

definition attribute_triple :: "bytes \<Rightarrow> nat \<Rightarrow> bytes" where
  "attribute_triple a i = take 3 (drop (3 * i) a)"

definition get_attribute_diff_positions :: "saved_screen \<Rightarrow> saved_screen \<Rightarrow> (int \<times> int \<times> byte \<times> byte) list option" where
  "get_attribute_diff_positions p q =
     (if ''attributes'' \<notin> set (differences p q) then Some []
      else let a = sp_attributes p; b = sp_attributes q;
               is = filter (\<lambda>i. attribute_triple a i \<noteq> attribute_triple b i) [0 ..< (length a + 2) div 3]
           in if \<exists>i \<in> set is. length b \<le> 3 * i then None
              else Some (map (\<lambda>i. (int (3 * i) div (sp_cols p * 3), int (3 * i) mod (sp_cols p * 3) div 3, a ! (3 * i), b ! (3 * i))) is))"

datatype field_change = Modified_or_added | Modified_or_removed

definition get_field_differences :: "saved_screen \<Rightarrow> saved_screen \<Rightarrow> (nat \<times> field_change \<times> saved_field) list" where
  "get_field_differences p q =
     (if ''fields'' \<notin> set (differences p q) then []
      else let f1 = sp_fields p; f2 = sp_fields q;
               added = fold (\<lambda>(i, f) d. if i \<ge> length f1 \<or> f \<noteq> f1 ! i then AList.update i (Modified_or_added, f) d else d)
                         (enumerate 0 f2) []
           in fold (\<lambda>(i, f) d. if i \<ge> length f2 \<or> f \<noteq> f2 ! i then AList.update i (Modified_or_removed, f) d else d)
                (enumerate 0 f1) added)"

section \<open>Restoring\<close>

lemma save_restore_field: "lex_le (f_start f) (f_end f) \<Longrightarrow> save_field (restore_field (save_field f)) = save_field f"
  by (simp add: save_field_def restore_field_def Field_init_def)

text \<open>Attributes that come back as they were: valid ones of their own class, a validation without limits.\<close>

definition plain_attr :: "attr \<Rightarrow> bool" where
  "plain_attr a = (case a of ValAttr v mn mx cu \<Rightarrow> mn = None \<and> mx = None \<and> \<not> cu | _ \<Rightarrow> True)"

definition plain_attributes :: "attr_set \<Rightarrow> bool" where
  "plain_attributes d \<longleftrightarrow> d \<noteq> [] \<and> aset_typed d \<and> (\<forall>(t, a) \<in> set d. plain_attr a)"

lemma wrap_plain:
  assumes "attr_ok a" and "attr_mapper t = Some c" and "attr_class_of a = Some c" and "plain_attr a"
  shows "wrap_raw t (attr_value a) = a"
  using assms
  by (cases a; cases c; auto simp: wrap_raw_def make_attr_def validate_and_normalize_def normalize_color_def
      normalize_highlight_def normalize_validation_def normalize_outlining_def normalize_background_def
      normalize_light_pen_def normalize_named_def normalize_charset_def attr_ok_def plain_attr_def)

text \<open>What the restoring of attributes leaves alone.\<close>

definition same_picture :: "screen \<Rightarrow> screen \<Rightarrow> bool" where
  "same_picture s s' \<longleftrightarrow> rows s' = rows s \<and> cols s' = cols s \<and> buffer s' = buffer s \<and> attributes s' = attributes s
     \<and> cursor_row s' = cursor_row s \<and> cursor_col s' = cursor_col s \<and> ascii_mode s' = ascii_mode s"

lemma set_extended_picture: "same_picture s (set_extended_attribute r c t v s)"
  by (simp add: same_picture_def set_extended_attribute_def Let_def)

lemma set_extended_effect:
  assumes "on_screen s rc"
  shows "extended_attributes (set_extended_attribute (fst rc) (snd rc) t v s) = put_ext_attr rc t v (extended_attributes s)"
    and "field_starts (set_extended_attribute (fst rc) (snd rc) t v s) = insert (linear s rc) (field_starts s)"
  using assms by (simp_all add: set_extended_attribute_def on_screen_def Let_def linear_def)

lemma same_picture_trans: "same_picture a b \<Longrightarrow> same_picture b c \<Longrightarrow> same_picture a c"
  by (simp add: same_picture_def)

lemma same_picture_screen: "same_picture a b \<Longrightarrow> on_screen b rc = on_screen a rc \<and> linear b rc = linear a rc"
  by (simp add: same_picture_def on_screen_def linear_def)

lemma restore_attribute_set:
  assumes "on_screen s rc" and "aset_typed (acc @ d)" and "\<forall>(t, a) \<in> set d. plain_attr a" and "d \<noteq> []"
    and "(case map_of (extended_attributes s) rc of None \<Rightarrow> [] | Some x \<Rightarrow> x) = acc"
    and "s' = fold (\<lambda>(t, a). set_extended_attribute (fst rc) (snd rc) t (attr_value a)) d s"
  shows "same_picture s s' \<and> extended_attributes s' = AList.update rc (acc @ d) (extended_attributes s)
       \<and> field_starts s' = insert (linear s rc) (field_starts s)"
  using assms
proof (induction d arbitrary: s acc)
  case (Cons p d)
  obtain t a where p: "p = (t, a)" by (cases p)
  let ?s1 = "set_extended_attribute (fst rc) (snd rc) t (attr_value a) s"
  from Cons.prems(2) p have ok: "attr_ok a" "attr_class_of a = attr_mapper t" "attr_class_of a \<noteq> None" "t \<notin> fst ` set acc"
    by (auto simp: aset_typed_def)
  then obtain c where "attr_mapper t = Some c" "attr_class_of a = Some c" by auto
  with ok(1) Cons.prems(3) p have w: "wrap_raw t (attr_value a) = a" by (auto intro: wrap_plain)
  have x: "extended_attributes ?s1 = AList.update rc (acc @ [(t, a)]) (extended_attributes s)"
    using set_extended_effect(1) [OF Cons.prems(1)] Cons.prems(5) ok(4)
    by (simp add: put_ext_attr_def aset_set_def w update_append_new)
  note f = set_extended_effect(2) [OF Cons.prems(1), of t "attr_value a"]
  note q = set_extended_picture [of s "fst rc" "snd rc" t "attr_value a"]
  show ?case
  proof (cases "d = []")
    case True
    with x f q Cons.prems(6) p show ?thesis by simp
  next
    case False
    have "same_picture ?s1 s' \<and> extended_attributes s' = AList.update rc ((acc @ [(t, a)]) @ d) (extended_attributes ?s1)
       \<and> field_starts s' = insert (linear ?s1 rc) (field_starts ?s1)"
    proof (rule Cons.IH)
      show "on_screen ?s1 rc" using Cons.prems(1) same_picture_screen [OF q] by blast
      show "aset_typed ((acc @ [(t, a)]) @ d)" using Cons.prems(2) p by simp
      show "\<forall>(t, a) \<in> set d. plain_attr a" using Cons.prems(3) by simp
      show "(case map_of (extended_attributes ?s1) rc of None \<Rightarrow> [] | Some x \<Rightarrow> x) = acc @ [(t, a)]" by (simp add: x update_conv')
      show "s' = fold (\<lambda>(t, a). set_extended_attribute (fst rc) (snd rc) t (attr_value a)) d ?s1" using Cons.prems(6) p by simp
    qed (rule False)
    with x f q same_picture_screen [OF q] p same_picture_trans [OF q] show ?thesis by (auto simp: update_last)
  qed
qed simp

lemma restore_attributes:
  assumes "\<forall>(rc, d) \<in> set es. on_screen s rc \<and> plain_attributes d" and "distinct (map fst (extended_attributes s @ es))"
  shows "same_picture s (fold set_saved_attributes es s) \<and> extended_attributes (fold set_saved_attributes es s) = extended_attributes s @ es
       \<and> field_starts (fold set_saved_attributes es s) = field_starts s \<union> linear s ` fst ` set es"
  using assms
proof (induction es arbitrary: s)
  case Nil
  then show ?case by (simp add: same_picture_def)
next
  case (Cons e es)
  obtain rc d where e: "e = (rc, d)" by (cases e)
  let ?s1 = "set_saved_attributes (rc, d) s"
  have new: "rc \<notin> fst ` set (extended_attributes s)" using Cons.prems(2) e by auto
  then have "map_of (extended_attributes s) rc = None" by (simp add: map_of_eq_None_iff)
  moreover have "on_screen s rc" "aset_typed d" "\<forall>(t, a) \<in> set d. plain_attr a" "d \<noteq> []"
    using Cons.prems(1) e by (auto simp: plain_attributes_def)
  ultimately have 1: "same_picture s ?s1" "extended_attributes ?s1 = extended_attributes s @ [(rc, d)]"
    "field_starts ?s1 = insert (linear s rc) (field_starts s)"
    using restore_attribute_set [of s rc "[]" d ?s1] new by (simp_all add: set_saved_attributes_def update_append_new)
  have l: "linear ?s1 = linear s" using same_picture_screen [OF 1(1)] by blast
  have "\<forall>(rc, d) \<in> set es. on_screen ?s1 rc \<and> plain_attributes d" using Cons.prems(1) same_picture_screen [OF 1(1)] by simp
  moreover have "distinct (map fst (extended_attributes ?s1 @ es))" using Cons.prems(2) e 1(2) by simp
  ultimately show ?case using Cons.IH [of ?s1] 1 e l same_picture_trans [OF 1(1)] by auto
qed

lemma save_ext_plain: "\<forall>(rc, d) \<in> set es. plain_attributes d \<Longrightarrow> save_ext es = Inr es"
  by (induction es rule: save_ext.induct) (auto simp: aset_to_dict_typed plain_attributes_def)

text \<open>
  C18. A screen made from a snapshot shows the same picture: its own snapshot is the one it was made from. It is not
  the same screen, though. The starts of fields are not saved: those of the new screen are the positions that have
  extended attributes, so the next detection of fields loses all others, and with them their protection.
\<close>

theorem snapshot_roundtrip:
  assumes "wf_screen s" and "distinct (map fst (extended_attributes s))"
    and "\<forall>(rc, d) \<in> set (extended_attributes s). on_screen s rc \<and> plain_attributes d"
  shows "\<exists>p s'. ScreenSnapshot_init now s = Inr p \<and> to_screen_buffer p = Inr s' \<and> ScreenSnapshot_init now s' = Inr p
       \<and> field_starts s' = linear s ` fst ` set (extended_attributes s)"
proof -
  have ext: "save_ext (extended_attributes s) = Inr (extended_attributes s)" using save_ext_plain assms(3) by blast
  obtain p where p: "ScreenSnapshot_init now s = Inr p" "sp_rows p = rows s" "sp_cols p = cols s" "sp_ascii p = ascii_mode s"
    "sp_buffer p = buffer s" "sp_attributes p = attributes s" "sp_cursor p = (cursor_row s, cursor_col s)"
    "sp_ext p = extended_attributes s" "sp_fields p = map save_field (sfields s)"
    by (simp add: ScreenSnapshot_init_def ext)
  obtain s0 where s0: "ScreenBuffer_init (rows s) (cols s) 0x40 ''cp037'' = Inr s0" "rows s0 = rows s" "cols s0 = cols s"
    "extended_attributes s0 = []" "field_starts s0 = {}"
    using wf_screen_pos [OF assms(1)] by (auto simp: ScreenBuffer_init_def)
  let ?s1 = "(set_ascii_mode (ascii_mode s) s0)\<lparr>buffer := buffer s, attributes := attributes s,
      cursor_row := cursor_row s, cursor_col := cursor_col s\<rparr>"
  let ?s2 = "fold set_saved_attributes (extended_attributes s) ?s1"
  have on: "on_screen ?s1 rc = on_screen s rc" "linear ?s1 rc = linear s rc" for rc
    using s0 by (simp_all add: on_screen_def linear_def set_ascii_mode_def)
  have r: "same_picture ?s1 ?s2" "extended_attributes ?s2 = extended_attributes s"
    "field_starts ?s2 = linear s ` fst ` set (extended_attributes s)"
    using restore_attributes [of "extended_attributes s" ?s1] assms(2,3) s0 on by (auto simp: set_ascii_mode_def)
  let ?s' = "?s2\<lparr>sfields := map restore_field (map save_field (sfields s))\<rparr>"
  have "to_screen_buffer p = Inr ?s'" using p s0 by (simp add: to_screen_buffer_def Let_def)
  moreover have m: "map save_field (map restore_field (map save_field (sfields s))) = map save_field (sfields s)"
    using assms(1) by (auto simp: wf_screen_def field_ok_def intro: save_restore_field)
  have same: "ScreenSnapshot_init now (s2\<lparr>sfields := map restore_field (map save_field (sfields s))\<rparr>) = ScreenSnapshot_init now s"
    if "rows s2 = rows s" "cols s2 = cols s" "buffer s2 = buffer s" "attributes s2 = attributes s" "cursor_row s2 = cursor_row s"
      "cursor_col s2 = cursor_col s" "ascii_mode s2 = ascii_mode s" "extended_attributes s2 = extended_attributes s" for s2
    by (simp add: ScreenSnapshot_init_def that m del: map_map)
  have "ScreenSnapshot_init now ?s' = ScreenSnapshot_init now s"
    using r s0 by (intro same) (simp_all add: same_picture_def set_ascii_mode_def)
  ultimately show ?thesis using p(1) r(3) by (intro exI [of _ p] exI [of _ ?s']) simp
qed

text \<open>Two snapshots of the same screen differ when they were taken at different times, and then in nothing else.\<close>

lemma same_ext_refl: "distinct (map fst a) \<Longrightarrow> same_ext a a"
  by (auto simp: same_ext_def list_all_iff)

lemma save_ext_keys: "save_ext es = Inr ds \<Longrightarrow> map fst ds = map fst es"
proof (induction es arbitrary: ds)
  case (Cons e es)
  obtain rc a where e: "e = (rc, a)" by (cases e)
  with Cons.prems obtain d where d: "aset_to_dict a = Inr d" by (cases "aset_to_dict a") simp_all
  with Cons.prems e obtain ds' where ds': "save_ext es = Inr ds'" by (cases "save_ext es") simp_all
  with Cons.prems d e Cons.IH [OF ds'] show ?case by auto
qed simp

lemma snapshots_of_one_screen:
  assumes "ScreenSnapshot_init t s = Inr p" and "ScreenSnapshot_init t' s = Inr q" and "distinct (map fst (extended_attributes s))"
  shows "differences p q = (if t = t' then [] else [''metadata''])"
proof -
  obtain ds where ds: "save_ext (extended_attributes s) = Inr ds"
    using assms(1) by (cases "save_ext (extended_attributes s)") (auto simp: ScreenSnapshot_init_def)
  then have "same_ext ds ds" using save_ext_keys assms(3) by (intro same_ext_refl) simp
  moreover have "sp_time x = u \<and> sp_ascii x = ascii_mode s \<and> sp_rows x = rows s \<and> sp_cols x = cols s \<and> sp_buffer x = buffer s
      \<and> sp_attributes x = attributes s \<and> sp_cursor x = (cursor_row s, cursor_col s) \<and> sp_ext x = ds
      \<and> sp_fields x = map save_field (sfields s)" if "ScreenSnapshot_init u s = Inr x" for u x
    using that ds by (auto simp: ScreenSnapshot_init_def)
  note this [OF assms(1)] this [OF assms(2)]
  ultimately show ?thesis by (simp add: differences_def)
qed

text \<open>Fields that were added or removed are never reported, only fields at an index that both snapshots have.\<close>

lemma fields_differ_in_place:
  assumes "''fields'' \<in> set (differences p q)"
  shows "length (sp_fields p) = length (sp_fields q)"
proof -
  have no: "''fields'' \<notin> set (if b then [x] else [])" if "x \<noteq> ''fields''" for b and x :: string using that by simp
  show ?thesis using assms unfolding differences_def set_append Un_iff
    by (elim disjE) (simp_all add: no split: if_splits)
qed

lemma changed_fields_only:
  assumes "(i, c, f) \<in> set (get_field_differences p q)"
  shows "length (sp_fields p) = length (sp_fields q)"
  using assms fields_differ_in_place [of p q] by (cases "''fields'' \<in> set (differences p q)") (simp_all add: get_field_differences_def)

section \<open>Witness\<close>

definition demo_snap_screen :: screen where
  "demo_snap_screen =
     (case ScreenBuffer_init 2 3 0x40 ''cp037'' of
        Inr s \<Rightarrow> s\<lparr>buffer := [0xC1, 0x40, 0x40, 0xC2, 0x40, 0x40], field_starts := {0, 4},
                   extended_attributes := [((0, 0), [(''color'', Attr ColorA 4), (''highlight'', Attr HighlightA 1)])]\<rparr>)"

theorem snapshot_roundtrip_witness:
  "\<exists>p s'. ScreenSnapshot_init ''now'' demo_snap_screen = Inr p \<and> to_screen_buffer p = Inr s'
     \<and> ScreenSnapshot_init ''now'' s' = Inr p \<and> field_starts s' = {0}"
proof -
  have e: "extended_attributes demo_snap_screen = [((0, 0), [(''color'', Attr ColorA 4), (''highlight'', Attr HighlightA 1)])]"
    by (simp add: demo_snap_screen_def ScreenBuffer_init_def)
  have w: "wf_screen demo_snap_screen" "on_screen demo_snap_screen (0, 0)"
    by (simp_all add: demo_snap_screen_def ScreenBuffer_init_def wf_screen_def wf_dims_def on_screen_def)
  have "plain_attributes [(''color'', Attr ColorA 4), (''highlight'', Attr HighlightA 1)]"
    by (simp add: plain_attributes_def plain_attr_def aset_typed_def attr_ok_def attr_mapper_def)
  with snapshot_roundtrip [of demo_snap_screen "''now''"] w e show ?thesis by (simp add: linear_def)
qed

end
