(* ===== verification/LuLuSession.thy ===== *)
theory LuLuSession
  imports Keyboard SenderProps ParseProps
begin

text \<open>
  \<open>lu_lu_session.py\<close>: a session between two applications, which sends its messages through the terminal session. What
  arrives for it during a wait is an argument.
\<close>

section \<open>The session\<close>

record lu_lu =
  ll_name :: "string option"
  ll_active :: bool
  ll_queue :: "bytes list"

definition LuLuSession_init :: lu_lu where
  "LuLuSession_init = \<lparr>ll_name = None, ll_active = False, ll_queue = []\<rparr>"

definition create_bind_image_data :: bytes where
  "create_bind_image_data = [0x01, 0x04, 0x00, 0x18, 0x50] @ [0x02, 0x03, 0x81, 0x84, 0x85]"

text \<open>The length counts the four bytes in front of the data; what does not fit into two bytes is cut off.\<close>

definition lu_lu_field :: "byte \<Rightarrow> byte \<Rightarrow> bytes \<Rightarrow> bytes" where
  "lu_lu_field marker kind data =
     (let n = int (length data) + 4 in [marker, word_of_int (n div 256), word_of_int (n mod 256), kind] @ data)"

definition bind_message :: bytes where
  "bind_message = lu_lu_field 0x3C 0x03 create_bind_image_data"

definition unbind_message :: bytes where
  "unbind_message = lu_lu_field 0x3C 0x04 [0x01]"

definition outbound_3270ds :: "bytes \<Rightarrow> bytes" where
  "outbound_3270ds data = lu_lu_field 0x88 0x40 data"

datatype lu_lu_error = Ll_inactive | Ll_send session_error

definition lu_lu_start :: "client \<Rightarrow> string \<Rightarrow> lu_lu \<times> session \<Rightarrow> lu_lu_error option \<times> lu_lu \<times> session" where
  "lu_lu_start cl name = (\<lambda>(l, s).
     let l1 = l\<lparr>ll_name := Some name\<rparr>
     in case session_send cl bind_message s of
          (Some e, s1) \<Rightarrow> (Some (Ll_send e), l1, s1)
        | (None, s1) \<Rightarrow> (None, l1\<lparr>ll_active := True\<rparr>, s1))"

definition lu_lu_end :: "client \<Rightarrow> lu_lu \<times> session \<Rightarrow> lu_lu_error option \<times> lu_lu \<times> session" where
  "lu_lu_end cl = (\<lambda>(l, s).
     if \<not> ll_active l then (None, l, s)
     else case session_send cl unbind_message s of
            (Some e, s1) \<Rightarrow> (Some (Ll_send e), l, s1)
          | (None, s1) \<Rightarrow> (None, l\<lparr>ll_active := False, ll_name := None, ll_queue := []\<rparr>, s1))"

definition lu_lu_send_data :: "client \<Rightarrow> bytes \<Rightarrow> lu_lu \<times> session \<Rightarrow> lu_lu_error option \<times> lu_lu \<times> session" where
  "lu_lu_send_data cl data = (\<lambda>(l, s).
     if \<not> ll_active l then (Some Ll_inactive, l, s)
     else case session_send cl (outbound_3270ds data) s of (e, s1) \<Rightarrow> (map_option Ll_send e, l, s1))"

definition handle_inbound_3270ds :: "bytes \<Rightarrow> lu_lu \<Rightarrow> lu_lu" where
  "handle_inbound_3270ds data l = (if ll_active l then l\<lparr>ll_queue := ll_queue l @ [data]\<rparr> else l)"

text \<open>The empty data stand for a wait in which nothing came.\<close>

definition lu_lu_receive_data :: "bytes list \<Rightarrow> lu_lu \<Rightarrow> (lu_lu_error + bytes) \<times> lu_lu" where
  "lu_lu_receive_data during l =
     (if \<not> ll_active l then (Inl Ll_inactive, l)
      else let l1 = (if ll_queue l = [] then fold handle_inbound_3270ds during l else l)
           in case ll_queue l1 of
                [] \<Rightarrow> (Inr [], l1)
              | d # ds \<Rightarrow> (Inr d, l1\<lparr>ll_queue := ds\<rparr>))"

definition get_session_info :: "lu_lu \<Rightarrow> string option \<times> bool \<times> nat" where
  "get_session_info l = (ll_name l, ll_active l, length (ll_queue l))"

text \<open>What one receive after another returns.\<close>

fun receive_all :: "nat \<Rightarrow> lu_lu \<Rightarrow> (lu_lu_error + bytes) list \<times> lu_lu" where
  "receive_all 0 l = ([], l)"
| "receive_all (Suc n) l = (case lu_lu_receive_data [] l of (x, l1) \<Rightarrow> case receive_all n l1 of (xs, l2) \<Rightarrow> (x # xs, l2))"

section \<open>What it does\<close>

lemma inbound_queue: "ll_active l \<Longrightarrow> fold handle_inbound_3270ds ds l = l\<lparr>ll_queue := ll_queue l @ ds\<rparr>"
  by (induction ds arbitrary: l) (simp_all add: handle_inbound_3270ds_def)

text \<open>Data come out in the order in which they came in.\<close>

lemma received_in_order:
  assumes "ll_active l" and "ll_queue l = []"
  shows "receive_all (length ds) (fold handle_inbound_3270ds ds l) = (map Inr ds, l)"
proof -
  have "receive_all (length ds) (l\<lparr>ll_queue := ds\<rparr>) = (map Inr ds, l\<lparr>ll_queue := []\<rparr>)" if "ll_active l" for l
    using that by (induction ds) (simp_all add: lu_lu_receive_data_def)
  from this [OF assms(1)] show ?thesis using inbound_queue [OF assms(1), of ds] assms(2)
    by (metis append_Nil lu_lu.surjective lu_lu.update_convs(3))
qed

text \<open>
  Data sent between applications, read by the parser of this library: the length of the field counts three bytes more
  than the parser reads for it, so the field takes the next three bytes of the stream, whatever they are, and nothing
  in it reaches the screen or any application.
\<close>

lemma application_field_swallows_three:
  assumes "pos_ok p" and "drop (ppos p) (pdata p) = outbound_3270ds data @ [x, y, z] @ behind" and "length data < 34812"
  shows "\<exists>q. parse_step p = (Inr (), q) \<and> d_screen q = d_screen p \<and> events q = events p
           \<and> pdata q = pdata p \<and> drop (ppos q) (pdata q) = behind"
proof -
  let ?n = "int (length data) + 4"
  have "to_be16 ?n = Some [word_of_int (?n div 256), word_of_int (?n mod 256)]" using assms(3) by (simp add: to_be16_def)
  from to_be16_decode [OF this] assms(3) obtain hi lo
    where hl: "[word_of_int (?n div 256), word_of_int (?n mod 256)] = [hi, lo]" "be16 hi lo = ?n" "hi \<noteq> 0x88" by auto
  have d: "drop (ppos p) (pdata p) = 0x88 # hi # lo # 0x40 # (data @ [x, y, z]) @ behind"
    using assms(2) hl(1) by (simp add: outbound_3270ds_def lu_lu_field_def)
  let ?q = "p\<lparr>ppos := ppos p + 4 + length (data @ [x, y, z]), dpos := ppos p + 4\<rparr>"
  have "dispatch_sf 0x40 (data @ [x, y, z]) ?q = (Inr (), ?q)" by (simp add: dispatch_sf_def dret_def)
  from parse_step_sf [OF assms(1) d _ hl(3) this]
  have "parse_step p = (Inr (), ?q\<lparr>dpos := ppos ?q\<rparr>)" using hl(2) by simp
  moreover have "drop (ppos ?q) (pdata p) = drop (4 + length (data @ [x, y, z])) (drop (ppos p) (pdata p))"
    by (simp add: ac_simps)
  then have "drop (ppos ?q) (pdata p) = behind" unfolding d by (simp add: numeral_eq_Suc)
  ultimately show ?thesis by auto
qed

end
