(* ===== verification/MockServers.thy ===== *)
theory MockServers
  imports Receive CodePages
begin

text \<open>
  The servers of \<open>src/mock_server\<close> that play a host for the client: what they send, what they read of the client's
  answers, and the data streams they build. Their threads, sockets and printed lines are left out; what arrives during
  each of their waits is an argument.
\<close>

section \<open>A connection\<close>

text \<open>
  What went over the wire, the chunks the server noted as sent and received, and what it has read and not used. \<open>False\<close>
  when an exception ended the conversation.
\<close>

record mock =
  mk_wire :: bytes
  mk_trace :: "bytes list"
  mk_received :: "bytes list"
  mk_unread :: bytes

definition mock_init :: mock where
  "mock_init = \<lparr>mk_wire = [], mk_trace = [], mk_received = [], mk_unread = []\<rparr>"

definition write_only :: "bytes \<Rightarrow> mock \<Rightarrow> mock" where
  "write_only chunk m = m\<lparr>mk_wire := mk_wire m @ chunk\<rparr>"

definition mock_send :: "bytes \<Rightarrow> mock \<Rightarrow> mock" where
  "mock_send chunk m = (write_only chunk m)\<lparr>mk_trace := mk_trace m @ [chunk]\<rparr>"

text \<open>
  \<open>reader.readuntil(IAC SE)\<close> within a time, in which \<open>arriving\<close> comes; what is longer than the buffer of the stream is
  left out. What was not used stays for the next wait.
\<close>

definition read_until_se :: "bytes \<Rightarrow> mock \<Rightarrow> bool \<times> mock" where
  "read_until_se arriving m =
     (case split_se (mk_unread m @ arriving) of
        None \<Rightarrow> (False, m\<lparr>mk_unread := mk_unread m @ arriving\<rparr>)
      | Some (pre, post) \<Rightarrow> (True, m\<lparr>mk_unread := post, mk_received := mk_received m @ [pre @ [IAC, SE]]\<rparr>))"

text \<open>The servers send the number of the option behind \<open>IAC\<close> where a record ends. What they read after their last record is
  dropped unless it is noted or echoed.\<close>

definition end_mark :: bytes where
  "end_mark = [IAC, 0x19]"

section \<open>Data streams\<close>

text \<open>A screen address in two bytes of six bits.\<close>

definition mock_sba :: "nat \<Rightarrow> nat \<Rightarrow> nat \<Rightarrow> bytes" where
  "mock_sba row col width =
     (let addr = row * width + col
      in [0x11, word_of_int (int (addr div 64 mod 64)) OR 0x40, word_of_int (int (addr mod 64)) OR 0x40])"

definition build_erase_write :: bytes where
  "build_erase_write = [0x0F]"

definition menu_line :: "nat \<Rightarrow> nat \<Rightarrow> bytes \<Rightarrow> bytes" where
  "menu_line width i str = mock_sba (2 + i) 0 width @ [0x1D, 0xF0] @ str"

text \<open>The texts are given in EBCDIC; an option is its label, a colon and a blank, and its description.\<close>

definition build_menu_screen :: "bytes \<Rightarrow> bytes list \<Rightarrow> nat \<Rightarrow> bytes" where
  "build_menu_screen title options width =
     [0x00] @ mock_sba 0 0 width @ title @ concat (map (\<lambda>(i, str). menu_line width i str) (enumerate 0 options))"

definition ebcdic_text :: "codec_world \<Rightarrow> string \<Rightarrow> codec_error + bytes" where
  "ebcdic_text w str = translate_ascii_to_ebcdic w ''cp037'' (map of_char str)"

definition menu_texts :: "codec_world \<Rightarrow> string \<Rightarrow> (string \<times> string) list \<Rightarrow> codec_error + bytes \<times> bytes list" where
  "menu_texts w title options =
     (case ebcdic_text w title of
        Inl e \<Rightarrow> Inl e
      | Inr t \<Rightarrow>
          map_sum id (\<lambda>ls. (t, ls))
            (foldr (\<lambda>(label, desc) r. case ebcdic_text w (label @ '': '' @ desc) of
                      Inl e \<Rightarrow> Inl e
                    | Inr b \<Rightarrow> map_sum id ((#) b) r) options (Inr [])))"

definition HELLO :: bytes where
  "HELLO = [0xC8, 0xC5, 0xD3, 0xD3, 0xD6]"

definition WORLD :: bytes where
  "WORLD = [0xE6, 0xD6, 0xD9, 0xD3, 0xC4]"

definition build_menu_stream :: bytes where
  "build_menu_stream = [0x00] @ [0x11, 0x00, 0x00] @ [0x1D, 0xF0] @ HELLO @ [0x11, 0x01, 0x10] @ [0x1D, 0xF0] @ WORLD"

definition data_header :: bytes where
  "data_header =
     (case to_bytes \<lparr>h_data_type = 0, h_request_flag = 0, h_response_flag = 0, h_seq_number = 1\<rparr> of Some bs \<Rightarrow> bs)"

section \<open>The server with TN3270E\<close>

record mock_config =
  mc_requested :: string
  mc_default_type :: string
  mc_functions_request :: bool

text \<open>The configuration of a server and what the constructor of a server makes of it. \<open>None\<close> is an argument not given.\<close>

record server_config =
  sc_terminal :: string
  sc_lu :: string
  sc_functions :: string

definition ServerConfig :: server_config where
  "ServerConfig = \<lparr>sc_terminal = ''IBM-3278-2-E'', sc_lu = ''LUNAME01'', sc_functions = ''send''\<rparr>"

definition or_else :: "string option \<Rightarrow> string \<Rightarrow> string" where
  "or_else x y = (case x of None \<Rightarrow> y | Some v \<Rightarrow> if v = [] then y else v)"

definition mock_server_init :: "string \<Rightarrow> server_config option \<Rightarrow> string option \<Rightarrow> string option \<Rightarrow> mock_config" where
  "mock_server_init type config requested functions =
     (case config of
        Some c \<Rightarrow>
          \<lparr>mc_requested = or_else requested (sc_terminal c), mc_default_type = type,
             mc_functions_request = (or_else functions (sc_functions c) = ''request'')\<rparr>
      | None \<Rightarrow>
          \<lparr>mc_requested = or_else requested [], mc_default_type = type,
             mc_functions_request = (case functions of None \<Rightarrow> True | Some f \<Rightarrow> f = ''request'')\<rparr>)"

definition mock_option :: "byte \<Rightarrow> mock \<Rightarrow> mock" where
  "mock_option opt = mock_send [IAC, 0xFB, opt]"

definition type_is :: "bytes \<Rightarrow> bytes \<Rightarrow> bytes" where
  "type_is dt lu = [IAC, SB, 0x28, 0x02, 0x04] @ dt @ [0x00] @ lu @ [IAC, SE]"

definition ask_terminal :: "bytes \<Rightarrow> mock \<Rightarrow> mock" where
  "ask_terminal a m = snd (read_until_se a (mock_send [IAC, SB, 0x18, 0x01, IAC, SE] m))"

text \<open>\<open>None\<close> where the configured type is not ASCII, which ends the conversation.\<close>

definition ask_device_type :: "mock_config \<Rightarrow> bytes \<Rightarrow> mock \<Rightarrow> mock option" where
  "ask_device_type c a m =
     map_option
       (\<lambda>req. case read_until_se a (mock_send req m) of
                (False, m1) \<Rightarrow> m1
              | (True, m1) \<Rightarrow>
                  (case (ascii_encode (if mc_requested c = [] then mc_default_type c else mc_requested c),
                         ascii_encode ''TDC01702'') of
                     (Some dt, Some lu) \<Rightarrow> mock_send (type_is dt lu) m1
                   | _ \<Rightarrow> m1))
       (if mc_requested c = [] then Some [IAC, SB, 0x28, 0x02, 0x08, IAC, SE]
        else map_option (\<lambda>dt. [IAC, SB, 0x28, 0x02, 0x07] @ dt @ [0x00, IAC, SE]) (ascii_encode (mc_requested c)))"

definition functions_message :: "byte \<Rightarrow> bytes" where
  "functions_message kind = [IAC, SB, 0x28, 0x03, kind, 0x01, 0x02, 0x03, IAC, SE]"

definition ask_functions :: "mock_config \<Rightarrow> bytes \<Rightarrow> mock \<Rightarrow> mock" where
  "ask_functions c a m =
     snd (read_until_se a
       (if mc_functions_request c then mock_send (functions_message 0x07) m
        else mock_send (functions_message 0x04) (mock_send (functions_message 0x08) m)))"

definition send_record :: "bytes \<Rightarrow> mock \<Rightarrow> mock" where
  "send_record bs m = mock_send end_mark (mock_send bs m)"

definition menu_tn3270e :: "mock_config \<Rightarrow> bytes \<times> bytes \<times> bytes \<Rightarrow> mock" where
  "menu_tn3270e c = (\<lambda>(a1, a2, a3).
     let m1 = ask_terminal a1 (mock_option 0x28 (mock_option 0x19 (mock_option 0x18 mock_init)))
     in case ask_device_type c a2 m1 of
          None \<Rightarrow> m1
        | Some m2 \<Rightarrow> send_record (data_header @ build_menu_stream) (ask_functions c a3 m2))"

section \<open>The other servers\<close>

definition menu_3270 :: "bytes \<Rightarrow> mock" where
  "menu_3270 a1 = send_record build_menu_stream (ask_terminal a1 (mock_option 0x19 (mock_option 0x18 mock_init)))"

text \<open>The server of the terminal network shows a menu and echoes what it is sent.\<close>

definition nvt_menu :: string where
  "nvt_menu =
     ''MAIN MENU'' @ [CHR 0x0A] @ ''========='' @ [CHR 0x0A] @ ''A. Option A'' @ [CHR 0x0A] @ ''B. Option B'' @ [CHR 0x0A]
       @ ''C. Option C'' @ [CHR 0x0A, CHR 0x0A] @ ''Select: ''"

fun echo :: "bytes list \<Rightarrow> mock \<Rightarrow> mock" where
  "echo [] m = m"
| "echo (d # ds) m = (if d = [] then m else echo ds (write_only d (m\<lparr>mk_received := mk_received m @ [d]\<rparr>)))"

definition menu_nvt :: "bytes list \<Rightarrow> mock" where
  "menu_nvt ds =
     (case ascii_encode nvt_menu of
        None \<Rightarrow> mock_option 0x19 (mock_option 0x00 mock_init)
      | Some bs \<Rightarrow> echo ds (mock_send bs (mock_option 0x19 (mock_option 0x00 mock_init))))"

text \<open>The echo server keeps no notes.\<close>

fun echo_chunks :: "bytes list \<Rightarrow> bytes" where
  "echo_chunks [] = []"
| "echo_chunks (d # ds) = (if d = [] then [] else d @ echo_chunks ds)"

definition echo_server :: "bytes list \<Rightarrow> bytes" where
  "echo_server ds = [IAC, 0xFB, 0x19] @ echo_chunks ds"

definition failing_server :: bytes where
  "failing_server = [IAC, 0xFC, 0x19]"

definition default_scenario :: bytes where
  "default_scenario = [IAC, 0xFB, 0x19] @ [0x00, 0x00, 0x00, 0x00]"

text \<open>
  The server of the SSCP session writes its record twice and notes it once. Its header has four bytes. What the client
  sends is noted until it leaves.
\<close>

fun gather :: "bytes list \<Rightarrow> mock \<Rightarrow> mock" where
  "gather [] m = m"
| "gather (d # ds) m = (if d = [] then m else gather ds (m\<lparr>mk_received := mk_received m @ [d]\<rparr>))"

definition sscp_record :: "bytes \<Rightarrow> bytes" where
  "sscp_record str = [0x07, 0x00, 0x00, 0x00] @ str"

definition menu_sscp_lu :: "codec_world \<Rightarrow> string \<Rightarrow> string \<Rightarrow> bytes list \<Rightarrow> mock" where
  "menu_sscp_lu w terminal lu ds =
     (let m = mock_option 0x28 (mock_option 0x19 mock_init)
      in case (ascii_encode terminal, ascii_encode (or_else (Some lu) ''LUNAME01'')) of
           (Some dt, Some l) \<Rightarrow>
             (let m1 = mock_send (type_is dt l) m
              in case ebcdic_text w (''SSCP-LU MODE MENU'' @ [CHR 0x0A] @ ''Select: '') of
                   Inl e \<Rightarrow> m1
                 | Inr str \<Rightarrow>
                     gather ds (write_only end_mark (mock_send end_mark (write_only (sscp_record str) (mock_send (sscp_record str) m1)))))
         | _ \<Rightarrow> m)"

text \<open>
  The attributes of the fields are to be colours. The rows of the server are 0, 2, 4 and 6, and it keeps no notes: only
  what it writes counts.
\<close>

definition color_sba :: "nat \<Rightarrow> nat \<Rightarrow> bytes" where
  "color_sba row col =
     (let addr = row * 80 + col
      in [0x11, word_of_int (int (addr div 64)) OR 0x40, word_of_int (int (addr mod 64)) OR 0x40])"

definition color_field :: "nat \<Rightarrow> byte \<Rightarrow> bytes \<Rightarrow> bytes" where
  "color_field row attr str = color_sba row 0 @ [0x1D, attr] @ str"

definition color_stream :: "codec_world \<Rightarrow> codec_error + bytes" where
  "color_stream w =
     (case (ebcdic_text w ''COLOR TEST SCREEN'', ebcdic_text w ''Blue Text'', ebcdic_text w ''Red Text'', ebcdic_text w ''Green Text'') of
        (Inr a, Inr b, Inr c, Inr d) \<Rightarrow>
          Inr ([0x00] @ color_field 0 0xF4 a @ color_field 2 0xF1 b @ color_field 4 0xF2 c @ color_field 6 0xF3 d)
      | (Inl e, _) \<Rightarrow> Inl e
      | (_, Inl e, _) \<Rightarrow> Inl e
      | (_, _, Inl e, _) \<Rightarrow> Inl e
      | (_, _, _, Inl e) \<Rightarrow> Inl e)"

definition color_server :: "codec_world \<Rightarrow> bytes \<Rightarrow> bytes" where
  "color_server w a1 = mk_wire
     (let m = ask_terminal a1 (mock_option 0x28 (mock_option 0x19 (mock_option 0x18 mock_init)))
      in case (ascii_encode ''IBM-3279-2-E'', ascii_encode ''COLOR01'') of
           (Some dt, Some lu) \<Rightarrow>
             (let m1 = mock_send (type_is dt lu) m
              in case color_stream w of Inl e \<Rightarrow> m1 | Inr bs \<Rightarrow> send_record (data_header @ bs) m1)
         | _ \<Rightarrow> m)"

section \<open>Scenarios\<close>

datatype mock_kind = Color | Echo | Menu3270 | MenuNVT | NegotiationFailure | MenuTN3270E | MenuSSCP_LU

definition SCENARIOS :: "(string \<times> mock_kind) list" where
  "SCENARIOS =
     [(''color'', Color), (''echo'', Echo), (''menu_3270'', Menu3270), (''menu_nvt'', MenuNVT),
      (''negotiation_failure'', NegotiationFailure), (''menu_tn3270e'', MenuTN3270E), (''menu_sscp_lu'', MenuSSCP_LU),
      (''enhanced'', MenuTN3270E), (''tn3270_only'', Menu3270)]"

text \<open>
  What a server of each kind writes to a client whose answers come during its waits and whose input then follows, as the
  command line starts it, with the default configuration.
\<close>

definition scenario_wire :: "codec_world \<Rightarrow> mock_kind \<Rightarrow> bytes \<times> bytes \<times> bytes \<Rightarrow> bytes list \<Rightarrow> bytes" where
  "scenario_wire w k answers ds =
     (case k of
        Color \<Rightarrow> color_server w (fst answers)
      | Echo \<Rightarrow> echo_server ds
      | Menu3270 \<Rightarrow> mk_wire (menu_3270 (fst answers))
      | MenuNVT \<Rightarrow> mk_wire (menu_nvt ds)
      | NegotiationFailure \<Rightarrow> failing_server
      | MenuTN3270E \<Rightarrow> mk_wire (menu_tn3270e (mock_server_init ''IBM-3278-2'' (Some ServerConfig) None None) answers)
      | MenuSSCP_LU \<Rightarrow> mk_wire (menu_sscp_lu w (sc_terminal ServerConfig) (sc_lu ServerConfig) ds))"

end
