(* ===== verification/MockServerProps.thy ===== *)
theory MockServerProps
  imports MockServers ReceiveProps OrderEffects
begin

text \<open>
  What the client makes of the mock servers: a stream of addresses, fields and texts on its screen, the menus,
  and the negotiation of both sides with each other.
\<close>

section \<open>Pieces of a stream\<close>

text \<open>An address in two bytes, an attribute that starts a field there or none, and a text.\<close>

type_synonym piece = "byte \<times> byte \<times> byte option \<times> bytes"

definition field_order :: "byte option \<Rightarrow> bytes" where
  "field_order f = (case f of None \<Rightarrow> [] | Some b \<Rightarrow> [0x1D, b])"

definition piece_bytes :: "piece \<Rightarrow> bytes" where
  "piece_bytes = (\<lambda>(hi, lo, f, str). [0x11, hi, lo] @ field_order f @ str)"

definition attr_cell :: "byte option \<Rightarrow> bytes" where
  "attr_cell f = (case f of None \<Rightarrow> [] | Some b \<Rightarrow> [b])"

definition overwrite :: "nat \<Rightarrow> bytes \<Rightarrow> bytes \<Rightarrow> bytes" where
  "overwrite k bs xs = take k xs @ bs @ drop (k + length bs) xs"

lemma overwrite_length [simp]: "k + length bs \<le> length xs \<Longrightarrow> length (overwrite k bs xs) = length xs"
  by (simp add: overwrite_def)

lemma overwrite_nth:
  assumes "k + length bs \<le> length xs" and "i < length xs"
  shows "overwrite k bs xs ! i = (if k \<le> i \<and> i < k + length bs then bs ! (i - k) else xs ! i)"
  using assms by (auto simp: overwrite_def nth_append)

lemma overwrite_Cons: "k < length xs \<Longrightarrow> overwrite (Suc k) bs (xs[k := b]) = overwrite k (b # bs) xs"
  by (simp add: overwrite_def take_Suc_conv_app_nth)

definition piece_at :: "piece \<Rightarrow> int" where
  "piece_at = (\<lambda>(hi, lo, f, str). addr12 hi lo)"

definition piece_cells :: "piece \<Rightarrow> bytes" where
  "piece_cells = (\<lambda>(hi, lo, f, str). attr_cell f @ str)"

definition starts_field :: "piece \<Rightarrow> bool" where
  "starts_field = (\<lambda>(hi, lo, f, str). f \<noteq> None)"

definition piece_fits :: "screen \<Rightarrow> piece \<Rightarrow> bool" where
  "piece_fits s x \<longleftrightarrow> piece_at x + int (length (piece_cells x)) < ssize s
     \<and> (case x of (hi, lo, f, str) \<Rightarrow> (f \<noteq> None \<longrightarrow> piece_at x mod cols s + 1 < cols s) \<and> (\<forall>b \<in> set str. text_byte b))"

text \<open>What the pieces make of a screen.\<close>

definition painted :: "piece list \<Rightarrow> screen \<Rightarrow> screen \<Rightarrow> bool" where
  "painted xs s s' \<longleftrightarrow> wf_screen s' \<and> rows s' = rows s \<and> cols s' = cols s \<and> ssize s' = ssize s
     \<and> buffer s' = foldl (\<lambda>b x. overwrite (nat (piece_at x)) (piece_cells x) b) (buffer s) xs
     \<and> field_starts s' = field_starts s \<union> piece_at ` set (filter starts_field xs)"

lemma painted_trans: "painted xs s t \<Longrightarrow> painted ys t u \<Longrightarrow> painted (xs @ ys) s u"
  by (simp add: painted_def image_Un Un_assoc)

section \<open>The orders of a piece\<close>

lemma drop_head:
  assumes "drop n xs = y # ys"
  shows "n < length xs" and "xs ! n = y" and "drop (Suc n) xs = ys"
  using assms by (metis drop_all list.distinct(1) not_le, metis assms drop_all list.distinct(1) not_le nth_via_drop, metis assms drop_Suc list.sel(3) tl_drop)

lemma parse_step_address:
  assumes "wf_screen (d_screen p)" and "pos_ok p" and "drop (ppos p) (pdata p) = 0x11 # hi # lo # behind"
    and "addressing_mode p = MODE_12_BIT" and "addr12 hi lo < ssize (d_screen p)" and "ssize (d_screen p) \<le> 4096"
  shows "\<exists>rc. parse_step p = (Inr (), p\<lparr>ppos := ppos p + 3, dpos := ppos p + 3, d_screen := cursor_to rc (d_screen p)\<rparr>)
    \<and> on_screen (d_screen p) rc \<and> linear (d_screen p) rc = addr12 hi lo"
proof -
  let ?q = "p\<lparr>ppos := ppos p + 1\<rparr>"
  note a = drop_head [OF assms(3)]
  note b = drop_head [OF a(3)]
  note c = drop_head [OF b(3)]
  have r: "raw_read p = (Inr 0x11, ?q)" using a by (simp add: raw_read_def d_has_more_def)
  have "pos_ok ?q" using assms(2) a(1) by (simp add: pos_ok_def)
  moreover have "\<not> d_remaining ?q < 2" using assms(2) c(1) by (simp add: d_remaining_def pos_ok_def)
  moreover have "decode_address (addressing_mode ?q) (pdata ?q ! ppos ?q) (pdata ?q ! (ppos ?q + 1)) = addr12 hi lo"
    using b(2) c(2) assms(4) by (simp add: decode_address_def)
  moreover have "ssize (d_screen ?q) \<le> get_max_positions (addressing_mode ?q)" using assms(4,6) by (simp add: get_max_positions_def)
  ultimately obtain rc where rc: "handle_sba ?q = (Inr (), ?q\<lparr>ppos := ppos ?q + 2, d_screen := cursor_to rc (d_screen ?q), dpos := ppos ?q + 2\<rparr>)"
    "on_screen (d_screen ?q) rc" "linear (d_screen ?q) rc = addr12 hi lo"
    using sba_moves_cursor [of ?q] assms(1,5) by (auto simp: Let_def)
  have "parse_step p = (Inr (), p\<lparr>ppos := ppos p + 3, dpos := ppos p + 3, d_screen := cursor_to rc (d_screen p)\<rparr>)"
    using r rc(1) by (simp add: parse_step_def dbind_def order_handler_def sync_pos_def numeral_3_eq_3)
  with rc(2,3) show ?thesis by (intro exI [of _ rc]) simp
qed

lemma parse_step_field:
  assumes "pos_ok p" and "drop (ppos p) (pdata p) = 0x1D # b # behind"
  shows "parse_step p = (Inr (), p\<lparr>ppos := ppos p + 2, dpos := ppos p + 2, d_screen := start_field b (d_screen p),
    last_field_start := Some (linear (d_screen p) (get_position (d_screen p)))\<rparr>)"
proof -
  let ?q = "p\<lparr>ppos := ppos p + 1\<rparr>"
  note a = drop_head [OF assms(2)]
  note c = drop_head [OF a(3)]
  have r: "raw_read p = (Inr 0x1D, ?q)" using a by (simp add: raw_read_def d_has_more_def)
  have "OrderEffects.ready 1 ?q" using assms(1) c(1) by (simp add: OrderEffects.ready_def pos_ok_def)
  from handle_sf_eq [OF this] show ?thesis
    using r c(2) by (simp add: parse_step_def dbind_def order_handler_def sync_pos_def)
qed

lemma start_field_painted:
  assumes "wf_screen s" and "linear s (get_position s) = a" and "a mod cols s + 1 < cols s"
  shows "wf_screen (start_field b s) \<and> rows (start_field b s) = rows s \<and> cols (start_field b s) = cols s \<and> ssize (start_field b s) = ssize s
    \<and> buffer (start_field b s) = (buffer s)[nat a := b] \<and> field_starts (start_field b s) = insert a (field_starts s)
    \<and> linear s (get_position (start_field b s)) = a + 1"
proof -
  have on: "on_screen s (get_position s)" using assms(1) by (simp add: wf_screen_def get_position_def)
  then have "a mod cols s = cursor_col s"
    using assms(2) linear_div_mod [of "cursor_col s" "cols s" "cursor_row s"] by (auto simp: linear_def get_position_def on_screen_def)
  moreover have "wf_screen (start_field b s)" "rows (start_field b s) = rows s" "cols (start_field b s) = cols s"
    using assms(1) wf.keep_start_field by blast+
  moreover have "ssize (start_field b s) = ssize s" using calculation(2-4) assms(1) by (simp add: wf_screen_def wf_dims_def)
  ultimately show ?thesis using start_field_screen [OF assms(1), of b] assms(2,3) by (simp add: linear_def get_position_def)
qed

lemma put_text_painted:
  assumes "wf_screen s" and "linear s (get_position s) = a" and "a + int (length str) < ssize s"
  shows "wf_screen (put_text str s) \<and> buffer (put_text str s) = overwrite (nat a) str (buffer s)"
  using wf_put_text [OF assms(1)] put_text_effect [OF assms(1), of str] assms(2,3) by (simp add: overwrite_def)


text \<open>What one order changes, and where the parser stands.\<close>

definition drawn :: "int \<Rightarrow> bytes \<Rightarrow> int set \<Rightarrow> screen \<Rightarrow> screen \<Rightarrow> bool" where
  "drawn a drawing marks s s' \<longleftrightarrow> wf_screen s' \<and> rows s' = rows s \<and> cols s' = cols s \<and> ssize s' = ssize s
     \<and> buffer s' = overwrite (nat a) drawing (buffer s) \<and> field_starts s' = field_starts s \<union> marks"

definition position_is :: "int \<Rightarrow> screen \<Rightarrow> bool" where
  "position_is a s \<longleftrightarrow> linear s (get_position s) = a"

definition stands :: "bytes \<Rightarrow> bytes \<Rightarrow> dsp \<Rightarrow> bool" where
  "stands whole behind p \<longleftrightarrow> pos_ok p \<and> addressing_mode p = MODE_12_BIT \<and> pdata p = whole \<and> drop (ppos p) whole = behind"

lemma drawn_trans:
  assumes "drawn a cs M s t" and "drawn (a + int (length cs)) ds N t u" and "0 \<le> a" and "nat a + length cs \<le> length (buffer s)"
  shows "drawn a (cs @ ds) (M \<union> N) s u"
  using assms by (auto simp: drawn_def overwrite_def nat_add_distrib ac_simps)

lemma drawn_piece: "drawn (piece_at x) (piece_cells x) (if starts_field x then {piece_at x} else {}) s t \<Longrightarrow> painted [x] s t"
  by (simp add: drawn_def painted_def split: if_splits)

lemma one_address:
  assumes "wf_screen (d_screen p)" and "ssize (d_screen p) \<le> 4096" and "stands whole (0x11 # hi # lo # behind) p"
    and "addr12 hi lo < ssize (d_screen p)"
  shows "\<exists>q. parse_loop snap p = parse_loop snap q \<and> stands whole behind q
    \<and> drawn (addr12 hi lo) [] {} (d_screen p) (d_screen q) \<and> position_is (addr12 hi lo) (d_screen q)"
proof -
  have d: "drop (ppos p) (pdata p) = 0x11 # hi # lo # behind" and p: "pos_ok p" "addressing_mode p = MODE_12_BIT" "pdata p = whole"
    using assms(3) by (simp_all add: stands_def)
  obtain rc where rc: "parse_step p = (Inr (), p\<lparr>ppos := ppos p + 3, dpos := ppos p + 3, d_screen := cursor_to rc (d_screen p)\<rparr>)"
    "on_screen (d_screen p) rc" "linear (d_screen p) rc = addr12 hi lo"
    using parse_step_address [OF assms(1) p(1) d p(2)] assms(2,4) by auto
  have "d_has_more p" using drop_head(1) [OF d] by (simp add: d_has_more_def)
  note parse_loop_step [OF this rc(1), of snap]
  moreover have "ppos p + 3 + length behind = length (pdata p)" using arg_cong [OF d, of length] drop_head(1) [OF d] by simp
  moreover have "drop (ppos p + 3) (pdata p) = behind" using arg_cong [OF d, of "drop 3"] by (simp add: add.commute)
  moreover note wf_cursor_to [OF assms(1) rc(2)]
  ultimately show ?thesis using rc(3) p
    by (intro exI) (auto simp: stands_def pos_ok_def drawn_def overwrite_def position_is_def cursor_to_def get_position_def linear_def)
qed

lemma one_field:
  assumes "wf_screen (d_screen p)" and "position_is a (d_screen p)" and "0 \<le> a" and "a < ssize (d_screen p)"
    and "a mod cols (d_screen p) + 1 < cols (d_screen p)" and "stands whole (0x1D # b # behind) p"
  shows "\<exists>q. parse_loop snap p = parse_loop snap q \<and> stands whole behind q
    \<and> drawn a [b] {a} (d_screen p) (d_screen q) \<and> position_is (a + 1) (d_screen q)"
proof -
  let ?s = "d_screen p"
  have d: "drop (ppos p) (pdata p) = 0x1D # b # behind" and p: "pos_ok p" "addressing_mode p = MODE_12_BIT" "pdata p = whole"
    using assms(6) by (simp_all add: stands_def)
  let ?q = "p\<lparr>ppos := ppos p + 2, dpos := ppos p + 2, d_screen := start_field b ?s, last_field_start := Some (linear ?s (get_position ?s))\<rparr>"
  have "d_has_more p" using drop_head(1) [OF d] by (simp add: d_has_more_def)
  from parse_loop_step [OF this parse_step_field [OF p(1) d]] have l: "parse_loop snap p = parse_loop snap ?q" .
  have "ppos p + 2 + length behind = length (pdata p)" using arg_cong [OF d, of length] drop_head(1) [OF d] by simp
  moreover have "drop (ppos p + 2) (pdata p) = behind" using arg_cong [OF d, of "drop 2"] by (simp add: add.commute)
  ultimately have st: "stands whole behind ?q" using p by (auto simp: stands_def pos_ok_def)
  have "(buffer ?s)[nat a := b] = overwrite (nat a) [b] (buffer ?s)"
    using assms(1,3,4) by (simp add: overwrite_def upd_conv_take_nth_drop wf_screen_def wf_dims_def)
  with start_field_painted [OF assms(1) _ assms(5), of b] assms(2)
  have "drawn a [b] {a} ?s (d_screen ?q)" "position_is (a + 1) (d_screen ?q)"
    by (auto simp: drawn_def position_is_def linear_def)
  with l st show ?thesis by (intro exI [of _ ?q]) simp
qed

lemma one_text:
  assumes "wf_screen (d_screen p)" and "position_is a (d_screen p)" and "a + int (length str) < ssize (d_screen p)"
    and "stands whole (str @ behind) p" and "\<forall>b \<in> set str. text_byte b" and "behind = [] \<or> hd behind \<noteq> 0x01"
  shows "\<exists>q. parse_loop snap p = parse_loop snap q \<and> stands whole behind q \<and> drawn a str {} (d_screen p) (d_screen q)"
proof -
  have d: "drop (ppos p) (pdata p) = str @ behind" and p: "pos_ok p" "addressing_mode p = MODE_12_BIT" "pdata p = whole"
    using assms(4) by (simp_all add: stands_def)
  obtain e where e: "str = [] \<longrightarrow> e = dpos p" "str \<noteq> [] \<longrightarrow> e = ppos p + length str"
    "parse_loop snap p = parse_loop snap (p\<lparr>ppos := ppos p + length str, dpos := e, d_screen := put_text str (d_screen p)\<rparr>)"
    using parse_loop_text_prefix [OF assms(1), of str behind snap] d assms(5,6) by auto
  let ?q = "p\<lparr>ppos := ppos p + length str, dpos := e, d_screen := put_text str (d_screen p)\<rparr>"
  have "drawn a str {} (d_screen p) (d_screen ?q)"
    using put_text_painted [OF assms(1) _ assms(3)] assms(2) by (simp add: drawn_def position_is_def)
  moreover have "length (pdata p) = ppos p + length str + length behind"
    using arg_cong [OF d, of length] p(1) by (auto simp: pos_ok_def)
  moreover have "drop (ppos p + length str) (pdata p) = behind" using arg_cong [OF d, of "drop (length str)"] by (simp add: add.commute)
  ultimately show ?thesis using p e by (intro exI [of _ ?q]) (cases "str = []"; simp add: stands_def pos_ok_def)
qed

text \<open>A piece in front of others, and then all of them.\<close>

lemma one_piece:
  assumes "wf_screen (d_screen p)" and "ssize (d_screen p) \<le> 4096" and "stands whole (piece_bytes x @ behind) p"
    and "behind = [] \<or> hd behind = 0x11" and "piece_fits (d_screen p) x"
  shows "\<exists>q. parse_loop snap p = parse_loop snap q \<and> painted [x] (d_screen p) (d_screen q) \<and> stands whole behind q"
proof -
  obtain hi lo f str where x: "x = (hi, lo, f, str)" by (cases x)
  let ?s = "d_screen p" and ?a = "addr12 hi lo"
  have fit: "?a + int (length (attr_cell f)) + int (length str) < ssize ?s" "f \<noteq> None \<longrightarrow> ?a mod cols ?s + 1 < cols ?s" "\<forall>b \<in> set str. text_byte b"
    using assms(5) by (auto simp: piece_fits_def x piece_at_def piece_cells_def)
  have a0: "0 \<le> ?a" using addr12_range by blast
  have st: "stands whole (0x11 # hi # lo # field_order f @ str @ behind) p" using assms(3) by (simp add: x piece_bytes_def)
  obtain p1 where p1: "parse_loop snap p = parse_loop snap p1" "stands whole (field_order f @ str @ behind) p1"
    "drawn ?a [] {} ?s (d_screen p1)" "position_is ?a (d_screen p1)"
    using one_address [OF assms(1,2) st, of snap] fit(1) by auto
  obtain p2 where p2: "parse_loop snap p1 = parse_loop snap p2" "stands whole (str @ behind) p2"
    "drawn ?a (attr_cell f) (if f = None then {} else {?a}) (d_screen p1) (d_screen p2)" "position_is (?a + int (length (attr_cell f))) (d_screen p2)"
  proof (cases f)
    case None
    with p1 show ?thesis by (intro that [of p1]) (auto simp: field_order_def attr_cell_def drawn_def overwrite_def)
  next
    case (Some b)
    with one_field [of p1 ?a whole b "str @ behind" snap] p1 a0 fit(1,2) show ?thesis
      by (auto simp: field_order_def attr_cell_def drawn_def intro: that)
  qed
  have lb: "nat ?a + length (attr_cell f) \<le> length (buffer ?s)" using fit(1) a0 assms(1) by (simp add: wf_screen_def wf_dims_def)
  then have d2: "drawn ?a (attr_cell f) (if f = None then {} else {?a}) ?s (d_screen p2)"
    using drawn_trans [OF p1(3), of "attr_cell f"] p2(3) a0 by simp
  obtain q where q: "parse_loop snap p2 = parse_loop snap q" "stands whole behind q"
    "drawn (?a + int (length (attr_cell f))) str {} (d_screen p2) (d_screen q)"
    using one_text [OF _ p2(4) _ p2(2) fit(3), of snap] d2 fit(1) assms(4) by (auto simp: drawn_def)
  have "painted [x] ?s (d_screen q)"
    using drawn_piece [of x] drawn_trans [OF d2 q(3) a0 lb] by (simp add: x piece_at_def piece_cells_def starts_field_def split: if_splits)
  with p1(1) p2(1) q show ?thesis by auto
qed

lemma all_pieces:
  assumes "wf_screen (d_screen p)" and "ssize (d_screen p) \<le> 4096" and "stands whole (concat (map piece_bytes xs)) p"
    and "\<forall>x \<in> set xs. piece_fits (d_screen p) x"
  shows "\<exists>q. parse_loop snap p = Some (Completed, q) \<and> painted xs (d_screen p) (d_screen q)"
  using assms
proof (induction xs arbitrary: p)
  case Nil
  then have "ppos p = length (pdata p)" by (auto simp: stands_def pos_ok_def)
  then show ?case using Nil.prems(1) by (auto simp: parse_loop_end painted_def)
next
  case (Cons x xs)
  have h: "concat (map piece_bytes xs) = [] \<or> hd (concat (map piece_bytes xs)) = 0x11"
    by (cases xs) (auto simp: piece_bytes_def split: prod.split)
  obtain q where q: "parse_loop snap p = parse_loop snap q" "painted [x] (d_screen p) (d_screen q)"
    "stands whole (concat (map piece_bytes xs)) q"
    using one_piece [OF Cons.prems(1,2) _ h, of whole x snap] Cons.prems(3,4) by auto
  have "\<forall>x \<in> set xs. piece_fits (d_screen q) x" using Cons.prems(4) q(2) by (auto simp: piece_fits_def painted_def)
  moreover have "wf_screen (d_screen q)" "ssize (d_screen q) \<le> 4096" using q(2) Cons.prems(2) by (simp_all add: painted_def)
  ultimately obtain r where "parse_loop snap q = Some (Completed, r)" "painted xs (d_screen q) (d_screen r)"
    using Cons.IH [of q] q(3) by auto
  with q(1) painted_trans [OF q(2), of xs] show ?case by auto
qed

text \<open>Data that begin with a control character and go on with pieces, as the parser takes them.\<close>

lemma parse_pieces:
  assumes "wf_screen (d_screen p)" and "addressing_mode p = MODE_12_BIT" and "ssize (d_screen p) \<le> 4096"
    and "w \<notin> set write_commands" and "w \<notin> set erase_write_commands" and "\<forall>b \<in> set str. text_byte b"
    and "int (length str) < ssize (d_screen p)" and "\<forall>x \<in> set xs. piece_fits (d_screen p) x"
    and "length str + length (concat (map piece_bytes xs)) < 4096"
  shows "\<exists>q. parse (w # str @ concat (map piece_bytes xs)) 0 p = Some (Inr (), q)
    \<and> buffer (d_screen q) = foldl (\<lambda>b x. overwrite (nat (piece_at x)) (piece_cells x) b) (overwrite 0 str (buffer (d_screen p))) xs
    \<and> field_starts (d_screen q) = field_starts (d_screen p) \<union> piece_at ` set (filter starts_field xs)"
proof -
  let ?data = "str @ concat (map piece_bytes xs)" and ?f = "overlay_screen w False (d_screen p)"
  let ?p0 = "p\<lparr>pdata := w # ?data, aid := None, ppos := 1, wcc := Some w, d_screen := ?f, dpos := 1\<rparr>"
  note facts = overlay_facts [OF assms(1), of w False]
  have parse: "parse (w # ?data) 0 p = map_option (end_bulk False) (run_orders None ?p0)"
    using parse_control [OF assms(4,5), of ?data p] assms(9) by simp
  have h: "concat (map piece_bytes xs) = [] \<or> hd (concat (map piece_bytes xs)) \<noteq> 0x01"
    by (cases xs) (auto simp: piece_bytes_def split: prod.split)
  obtain e where e: "str = [] \<longrightarrow> e = 1" "str \<noteq> [] \<longrightarrow> e = 1 + length str"
    "parse_loop None ?p0 = parse_loop None (?p0\<lparr>ppos := 1 + length str, dpos := e, d_screen := put_text str ?f\<rparr>)"
    using parse_loop_text_prefix [of ?p0 str "concat (map piece_bytes xs)" None] facts(1) assms(6) h by auto
  let ?p1 = "?p0\<lparr>ppos := 1 + length str, dpos := e, d_screen := put_text str ?f\<rparr>"
  have t: "wf_screen (put_text str ?f)" "buffer (put_text str ?f) = overwrite 0 str (buffer (d_screen p))"
    using put_text_painted [OF facts(1), of 0 str] facts assms(7) by (simp_all add: linear_def)
  have "stands (w # ?data) (concat (map piece_bytes xs)) ?p1"
    using e(1,2) assms(2) by (cases "str = []") (simp_all add: stands_def pos_ok_def)
  moreover have "\<forall>x \<in> set xs. piece_fits (d_screen ?p1) x" using assms(8) facts by (auto simp: piece_fits_def)
  ultimately obtain q where q: "parse_loop None ?p1 = Some (Completed, q)" "painted xs (put_text str ?f) (d_screen q)"
    using all_pieces [of ?p1 "w # ?data" xs None] t(1) assms(3) facts by auto
  have "\<exists>r. run_orders None ?p0 = Some (Inr (), r) \<and> d_screen r = d_screen q"
    unfolding run_orders_def e(3) q(1) by (simp add: after_loop_def)
  with parse q(2) t(2) facts show ?thesis by (auto simp: end_bulk_def painted_def)
qed

section \<open>Menus\<close>

definition piece_of :: "nat \<Rightarrow> byte option \<Rightarrow> bytes \<Rightarrow> piece" where
  "piece_of a f str = (word_of_int (int (a div 64 mod 64)) OR 0x40, word_of_int (int (a mod 64)) OR 0x40, f, str)"

lemma or_40_and_3f: "((w :: byte) OR 0x40) AND 0x3F = w AND 0x3F"
  by (simp add: bit.conj_disj_distrib2)

lemma piece_of_at: "a < 4096 \<Longrightarrow> piece_at (piece_of a f str) = int a"
proof -
  assume a: "a < 4096"
  have u: "uint (word_of_int (int n) OR 0x40 :: byte) mod 64 = int n" if "n < 64" for n
  proof -
    have "uint (word_of_int (int n) OR 0x40 :: byte) mod 64 = uint (word_of_int (int n) :: byte) mod 64"
      by (metis or_40_and_3f uint_and_3f)
    with that show ?thesis by (simp add: unsigned_of_nat take_bit_nat_eq_self)
  qed
  have "addr12 (word_of_int (int (a div 64 mod 64)) OR 0x40) (word_of_int (int (a mod 64)) OR 0x40)
      = int (a div 64 mod 64) * 64 + int (a mod 64)"
    unfolding addr12_eq using u [of "a div 64 mod 64"] u [of "a mod 64"] by simp
  also have "\<dots> = int a"
  proof -
    have "a div 64 mod 64 = a div 64" using a by simp
    moreover have "int (a div 64) * 64 + int (a mod 64) = int (a div 64 * 64 + a mod 64)"
      by (simp only: of_nat_add of_nat_mult of_nat_numeral)
    ultimately show ?thesis by simp
  qed
  finally show ?thesis unfolding piece_at_def piece_of_def prod.case .
qed

lemma mock_sba_piece: "mock_sba row col width @ field_order f @ str = piece_bytes (piece_of (row * width + col) f str)"
  by (simp add: mock_sba_def piece_bytes_def piece_of_def Let_def)

definition menu_pieces :: "bytes \<Rightarrow> bytes list \<Rightarrow> piece list" where
  "menu_pieces title options = piece_of 0 None title # map (\<lambda>(i, str). piece_of ((2 + i) * 80) (Some 0xF0) str) (enumerate 0 options)"

lemma menu_bytes: "build_menu_screen title options 80 = 0x00 # concat (map piece_bytes (menu_pieces title options))"
proof -
  have "menu_line 80 i str = piece_bytes (piece_of ((2 + i) * 80) (Some 0xF0) str)" for i str
    using mock_sba_piece [of "2 + i" 0 80 "Some 0xF0" str] by (simp add: menu_line_def field_order_def)
  moreover have "mock_sba 0 0 80 @ title = piece_bytes (piece_of 0 None title)"
    using mock_sba_piece [of 0 0 80 None title] by (simp add: field_order_def)
  ultimately show ?thesis by (simp add: build_menu_screen_def menu_pieces_def comp_def case_prod_beta')
qed

lemma menu_lines_cells:
  assumes "\<forall>str \<in> set ls. length str \<le> 78" and "length b = 1920" and "n + length ls \<le> 22" and "r < 24" and "c < 80"
  shows "foldl (\<lambda>b x. overwrite (nat (piece_at x)) (piece_cells x) b) b
      (map (\<lambda>(i, str). piece_of ((2 + i) * 80) (Some 0xF0) str) (enumerate n ls)) ! (80 * r + c)
    = (if 2 + n \<le> r \<and> r < 2 + n + length ls \<and> c \<le> length (ls ! (r - 2 - n)) then (0xF0 # ls ! (r - 2 - n)) ! c else b ! (80 * r + c))"
  using assms
proof (induction ls arbitrary: n b)
  case (Cons l ls)
  let ?b = "overwrite ((2 + n) * 80) (0xF0 # l) b"
  have len: "(2 + n) * 80 + length (0xF0 # l) \<le> length b" using Cons.prems by simp
  then have "length ?b = 1920" using Cons.prems(2) by simp
  note IH = Cons.IH [OF _ this, of "Suc n"]
  have i: "80 * r + c < length b" using Cons.prems by simp
  have "(2 + n) * 80 \<le> 80 * r + c \<and> 80 * r + c < (2 + n) * 80 + length (0xF0 # l) \<longleftrightarrow> r = 2 + n \<and> c \<le> length l"
    (is "?in \<longleftrightarrow> ?row")
  proof
    assume b: ?in
    then have "(2 + n) * 80 < (r + 1) * 80" using Cons.prems(5) by simp
    then have "1 + n < r" by (simp only: mult_less_cancel2) simp
    moreover have "r < 3 + n" using b Cons.prems(1) by simp
    ultimately have "r = 2 + n" by simp
    with b show ?row by simp
  qed (use Cons.prems(1) in auto)
  then have here: "?b ! (80 * r + c) = (if r = 2 + n \<and> c \<le> length l then (0xF0 # l) ! c else b ! (80 * r + c))"
    using overwrite_nth [OF len i] by auto
  have "piece_at (piece_of ((2 + n) * 80) (Some 0xF0) l) = int ((2 + n) * 80)" using Cons.prems(3) by (intro piece_of_at) simp
  moreover have "piece_cells (piece_of ((2 + n) * 80) (Some 0xF0) l) = 0xF0 # l" by (simp add: piece_cells_def piece_of_def attr_cell_def)
  ultimately have "foldl (\<lambda>b x. overwrite (nat (piece_at x)) (piece_cells x) b) b
      (map (\<lambda>(i, str). piece_of ((2 + i) * 80) (Some 0xF0) str) (enumerate n (l # ls)))
    = foldl (\<lambda>b x. overwrite (nat (piece_at x)) (piece_cells x) b) ?b
      (map (\<lambda>(i, str). piece_of ((2 + i) * 80) (Some 0xF0) str) (enumerate (Suc n) ls))"
    by (simp only: enumerate_simps list.map foldl_Cons prod.case nat_int)
  then show ?case unfolding IH [OF _ _ Cons.prems(4,5)] using IH here Cons.prems by (auto simp: nth_Cons' Suc_le_eq le_Suc_eq)
qed auto

lemma enumerate_pieces:
  assumes "n + length ls \<le> 22"
  shows "piece_at ` set (filter starts_field (map (\<lambda>(i, str). piece_of ((2 + i) * 80) (Some 0xF0) str) (enumerate n ls)))
    = (\<lambda>i. int ((2 + i) * 80)) ` {n ..< n + length ls}"
proof -
  have "starts_field (piece_of a (Some b) str)" for a b str by (simp add: starts_field_def piece_of_def)
  then have f: "filter starts_field (map (\<lambda>(i, str). piece_of ((2 + i) * 80) (Some 0xF0) str) (enumerate n ls))
      = map (\<lambda>(i, str). piece_of ((2 + i) * 80) (Some 0xF0) str) (enumerate n ls)" by (auto simp: filter_id_conv)
  have "piece_at (case x of (i, str) \<Rightarrow> piece_of ((2 + i) * 80) (Some 0xF0) str) = int ((2 + fst x) * 80)"
    if "x \<in> set (enumerate n ls)" for x
  proof -
    have "fst x < n + length ls" using that by (metis imageI list.set_map map_fst_enumerate atLeastLessThan_iff set_upt)
    then show ?thesis using assms by (cases x) (simp add: piece_of_at)
  qed
  then have "piece_at ` set (map (\<lambda>(i, str). piece_of ((2 + i) * 80) (Some 0xF0) str) (enumerate n ls))
      = (\<lambda>i. int ((2 + i) * 80)) ` fst ` set (enumerate n ls)"
    unfolding list.set_map image_image by (rule image_cong [OF refl])
  also have "fst ` set (enumerate n ls) = {n ..< n + length ls}" by (metis list.set_map map_fst_enumerate set_upt)
  finally show ?thesis unfolding f .
qed

lemma menu_pieces_fit:
  assumes "ssize s = 1920" and "cols s = 80" and "\<forall>b \<in> set (concat (title # options)). text_byte b" and "length title \<le> 80"
    and "length options \<le> 22" and "\<forall>str \<in> set options. length str \<le> 78"
  shows "\<forall>x \<in> set (menu_pieces title options). piece_fits s x"
proof
  fix x assume "x \<in> set (menu_pieces title options)"
  then consider "x = piece_of 0 None title" | i str where "x = piece_of ((2 + i) * 80) (Some 0xF0) str" "str \<in> set options" "i < length options"
    by (auto simp: menu_pieces_def in_set_enumerate_eq)
  then show "piece_fits s x"
  proof cases
    case 1
    then show ?thesis using piece_of_at [of 0 None title] assms(1,3,4)
      by (simp add: piece_fits_def piece_cells_def piece_of_def attr_cell_def)
  next
    case 2
    then have "piece_at x = int ((2 + i) * 80)" using piece_of_at [of "(2 + i) * 80"] assms(5) by simp
    then show ?thesis using 2 assms by (auto simp: piece_fits_def piece_cells_def piece_of_def attr_cell_def)
  qed
qed

lemma menu_pieces_length:
  assumes "length title \<le> 80" and "length options \<le> 22" and "\<forall>str \<in> set options. length str \<le> 78"
  shows "length (concat (map piece_bytes (menu_pieces title options))) < 4096"
proof -
  have "length (concat (map piece_bytes (map (\<lambda>(i, str). piece_of ((2 + i) * 80) (Some 0xF0) str) (enumerate n ls)))) \<le> 83 * length ls"
    if "\<forall>str \<in> set ls. length str \<le> 78" for n ls
    using that
  proof (induction ls arbitrary: n)
    case (Cons l ls)
    have "length (piece_bytes (piece_of ((2 + n) * 80) (Some 0xF0) l)) \<le> 83"
      using Cons.prems by (simp add: piece_bytes_def piece_of_def field_order_def)
    with Cons.IH [of "Suc n"] Cons.prems show ?case by simp
  qed simp
  from this [OF assms(3), of 0] assms(1,2) show ?thesis
    by (simp add: menu_pieces_def) (simp add: piece_bytes_def piece_of_def field_order_def)
qed

text \<open>
  C5. A menu of the mock servers on the client's screen: the title stands in the first row and each option
  in a field of its own from the third row on, with its attribute in front. All other cells keep what they had, since
  the stream has no command that erases the screen.
\<close>

theorem menu_shown:
  assumes "wf_screen (d_screen p)" and "rows (d_screen p) = 24" and "cols (d_screen p) = 80" and "addressing_mode p = MODE_12_BIT"
    and "\<forall>b \<in> set (concat (title # options)). text_byte b" and "length title \<le> 80"
    and "length options \<le> 22" and "\<forall>str \<in> set options. length str \<le> 78"
  shows "\<exists>q. parse (build_menu_screen title options 80) 0 p = Some (Inr (), q)
    \<and> field_starts (d_screen q) = field_starts (d_screen p) \<union> (\<lambda>i. int ((2 + i) * 80)) ` {0 ..< length options}
    \<and> (\<forall>r c. r < 24 \<longrightarrow> c < 80 \<longrightarrow> buffer (d_screen q) ! (80 * r + c) =
         (if r = 0 \<and> c < length title then title ! c
          else if 2 \<le> r \<and> r < 2 + length options \<and> c \<le> length (options ! (r - 2)) then (0xF0 # options ! (r - 2)) ! c
          else buffer (d_screen p) ! (80 * r + c)))"
proof -
  let ?s = "d_screen p" and ?xs = "menu_pieces title options"
  have dims: "ssize ?s = 1920" "length (buffer ?s) = 1920" using assms(1-3) by (simp_all add: wf_screen_def wf_dims_def)
  note fits = menu_pieces_fit [OF dims(1) assms(3,5-8)]
  note small = menu_pieces_length [OF assms(6-8)]
  obtain q where q: "parse (0x00 # concat (map piece_bytes ?xs)) 0 p = Some (Inr (), q)"
    "buffer (d_screen q) = foldl (\<lambda>b x. overwrite (nat (piece_at x)) (piece_cells x) b) (overwrite 0 [] (buffer ?s)) ?xs"
    "field_starts (d_screen q) = field_starts ?s \<union> piece_at ` set (filter starts_field ?xs)"
    using parse_pieces [OF assms(1,4), of 0 "[]" ?xs] dims fits small by (auto simp: write_commands_def erase_write_commands_def)
  have starts: "piece_at ` set (filter starts_field ?xs) = (\<lambda>i. int ((2 + i) * 80)) ` {0 ..< length options}"
    using enumerate_pieces [of 0 options] assms(7) by (simp add: menu_pieces_def starts_field_def [of] piece_of_def)
  have b1: "overwrite (nat (piece_at (piece_of 0 None title))) (piece_cells (piece_of 0 None title)) (overwrite 0 [] (buffer ?s)) = overwrite 0 title (buffer ?s)"
    using piece_of_at [of 0 None title] by (simp add: piece_cells_def piece_of_def attr_cell_def overwrite_def)
  have len: "length (overwrite 0 title (buffer ?s)) = 1920" using assms(6) dims by simp
  have cells: "buffer (d_screen q) ! (80 * r + c) =
      (if 2 \<le> r \<and> r < 2 + length options \<and> c \<le> length (options ! (r - 2)) then (0xF0 # options ! (r - 2)) ! c
       else overwrite 0 title (buffer ?s) ! (80 * r + c))" if "r < 24" "c < 80" for r c
    using menu_lines_cells [OF assms(8) len, of 0 r c] that assms(7) unfolding q(2) menu_pieces_def foldl_Cons b1 by simp
  have over: "overwrite 0 title (buffer ?s) ! (80 * r + c) = (if r = 0 \<and> c < length title then title ! c else buffer ?s ! (80 * r + c))"
    if "r < 24" "c < 80" for r c
    using overwrite_nth [of 0 title "buffer ?s" "80 * r + c"] that assms(6) dims by auto
  have "buffer (d_screen q) ! (80 * r + c) =
         (if r = 0 \<and> c < length title then title ! c
          else if 2 \<le> r \<and> r < 2 + length options \<and> c \<le> length (options ! (r - 2)) then (0xF0 # options ! (r - 2)) ! c
          else buffer (d_screen p) ! (80 * r + c))" if "r < 24" "c < 80" for r c
    using cells [OF that] over [OF that] by auto
  with q starts show ?thesis unfolding menu_bytes by (intro exI [of _ q]) simp
qed

section \<open>Witness\<close>

definition demo_menu_parser :: dsp where
  "demo_menu_parser =
     (case ScreenBuffer_init 24 80 0x40 ''cp037'' of Inr s \<Rightarrow> DataStreamParser_init s False False MODE_12_BIT)"

lemma demo_menu_facts:
  "wf_screen (d_screen demo_menu_parser)" "rows (d_screen demo_menu_parser) = 24" "cols (d_screen demo_menu_parser) = 80"
  "addressing_mode demo_menu_parser = MODE_12_BIT" "field_starts (d_screen demo_menu_parser) = {}"
  "buffer (d_screen demo_menu_parser) = replicate 1920 0x40"
  by (simp_all add: demo_menu_parser_def ScreenBuffer_init_def DataStreamParser_init_def wf_screen_def wf_dims_def on_screen_def)

theorem menu_shown_witness:
  "\<exists>q. parse (build_menu_screen HELLO [WORLD] 80) 0 demo_menu_parser = Some (Inr (), q)
    \<and> buffer (d_screen q) ! 0 = 0xC8 \<and> buffer (d_screen q) ! 160 = 0xF0 \<and> buffer (d_screen q) ! 161 = 0xE6
    \<and> buffer (d_screen q) ! 80 = 0x40 \<and> field_starts (d_screen q) = {160}"
proof -
  have t: "\<forall>b \<in> set (concat (HELLO # [WORLD])). text_byte b" by (simp add: HELLO_def WORLD_def text_byte_def order_handler_def)
  obtain q where q: "parse (build_menu_screen HELLO [WORLD] 80) 0 demo_menu_parser = Some (Inr (), q)"
    "field_starts (d_screen q) = field_starts (d_screen demo_menu_parser) \<union> (\<lambda>i. int ((2 + i) * 80)) ` {0 ..< length [WORLD]}"
    "\<forall>r c. r < 24 \<longrightarrow> c < 80 \<longrightarrow> buffer (d_screen q) ! (80 * r + c) =
         (if r = 0 \<and> c < length HELLO then HELLO ! c
          else if 2 \<le> r \<and> r < 2 + length [WORLD] \<and> c \<le> length ([WORLD] ! (r - 2)) then (0xF0 # [WORLD] ! (r - 2)) ! c
          else buffer (d_screen demo_menu_parser) ! (80 * r + c))"
    using menu_shown [OF demo_menu_facts(1-4) t] by (auto simp: HELLO_def WORLD_def)
  have "buffer (d_screen q) ! 0 = 0xC8" using q(3) [rule_format, of 0 0] by (simp add: HELLO_def)
  moreover have "buffer (d_screen q) ! 160 = 0xF0" using q(3) [rule_format, of 2 0] by simp
  moreover have "buffer (d_screen q) ! 161 = 0xE6" using q(3) [rule_format, of 2 1] by (simp add: WORLD_def)
  moreover have "buffer (d_screen q) ! 80 = 0x40" using q(3) [rule_format, of 1 0] by (simp add: demo_menu_facts)
  ultimately show ?thesis using q(1,2) by (simp add: demo_menu_facts atLeast0_lessThan_Suc)
qed

end
