(* ===== verification/MockTalk.thy ===== *)
theory MockTalk
  imports MockServerProps NegotiationProps
begin

text \<open>
  The client and a mock server together: the records of the menus as the client receives them, and the
  negotiation in which each side gets what the other sends.
\<close>

section \<open>Records\<close>

text \<open>The two bytes that are to end a record are a telnet command that means nothing.\<close>

lemma telnet_step_record:
  assumes "telnet_buffer (rx_telnet r) = []" and "IAC \<notin> set bs"
  shows "telnet_step (bs @ end_mark) r = ((bs, detect_vt100_sequences bs), r)"
proof -
  have s: "(rx_telnet r)\<lparr>telnet_buffer := []\<rparr> = rx_telnet r" using assms(1) by simp
  have e: "escape_iac bs = bs" using assms(2) by (induction bs) (auto simp: escape_iac_def)
  have "telnet_loop negotiator_instance end_mark bs t = (bs, t)" for t
    using telnet_loop_steps(8) [of "0x19" negotiator_instance "[]" bs t]
    by (simp add: end_mark_def negotiation_commands_def handle_telnet_command_def)
  then have "telnet_loop negotiator_instance (bs @ end_mark) [] (rx_telnet r) = (bs, rx_telnet r)"
    using telnet_loop_escaped [of negotiator_instance bs end_mark "[]" "rx_telnet r"] e by simp
  then show ?thesis using assms(1) by (simp add: telnet_step_def process_telnet_stream_def s)
qed

lemma receive_record:
  assumes "ready r" and "\<not> ng_ascii (rx_neg r)" and "IAC \<notin> set bs" and "bs \<noteq> []" and "\<not> detect_vt100_sequences bs"
    and "handle_tn3270_mode now bs r = (Inr (Some out), r')"
  shows "receive_data enc now (Chunk (bs @ end_mark) # as) r = (Inr out, r', as)"
  using telnet_step_record [of r bs] assms
  by (simp add: receive_data_def ready_def process_part_def handle_data_def in_ascii_mode_def note_detection_def)

text \<open>A record of type 0 whose first five bytes are a header that answers nothing.\<close>

lemma record_with_header:
  assumes "from_bytes (take 5 bs) = Some h" and "h_data_type h = 0" and "ng_pending (rx_neg r) = []"
    and "\<not> (take 4 bs = [0, 0, 0, 0] \<and> bs ! 4 = 0xF5)" and "bs \<noteq> []" and "last bs \<noteq> 0x19"
  shows "\<exists>out. handle_tn3270_mode now bs r = (Inr (Some out), run_parser (strip_f5 (strip_zero_blocks (drop 5 bs))) 0 (note_sequence_number now h r))"
proof -
  have k: "rx_neg (note_sequence_number now h r) = rx_neg r" by (simp add: note_sequence_number_def Let_def)
  have "note_response h (note_sequence_number now h r) = (None, note_sequence_number now h r)"
    using assms(3) k by (simp add: note_response_def handle_tn3270e_response_def set_rx_neg_def)
  moreover have "get_fixture_header_len bs 5 = 5" using assms(4) by (auto simp: get_fixture_header_len_def)
  ultimately show ?thesis
    using assms(1,2,5) rstrip_19_last [OF assms(5,6)]
    by (simp add: handle_tn3270_mode_def TN3270E_DATA_TYPES_def deliver_payload_def Let_def)
qed

definition menu_piece :: "byte \<Rightarrow> byte \<Rightarrow> bytes \<Rightarrow> piece" where
  "menu_piece hi lo str = (hi, lo, Some 0xF0, str)"

lemma menu_text: "\<forall>b \<in> set HELLO. text_byte b" "\<forall>b \<in> set WORLD. text_byte b"
  by (simp_all add: HELLO_def WORLD_def text_byte_def order_handler_def)

lemma menu_piece_facts:
  "piece_at (menu_piece 0 0 str) = 0" "piece_at (menu_piece 0x01 0x10 str) = 80" "piece_cells (menu_piece hi lo str) = 0xF0 # str"
  "starts_field (menu_piece hi lo str)"
  by (simp_all add: menu_piece_def piece_at_def piece_cells_def attr_cell_def addr12_eq starts_field_def)

lemma menu_piece_fits:
  assumes "ssize s = 1920" and "cols s = 80" and "str = HELLO \<or> str = WORLD"
  shows "piece_fits s (menu_piece 0 0 str)" and "piece_fits s (menu_piece 0x01 0x10 str)"
  using assms menu_text
  by (auto simp: piece_fits_def menu_piece_facts) (auto simp: menu_piece_def HELLO_def WORLD_def)

lemma menu_with_header:
  assumes "ready r" and "\<not> ng_ascii (rx_neg r)" and "ng_pending (rx_neg r) = []" and "wf_screen (rx_screen r)"
    and "rows (rx_screen r) = 24" and "cols (rx_screen r) = 80" and "addressing_mode (rx_parser r) = MODE_12_BIT"
  shows "\<exists>out r'. receive_data enc now (Chunk (data_header @ build_menu_stream @ end_mark) # as) r = (Inr out, r', as)
      \<and> buffer (rx_screen r') = overwrite 80 (0xF0 # WORLD) (overwrite 0 (0xF0 # HELLO) (buffer (rx_screen r)))
      \<and> field_starts (rx_screen r') = field_starts (rx_screen r) \<union> {0, 80}"
proof -
  have size: "ssize (rx_screen r) = 1920" using assms(4-6) by (simp add: wf_screen_def wf_dims_def)
  have keep: "rx_parser (note_sequence_number now h r) = rx_parser r" for h
    by (simp add: note_sequence_number_def Let_def)
  note fits = menu_piece_fits [OF size assms(6)]
  let ?bs = "data_header @ build_menu_stream" and ?xs = "[menu_piece 0 0 HELLO, menu_piece 0x01 0x10 WORLD]"
  have bs: "?bs = [0, 0, 0, 0, 1] @ 0x00 # concat (map piece_bytes ?xs)"
    by (simp add: data_header_def to_bytes_def is_byte_def build_menu_stream_def menu_piece_def piece_bytes_def field_order_def)
  obtain h where h: "from_bytes (take 5 ?bs) = Some h" "h_data_type h = 0" unfolding bs by (simp add: from_bytes_def be16_eq)
  have "strip_f5 (strip_zero_blocks (drop 5 ?bs)) = 0x00 # concat (map piece_bytes ?xs)"
    unfolding bs by (simp add: strip_f5_def menu_piece_def piece_bytes_def)
  then obtain out where out: "handle_tn3270_mode now ?bs r
      = (Inr (Some out), run_parser (0x00 # concat (map piece_bytes ?xs)) 0 (note_sequence_number now h r))"
    using record_with_header [OF h assms(3), of now] unfolding bs by (auto simp: menu_piece_def piece_bytes_def WORLD_def)
  obtain q where q: "parse (0x00 # concat (map piece_bytes ?xs)) 0 (rx_parser r) = Some (Inr (), q)"
    "buffer (d_screen q) = foldl (\<lambda>b x. overwrite (nat (piece_at x)) (piece_cells x) b) (overwrite 0 [] (buffer (rx_screen r))) ?xs"
    "field_starts (d_screen q) = field_starts (rx_screen r) \<union> piece_at ` set (filter starts_field ?xs)"
    using parse_pieces [OF assms(4,7), of 0 "[]" ?xs] size fits
    by (auto simp: write_commands_def erase_write_commands_def menu_piece_def piece_bytes_def field_order_def HELLO_def WORLD_def)
  have v: "IAC \<notin> set ?bs" "?bs \<noteq> []" "\<not> detect_vt100_sequences ?bs"
    unfolding bs by (simp_all add: menu_piece_def piece_bytes_def field_order_def HELLO_def WORLD_def detect_vt100_sequences_def)
  from receive_record [OF assms(1,2) v out] q keep show ?thesis
    by (simp add: run_parser_def menu_piece_facts overwrite_def)
qed

lemma menu_without_header:
  assumes "ready r" and "\<not> ng_ascii (rx_neg r)" and "ng_pending (rx_neg r) = []" and "wf_screen (rx_screen r)"
    and "rows (rx_screen r) = 24" and "cols (rx_screen r) = 80" and "addressing_mode (rx_parser r) = MODE_12_BIT"
  shows "\<exists>out r'. receive_data enc now (Chunk (build_menu_stream @ end_mark) # as) r = (Inr out, r', as)
      \<and> buffer (rx_screen r') = overwrite 80 (0xF0 # WORLD) (overwrite 0 HELLO (buffer (rx_screen r)))
      \<and> field_starts (rx_screen r') = field_starts (rx_screen r) \<union> {80}"
proof -
  have size: "ssize (rx_screen r) = 1920" using assms(4-6) by (simp add: wf_screen_def wf_dims_def)
  have keep: "rx_parser (note_sequence_number now h r) = rx_parser r" for h
    by (simp add: note_sequence_number_def Let_def)
  note fits = menu_piece_fits [OF size assms(6)]
  let ?bs = build_menu_stream and ?xs = "[menu_piece 0x01 0x10 WORLD]"
  have bs: "?bs = [0x00, 0x11, 0x00, 0x00, 0x1D] @ 0xF0 # HELLO @ concat (map piece_bytes ?xs)"
    by (simp add: build_menu_stream_def menu_piece_def piece_bytes_def field_order_def)
  obtain h where h: "from_bytes (take 5 ?bs) = Some h" "h_data_type h = 0" unfolding bs by (simp add: from_bytes_def be16_eq)
  have "strip_f5 (strip_zero_blocks (drop 5 ?bs)) = 0xF0 # HELLO @ concat (map piece_bytes ?xs)"
    unfolding bs by (simp add: strip_f5_def HELLO_def)
  then obtain out where out: "handle_tn3270_mode now ?bs r
      = (Inr (Some out), run_parser (0xF0 # HELLO @ concat (map piece_bytes ?xs)) 0 (note_sequence_number now h r))"
    using record_with_header [OF h assms(3), of now] unfolding bs by (auto simp: menu_piece_def piece_bytes_def WORLD_def)
  obtain q where q: "parse (0xF0 # HELLO @ concat (map piece_bytes ?xs)) 0 (rx_parser r) = Some (Inr (), q)"
    "buffer (d_screen q) = foldl (\<lambda>b x. overwrite (nat (piece_at x)) (piece_cells x) b) (overwrite 0 HELLO (buffer (rx_screen r))) ?xs"
    "field_starts (d_screen q) = field_starts (rx_screen r) \<union> piece_at ` set (filter starts_field ?xs)"
    using parse_pieces [OF assms(4,7), of "0xF0" HELLO ?xs] size fits menu_text
    by (auto simp: write_commands_def erase_write_commands_def menu_piece_def piece_bytes_def field_order_def HELLO_def WORLD_def)
  have v: "IAC \<notin> set ?bs" "?bs \<noteq> []" "\<not> detect_vt100_sequences ?bs"
    unfolding bs by (simp_all add: menu_piece_def piece_bytes_def field_order_def HELLO_def WORLD_def detect_vt100_sequences_def)
  from receive_record [OF assms(1,2) v out] q keep show ?thesis
    by (simp add: run_parser_def menu_piece_facts)
qed

text \<open>
  C13. The menu of the servers that send no TN3270E header and of those that send one, as the client receives them. With
  the header two fields are shown. Without it the client takes the first five bytes of the stream for a header, and with
  them the control character, the address and the order of the first field: the next byte counts as the control character,
  and the first text stands in the first position with no field.
\<close>

theorem menu_records:
  assumes "ready r" and "\<not> ng_ascii (rx_neg r)" and "ng_pending (rx_neg r) = []" and "wf_screen (rx_screen r)"
    and "rows (rx_screen r) = 24" and "cols (rx_screen r) = 80" and "addressing_mode (rx_parser r) = MODE_12_BIT"
  shows "(\<exists>out r'. receive_data enc now (Chunk (data_header @ build_menu_stream @ end_mark) # as) r = (Inr out, r', as)
       \<and> buffer (rx_screen r') = overwrite 80 (0xF0 # WORLD) (overwrite 0 (0xF0 # HELLO) (buffer (rx_screen r)))
       \<and> field_starts (rx_screen r') = field_starts (rx_screen r) \<union> {0, 80})
    \<and> (\<exists>out r'. receive_data enc now (Chunk (build_menu_stream @ end_mark) # as) r = (Inr out, r', as)
       \<and> buffer (rx_screen r') = overwrite 80 (0xF0 # WORLD) (overwrite 0 HELLO (buffer (rx_screen r)))
       \<and> field_starts (rx_screen r') = field_starts (rx_screen r) \<union> {80})"
  using menu_with_header [OF assms] menu_without_header [OF assms] by blast

definition demo_menu_receiver :: receiver where
  "demo_menu_receiver = demo_receiver\<lparr>rx_parser := demo_menu_parser\<rparr>"

theorem menu_records_witness:
  "(\<exists>out r'. receive_data (\<lambda>b. None) 0 [Chunk (data_header @ build_menu_stream @ end_mark)] demo_menu_receiver = (Inr out, r', [])
     \<and> field_starts (rx_screen r') = {0, 80})
   \<and> (\<exists>out r'. receive_data (\<lambda>b. None) 0 [Chunk (build_menu_stream @ end_mark)] demo_menu_receiver = (Inr out, r', [])
     \<and> field_starts (rx_screen r') = {80})"
proof -
  have f: "ready demo_menu_receiver" "\<not> ng_ascii (rx_neg demo_menu_receiver)" "ng_pending (rx_neg demo_menu_receiver) = []"
    "rx_parser demo_menu_receiver = demo_menu_parser"
    using demo_neg_facts demo_receiver_facts
    by (simp_all add: demo_menu_receiver_def demo_receiver_def demo_neg_telnet_def ready_def)
  note menu_records [OF f(1-3), of "\<lambda>b. None" 0 "[]"]
  then show ?thesis using demo_menu_facts f(4) by auto
qed

section \<open>The negotiation\<close>

text \<open>The client takes what is on the wire and answers. Both sides in turn.\<close>

definition client_answer :: "bytes \<Rightarrow> neg telnet \<Rightarrow> neg telnet \<times> bytes" where
  "client_answer wire t =
     (let t1 = fst (feed_telnet negotiator_instance (t, []) wire)
      in (t1, drop (length (ng_out (negotiator t))) (ng_out (negotiator t1))))"

definition greeting :: mock where
  "greeting = mock_option 0x28 (mock_option 0x19 (mock_option 0x18 mock_init))"

definition device_wire :: "mock_config \<Rightarrow> mock \<Rightarrow> bytes" where
  "device_wire c m = (case ask_device_type c [] m of None \<Rightarrow> [] | Some m1 \<Rightarrow> drop (length (mk_wire m)) (mk_wire m1))"

text \<open>The last answer is that to the device type and the functions.\<close>

definition conversation :: "mock_config \<Rightarrow> neg telnet \<Rightarrow> mock \<times> neg telnet" where
  "conversation c t0 =
     (let (t1, a1) = client_answer (mk_wire (ask_terminal [] greeting)) t0;
          m1 = ask_terminal a1 greeting;
          (t2, a2) = client_answer (device_wire c m1) t1
      in case ask_device_type c a2 m1 of
           None \<Rightarrow> (menu_tn3270e c (a1, a2, []), t2)
         | Some m2 \<Rightarrow>
             (let (t3, a3) = client_answer (drop (length (mk_wire m1) + length (device_wire c m1)) (mk_wire (ask_functions c [] m2))) t2
              in (menu_tn3270e c (a1, a2, a3), t3)))"

lemma feed_whole:
  assumes "telnet_buffer t = []" and "telnet_loop negotiator_instance bs [] t = ([], t\<lparr>negotiator := n\<rparr>)"
  shows "client_answer bs t = (t\<lparr>negotiator := n\<rparr>, drop (length (ng_out (negotiator t))) (ng_out n))"
proof -
  have e: "t\<lparr>telnet_buffer := []\<rparr> = t" using assms(1) by simp
  show ?thesis using assms by (simp add: client_answer_def feed_telnet_def process_telnet_stream_def e)
qed

lemma split_se_answer: "SE \<notin> set p \<Longrightarrow> split_se (p @ IAC # SE # post) = Some (p, post)"
proof (induction p)
  case (Cons x p)
  then show ?case by (cases p) auto
qed simp

lemma ascii_plain:
  assumes "ascii_encode str = Some bs"
  shows "IAC \<notin> set bs" and "SE \<notin> set bs"
proof -
  have "\<forall>b \<in> set bs. b < 0x80"
    using assms by (auto simp: ascii_encode_def is_ascii_def list_all_iff char_byte_less split: if_splits)
  then show "IAC \<notin> set bs" "SE \<notin> set bs" by auto
qed

lemma read_answer: "SE \<notin> set p \<Longrightarrow> mk_unread m = [] \<Longrightarrow>
    read_until_se (p @ [IAC, SE]) m = (True, m\<lparr>mk_received := mk_received m @ [p @ [IAC, SE]]\<rparr>)"
  using split_se_answer [of p "[]"] by (simp add: read_until_se_def)

lemma read_nothing: "mk_unread m = [] \<Longrightarrow> read_until_se [] m = (False, m)"
  by (simp add: read_until_se_def)

lemma signal_strict [simp]: "ng_strict (signal_device n) = ng_strict n"
  by (simp_all add: signal_device_event_def maybe_finalize_negotiation_def set_negotiated_flag_def Let_def)

lemma signal_negotiated:
  assumes "\<not> ng_functions_event n" and "ng_supports n"
  shows "ng_negotiated (signal_device n) \<longleftrightarrow> ng_negotiated n \<or> \<not> ng_strict n"
  using assms by (simp add: signal_device_event_def maybe_finalize_negotiation_def set_negotiated_flag_def Let_def)

text \<open>The messages of the server, as the client takes them.\<close>

lemma will_options:
  assumes "ng_writer n" and "ng_drains n"
  shows "handle_iac_command 0xFB 0x18 n = (None, n\<lparr>ng_out := ng_out n @ [IAC, 0xFD, 0x18]\<rparr>)"
    and "handle_iac_command 0xFB 0x19 n = (None, n\<lparr>ng_out := ng_out n @ [IAC, 0xFD, 0x19]\<rparr>)"
    and "handle_iac_command 0xFB 0x28 n = (None, n\<lparr>ng_out := ng_out n @ [IAC, 0xFD, 0x28], ng_supports := True\<rparr>)"
  using assms by (simp_all add: handle_iac_command_def handle_will_def accepted_will_def step_with_def send_iac_def put_def
      safe_drain_writer_def)

lemma terminal_asked:
  assumes "ng_writer n" and "ascii_encode (terminal_type_answer n) = Some ty"
  shows "handle_subnegotiation 0x18 [0x01] n = (None, n\<lparr>ng_out := ng_out n @ [IAC, SB, 0x18, 0x00] @ ty @ [IAC, SE]\<rparr>)"
  using assms by (simp add: handle_subnegotiation_def MAX_SUBPAYLOAD_BYTES_def handle_terminal_type_def when_writer_def
      send_subneg_def send_subnegotiation_def put_def)

lemma device_asked:
  assumes "ng_writer n" and "ng_drains n" and "ng_device_types n \<noteq> []"
    and "device_request (ng_terminal_type n) (ng_printer_session n) = (dt, lu)"
    and "ascii_encode dt = Some d" and "ascii_encode lu = Some l"
    and "p = [0x02, 0x08] \<or> (\<exists>name. p = [0x02, 0x07] @ name @ [0x00] \<and> name \<noteq> [] \<and> list_all (\<lambda>b. 0x20 \<le> b \<and> b < 0x7F) name \<and> length name \<le> 240)"
  shows "handle_subnegotiation 0x28 p n
       = (None, signal_device (n\<lparr>ng_out := ng_out n @ [IAC, SB, 0x28, 0x02, 0x07] @ d @ [0x00] @ l @ [IAC, SE]\<rparr>))"
proof -
  have sup: "send_supported_device_types n
      = (None, signal_device (n\<lparr>ng_out := ng_out n @ [IAC, SB, 0x28, 0x02, 0x07] @ d @ [0x00] @ l @ [IAC, SE]\<rparr>))"
    using assms(1-6) by (simp add: send_supported_device_types_def step_with_def send_subnegotiation_def put_def safe_drain_writer_def)
  from assms(7) consider "p = [0x02, 0x08]"
    | x xs where "p = 0x02 # 0x07 # x # xs @ [0x00]" "0x20 \<le> x" "x < 0x7F" "length xs < 240"
    by (auto simp: neq_Nil_conv list_all_iff)
  then show ?thesis
  proof cases
    case 2
    then have "x \<notin> {0x00, 0x01, 0x02}" by (auto simp: word_le_nat_alt)
    then have "bare_header p p = None" using 2(1) no_header [of "0x02" "x # xs @ [0x00]" "0x07"] by simp
    with 2 sup show ?thesis
      by (simp add: handle_subnegotiation_def MAX_SUBPAYLOAD_BYTES_def parse_tn3270e_subnegotiation_def
          tn3270e_command_def device_type_command_def)
  qed (use sup in \<open>simp add: handle_subnegotiation_def MAX_SUBPAYLOAD_BYTES_def parse_tn3270e_subnegotiation_def
        bare_header_def tn3270e_command_def device_type_command_def\<close>)
qed

lemma device_named:
  assumes "name \<noteq> []" and "list_all (\<lambda>b. 0x20 \<le> b \<and> b < 0x7F) name" and "length name \<le> 240" and "length lu \<le> 10"
    and "map byte_char name \<noteq> ''IBM-DYNAMIC''"
  shows "handle_subnegotiation 0x28 ([0x02, 0x04] @ name @ [0x00] @ lu) n = (None, signal_device (n\<lparr>ng_device_type := Some (map byte_char name)\<rparr>))"
proof -
  have c: "b \<noteq> 0 \<and> b < 0x80 \<and> b \<notin> {0x00, 0x01, 0x02}" if "b \<in> set name" for b
  proof -
    have "0x20 \<le> b" "b < 0x7F" using assms(2) that by (auto simp: list_all_iff)
    then show ?thesis by (auto simp: word_le_nat_alt word_less_nat_alt)
  qed
  then have "before_nul (name @ 0 # lu) = name" by (intro before_nul_word) auto
  moreover have "ascii_decode_ignore name = map byte_char name" using c by (simp add: ascii_decode_ignore_def filter_id_conv)
  ultimately have nm: "device_name (name @ 0 # lu) = map byte_char name" by (simp add: device_name_def)
  have "hd (name @ [0] @ lu) \<notin> {0x00, 0x01, 0x02}" using c assms(1) by (cases name) auto
  then have "bare_header (0x02 # 0x04 # name @ 0 # lu) (0x02 # 0x04 # name @ 0 # lu) = None"
    using no_header [of "0x02" "name @ 0 # lu" "0x04"] by simp
  with assms(1,3-5) nm show ?thesis
    by (simp add: handle_subnegotiation_def MAX_SUBPAYLOAD_BYTES_def parse_tn3270e_subnegotiation_def
        tn3270e_command_def device_type_command_def device_is_def step_with_def no_step_def)
qed

text \<open>The list of functions 1, 2 and 3 of the server is taken for a header, whatever the message is.\<close>

lemma functions_lost:
  assumes "ng_pending n = []"
  shows "handle_subnegotiation 0x28 [0x03, kind, 0x01, 0x02, 0x03] n = (None, n)"
proof -
  have "bare_header [0x03, kind, 0x01, 0x02, 0x03] [0x03, kind, 0x01, 0x02, 0x03]
      = Some \<lparr>h_data_type = 3, h_request_flag = uint kind, h_response_flag = 1, h_seq_number = 0x0203\<rparr>"
    by (auto simp: bare_header_def from_bytes_def be16_eq)
  with assms show ?thesis
    by (simp add: handle_subnegotiation_def MAX_SUBPAYLOAD_BYTES_def parse_tn3270e_subnegotiation_def handle_tn3270e_response_def)
qed

text \<open>What the client makes of each part of the server's stream.\<close>

definition terminal_answer :: "bytes \<Rightarrow> bytes" where
  "terminal_answer ty = [IAC, 0xFD, 0x18, IAC, 0xFD, 0x19, IAC, 0xFD, 0x28, IAC, SB, 0x18, 0x00] @ ty @ [IAC, SE]"

definition device_answer :: "bytes \<Rightarrow> bytes \<Rightarrow> bytes" where
  "device_answer d l = [IAC, SB, 0x28, 0x02, 0x07] @ d @ [0x00] @ l @ [IAC, SE]"

definition after_terminal :: "bytes \<Rightarrow> neg \<Rightarrow> neg" where
  "after_terminal ty n = n\<lparr>ng_supports := True, ng_out := ng_out n @ terminal_answer ty\<rparr>"

definition after_device :: "bytes \<Rightarrow> bytes \<Rightarrow> neg \<Rightarrow> neg" where
  "after_device d l n = signal_device (n\<lparr>ng_out := ng_out n @ device_answer d l\<rparr>)"

definition after_type :: "string \<Rightarrow> neg \<Rightarrow> neg" where
  "after_type given n = signal_device (n\<lparr>ng_device_type := Some given\<rparr>)"

lemma neg_operations [simp]:
  "neg_iac_command negotiator_instance c opt n = snd (handle_iac_command c opt n)"
  "neg_subnegotiation negotiator_instance opt p n = snd (handle_subnegotiation opt p n)"
  by (simp_all add: negotiator_instance_def)

lemma client_terminal:
  assumes "telnet_buffer t = []" and "ng_writer (negotiator t)" and "ng_drains (negotiator t)"
    and "ascii_encode (terminal_type_answer (negotiator t)) = Some ty"
  shows "client_answer (mk_wire (ask_terminal [] greeting)) t = (t\<lparr>negotiator := after_terminal ty (negotiator t)\<rparr>, terminal_answer ty)"
proof -
  let ?N = negotiator_instance
  have w: "mk_wire (ask_terminal [] greeting)
      = [IAC, 0xFB, 0x18] @ [IAC, 0xFB, 0x19] @ [IAC, 0xFB, 0x28] @ [IAC, SB, 0x18] @ [0x01] @ [IAC, SE] @ []"
    by (simp add: ask_terminal_def greeting_def mock_option_def mock_send_def write_only_def mock_init_def read_until_se_def)
  have c: "0xFB \<in> set negotiation_commands" by (simp add: negotiation_commands_def)
  have "terminal_type_answer ((negotiator t)\<lparr>ng_out := x, ng_supports := True\<rparr>) = terminal_type_answer (negotiator t)" for x
    by (simp add: terminal_type_answer_def)
  then have ty: "ascii_encode (terminal_type_answer ((negotiator t)\<lparr>ng_out := x, ng_supports := True\<rparr>)) = Some ty" for x
    using assms(4) by simp
  have sub: "telnet_loop ?N [IAC, SB, 0x18, 0x01, IAC, SE] [] u = ([], u\<lparr>negotiator := snd (handle_subnegotiation 0x18 [0x01] (negotiator u))\<rparr>)" for u
    using loop_subnegotiation [of "0x18" "[0x01]" ?N "[]" "[]" u] by simp
  have "telnet_loop ?N (mk_wire (ask_terminal [] greeting)) [] t = ([], t\<lparr>negotiator := after_terminal ty (negotiator t)\<rparr>)"
    unfolding w loop_option [OF c] after_terminal_def terminal_answer_def
    using assms(2,3) terminal_asked [OF _ ty] by (simp add: sub will_options loop_option [OF c, simplified])
  from feed_whole [OF assms(1) this] show ?thesis by (simp add: after_terminal_def)
qed

definition device_question :: "mock_config \<Rightarrow> bytes \<Rightarrow> bytes" where
  "device_question c name = (if mc_requested c = [] then [0x02, 0x08] else [0x02, 0x07] @ name @ [0x00])"

lemma client_device:
  assumes "telnet_buffer t = []" and "n = negotiator t" and "ng_writer n" and "ng_drains n" and "ng_device_types n \<noteq> []"
    and "device_request (ng_terminal_type n) (ng_printer_session n) = (dt, lu)" and "ascii_encode dt = Some d" and "ascii_encode lu = Some l"
    and "name \<noteq> []" and "list_all (\<lambda>b. 0x20 \<le> b \<and> b < 0x7F) name" and "length name \<le> 240"
  shows "client_answer ([IAC, SB, 0x28] @ device_question c name @ [IAC, SE]) t = (t\<lparr>negotiator := after_device d l n\<rparr>, device_answer d l)"
proof -
  have i: "IAC \<notin> set (device_question c name)" using assms(10) by (auto simp: device_question_def list_all_iff word_less_nat_alt)
  have "handle_subnegotiation 0x28 (device_question c name) n = (None, after_device d l n)"
    unfolding after_device_def device_answer_def
    by (rule device_asked [OF assms(3-8)]) (use assms(9-11) in \<open>simp add: device_question_def\<close>)
  with loop_subnegotiation [OF _ i, of "0x28" negotiator_instance "[]" "[]" t] assms(2)
  have "telnet_loop negotiator_instance ([IAC, SB, 0x28] @ device_question c name @ [IAC, SE]) [] t = ([], t\<lparr>negotiator := after_device d l n\<rparr>)"
    by simp
  from feed_whole [OF assms(1) this] assms(2) show ?thesis by (simp add: after_device_def)
qed

definition lu_given :: bytes where
  "lu_given = [0x54, 0x44, 0x43, 0x30, 0x31, 0x37, 0x30, 0x32]"

definition functions_kinds :: "mock_config \<Rightarrow> bytes" where
  "functions_kinds c = (if mc_functions_request c then [0x07] else [0x08, 0x04])"

lemma client_type:
  assumes "telnet_buffer t = []" and "n = negotiator t" and "ng_pending n = []" and "given \<noteq> ''IBM-DYNAMIC''" and "map byte_char name = given"
    and "name \<noteq> []" and "list_all (\<lambda>b. 0x20 \<le> b \<and> b < 0x7F) name" and "length name \<le> 240"
  shows "client_answer (type_is name lu_given @ concat (map functions_message (functions_kinds c))) t = (t\<lparr>negotiator := after_type given n\<rparr>, [])"
proof -
  let ?N = negotiator_instance and ?t = "t\<lparr>negotiator := after_type given n\<rparr>"
  have f: "telnet_loop ?N (functions_message k @ ds) out ?t = telnet_loop ?N ds out ?t" if "k \<noteq> IAC" for k ds out
  proof -
    have i: "IAC \<notin> set [0x03, k, 0x01, 0x02, 0x03]" using that by simp
    have "ng_pending (after_type given n) = []" using assms(3) by (simp add: after_type_def)
    from loop_subnegotiation [OF _ i, of "0x28" ?N ds out ?t] functions_lost [OF this, of k]
    show ?thesis by (simp add: functions_message_def)
  qed
  have i: "IAC \<notin> set ([0x02, 0x04] @ name @ [0x00] @ lu_given)" using assms(7) by (auto simp: list_all_iff word_less_nat_alt lu_given_def)
  have "handle_subnegotiation 0x28 ([0x02, 0x04] @ name @ [0x00] @ lu_given) n = (None, after_type given n)"
    unfolding after_type_def using device_named [OF assms(6-8), of lu_given n] assms(4,5) by (simp add: lu_given_def)
  then have "telnet_loop ?N (type_is name lu_given @ ds) [] t = telnet_loop ?N ds [] ?t" for ds
    using loop_subnegotiation [OF _ i, of "0x28" ?N ds "[]" t] assms(2) by (simp add: type_is_def)
  then have "telnet_loop ?N (type_is name lu_given @ concat (map functions_message (functions_kinds c))) [] t = ([], ?t)"
    using f [of "0x07" "[]"] f [of "0x08" "functions_message 0x04"] f [of "0x04" "[]"] by (simp add: functions_kinds_def)
  from feed_whole [OF assms(1) this] assms(2) show ?thesis by (simp add: after_type_def)
qed

text \<open>What the server writes and notes, given those answers.\<close>

lemma server_terminal:
  assumes "IAC \<notin> set ty" and "SE \<notin> set ty"
  shows "mk_unread (ask_terminal (terminal_answer ty) greeting) = []"
    and "mk_received (ask_terminal (terminal_answer ty) greeting) = [terminal_answer ty]"
proof -
  have "SE \<notin> set ([IAC, 0xFD, 0x18, IAC, 0xFD, 0x19, IAC, 0xFD, 0x28, IAC, SB, 0x18, 0x00] @ ty)" using assms by simp
  note read_answer [OF this]
  then show "mk_unread (ask_terminal (terminal_answer ty) greeting) = []"
    "mk_received (ask_terminal (terminal_answer ty) greeting) = [terminal_answer ty]"
    by (simp_all add: ask_terminal_def terminal_answer_def greeting_def mock_option_def mock_send_def write_only_def mock_init_def)
qed

lemma server_device:
  assumes "mk_unread m = []" and "given = (if mc_requested c = [] then mc_default_type c else mc_requested c)" and "ascii_encode given = Some name"
    and "SE \<notin> set (d @ l)" and "q = [IAC, SB, 0x28] @ device_question c name @ [IAC, SE]"
    and "m' = mock_send (type_is name lu_given) ((mock_send q m)\<lparr>mk_received := mk_received m @ [device_answer d l]\<rparr>)"
  shows "device_wire c m = q" and "ask_device_type c (device_answer d l) m = Some m'"
    and "drop (length (mk_wire m) + length q) (mk_wire (ask_functions c [] m')) = type_is name lu_given @ concat (map functions_message (functions_kinds c))"
    and "mk_received (ask_functions c [] m') = mk_received m @ [device_answer d l]"
proof -
  have lu: "ascii_encode ''TDC01702'' = Some lu_given" unfolding lu_given_def by code_simp
  have req: "(if mc_requested c = [] then Some [IAC, SB, 0x28, 0x02, 0x08, IAC, SE]
        else map_option (\<lambda>dt. [IAC, SB, 0x28, 0x02, 0x07] @ dt @ [0x00, IAC, SE]) (ascii_encode (mc_requested c))) = Some q"
    using assms(2,3,5) by (auto simp: device_question_def)
  show "device_wire c m = q"
    unfolding device_wire_def ask_device_type_def req using read_nothing [of "mock_send q m"] assms(1)
    by (simp add: mock_send_def write_only_def)
  have "SE \<notin> set ([IAC, SB, 0x28, 0x02, 0x07] @ d @ [0x00] @ l)" using assms(4) by simp
  from read_answer [OF this, of "mock_send q m"] show "ask_device_type c (device_answer d l) m = Some m'"
    unfolding ask_device_type_def req using assms(1-3) lu
    by (simp add: device_answer_def assms(6) mock_send_def write_only_def)
  show "drop (length (mk_wire m) + length q) (mk_wire (ask_functions c [] m')) = type_is name lu_given @ concat (map functions_message (functions_kinds c))"
    "mk_received (ask_functions c [] m') = mk_received m @ [device_answer d l]"
    using assms(1) by (simp_all add: ask_functions_def assms(6) functions_kinds_def read_until_se_def mock_send_def write_only_def)
qed

text \<open>
  C12. The client and the mock server negotiate with each other. The server gets the terminal type and the client's
  request of its own device type, whichever way it asks; the client takes the device type it is given. The server's
  functions never get through: a list of three is taken for a header in every message, so the client
  records none and answers none. In strict mode its negotiation is not complete when the first record comes.
\<close>

theorem mock_negotiation:
  assumes "telnet_buffer t0 = []" and "n0 = negotiator t0" and "ng_writer n0" and "ng_drains n0" and "ng_device_types n0 \<noteq> []"
    and "ng_pending n0 = []" and "\<not> ng_functions_event n0" and "\<not> ng_negotiated n0"
    and "device_request (ng_terminal_type n0) (ng_printer_session n0) = (dt, lu)" and "ascii_encode dt = Some d" and "ascii_encode lu = Some l"
    and "ascii_encode (terminal_type_answer n0) = Some ty"
    and "given = (if mc_requested c = [] then mc_default_type c else mc_requested c)" and "ascii_encode given = Some name"
    and "name \<noteq> []" and "list_all (\<lambda>b. 0x20 \<le> b \<and> b < 0x7F) name" and "length name \<le> 240" and "given \<noteq> ''IBM-DYNAMIC''"
    and "conversation c t0 = (m, t)" and "n = negotiator t"
  shows "mk_received m = [terminal_answer ty, device_answer d l]
    \<and> ng_device_type n = Some given \<and> ng_functions n = ng_functions n0 \<and> \<not> ng_functions_event n
    \<and> (ng_negotiated n \<longleftrightarrow> \<not> ng_strict n0)
    \<and> (\<exists>before. mk_trace m = before @ [data_header @ build_menu_stream, end_mark])"
proof -
  define n1 where "n1 = after_terminal ty n0"
  define n2 where "n2 = after_device d l n1"
  define n3 where "n3 = after_type given n2"
  define m1 where "m1 = ask_terminal (terminal_answer ty) greeting"
  define q where "q = [IAC, SB, 0x28] @ device_question c name @ [IAC, SE]"
  define m2 where "m2 = mock_send (type_is name lu_given) ((mock_send q m1)\<lparr>mk_received := mk_received m1 @ [device_answer d l]\<rparr>)"
  have given: "map byte_char name = given" using assms(14) by (auto simp: ascii_encode_def comp_def split: if_splits)
  have s1: "mk_unread m1 = []" "mk_received m1 = [terminal_answer ty]"
    unfolding m1_def by (rule server_terminal; rule ascii_plain [OF assms(12)])+
  have "SE \<notin> set (d @ l)" using ascii_plain [OF assms(10)] ascii_plain [OF assms(11)] by simp
  note s2 = server_device [OF s1(1) assms(13,14) this q_def m2_def]
  have c1: "client_answer (mk_wire (ask_terminal [] greeting)) t0 = (t0\<lparr>negotiator := n1\<rparr>, terminal_answer ty)"
    unfolding n1_def assms(2) by (rule client_terminal) (use assms(1-4,12) in simp_all)
  have c2: "client_answer q (t0\<lparr>negotiator := n1\<rparr>) = (t0\<lparr>negotiator := n2\<rparr>, device_answer d l)"
    using client_device [of "t0\<lparr>negotiator := n1\<rparr>" n1 dt lu d l name c] assms(1,3-5,9-11,15-17) by (simp add: q_def n2_def n1_def after_terminal_def)
  have c3: "client_answer (type_is name lu_given @ concat (map functions_message (functions_kinds c))) (t0\<lparr>negotiator := n2\<rparr>)
      = (t0\<lparr>negotiator := n3\<rparr>, [])"
    using client_type [of "t0\<lparr>negotiator := n2\<rparr>" n2 given name c] assms(1,6,15-18) given
    by (simp add: n3_def n2_def n1_def after_device_def after_terminal_def)
  have talk: "conversation c t0 = (menu_tn3270e c (terminal_answer ty, device_answer d l, []), t0\<lparr>negotiator := n3\<rparr>)"
    unfolding conversation_def c1 Let_def prod.case m1_def [symmetric] s2(1) c2 s2(2) option.case s2(3) c3 ..
  have m: "m = send_record (data_header @ build_menu_stream) (ask_functions c [] m2)"
    using talk assms(19) s2(2) by (simp add: menu_tn3270e_def m1_def greeting_def)
  have "ng_negotiated n3 \<longleftrightarrow> \<not> ng_strict n0"
    unfolding n3_def after_type_def n2_def after_device_def using assms(7,8) by (simp add: signal_negotiated n1_def after_terminal_def)
  moreover have "n = n3" using talk assms(19,20) by simp
  ultimately show ?thesis using m s2(4) s1(2) assms(7)
    by (simp add: send_record_def mock_send_def write_only_def n3_def n2_def n1_def after_type_def after_device_def after_terminal_def)
qed

text \<open>The server as the command line starts it, which names its device type in a request.\<close>

theorem mock_negotiation_witness:
  "let (m, t) = conversation (mock_server_init ''IBM-3278-2'' (Some ServerConfig) None None) demo_neg_telnet
   in ng_device_type (negotiator t) = Some ''IBM-3278-2-E'' \<and> ng_functions (negotiator t) = 0 \<and> \<not> ng_negotiated (negotiator t)
    \<and> length (mk_received m) = 2"
proof -
  let ?c = "mock_server_init ''IBM-3278-2'' (Some ServerConfig) None None"
  have t: "telnet_buffer demo_neg_telnet = []" "negotiator demo_neg_telnet = demo_neg" by (simp_all add: demo_neg_telnet_def)
  have r: "device_request ''IBM-3278-2'' False = (''IBM-3278-2-E'', ''TDC01702'')" by code_simp
  obtain d l where dl: "ascii_encode ''IBM-3278-2-E'' = Some d" "ascii_encode ''TDC01702'' = Some l"
    by (simp add: ascii_encode_def is_ascii_def)
  obtain ty where ty: "ascii_encode (terminal_type_answer demo_neg) = Some ty"
  proof -
    have "terminal_type_answer demo_neg = ''IBM-3278-2''" by code_simp
    with that show ?thesis by (simp add: ascii_encode_def is_ascii_def)
  qed
  have name: "ascii_encode ''IBM-3278-2-E'' = Some [0x49, 0x42, 0x4D, 0x2D, 0x33, 0x32, 0x37, 0x38, 0x2D, 0x32, 0x2D, 0x45]" by code_simp
  have e: "\<not> ng_functions_event demo_neg" "\<not> ng_negotiated demo_neg" by code_simp+
  obtain m u where mu: "conversation ?c demo_neg_telnet = (m, u)" by (cases "conversation ?c demo_neg_telnet")
  have rq: "mc_requested ?c = ''IBM-3278-2-E''" by (simp add: mock_server_init_def or_else_def ServerConfig_def)
  from mock_negotiation [OF t(1) t(2) [symmetric] demo_neg_facts(1-3,8) e _ dl ty refl _ _ _ _ _ mu refl] r name rq demo_neg_facts
  show ?thesis by (simp add: mu)
qed

end
