(* ===== verification/TraceReplay.thy ===== *)
theory TraceReplay
  imports Client3270 ParseProps
begin

text \<open>
  \<open>trace/replayer.py\<close>: reading the records of an s3270 trace and feeding them to a parser, and the resilient parsing of
  \<open>protocol/tn3270_handler.py\<close> that a replay through a session uses. A file is the list of its lines.
\<close>

section \<open>Lines of a trace\<close>

text \<open>The expression \<open>^([<>])\s+0x([0-9a-fA-F]+)\s+([0-9a-fA-F]+)\s*$\<close>: direction, offset and data.\<close>

definition is_hex :: "char \<Rightarrow> bool" where
  "is_hex c \<longleftrightarrow> hex_value c \<noteq> None"

definition hex_number :: "string \<Rightarrow> int" where
  "hex_number = foldl (\<lambda>n c. 16 * n + the (hex_value c)) 0"

definition trace_line :: "string \<Rightarrow> (char \<times> int \<times> string) option" where
  "trace_line l =
     (case l of
        [] \<Rightarrow> None
      | d # r \<Rightarrow>
          let r1 = dropWhile py_space r; r2 = drop 2 r1; off = takeWhile is_hex r2; r3 = dropWhile is_hex r2;
              r4 = dropWhile py_space r3; hex = takeWhile is_hex r4; r5 = dropWhile is_hex r4
          in if (d = CHR ''<'' \<or> d = CHR ''>'') \<and> r1 \<noteq> r \<and> begins ''0x'' r1 \<and> off \<noteq> [] \<and> r4 \<noteq> r3 \<and> hex \<noteq> []
                \<and> list_all py_space r5
             then Some (d, hex_number off, hex) else None)"

text \<open>The records so far, the bytes of the one being read, and its direction and offset.\<close>

type_synonym trace_state = "bytes list \<times> bytes \<times> (char \<times> int) option"

definition flush :: "bytes list \<Rightarrow> bytes \<Rightarrow> bytes list" where
  "flush rs b = (if b = [] then rs else rs @ [b])"

definition trace_step :: "trace_state \<Rightarrow> string \<Rightarrow> trace_state" where
  "trace_step = (\<lambda>(rs, b, start) raw.
     if py_strip raw = [] then (rs, b, start)
     else case trace_line (py_strip raw) of
            None \<Rightarrow> (flush rs b, [], None)
          | Some (d, off, hex) \<Rightarrow>
              (case fromhex hex of
                 None \<Rightarrow> (flush rs b, [], None)
               | Some bs \<Rightarrow>
                   (if (case start of None \<Rightarrow> False | Some (d', off') \<Rightarrow> d = d' \<and> off = off' + int (length b))
                    then (rs, b @ bs, start) else (flush rs b, bs, Some (d, off)))))"

definition parse_trace :: "string list \<Rightarrow> bytes list" where
  "parse_trace ls = (case foldl trace_step ([], [], None) ls of (rs, b, start) \<Rightarrow> flush rs b)"

section \<open>The size of the screen\<close>

text \<open>\<open>// rows N\<close> and \<open>// columns N\<close> in one of the first eight lines, the last one of each counts.\<close>

definition header_number :: "string \<Rightarrow> string \<Rightarrow> int option" where
  "header_number w l =
     (let r = dropWhile py_space (drop 2 l); r1 = drop (length w) r; r2 = dropWhile py_space r1;
          ds = takeWhile is_digit_char r2
      in if begins ''//'' l \<and> lower (take (length w) r) = w \<and> r2 \<noteq> r1 \<and> ds \<noteq> [] \<and> list_all py_space (dropWhile is_digit_char r2)
         then Some (digits_value ds) else None)"

definition screen_size_from_comments :: "string list \<Rightarrow> (int \<times> int) option" where
  "screen_size_from_comments ls =
     (let find = (\<lambda>w. fold (\<lambda>l n. case header_number w (py_strip l) of None \<Rightarrow> n | Some v \<Rightarrow> Some v) (take 8 ls) None)
      in case (find ''rows'', find ''columns'') of (Some r, Some c) \<Rightarrow> Some (r, c) | _ \<Rightarrow> None)"

definition detect_screen_size :: "string list \<Rightarrow> int \<times> int" where
  "detect_screen_size ls = (case screen_size_from_comments ls of Some rc \<Rightarrow> rc | None \<Rightarrow> (24, 80))"

section \<open>Replaying to a parser\<close>

definition replayer_parser :: "int \<times> int \<Rightarrow> py_error + dsp" where
  "replayer_parser rc =
     map_sum id (\<lambda>s. DataStreamParser_init s False False MODE_12_BIT) (ScreenBuffer_init (fst rc) (snd rc) 0x40 ''cp037'')"

definition apply_screen_size :: "int \<times> int \<Rightarrow> dsp \<Rightarrow> py_error + dsp" where
  "apply_screen_size rc p = (if rc = (24, 80) then Inr p else replayer_parser rc)"

text \<open>
  The option of TN3270E in a command, from either side, switches the reading of headers. A record that starts with
  IAC and has no header is skipped. What the parser raises is ignored.
\<close>

definition envelope_mode :: "bytes \<Rightarrow> bool \<Rightarrow> bool" where
  "envelope_mode r active =
     (if length r \<ge> 3 \<and> r ! 0 = 0xFF \<and> r ! 1 \<in> {0xFD, 0xFB, 0xFE, 0xFC} \<and> r ! 2 = 0x28
      then r ! 1 \<in> {0xFD, 0xFB} else active)"

definition is_envelope :: "bytes \<Rightarrow> bool \<Rightarrow> bool" where
  "is_envelope r active \<longleftrightarrow> active \<and> length r \<ge> 5 \<and> r ! 0 \<le> 0x0A"

definition parse_quietly :: "bytes \<Rightarrow> int \<Rightarrow> dsp \<Rightarrow> dsp" where
  "parse_quietly bs t p = (case parse bs t p of None \<Rightarrow> p | Some (_, q) \<Rightarrow> q)"

definition replay_record :: "bytes \<Rightarrow> bool \<times> dsp \<Rightarrow> bool \<times> dsp" where
  "replay_record r = (\<lambda>(active, p).
     let a = envelope_mode r active
     in if is_envelope r a then (a, parse_quietly (drop 5 r) (uint (r ! 0)) p)
        else if r \<noteq> [] \<and> r ! 0 = 0xFF then (a, p)
        else (a, parse_quietly r 0 p))"

definition replay :: "string list \<Rightarrow> dsp \<Rightarrow> py_error + dsp" where
  "replay ls p =
     (case apply_screen_size (detect_screen_size ls) p of
        Inl e \<Rightarrow> Inl e
      | Inr q \<Rightarrow> Inr (snd (fold replay_record (parse_trace ls) (False, q))))"

definition get_screen_state ::
    "codec_world \<Rightarrow> dsp \<Rightarrow> codec_error + (unicode \<times> ((int \<times> int) \<times> (int \<times> int) \<times> bool \<times> (codec_error + unicode)) list)" where
  "get_screen_state w p =
     map_sum id (\<lambda>t. (t, map (\<lambda>f. (f_start f, f_end f, f_protected f, field_get_content w f)) (sfields (d_screen p))))
       (ascii_buffer w (d_screen p))"

section \<open>Replaying to a session\<close>

text \<open>
  \<open>_parse_resilient\<close>: errors that are not critical are to be skipped over, by as much as the parser has read. The
  result is the error that is raised, if any; \<open>None\<close> would be a parse that does not return.
\<close>

function parse_resilient :: "bytes \<Rightarrow> int \<Rightarrow> dsp \<Rightarrow> (parse_error option \<times> dsp) option" where
  "parse_resilient data t p =
     (if data = [] then Some (None, p)
      else case parse data t p of
             None \<Rightarrow> None
           | Some (Inr _, q) \<Rightarrow> Some (None, q)
           | Some (Inl e, q) \<Rightarrow>
               (if is_critical_error e then Some (Some e, q) else parse_resilient (drop (max 1 (dpos q)) data) t q))"
  by pat_completeness auto
termination by (relation "measure (\<lambda>(data, t, p). length data)") auto

declare parse_resilient.simps [simp del]

definition trace_negotiates :: "string \<Rightarrow> bytes list \<Rightarrow> bool" where
  "trace_negotiates name rs \<longleftrightarrow>
     (\<exists>r \<in> set rs. 0x28 \<in> set r) \<or> py_contains ''tn3270e'' (lower name) \<or> py_contains ''renegotiate'' (lower name)"

text \<open>
  The handler is the one of the session, or a new one. \<open>False\<close> without a trace or without records; what a record
  raises is ignored.
\<close>

definition replay_to_session :: "string \<Rightarrow> string list \<Rightarrow> receiver \<Rightarrow> bool \<times> receiver" where
  "replay_to_session name ls r =
     (if name = [] \<or> parse_trace ls = [] then (False, r)
      else let rs = parse_trace ls;
               p = fold (\<lambda>d p. case parse_resilient d 0 p of None \<Rightarrow> p | Some (e, q) \<Rightarrow> q) rs (rx_parser r);
               v = trace_negotiates name rs
           in (True, (set_rx_neg (handler_set_negotiated v (rx_neg r)) r)\<lparr>rx_parser := p\<rparr>))"

section \<open>Printing a trace\<close>

text \<open>Records as s3270 writes them: lines of so many bytes, each with the offset of its first byte.\<close>

definition hex_digit :: "nat \<Rightarrow> char" where
  "hex_digit n = ''0123456789abcdef'' ! n"

fun hex_text :: "nat \<Rightarrow> string" where
  "hex_text n = (if n < 16 then [hex_digit n] else hex_text (n div 16) @ [hex_digit (n mod 16)])"

declare hex_text.simps [simp del]

definition hex_bytes :: "bytes \<Rightarrow> string" where
  "hex_bytes bs = concat (map (\<lambda>b. [hex_digit (unat b div 16), hex_digit (unat b mod 16)]) bs)"

definition print_line :: "char \<Rightarrow> nat \<Rightarrow> bytes \<Rightarrow> string" where
  "print_line d off bs = d # '' 0x'' @ hex_text off @ ''   '' @ hex_bytes bs @ [CHR 0x0A]"

function print_from :: "nat \<Rightarrow> char \<Rightarrow> nat \<Rightarrow> bytes \<Rightarrow> string list" where
  "print_from k d off bs =
     (if bs = [] then [] else print_line d off (take (Suc k) bs) # print_from k d (off + Suc k) (drop (Suc k) bs))"
  by pat_completeness auto
termination by (relation "measure (\<lambda>(k, d, off, bs). length bs)") auto

declare print_from.simps [simp del]

definition print_trace :: "nat \<Rightarrow> (char \<times> bytes) list \<Rightarrow> string list" where
  "print_trace k rs = concat (map (\<lambda>(d, bs). print_from k d 0 bs) rs)"

lemma hex_digit_value: "n < 16 \<Longrightarrow> hex_value (hex_digit n) = Some (int n) \<and> \<not> py_space (hex_digit n)"
proof -
  have "list_all (\<lambda>n. hex_value (hex_digit n) = Some (int n) \<and> \<not> py_space (hex_digit n)) [0 ..< 16]" by code_simp
  then show "n < 16 \<Longrightarrow> ?thesis" by (simp add: list_all_iff del: hex_value.simps)
qed

lemma hex_text_props: "hex_number (hex_text n) = int n \<and> hex_text n \<noteq> [] \<and> (\<forall>c \<in> set (hex_text n). is_hex c)"
proof (induction n rule: hex_text.induct)
  case (1 n)
  show ?case
  proof (cases "n < 16")
    case True
    then show ?thesis by (simp add: hex_text.simps [of n] hex_number_def is_hex_def hex_digit_value del: hex_value.simps)
  next
    case False
    have m: "n mod 16 < 16" by simp
    have "int n = 16 * int (n div 16) + int (n mod 16)" by (metis of_nat_add of_nat_mult of_nat_numeral mult_div_mod_eq)
    with 1 False hex_digit_value [OF m] show ?thesis
      by (simp add: hex_text.simps [of n] hex_number_def is_hex_def del: hex_value.simps)
  qed
qed

lemma hex_bytes_value: "fromhex (hex_bytes bs) = Some bs \<and> (\<forall>c \<in> set (hex_bytes bs). is_hex c)"
proof (induction bs)
  case (Cons b bs)
  have "unat b < 256" using unsigned_less [of b] by simp
  then have b: "unat b div 16 < 16" "unat b mod 16 < 16" by simp_all
  have "word_of_int (16 * int (unat b div 16) + int (unat b mod 16)) = b"
    by (metis of_nat_add of_nat_mult of_nat_numeral mult_div_mod_eq uint_nat word_of_int_uint)
  with Cons hex_digit_value [OF b(1)] hex_digit_value [OF b(2)] show ?case
    by (simp add: hex_bytes_def is_hex_def del: hex_value.simps)
qed (simp add: hex_bytes_def)

lemma hex_not_space: "is_hex c \<Longrightarrow> \<not> py_space c"
proof -
  have i: "(of_char c :: int) = int (of_char c)" by (rule of_nat_of_char [symmetric])
  show "is_hex c \<Longrightarrow> \<not> py_space c" unfolding is_hex_def py_space_def hex_value.simps i Let_def
    by (auto split: if_splits)
qed

lemma read_printed_line:
  assumes "d = CHR ''<'' \<or> d = CHR ''>''" and "bs \<noteq> []"
  shows "py_strip (print_line d off bs) = d # '' 0x'' @ hex_text off @ ''   '' @ hex_bytes bs"
    and "trace_line (py_strip (print_line d off bs)) = Some (d, int off, hex_bytes bs)"
proof -
  note t = hex_text_props [of off] and h = hex_bytes_value [of bs]
  have ne: "hex_bytes bs \<noteq> []" using assms(2) by (cases bs) (simp_all add: hex_bytes_def)
  let ?l = "d # '' 0x'' @ hex_text off @ ''   '' @ hex_bytes bs"
  have sp: "\<not> py_space c" if "c \<in> set (hex_text off) \<or> c \<in> set (hex_bytes bs)" for c
    using that t h hex_not_space by blast
  have "\<not> py_space (last ?l)" using ne sp [of "last (hex_bytes bs)"] by simp
  moreover have "\<not> py_space d" using assms(1) by (auto simp: py_space_def)
  ultimately have "py_strip ?l = ?l" by (intro py_strip_id) simp
  moreover have "py_strip (print_line d off bs) = py_strip ?l"
    using \<open>\<not> py_space d\<close> strip_right_snoc [of py_space "CHR 0x0A" ?l] by (simp add: print_line_def py_strip_def py_space_def)
  ultimately show s: "py_strip (print_line d off bs) = ?l" by simp
  have space: "dropWhile py_space (CHR '' '' # xs) = dropWhile py_space xs" "\<not> is_hex (CHR '' '')" "\<not> py_space (CHR ''0'')"
    "py_space (CHR '' '')" for xs
    by (simp_all add: py_space_def is_hex_def)
  have off: "takeWhile is_hex (hex_text off @ ''   '' @ hex_bytes bs) = hex_text off"
    "dropWhile is_hex (hex_text off @ ''   '' @ hex_bytes bs) = ''   '' @ hex_bytes bs"
    using t space(2) by (simp_all add: takeWhile_append2 dropWhile_append2)
  have data: "takeWhile is_hex (hex_bytes bs) = hex_bytes bs" "dropWhile is_hex (hex_bytes bs) = []"
    "dropWhile py_space (hex_bytes bs) = hex_bytes bs"
    using h ne sp by (simp_all add: takeWhile_eq_all_conv dropWhile_eq_Nil_conv)
  show "trace_line (py_strip (print_line d off bs)) = Some (d, int off, hex_bytes bs)"
    unfolding s trace_line_def using assms(1) t ne by (auto simp: Let_def space off data begins_def)
qed

lemma read_printed_step:
  assumes "d = CHR ''<'' \<or> d = CHR ''>''" and "bs \<noteq> []"
  shows "trace_step (rs, b, start) (print_line d off bs) =
    (if (case start of None \<Rightarrow> False | Some (d', off') \<Rightarrow> d = d' \<and> int off = off' + int (length b))
     then (rs, b @ bs, start) else (flush rs b, bs, Some (d, int off)))"
  using read_printed_line [OF assms, of off] hex_bytes_value [of bs] by (simp add: trace_step_def)

lemma read_continuation:
  assumes "d = CHR ''<'' \<or> d = CHR ''>''" and "int off = int off0 + int (length b)"
  shows "foldl trace_step (rs, b, Some (d, int off0)) (print_from k d off bs) = (rs, b @ bs, Some (d, int off0))"
  using assms
proof (induction k d off bs arbitrary: b rule: print_from.induct)
  case (1 k d' off bs)
  show ?case
  proof (cases "bs = []")
    case False
    let ?t = "take (Suc k) bs"
    have l: "print_from k d' off bs = print_line d' off ?t # print_from k d' (off + Suc k) (drop (Suc k) bs)"
      using False by (simp add: print_from.simps [of k d' off bs])
    have "trace_step (rs, b, Some (d', int off0)) (print_line d' off ?t) = (rs, b @ ?t, Some (d', int off0))"
      using read_printed_step [of d' ?t rs b] 1 False by simp
    moreover have "foldl trace_step (rs, b @ ?t, Some (d', int off0)) (print_from k d' (off + Suc k) (drop (Suc k) bs))
        = (rs, (b @ ?t) @ drop (Suc k) bs, Some (d', int off0))"
    proof (cases "Suc k \<le> length bs")
      case True
      then show ?thesis using 1 False by simp
    next
      case shorter: False
      then show ?thesis by (simp add: print_from.simps)
    qed
    ultimately show ?thesis by (simp add: l)
  qed (simp add: print_from.simps)
qed

lemma read_record:
  assumes "d = CHR ''<'' \<or> d = CHR ''>''" and "bs \<noteq> []"
    and "case start of None \<Rightarrow> True | Some (d', off') \<Rightarrow> 0 \<le> off' \<and> b \<noteq> []"
  shows "foldl trace_step (rs, b, start) (print_from k d 0 bs) = (flush rs b, bs, Some (d, 0))"
proof -
  let ?t = "take (Suc k) bs"
  have l: "print_from k d 0 bs = print_line d 0 ?t # print_from k d (Suc k) (drop (Suc k) bs)"
    using assms(2) by (simp add: print_from.simps [of k d 0 bs])
  have first: "trace_step (rs, b, start) (print_line d 0 ?t) = (flush rs b, ?t, Some (d, 0))"
  proof -
    have "start = Some (d', off') \<Longrightarrow> 0 < off' + int (length b)" for d' off' using assms(3) by (cases b) auto
    then show ?thesis using read_printed_step [OF assms(1), of ?t rs b start 0] assms(2) by (fastforce split: option.splits)
  qed
  show ?thesis
  proof (cases "Suc k \<le> length bs")
    case True
    with read_continuation [OF assms(1), of "Suc k" 0 ?t "flush rs b" k "drop (Suc k) bs"] first l show ?thesis by simp
  next
    case False
    with first l show ?thesis by (simp add: print_from.simps)
  qed
qed

lemma read_records:
  assumes "\<forall>(d, bs) \<in> set rs. (d = CHR ''<'' \<or> d = CHR ''>'') \<and> bs \<noteq> []"
    and "case start of None \<Rightarrow> b = [] | Some (d', off') \<Rightarrow> 0 \<le> off' \<and> b \<noteq> []"
  shows "case foldl trace_step (qs, b, start) (print_trace k rs) of (qs', b', start') \<Rightarrow> flush qs' b' = flush qs b @ map snd rs"
  using assms
proof (induction rs arbitrary: qs b start)
  case (Cons r rs)
  obtain d bs where r: "r = (d, bs)" by (cases r)
  have d: "d = CHR ''<'' \<or> d = CHR ''>''" "bs \<noteq> []" using Cons.prems(1) r by auto
  have "foldl trace_step (qs, b, start) (print_from k d 0 bs) = (flush qs b, bs, Some (d, 0))"
    using Cons.prems(2) by (intro read_record [OF d]) (auto split: option.splits)
  moreover have "case foldl trace_step (flush qs b, bs, Some (d, 0)) (print_trace k rs) of
      (qs', b', start') \<Rightarrow> flush qs' b' = flush (flush qs b) bs @ map snd rs"
    using Cons.prems(1) d by (intro Cons.IH) auto
  ultimately show ?case using r d by (simp add: print_trace_def flush_def case_prod_unfold)
qed (simp add: print_trace_def)

lemma trace_printed_read:
  "\<forall>(d, bs) \<in> set rs. (d = CHR ''<'' \<or> d = CHR ''>'') \<and> bs \<noteq> [] \<Longrightarrow> parse_trace (print_trace k rs) = map snd rs"
  using read_records [of rs, where start = None and b = "[]" and qs = "[]" and k = k]
  by (simp add: parse_trace_def flush_def case_prod_unfold)

lemma printed_from_line: "l \<in> set (print_from k d off bs) \<Longrightarrow> \<exists>o' b'. b' \<noteq> [] \<and> l = print_line d o' b'"
proof (induction k d off bs rule: print_from.induct)
  case (1 k d off bs)
  show ?case
  proof (cases "bs = []")
    case False
    then have "print_from k d off bs = print_line d off (take (Suc k) bs) # print_from k d (off + Suc k) (drop (Suc k) bs)"
      by (simp add: print_from.simps [of k d off bs])
    with 1(2) consider "l = print_line d off (take (Suc k) bs)" | "l \<in> set (print_from k d (off + Suc k) (drop (Suc k) bs))" by auto
    then show ?thesis
    proof cases
      case 1
      with False show ?thesis by (intro exI [of _ off] exI [of _ "take (Suc k) bs"]) simp
    next
      case 2
      with 1(1) False show ?thesis by blast
    qed
  qed (use 1 in \<open>simp add: print_from.simps\<close>)
qed

lemma replay_fold_keeps: "\<forall>l \<in> set ls. f l x = x \<Longrightarrow> fold f ls x = x"
  by (induction ls) simp_all

lemma printed_has_no_size:
  assumes "\<forall>(d, bs) \<in> set rs. (d = CHR ''<'' \<or> d = CHR ''>'') \<and> bs \<noteq> []"
  shows "detect_screen_size (print_trace k rs) = (24, 80)"
proof -
  have none: "header_number w (py_strip l) = None" if "l \<in> set (take 8 (print_trace k rs))" for l w
  proof -
    from that have "l \<in> set (print_trace k rs)" by (rule in_set_takeD)
    then obtain d bs where "(d, bs) \<in> set rs" "l \<in> set (print_from k d 0 bs)" by (auto simp: print_trace_def)
    moreover obtain o' b' where "b' \<noteq> []" "l = print_line d o' b'" using printed_from_line [OF calculation(2)] by blast
    ultimately have "d = CHR ''<'' \<or> d = CHR ''>''" "b' \<noteq> []" "l = print_line d o' b'" using assms by auto
    then have "\<not> begins ''//'' (py_strip l)" using read_printed_line(1) [of d b' o'] by (auto simp: begins_def)
    then show ?thesis by (simp add: header_number_def Let_def)
  qed
  have "fold (\<lambda>l n. case header_number w (py_strip l) of None \<Rightarrow> n | Some v \<Rightarrow> Some v) (take 8 (print_trace k rs)) None = None" for w
    by (rule replay_fold_keeps) (simp add: none)
  then show ?thesis by (simp add: detect_screen_size_def screen_size_from_comments_def Let_def)
qed

section \<open>What a replay does\<close>

text \<open>
  What the parser is given of some records, with the types of the data: the body behind the header of a record in an
  envelope, and every other record that does not begin with \<open>IAC\<close>.
\<close>

fun parsed_bodies :: "bool \<Rightarrow> bytes list \<Rightarrow> (int \<times> bytes) list" where
  "parsed_bodies active [] = []"
| "parsed_bodies active (r # rs) =
     (if is_envelope r (envelope_mode r active) then [(uint (r ! 0), drop 5 r)]
      else if hd r = 0xFF then [] else [(0, r)]) @ parsed_bodies (envelope_mode r active) rs"

definition negotiates :: "bytes \<Rightarrow> bool" where
  "negotiates r \<longleftrightarrow> length r \<ge> 3 \<and> r ! 0 = 0xFF \<and> r ! 1 \<in> {0xFD, 0xFB} \<and> r ! 2 = 0x28"

lemma replay_parsed_bodies:
  "[] \<notin> set rs \<Longrightarrow> snd (fold replay_record rs (active, p)) = fold (\<lambda>(t, bs). parse_quietly bs t) (parsed_bodies active rs) p"
proof (induction rs arbitrary: active p)
  case (Cons r rs)
  then have "r ! 0 = hd r" by (cases r) auto
  with Cons show ?case by (auto simp: replay_record_def Let_def)
qed simp

lemma parsed_bodies_plain:
  "\<forall>r \<in> set rs. \<not> negotiates r \<Longrightarrow> parsed_bodies False rs = map (\<lambda>r. (0, r)) (filter (\<lambda>r. hd r \<noteq> 0xFF) rs)"
proof (induction rs)
  case (Cons r rs)
  then have "\<not> envelope_mode r False" by (auto simp: envelope_mode_def negotiates_def)
  with Cons show ?case by (simp add: is_envelope_def)
qed simp

text \<open>
  C19. A trace printed with lines of any length is read back record by record, whichever side sent a record, and
  the parser is given these records in their order: a record in an envelope without its header and under the type
  of its data, any other one whole, unless it begins with \<open>IAC\<close>, in which case all of it is skipped. So where
  no record negotiates TN3270E, the parser gets exactly the records that do not begin with \<open>IAC\<close>, those of
  the client among them.
\<close>

theorem replay_of_trace:
  assumes "\<forall>(d, bs) \<in> set rs. (d = CHR ''<'' \<or> d = CHR ''>'') \<and> bs \<noteq> []"
  shows "parse_trace (print_trace k rs) = map snd rs
    \<and> replay (print_trace k rs) p = Inr (fold (\<lambda>(t, bs). parse_quietly bs t) (parsed_bodies False (map snd rs)) p)
    \<and> ((\<forall>(d, bs) \<in> set rs. \<not> negotiates bs) \<longrightarrow>
         replay (print_trace k rs) p = Inr (fold (\<lambda>bs. parse_quietly bs 0) (filter (\<lambda>bs. hd bs \<noteq> 0xFF) (map snd rs)) p))"
proof -
  have "[] \<notin> set (map snd rs)"
  proof
    assume "[] \<in> set (map snd rs)"
    then obtain x where x: "x \<in> set rs" "snd x = []" unfolding set_map by (auto simp only: image_iff)
    from bspec [OF assms x(1)] x(2) show False by (simp only: case_prod_unfold) blast
  qed
  note bodies = replay_parsed_bodies [OF this, of False p]
  have read: "parse_trace (print_trace k rs) = map snd rs" using trace_printed_read [OF assms] .
  have run: "replay (print_trace k rs) p = Inr (fold (\<lambda>(t, bs). parse_quietly bs t) (parsed_bodies False (map snd rs)) p)"
    unfolding replay_def printed_has_no_size [OF assms] apply_screen_size_def read
    by (simp only: if_True refl sum.case bodies)
  have "parsed_bodies False (map snd rs) = map (\<lambda>r. (0, r)) (filter (\<lambda>r. hd r \<noteq> 0xFF) (map snd rs))"
    if "\<forall>(d, bs) \<in> set rs. \<not> negotiates bs"
    by (rule parsed_bodies_plain) (use that in \<open>simp add: case_prod_unfold\<close>)
  then have "fold (\<lambda>(t, bs). parse_quietly bs t) (parsed_bodies False (map snd rs)) p
      = fold (\<lambda>bs. parse_quietly bs 0) (filter (\<lambda>bs. hd bs \<noteq> 0xFF) (map snd rs)) p"
    if "\<forall>(d, bs) \<in> set rs. \<not> negotiates bs"
    using that by (simp only: fold_map comp_def prod.case)
  with read run show ?thesis by presburger
qed

text \<open>
  C11. The resilient parsing is one parse: the parser itself skips what it cannot read, and the only error it raises is one
  that is not skipped. So the loop never goes round twice.
\<close>

theorem resilient_is_one_parse:
  "parse_resilient data 0 p =
     (if data = [] then Some (None, p)
      else case parse data 0 p of
             None \<Rightarrow> None
           | Some (Inr _, q) \<Rightarrow> Some (None, q)
           | Some (Inl e, q) \<Rightarrow> Some (Some e, q))"
proof -
  obtain r q where pr: "parse data 0 p = Some (r, q)" using parse_total [of data 0 p] by force
  have "is_critical_error e" if "r = Inl e" for e
    using pr that parse_raises [of data p e] by (auto simp: is_critical_error_def)
  with pr show ?thesis by (cases r) (simp_all add: parse_resilient.simps [of data])
qed

section \<open>Witness\<close>

theorem replay_of_trace_witness:
  "let t = [''< 0x0   fffb'' @ [CHR 0x0A], ''< 0x2   18'' @ [CHR 0x0A], ''< 0x0   f1c2'' @ [CHR 0x0A], ''< 0x2   c1'' @ [CHR 0x0A],
      ''> 0x0   7d40'' @ [CHR 0x0A], ''> 0x2   40'' @ [CHR 0x0A]]
   in parse_trace t = [[0xFF, 0xFB, 0x18], [0xF1, 0xC2, 0xC1], [0x7D, 0x40, 0x40]]
    \<and> replay t demo_parser = Inr (parse_quietly [0x7D, 0x40, 0x40] 0 (parse_quietly [0xF1, 0xC2, 0xC1] 0 demo_parser))"
proof -
  let ?rs = "[(CHR ''<'', [0xFF, 0xFB, 0x18]), (CHR ''<'', [0xF1, 0xC2, 0xC1]), (CHR ''>'', [0x7D, 0x40, 0x40])]"
  have p: "print_trace 1 ?rs = [''< 0x0   fffb'' @ [CHR 0x0A], ''< 0x2   18'' @ [CHR 0x0A], ''< 0x0   f1c2'' @ [CHR 0x0A],
      ''< 0x2   c1'' @ [CHR 0x0A], ''> 0x0   7d40'' @ [CHR 0x0A], ''> 0x2   40'' @ [CHR 0x0A]]"
    by code_simp
  have n: "\<forall>(d, bs) \<in> set ?rs. \<not> negotiates bs" by (simp add: negotiates_def)
  have d: "\<forall>(d, bs) \<in> set ?rs. (d = CHR ''<'' \<or> d = CHR ''>'') \<and> bs \<noteq> []" by simp
  note t = replay_of_trace [OF d, of 1 demo_parser, unfolded p]
  from conjunct1 [OF t] mp [OF conjunct2 [OF conjunct2 [OF t]] n] show ?thesis by (simp add: Let_def)
qed

end
