(* ===== verification/TraceServer.thy ===== *)
theory TraceServer
  imports TraceReplay MockServers
begin

text \<open>
  \<open>src/tools/trace_replay_server.py\<close>: a server that plays the host's side of a trace to a client, with or without a
  handshake of its own. Files hold ASCII text with no control characters but white space. Sockets, tasks, the
  files with dumps of a negotiation and the log are left out; what the client does in each round is an argument.
\<close>

section \<open>Events of a trace\<close>

record trace_event =
  ev_recv :: bool
  ev_data :: bytes
  ev_sequence :: nat

datatype trace_error = Bad_hex

definition word_char :: "char \<Rightarrow> bool" where
  "word_char c \<longleftrightarrow> is_digit_char c \<or> is_alpha_char c \<or> c = CHR ''_''"

text \<open>The expression \<open><\s+0x\w+\s+([0-9a-fA-F\s]+)$\<close> and the same with the other direction.\<close>

definition data_line :: "char \<Rightarrow> string \<Rightarrow> string option" where
  "data_line d l =
     (case l of
        [] \<Rightarrow> None
      | c # r \<Rightarrow>
          let r1 = dropWhile py_space r; r2 = drop 2 r1; r3 = dropWhile word_char r2; r4 = dropWhile py_space r3
          in if c = d \<and> r1 \<noteq> r \<and> begins ''0x'' r1 \<and> r3 \<noteq> r2 \<and> r4 \<noteq> r3 \<and> r4 \<noteq> []
                \<and> list_all (\<lambda>c. is_hex c \<or> py_space c) r4
             then Some r4 else None)"

definition event_of :: "bool \<Rightarrow> nat \<Rightarrow> string \<Rightarrow> trace_error + trace_event option" where
  "event_of recv n hex =
     (case fromhex (filter (\<lambda>c. c \<noteq> CHR '' '') hex) of
        None \<Rightarrow> Inl Bad_hex
      | Some bs \<Rightarrow> Inr (Some \<lparr>ev_recv = recv, ev_data = bs, ev_sequence = n\<rparr>))"

definition from_trace_line :: "string \<Rightarrow> nat \<Rightarrow> trace_error + trace_event option" where
  "from_trace_line raw n =
     (let l = py_strip raw
      in if l = [] \<or> begins ''//'' l then Inr None
         else case data_line (CHR ''<'') l of
                Some hex \<Rightarrow> event_of True n hex
              | None \<Rightarrow>
                  (case data_line (CHR ''>'') l of
                     Some hex \<Rightarrow> event_of False n hex
                   | None \<Rightarrow> Inr None))"

definition socket_read :: "string \<Rightarrow> bool" where
  "socket_read l \<longleftrightarrow> py_contains ''Host socket read complete nr='' l"

definition has_count :: "string \<Rightarrow> bool" where
  "has_count l \<longleftrightarrow> list_ex (\<lambda>n. begins ''nr='' (drop n l) \<and> drop (n + 3) l \<noteq> [] \<and> is_digit_char (l ! (n + 3))) [0 ..< length l]"

text \<open>The lines behind the report of a read, as long as they are data of the host, are one event.\<close>

fun collect_read :: "string list \<Rightarrow> nat \<Rightarrow> bytes \<Rightarrow> trace_error + bytes \<times> string list" where
  "collect_read [] n bs = Inr (bs, [])"
| "collect_read (l # ls) n bs =
     (case from_trace_line l n of
        Inl e \<Rightarrow> Inl e
      | Inr (Some e) \<Rightarrow> (if ev_recv e then collect_read ls n (bs @ ev_data e) else Inr (bs, l # ls))
      | Inr None \<Rightarrow> Inr (bs, l # ls))"

lemma collect_read_length: "collect_read ls n bs = Inr (x, ks) \<Longrightarrow> length ks \<le> length ls"
  by (induction ls n bs rule: collect_read.induct) (auto split: sum.splits option.splits if_splits intro: le_SucI)

function load_events :: "string list \<Rightarrow> nat \<Rightarrow> trace_event list \<Rightarrow> trace_error + trace_event list" where
  "load_events [] n es = Inr es"
| "load_events (l # ls) n es =
     (if socket_read (py_strip l)
      then (if has_count (py_strip l)
            then (case collect_read ls n [] of
                    Inl e \<Rightarrow> Inl e
                  | Inr (bs, ks) \<Rightarrow>
                      (if bs = [] then load_events ks n es
                       else load_events ks (Suc n) (es @ [\<lparr>ev_recv = True, ev_data = bs, ev_sequence = n\<rparr>])))
            else load_events ls n es)
      else case from_trace_line l n of
             Inl e \<Rightarrow> Inl e
           | Inr None \<Rightarrow> load_events ls n es
           | Inr (Some e) \<Rightarrow> load_events ls (Suc n) (es @ [e]))"
  by pat_completeness auto
termination
  by (relation "measure (\<lambda>(ls, n, es). length ls)") (auto simp: less_Suc_eq_le dest: collect_read_length)

section \<open>The server\<close>

record replay_server =
  rs_host :: "trace_event list"
  rs_client :: "trace_event list"
  rs_loop :: bool
  rs_compat :: bool
  rs_force :: bool

definition TraceReplayServer_init :: "string list \<Rightarrow> bool \<Rightarrow> bool \<Rightarrow> bool \<Rightarrow> trace_error + replay_server" where
  "TraceReplayServer_init ls again handshake forced =
     map_sum id (\<lambda>es. \<lparr>rs_host = filter ev_recv es, rs_client = filter (\<lambda>e. \<not> ev_recv e) es,
                       rs_loop = again, rs_compat = handshake, rs_force = forced\<rparr>) (load_events ls 0 [])"

record replay_conn =
  rc_send :: nat
  rc_recv :: nat
  rc_wire :: bytes
  rc_sent :: nat
  rc_received :: nat
  rc_processed :: nat
  rc_complete :: bool

definition send_bytes :: "bytes \<Rightarrow> replay_conn \<Rightarrow> replay_conn" where
  "send_bytes bs c = c\<lparr>rc_wire := rc_wire c @ bs\<rparr>"

text \<open>The functions are asked for by a number of four bytes.\<close>

definition compat_handshake :: bytes where
  "compat_handshake =
     [IAC, 0xFB, 0x28, IAC, 0xFB, 0x19, IAC, 0xFB, 0x00, IAC, 0xFD, 0x00, IAC, 0xFD, 0x19]
     @ [IAC, SB, 0x28, 0x02, 0x08, IAC, SE]
     @ [IAC, SB, 0x28, 0x03, 0x07, 0x04] @ [0x00, 0x00, 0x00, 0x01 OR 0x01 OR 0x08 OR 0x04] @ [IAC, SE]"

definition is_telnet_negotiation :: "bytes \<Rightarrow> bool" where
  "is_telnet_negotiation data \<longleftrightarrow> data \<noteq> [] \<and> length data < 3 * length (filter (\<lambda>b. b = IAC) data)"

text \<open>The look at the type of the record that follows in the code changes nothing.\<close>

definition should_skip_trace_event :: "trace_event \<Rightarrow> bool" where
  "should_skip_trace_event e \<longleftrightarrow> is_telnet_negotiation (ev_data e)"

section \<open>The handshake of the server\<close>

definition find_se :: "bytes \<Rightarrow> nat \<Rightarrow> nat option" where
  "find_se data j = find (\<lambda>j. data ! j = IAC \<and> data ! (j + 1) = SE) [j ..< length data - 1]"

lemma find_se_bounds: "find_se data j = Some k \<Longrightarrow> j \<le> k \<and> k < length data"
  by (auto simp: find_se_def find_Some_iff nth_append)

function find_iac_sequences :: "bytes \<Rightarrow> nat \<Rightarrow> (nat \<times> nat) list" where
  "find_iac_sequences data i =
     (if i < length data - 1
      then (if data ! i = IAC \<and> data ! (i + 1) = SB
            then (case find_se data (i + 2) of
                    Some j \<Rightarrow> (i, j + 2) # find_iac_sequences data (j + 2)
                  | None \<Rightarrow> find_iac_sequences data (i + 1))
            else find_iac_sequences data (i + 1))
      else [])"
  by pat_completeness auto
termination
  by (relation "measure (\<lambda>(data, i). length data - i)") (auto dest!: find_se_bounds)

declare find_iac_sequences.simps [simp del]

definition functions_send :: bytes where
  "functions_send = [IAC, SB, 0x28, 0x03, 0x08, IAC, SE]"

text \<open>The type and the functions seen so far, and the connection.\<close>

definition compat_answer :: "bytes \<Rightarrow> (bool \<times> bool) \<times> replay_conn \<Rightarrow> (bool \<times> bool) \<times> replay_conn" where
  "compat_answer sb = (\<lambda>((device, functions), c).
     let payload = drop 3 (take (length sb - 2) sb)
     in if length sb < 6 \<or> sb ! 0 \<noteq> IAC \<or> sb ! 1 \<noteq> SB \<or> sb ! 2 \<noteq> 0x28 \<or> payload = [] then ((device, functions), c)
        else if payload ! 0 = 0x02 \<and> 2 \<le> length payload \<and> payload ! 1 = 0x04 then ((True, functions), send_bytes functions_send c)
        else if payload ! 0 = 0x03 \<and> 2 \<le> length payload \<and> payload ! 1 = 0x04 then ((device, True), c)
        else ((device, functions), c))"

text \<open>Nothing in it raises, so the mismatches that are to end the negotiation are never counted.\<close>

definition handle_compat_negotiation :: "bytes \<Rightarrow> replay_conn \<Rightarrow> bool \<times> replay_conn" where
  "handle_compat_negotiation data c =
     (case fold (\<lambda>(i, j). compat_answer (take (j - i) (drop i data))) (find_iac_sequences data 0) ((False, False), c) of
        ((device, functions), c1) \<Rightarrow> (device \<and> functions, c1))"

text \<open>Nothing calls this one.\<close>

definition handle_compat_negotiation_enhanced :: "bool \<Rightarrow> bytes \<Rightarrow> replay_conn \<Rightarrow> bool \<times> replay_conn" where
  "handle_compat_negotiation_enhanced force data c =
     (let device = py_contains [IAC, SB, 0x28, 0x02, 0x00] data; functions = py_contains [IAC, SB, 0x28, 0x03, 0x00] data
      in if \<not> force then handle_compat_negotiation data c
         else if device \<and> functions then (True, c)
         else if device then (False, send_bytes functions_send c)
         else if functions \<or> py_contains [IAC, SB, 0x28, 0x02, 0x07] data \<or> py_contains [IAC, SB, 0x28, 0x03, 0x07] data then (False, c)
         else handle_compat_negotiation data c)"

section \<open>A connection\<close>

text \<open>What comes from the client in a round; no bytes are the end of its stream. In the end it stays quiet.\<close>

datatype heard = Quiet | Heard bytes

definition next_heard :: "heard list \<Rightarrow> heard \<times> heard list" where
  "next_heard hs = (case hs of [] \<Rightarrow> (Quiet, []) | h # hs' \<Rightarrow> (h, hs'))"

definition conn_start :: "replay_server \<Rightarrow> replay_conn" where
  "conn_start s =
     (let c = \<lparr>rc_send = 0, rc_recv = 0, rc_wire = [], rc_sent = 0, rc_received = 0, rc_processed = 0, rc_complete = False\<rparr>
      in if rs_compat s then send_bytes compat_handshake c else c)"

definition send_event :: "replay_server \<Rightarrow> replay_conn \<Rightarrow> replay_conn" where
  "send_event s c =
     (if rc_recv c < length (rs_host s)
      then let d = ev_data (rs_host s ! rc_recv c)
           in (send_bytes d c)\<lparr>rc_sent := rc_sent c + length d, rc_recv := rc_recv c + 1, rc_processed := rc_processed c + 1\<rparr>
      else c)"

text \<open>The bytes received are counted a second time when they are compared.\<close>

definition compare_data :: "replay_server \<Rightarrow> bytes \<Rightarrow> replay_conn \<Rightarrow> replay_conn" where
  "compare_data s d c =
     (let c1 = c\<lparr>rc_received := rc_received c + length d\<rparr>
      in if rc_send c1 < length (rs_client s)
         then c1\<lparr>rc_send := rc_send c1 + 1,
                 rc_processed := rc_processed c1 + (if d = ev_data (rs_client s ! rc_send c1) then 1 else 0)\<rparr>
         else c1)"

text \<open>The outcome, what the client has still to do, whether any connection has completed, and the connection.\<close>

datatype going = Goes_on | Ends

type_synonym connection = "heard list \<times> replay_conn"

definition replay_round :: "replay_server \<Rightarrow> bool \<Rightarrow> connection \<Rightarrow> going \<times> bool \<times> connection" where
  "replay_round s done = (\<lambda>(hs, c).
     if rs_compat s \<and> \<not> (rc_complete c \<or> done) then (Goes_on, done, hs, c)
     else if rs_compat s \<and> rc_recv c < length (rs_host s) \<and> should_skip_trace_event (rs_host s ! rc_recv c)
       then (Goes_on, done, hs, c\<lparr>rc_recv := rc_recv c + 1\<rparr>)
     else let c1 = send_event s c
          in case next_heard hs of
               (Quiet, hs') \<Rightarrow>
                 (if rc_recv c1 < length (rs_host s) \<or> rs_compat s \<and> \<not> rc_complete c1 then (Goes_on, done, hs', c1)
                  else if rs_loop s then (Goes_on, done, hs', c1\<lparr>rc_send := 0, rc_recv := 0\<rparr>)
                  else (Ends, done, hs', c1))
             | (Heard d, hs') \<Rightarrow>
                 (if d = [] then (Ends, done, hs', c1)
                  else let c2 = c1\<lparr>rc_received := rc_received c1 + length d\<rparr>
                       in if rs_compat s \<and> \<not> rc_complete c2
                          then (case handle_compat_negotiation d c2 of
                                  (ok, c3) \<Rightarrow> (Goes_on, done \<or> ok, hs', c3\<lparr>rc_complete := ok\<rparr>))
                          else (Goes_on, done, hs', compare_data s d c2)))"

text \<open>A connection on its own for some rounds.\<close>

fun replay_rounds :: "nat \<Rightarrow> replay_server \<Rightarrow> bool \<Rightarrow> connection \<Rightarrow> going \<times> bool \<times> connection" where
  "replay_rounds 0 s done x = (Goes_on, done, x)"
| "replay_rounds (Suc n) s done x =
     (case replay_round s done x of
        (Ends, done', y) \<Rightarrow> (Ends, done', y)
      | (Goes_on, done', y) \<Rightarrow> replay_rounds n s done' y)"

text \<open>Several connections, of which one at a time has its turn.\<close>

definition server_turn :: "replay_server \<Rightarrow> nat \<Rightarrow> bool \<times> connection list \<Rightarrow> bool \<times> connection list" where
  "server_turn s i = (\<lambda>(done, xs).
     if i < length xs then (case replay_round s done (xs ! i) of (g, done', y) \<Rightarrow> (done', xs[i := y])) else (done, xs))"

end
