(* ===== verification/TraceServerProps.thy ===== *)
theory TraceServerProps
  imports TraceServer
begin

text \<open>
  What a client gets from the server of \<open>TraceServer\<close>: the data of the host in the trace, whatever the client answers,
  and nothing of it behind the server's own handshake.
\<close>

section \<open>What is loaded\<close>

text \<open>The data of the host in a line.\<close>

definition host_data :: "string \<Rightarrow> bytes" where
  "host_data l = (case from_trace_line l 0 of Inr (Some e) \<Rightarrow> if ev_recv e then ev_data e else [] | _ \<Rightarrow> [])"

lemma from_trace_line_seq:
  "from_trace_line l n = (case from_trace_line l 0 of
     Inl e \<Rightarrow> Inl e | Inr None \<Rightarrow> Inr None | Inr (Some e) \<Rightarrow> Inr (Some (e\<lparr>ev_sequence := n\<rparr>)))"
  by (simp add: from_trace_line_def event_of_def Let_def split: option.split)

lemma py_containsD: "py_contains w xs \<Longrightarrow> \<exists>n. n + length w \<le> length xs \<and> (\<forall>i < length w. xs ! (n + i) = w ! i)"
proof -
  assume "py_contains w xs"
  then obtain pre post where "xs = pre @ w @ post" by (auto simp: py_contains_iff)
  then show ?thesis by (intro exI [of _ "length pre"]) (simp add: nth_append)
qed

lemma data_line_shape:
  assumes "data_line d l = Some h"
  shows "\<exists>pre w r3. l = pre @ w @ r3 \<and> (\<forall>c \<in> set pre. c = d \<or> py_space c \<or> c = CHR ''0'' \<or> c = CHR ''x'')
    \<and> (\<forall>c \<in> set w. word_char c) \<and> (\<forall>c \<in> set r3. is_hex c \<or> py_space c)"
proof -
  obtain c r where l: "l = c # r" using assms by (cases l) (auto simp: data_line_def)
  define r1 where "r1 = dropWhile py_space r"
  define r3 where "r3 = dropWhile word_char (drop 2 r1)"
  have a: "c = d" "begins ''0x'' r1" "dropWhile py_space r3 = h" "list_all (\<lambda>c. is_hex c \<or> py_space c) h"
    using assms by (auto simp: data_line_def l r1_def r3_def Let_def split: if_splits)
  let ?pre = "c # takeWhile py_space r @ ''0x'' " and ?w = "takeWhile word_char (drop 2 r1)"
  have "r = takeWhile py_space r @ r1" by (simp add: r1_def)
  moreover have "r1 = ''0x'' @ drop 2 r1" using a(2) by (metis append_take_drop_id begins_def length_Cons list.size(3) numeral_2_eq_2)
  moreover have "drop 2 r1 = ?w @ r3" by (simp add: r3_def)
  ultimately have "l = ?pre @ ?w @ r3" unfolding l by (metis append_Cons append_assoc)
  moreover have "\<forall>c \<in> set r3. is_hex c \<or> py_space c"
    using a(3,4) takeWhile_dropWhile_id [of py_space r3] by (metis Un_iff list_all_iff set_append set_takeWhileD)
  ultimately show ?thesis using a(1) by (intro exI [of _ ?pre] exI [of _ ?w] exI [of _ r3]) (auto dest: set_takeWhileD)
qed

text \<open>The report of a read is no line of data.\<close>

lemma socket_read_no_data:
  assumes "socket_read l" and "d = CHR ''<'' \<or> d = CHR ''>''"
  shows "data_line d l = None"
proof (rule ccontr)
  assume "data_line d l \<noteq> None"
  then obtain h where "data_line d l = Some h" by blast
  from data_line_shape [OF this] obtain pre w r3 where l: "l = pre @ w @ r3"
    and p: "\<forall>c \<in> set pre. c = d \<or> py_space c \<or> c = CHR ''0'' \<or> c = CHR ''x''" "\<forall>c \<in> set w. word_char c" "\<forall>c \<in> set r3. is_hex c \<or> py_space c"
    by blast
  let ?p = "''Host socket read complete nr=''"
  have len: "length ?p = 29" by simp
  obtain n where n: "n + 29 \<le> length l" "\<And>i. i < 29 \<Longrightarrow> l ! (n + i) = ?p ! i"
    using py_containsD [of ?p l] assms(1) unfolding socket_read_def len by blast
  have in_w: "length pre \<le> k \<and> k < length pre + length w"
    if "k < length l" "l ! k = c" "c \<noteq> d" "\<not> py_space c" "c \<noteq> CHR ''0''" "c \<noteq> CHR ''x''" "\<not> is_hex c" for k c
    using that p(1,3) unfolding l nth_append by (auto split: if_splits dest!: nth_mem) 
  have H: "length pre \<le> n" using in_w [of n "CHR ''H''"] n(1) n(2) [of 0] assms(2) by (auto simp: py_space_def is_hex_def)
  have k: "n + 8 < length pre + length w"
    using in_w [of "n + 8" "CHR ''k''"] n(1) n(2) [of 8] assms(2) by (auto simp: py_space_def is_hex_def)
  have b: "n + 4 - length pre < length w" using H k by simp
  then have "l ! (n + 4) = w ! (n + 4 - length pre)" using H by (simp add: l nth_append)
  moreover from b have "w ! (n + 4 - length pre) \<in> set w" by (rule nth_mem)
  ultimately have "word_char (CHR '' '')" using n(2) [of 4] p(2) by auto
  then show False by (simp add: word_char_def is_digit_char_def is_alpha_char_def)
qed

lemma socket_read_host_data: "socket_read (py_strip l) \<Longrightarrow> host_data l = []"
  using socket_read_no_data [of "py_strip l"] by (simp add: host_data_def from_trace_line_def Let_def)

lemma collect_read_data: "collect_read ls n bs = Inr (x, ks) \<Longrightarrow> x @ concat (map host_data ks) = bs @ concat (map host_data ls)"
proof (induction ls n bs rule: collect_read.induct)
  case (2 l ls n bs)
  then show ?case
    by (auto simp: from_trace_line_seq [of l n] host_data_def split: sum.splits option.splits if_splits)
qed simp

lemma load_events_data:
  "load_events ls n es = Inr es' \<Longrightarrow>
     concat (map ev_data (filter ev_recv es')) = concat (map ev_data (filter ev_recv es)) @ concat (map host_data ls)"
proof (induction ls n es rule: load_events.induct)
  case (2 l ls n es)
  show ?case
  proof (cases "socket_read (py_strip l)")
    case True
    with 2 socket_read_host_data [OF True] show ?thesis
      by (auto split: sum.splits if_splits prod.splits dest!: collect_read_data)
  next
    case False
    with 2 show ?thesis
      by (auto simp: from_trace_line_seq [of l n] host_data_def split: sum.splits option.splits if_splits)
  qed
qed simp

section \<open>What is played\<close>

definition heard_bytes :: "heard \<Rightarrow> bytes" where
  "heard_bytes h = (case h of Quiet \<Rightarrow> [] | Heard d \<Rightarrow> d)"

definition played :: "replay_server \<Rightarrow> replay_conn \<Rightarrow> bool" where
  "played s c \<longleftrightarrow> rc_recv c \<le> length (rs_host s) \<and> rc_wire c = concat (map ev_data (take (rc_recv c) (rs_host s)))"

lemma send_event_played:
  assumes "played s c"
  shows "played s (send_event s c)" and "rc_received (send_event s c) = rc_received c"
    and "rc_recv (send_event s c) = (if rc_recv c < length (rs_host s) then rc_recv c + 1 else rc_recv c)"
  using assms by (auto simp: played_def send_event_def send_bytes_def Let_def take_Suc_conv_app_nth)

lemma compare_data_played:
  "played s (compare_data s d c) = played s c" "rc_recv (compare_data s d c) = rc_recv c"
  "rc_received (compare_data s d c) = rc_received c + length d"
  by (simp_all add: compare_data_def played_def Let_def)

lemma plain_round:
  assumes "\<not> rs_compat s" and "\<not> rs_loop s" and "next_heard hs = (h, hs')" and "h \<noteq> Heard []"
  shows "replay_round s done (hs, c) =
    (let c1 = send_event s c
     in case h of
          Quiet \<Rightarrow> (if rc_recv c1 < length (rs_host s) then (Goes_on, done, hs', c1) else (Ends, done, hs', c1))
        | Heard d \<Rightarrow> (Goes_on, done, hs', compare_data s d (c1\<lparr>rc_received := rc_received c1 + length d\<rparr>)))"
  using assms by (auto simp: replay_round_def Let_def split: heard.split)

lemma plain_run:
  assumes "\<not> rs_compat s" and "\<not> rs_loop s" and "Heard [] \<notin> set hs" and "played s c"
  shows "\<exists>n c' used rest. replay_rounds n s done (hs, c) = (Ends, done, rest, c') \<and> hs = used @ rest
    \<and> rc_wire c' = concat (map ev_data (rs_host s)) \<and> rc_received c' = rc_received c + 2 * length (concat (map heard_bytes used))"
  using assms(3,4)
proof (induction "length hs + (length (rs_host s) - rc_recv c)" arbitrary: hs c rule: less_induct)
  case less
  let ?c1 = "send_event s c"
  note e = send_event_played [OF less.prems(2)]
  obtain h hs' where h: "next_heard hs = (h, hs')" by fastforce
  have used: "hs = (if hs = [] then [] else [h]) @ hs'" "hs = [] \<longrightarrow> h = Quiet" "h \<noteq> Heard []" "Heard [] \<notin> set hs'"
    using h less.prems(1) by (auto simp: next_heard_def split: list.splits)
  note round = plain_round [OF assms(1,2) h used(3), of "done" c]
  have go: ?case
    if r: "replay_round s done (hs, c) = (Goes_on, done, hs', c2)" and p: "played s c2"
      and m: "length hs' + (length (rs_host s) - rc_recv c2) < length hs + (length (rs_host s) - rc_recv c)"
      and b: "rc_received c2 = rc_received c + 2 * length (heard_bytes h)" for c2
  proof -
    from less.hyps [OF m used(4) p] obtain n c' us rest where n: "replay_rounds n s done (hs', c2) = (Ends, done, rest, c')"
      "hs' = us @ rest" "rc_wire c' = concat (map ev_data (rs_host s))"
      "rc_received c' = rc_received c2 + 2 * length (concat (map heard_bytes us))" by blast
    have "replay_rounds (Suc n) s done (hs, c) = (Ends, done, rest, c')" using r n(1) by simp
    moreover have "hs = (if hs = [] then us else h # us) @ rest" using used(1) n(2) by (auto split: if_splits)
    moreover have "rc_received c' = rc_received c + 2 * length (concat (map heard_bytes (if hs = [] then us else h # us)))"
      using n(4) b used(2) by (auto simp: heard_bytes_def)
    ultimately show ?case using n(3) by blast
  qed
  show ?case
  proof (cases h)
    case Quiet
    show ?thesis
    proof (cases "rc_recv ?c1 < length (rs_host s)")
      case True
      with round Quiet have r: "replay_round s done (hs, c) = (Goes_on, done, hs', ?c1)" by (simp add: Let_def)
      show ?thesis
        by (rule go [OF r e(1)]) (use e True used(1) Quiet in \<open>auto simp: heard_bytes_def split: if_splits dest: arg_cong [of hs _ length]\<close>)
    next
      case False
      with round Quiet have r: "replay_round s done (hs, c) = (Ends, done, hs', ?c1)" by (simp add: Let_def)
      have "rc_wire ?c1 = concat (map ev_data (rs_host s))" using e(1) False by (simp add: played_def)
      moreover have "replay_rounds 1 s done (hs, c) = (Ends, done, hs', ?c1)" using r by simp
      ultimately show ?thesis using used(1) e(2) Quiet
        by (intro exI [of _ 1] exI [of _ ?c1] exI [of _ "if hs = [] then [] else [h]"] exI [of _ hs']) (simp add: heard_bytes_def)
    qed
  next
    case (Heard d)
    let ?c2 = "compare_data s d (?c1\<lparr>rc_received := rc_received ?c1 + length d\<rparr>)"
    from round Heard have r: "replay_round s done (hs, c) = (Goes_on, done, hs', ?c2)" by (simp add: Let_def)
    have p: "played s ?c2" using e(1) by (simp add: compare_data_played) (simp add: played_def)
    have len: "length hs = Suc (length hs')" using used(1,2) Heard arg_cong [OF used(1), of length] by auto
    show ?thesis
      by (rule go [OF r p]) (use e len Heard in \<open>auto simp: compare_data_played heard_bytes_def\<close>)
  qed
qed

text \<open>
  C20. A client that does not hang up gets the data of the host in the lines of the trace, in order and completely,
  whatever it sends and whether or not it is what the trace has; then the server closes. However the network cuts the stream, the client's telnet layer does with it what it would
  do with the lines one by one. Each byte the client sends is counted twice.
\<close>

theorem trace_played_to_client:
  assumes "TraceReplayServer_init ls False False forced = Inr s" and "Heard [] \<notin> set hs" and "telnet_buffer t = []"
  shows "\<exists>n c used rest. replay_rounds n s done (hs, conn_start s) = (Ends, done, rest, c) \<and> hs = used @ rest
    \<and> rc_wire c = concat (map host_data ls) \<and> rc_received c = 2 * length (concat (map heard_bytes used))
    \<and> (\<forall>cs. concat cs = rc_wire c \<longrightarrow> foldl (feed_telnet N) (t, []) cs = foldl (feed_telnet N) (t, []) (map host_data ls))"
proof -
  obtain es where es: "load_events ls 0 [] = Inr es" and s: "rs_host s = filter ev_recv es" "\<not> rs_compat s" "\<not> rs_loop s"
    using assms(1) by (cases "load_events ls 0 []") (auto simp: TraceReplayServer_init_def)
  have "played s (conn_start s)" "rc_received (conn_start s) = 0" using s(2) by (simp_all add: played_def conn_start_def Let_def)
  with plain_run [OF s(2,3) assms(2), of "conn_start s" "done"] obtain n c used rest
    where r: "replay_rounds n s done (hs, conn_start s) = (Ends, done, rest, c)" "hs = used @ rest"
      "rc_wire c = concat (map ev_data (rs_host s))" "rc_received c = 2 * length (concat (map heard_bytes used))" by auto
  have w: "rc_wire c = concat (map host_data ls)" using r(3) s(1) load_events_data [OF es] by simp
  have "t\<lparr>telnet_buffer := []\<rparr> = t" using assms(3) by simp
  then have "buffer_pending N (t, [])" using assms(3) by (simp add: buffer_pending_def)
  from telnet_feed.chunking_irrelevant [OF this] w
  have "\<forall>cs. concat cs = rc_wire c \<longrightarrow> foldl (feed_telnet N) (t, []) cs = foldl (feed_telnet N) (t, []) (map host_data ls)" by metis
  with r(1,2,4) w show ?thesis by blast
qed

text \<open>With the loop, a quiet client gets the trace again and again on the same connection.\<close>

lemma rest_of_trace:
  assumes "rs_loop s" and "\<not> rs_compat s" and "rc_recv c < length (rs_host s)"
  shows "\<exists>c'. replay_rounds (length (rs_host s) - rc_recv c) s done ([], c) = (Goes_on, done, [], c') \<and> rc_recv c' = 0
    \<and> rc_wire c' = rc_wire c @ concat (map ev_data (drop (rc_recv c) (rs_host s)))"
  using assms(3)
proof (induction "length (rs_host s) - rc_recv c" arbitrary: c)
  case (Suc m)
  let ?c1 = "send_event s c"
  have e: "rc_recv ?c1 = rc_recv c + 1" "rc_wire ?c1 = rc_wire c @ ev_data (rs_host s ! rc_recv c)"
    using Suc.prems by (simp_all add: send_event_def send_bytes_def Let_def)
  have d: "drop (rc_recv c) (rs_host s) = rs_host s ! rc_recv c # drop (rc_recv c + 1) (rs_host s)"
    using Suc.prems by (simp add: Cons_nth_drop_Suc)
  have r: "replay_round s done ([], c) = (if rc_recv ?c1 < length (rs_host s) then (Goes_on, done, [], ?c1)
      else (Goes_on, done, [], ?c1\<lparr>rc_send := 0, rc_recv := 0\<rparr>))"
    using assms(1,2) by (simp add: replay_round_def Let_def next_heard_def)
  show ?case
  proof (cases "rc_recv ?c1 < length (rs_host s)")
    case True
    have "m = length (rs_host s) - rc_recv ?c1" using Suc.hyps(2) e(1) by simp
    from Suc.hyps(1) [OF this True] e d r True Suc.hyps(2) [symmetric] show ?thesis
      by (auto simp del: replay_rounds.simps(1)) (metis Suc_diff_Suc \<open>m = _\<close>)
  next
    case False
    then have "m = 0" "drop (rc_recv c + 1) (rs_host s) = []" using Suc.hyps(2) e(1) by simp_all
    with r False Suc.hyps(2) [symmetric] e d show ?thesis by simp
  qed
qed simp

lemma replay_rounds_add:
  "replay_rounds n s done x = (Goes_on, done', y) \<Longrightarrow> replay_rounds (n + k) s done x = replay_rounds k s done' y"
  by (induction n s "done" x rule: replay_rounds.induct) (auto split: going.splits prod.splits)

lemma loop_plays_again:
  assumes "rs_loop s" and "\<not> rs_compat s" and "rs_host s \<noteq> []"
  shows "\<exists>c. replay_rounds (k * length (rs_host s)) s done ([], conn_start s) = (Goes_on, done, [], c) \<and> rc_recv c = 0
    \<and> rc_wire c = concat (replicate k (concat (map ev_data (rs_host s))))"
proof (induction k)
  case 0
  then show ?case using assms(2) by (simp add: conn_start_def Let_def)
next
  case (Suc k)
  then obtain c where c: "replay_rounds (k * length (rs_host s)) s done ([], conn_start s) = (Goes_on, done, [], c)" "rc_recv c = 0"
    "rc_wire c = concat (replicate k (concat (map ev_data (rs_host s))))" by blast
  from rest_of_trace [OF assms(1,2), of c] assms(3) c(2) obtain c' where c':
    "replay_rounds (length (rs_host s)) s done ([], c) = (Goes_on, done, [], c')" "rc_recv c' = 0"
    "rc_wire c' = rc_wire c @ concat (map ev_data (rs_host s))" by auto
  have "rc_wire c' = concat (replicate (Suc k) (concat (map ev_data (rs_host s))))"
    by (metis c'(3) c(3) concat.simps(2) concat_append append_Nil2 concat.simps(1) replicate_append_same replicate_Suc)
  with replay_rounds_add [OF c(1), of "length (rs_host s)"] c' show ?case by (auto simp: add.commute)
qed

text \<open>With its own handshake the server writes that and no more: it never reads, on no connection.\<close>

lemma compat_round_waits:
  "rs_compat s \<Longrightarrow> replay_round s False (hs, conn_start s) = (Goes_on, False, hs, conn_start s)"
  by (simp add: replay_round_def conn_start_def send_bytes_def Let_def)

text \<open>
  C21. A server with the handshake for compatibility plays nothing. Whatever its clients send and in whichever order the
  connections have their turns, all it ever writes on each of them is the handshake, and it reads nothing, since it waits for an answer without reading.
\<close>

theorem handshake_never_ends:
  assumes "rs_compat s"
  shows "foldl (\<lambda>st i. server_turn s i st) (False, map (\<lambda>hs. (hs, conn_start s)) inputs) turns
      = (False, map (\<lambda>hs. (hs, conn_start s)) inputs) \<and> rc_wire (conn_start s) = compat_handshake"
proof -
  have "server_turn s i (False, map (\<lambda>hs. (hs, conn_start s)) inputs) = (False, map (\<lambda>hs. (hs, conn_start s)) inputs)" for i
    using compat_round_waits [OF assms] by (simp add: server_turn_def list_update_same_conv)
  then have "foldl (\<lambda>st i. server_turn s i st) (False, map (\<lambda>hs. (hs, conn_start s)) inputs) turns
      = (False, map (\<lambda>hs. (hs, conn_start s)) inputs)" by (induction turns) simp_all
  with assms show ?thesis by (simp add: conn_start_def send_bytes_def Let_def)
qed

section \<open>Witnesses\<close>

definition demo_trace :: "string list" where
  "demo_trace = [''Host socket read complete nr=5'', ''< 0x0   fffb'', ''< 0x2   18'', ''> 0x0   fffd18'', ''< 0x3   c1c2'']"

theorem trace_played_to_client_witness:
  "\<exists>s n c rest. TraceReplayServer_init demo_trace False False False = Inr s
    \<and> replay_rounds n s False ([Heard [0xFF], Quiet], conn_start s) = (Ends, False, rest, c)
    \<and> rc_wire c = [0xFF, 0xFB, 0x18, 0xC1, 0xC2]
    \<and> foldl (feed_telnet demo_ops) (demo_telnet, []) [[0xFF, 0xFB], [0x18, 0xC1], [0xC2]]
      = foldl (feed_telnet demo_ops) (demo_telnet, []) (map host_data demo_trace)"
proof -
  have "\<not> isl (TraceReplayServer_init demo_trace False False False)" by code_simp
  then obtain s where s: "TraceReplayServer_init demo_trace False False False = Inr s"
    by (cases "TraceReplayServer_init demo_trace False False False") auto
  have d: "concat (map host_data demo_trace) = [0xFF, 0xFB, 0x18, 0xC1, 0xC2]" by code_simp
  have "Heard [] \<notin> set [Heard [0xFF], Quiet]" "telnet_buffer demo_telnet = []" by (simp_all add: demo_telnet_def)
  from trace_played_to_client [OF s this, of False demo_ops, unfolded d] obtain n c rest
    where r: "replay_rounds n s False ([Heard [0xFF], Quiet], conn_start s) = (Ends, False, rest, c)"
      "rc_wire c = [0xFF, 0xFB, 0x18, 0xC1, 0xC2]"
      "\<forall>cs. concat cs = rc_wire c \<longrightarrow> foldl (feed_telnet demo_ops) (demo_telnet, []) cs = foldl (feed_telnet demo_ops) (demo_telnet, []) (map host_data demo_trace)"
    by blast
  have "concat [[0xFF, 0xFB], [0x18, 0xC1], [0xC2]] = rc_wire c" by (simp add: r(2))
  with r(3) have "foldl (feed_telnet demo_ops) (demo_telnet, []) [[0xFF, 0xFB], [0x18, 0xC1], [0xC2]]
      = foldl (feed_telnet demo_ops) (demo_telnet, []) (map host_data demo_trace)" by blast
  with s r(1,2) show ?thesis by blast
qed

theorem handshake_never_ends_witness:
  "let s = \<lparr>rs_host = [], rs_client = [], rs_loop = False, rs_compat = True, rs_force = True\<rparr>
   in snd (foldl (\<lambda>st i. server_turn s i st) (False, map (\<lambda>hs. (hs, conn_start s)) [[Heard [0xFF, 0xFD, 0x28]], []]) [0, 1, 0])
      = [([Heard [0xFF, 0xFD, 0x28]], conn_start s), ([], conn_start s)]"
  using handshake_never_ends [of "\<lparr>rs_host = [], rs_client = [], rs_loop = False, rs_compat = True, rs_force = True\<rparr>"
      "[[Heard [0xFF, 0xFD, 0x28]], []]" "[0, 1, 0]"] by (simp add: Let_def)

end
