(* ===== verification/TraceCodePage.thy ===== *)
theory TraceCodePage
  imports TraceServer SessionScripts
begin

text \<open>
  \<open>detect_codepage_from_trace\<close> of \<open>emulation/ebcdic.py\<close>: the code page of a trace by the name of its file or by one of its
  first lines. Names and lines are ASCII text; \<open>None\<close> is a file that cannot be read.
\<close>

definition three_digits :: "string \<Rightarrow> bool" where
  "three_digits name \<longleftrightarrow> 3 \<le> length name \<and> list_all is_digit_char (take 3 name)"

definition page_of_name :: "string \<Rightarrow> string option" where
  "page_of_name raw =
     (let name = lower raw
      in if three_digits name then Some (''cp'' @ take 3 name)
         else if py_contains ''korean'' name then Some ''cp933''
         else if py_contains ''chinese'' name \<or> py_contains ''937'' name then Some ''cp937''
         else if py_contains ''japanese'' name \<or> py_contains ''939'' name then Some ''cp939''
         else if py_contains ''935'' name then Some ''cp935''
         else if py_contains ''930'' name then Some ''cp930''
         else if py_contains ''938'' name then Some ''cp938''
         else None)"

text \<open>The rest of a text behind a word, and behind some white space. Case makes no difference.\<close>

definition behind_word :: "string \<Rightarrow> string \<Rightarrow> string option" where
  "behind_word w l = (if lower (take (length w) l) = w then Some (drop (length w) l) else None)"

definition behind_space :: "string \<Rightarrow> string option" where
  "behind_space l = (if dropWhile py_space l = l then None else Some (dropWhile py_space l))"

definition number_at :: "string \<Rightarrow> string option" where
  "number_at l = (let ds = takeWhile is_digit_char l in if ds = [] then None else Some (''cp'' @ ds))"

text \<open>\<open>code\s+page\s+(cp\d+)\<close>, \<open>codepage=(cp\d+)\<close> and \<open>-codepage\s+(\d+)\<close> at the head of a text.\<close>

definition named_page :: "string \<Rightarrow> string option" where
  "named_page l =
     Option.bind (behind_word ''code'' l) (\<lambda>l. Option.bind (behind_space l) (\<lambda>l. Option.bind (behind_word ''page'' l) (\<lambda>l.
     Option.bind (behind_space l) (\<lambda>l. Option.bind (behind_word ''cp'' l) number_at))))"

definition set_page :: "string \<Rightarrow> string option" where
  "set_page l = Option.bind (behind_word ''codepage='' l) (\<lambda>l. Option.bind (behind_word ''cp'' l) number_at)"

definition argument_page :: "string \<Rightarrow> string option" where
  "argument_page l = Option.bind (behind_word ''-codepage'' l) (\<lambda>l. Option.bind (behind_space l) number_at)"

text \<open>The first place where the expression matches.\<close>

fun search_for :: "(string \<Rightarrow> string option) \<Rightarrow> string \<Rightarrow> string option" where
  "search_for f [] = f []"
| "search_for f (c # l) = (case f (c # l) of Some r \<Rightarrow> Some r | None \<Rightarrow> search_for f l)"

definition page_of_line :: "string \<Rightarrow> string option" where
  "page_of_line raw =
     (let l = py_strip raw
      in case search_for named_page l of
           Some p \<Rightarrow> Some p
         | None \<Rightarrow>
             (case search_for set_page l of
                Some p \<Rightarrow> Some p
              | None \<Rightarrow> search_for argument_page l))"

fun page_of_lines :: "string list \<Rightarrow> string option" where
  "page_of_lines [] = None"
| "page_of_lines (l # ls) = (case page_of_line l of Some p \<Rightarrow> Some p | None \<Rightarrow> page_of_lines ls)"

definition detect_codepage_from_trace :: "string \<Rightarrow> string list option \<Rightarrow> string" where
  "detect_codepage_from_trace name file =
     (case page_of_name name of
        Some p \<Rightarrow> p
      | None \<Rightarrow>
          (case Option.bind file (\<lambda>ls. page_of_lines (take 20 ls)) of
             Some p \<Rightarrow> p
           | None \<Rightarrow> ''cp037''))"

section \<open>What is detected\<close>

definition page_name :: "string \<Rightarrow> bool" where
  "page_name p \<longleftrightarrow> (\<exists>ds. p = ''cp'' @ ds \<and> ds \<noteq> [] \<and> list_all is_digit_char ds)"

lemma page_name_cp: "ds \<noteq> [] \<Longrightarrow> list_all is_digit_char ds \<Longrightarrow> page_name (CHR ''c'' # CHR ''p'' # ds)"
  by (simp add: page_name_def)

lemma number_at_page: "number_at l = Some p \<Longrightarrow> page_name p"
  by (auto simp: number_at_def Let_def list_all_iff intro!: page_name_cp dest: set_takeWhileD split: if_splits)

lemma search_for_page: "(\<And>l. f l = Some p \<Longrightarrow> page_name p) \<Longrightarrow> search_for f l = Some p \<Longrightarrow> page_name p"
  by (induction f l rule: search_for.induct) (auto split: option.splits)

lemma page_of_line_page: "page_of_line l = Some p \<Longrightarrow> page_name p"
proof -
  have "page_name p" if "search_for f l = Some p" "f \<in> {named_page, set_page, argument_page}" for f l
    by (rule search_for_page [OF _ that(1)])
      (use that(2) in \<open>auto simp: named_page_def set_page_def argument_page_def bind_eq_Some_conv dest: number_at_page\<close>)
  then show "page_of_line l = Some p \<Longrightarrow> page_name p" by (auto simp: page_of_line_def Let_def split: option.splits)
qed

lemma page_of_lines_page: "page_of_lines ls = Some p \<Longrightarrow> page_name p"
  by (induction ls) (auto split: option.splits dest: page_of_line_page)

text \<open>Whatever the file holds and is called, the answer is \<open>cp\<close> and a number, though not always that of a code page.\<close>

lemma detected_page: "page_name (detect_codepage_from_trace name file)"
proof -
  have "page_name p" if "page_of_name name = Some p" for p
    using that by (auto simp: page_of_name_def three_digits_def Let_def is_digit_char_def split: if_splits intro!: page_name_cp)
  moreover have "page_name ''cp037''" by (auto simp: is_digit_char_def intro!: page_name_cp)
  ultimately show ?thesis
    by (auto simp: detect_codepage_from_trace_def bind_eq_Some_conv split: option.splits dest: page_of_lines_page)
qed

end
