(* ===== verification/Spec2Isabelle.thy ===== *)
theory Spec2Isabelle
  imports OrderEffects OrderLoss IndFiles NegotiationFlow TypedText PrintFlow
    PrinterSessionProps StatusReports CircuitBreakerProps PrinterPoolProps DataFlow ErrorHandler
    ClientProps SyncSession Snapshots LuLuSession MockTalk TraceServerProps TraceCodePage
begin

text \<open>
  A verification development for \<open>pure3270\<close>, a 3270 terminal emulator in Python. All paths below are
  under \<open>src/pure3270/\<close>, unless they start with \<open>src/\<close>.

  \<^bold>\<open>The program.\<close> A connection to a mainframe is a Telnet stream. \<open>protocol/tn3270_handler.py\<close> takes
  telnet commands and subnegotiations out of it and hands them to \<open>protocol/negotiator.py\<close>, which
  agrees on options, device type, functions and addressing mode; what remains is a 3270 data stream,
  which \<open>protocol/data_stream.py\<close> parses into changes of \<open>emulation/screen_buffer.py\<close>. A host that
  speaks no 3270 is served by \<open>protocol/vt100_parser.py\<close> on the same screen. The session in
  \<open>session.py\<close> sits on top, \<open>ind_file.py\<close> transfers files inside structured fields, print data go
  to the print components.

  \<^bold>\<open>Theories and code.\<close>
  \<^item> \<open>Prelude3270\<close>: bytes, slices, address decoding, association lists, bounded histories, and the
    locales \<open>bounded_log\<close> and \<open>chunked_feed\<close>, interpreted where the code has such a part.
  \<^item> \<open>Addressing\<close>: \<open>emulation/addressing.py\<close>, \<open>emulation/extended_position.py\<close>.
  \<^item> \<open>ByteParser\<close>: \<open>protocol/parser.py\<close>, the cursor over a byte string, errors as a sum.
  \<^item> \<open>FieldAttributes\<close>: \<open>emulation/field_attributes.py\<close>, seven attribute classes as one datatype.
  \<^item> \<open>Screen\<close>: \<open>emulation/screen_buffer.py\<close> and \<open>buffer_writer.py\<close>. The record \<open>screen\<close> has a field
    for each attribute of the Python object (buffer, three attribute bytes per position, field starts,
    fields, caches, cursor, the counter that suspends detection). \<open>ScreenFields\<close> holds its invariant
    \<open>wf_screen\<close> and the field detection, \<open>ScreenProps\<close> the properties. \<open>ExtScreen\<close> is
    \<open>emulation/extended_screen_buffer.py\<close>.
  \<^item> \<open>DataStream\<close>, \<open>StructuredFields\<close>, \<open>DataStreamParse\<close>: \<open>protocol/data_stream.py\<close>. The record
    \<open>dsp\<close> is the parser with its screen; a handler is a function from it to a result or an exception
    and the state it leaves. \<open>HandlerLaws\<close> proves, by locales over the combinators, that each handler
    only moves forward and keeps what the screen operations keep; \<open>ParseProps\<close>, \<open>OrderProps\<close>,
    \<open>OrderEffects\<close> and \<open>OrderLoss\<close> state what a parse and each order do; \<open>SenderProps\<close> relates the
    builders of \<open>DataStreamSender\<close> to the decoders.
  \<^item> \<open>Telnet\<close> and \<open>HandlerState\<close>: the receiving layer, the connection state machine and the sequence
    numbers of \<open>protocol/tn3270_handler.py\<close>. \<open>Session\<close> composes receiving layer, parser and screen.
  \<^item> \<open>Header3270E\<close>, \<open>BindImages\<close>, \<open>PrintJobs\<close>, \<open>TerminalModels\<close>, \<open>PyText\<close>:
    \<open>protocol/tn3270e_header.py\<close>, \<open>bind_image_parser.py\<close>, \<open>print_job_detector.py\<close>, the registry of
    \<open>protocol/utils.py\<close>, and the operations of Python strings these parts use.
  \<^item> \<open>AddressNegotiation\<close>: \<open>protocol/addressing_negotiation.py\<close> and its drivers.
  \<^item> \<open>Negotiation\<close>, \<open>NegotiationRun\<close>: \<open>protocol/negotiator.py\<close>. The record \<open>neg\<close> is the negotiator,
    with its events as flags and the bytes it writes as a list. \<open>NegotiationProps\<close> has the invariant
    and runs whole negotiations through the receiving layer (the interface \<open>negotiator_ops\<close> of
    \<open>Telnet\<close>, here with the negotiator's own handlers); \<open>NegotiationFlow\<close> has the outcomes.
  \<^item> \<open>VT100\<close>: \<open>protocol/vt100_parser.py\<close>. \<open>IndFiles\<close>: \<open>ind_file.py\<close>.
  \<^item> \<open>Receive\<close>, \<open>Sending\<close>: \<open>receive_data\<close>, its two paths, and the sending operations of
    \<open>protocol/tn3270_handler.py\<close>. The record \<open>receiver\<close> joins the receiving layer with the negotiator in
    it, the parser with the screen in it, the sequence numbers and the pending bytes. \<open>ReceiveProps\<close>
    says what becomes of a record of the host.
  \<^item> \<open>Keyboard\<close>: the operator's commands of \<open>session.py\<close> and what they send. \<open>KeyboardProps\<close> has the
    step relation of a session and its invariant, \<open>TypedText\<close> the effect of typing and erasing on
    the screen and of the keys on the connection.

  \<^item> \<open>CodePages\<close>, \<open>CodePageProps\<close>: \<open>emulation/ebcdic.py\<close>, its tables, functions and codec.
  \<^item> \<open>PrinterBuffer\<close>, \<open>PrinterBufferProps\<close>: \<open>emulation/printer_buffer.py\<close>, print data as lines on
    paper. \<open>PrintFlow\<close> follows a record of print data from the connection to them.
  \<^item> \<open>PrinterSession\<close>, \<open>PrinterSessionProps\<close>: \<open>protocol/printer.py\<close>, jobs and sessions, with the
    refinement of a spool that keeps everything. \<open>Newest\<close> has the locale \<open>tail_store\<close> for lists that
    keep their newest elements, interpreted for the data of a job and for the finished jobs.
  \<^item> \<open>StatusReports\<close>: \<open>protocol/printer_status_reporter.py\<close>, with the task that delivers notifications.
    \<open>CircuitBreaker\<close>, \<open>CircuitBreakerProps\<close>: \<open>protocol/printer_error_recovery.py\<close>.
    \<open>ErrorHandler\<close>: \<open>protocol/printer_error_handler.py\<close>.
  \<^item> \<open>PrinterPool\<close>, \<open>PrinterPoolProps\<close>: \<open>protocol/tcpip_printer_session.py\<close>,
    \<open>tcpip_connection_pool.py\<close> and \<open>tcpip_printer_session_manager.py\<close>. Sessions are shared objects, so
    the pool has a store from addresses to them and its lists hold addresses.
  \<^item> \<open>DataFlow\<close>: \<open>protocol/protocol_translator.py\<close>, \<open>print_job_extractor.py\<close> and
    \<open>data_flow_controller.py\<close>, the last over \<open>PrintJobs\<close> and the manager of \<open>PrinterPool\<close>.
  \<^item> \<open>ScreenText\<close>: the screen and its fields as text in \<open>emulation/screen_buffer.py\<close>.
    \<open>Client3270\<close>, \<open>ClientProps\<close>: \<open>p3270_client.py\<close>, commands as text over the session.
  \<^item> \<open>HandlerConnect\<close>, \<open>HandlerConnectProps\<close>: connecting, negotiating beside the task that reads,
    recovery and closing in \<open>protocol/tn3270_handler.py\<close>, with \<open>session_manager.py\<close>.
    \<open>SessionConnect\<close>: connecting, closing and reconnecting in \<open>session.py\<close>.
  \<^item> \<open>SessionScripts\<close>, \<open>SessionResources\<close>, \<open>SessionCommandProps\<close>: the other commands of \<open>session.py\<close>. A
    command is a function from the arrivals of its reads and the session to an error or none, the session and the
    arrivals left; macros and scripts are composed of the commands of \<open>Keyboard\<close>. Resource files and what they
    change, attributes of fields, the waits.
    \<open>SyncSession\<close>: the synchronous session, over \<open>SessionConnect\<close>.
  \<^item> \<open>Snapshots\<close>: \<open>emulation/snapshot.py\<close>. \<open>TraceReplay\<close>: \<open>trace/replayer.py\<close>, records of a trace into the
    parser, and the resilient parsing of \<open>protocol/tn3270_handler.py\<close>. \<open>LuLuSession\<close>: \<open>lu_lu_session.py\<close>.
  \<^item> \<open>MockServers\<close>: \<open>src/mock_server/\<close>, hosts to test the client with. A server is a function from what arrives
    during its waits to a record \<open>mock\<close> of what it wrote and noted. \<open>MockServerProps\<close> shows what the parser makes of
    their screens, \<open>MockTalk\<close> composes a server with the client's receiving layer and negotiator: each side gets
    what the other writes.
  \<^item> \<open>TraceServer\<close>, \<open>TraceServerProps\<close>: \<open>src/tools/trace_replay_server.py\<close>, a server that plays the host's side of a
    trace. A round of a connection is a function of what the client does in it; several connections take turns.
    \<open>TraceCodePage\<close>: the code page of a trace, from \<open>emulation/ebcdic.py\<close>.

  \<^bold>\<open>What is shown.\<close> The parser returns on every input, raises in one situation only, rolls the screen
  back when a write fails in a way it treats as critical, and keeps the screen well formed; the single
  orders have the effects stated for them; fields partition the screen and lookups find them; text
  sent in any chunks arrives on the screen. The negotiator keeps its invariant, answers each option,
  and its two phases end as stated for every sequence of arrivals. The terminal never leaves the
  screen, file transfers leave nothing behind. The negotiation beside the task that reads refines the
  negotiator on its own; it is stated from which states connecting works and which links stay open. A printer session refines its spool, a record of print
  data reaches the paper as stated, the codec of a code page reads back what it wrote,
  and text in the code page of a screen is shown at its place. The pool lends a
  connection once; the breaker keeps its invariant under any interleaving of calls, and it is stated
  exactly when it closes again. Resources and snapshots are read back as far as stated, the records of a trace all
  reach the parser, and parsing with recovery is parsing once. The menus of the mock servers stand on the client's
  screen cell by cell, and the negotiation of client and server is followed to its end on both sides. A client of
  the server that plays a trace gets the host's data of that trace, and none when the server first negotiates itself. Where the code departs from its comments or from the
  protocol, the departure is itself a lemma on the model (the manifest lists these as findings).

  \<^bold>\<open>Conventions.\<close> A raised exception is \<open>Inl\<close>, a returned value \<open>Inr\<close>; Python integers are \<open>int\<close>,
  bytes \<open>8 word\<close>, dictionaries maps or association lists where their order shows. Waiting is modelled
  by arguments that say what arrives during each wait; an elapsed timeout is a wait after which the
  event is not set.

  \<^bold>\<open>Loops.\<close> The parse loop is a partial function that is proved to return on every input. The loops
  over text and telnet bytes, subnegotiations and environment lists are total functions by the length
  of what is left. The loop of a Modify Field order has fuel, the length of the data, which each of
  its rounds shortens. Retries are bounded by the counters of the code.

  \<^bold>\<open>Parameters.\<close> The code pages where the protocol uses them (decoding and encoding of EBCDIC text),
  the codecs of Python and the optional \<open>ebcdic\<close> package (\<open>codec_world\<close>), callbacks, functions run by a
  circuit breaker with their duration, how printer connections fare (\<open>network\<close>), the operating system and the
  connection of a file transfer (\<open>ind_world\<close>), the consumers of print and file data of the parser
  (what they are told is a list of events), what a host sends during a wait, what each read of the
  connection delivers, whether the link fails when written to (the record \<open>client\<close>), whether a
  connection is made when one is asked for, whether the guard of the negotiation cancels it, the methods
  of a session a script calls with arguments for connecting, reading, converting and printing, the time and the
  text of a resource file, and what arrives in each round of a wait of a session or a server.

  \<^bold>\<open>Not modelled.\<close> Sockets, TLS, threads, locks and the clock; logging, statistics and dictionaries for
  diagnosis; the recorder of traces; the threads, sockets, printed lines and dump files of the
  servers; the validation suite, the other tools and the examples. Locks make the operations under them one step.
\<close>

end
